(* ===== verification/Go_Prelude.thy ===== *)
theory Go_Prelude
  imports Main "HOL-Library.AList" "HOL-Library.Char_ord" "HOL-Library.List_Lexorder"
begin

text \<open>
  The part of the Go language and of its standard library the router is written in,
  and the lemmas every component shares.

  \<^item> A Go \<open>string\<close> is a list of bytes, here \<^typ>\<open>string\<close>. The functions of the
    package \<open>strings\<close> below are those of Go on ASCII text, which is what provider
    prefixes, model IDs, capabilities, header names and reason codes are made of; bytes
    from 128 on are neither white space nor letters here.
  \<^item> A Go \<open>map\<close> is an association list. Its order stands for the order in which
    \<open>range\<close> happens to visit the map, which Go leaves open: a theorem about every
    list is a theorem about every such order. Lookup is \<^const>\<open>map_of\<close>, storing
    \<^const>\<open>AList.update\<close> and the built-in \<open>delete\<close> is \<^const>\<open>AList.delete\<close>.
  \<^item> \<open>time.Time\<close> is the number of nanoseconds since the zero \<open>Time\<close> (1 January of
    year 1, UTC), so that \<open>IsZero\<close> is being 0; \<open>time.Duration\<close> is an \<open>int64\<close> of
    nanoseconds, an \<^typ>\<open>int\<close> with the wrap-around of \<open>wrap64\<close> written out wherever
    a product or a sum of outside values is formed.
  \<^item> Counters that a request increases by one (sequence numbers, revisions,
    generations, metrics) are \<^typ>\<open>nat\<close>: 2 to the 64 increments are out of reach.
\<close>

named_theorems go_string \<open>facts on trimming, case mapping and prefixes of strings\<close>
named_theorems go_map \<open>facts on association lists as Go maps\<close>

section \<open>Strings\<close>

definition is_space :: "char \<Rightarrow> bool" where
  "is_space c \<longleftrightarrow> (let n = (of_char c :: nat) in n = 32 \<or> (9 \<le> n \<and> n \<le> 13))"

definition trim_space :: "string \<Rightarrow> string" where
  "trim_space s = rev (dropWhile is_space (rev (dropWhile is_space s)))"

definition lower_char :: "char \<Rightarrow> char" where
  "lower_char c = (let n = (of_char c :: nat) in if 65 \<le> n \<and> n \<le> 90 then char_of (n + 32) else c)"

definition to_lower :: "string \<Rightarrow> string" where
  "to_lower s = map lower_char s"

definition equal_fold :: "string \<Rightarrow> string \<Rightarrow> bool" where
  "equal_fold s t \<longleftrightarrow> to_lower s = to_lower t"

definition has_prefix :: "string \<Rightarrow> string \<Rightarrow> bool" where
  "has_prefix s p \<longleftrightarrow> take (length p) s = p"

text \<open>The separator byte of composite map keys, \<open>"\x00"\<close>.\<close>

definition nul :: string where
  "nul = [CHR 0x00]"

lemma of_char_lower_char [go_string]:
  "(of_char (lower_char c) :: nat) =
     (if 65 \<le> (of_char c :: nat) \<and> (of_char c :: nat) \<le> 90 then of_char c + 32 else of_char c)"
  by (simp add: lower_char_def Let_def of_char_of)

lemma lower_char_idem [simp]: "lower_char (lower_char c) = lower_char c"
proof -
  have "(of_char (lower_char (lower_char c)) :: nat) = of_char (lower_char c)"
    by (simp add: of_char_lower_char)
  then show ?thesis by simp
qed

lemma is_space_lower_char [simp]: "is_space (lower_char c) = is_space c"
  by (auto simp: is_space_def Let_def of_char_lower_char)

lemma to_lower_idem [simp]: "to_lower (to_lower s) = to_lower s"
  by (simp add: to_lower_def)

lemma length_to_lower [simp]: "length (to_lower s) = length s"
  by (simp add: to_lower_def)

lemma to_lower_Nil_iff [simp]: "to_lower s = [] \<longleftrightarrow> s = []"
  by (simp add: to_lower_def)

lemma dropWhile_map_lower:
  "dropWhile is_space (map lower_char s) = map lower_char (dropWhile is_space s)"
  by (simp add: dropWhile_map comp_def)

lemma trim_space_to_lower [go_string]: "trim_space (to_lower s) = to_lower (trim_space s)"
  by (simp add: trim_space_def to_lower_def dropWhile_map_lower rev_map)

lemma dropWhile_fixed: "dropWhile P xs = xs \<longleftrightarrow> xs = [] \<or> \<not> P (hd xs)"
  by (rule dropWhile_eq_self_iff)

lemma hd_rev_dropWhile:
  assumes "ys \<noteq> []" and "\<not> P (last ys)"
  shows "\<not> P (last (dropWhile P ys))" and "dropWhile P ys \<noteq> []"
proof -
  obtain zs where "ys = zs @ [last ys]" using assms(1) by (metis append_butlast_last_id)
  then have *: "dropWhile P ys = dropWhile P zs @ [last ys]"
    using assms(2) by (metis dropWhile.simps dropWhile_append3)
  then show "\<not> P (last (dropWhile P ys))" and "dropWhile P ys \<noteq> []"
    using assms(2) by simp_all
qed

text \<open>What trimming leaves neither starts nor ends with white space, so trimming again
  changes nothing.\<close>

lemma trim_space_hd:
  assumes "trim_space s \<noteq> []"
  shows "\<not> is_space (hd (trim_space s))"
proof -
  let ?d = "dropWhile is_space s"
  have "?d \<noteq> []"
  proof
    assume "?d = []"
    then have "trim_space s = []" by (simp only: trim_space_def) simp
    with assms show False ..
  qed
  then have "\<not> is_space (hd ?d)" by (rule hd_dropWhile)
  then have "\<not> is_space (last (rev ?d))" by (simp add: last_rev)
  then have "\<not> is_space (last (dropWhile is_space (rev ?d)))"
    using \<open>?d \<noteq> []\<close> by (simp add: hd_rev_dropWhile(1))
  then show ?thesis using assms by (simp add: trim_space_def hd_rev)
qed

lemma trim_space_last:
  assumes "trim_space s \<noteq> []"
  shows "\<not> is_space (last (trim_space s))"
  using assms by (simp add: trim_space_def last_rev hd_dropWhile)

lemma trim_space_id:
  assumes "s \<noteq> [] \<Longrightarrow> \<not> is_space (hd s) \<and> \<not> is_space (last s)"
  shows "trim_space s = s"
proof (cases "s = []")
  case False
  with assms have "dropWhile is_space s = s" "dropWhile is_space (rev s) = rev s"
    by (simp_all add: dropWhile_fixed hd_rev)
  then show ?thesis by (simp add: trim_space_def)
qed (simp add: trim_space_def)

lemma trim_space_idem [simp]: "trim_space (trim_space s) = trim_space s"
  by (rule trim_space_id) (simp add: trim_space_hd trim_space_last)

lemma trim_space_Nil [simp]: "trim_space [] = []"
  by (simp add: trim_space_def)

lemma equal_fold_refl [simp]: "equal_fold s s"
  by (simp add: equal_fold_def)

lemma equal_fold_sym: "equal_fold s t = equal_fold t s"
  by (auto simp: equal_fold_def)

lemma has_prefix_append [simp, go_string]: "has_prefix (p @ s) p"
  by (simp add: has_prefix_def)

lemma has_prefix_drop [go_string]: "has_prefix s p \<Longrightarrow> p @ drop (length p) s = s"
  by (metis append_take_drop_id has_prefix_def)

lemma has_prefixE [elim]:
  assumes "has_prefix s p"
  obtains t where "s = p @ t"
  using assms by (metis has_prefix_drop)

text \<open>Splitting a composite key at its first separator byte recovers both parts when the
  first part has no such byte.\<close>

lemma takeWhile_until: "c \<notin> set a \<Longrightarrow> takeWhile (\<lambda>x. x \<noteq> c) (a @ c # b) = a"
  by (induction a) auto

lemma nul_split:
  assumes "CHR 0x00 \<notin> set a" and "CHR 0x00 \<notin> set a'" and "a @ nul @ b = a' @ nul @ b'"
  shows "a = a' \<and> b = b'"
proof -
  have "takeWhile (\<lambda>c. c \<noteq> CHR 0x00) (a @ nul @ b) = a"
    and "takeWhile (\<lambda>c. c \<noteq> CHR 0x00) (a' @ nul @ b') = a'"
    using assms(1,2) by (simp_all add: nul_def takeWhile_until)
  with assms(3) show ?thesis by simp
qed

section \<open>Time and integers\<close>

type_synonym gotime = int
type_synonym duration = int

definition nanosecond :: duration where "nanosecond = 1"
definition second :: duration where "second = 1000000000"
definition minute :: duration where "minute = 60 * second"
definition hour :: duration where "hour = 60 * minute"

lemmas duration_defs = nanosecond_def second_def minute_def hour_def

definition zero_time :: gotime where
  "zero_time = 0"

text \<open>\<open>Time.Unix\<close>: whole seconds since 1970, for times after the zero time.\<close>

definition unix_seconds :: "gotime \<Rightarrow> int" where
  "unix_seconds t = t div second - 62135596800"

definition wrap64 :: "int \<Rightarrow> int" where
  "wrap64 x = (x + 2 ^ 63) mod 2 ^ 64 - 2 ^ 63"

lemma wrap64_bounds: "- (2 ^ 63) \<le> wrap64 x" "wrap64 x < 2 ^ 63"
  unfolding wrap64_def using pos_mod_bound [of "2 ^ 64" "x + 2 ^ 63"] pos_mod_sign [of "2 ^ 64" "x + 2 ^ 63"]
  by simp_all

lemma wrap64_id: "- (2 ^ 63) \<le> x \<Longrightarrow> x < 2 ^ 63 \<Longrightarrow> wrap64 x = x"
  by (simp add: wrap64_def)

section \<open>Maps\<close>

type_synonym ('k, 'v) gomap = "('k \<times> 'v) list"

definition keys_of :: "('k, 'v) gomap \<Rightarrow> 'k list" where
  "keys_of m = map fst m"

definition has_key :: "('k, 'v) gomap \<Rightarrow> 'k \<Rightarrow> bool" where
  "has_key m k \<longleftrightarrow> map_of m k \<noteq> None"

text \<open>A Go map holds each key once.\<close>

definition wf_map :: "('k, 'v) gomap \<Rightarrow> bool" where
  "wf_map m \<longleftrightarrow> distinct (keys_of m)"

lemma map_of_update [simp, go_map]:
  "map_of (AList.update k v m) k' = (if k' = k then Some v else map_of m k')"
  by (simp add: update_conv')

lemma map_of_delete [simp, go_map]:
  "map_of (AList.delete k m) k' = (if k' = k then None else map_of m k')"
  by (simp add: delete_conv')

lemma has_key_update [simp, go_map]: "has_key (AList.update k v m) k' \<longleftrightarrow> k' = k \<or> has_key m k'"
  by (simp add: has_key_def)

lemma has_key_delete [simp, go_map]: "has_key (AList.delete k m) k' \<longleftrightarrow> k' \<noteq> k \<and> has_key m k'"
  by (simp add: has_key_def)

lemma has_key_iff: "has_key m k \<longleftrightarrow> k \<in> set (keys_of m)"
  by (auto simp: has_key_def keys_of_def map_of_eq_None_iff)

lemma wf_map_Nil [simp, intro]: "wf_map []"
  by (simp add: wf_map_def keys_of_def)

lemma wf_map_update [intro, go_map]: "wf_map m \<Longrightarrow> wf_map (AList.update k v m)"
  by (simp add: wf_map_def keys_of_def distinct_update)

lemma wf_map_delete [intro, go_map]: "wf_map m \<Longrightarrow> wf_map (AList.delete k m)"
  by (simp add: wf_map_def keys_of_def distinct_delete)

lemma wf_map_filter [intro, go_map]: "wf_map m \<Longrightarrow> wf_map (filter P m)"
  by (simp add: wf_map_def keys_of_def distinct_map_filter)

lemma wf_map_Some_iff: "wf_map m \<Longrightarrow> map_of m k = Some v \<longleftrightarrow> (k, v) \<in> set m"
  by (auto simp: wf_map_def keys_of_def)

lemma set_updateD: "(k, v) \<in> set (AList.update k0 v0 m) \<Longrightarrow> (k, v) = (k0, v0) \<or> (k, v) \<in> set m"
  by (induction m) (auto split: if_splits)

lemma length_update_le: "length (AList.update k v m) \<le> Suc (length m)"
  by (induction m) auto

lemma length_update_ge: "length m \<le> length (AList.update k v m)"
  by (induction m) auto

lemma length_update_new: "\<not> has_key m k \<Longrightarrow> length (AList.update k v m) = Suc (length m)"
  by (induction m) (auto simp: has_key_def split: if_splits)

lemma length_update_old: "has_key m k \<Longrightarrow> length (AList.update k v m) = length m"
  by (induction m) (auto simp: has_key_def split: if_splits)

lemma length_delete_le: "length (AList.delete k m) \<le> length m"
  by (simp add: AList.delete_eq)

lemma map_of_filter_key:
  "wf_map m \<Longrightarrow> map_of (filter (\<lambda>(k, v). P k v) m) k =
     (case map_of m k of None \<Rightarrow> None | Some v \<Rightarrow> if P k v then Some v else None)"
  by (induction m) (auto simp: wf_map_def keys_of_def split: option.splits if_splits
      dest: map_of_SomeD intro!: map_of_eq_None_iff [THEN iffD2])

section \<open>Searching lists\<close>

lemma find_append: "find P (xs @ ys) = (case find P xs of None \<Rightarrow> find P ys | Some x \<Rightarrow> Some x)"
  by (induction xs) simp_all

lemma find_Some_in: "find P xs = Some x \<Longrightarrow> x \<in> set xs \<and> P x"
  by (metis find_Some_iff nth_mem)

lemma find_rev_distinct:
  assumes "distinct (map f xs)" and "x \<in> set xs"
  shows "find (\<lambda>y. f y = f x) (rev xs) = Some x"
proof -
  have "find (\<lambda>y. f y = f x) (rev xs) \<noteq> None" using assms(2) by (auto simp: find_None_iff)
  then obtain y where y: "find (\<lambda>y. f y = f x) (rev xs) = Some y" by blast
  then have "y \<in> set xs \<and> f y = f x" by (metis (mono_tags) find_Some_in set_rev)
  then have "y = x" using assms by (metis distinct_map inj_onD)
  with y show ?thesis by simp
qed

section \<open>Results\<close>

text \<open>A Go function that returns a value and an error is an \<open>'e + 'a\<close>, with
  \<^const>\<open>Inl\<close> for the error.\<close>

definition is_ok :: "'e + 'a \<Rightarrow> bool" where
  "is_ok r \<longleftrightarrow> (case r of Inl _ \<Rightarrow> False | Inr _ \<Rightarrow> True)"

lemma is_ok_simps [simp]: "is_ok (Inr a)" "\<not> is_ok (Inl e)"
  by (simp_all add: is_ok_def)

lemma is_okE: "is_ok r \<Longrightarrow> (\<And>a. r = Inr a \<Longrightarrow> P) \<Longrightarrow> P"
  by (cases r) simp_all

section \<open>Bounded histories\<close>

text \<open>
  Three components keep the most recent entries of a log and drop the oldest ones. The
  interface they share: what is retained is the end of what was retained before with the
  new entry, and never more than the limit.
\<close>

definition keep_last :: "nat \<Rightarrow> 'a list \<Rightarrow> 'a list" where
  "keep_last n xs = drop (length xs - n) xs"

lemma length_keep_last [simp]: "length (keep_last n xs) = min n (length xs)"
  by (simp add: keep_last_def)

lemma set_keep_last: "set (keep_last n xs) \<subseteq> set xs"
  by (simp add: keep_last_def set_drop_subset)

lemma keep_last_all [simp]: "length xs \<le> n \<Longrightarrow> keep_last n xs = xs"
  by (simp add: keep_last_def)

lemma last_keep_last: "0 < n \<Longrightarrow> xs \<noteq> [] \<Longrightarrow> last (keep_last n xs) = last xs"
  by (simp add: keep_last_def last_drop)

lemma sorted_wrt_keep_last: "sorted_wrt R xs \<Longrightarrow> sorted_wrt R (keep_last n xs)"
  by (simp add: keep_last_def sorted_wrt_drop)

lemma keep_last_keep_last_append: "keep_last n (keep_last n xs @ ys) = keep_last n (xs @ ys)"
proof (cases "length xs \<le> n")
  case False
  then show ?thesis by (simp add: keep_last_def) (simp add: algebra_simps drop_append)
qed simp

lemma keep_last_upt: "keep_last m [a..<b] = [max a (b - m)..<b]"
proof -
  have "a + (b - a - m) = max a (b - m) \<or> b \<le> a" by arith
  then show ?thesis by (auto simp: keep_last_def drop_upt)
qed

lemma filter_upt_above: "filter (\<lambda>n. k < n) [a..<b] = [max (Suc k) a..<b]"
  by (induction b) auto

locale bounded_log =
  fixes entries :: "'s \<Rightarrow> 'e list"
    and limit :: "'s \<Rightarrow> nat"
    and append_entry :: "'e \<Rightarrow> 's \<Rightarrow> 's"
  assumes limit_append [simp]: "limit (append_entry e s) = limit s"
    and entries_append: "0 < limit s \<Longrightarrow> length (entries s) \<le> limit s \<Longrightarrow>
      entries (append_entry e s) = keep_last (limit s) (entries s @ [e])"
begin

definition bounded :: "'s \<Rightarrow> bool" where
  "bounded s \<longleftrightarrow> 0 < limit s \<and> length (entries s) \<le> limit s"

lemma bounded_append: "bounded s \<Longrightarrow> bounded (append_entry e s)"
  by (simp add: bounded_def entries_append)

lemma newest_kept: "bounded s \<Longrightarrow> last (entries (append_entry e s)) = e"
  by (simp add: bounded_def entries_append last_keep_last)

lemma limit_fold [simp]: "limit (fold append_entry es s) = limit s"
  by (induction es arbitrary: s) simp_all

lemma bounded_fold: "bounded s \<Longrightarrow> bounded (fold append_entry es s)"
  by (induction es arbitrary: s) (simp_all add: bounded_append)

text \<open>After any run, exactly the newest entries up to the limit are retained, in order.\<close>

lemma entries_fold:
  "bounded s \<Longrightarrow> entries (fold append_entry es s) = keep_last (limit s) (entries s @ es)"
proof (induction es arbitrary: s)
  case Nil
  then show ?case by (simp add: bounded_def)
next
  case (Cons e es)
  then have "entries (fold append_entry (e # es) s)
      = keep_last (limit s) (entries (append_entry e s) @ es)"
    by (simp add: bounded_append)
  also have "\<dots> = keep_last (limit s) (entries s @ e # es)"
    using Cons.prems by (simp add: bounded_def entries_append keep_last_keep_last_append)
  finally show ?case .
qed

end

section \<open>Transition systems\<close>

text \<open>The interface of the stateful components whose steps interleave: an initial
  state, a step relation, and an invariant that every step keeps.\<close>

inductive reach :: "('s \<Rightarrow> 's \<Rightarrow> bool) \<Rightarrow> 's \<Rightarrow> 's \<Rightarrow> bool" for step s0 where
  reach_start: "reach step s0 s0"
| reach_step: "reach step s0 s \<Longrightarrow> step s t \<Longrightarrow> reach step s0 t"

locale invariant_system =
  fixes init :: "'s \<Rightarrow> bool"
    and step :: "'s \<Rightarrow> 's \<Rightarrow> bool"
    and invar :: "'s \<Rightarrow> bool"
  assumes invar_init: "init s \<Longrightarrow> invar s"
    and invar_step: "invar s \<Longrightarrow> step s t \<Longrightarrow> invar t"
begin

lemma reachable_invar:
  assumes "reach step s0 s" and "init s0"
  shows "invar s"
  using assms by (induction rule: reach.induct) (auto intro: invar_init invar_step)

end

end
