(* ===== verification/Prefixes.thy ===== *)
theory Prefixes
  imports Go_Prelude
begin

text \<open>
  Provider identifiers, capabilities and the model-ID namespaces of
  \<open>internal/provider/provider.go\<close> and \<open>internal/routing/prefixes.go\<close>: which prefix
  belongs to which provider, and how a public model ID is split into a provider and the
  bare upstream model.
\<close>

section \<open>Identifiers\<close>

type_synonym provider_id = string
type_synonym capability = string

definition Copilot :: provider_id where "Copilot = ''copilot''"
definition Codex :: provider_id where "Codex = ''codex''"
definition Kilo :: provider_id where "Kilo = ''kilo''"

definition CapabilityChat :: capability where "CapabilityChat = ''chat''"
definition CapabilityResponses :: capability where "CapabilityResponses = ''responses''"
definition CapabilityEmbeddings :: capability where "CapabilityEmbeddings = ''embeddings''"

lemmas provider_id_defs = Copilot_def Codex_def Kilo_def
lemmas capability_defs = CapabilityChat_def CapabilityResponses_def CapabilityEmbeddings_def

section \<open>Prefixes\<close>

definition CopilotModelPrefix :: string where "CopilotModelPrefix = ''github/''"
definition CodexModelPrefix :: string where "CodexModelPrefix = ''codex/''"
definition KiloModelPrefix :: string where "KiloModelPrefix = ''kilo/''"

lemmas prefix_defs = CopilotModelPrefix_def CodexModelPrefix_def KiloModelPrefix_def

definition KnownPrefixes :: "string list" where
  "KnownPrefixes = [CopilotModelPrefix, CodexModelPrefix, KiloModelPrefix]"

definition ProviderPrefix :: "provider_id \<Rightarrow> string" where
  "ProviderPrefix p =
     (if p = Copilot then CopilotModelPrefix
      else if p = Codex then CodexModelPrefix
      else if p = Kilo then KiloModelPrefix
      else '''')"

definition ProviderOwnedBy :: "provider_id \<Rightarrow> string" where
  "ProviderOwnedBy p =
     (if p = Copilot then ''github-copilot''
      else if p = Codex then ''openai''
      else if p = Kilo then ''kilo''
      else ''openai'')"

definition AddModelPrefix :: "provider_id \<Rightarrow> string \<Rightarrow> string" where
  "AddModelPrefix p model =
     (let prefix = ProviderPrefix p
      in if prefix = '''' \<or> has_prefix model prefix then model else prefix @ model)"

text \<open>The Go function returns \<open>(bare, providerID, ok)\<close>; so does the model.\<close>

definition StripModelPrefix :: "string \<Rightarrow> string \<times> provider_id \<times> bool" where
  "StripModelPrefix model =
     (if has_prefix model CopilotModelPrefix
      then (drop (length CopilotModelPrefix) model, Copilot, True)
      else if has_prefix model CodexModelPrefix
      then (drop (length CodexModelPrefix) model, Codex, True)
      else if has_prefix model KiloModelPrefix
      then (drop (length KiloModelPrefix) model, Kilo, True)
      else (model, '''', False))"

section \<open>Facts\<close>

text \<open>No two namespaces overlap, so the order of the cases in the code is immaterial.\<close>

lemma has_prefix_disjoint:
  assumes "has_prefix s p" and "has_prefix s q" and "p \<in> set KnownPrefixes" and "q \<in> set KnownPrefixes"
  shows "p = q"
proof -
  obtain t where "s = p @ t" using assms(1) by (rule has_prefixE)
  moreover obtain u where "s = q @ u" using assms(2) by (rule has_prefixE)
  ultimately show ?thesis using assms(3,4) by (auto simp: KnownPrefixes_def prefix_defs)
qed

lemma StripModelPrefix_ok_iff:
  "snd (snd (StripModelPrefix s)) \<longleftrightarrow> (\<exists>p \<in> set KnownPrefixes. has_prefix s p)"
  by (simp add: StripModelPrefix_def KnownPrefixes_def)

lemma StripModelPrefix_known:
  assumes "StripModelPrefix s = (bare, p, True)"
  shows "p \<in> {Copilot, Codex, Kilo}" and "s = ProviderPrefix p @ bare"
  using assms
  by (auto simp: StripModelPrefix_def ProviderPrefix_def provider_id_defs prefix_defs
      split: if_splits dest: has_prefix_drop)

lemma StripModelPrefix_prefixed:
  "p \<in> {Copilot, Codex, Kilo} \<Longrightarrow> StripModelPrefix (ProviderPrefix p @ bare) = (bare, p, True)"
  by (auto simp: StripModelPrefix_def ProviderPrefix_def provider_id_defs prefix_defs has_prefix_def)

lemma StripModelPrefix_unknown:
  assumes "StripModelPrefix s = (bare, p, False)"
  shows "bare = s" and "p = ''''"
  using assms by (auto simp: StripModelPrefix_def split: if_splits)

lemma StripModelPrefix_iff:
  "StripModelPrefix s = (bare, p, True) \<longleftrightarrow> p \<in> {Copilot, Codex, Kilo} \<and> s = ProviderPrefix p @ bare"
  using StripModelPrefix_known StripModelPrefix_prefixed by blast

lemma ProviderPrefix_neq_Nil: "p \<in> {Copilot, Codex, Kilo} \<Longrightarrow> ProviderPrefix p \<noteq> ''''"
  by (auto simp: ProviderPrefix_def prefix_defs)

lemma AddModelPrefix_idem: "AddModelPrefix p (AddModelPrefix p m) = AddModelPrefix p m"
  by (simp add: AddModelPrefix_def Let_def)

lemma Strip_AddModelPrefix:
  assumes "p \<in> {Copilot, Codex, Kilo}" and "\<not> has_prefix m (ProviderPrefix p)"
  shows "StripModelPrefix (AddModelPrefix p m) = (m, p, True)"
proof -
  have "AddModelPrefix p m = ProviderPrefix p @ m"
    using assms ProviderPrefix_neq_Nil by (simp add: AddModelPrefix_def Let_def)
  then show ?thesis using assms(1) by (simp only: StripModelPrefix_prefixed)
qed

text \<open>Namespacing a bare model ID for a provider and splitting the result again gives
  back the provider and the bare ID (a bare ID that already carries the provider's own
  prefix is not prefixed twice), and the split itself loses nothing: it succeeds exactly
  on the IDs that are a known provider's prefix followed by the bare ID it returns.\<close>

theorem prefix_roundtrip:
  assumes "p \<in> {Copilot, Codex, Kilo}" and "\<not> has_prefix m (ProviderPrefix p)"
  shows "StripModelPrefix (AddModelPrefix p m) = (m, p, True)
    \<and> AddModelPrefix p (AddModelPrefix p m) = AddModelPrefix p m
    \<and> (\<forall>s bare q. StripModelPrefix s = (bare, q, True) \<longleftrightarrow>
          q \<in> {Copilot, Codex, Kilo} \<and> s = ProviderPrefix q @ bare)"
  using assms Strip_AddModelPrefix AddModelPrefix_idem StripModelPrefix_iff by blast

theorem prefix_roundtrip_witness:
  "StripModelPrefix (AddModelPrefix Kilo ''kilo-auto/free'') = (''kilo-auto/free'', Kilo, True)"
  using prefix_roundtrip [of Kilo "''kilo-auto/free''"]
  by (simp add: ProviderPrefix_def provider_id_defs prefix_defs has_prefix_def)

end
