(* ===== verification/Config_Schema.thy ===== *)
theory Config_Schema
  imports Prefixes "HOL-Library.Multiset"
begin

text \<open>
  The persisted configuration of \<open>internal/config\<close>: the schema (\<open>types.go\<close>), deep copies
  (\<open>clone.go\<close>), redaction (\<open>redact.go\<close>) and the validation of umbrella models
  (\<open>validate.go\<close>).

  A Go slice or map that may be \<open>nil\<close> is an \<^typ>\<open>'a option\<close> of its contents, because
  the code and the JSON it writes tell \<open>nil\<close> and empty apart; a pointer to a
  \<open>SecretReference\<close> is an option too.
\<close>

section \<open>Schema\<close>

type_synonym 'a slice = "'a list option"

definition items :: "'a slice \<Rightarrow> 'a list" where
  "items s = (case s of None \<Rightarrow> [] | Some xs \<Rightarrow> xs)"

record secret_reference =
  sr_id :: string
  sr_source :: string
  sr_read_only :: bool

record model_map_entry =
  mm_provider :: string
  mm_upstream_model :: string

record virtual_model =
  vm_strategy :: string
  vm_targets :: "string slice"

record routing =
  rt_default_model :: string
  rt_default_provider :: string
  rt_show_unavailable :: bool
  rt_model_map :: "(string, model_map_entry) gomap option"
  rt_claude_aliases :: "(string, string) gomap option"
  rt_virtual_models :: "(string, virtual_model) gomap option"
  rt_expose_internal :: bool

definition VirtualModelStrategyPriority :: string where
  "VirtualModelStrategyPriority = ''priority''"

definition VirtualModelStrategyQuotaPriority :: string where
  "VirtualModelStrategyQuotaPriority = ''quota_priority''"

lemmas strategy_defs = VirtualModelStrategyPriority_def VirtualModelStrategyQuotaPriority_def

record copilot_auth_state =
  ca_mode :: string
  ca_github_token :: string
  ca_github_token_ref :: "secret_reference option"
  ca_copilot_token :: string
  ca_copilot_token_ref :: "secret_reference option"
  ca_expires_at :: int
  ca_refresh_in :: int

record copilot_account =
  cacc_id :: string
  cacc_label :: string
  cacc_auth :: copilot_auth_state
  cacc_last_limited_at :: int

record copilot_provider =
  cp_enabled :: bool
  cp_auth :: copilot_auth_state
  cp_accounts :: "copilot_account slice"
  cp_account_cooldown_seconds :: int
  cp_allowed_models :: "string slice"

record codex_auth_state =
  xa_mode :: string
  xa_api_key :: string
  xa_api_key_ref :: "secret_reference option"
  xa_access_token :: string
  xa_access_token_ref :: "secret_reference option"
  xa_refresh_token :: string
  xa_refresh_token_ref :: "secret_reference option"
  xa_expires_at :: int
  xa_account_id :: string

record codex_account =
  xacc_id :: string
  xacc_label :: string
  xacc_auth :: codex_auth_state
  xacc_last_limited_at :: int

record codex_provider =
  xp_enabled :: bool
  xp_auth :: codex_auth_state
  xp_accounts :: "codex_account slice"
  xp_account_cooldown_seconds :: int
  xp_allowed_models :: "string slice"
  xp_chatgpt_base_url :: string

record kilo_provider =
  kp_enabled :: bool
  kp_allow_anonymous :: bool
  kp_api_key :: string
  kp_api_key_ref :: "secret_reference option"
  kp_organization_id :: string
  kp_organization_id_ref :: "secret_reference option"
  kp_base_url :: string
  kp_allowed_models :: "string slice"

record providers =
  pv_copilot :: copilot_provider
  pv_codex :: codex_provider
  pv_kilo :: kilo_provider

record timeouts =
  to_http_client :: int
  to_server_read :: int
  to_server_write :: int
  to_server_idle :: int
  to_proxy_context :: int
  to_circuit_breaker :: int
  to_keep_alive :: int
  to_tls_handshake :: int
  to_dial_timeout :: int
  to_idle_conn_timeout :: int

record logging =
  lg_file_path :: string
  lg_max_file_size_mib :: int
  lg_retained_files :: int

record config =
  cfg_port :: int
  cfg_version :: int
  cfg_enable_pprof :: bool
  cfg_logging :: logging
  cfg_routing :: routing
  cfg_providers :: providers
  cfg_timeouts :: timeouts

text \<open>The zero values of Go.\<close>

definition zero_copilot_auth :: copilot_auth_state where
  "zero_copilot_auth = \<lparr>ca_mode = '''', ca_github_token = '''', ca_github_token_ref = None,
     ca_copilot_token = '''', ca_copilot_token_ref = None, ca_expires_at = 0, ca_refresh_in = 0\<rparr>"

definition zero_codex_auth :: codex_auth_state where
  "zero_codex_auth = \<lparr>xa_mode = '''', xa_api_key = '''', xa_api_key_ref = None, xa_access_token = '''',
     xa_access_token_ref = None, xa_refresh_token = '''', xa_refresh_token_ref = None,
     xa_expires_at = 0, xa_account_id = ''''\<rparr>"

definition zero_timeouts :: timeouts where
  "zero_timeouts = \<lparr>to_http_client = 0, to_server_read = 0, to_server_write = 0, to_server_idle = 0,
     to_proxy_context = 0, to_circuit_breaker = 0, to_keep_alive = 0, to_tls_handshake = 0,
     to_dial_timeout = 0, to_idle_conn_timeout = 0\<rparr>"

definition zero_config :: config where
  "zero_config = \<lparr>cfg_port = 0, cfg_version = 0, cfg_enable_pprof = False,
     cfg_logging = \<lparr>lg_file_path = '''', lg_max_file_size_mib = 0, lg_retained_files = 0\<rparr>,
     cfg_routing = \<lparr>rt_default_model = '''', rt_default_provider = '''', rt_show_unavailable = False,
       rt_model_map = None, rt_claude_aliases = None, rt_virtual_models = None, rt_expose_internal = False\<rparr>,
     cfg_providers = \<lparr>
       pv_copilot = \<lparr>cp_enabled = False, cp_auth = zero_copilot_auth, cp_accounts = None,
         cp_account_cooldown_seconds = 0, cp_allowed_models = None\<rparr>,
       pv_codex = \<lparr>xp_enabled = False, xp_auth = zero_codex_auth, xp_accounts = None,
         xp_account_cooldown_seconds = 0, xp_allowed_models = None, xp_chatgpt_base_url = ''''\<rparr>,
       pv_kilo = \<lparr>kp_enabled = False, kp_allow_anonymous = False, kp_api_key = '''', kp_api_key_ref = None,
         kp_organization_id = '''', kp_organization_id_ref = None, kp_base_url = '''', kp_allowed_models = None\<rparr>\<rparr>,
     cfg_timeouts = zero_timeouts\<rparr>"

section \<open>Clone\<close>

text \<open>\<open>append([]string(nil), source...)\<close> of an empty slice is \<open>nil\<close>.\<close>

definition append_nil :: "'a list \<Rightarrow> 'a slice" where
  "append_nil xs = (if xs = [] then None else Some xs)"

definition cloneStrings :: "string slice \<Rightarrow> string slice" where
  "cloneStrings s = (case s of None \<Rightarrow> None | Some xs \<Rightarrow> append_nil xs)"

definition cloneSecretReference :: "secret_reference option \<Rightarrow> secret_reference option" where
  "cloneSecretReference r = (case r of None \<Rightarrow> None | Some x \<Rightarrow> Some x)"

definition cloneModelMap :: "(string, model_map_entry) gomap option \<Rightarrow> (string, model_map_entry) gomap option" where
  "cloneModelMap m = (case m of None \<Rightarrow> None | Some kvs \<Rightarrow> Some (map (\<lambda>(k, v). (k, v)) kvs))"

definition cloneVirtualModels :: "(string, virtual_model) gomap option \<Rightarrow> (string, virtual_model) gomap option" where
  "cloneVirtualModels m =
     (case m of None \<Rightarrow> None
      | Some kvs \<Rightarrow> Some (map (\<lambda>(k, v). (k, v\<lparr>vm_targets := cloneStrings (vm_targets v)\<rparr>)) kvs))"

definition cloneCopilotAuth :: "copilot_auth_state \<Rightarrow> copilot_auth_state" where
  "cloneCopilotAuth a = a\<lparr>ca_github_token_ref := cloneSecretReference (ca_github_token_ref a),
     ca_copilot_token_ref := cloneSecretReference (ca_copilot_token_ref a)\<rparr>"

definition cloneCodexAuth :: "codex_auth_state \<Rightarrow> codex_auth_state" where
  "cloneCodexAuth a = a\<lparr>xa_api_key_ref := cloneSecretReference (xa_api_key_ref a),
     xa_access_token_ref := cloneSecretReference (xa_access_token_ref a),
     xa_refresh_token_ref := cloneSecretReference (xa_refresh_token_ref a)\<rparr>"

definition cloneCopilotAccounts :: "copilot_account slice \<Rightarrow> copilot_account slice" where
  "cloneCopilotAccounts s =
     (case s of None \<Rightarrow> None
      | Some xs \<Rightarrow> append_nil (map (\<lambda>a. a\<lparr>cacc_auth := cloneCopilotAuth (cacc_auth a)\<rparr>) xs))"

definition cloneCodexAccounts :: "codex_account slice \<Rightarrow> codex_account slice" where
  "cloneCodexAccounts s =
     (case s of None \<Rightarrow> None
      | Some xs \<Rightarrow> append_nil (map (\<lambda>a. a\<lparr>xacc_auth := cloneCodexAuth (xacc_auth a)\<rparr>) xs))"

definition Clone :: "config \<Rightarrow> config" where
  "Clone source =
     (let rt = cfg_routing source; pv = cfg_providers source;
          cp = pv_copilot pv; xp = pv_codex pv; kp = pv_kilo pv
      in source
        \<lparr>cfg_routing := rt\<lparr>rt_model_map := cloneModelMap (rt_model_map rt),
            rt_virtual_models := cloneVirtualModels (rt_virtual_models rt)\<rparr>,
         cfg_providers := pv
           \<lparr>pv_copilot := cp\<lparr>cp_auth := cloneCopilotAuth (cp_auth cp),
               cp_allowed_models := cloneStrings (cp_allowed_models cp),
               cp_accounts := cloneCopilotAccounts (cp_accounts cp)\<rparr>,
            pv_codex := xp\<lparr>xp_auth := cloneCodexAuth (xp_auth xp),
               xp_allowed_models := cloneStrings (xp_allowed_models xp),
               xp_accounts := cloneCodexAccounts (xp_accounts xp)\<rparr>,
            pv_kilo := kp\<lparr>kp_api_key_ref := cloneSecretReference (kp_api_key_ref kp),
               kp_organization_id_ref := cloneSecretReference (kp_organization_id_ref kp),
               kp_allowed_models := cloneStrings (kp_allowed_models kp)\<rparr>\<rparr>\<rparr>)"

section \<open>Redact\<close>

definition redactCopilotAuth :: "copilot_auth_state \<Rightarrow> copilot_auth_state" where
  "redactCopilotAuth a = a\<lparr>ca_github_token := '''', ca_copilot_token := ''''\<rparr>"

definition redactCodexAuth :: "codex_auth_state \<Rightarrow> codex_auth_state" where
  "redactCodexAuth a = a\<lparr>xa_api_key := '''', xa_access_token := '''', xa_refresh_token := '''',
     xa_account_id := ''''\<rparr>"

definition redactCopilotAccount :: "copilot_account \<Rightarrow> copilot_account" where
  "redactCopilotAccount a = a\<lparr>cacc_auth := redactCopilotAuth (cacc_auth a)\<rparr>"

definition redactCodexAccount :: "codex_account \<Rightarrow> codex_account" where
  "redactCodexAccount a = a\<lparr>xacc_auth := redactCodexAuth (xacc_auth a)\<rparr>"

definition Redact :: "config \<Rightarrow> config" where
  "Redact source =
     (let cloned = Clone source; pv = cfg_providers cloned;
          cp = pv_copilot pv; xp = pv_codex pv; kp = pv_kilo pv
      in cloned
        \<lparr>cfg_providers := pv
           \<lparr>pv_copilot := cp\<lparr>cp_auth := redactCopilotAuth (cp_auth cp),
               cp_accounts := map_option (map redactCopilotAccount) (cp_accounts cp)\<rparr>,
            pv_codex := xp\<lparr>xp_auth := redactCodexAuth (xp_auth xp),
               xp_accounts := map_option (map redactCodexAccount) (xp_accounts xp)\<rparr>,
            pv_kilo := kp\<lparr>kp_api_key := '''', kp_organization_id := ''''\<rparr>\<rparr>\<rparr>)"

section \<open>Validation of umbrella models\<close>

datatype vm_error =
    EmptyVirtualID
  | ReservedPrefix string string
  | ShadowsModelMap string
  | UnsupportedStrategy string string
  | NoTargets string
  | EmptyTarget string
  | DuplicateTarget string string
  | UmbrellaReference string string
  | UnknownTargetPrefix string string

definition matchKnownPrefix :: "string \<Rightarrow> string list \<Rightarrow> string option" where
  "matchKnownPrefix s known = find (\<lambda>p. p \<noteq> '''' \<and> has_prefix s p) known"

text \<open>The inner loop over the targets of one umbrella model, with the set \<open>seen\<close>.\<close>

fun validate_targets :: "string \<Rightarrow> (string, virtual_model) gomap \<Rightarrow> string list \<Rightarrow> string list \<Rightarrow> string list \<Rightarrow> vm_error option" where
  "validate_targets vid vms known seen [] = None"
| "validate_targets vid vms known seen (target # rest) =
     (let trimmed = trim_space target in
      if trimmed = '''' then Some (EmptyTarget vid)
      else if trimmed \<in> set seen then Some (DuplicateTarget vid trimmed)
      else if has_key vms trimmed then Some (UmbrellaReference vid trimmed)
      else if matchKnownPrefix trimmed known = None then Some (UnknownTargetPrefix vid trimmed)
      else validate_targets vid vms known (trimmed # seen) rest)"

definition validate_virtual_model ::
    "routing \<Rightarrow> (string, virtual_model) gomap \<Rightarrow> string list \<Rightarrow> string \<Rightarrow> virtual_model \<Rightarrow> vm_error option" where
  "validate_virtual_model r vms known vid vm =
     (if trim_space vid = '''' then Some EmptyVirtualID
      else case matchKnownPrefix vid known of Some p \<Rightarrow> Some (ReservedPrefix vid p)
      | None \<Rightarrow>
        if has_key (items (rt_model_map r)) vid then Some (ShadowsModelMap vid)
        else if vm_strategy vm \<noteq> VirtualModelStrategyPriority
             \<and> vm_strategy vm \<noteq> VirtualModelStrategyQuotaPriority
        then Some (UnsupportedStrategy vid (vm_strategy vm))
        else if items (vm_targets vm) = [] then Some (NoTargets vid)
        else validate_targets vid vms known [] (items (vm_targets vm)))"

text \<open>The outer loop visits the IDs in sorted order and stops at the first error.\<close>

fun validate_ids ::
    "routing \<Rightarrow> (string, virtual_model) gomap \<Rightarrow> string list \<Rightarrow> string list \<Rightarrow> vm_error option" where
  "validate_ids r vms known [] = None"
| "validate_ids r vms known (vid # ids) =
     (case map_of vms vid of
        None \<Rightarrow> validate_ids r vms known ids
      | Some vm \<Rightarrow>
        (case validate_virtual_model r vms known vid vm of
           Some e \<Rightarrow> Some e
         | None \<Rightarrow> validate_ids r vms known ids))"

definition ValidateVirtualModels :: "routing \<Rightarrow> string list \<Rightarrow> vm_error option" where
  "ValidateVirtualModels r known =
     (let vms = items (rt_virtual_models r)
      in if vms = [] then None else validate_ids r vms known (sort (keys_of vms)))"

section \<open>Facts on copies and redaction\<close>

lemma items_simps [simp]: "items None = []" "items (Some xs) = xs"
  by (simp_all add: items_def)

lemma append_nil_items [simp]: "items (append_nil xs) = xs"
  by (simp add: append_nil_def)

lemma map_append_nil [simp]: "map_option (map f) (append_nil xs) = append_nil (map f xs)"
  by (simp add: append_nil_def)

lemma cloneStrings_items [simp]: "items (cloneStrings s) = items s"
  by (simp add: cloneStrings_def split: option.splits)

lemma cloneSecretReference_id [simp]: "cloneSecretReference r = r"
  by (simp add: cloneSecretReference_def split: option.splits)

lemma cloneModelMap_id [simp]: "cloneModelMap m = m"
  by (simp add: cloneModelMap_def case_prod_unfold split: option.splits)

lemma cloneCopilotAuth_id [simp]: "cloneCopilotAuth a = a"
  by (simp add: cloneCopilotAuth_def)

lemma cloneCodexAuth_id [simp]: "cloneCodexAuth a = a"
  by (simp add: cloneCodexAuth_def)

lemma cloneCopilotAccounts_eq [simp]: "cloneCopilotAccounts s = Option.bind s append_nil"
  by (simp add: cloneCopilotAccounts_def split: option.splits)

lemma cloneCodexAccounts_eq [simp]: "cloneCodexAccounts s = Option.bind s append_nil"
  by (simp add: cloneCodexAccounts_def split: option.splits)

lemma cloneStrings_eq: "cloneStrings s = Option.bind s append_nil"
  by (simp add: cloneStrings_def split: option.splits)

lemma bind_append_nil_idem [simp]: "Option.bind (append_nil xs) append_nil = append_nil xs"
  by (simp add: append_nil_def)

lemma bind_append_nil_items [simp]: "items (Option.bind s append_nil) = items s"
  by (cases s) simp_all

lemma bind_append_nil_map [simp]:
  "Option.bind (map_option (map f) s) append_nil = map_option (map f) (Option.bind s append_nil)"
  by (cases s) (simp_all add: append_nil_def)

lemma cloneVirtualModels_map_of:
  "map_of (items (cloneVirtualModels m)) k =
     map_option (\<lambda>v. v\<lparr>vm_targets := cloneStrings (vm_targets v)\<rparr>) (map_of (items m) k)"
  by (cases m) (simp_all add: cloneVirtualModels_def map_of_map)

lemma cloneVirtualModels_keys [simp]: "keys_of (items (cloneVirtualModels m)) = keys_of (items m)"
  by (cases m) (auto simp: cloneVirtualModels_def keys_of_def)

lemma cloneVirtualModels_idem [simp]: "cloneVirtualModels (cloneVirtualModels m) = cloneVirtualModels m"
  by (cases m) (simp_all add: cloneVirtualModels_def cloneStrings_eq case_prod_unfold)

lemma Clone_idem [simp]: "Clone (Clone c) = Clone c"
  by (simp add: Clone_def Let_def cloneStrings_eq)

text \<open>The secrets of a configuration: every raw credential field of the schema.\<close>

definition copilot_auth_secrets :: "copilot_auth_state \<Rightarrow> string list" where
  "copilot_auth_secrets a = [ca_github_token a, ca_copilot_token a]"

definition codex_auth_secrets :: "codex_auth_state \<Rightarrow> string list" where
  "codex_auth_secrets a = [xa_api_key a, xa_access_token a, xa_refresh_token a, xa_account_id a]"

definition config_secrets :: "config \<Rightarrow> string list" where
  "config_secrets c =
     (let pv = cfg_providers c in
      copilot_auth_secrets (cp_auth (pv_copilot pv))
      @ concat (map (copilot_auth_secrets \<circ> cacc_auth) (items (cp_accounts (pv_copilot pv))))
      @ codex_auth_secrets (xp_auth (pv_codex pv))
      @ concat (map (codex_auth_secrets \<circ> xacc_auth) (items (xp_accounts (pv_codex pv))))
      @ [kp_api_key (pv_kilo pv), kp_organization_id (pv_kilo pv)])"

text \<open>What a reader without credentials may see: two auth states agree on it when all
  their other fields (mode, references, expiry) are equal.\<close>

definition copilot_auth_public :: "copilot_auth_state \<Rightarrow> string \<times> secret_reference option \<times> secret_reference option \<times> int \<times> int" where
  "copilot_auth_public a = (ca_mode a, ca_github_token_ref a, ca_copilot_token_ref a, ca_expires_at a, ca_refresh_in a)"

definition codex_auth_public ::
    "codex_auth_state \<Rightarrow> string \<times> secret_reference option \<times> secret_reference option \<times> secret_reference option \<times> int" where
  "codex_auth_public a = (xa_mode a, xa_api_key_ref a, xa_access_token_ref a, xa_refresh_token_ref a, xa_expires_at a)"

definition copilot_account_public where
  "copilot_account_public a = (cacc_id a, cacc_label a, copilot_auth_public (cacc_auth a), cacc_last_limited_at a)"

definition codex_account_public where
  "codex_account_public a = (xacc_id a, xacc_label a, codex_auth_public (xacc_auth a), xacc_last_limited_at a)"

lemma redactCopilotAuth_public: "redactCopilotAuth a = redactCopilotAuth b \<longleftrightarrow> copilot_auth_public a = copilot_auth_public b"
  by (cases a; cases b) (auto simp: redactCopilotAuth_def copilot_auth_public_def)

lemma redactCodexAuth_public: "redactCodexAuth a = redactCodexAuth b \<longleftrightarrow> codex_auth_public a = codex_auth_public b"
  by (cases a; cases b) (auto simp: redactCodexAuth_def codex_auth_public_def)

lemma redactCopilotAccount_public:
  "redactCopilotAccount a = redactCopilotAccount b \<longleftrightarrow> copilot_account_public a = copilot_account_public b"
  using redactCopilotAuth_public [of "cacc_auth a" "cacc_auth b"]
  by (cases a; cases b) (auto simp: redactCopilotAccount_def copilot_account_public_def)

lemma redactCodexAccount_public:
  "redactCodexAccount a = redactCodexAccount b \<longleftrightarrow> codex_account_public a = codex_account_public b"
  using redactCodexAuth_public [of "xacc_auth a" "xacc_auth b"]
  by (cases a; cases b) (auto simp: redactCodexAccount_def codex_account_public_def)

lemma map_eq_map_iff_by:
  assumes "\<And>a b. f a = f b \<longleftrightarrow> g a = g b"
  shows "map f xs = map f ys \<longleftrightarrow> map g xs = map g ys"
  by (auto simp: list_eq_iff_nth_eq assms)

definition config_public where
  "config_public c =
     (let d = Clone c; pv = cfg_providers d; cp = pv_copilot pv; xp = pv_codex pv; kp = pv_kilo pv in
      ((cfg_port d, cfg_version d, cfg_enable_pprof d, cfg_logging d, cfg_routing d, cfg_timeouts d),
       (cp_enabled cp, copilot_auth_public (cp_auth cp), map copilot_account_public (items (cp_accounts cp)),
        cp_account_cooldown_seconds cp, cp_allowed_models cp),
       (xp_enabled xp, codex_auth_public (xp_auth xp), map codex_account_public (items (xp_accounts xp)),
        xp_account_cooldown_seconds xp, xp_allowed_models xp, xp_chatgpt_base_url xp),
       (kp_enabled kp, kp_allow_anonymous kp, kp_api_key_ref kp, kp_organization_id_ref kp, kp_base_url kp,
        kp_allowed_models kp)))"

lemma append_nil_inject [simp]: "append_nil xs = append_nil ys \<longleftrightarrow> xs = ys"
  by (auto simp: append_nil_def)

lemma bind_append_nil: "Option.bind s append_nil = append_nil (items s)"
  by (cases s) (simp_all add: append_nil_def)

lemma config_eq_iff:
  "(c :: config) = d \<longleftrightarrow>
     cfg_port c = cfg_port d
     \<and> cfg_version c = cfg_version d
     \<and> cfg_enable_pprof c = cfg_enable_pprof d
     \<and> cfg_logging c = cfg_logging d
     \<and> cfg_routing c = cfg_routing d
     \<and> cfg_providers c = cfg_providers d
     \<and> cfg_timeouts c = cfg_timeouts d"
  by (cases c; cases d) simp

lemma providers_eq_iff:
  "(c :: providers) = d \<longleftrightarrow>
     pv_copilot c = pv_copilot d
     \<and> pv_codex c = pv_codex d
     \<and> pv_kilo c = pv_kilo d"
  by (cases c; cases d) simp

lemma copilot_provider_eq_iff:
  "(c :: copilot_provider) = d \<longleftrightarrow>
     cp_enabled c = cp_enabled d
     \<and> cp_auth c = cp_auth d
     \<and> cp_accounts c = cp_accounts d
     \<and> cp_account_cooldown_seconds c = cp_account_cooldown_seconds d
     \<and> cp_allowed_models c = cp_allowed_models d"
  by (cases c; cases d) simp

lemma codex_provider_eq_iff:
  "(c :: codex_provider) = d \<longleftrightarrow>
     xp_enabled c = xp_enabled d
     \<and> xp_auth c = xp_auth d
     \<and> xp_accounts c = xp_accounts d
     \<and> xp_account_cooldown_seconds c = xp_account_cooldown_seconds d
     \<and> xp_allowed_models c = xp_allowed_models d
     \<and> xp_chatgpt_base_url c = xp_chatgpt_base_url d"
  by (cases c; cases d) simp

lemma kilo_provider_eq_iff:
  "(c :: kilo_provider) = d \<longleftrightarrow>
     kp_enabled c = kp_enabled d
     \<and> kp_allow_anonymous c = kp_allow_anonymous d
     \<and> kp_api_key c = kp_api_key d
     \<and> kp_api_key_ref c = kp_api_key_ref d
     \<and> kp_organization_id c = kp_organization_id d
     \<and> kp_organization_id_ref c = kp_organization_id_ref d
     \<and> kp_base_url c = kp_base_url d
     \<and> kp_allowed_models c = kp_allowed_models d"
  by (cases c; cases d) simp

lemmas config_eq_iffs = config_eq_iff providers_eq_iff copilot_provider_eq_iff codex_provider_eq_iff kilo_provider_eq_iff

lemma Redact_eq_iff_public: "Redact c = Redact d \<longleftrightarrow> config_public c = config_public d"
  unfolding Redact_def config_public_def Clone_def Let_def
  by (simp add: config_eq_iffs bind_append_nil redactCopilotAuth_public redactCodexAuth_public
      map_eq_map_iff_by [OF redactCopilotAccount_public] map_eq_map_iff_by [OF redactCodexAccount_public])
    blast

text \<open>C39: redaction removes every raw credential of the schema (the single-account and pooled
  tokens of Copilot and Codex, the Codex account ID, Kilo's key and organisation) and
  removes nothing else: two configurations redact to the same read model exactly when
  they agree on everything that is not a credential (an empty list counting as a
  missing one, as copies make it), so no information about a credential survives, and
  redacting twice changes nothing.\<close>

theorem redact_noninterference:
  "set (config_secrets (Redact c)) = {''''}
   \<and> (Redact c = Redact d \<longleftrightarrow> config_public c = config_public d)
   \<and> Redact (Redact c) = Redact c"
proof (intro conjI)
  show "set (config_secrets (Redact c)) = {''''}"
    by (auto simp: config_secrets_def Redact_def Clone_def Let_def bind_append_nil copilot_auth_secrets_def
        codex_auth_secrets_def redactCopilotAuth_def redactCodexAuth_def redactCopilotAccount_def
        redactCodexAccount_def)
  show "Redact c = Redact d \<longleftrightarrow> config_public c = config_public d"
    by (rule Redact_eq_iff_public)
  have "config_public (Redact c) = config_public c"
    by (simp add: config_public_def Redact_def Clone_def Let_def bind_append_nil cloneStrings_eq comp_def
        copilot_auth_public_def codex_auth_public_def copilot_account_public_def codex_account_public_def
        redactCopilotAuth_def redactCodexAuth_def redactCopilotAccount_def redactCodexAccount_def)
  then show "Redact (Redact c) = Redact c" by (simp only: Redact_eq_iff_public)
qed

section \<open>Facts on validation\<close>

text \<open>The declarative meaning of a well-formed umbrella model.\<close>

definition target_ok :: "(string, virtual_model) gomap \<Rightarrow> string list \<Rightarrow> string \<Rightarrow> bool" where
  "target_ok vms known t \<longleftrightarrow> trim_space t \<noteq> '''' \<and> \<not> has_key vms (trim_space t)
     \<and> (\<exists>p \<in> set known. p \<noteq> '''' \<and> has_prefix (trim_space t) p)"

definition virtual_model_ok :: "routing \<Rightarrow> string list \<Rightarrow> string \<Rightarrow> virtual_model \<Rightarrow> bool" where
  "virtual_model_ok r known vid vm \<longleftrightarrow>
     trim_space vid \<noteq> ''''
     \<and> \<not> (\<exists>p \<in> set known. p \<noteq> '''' \<and> has_prefix vid p)
     \<and> \<not> has_key (items (rt_model_map r)) vid
     \<and> vm_strategy vm \<in> {VirtualModelStrategyPriority, VirtualModelStrategyQuotaPriority}
     \<and> items (vm_targets vm) \<noteq> []
     \<and> distinct (map trim_space (items (vm_targets vm)))
     \<and> (\<forall>t \<in> set (items (vm_targets vm)). target_ok (items (rt_virtual_models r)) known t)"

lemma matchKnownPrefix_None: "matchKnownPrefix s known = None \<longleftrightarrow> \<not> (\<exists>p \<in> set known. p \<noteq> '''' \<and> has_prefix s p)"
  by (auto simp: matchKnownPrefix_def find_None_iff)

lemma validate_targets_None:
  "validate_targets vid vms known seen ts = None \<longleftrightarrow>
     (\<forall>t \<in> set ts. target_ok vms known t \<and> trim_space t \<notin> set seen) \<and> distinct (map trim_space ts)"
proof (induction ts arbitrary: seen)
  case (Cons target rest)
  have "(\<forall>t \<in> set rest. trim_space t \<noteq> trim_space target) \<longleftrightarrow> trim_space target \<notin> set (map trim_space rest)"
    by (simp add: image_iff) metis
  with Cons.IH [of "trim_space target # seen"] show ?case
    by (auto simp: Let_def target_ok_def matchKnownPrefix_None)
qed simp

lemma validate_virtual_model_None:
  "validate_virtual_model r (items (rt_virtual_models r)) known vid vm = None \<longleftrightarrow> virtual_model_ok r known vid vm"
  by (auto simp: validate_virtual_model_def virtual_model_ok_def validate_targets_None matchKnownPrefix_None
      matchKnownPrefix_def [symmetric] split: option.splits)
     (metis matchKnownPrefix_None option.distinct(1))+

lemma validate_ids_None:
  "validate_ids r vms known ids = None \<longleftrightarrow>
     (\<forall>vid \<in> set ids. \<forall>vm. map_of vms vid = Some vm \<longrightarrow> validate_virtual_model r vms known vid vm = None)"
  by (induction ids) (auto split: option.splits)

lemma ValidateVirtualModels_None:
  assumes "wf_map (items (rt_virtual_models r))"
  shows "ValidateVirtualModels r known = None \<longleftrightarrow>
    (\<forall>(vid, vm) \<in> set (items (rt_virtual_models r)). virtual_model_ok r known vid vm)"
proof -
  let ?vms = "items (rt_virtual_models r)"
  have "(\<forall>vid \<in> set (keys_of ?vms). \<forall>vm. map_of ?vms vid = Some vm \<longrightarrow> P vid vm)
      \<longleftrightarrow> (\<forall>(vid, vm) \<in> set ?vms. P vid vm)" for P
    using assms by (auto simp: wf_map_Some_iff keys_of_def)
  then show ?thesis
    by (simp add: ValidateVirtualModels_def Let_def validate_ids_None validate_virtual_model_None)
qed

text \<open>The verdict only reads the map through lookups, so it does not see its order.\<close>

lemma validate_targets_cong:
  "(\<And>k. has_key vms k = has_key vms' k) \<Longrightarrow>
     validate_targets vid vms known seen ts = validate_targets vid vms' known seen ts"
  by (induction ts arbitrary: seen) (simp_all add: Let_def)

lemma validate_virtual_model_cong:
  "(\<And>k. map_of vms k = map_of vms' k) \<Longrightarrow> items (rt_model_map r) = items (rt_model_map r') \<Longrightarrow>
     validate_virtual_model r vms known vid vm = validate_virtual_model r' vms' known vid vm"
  using validate_targets_cong [of vms vms'] by (simp add: validate_virtual_model_def has_key_def cong: option.case_cong)

lemma validate_ids_cong:
  assumes "\<And>k. map_of vms k = map_of vms' k" and "items (rt_model_map r) = items (rt_model_map r')"
  shows "validate_ids r vms known ids = validate_ids r' vms' known ids"
proof -
  have *: "validate_virtual_model r vms known vid vm = validate_virtual_model r' vms' known vid vm" for vid vm
    using assms by (rule validate_virtual_model_cong)
  show ?thesis
    by (induction ids) (simp_all add: assms(1) * split: option.split)
qed

lemma map_of_perm:
  assumes "wf_map m" and "mset m = mset m'"
  shows "map_of m k = map_of m' k"
proof -
  have "mset (keys_of m) = mset (keys_of m')" using assms(2) by (simp add: keys_of_def)
  then have wf': "wf_map m'" using assms(1) by (metis mset_eq_imp_distinct_iff wf_map_def)
  have "map_of m k = Some v \<longleftrightarrow> map_of m' k = Some v" for v
    by (simp only: wf_map_Some_iff [OF assms(1)] wf_map_Some_iff [OF wf'] mset_eq_setD [OF assms(2)])
  then show ?thesis by (metis option.exhaust)
qed

lemma ValidateVirtualModels_perm:
  assumes "wf_map (items (rt_virtual_models r))" and "mset vms' = mset (items (rt_virtual_models r))"
  shows "ValidateVirtualModels (r\<lparr>rt_virtual_models := Some vms'\<rparr>) known = ValidateVirtualModels r known"
proof -
  let ?vms = "items (rt_virtual_models r)"
  have "sort (keys_of vms') = sort (keys_of ?vms)"
    by (rule properties_for_sort) (simp_all add: keys_of_def assms(2))
  moreover have "map_of vms' k = map_of ?vms k" for k
    by (rule map_of_perm [OF assms(1) assms(2) [symmetric], symmetric])
  ultimately show ?thesis
    using assms(2) validate_ids_cong [of vms' ?vms "r\<lparr>rt_virtual_models := Some vms'\<rparr>" r]
    by (auto simp: ValidateVirtualModels_def Let_def)
qed

text \<open>C36: an umbrella-model configuration is accepted exactly when every umbrella model has a
  non-blank ID outside the provider namespaces that no model-map entry shadows, one of the
  two strategies, and a non-empty list of targets that are, after trimming, distinct,
  not themselves umbrella models and under a known provider prefix; and the verdict,
  the first reported error included, does not depend on the order in which Go happens to
  iterate over the map.\<close>

theorem validate_virtual_models_correct:
  assumes "wf_map (items (rt_virtual_models r))"
  shows "(ValidateVirtualModels r known = None \<longleftrightarrow>
      (\<forall>(vid, vm) \<in> set (items (rt_virtual_models r)). virtual_model_ok r known vid vm))
    \<and> (\<forall>vms'. mset vms' = mset (items (rt_virtual_models r)) \<longrightarrow>
      ValidateVirtualModels (r\<lparr>rt_virtual_models := Some vms'\<rparr>) known = ValidateVirtualModels r known)"
  using ValidateVirtualModels_None [OF assms] ValidateVirtualModels_perm [OF assms] by blast

definition sample_routing :: routing where
  "sample_routing = (cfg_routing zero_config)\<lparr>rt_virtual_models :=
     Some [(''thiendu'', \<lparr>vm_strategy = ''priority'', vm_targets = Some [''codex/gpt-5'', '' kilo/free '']\<rparr>)]\<rparr>"

theorem validate_virtual_models_correct_witness:
  "wf_map (items (rt_virtual_models sample_routing))
   \<and> virtual_model_ok sample_routing KnownPrefixes ''thiendu''
      \<lparr>vm_strategy = ''priority'', vm_targets = Some [''codex/gpt-5'', '' kilo/free '']\<rparr>"
proof -
  have wf: "wf_map (items (rt_virtual_models sample_routing))"
    by (simp add: sample_routing_def zero_config_def wf_map_def keys_of_def)
  have "ValidateVirtualModels sample_routing KnownPrefixes = None"
    by code_simp
  with validate_virtual_models_correct [OF wf, of KnownPrefixes] wf show ?thesis
    by (simp add: sample_routing_def zero_config_def)
qed

end
