(* ===== verification/Config_Defaults.thy ===== *)
theory Config_Defaults
  imports Config_Schema
begin

text \<open>
  Loading and completing a configuration: \<open>src/config_defaults.go\<close>, \<open>src/config_migration.go\<close>,
  \<open>loadConfigFromPath\<close> of \<open>src/config.go\<close> and \<open>validateManagedConfig\<close> of
  \<open>src/revisioned_state.go\<close>.

  \<^item> SHA-256 (its first twelve bytes in hexadecimal) is the parameter \<open>h\<close>.
  \<^item> A configuration file is the result of decoding it: a current document, which says whether
    it names \<open>expose_internal_models\<close>, a document of the schema without versions, or neither.
    What \<open>encoding/json\<close> makes of a configuration written by \<open>marshalConfig\<close> is
    \<open>marshalled\<close>; strings are valid UTF-8.
\<close>

section \<open>Default values\<close>

definition currentConfigVersion :: int where "currentConfigVersion = 1"
definition defaultRoutingModel :: string where "defaultRoutingModel = ''thiendu''"
definition defaultLogFilePath :: string where "defaultLogFilePath = ''logs/ya-router.log''"
definition defaultLogFileSizeMiB :: int where "defaultLogFileSizeMiB = 5"
definition defaultRetainedLogFiles :: int where "defaultRetainedLogFiles = 2"

lemmas config_constants = currentConfigVersion_def defaultRoutingModel_def defaultLogFilePath_def
  defaultLogFileSizeMiB_def defaultRetainedLogFiles_def

definition nonzero_or :: "int \<Rightarrow> int \<Rightarrow> int" where
  "nonzero_or x d = (if x = 0 then d else x)"

definition nonempty_or :: "string \<Rightarrow> string \<Rightarrow> string" where
  "nonempty_or s d = (if s = '''' then d else s)"

definition defaultVirtualModels :: "(string, virtual_model) gomap" where
  "defaultVirtualModels =
     [(''thiendu'', \<lparr>vm_strategy = ''quota_priority'',
        vm_targets = Some [''codex/gpt-5.3-codex-spark'', ''codex/gpt-5.4-mini'', ''github/gpt-5.4-mini'',
          ''github/gpt-5-mini'', ''kilo/kilo-auto/free'']\<rparr>)]"

definition setDefaultLogging :: "logging \<Rightarrow> logging" where
  "setDefaultLogging l =
     \<lparr>lg_file_path = (if trim_space (lg_file_path l) = '''' then defaultLogFilePath else lg_file_path l),
      lg_max_file_size_mib = (if lg_max_file_size_mib l \<le> 0 then defaultLogFileSizeMiB else lg_max_file_size_mib l),
      lg_retained_files = (if lg_retained_files l \<le> 0 then defaultRetainedLogFiles else lg_retained_files l)\<rparr>"

text \<open>\<open>mergeTimeouts\<close> fills the zero fields of one set of timeouts from another;
  \<open>setLegacyTimeouts\<close> overwrites with the non-zero ones.\<close>

definition mergeTimeouts :: "timeouts \<Rightarrow> timeouts \<Rightarrow> timeouts" where
  "mergeTimeouts destination source =
     \<lparr>to_http_client = nonzero_or (to_http_client destination) (to_http_client source),
      to_server_read = nonzero_or (to_server_read destination) (to_server_read source),
      to_server_write = nonzero_or (to_server_write destination) (to_server_write source),
      to_server_idle = nonzero_or (to_server_idle destination) (to_server_idle source),
      to_proxy_context = nonzero_or (to_proxy_context destination) (to_proxy_context source),
      to_circuit_breaker = nonzero_or (to_circuit_breaker destination) (to_circuit_breaker source),
      to_keep_alive = nonzero_or (to_keep_alive destination) (to_keep_alive source),
      to_tls_handshake = nonzero_or (to_tls_handshake destination) (to_tls_handshake source),
      to_dial_timeout = nonzero_or (to_dial_timeout destination) (to_dial_timeout source),
      to_idle_conn_timeout = nonzero_or (to_idle_conn_timeout destination) (to_idle_conn_timeout source)\<rparr>"

definition setLegacyTimeouts :: "timeouts \<Rightarrow> timeouts \<Rightarrow> timeouts" where
  "setLegacyTimeouts dst legacy =
     \<lparr>to_http_client = nonzero_or (to_http_client legacy) (to_http_client dst),
      to_server_read = nonzero_or (to_server_read legacy) (to_server_read dst),
      to_server_write = nonzero_or (to_server_write legacy) (to_server_write dst),
      to_server_idle = nonzero_or (to_server_idle legacy) (to_server_idle dst),
      to_proxy_context = nonzero_or (to_proxy_context legacy) (to_proxy_context dst),
      to_circuit_breaker = nonzero_or (to_circuit_breaker legacy) (to_circuit_breaker dst),
      to_keep_alive = nonzero_or (to_keep_alive legacy) (to_keep_alive dst),
      to_tls_handshake = nonzero_or (to_tls_handshake legacy) (to_tls_handshake dst),
      to_dial_timeout = nonzero_or (to_dial_timeout legacy) (to_dial_timeout dst),
      to_idle_conn_timeout = nonzero_or (to_idle_conn_timeout legacy) (to_idle_conn_timeout dst)\<rparr>"

definition setDefaultTimeouts :: "timeouts \<Rightarrow> timeouts" where
  "setDefaultTimeouts t =
     \<lparr>to_http_client = nonzero_or (to_http_client t) 300, to_server_read = nonzero_or (to_server_read t) 30,
      to_server_write = nonzero_or (to_server_write t) 300, to_server_idle = nonzero_or (to_server_idle t) 120,
      to_proxy_context = nonzero_or (to_proxy_context t) 300, to_circuit_breaker = nonzero_or (to_circuit_breaker t) 30,
      to_keep_alive = nonzero_or (to_keep_alive t) 30, to_tls_handshake = nonzero_or (to_tls_handshake t) 10,
      to_dial_timeout = nonzero_or (to_dial_timeout t) 10, to_idle_conn_timeout = nonzero_or (to_idle_conn_timeout t) 90\<rparr>"

section \<open>Accounts\<close>

definition stableAccountID :: "(string \<Rightarrow> string) \<Rightarrow> string \<Rightarrow> string \<Rightarrow> string" where
  "stableAccountID h provider identity = ''acct_'' @ h (provider @ nul @ identity)"

fun decimal :: "nat \<Rightarrow> string" where
  "decimal n = (if n < 10 then [char_of (48 + n)] else decimal (n div 10) @ [char_of (48 + n mod 10)])"

declare decimal.simps [simp del]

fun ensureCopilotAccountIDs :: "(string \<Rightarrow> string) \<Rightarrow> (string \<Rightarrow> nat) \<Rightarrow> copilot_account list \<Rightarrow> copilot_account list" where
  "ensureCopilotAccountIDs h seen [] = []"
| "ensureCopilotAccountIDs h seen (account # rest) =
     (if cacc_id account \<noteq> '''' then account # ensureCopilotAccountIDs h seen rest
      else
        let label = trim_space (cacc_label account); occurrence = seen label
        in account\<lparr>cacc_id := stableAccountID h ''copilot'' (label @ nul @ decimal occurrence)\<rparr>
           # ensureCopilotAccountIDs h (seen(label := occurrence + 1)) rest)"

fun ensureCodexAccountIDs :: "(string \<Rightarrow> string) \<Rightarrow> (string \<Rightarrow> nat) \<Rightarrow> codex_account list \<Rightarrow> codex_account list" where
  "ensureCodexAccountIDs h seen [] = []"
| "ensureCodexAccountIDs h seen (account # rest) =
     (if xacc_id account \<noteq> '''' then account # ensureCodexAccountIDs h seen rest
      else
        let label = trim_space (xacc_label account); occurrence = seen label
        in account\<lparr>xacc_id := stableAccountID h ''codex'' (label @ nul @ decimal occurrence)\<rparr>
           # ensureCodexAccountIDs h (seen(label := occurrence + 1)) rest)"

definition normalizeCopilotAccounts :: "(string \<Rightarrow> string) \<Rightarrow> copilot_provider \<Rightarrow> copilot_provider" where
  "normalizeCopilotAccounts h provider =
     (let provider =
        (if items (cp_accounts provider) = [] \<and> ca_github_token (cp_auth provider) \<noteq> ''''
         then provider
           \<lparr>cp_accounts := Some [\<lparr>cacc_id = stableAccountID h ''copilot'' ''primary'', cacc_label = ''primary'',
                                  cacc_auth = cp_auth provider, cacc_last_limited_at = 0\<rparr>],
            cp_auth := zero_copilot_auth\<rparr>
         else provider)
      in provider\<lparr>cp_accounts := map_option (ensureCopilotAccountIDs h (\<lambda>_. 0)) (cp_accounts provider)\<rparr>)"

definition normalizeCodexAccounts :: "(string \<Rightarrow> string) \<Rightarrow> codex_provider \<Rightarrow> codex_provider" where
  "normalizeCodexAccounts h provider =
     (let provider =
        (if items (xp_accounts provider) = [] \<and> (xa_access_token (xp_auth provider) \<noteq> '''' \<or> xa_api_key (xp_auth provider) \<noteq> '''')
         then provider
           \<lparr>xp_accounts := Some [\<lparr>xacc_id = stableAccountID h ''codex'' ''primary'', xacc_label = ''primary'',
                                  xacc_auth = xp_auth provider, xacc_last_limited_at = 0\<rparr>],
            xp_auth := zero_codex_auth\<rparr>
         else provider)
      in provider\<lparr>xp_accounts := map_option (ensureCodexAccountIDs h (\<lambda>_. 0)) (xp_accounts provider)\<rparr>)"

section \<open>Completing a configuration\<close>

definition default_routing :: "routing \<Rightarrow> routing" where
  "default_routing rt =
     rt\<lparr>rt_default_model := nonempty_or (rt_default_model rt) defaultRoutingModel,
        rt_default_provider := nonempty_or (rt_default_provider rt) Copilot,
        rt_virtual_models := (case rt_virtual_models rt of None \<Rightarrow> Some defaultVirtualModels | Some m \<Rightarrow> Some m)\<rparr>"

definition default_copilot :: "copilot_provider \<Rightarrow> copilot_provider" where
  "default_copilot provider =
     provider\<lparr>cp_account_cooldown_seconds := nonzero_or (cp_account_cooldown_seconds provider) 300\<rparr>"

definition default_codex :: "codex_provider \<Rightarrow> codex_provider" where
  "default_codex provider =
     provider\<lparr>xp_auth := (xp_auth provider)\<lparr>xa_mode := nonempty_or (xa_mode (xp_auth provider)) ''device_code''\<rparr>,
       xp_account_cooldown_seconds := nonzero_or (xp_account_cooldown_seconds provider) 300\<rparr>"

definition applyConfigDefaults :: "(string \<Rightarrow> string) \<Rightarrow> config \<Rightarrow> config" where
  "applyConfigDefaults h cfg =
     (let pv = cfg_providers cfg in
      cfg\<lparr>cfg_port := nonzero_or (cfg_port cfg) 7071,
          cfg_routing := default_routing (cfg_routing cfg),
          cfg_providers := pv
            \<lparr>pv_copilot := normalizeCopilotAccounts h (default_copilot (pv_copilot pv)),
             pv_codex := normalizeCodexAccounts h (default_codex (pv_codex pv))\<rparr>,
          cfg_logging := setDefaultLogging (cfg_logging cfg),
          cfg_timeouts := setDefaultTimeouts (cfg_timeouts cfg)\<rparr>)"

definition defaultConfig :: config where
  "defaultConfig =
     (let pv = cfg_providers zero_config in
      zero_config
        \<lparr>cfg_port := 7071, cfg_version := currentConfigVersion,
         cfg_routing := (cfg_routing zero_config)
           \<lparr>rt_default_model := defaultRoutingModel, rt_default_provider := Copilot,
            rt_virtual_models := Some defaultVirtualModels\<rparr>,
         cfg_providers := pv
           \<lparr>pv_copilot := (pv_copilot pv)\<lparr>cp_enabled := True, cp_auth := zero_copilot_auth\<lparr>ca_mode := ''device_code''\<rparr>\<rparr>,
            pv_codex := (pv_codex pv)\<lparr>xp_enabled := False, xp_auth := zero_codex_auth\<lparr>xa_mode := ''device_code''\<rparr>\<rparr>,
            pv_kilo := (pv_kilo pv)\<lparr>kp_enabled := False, kp_allow_anonymous := True\<rparr>\<rparr>,
         cfg_logging := setDefaultLogging (cfg_logging zero_config),
         cfg_timeouts := setDefaultTimeouts (cfg_timeouts zero_config)\<rparr>)"

section \<open>Migration\<close>

record legacy_v0_config =
  v0_port :: int
  v0_github_token :: string
  v0_copilot_token :: string
  v0_expires_at :: int
  v0_refresh_in :: int
  v0_allowed_models :: "string slice"
  v0_default_model :: string
  v0_enable_pprof :: bool
  v0_timeouts :: timeouts

definition migrateV0ToV1 :: "(string \<Rightarrow> string) \<Rightarrow> legacy_v0_config \<Rightarrow> config" where
  "migrateV0ToV1 h v0 =
     (let cfg = defaultConfig; pv = cfg_providers cfg; cp = pv_copilot pv; rt = cfg_routing cfg;
          auth = zero_copilot_auth
            \<lparr>ca_mode := ''device_code'', ca_github_token := v0_github_token v0, ca_copilot_token := v0_copilot_token v0,
             ca_expires_at := v0_expires_at v0, ca_refresh_in := v0_refresh_in v0\<rparr>;
          cp = cp\<lparr>cp_enabled := True, cp_auth := auth,
                  cp_allowed_models := (case v0_allowed_models v0 of None \<Rightarrow> cp_allowed_models cp | Some ms \<Rightarrow> Some ms)\<rparr>
      in cfg
        \<lparr>cfg_port := nonzero_or (v0_port v0) (cfg_port cfg),
         cfg_enable_pprof := v0_enable_pprof v0,
         cfg_routing := rt
           \<lparr>rt_expose_internal := True,
            rt_default_model := nonempty_or (v0_default_model v0) (rt_default_model rt),
            rt_default_provider := Copilot\<rparr>,
         cfg_timeouts := setLegacyTimeouts (cfg_timeouts cfg) (v0_timeouts v0),
         cfg_providers := pv
           \<lparr>pv_copilot := normalizeCopilotAccounts h cp,
            pv_codex := normalizeCodexAccounts h (pv_codex pv)\<rparr>\<rparr>)"

datatype migration_mode = ConfigMigrationNone | ConfigMigrationMerge | ConfigMigrationOverride

definition mergeConfigs :: "config \<Rightarrow> config \<Rightarrow> migration_mode \<Rightarrow> config" where
  "mergeConfigs existing defaults mode =
     (case mode of
        ConfigMigrationOverride \<Rightarrow> defaults
      | ConfigMigrationNone \<Rightarrow> existing
      | ConfigMigrationMerge \<Rightarrow>
          let rt = cfg_routing existing; drt = cfg_routing defaults; pv = cfg_providers existing; dpv = cfg_providers defaults
          in existing
            \<lparr>cfg_port := nonzero_or (cfg_port existing) (cfg_port defaults),
             cfg_routing := rt
               \<lparr>rt_default_model := nonempty_or (rt_default_model rt) (rt_default_model drt),
                rt_default_provider := nonempty_or (rt_default_provider rt) (rt_default_provider drt)\<rparr>,
             cfg_providers := pv
               \<lparr>pv_copilot := (pv_copilot pv)\<lparr>cp_allowed_models :=
                  (case cp_allowed_models (pv_copilot pv) of None \<Rightarrow> cp_allowed_models (pv_copilot dpv) | Some ms \<Rightarrow> Some ms)\<rparr>,
                pv_kilo := (pv_kilo pv)\<lparr>kp_allowed_models :=
                  (case kp_allowed_models (pv_kilo pv) of None \<Rightarrow> kp_allowed_models (pv_kilo dpv) | Some ms \<Rightarrow> Some ms)\<rparr>\<rparr>,
             cfg_timeouts := mergeTimeouts (cfg_timeouts existing) (cfg_timeouts defaults)\<rparr>)"

section \<open>Loading and validating\<close>

datatype config_document = CurrentDocument config bool | LegacyDocument legacy_v0_config | Undecodable

datatype config_error =
    ConfigOpenError | ConfigDecodeError | UnsupportedConfigVersion int | PortOutOfRange | VirtualModelError vm_error

datatype config_path = PathMissing | PathFails | PathDocument config_document

definition loadConfigFromPath :: "(string \<Rightarrow> string) \<Rightarrow> config_path \<Rightarrow> config_error + config" where
  "loadConfigFromPath h p =
     (case p of
        PathMissing \<Rightarrow> Inr defaultConfig
      | PathFails \<Rightarrow> Inl ConfigOpenError
      | PathDocument Undecodable \<Rightarrow> Inl ConfigDecodeError
      | PathDocument (CurrentDocument cfg explicit_expose) \<Rightarrow>
          (let cfg = applyConfigDefaults h cfg in
           Inr (if explicit_expose then cfg
                else cfg\<lparr>cfg_routing := (cfg_routing cfg)\<lparr>rt_expose_internal := True\<rparr>\<rparr>))
      | PathDocument (LegacyDocument legacy) \<Rightarrow> Inr (migrateV0ToV1 h legacy))"

text \<open>
  Writing a configuration and decoding it again. Members marked \<open>omitempty\<close> that hold an
  empty slice or map are left out and come back as \<open>nil\<close>; \<open>expose_internal_models\<close> is
  always written. A version below one makes the reader take the document for one of the old
  schema, of which it has the port, the profiling switch and the timeouts.
\<close>

definition omit_empty :: "'a list option \<Rightarrow> 'a list option" where
  "omit_empty s = append_nil (items s)"

definition json_reload :: "config \<Rightarrow> config" where
  "json_reload cfg =
     (let rt = cfg_routing cfg; pv = cfg_providers cfg; cp = pv_copilot pv; xp = pv_codex pv
      in cfg
        \<lparr>cfg_routing := rt
           \<lparr>rt_model_map := omit_empty (rt_model_map rt), rt_claude_aliases := omit_empty (rt_claude_aliases rt),
            rt_virtual_models := omit_empty (rt_virtual_models rt)\<rparr>,
         cfg_providers := pv
           \<lparr>pv_copilot := cp\<lparr>cp_accounts := omit_empty (cp_accounts cp)\<rparr>,
            pv_codex := xp\<lparr>xp_accounts := omit_empty (xp_accounts xp)\<rparr>\<rparr>\<rparr>)"

definition legacy_view :: "config \<Rightarrow> legacy_v0_config" where
  "legacy_view cfg =
     \<lparr>v0_port = cfg_port cfg, v0_github_token = '''', v0_copilot_token = '''', v0_expires_at = 0, v0_refresh_in = 0,
      v0_allowed_models = None, v0_default_model = '''', v0_enable_pprof = cfg_enable_pprof cfg,
      v0_timeouts = cfg_timeouts cfg\<rparr>"

definition marshalled :: "config \<Rightarrow> config_document" where
  "marshalled cfg =
     (if cfg_version cfg \<ge> 1 then CurrentDocument (json_reload cfg) True else LegacyDocument (legacy_view cfg))"

definition validateManagedConfig :: "(string \<Rightarrow> string) \<Rightarrow> config \<Rightarrow> config_error + config" where
  "validateManagedConfig h cfg =
     (let cfg = applyConfigDefaults h cfg;
          cfg = (if cfg_version cfg = 0 then cfg\<lparr>cfg_version := currentConfigVersion\<rparr> else cfg)
      in if cfg_version cfg \<noteq> currentConfigVersion then Inl (UnsupportedConfigVersion (cfg_version cfg))
         else if cfg_port cfg < 1 \<or> cfg_port cfg > 65535 then Inl PortOutOfRange
         else case ValidateVirtualModels (cfg_routing cfg) KnownPrefixes of
           Some e \<Rightarrow> Inl (VirtualModelError e)
         | None \<Rightarrow> Inr cfg)"

section \<open>Facts on defaults\<close>

lemma nonzero_or_simps [simp]:
  "nonzero_or x d = 0 \<longleftrightarrow> x = 0 \<and> d = 0" "nonzero_or (nonzero_or x d) d = nonzero_or x d" "x \<noteq> 0 \<Longrightarrow> nonzero_or x d = x"
  by (auto simp: nonzero_or_def)

lemma nonempty_or_simps [simp]:
  "nonempty_or s d = '''' \<longleftrightarrow> s = '''' \<and> d = ''''" "nonempty_or (nonempty_or s d) d = nonempty_or s d" "nonempty_or '''' d = d"
  by (auto simp: nonempty_or_def)

lemma stableAccountID_nonempty [simp]: "stableAccountID h p i \<noteq> ''''"
  by (simp add: stableAccountID_def)

lemma ensureCopilot_named: "a \<in> set (ensureCopilotAccountIDs h seen xs) \<Longrightarrow> cacc_id a \<noteq> ''''"
  by (induction h seen xs rule: ensureCopilotAccountIDs.induct) (auto simp: Let_def split: if_splits)

lemma ensureCodex_named: "a \<in> set (ensureCodexAccountIDs h seen xs) \<Longrightarrow> xacc_id a \<noteq> ''''"
  by (induction h seen xs rule: ensureCodexAccountIDs.induct) (auto simp: Let_def split: if_splits)

lemma ensureCopilot_id: "(\<And>a. a \<in> set xs \<Longrightarrow> cacc_id a \<noteq> '''') \<Longrightarrow> ensureCopilotAccountIDs h seen xs = xs"
  by (induction h seen xs rule: ensureCopilotAccountIDs.induct) auto

lemma ensureCodex_id: "(\<And>a. a \<in> set xs \<Longrightarrow> xacc_id a \<noteq> '''') \<Longrightarrow> ensureCodexAccountIDs h seen xs = xs"
  by (induction h seen xs rule: ensureCodexAccountIDs.induct) auto

lemma ensureCopilot_idem [simp]:
  "ensureCopilotAccountIDs h seen' (ensureCopilotAccountIDs h seen xs) = ensureCopilotAccountIDs h seen xs"
  by (rule ensureCopilot_id) (rule ensureCopilot_named)

lemma ensureCodex_idem [simp]:
  "ensureCodexAccountIDs h seen' (ensureCodexAccountIDs h seen xs) = ensureCodexAccountIDs h seen xs"
  by (rule ensureCodex_id) (rule ensureCodex_named)

lemma ensureCopilot_auth [simp]: "map cacc_auth (ensureCopilotAccountIDs h seen xs) = map cacc_auth xs"
  by (induction xs arbitrary: seen) (simp_all add: Let_def)

lemma ensureCodex_auth [simp]: "map xacc_auth (ensureCodexAccountIDs h seen xs) = map xacc_auth xs"
  by (induction xs arbitrary: seen) (simp_all add: Let_def)

lemma ensureCopilot_Nil [simp]: "ensureCopilotAccountIDs h seen xs = [] \<longleftrightarrow> xs = []"
  by (cases xs) (auto simp: Let_def)

lemma ensureCodex_Nil [simp]: "ensureCodexAccountIDs h seen xs = [] \<longleftrightarrow> xs = []"
  by (cases xs) (auto simp: Let_def)

text \<open>Whether the credentials of a provider move into a first account.\<close>

definition migrates_copilot :: "copilot_provider \<Rightarrow> bool" where
  "migrates_copilot p \<longleftrightarrow> items (cp_accounts p) = [] \<and> ca_github_token (cp_auth p) \<noteq> ''''"

definition migrates_codex :: "codex_provider \<Rightarrow> bool" where
  "migrates_codex p \<longleftrightarrow> items (xp_accounts p) = [] \<and> (xa_access_token (xp_auth p) \<noteq> '''' \<or> xa_api_key (xp_auth p) \<noteq> '''')"

lemma normalizeCopilot_cases:
  "normalizeCopilotAccounts h p =
     (if migrates_copilot p
      then p\<lparr>cp_accounts := Some [\<lparr>cacc_id = stableAccountID h ''copilot'' ''primary'', cacc_label = ''primary'',
                                   cacc_auth = cp_auth p, cacc_last_limited_at = 0\<rparr>], cp_auth := zero_copilot_auth\<rparr>
      else p\<lparr>cp_accounts := map_option (ensureCopilotAccountIDs h (\<lambda>_. 0)) (cp_accounts p)\<rparr>)"
  by (simp add: normalizeCopilotAccounts_def migrates_copilot_def)

lemma normalizeCodex_cases:
  "normalizeCodexAccounts h p =
     (if migrates_codex p
      then p\<lparr>xp_accounts := Some [\<lparr>xacc_id = stableAccountID h ''codex'' ''primary'', xacc_label = ''primary'',
                                   xacc_auth = xp_auth p, xacc_last_limited_at = 0\<rparr>], xp_auth := zero_codex_auth\<rparr>
      else p\<lparr>xp_accounts := map_option (ensureCodexAccountIDs h (\<lambda>_. 0)) (xp_accounts p)\<rparr>)"
  by (auto simp: normalizeCodexAccounts_def migrates_codex_def)

lemma not_migrates_normalized [simp]:
  "\<not> migrates_copilot (normalizeCopilotAccounts h p)" "\<not> migrates_codex (normalizeCodexAccounts h q)"
proof -
  show "\<not> migrates_copilot (normalizeCopilotAccounts h p)"
    by (cases "cp_accounts p") (auto simp: normalizeCopilot_cases migrates_copilot_def)
  show "\<not> migrates_codex (normalizeCodexAccounts h q)"
    by (cases "xp_accounts q") (auto simp: normalizeCodex_cases migrates_codex_def)
qed

lemma migrates_default [simp]:
  "migrates_copilot (default_copilot p) = migrates_copilot p" "migrates_codex (default_codex q) = migrates_codex q"
  by (simp_all add: migrates_copilot_def default_copilot_def migrates_codex_def default_codex_def)

definition complete_copilot :: "(string \<Rightarrow> string) \<Rightarrow> copilot_provider \<Rightarrow> copilot_provider" where
  "complete_copilot h p = normalizeCopilotAccounts h (default_copilot p)"

definition complete_codex :: "(string \<Rightarrow> string) \<Rightarrow> codex_provider \<Rightarrow> codex_provider" where
  "complete_codex h p = normalizeCodexAccounts h (default_codex p)"

lemma complete_copilot_idem [simp]: "complete_copilot h (complete_copilot h p) = complete_copilot h p"
  by (cases "cp_accounts p")
    (auto simp: complete_copilot_def normalizeCopilot_cases default_copilot_def migrates_copilot_def zero_copilot_auth_def)

lemma complete_codex_settled:
  assumes "\<not> migrates_codex p"
  shows "complete_codex h (complete_codex h p) = complete_codex h p"
  using assms by (cases "xp_accounts p") (auto simp: complete_codex_def normalizeCodex_cases default_codex_def migrates_codex_def)

text \<open>The first pass over credentials outside any account empties the authentication mode with
  them, the second fills it in again.\<close>

lemma complete_codex_unsettled:
  assumes "migrates_codex p"
  shows "complete_codex h (complete_codex h p) \<noteq> complete_codex h p"
proof -
  have "xa_mode (xp_auth (complete_codex h p)) = ''''"
    using assms by (simp add: complete_codex_def normalizeCodex_cases zero_codex_auth_def)
  moreover have "xa_mode (xp_auth (complete_codex h (complete_codex h p))) \<noteq> ''''"
    by (simp add: complete_codex_def [of h "complete_codex h p"] normalizeCodex_cases)
      (simp add: complete_codex_def default_codex_def)
  ultimately show ?thesis by auto
qed

lemma complete_codex_converges: "complete_codex h (complete_codex h (complete_codex h p)) = complete_codex h (complete_codex h p)"
  by (rule complete_codex_settled) (simp add: complete_codex_def)

lemma default_routing_idem [simp]: "default_routing (default_routing rt) = default_routing rt"
  by (simp add: default_routing_def split: option.splits)

lemma setDefaultLogging_idem [simp]: "setDefaultLogging (setDefaultLogging l) = setDefaultLogging l"
proof -
  have "trim_space defaultLogFilePath \<noteq> ''''" by code_simp
  then show ?thesis by (simp add: setDefaultLogging_def config_constants(4,5))
qed

lemma setDefaultTimeouts_idem [simp]: "setDefaultTimeouts (setDefaultTimeouts t) = setDefaultTimeouts t"
  by (simp add: setDefaultTimeouts_def)

lemma applyConfigDefaults_fields [simp]:
  "cfg_port (applyConfigDefaults h c) = nonzero_or (cfg_port c) 7071"
  "cfg_version (applyConfigDefaults h c) = cfg_version c"
  "cfg_routing (applyConfigDefaults h c) = default_routing (cfg_routing c)"
  "cfg_logging (applyConfigDefaults h c) = setDefaultLogging (cfg_logging c)"
  "cfg_timeouts (applyConfigDefaults h c) = setDefaultTimeouts (cfg_timeouts c)"
  "cfg_enable_pprof (applyConfigDefaults h c) = cfg_enable_pprof c"
  "pv_copilot (cfg_providers (applyConfigDefaults h c)) = complete_copilot h (pv_copilot (cfg_providers c))"
  "pv_codex (cfg_providers (applyConfigDefaults h c)) = complete_codex h (pv_codex (cfg_providers c))"
  "pv_kilo (cfg_providers (applyConfigDefaults h c)) = pv_kilo (cfg_providers c)"
  by (simp_all add: applyConfigDefaults_def Let_def complete_copilot_def complete_codex_def)

lemma config_eqI:
  "cfg_port c = cfg_port d \<Longrightarrow> cfg_version c = cfg_version d \<Longrightarrow> cfg_enable_pprof c = cfg_enable_pprof d \<Longrightarrow>
   cfg_logging c = cfg_logging d \<Longrightarrow> cfg_routing c = cfg_routing d \<Longrightarrow> cfg_timeouts c = cfg_timeouts d \<Longrightarrow>
   pv_copilot (cfg_providers c) = pv_copilot (cfg_providers d) \<Longrightarrow> pv_codex (cfg_providers c) = pv_codex (cfg_providers d) \<Longrightarrow>
   pv_kilo (cfg_providers c) = pv_kilo (cfg_providers d) \<Longrightarrow> c = (d :: config)"
  by (simp add: config_eq_iff providers_eq_iff)

lemma applyConfigDefaults_settled:
  "\<not> migrates_codex (pv_codex (cfg_providers c)) \<Longrightarrow> applyConfigDefaults h (applyConfigDefaults h c) = applyConfigDefaults h c"
  by (rule config_eqI) (simp_all add: complete_codex_settled)

lemma complete_codex_not_migrates [simp]: "\<not> migrates_codex (complete_codex h p)"
  by (simp add: complete_codex_def)

section \<open>A completed configuration\<close>

definition complete_config :: "config \<Rightarrow> bool" where
  "complete_config c \<longleftrightarrow>
     cfg_port c \<noteq> 0 \<and> rt_default_model (cfg_routing c) \<noteq> '''' \<and> rt_default_provider (cfg_routing c) \<noteq> ''''
     \<and> rt_virtual_models (cfg_routing c) \<noteq> None
     \<and> cp_account_cooldown_seconds (pv_copilot (cfg_providers c)) \<noteq> 0
     \<and> xp_account_cooldown_seconds (pv_codex (cfg_providers c)) \<noteq> 0
     \<and> list_all (\<lambda>a. cacc_id a \<noteq> '''') (items (cp_accounts (pv_copilot (cfg_providers c))))
     \<and> list_all (\<lambda>a. xacc_id a \<noteq> '''') (items (xp_accounts (pv_codex (cfg_providers c))))
     \<and> trim_space (lg_file_path (cfg_logging c)) \<noteq> '''' \<and> lg_max_file_size_mib (cfg_logging c) > 0
     \<and> lg_retained_files (cfg_logging c) > 0
     \<and> list_all (\<lambda>f. f (cfg_timeouts c) \<noteq> 0)
         [to_http_client, to_server_read, to_server_write, to_server_idle, to_proxy_context, to_circuit_breaker,
          to_keep_alive, to_tls_handshake, to_dial_timeout, to_idle_conn_timeout]"

definition held_secrets :: "config \<Rightarrow> string list" where
  "held_secrets c = filter (\<lambda>s. s \<noteq> '''') (config_secrets c)"

lemma complete_copilot_named: "list_all (\<lambda>a. cacc_id a \<noteq> '''') (items (cp_accounts (complete_copilot h p)))"
  by (cases "cp_accounts p")
    (auto simp: complete_copilot_def normalizeCopilot_cases default_copilot_def list_all_iff dest: ensureCopilot_named)

lemma complete_codex_named: "list_all (\<lambda>a. xacc_id a \<noteq> '''') (items (xp_accounts (complete_codex h p)))"
  by (cases "xp_accounts p")
    (auto simp: complete_codex_def normalizeCodex_cases default_codex_def list_all_iff dest: ensureCodex_named)

lemma complete_cooldowns [simp]:
  "cp_account_cooldown_seconds (complete_copilot h p) = nonzero_or (cp_account_cooldown_seconds p) 300"
  "xp_account_cooldown_seconds (complete_codex h q) = nonzero_or (xp_account_cooldown_seconds q) 300"
  by (simp_all add: complete_copilot_def normalizeCopilot_cases default_copilot_def complete_codex_def normalizeCodex_cases
    default_codex_def)

lemma applyConfigDefaults_complete: "complete_config (applyConfigDefaults h c)"
proof -
  have "trim_space defaultLogFilePath \<noteq> ''''" by code_simp
  then show ?thesis
    using complete_copilot_named [of h] complete_codex_named [of h]
    by (simp add: complete_config_def default_routing_def setDefaultLogging_def setDefaultTimeouts_def config_constants(2,4,5)
      Copilot_def split: option.splits)
qed

lemma default_fields [simp]:
  "cp_accounts (default_copilot p) = cp_accounts p" "cp_auth (default_copilot p) = cp_auth p"
  "xp_accounts (default_codex q) = xp_accounts q"
  "codex_auth_secrets (xp_auth (default_codex q)) = codex_auth_secrets (xp_auth q)"
  by (simp_all add: default_copilot_def default_codex_def codex_auth_secrets_def)

lemma complete_copilot_secrets:
  "copilot_auth_secrets (cp_auth (complete_copilot h p)) @ concat (map (copilot_auth_secrets \<circ> cacc_auth) (items (cp_accounts (complete_copilot h p))))
   = (if migrates_copilot p then ['''', ''''] else []) @
     copilot_auth_secrets (cp_auth p) @ concat (map (copilot_auth_secrets \<circ> cacc_auth) (items (cp_accounts p)))"
proof (cases "migrates_copilot p")
  case True
  then show ?thesis
    by (simp add: complete_copilot_def normalizeCopilot_cases default_copilot_def copilot_auth_secrets_def zero_copilot_auth_def
      migrates_copilot_def)
next
  case False
  have "map (copilot_auth_secrets \<circ> cacc_auth) (ensureCopilotAccountIDs h seen xs) = map (copilot_auth_secrets \<circ> cacc_auth) xs" for seen xs
    by (metis ensureCopilot_auth map_map)
  then show ?thesis using False
    by (cases "cp_accounts p") (simp_all add: complete_copilot_def normalizeCopilot_cases)
qed

lemma complete_codex_secrets:
  "codex_auth_secrets (xp_auth (complete_codex h p)) @ concat (map (codex_auth_secrets \<circ> xacc_auth) (items (xp_accounts (complete_codex h p))))
   = (if migrates_codex p then ['''', '''', '''', ''''] else []) @
     codex_auth_secrets (xp_auth p) @ concat (map (codex_auth_secrets \<circ> xacc_auth) (items (xp_accounts p)))"
proof (cases "migrates_codex p")
  case True
  then show ?thesis
    by (simp add: complete_codex_def normalizeCodex_cases default_codex_def codex_auth_secrets_def zero_codex_auth_def
      migrates_codex_def)
next
  case False
  have "map (codex_auth_secrets \<circ> xacc_auth) (ensureCodexAccountIDs h seen xs) = map (codex_auth_secrets \<circ> xacc_auth) xs" for seen xs
    by (metis ensureCodex_auth map_map)
  then show ?thesis using False
    by (cases "xp_accounts p") (simp_all add: complete_codex_def normalizeCodex_cases)
qed

lemma held_secrets_split:
  "held_secrets c =
     filter (\<lambda>s. s \<noteq> '''') (copilot_auth_secrets (cp_auth (pv_copilot (cfg_providers c)))
       @ concat (map (copilot_auth_secrets \<circ> cacc_auth) (items (cp_accounts (pv_copilot (cfg_providers c))))))
     @ filter (\<lambda>s. s \<noteq> '''') (codex_auth_secrets (xp_auth (pv_codex (cfg_providers c)))
       @ concat (map (codex_auth_secrets \<circ> xacc_auth) (items (xp_accounts (pv_codex (cfg_providers c))))))
     @ filter (\<lambda>s. s \<noteq> '''') [kp_api_key (pv_kilo (cfg_providers c)), kp_organization_id (pv_kilo (cfg_providers c))]"
  by (simp add: held_secrets_def config_secrets_def Let_def)


section \<open>Writing and loading\<close>

lemma bind_append_nil_same: "Option.bind s append_nil = s \<longleftrightarrow> s \<noteq> Some []"
  by (cases s) (auto simp: append_nil_def)

lemma Clone_same_iff:
  "Clone c = c \<longleftrightarrow>
     cloneVirtualModels (rt_virtual_models (cfg_routing c)) = rt_virtual_models (cfg_routing c)
     \<and> cp_allowed_models (pv_copilot (cfg_providers c)) \<noteq> Some [] \<and> cp_accounts (pv_copilot (cfg_providers c)) \<noteq> Some []
     \<and> xp_allowed_models (pv_codex (cfg_providers c)) \<noteq> Some [] \<and> xp_accounts (pv_codex (cfg_providers c)) \<noteq> Some []
     \<and> kp_allowed_models (pv_kilo (cfg_providers c)) \<noteq> Some []"
proof -
  have "rt\<lparr>rt_virtual_models := m\<rparr> = rt \<longleftrightarrow> m = rt_virtual_models rt" for rt :: routing and m
    by (cases rt) auto
  then show ?thesis
    by (auto simp: config_eq_iffs Clone_def Let_def cloneStrings_eq bind_append_nil_same)
qed

lemma complete_accounts [simp]:
  "cp_accounts (complete_copilot h p) = Some [] \<longleftrightarrow> cp_accounts p = Some [] \<and> \<not> migrates_copilot p"
  "xp_accounts (complete_codex h q) = Some [] \<longleftrightarrow> xp_accounts q = Some [] \<and> \<not> migrates_codex q"
  "cp_allowed_models (complete_copilot h p) = cp_allowed_models p" "xp_allowed_models (complete_codex h q) = xp_allowed_models q"
  by (auto simp: complete_copilot_def complete_codex_def normalizeCopilot_cases normalizeCodex_cases)
    (simp_all add: default_copilot_def default_codex_def)

lemma Clone_applyConfigDefaults:
  assumes "Clone c = c"
  shows "Clone (applyConfigDefaults h c) = applyConfigDefaults h c"
proof -
  have "cloneVirtualModels (Some defaultVirtualModels) = Some defaultVirtualModels" by code_simp
  with assms show ?thesis by (auto simp: Clone_same_iff default_routing_def split: option.splits)
qed

lemma omit_empty_simps [simp]: "omit_empty None = None" "omit_empty (omit_empty s) = omit_empty s" "items (omit_empty s) = items s"
  "omit_empty s \<noteq> Some []"
  by (simp_all add: omit_empty_def append_nil_def)

lemma omit_empty_same: "s \<noteq> Some [] \<Longrightarrow> omit_empty s = s"
  by (cases s) (simp_all add: omit_empty_def append_nil_def)

lemma json_reload_fields [simp]:
  "cfg_port (json_reload c) = cfg_port c" "cfg_version (json_reload c) = cfg_version c"
  "cfg_enable_pprof (json_reload c) = cfg_enable_pprof c" "cfg_logging (json_reload c) = cfg_logging c"
  "cfg_timeouts (json_reload c) = cfg_timeouts c"
  "cfg_routing (json_reload c) = (cfg_routing c)
     \<lparr>rt_model_map := omit_empty (rt_model_map (cfg_routing c)), rt_claude_aliases := omit_empty (rt_claude_aliases (cfg_routing c)),
      rt_virtual_models := omit_empty (rt_virtual_models (cfg_routing c))\<rparr>"
  "pv_copilot (cfg_providers (json_reload c)) = (pv_copilot (cfg_providers c))\<lparr>cp_accounts := omit_empty (cp_accounts (pv_copilot (cfg_providers c)))\<rparr>"
  "pv_codex (cfg_providers (json_reload c)) = (pv_codex (cfg_providers c))\<lparr>xp_accounts := omit_empty (xp_accounts (pv_codex (cfg_providers c)))\<rparr>"
  "pv_kilo (cfg_providers (json_reload c)) = pv_kilo (cfg_providers c)"
  by (simp_all add: json_reload_def Let_def)

lemma json_reload_idem [simp]: "json_reload (json_reload c) = json_reload c"
  by (rule config_eqI) simp_all

lemma Clone_json_reload: "Clone c = c \<Longrightarrow> Clone (json_reload c) = json_reload c"
  by (cases "rt_virtual_models (cfg_routing c)")
    (auto simp: Clone_same_iff omit_empty_same cloneVirtualModels_def omit_empty_def append_nil_def)

lemma reload_defaults_commute:
  assumes "Clone c = c" and "rt_virtual_models (cfg_routing c) \<noteq> Some []"
  shows "applyConfigDefaults h (json_reload c) = json_reload (applyConfigDefaults h c)"
proof (rule config_eqI)
  have ne: "cp_accounts (pv_copilot (cfg_providers c)) \<noteq> Some []" "xp_accounts (pv_codex (cfg_providers c)) \<noteq> Some []"
    using assms(1) by (simp_all add: Clone_same_iff)
  show "pv_copilot (cfg_providers (applyConfigDefaults h (json_reload c))) = pv_copilot (cfg_providers (json_reload (applyConfigDefaults h c)))"
    using ne(1) by (simp add: omit_empty_same)
  show "pv_codex (cfg_providers (applyConfigDefaults h (json_reload c))) = pv_codex (cfg_providers (json_reload (applyConfigDefaults h c)))"
    using ne(2) by (simp add: omit_empty_same)
  show "cfg_routing (applyConfigDefaults h (json_reload c)) = cfg_routing (json_reload (applyConfigDefaults h c))"
    using assms(2) by (cases "rt_virtual_models (cfg_routing c)")
      (simp_all add: default_routing_def omit_empty_def append_nil_def defaultVirtualModels_def)
qed simp_all

lemma ValidateVirtualModels_cong:
  "items (rt_virtual_models r) = items (rt_virtual_models r') \<Longrightarrow> items (rt_model_map r) = items (rt_model_map r') \<Longrightarrow>
   ValidateVirtualModels r known = ValidateVirtualModels r' known"
  using validate_ids_cong [of "items (rt_virtual_models r)" "items (rt_virtual_models r')" r r' known]
  by (simp add: ValidateVirtualModels_def Let_def)

text \<open>
  A configuration that reads back as written: of the current version, without an explicitly
  empty set of umbrella models, without Codex credentials outside an account, and equal to its
  own copy.
\<close>

definition settled :: "config \<Rightarrow> bool" where
  "settled c \<longleftrightarrow> cfg_version c = currentConfigVersion \<and> rt_virtual_models (cfg_routing c) \<noteq> Some []
     \<and> \<not> migrates_codex (pv_codex (cfg_providers c))"

lemma validate_fields:
  assumes "validateManagedConfig h c = Inr v" and "cfg_version c = currentConfigVersion"
  shows "v = applyConfigDefaults h c"
  using assms by (auto simp: validateManagedConfig_def Let_def config_constants(1) split: if_splits option.splits)

lemma validate_accepts_iff:
  "cfg_version c = currentConfigVersion \<Longrightarrow>
     (validateManagedConfig h c = Inr (applyConfigDefaults h c) \<longleftrightarrow>
        1 \<le> nonzero_or (cfg_port c) 7071 \<and> nonzero_or (cfg_port c) 7071 \<le> 65535
        \<and> ValidateVirtualModels (default_routing (cfg_routing c)) KnownPrefixes = None)"
  by (auto simp: validateManagedConfig_def Let_def config_constants(1) split: option.splits)

lemma settled_validated:
  assumes "settled c" and "validateManagedConfig h c = Inr v"
  shows "settled v \<and> validateManagedConfig h v = Inr v"
proof -
  have v: "v = applyConfigDefaults h c" and cv: "cfg_version c = currentConfigVersion"
    using assms validate_fields by (auto simp: settled_def)
  have "rt_virtual_models (default_routing (cfg_routing c)) \<noteq> Some []"
    using assms(1) by (auto simp: settled_def default_routing_def defaultVirtualModels_def split: option.splits)
  then have "settled v" using assms(1) by (simp add: settled_def v)
  moreover have "applyConfigDefaults h v = v" using assms(1) by (simp add: v applyConfigDefaults_settled settled_def)
  moreover have "validateManagedConfig h v = Inr (applyConfigDefaults h v)"
    using assms(2) cv validate_accepts_iff [OF cv, of h] validate_accepts_iff [of v h] by (simp add: v)
  ultimately show ?thesis by simp
qed

lemma settled_reload:
  assumes "settled c" and "Clone c = c" and "validateManagedConfig h c = Inr v"
  shows "loadConfigFromPath h (PathDocument (marshalled c)) = Inr (json_reload v)
    \<and> Clone (json_reload v) = json_reload v
    \<and> validateManagedConfig h (json_reload v) = Inr (json_reload v)"
proof -
  have v: "v = applyConfigDefaults h c" and cv: "cfg_version c = currentConfigVersion"
    using assms validate_fields by (auto simp: settled_def)
  have cloned: "Clone v = v" using Clone_applyConfigDefaults [OF assms(2)] by (simp add: v)
  have sv: "settled v" "validateManagedConfig h v = Inr v" using settled_validated [OF assms(1,3)] by auto
  have comm: "applyConfigDefaults h (json_reload c) = json_reload v"
    using assms(1,2) reload_defaults_commute by (simp add: settled_def v)
  have "loadConfigFromPath h (PathDocument (marshalled c)) = Inr (json_reload v)"
    using cv comm by (simp add: loadConfigFromPath_def marshalled_def config_constants(1))
  moreover have "applyConfigDefaults h (json_reload v) = json_reload v"
    using sv cloned reload_defaults_commute [of v h] assms(1) by (simp add: settled_def v applyConfigDefaults_settled)
  moreover have "validateManagedConfig h (json_reload v) = Inr (applyConfigDefaults h (json_reload v))"
  proof -
    have "ValidateVirtualModels (default_routing (cfg_routing (json_reload v))) KnownPrefixes
        = ValidateVirtualModels (default_routing (cfg_routing v)) KnownPrefixes"
      using sv(1) by (intro ValidateVirtualModels_cong) (auto simp: default_routing_def settled_def omit_empty_same)
    then show ?thesis using sv validate_accepts_iff [of v h] validate_accepts_iff [of "json_reload v" h] validate_fields [OF sv(2)]
      by (simp add: settled_def)
  qed
  ultimately show ?thesis using cloned by (simp add: Clone_json_reload)
qed

end
