(* ===== verification/Json_Body.thy ===== *)
theory Json_Body
  imports Prefixes
begin

text \<open>
  Request and response bodies: the helpers of \<open>internal/proxy/request.go\<close> that read and
  replace the model of a request, and those of \<open>src/virtual_model_response.go\<close> that put the
  umbrella model's name into a response. They work on the values \<open>encoding/json\<close> decodes;
  turning bytes into such a value and back is the package's business and a parameter here
  (\<open>json_codec\<close>). An object keeps its members in document order, duplicates included;
  decoding it into a Go map, the last duplicate wins.
\<close>

section \<open>Values\<close>

datatype json =
    JNull
  | JBool bool
  | JNum string
  | JStr string
  | JArr "json list"
  | JObj "(string \<times> json) list"

record json_codec =
  jc_decode :: "string \<Rightarrow> json option"
  jc_encode :: "json \<Rightarrow> string option"

text \<open>An object as a Go map: each key once, with its last value.\<close>

definition dedup :: "(string \<times> 'v) list \<Rightarrow> (string, 'v) gomap" where
  "dedup kvs = fold (\<lambda>(k, v) m. AList.update k v m) kvs []"

fun to_any :: "json \<Rightarrow> json" where
  "to_any (JArr js) = JArr (map to_any js)"
| "to_any (JObj kvs) = JObj (dedup (map (\<lambda>(k, v). (k, to_any v)) kvs))"
| "to_any j = j"

section \<open>Requests\<close>

text \<open>Substring search, \<open>strings.Contains\<close>.\<close>

fun contains :: "string \<Rightarrow> string \<Rightarrow> bool" where
  "contains [] sub \<longleftrightarrow> sub = []"
| "contains (c # cs) sub \<longleftrightarrow> has_prefix (c # cs) sub \<or> contains cs sub"

definition CapabilityFromPath :: "string \<Rightarrow> capability option" where
  "CapabilityFromPath path =
     (if contains path ''/chat/completions'' then Some CapabilityChat
      else if contains path ''/responses'' then Some CapabilityResponses
      else if contains path ''/embeddings'' then Some CapabilityEmbeddings
      else None)"

text \<open>Decoding into \<open>struct { Model string }\<close>: member names match without regard to case,
  later members overwrite earlier ones, \<open>null\<close> leaves the field, another type is an error.\<close>

fun model_field :: "string \<Rightarrow> (string \<times> json) list \<Rightarrow> string option" where
  "model_field acc [] = Some acc"
| "model_field acc ((k, v) # kvs) =
     (if equal_fold k ''model''
      then (case v of JStr s \<Rightarrow> model_field s kvs | JNull \<Rightarrow> model_field acc kvs | _ \<Rightarrow> None)
      else model_field acc kvs)"

definition ExtractModel :: "json_codec \<Rightarrow> string \<Rightarrow> string" where
  "ExtractModel codec body =
     (case jc_decode codec body of
        Some (JObj kvs) \<Rightarrow> (case model_field '''' kvs of Some m \<Rightarrow> m | None \<Rightarrow> '''')
      | _ \<Rightarrow> '''')"

datatype patched = Body string | Panic

text \<open>Decoding \<open>null\<close> into a map succeeds and leaves the map \<open>nil\<close>; storing into it panics.\<close>

definition PatchModel :: "json_codec \<Rightarrow> string \<Rightarrow> string \<Rightarrow> patched" where
  "PatchModel codec body model =
     (case jc_decode codec body of
        Some (JObj kvs) \<Rightarrow>
          (case jc_encode codec (JObj (AList.update ''model'' (JStr model) (dedup (map (\<lambda>(k, v). (k, to_any v)) kvs)))) of
             None \<Rightarrow> Body body | Some out \<Rightarrow> Body out)
      | Some JNull \<Rightarrow> Panic
      | _ \<Rightarrow> Body body)"

section \<open>Responses\<close>

text \<open>Every string member named \<open>model\<close>, at any depth, becomes the given model.\<close>

fun rewriteModelField :: "string \<Rightarrow> json \<Rightarrow> json" where
  "rewriteModelField model (JObj kvs) =
     JObj (map (\<lambda>(k, v). if k = ''model'' then (case v of JStr _ \<Rightarrow> (k, JStr model) | _ \<Rightarrow> (k, v))
                        else (k, rewriteModelField model v)) kvs)"
| "rewriteModelField model (JArr js) = JArr (map (rewriteModelField model) js)"
| "rewriteModelField model j = j"

definition rewriteModelJSON :: "json_codec \<Rightarrow> string \<Rightarrow> string \<Rightarrow> string" where
  "rewriteModelJSON codec model body =
     (case jc_decode codec body of None \<Rightarrow> body
      | Some j \<Rightarrow> (case jc_encode codec (rewriteModelField model (to_any j)) of None \<Rightarrow> body | Some out \<Rightarrow> out))"

definition newline :: char where
  "newline = CHR 0x0A"

definition trim_suffix_newline :: "string \<Rightarrow> string" where
  "trim_suffix_newline line = (if line \<noteq> [] \<and> last line = newline then butlast line else line)"

definition data_prefix :: string where
  "data_prefix = ''data: ''"

definition rewriteSSEModelLine :: "json_codec \<Rightarrow> string \<Rightarrow> string \<Rightarrow> string" where
  "rewriteSSEModelLine codec model line =
     (let trimmed = trim_suffix_newline line in
      if \<not> has_prefix trimmed data_prefix then line
      else data_prefix @ rewriteModelJSON codec model (drop (length data_prefix) trimmed) @ [newline])"

section \<open>Facts\<close>

lemma dedup_map_of: "map_of (dedup kvs) k = map_of (rev kvs) k"
proof -
  have "map_of (fold (\<lambda>(k, v) m. AList.update k v m) kvs m0) k
      = (case map_of (rev kvs) k of Some v \<Rightarrow> Some v | None \<Rightarrow> map_of m0 k)" for m0 :: "(string, 'a) gomap"
    by (induction kvs arbitrary: m0) (auto simp: map_add_def split: option.splits)
  then show ?thesis by (simp add: dedup_def split: option.split)
qed

lemma wf_dedup: "wf_map (dedup kvs)"
proof -
  have "wf_map m \<Longrightarrow> wf_map (fold (\<lambda>(k, v) m. AList.update k v m) kvs m)" for m :: "(string, 'a) gomap"
    by (induction kvs arbitrary: m) (auto intro: wf_map_update)
  then show ?thesis by (simp add: dedup_def)
qed

lemma model_field_last:
  assumes "\<forall>(k, v) \<in> set kvs. equal_fold k ''model'' \<longrightarrow> k = ''model''"
    and "wf_map kvs"
  shows "model_field acc kvs =
    (case map_of kvs ''model'' of None \<Rightarrow> Some acc | Some (JStr s) \<Rightarrow> Some s | Some JNull \<Rightarrow> Some acc | Some _ \<Rightarrow> None)"
  using assms
proof (induction kvs arbitrary: acc)
  case (Cons kv kvs)
  obtain k v where kv: "kv = (k, v)" by fastforce
  have absent: "k = ''model'' \<Longrightarrow> map_of kvs ''model'' = None"
    using Cons.prems(2) by (simp add: kv wf_map_def keys_of_def map_of_eq_None_iff)
  have IH: "model_field acc' kvs =
    (case map_of kvs ''model'' of None \<Rightarrow> Some acc' | Some (JStr s) \<Rightarrow> Some s | Some JNull \<Rightarrow> Some acc' | Some _ \<Rightarrow> None)" for acc'
    using Cons by (simp add: wf_map_def keys_of_def)
  show ?case
  proof (cases "k = ''model''")
    case True
    then show ?thesis using absent by (simp add: kv IH split: json.split)
  next
    case False
    then have "\<not> equal_fold k ''model''" using Cons.prems(1) by (auto simp: kv)
    with False show ?thesis by (simp add: kv IH)
  qed
qed simp

text \<open>All \<open>model\<close> strings of a value, at any depth.\<close>

fun model_strings :: "json \<Rightarrow> string list" where
  "model_strings (JObj kvs) = concat (map (\<lambda>(k, v). if k = ''model'' then (case v of JStr s \<Rightarrow> [s] | _ \<Rightarrow> []) else model_strings v) kvs)"
| "model_strings (JArr js) = concat (map model_strings js)"
| "model_strings j = []"

lemma rewriteModelField_strings: "set (model_strings (rewriteModelField model j)) \<subseteq> {model}"
proof (induction j)
  case (JObj kvs)
  let ?g = "\<lambda>(k, v). if k = ''model'' then (case v of JStr _ \<Rightarrow> (k, JStr model) | _ \<Rightarrow> (k, v)) else (k, rewriteModelField model v)"
  let ?f = "\<lambda>(k, v). if k = ''model'' then (case v of JStr s \<Rightarrow> [s] | _ \<Rightarrow> []) else model_strings v"
  have "set (?f (?g kv)) \<subseteq> {model}" if "kv \<in> set kvs" for kv
  proof (cases kv)
    case (Pair k v)
    have IH: "set (model_strings (rewriteModelField model v)) \<subseteq> {model}"
      using JObj.IH [OF that, of v] Pair by simp
    show ?thesis
    proof (cases "k = ''model''")
      case True
      then show ?thesis by (cases v) (simp_all add: Pair)
    next
      case False
      with IH show ?thesis by (simp only: Pair prod.case if_False)
    qed
  qed
  then show ?case by (simp only: rewriteModelField.simps model_strings.simps set_concat set_map) blast
qed auto

lemma rewriteModelField_id: "set (model_strings j) \<subseteq> {model} \<Longrightarrow> rewriteModelField model j = j"
proof (induction j)
  case (JObj kvs)
  have "(\<lambda>(k, v). if k = ''model'' then (case v of JStr _ \<Rightarrow> (k, JStr model) | _ \<Rightarrow> (k, v)) else (k, rewriteModelField model v)) kv = kv"
    if "kv \<in> set kvs" for kv
  proof -
    obtain k v where kv: "kv = (k, v)" by fastforce
    have "set (if k = ''model'' then (case v of JStr s \<Rightarrow> [s] | _ \<Rightarrow> []) else model_strings v) \<subseteq> {model}"
      using JObj.prems that kv by fastforce
    with JObj.IH [OF that, of v] kv show ?thesis by (auto split: json.splits if_splits)
  qed
  then show ?case by (simp add: map_idI)
next
  case (JArr js)
  then have "rewriteModelField model j = j" if "j \<in> set js" for j using that by fastforce
  then show ?case by (simp add: map_idI)
qed simp_all

text \<open>Replacing the model of a request body takes effect and changes nothing else. When
  the body is an object without another member whose name is \<open>model\<close> up to case, and
  decoding the encoded result gives its members back in some order, then the patched body
  names the new model, and every other member is that of the original.\<close>

theorem patch_model_roundtrip:
  assumes "jc_decode codec body = Some (JObj kvs)"
    and "\<forall>(k, v) \<in> set kvs. equal_fold k ''model'' \<longrightarrow> k = ''model''"
    and "PatchModel codec body model = Body out"
    and "jc_encode codec (JObj members) = Some out \<and> jc_decode codec out = Some (JObj kvs')"
    and "members = AList.update ''model'' (JStr model) (dedup (map (\<lambda>(k, v). (k, to_any v)) kvs))"
    and "set kvs' = set members \<and> distinct (map fst kvs')"
  shows "ExtractModel codec out = model
    \<and> (\<forall>k. k \<noteq> ''model'' \<longrightarrow> map_of kvs' k = map_option to_any (map_of (rev kvs) k))"
proof -
  have wf: "wf_map kvs'" using assms(6) by (simp add: wf_map_def keys_of_def)
  have wfm: "wf_map members" unfolding assms(5) by (intro wf_map_update wf_dedup)
  have same: "map_of kvs' k = map_of members k" for k
    using assms(6) wf_map_Some_iff [OF wf] wf_map_Some_iff [OF wfm] by (metis option.exhaust)
  have members: "map_of members k = (if k = ''model'' then Some (JStr model) else map_option to_any (map_of (rev kvs) k))" for k
    by (simp add: assms(5) dedup_map_of rev_map map_of_map)
  have "\<forall>(k, v) \<in> set kvs'. equal_fold k ''model'' \<longrightarrow> k = ''model''"
  proof clarify
    fix k v assume kv: "(k, v) \<in> set kvs'" and fold: "equal_fold k ''model''"
    then have "map_of members k \<noteq> None" using wf_map_Some_iff [OF wf] same by auto
    then have "k = ''model'' \<or> map_of (rev kvs) k \<noteq> None" by (auto simp: members split: if_splits)
    then show "k = ''model''" using assms(2) fold by (force dest: map_of_SomeD)
  qed
  then have "model_field '''' kvs' = Some model"
    using model_field_last [OF _ wf] same [of "''model''"] members [of "''model''"] by simp
  then have "ExtractModel codec out = model" using assms(4) by (simp add: ExtractModel_def)
  with same members show ?thesis by simp
qed

definition sample_codec :: json_codec where
  "sample_codec = \<lparr>jc_decode = (\<lambda>b. if b = ''A'' then Some (JObj [(''model'', JStr ''x''), (''n'', JBool True)])
       else if b = ''B'' then Some (JObj [(''model'', JStr ''gpt-5''), (''n'', JBool True)])
       else if b = ''null'' then Some JNull else None),
     jc_encode = (\<lambda>j. if j = JObj [(''model'', JStr ''gpt-5''), (''n'', JBool True)] then Some ''B'' else None)\<rparr>"

theorem patch_model_roundtrip_witness:
  "PatchModel sample_codec ''A'' ''gpt-5'' = Body ''B'' \<and> ExtractModel sample_codec ''B'' = ''gpt-5''"
proof -
  let ?kvs = "[(''model'', JStr ''x''), (''n'', JBool True)]"
  let ?m = "[(''model'', JStr ''gpt-5''), (''n'', JBool True)]"
  have patch: "PatchModel sample_codec ''A'' ''gpt-5'' = Body ''B''" by code_simp
  have mem: "?m = AList.update ''model'' (JStr ''gpt-5'') (dedup (map (\<lambda>(k, v). (k, to_any v)) ?kvs))"
    by code_simp
  have fold: "\<forall>(k, v) \<in> set ?kvs. equal_fold k ''model'' \<longrightarrow> k = ''model''" by code_simp
  have dec: "jc_decode sample_codec ''A'' = Some (JObj ?kvs)" by (simp add: sample_codec_def)
  have enc: "jc_encode sample_codec (JObj ?m) = Some ''B'' \<and> jc_decode sample_codec ''B'' = Some (JObj ?m)"
    by (simp add: sample_codec_def)
  have dist: "set ?m = set ?m \<and> distinct (map fst ?m)" by simp
  show ?thesis
    using patch_model_roundtrip [OF dec fold patch enc mem dist] patch by blast
qed

text \<open>Rewriting a response leaves no other model name behind: after it, every string
  member called \<open>model\<close>, however deeply nested, holds the requested name, and a second
  rewriting changes nothing.\<close>

theorem rewrite_model_complete:
  "set (model_strings (rewriteModelField model j)) \<subseteq> {model}
   \<and> rewriteModelField model (rewriteModelField model j) = rewriteModelField model j"
  by (simp add: rewriteModelField_strings rewriteModelField_id)

text \<open>A request body that is the JSON value \<open>null\<close> makes the replacement of the model
  panic, although invalid input is meant to be passed on unchanged.\<close>

theorem patch_model_null_panics:
  assumes "jc_decode codec body = Some JNull"
  shows "PatchModel codec body model = Panic \<and> ExtractModel codec body = ''''"
  using assms by (simp add: PatchModel_def ExtractModel_def)

theorem patch_model_null_panics_witness: "PatchModel sample_codec ''null'' ''gpt-5'' = Panic"
proof -
  have "jc_decode sample_codec ''null'' = Some JNull" by (simp add: sample_codec_def)
  then show ?thesis using patch_model_null_panics by blast
qed

end
