(* ===== verification/State_Manager.thy ===== *)
theory State_Manager
  imports Config_Defaults Json_Body
begin

text \<open>
  The revisioned configuration of \<open>internal/state\<close> (\<open>types.go\<close>, \<open>manager.go\<close>,
  \<open>persistence.go\<close>, \<open>diff.go\<close>): a desired and an effective configuration under a revision
  number, replaced only by a caller that names the current revision, and written to a
  configuration file and a metadata file with backups of both.

  \<^item> The configuration file is the configuration last marshalled into it. The loader and the
    validator are options of the manager: the loader turns the file into a configuration, the
    validator, which the daemon lets fill in defaults in place, into an accepted one.
  \<^item> The digest (SHA-256 of the encoding) and the encoding as a JSON object are parameters;
    marshalling a configuration does not fail.
  \<^item> \<open>persist\<close> takes the stage at which it is interrupted, if any.
\<close>

section \<open>Differences\<close>

text \<open>A missing member of a Go map reads as \<open>nil\<close>, which is also the JSON \<open>null\<close>.\<close>

definition member :: "(string \<times> json) list \<Rightarrow> string \<Rightarrow> json" where
  "member m k = (case map_of m k of None \<Rightarrow> JNull | Some v \<Rightarrow> v)"

text \<open>
  An object lists its members in the order of their keys, so \<open>reflect.DeepEqual\<close> on two
  decoded values is equality.
\<close>

definition all_keys :: "(string \<times> json) list \<Rightarrow> (string \<times> json) list \<Rightarrow> string list" where
  "all_keys l r = sort (remdups (keys_of l @ keys_of r))"

lemma size_member: "size (member m k) \<le> size_list (size_prod (\<lambda>x. 0) size) m"
proof (cases "map_of m k")
  case (Some v)
  then have "(k, v) \<in> set m" by (rule map_of_SomeD)
  then have "size_prod (\<lambda>x. 0) size (k, v) \<le> size_list (size_prod (\<lambda>x. 0) size) m" by (rule size_list_estimation') simp
  then show ?thesis using Some by (simp add: member_def)
qed (simp add: member_def)

lemma size_member_less:
  assumes "k \<in> set (all_keys l r)"
  shows "size (member l k) + size (member r k) < size (JObj l) + size (JObj r)"
  using size_member [of l k] size_member [of r k] by simp

function walkDiff :: "string \<Rightarrow> json \<Rightarrow> json \<Rightarrow> string list" where
  "walkDiff prefix left right =
     (if left = right then []
      else case (left, right) of
        (JObj l, JObj r) \<Rightarrow>
          concat (map (\<lambda>key. walkDiff (if prefix \<noteq> '''' then prefix @ ''.'' @ key else key) (member l key) (member r key)) (all_keys l r))
      | _ \<Rightarrow> [if prefix = '''' then ''$'' else prefix])"
  by pat_completeness auto
termination
  by (relation "measure (\<lambda>(prefix, left, right). size left + size right)") (auto dest: size_member_less)

declare walkDiff.simps [simp del]

section \<open>Types\<close>

record state_env =
  se_loader :: "config \<Rightarrow> config_error + config"
  se_validator :: "config \<Rightarrow> config_error + config"
  se_digest :: "config \<Rightarrow> string"
  se_object :: "config \<Rightarrow> json"

definition diffPaths :: "state_env \<Rightarrow> config \<Rightarrow> config \<Rightarrow> string list" where
  "diffPaths env before after = sort (walkDiff '''' (se_object env before) (se_object env after))"

definition metadataSchemaVersion :: int where "metadataSchemaVersion = 1"

record state_metadata =
  md_SchemaVersion :: int
  md_Revision :: nat
  md_Digest :: string
  md_EffectiveDigest :: string
  md_RestartRequired :: "string list"
  md_UpdatedAt :: gotime
  md_Actor :: string

record state_snapshot =
  ss_SchemaVersion :: int
  ss_Revision :: nat
  ss_Digest :: string
  ss_EffectiveDigest :: string
  ss_UpdatedAt :: gotime
  ss_Actor :: string
  ss_Desired :: config
  ss_Effective :: config
  ss_RestartRequired :: "string list"

record state_preview =
  pv_CurrentRevision :: nat
  pv_NextRevision :: nat
  pv_Digest :: string
  pv_Changed :: bool
  pv_ChangedPaths :: "string list"
  pv_RestartRequired :: "string list"

datatype config_file = ConfigMissing | ConfigStatFails | ConfigFile config
datatype metadata_file = MetadataMissing | MetadataUnreadable | MetadataFile state_metadata

record state_disk =
  dk_config :: config_file
  dk_metadata :: metadata_file
  dk_backup :: config_file
  dk_metadata_backup :: metadata_file

text \<open>The stages of \<open>persist\<close> at which it may be interrupted, in order. The copies of
  \<open>backupCurrent\<close> may fail before or after they have replaced the backup.\<close>

datatype state_fault =
    FaultConfigTemp | FaultMetadataTemp | FaultBeforeBackup
  | FaultBackupConfig | FaultBackupConfigSync | FaultBackupMetadata | FaultBackupMetadataSync
  | FaultBeforeConfigRename | FaultConfigRename | FaultAfterConfigRename
  | FaultBeforeMetadataRename | FaultMetadataRename | FaultAfterMetadataRename | FaultSyncDirectory

datatype state_error =
    StatePathRequired | StateDirectory | StateLocked | NoInitialConfig | StatConfiguration
  | LoaderError config_error | ValidatorError config_error | EffectiveInvalid config_error | ReadMetadata | WriteMetadata
  | StateManagerClosed | ConflictError nat nat | DesiredRequired | EffectiveRequired | NoBackup
  | PersistInterrupted state_fault

record state_manager =
  mg_initial :: "config option"
  mg_actor :: string
  mg_snapshot :: state_snapshot
  mg_closed :: bool
  mg_disk :: state_disk

definition cloneSnapshot :: "state_snapshot \<Rightarrow> state_snapshot" where
  "cloneSnapshot s = s\<lparr>ss_Desired := Clone (ss_Desired s), ss_Effective := Clone (ss_Effective s)\<rparr>"

section \<open>Persistence\<close>

definition metadata_of :: "state_snapshot \<Rightarrow> state_metadata" where
  "metadata_of next_snapshot =
     \<lparr>md_SchemaVersion = ss_SchemaVersion next_snapshot, md_Revision = ss_Revision next_snapshot,
      md_Digest = ss_Digest next_snapshot, md_EffectiveDigest = ss_EffectiveDigest next_snapshot,
      md_RestartRequired = ss_RestartRequired next_snapshot, md_UpdatedAt = ss_UpdatedAt next_snapshot,
      md_Actor = ss_Actor next_snapshot\<rparr>"

definition backup_config :: "state_disk \<Rightarrow> state_disk" where
  "backup_config d = (case dk_config d of ConfigFile c \<Rightarrow> d\<lparr>dk_backup := ConfigFile c\<rparr> | _ \<Rightarrow> d)"

definition backup_metadata :: "state_disk \<Rightarrow> state_disk" where
  "backup_metadata d = (case dk_metadata d of MetadataMissing \<Rightarrow> d | f \<Rightarrow> d\<lparr>dk_metadata_backup := f\<rparr>)"

definition persist :: "state_fault option \<Rightarrow> state_snapshot \<Rightarrow> state_disk \<Rightarrow> state_error option \<times> state_disk" where
  "persist io next_snapshot d =
     (if io \<in> {Some FaultConfigTemp, Some FaultMetadataTemp, Some FaultBeforeBackup, Some FaultBackupConfig}
      then (map_option PersistInterrupted io, d)
      else if dk_config d = ConfigStatFails then (Some StatConfiguration, d)
      else
        let d = backup_config d in
        if io \<in> {Some FaultBackupConfigSync, Some FaultBackupMetadata} then (map_option PersistInterrupted io, d)
        else
          let d = backup_metadata d in
          if io \<in> {Some FaultBackupMetadataSync, Some FaultBeforeConfigRename, Some FaultConfigRename}
          then (map_option PersistInterrupted io, d)
          else
            let d = d\<lparr>dk_config := ConfigFile (ss_Desired next_snapshot)\<rparr> in
            if io \<in> {Some FaultAfterConfigRename, Some FaultBeforeMetadataRename, Some FaultMetadataRename}
            then (map_option PersistInterrupted io, d)
            else
              let d = d\<lparr>dk_metadata := MetadataFile (metadata_of next_snapshot)\<rparr>
              in (map_option PersistInterrupted io, d))"

section \<open>Opening\<close>

definition loadConfig :: "state_env \<Rightarrow> config option \<Rightarrow> state_disk \<Rightarrow> state_error + config" where
  "loadConfig env initial d =
     (case dk_config d of
        ConfigMissing \<Rightarrow> (case initial of None \<Rightarrow> Inl NoInitialConfig | Some c \<Rightarrow> Inr (Clone c))
      | ConfigStatFails \<Rightarrow> Inl StatConfiguration
      | ConfigFile c \<Rightarrow> (case se_loader env c of Inl e \<Rightarrow> Inl (LoaderError e) | Inr c \<Rightarrow> Inr c))"

text \<open>\<open>writeAtomicJSON\<close> fails before the rename, after it, or not at all.\<close>

datatype metadata_write = MetadataWritten | MetadataNotReplaced | MetadataNotSynced

definition write_metadata :: "metadata_write \<Rightarrow> state_metadata \<Rightarrow> state_disk \<Rightarrow> bool \<times> state_disk" where
  "write_metadata w md d =
     (w = MetadataWritten, if w = MetadataNotReplaced then d else d\<lparr>dk_metadata := MetadataFile md\<rparr>)"

definition initial_metadata :: "string \<Rightarrow> string \<Rightarrow> gotime \<Rightarrow> state_metadata" where
  "initial_metadata digest actor now =
     \<lparr>md_SchemaVersion = metadataSchemaVersion, md_Revision = 1, md_Digest = digest, md_EffectiveDigest = digest,
      md_RestartRequired = [], md_UpdatedAt = now, md_Actor = actor\<rparr>"

definition repaired_metadata :: "string \<Rightarrow> gotime \<Rightarrow> state_metadata \<Rightarrow> state_metadata" where
  "repaired_metadata digest now md =
     md\<lparr>md_Revision := md_Revision md + 1, md_Digest := digest, md_EffectiveDigest := digest, md_RestartRequired := [],
        md_UpdatedAt := now, md_Actor := ''recovery''\<rparr>"

definition loaded_snapshot :: "config \<Rightarrow> string \<Rightarrow> state_metadata \<Rightarrow> state_snapshot" where
  "loaded_snapshot c digest md =
     \<lparr>ss_SchemaVersion = (if md_SchemaVersion md = 0 then metadataSchemaVersion else md_SchemaVersion md),
      ss_Revision = (if md_Revision md = 0 then 1 else md_Revision md),
      ss_Digest = digest, ss_EffectiveDigest = digest, ss_UpdatedAt = md_UpdatedAt md, ss_Actor = md_Actor md,
      ss_Desired = Clone c, ss_Effective = Clone c, ss_RestartRequired = md_RestartRequired md\<rparr>"

definition Manager_load ::
    "state_env \<Rightarrow> metadata_write \<Rightarrow> gotime \<Rightarrow> config option \<Rightarrow> string \<Rightarrow> state_disk \<Rightarrow> (state_error + state_snapshot) \<times> state_disk" where
  "Manager_load env w now initial actor d =
     (case loadConfig env initial d of
        Inl e \<Rightarrow> (Inl e, d)
      | Inr c \<Rightarrow>
        (case se_validator env (Clone c) of
           Inl e \<Rightarrow> (Inl (ValidatorError e), d)
         | Inr c \<Rightarrow>
             let digest = se_digest env c in
             case dk_metadata d of
               MetadataUnreadable \<Rightarrow> (Inl ReadMetadata, d)
             | MetadataMissing \<Rightarrow>
                 (let md = initial_metadata digest actor now; (ok, d) = write_metadata w md d
                  in if ok then (Inr (loaded_snapshot c digest md), d) else (Inl WriteMetadata, d))
             | MetadataFile md \<Rightarrow>
                 if md_Digest md \<noteq> digest
                 then (let md = repaired_metadata digest now md; (ok, d) = write_metadata w md d
                       in if ok then (Inr (loaded_snapshot c digest md), d) else (Inl WriteMetadata, d))
                 else (Inr (loaded_snapshot c digest md), d)))"

definition State_Open ::
    "state_env \<Rightarrow> metadata_write \<Rightarrow> bool \<Rightarrow> bool \<Rightarrow> gotime \<Rightarrow> string \<Rightarrow> config option \<Rightarrow> string \<Rightarrow> state_disk \<Rightarrow>
     (state_error + state_manager) \<times> state_disk" where
  "State_Open env w mkdir_ok lock_ok now path initial actor d =
     (if trim_space path = '''' then (Inl StatePathRequired, d)
      else
        let actor = (if trim_space actor = '''' then ''ya-routerd'' else actor) in
        if \<not> mkdir_ok then (Inl StateDirectory, d)
        else if \<not> lock_ok then (Inl StateLocked, d)
        else (case Manager_load env w now initial actor d of
            (Inl e, d) \<Rightarrow> (Inl e, d)
          | (Inr snapshot, d) \<Rightarrow>
              (Inr \<lparr>mg_initial = initial, mg_actor = actor, mg_snapshot = snapshot, mg_closed = False, mg_disk = d\<rparr>, d)))"

section \<open>Operations\<close>

definition previewLocked ::
    "state_env \<Rightarrow> config option \<Rightarrow> config option \<Rightarrow> state_snapshot \<Rightarrow> state_error + state_preview" where
  "previewLocked env desired effective current =
     (case desired of None \<Rightarrow> Inl DesiredRequired
      | Some desired \<Rightarrow>
        (case se_validator env (Clone desired) of
           Inl e \<Rightarrow> Inl (ValidatorError e)
         | Inr desired \<Rightarrow>
           (case (case effective of
                    None \<Rightarrow> Inr (ss_Effective current)
                  | Some effective \<Rightarrow>
                      (case se_validator env (Clone effective) of Inl e \<Rightarrow> Inl (EffectiveInvalid e) | Inr c \<Rightarrow> Inr c)) of
              Inl e \<Rightarrow> Inl e
            | Inr effective \<Rightarrow>
                Inr \<lparr>pv_CurrentRevision = ss_Revision current, pv_NextRevision = ss_Revision current + 1,
                     pv_Digest = se_digest env desired, pv_Changed = (se_digest env desired \<noteq> ss_Digest current),
                     pv_ChangedPaths = diffPaths env (ss_Desired current) desired,
                     pv_RestartRequired = diffPaths env effective desired\<rparr>)))"

definition actor_or_default :: "state_manager \<Rightarrow> string \<Rightarrow> string" where
  "actor_or_default m actor = (if trim_space actor = '''' then mg_actor m else actor)"

text \<open>The common end of the mutations: persist, and only then replace the snapshot.\<close>

definition commit_snapshot ::
    "state_fault option \<Rightarrow> state_snapshot \<Rightarrow> state_manager \<Rightarrow> (state_error + state_snapshot) \<times> state_manager" where
  "commit_snapshot io next_snapshot m =
     (case persist io next_snapshot (mg_disk m) of
        (Some e, d) \<Rightarrow> (Inl e, m\<lparr>mg_disk := d\<rparr>)
      | (None, d) \<Rightarrow> (Inr (cloneSnapshot next_snapshot), m\<lparr>mg_disk := d, mg_snapshot := next_snapshot\<rparr>))"

definition State_Apply ::
    "state_env \<Rightarrow> state_fault option \<Rightarrow> gotime \<Rightarrow> nat \<Rightarrow> config option \<Rightarrow> config option \<Rightarrow> string \<Rightarrow> bool \<Rightarrow> state_manager \<Rightarrow>
     (state_error + state_snapshot) \<times> state_manager" where
  "State_Apply env io now expected desired effective actor dryRun m =
     (let current = mg_snapshot m in
      if mg_closed m then (Inl StateManagerClosed, m)
      else if expected \<noteq> ss_Revision current then (Inl (ConflictError expected (ss_Revision current)), m)
      else (case previewLocked env desired effective current of
          Inl e \<Rightarrow> (Inl e, m)
        | Inr preview \<Rightarrow>
            if dryRun then
              (Inr ((cloneSnapshot current)\<lparr>ss_Revision := pv_NextRevision preview, ss_Digest := pv_Digest preview,
                 ss_Desired := Clone (the desired),
                 ss_Effective := (case effective of None \<Rightarrow> Clone (ss_Effective current) | Some e \<Rightarrow> Clone e),
                 ss_RestartRequired := pv_RestartRequired preview\<rparr>), m)
            else if \<not> pv_Changed preview \<and> effective = None then (Inr (cloneSnapshot current), m)
            else
              let eff = (case effective of None \<Rightarrow> ss_Effective current | Some e \<Rightarrow> Clone e)
              in commit_snapshot io
                   \<lparr>ss_SchemaVersion = metadataSchemaVersion, ss_Revision = ss_Revision current + 1,
                    ss_Digest = pv_Digest preview, ss_EffectiveDigest = se_digest env eff, ss_UpdatedAt = now,
                    ss_Actor = actor_or_default m actor, ss_Desired = Clone (the desired), ss_Effective = Clone eff,
                    ss_RestartRequired = pv_RestartRequired preview\<rparr> m))"

definition loadBackup :: "state_env \<Rightarrow> state_disk \<Rightarrow> state_error + config" where
  "loadBackup env d =
     (case dk_backup d of
        ConfigFile c \<Rightarrow> (case se_loader env c of Inl e \<Rightarrow> Inl (LoaderError e) | Inr c \<Rightarrow> Inr c)
      | _ \<Rightarrow> Inl NoBackup)"

definition State_Rollback ::
    "state_env \<Rightarrow> state_fault option \<Rightarrow> gotime \<Rightarrow> nat \<Rightarrow> string \<Rightarrow> state_manager \<Rightarrow> (state_error + state_snapshot) \<times> state_manager" where
  "State_Rollback env io now expected actor m =
     (let current = mg_snapshot m in
      if mg_closed m then (Inl StateManagerClosed, m)
      else if expected \<noteq> ss_Revision current then (Inl (ConflictError expected (ss_Revision current)), m)
      else (case loadBackup env (mg_disk m) of
          Inl e \<Rightarrow> (Inl e, m)
        | Inr backup \<Rightarrow>
          (case se_validator env backup of
             Inl e \<Rightarrow> (Inl (ValidatorError e), m)
           | Inr backup \<Rightarrow>
               commit_snapshot io
                 \<lparr>ss_SchemaVersion = metadataSchemaVersion, ss_Revision = ss_Revision current + 1,
                  ss_Digest = se_digest env backup, ss_EffectiveDigest = ss_EffectiveDigest current, ss_UpdatedAt = now,
                  ss_Actor = actor_or_default m actor, ss_Desired = Clone backup, ss_Effective = Clone (ss_Effective current),
                  ss_RestartRequired = diffPaths env (Clone (ss_Effective current)) (Clone backup)\<rparr> m)))"

definition State_SetEffective ::
    "state_env \<Rightarrow> state_fault option \<Rightarrow> gotime \<Rightarrow> nat \<Rightarrow> config option \<Rightarrow> string \<Rightarrow> state_manager \<Rightarrow>
     (state_error + state_snapshot) \<times> state_manager" where
  "State_SetEffective env io now expected effective actor m =
     (let current = mg_snapshot m in
      if expected \<noteq> ss_Revision current then (Inl (ConflictError expected (ss_Revision current)), m)
      else (case effective of None \<Rightarrow> (Inl EffectiveRequired, m)
        | Some effective \<Rightarrow>
          (case se_validator env (Clone effective) of
             Inl e \<Rightarrow> (Inl (ValidatorError e), m)
           | Inr effective \<Rightarrow>
               commit_snapshot io
                 ((cloneSnapshot current)\<lparr>ss_Revision := ss_Revision current + 1, ss_Effective := effective,
                    ss_EffectiveDigest := se_digest env effective,
                    ss_RestartRequired := diffPaths env effective (Clone (ss_Desired current)),
                    ss_UpdatedAt := now, ss_Actor := actor_or_default m actor\<rparr>) m)))"

definition State_Validate :: "state_env \<Rightarrow> config option \<Rightarrow> config option \<Rightarrow> state_manager \<Rightarrow> state_error + state_preview" where
  "State_Validate env desired effective m = previewLocked env desired effective (mg_snapshot m)"

definition State_Snapshot :: "state_manager \<Rightarrow> state_snapshot" where
  "State_Snapshot m = cloneSnapshot (mg_snapshot m)"

definition State_Close :: "state_manager \<Rightarrow> state_manager" where
  "State_Close m = m\<lparr>mg_closed := True\<rparr>"

end
