(* ===== verification/State_Recovery.thy ===== *)
theory State_Recovery
  imports State_Manager
begin

text \<open>
  Runs of the revisioned state manager: calls that may be interrupted at any stage of
  \<open>persist\<close>, crashes, and openings that may fail. The locale \<open>managed_config\<close> states what the
  manager relies on from its loader and validator; the daemon's own, \<open>loadConfigFromPath\<close> and
  \<open>validateManagedConfig\<close>, satisfy it.
\<close>

section \<open>Calls\<close>

datatype state_call =
    CallApply "state_fault option" gotime nat "config option" "config option" string bool
  | CallRollback "state_fault option" gotime nat string
  | CallSetEffective "state_fault option" gotime nat "config option" string
  | CallClose

fun run_call :: "state_env \<Rightarrow> state_call \<Rightarrow> state_manager \<Rightarrow> (state_error + state_snapshot) \<times> state_manager" where
  "run_call env (CallApply io now expected desired effective actor dryRun) m =
     State_Apply env io now expected desired effective actor dryRun m"
| "run_call env (CallRollback io now expected actor) m = State_Rollback env io now expected actor m"
| "run_call env (CallSetEffective io now expected effective actor) m = State_SetEffective env io now expected effective actor m"
| "run_call env CallClose m = (Inr (State_Snapshot m), State_Close m)"

fun call_expected :: "state_call \<Rightarrow> nat" where
  "call_expected (CallApply io now expected desired effective actor dryRun) = expected"
| "call_expected (CallRollback io now expected actor) = expected"
| "call_expected (CallSetEffective io now expected effective actor) = expected"
| "call_expected CallClose = 0"

abbreviation revision :: "state_manager \<Rightarrow> nat" where
  "revision m \<equiv> ss_Revision (mg_snapshot m)"

text \<open>A call either leaves the snapshot alone, or commits the one it built: exactly when nothing
  interrupted \<open>persist\<close>.\<close>

lemma commit_snapshot_cases:
  obtains (Failed) e d where "commit_snapshot io s m = (Inl e, m\<lparr>mg_disk := d\<rparr>)" "persist io s (mg_disk m) = (Some e, d)"
  | (Committed) d where "commit_snapshot io s m = (Inr (cloneSnapshot s), m\<lparr>mg_disk := d, mg_snapshot := s\<rparr>)"
      "persist io s (mg_disk m) = (None, d)"
  by (cases "persist io s (mg_disk m)"; cases "fst (persist io s (mg_disk m))") (auto simp: commit_snapshot_def)

text \<open>What a call may do: keep the snapshot and the disk, or hand a snapshot it has built to
  \<open>commit_snapshot\<close>.\<close>

definition kept :: "state_manager \<Rightarrow> state_manager \<Rightarrow> bool" where
  "kept m m' \<longleftrightarrow> mg_snapshot m' = mg_snapshot m \<and> mg_disk m' = mg_disk m \<and> mg_initial m' = mg_initial m"

fun call_fault :: "state_call \<Rightarrow> state_fault option" where
  "call_fault (CallApply io now n c e a dry) = io"
| "call_fault (CallRollback io now n a) = io"
| "call_fault (CallSetEffective io now n e a) = io"
| "call_fault CallClose = None"

fun dry_run :: "state_call \<Rightarrow> bool" where
  "dry_run (CallApply io now n c e a dry) = dry"
| "dry_run call = False"

inductive built :: "state_env \<Rightarrow> state_call \<Rightarrow> state_manager \<Rightarrow> state_snapshot \<Rightarrow> bool" where
  built_apply: "se_validator env (Clone c) = Inr v \<Longrightarrow> ss_Desired s = Clone c \<Longrightarrow> ss_Digest s = se_digest env v \<Longrightarrow>
    ss_Revision s = Suc (revision m) \<Longrightarrow> built env (CallApply io now (revision m) (Some c) e a False) m s"
| built_rollback: "loadBackup env (mg_disk m) = Inr b \<Longrightarrow> se_validator env b = Inr v \<Longrightarrow> ss_Desired s = Clone v \<Longrightarrow>
    ss_Digest s = se_digest env v \<Longrightarrow> ss_Revision s = Suc (revision m) \<Longrightarrow> built env (CallRollback io now (revision m) a) m s"
| built_effective: "ss_Desired s = Clone (ss_Desired (mg_snapshot m)) \<Longrightarrow> ss_Digest s = ss_Digest (mg_snapshot m) \<Longrightarrow>
    ss_Revision s = Suc (revision m) \<Longrightarrow> built env (CallSetEffective io now (revision m) e a) m s"

definition call_outcome :: "state_env \<Rightarrow> state_call \<Rightarrow> state_manager \<Rightarrow> bool" where
  "call_outcome env call m \<longleftrightarrow>
     (kept m (snd (run_call env call m))
      \<and> (\<forall>s. fst (run_call env call m) = Inr s \<longrightarrow> dry_run call \<or>
           ss_Revision s = revision m \<and> ss_Digest s = ss_Digest (mg_snapshot m)))
     \<or> (\<exists>s. run_call env call m = commit_snapshot (call_fault call) s m \<and> built env call m s)"

lemma kept_refl [simp]: "kept m m"
  by (simp add: kept_def)

lemma previewLocked_Inr:
  "previewLocked env c e cur = Inr pv \<Longrightarrow> \<exists>c' v. c = Some c' \<and> se_validator env (Clone c') = Inr v \<and> pv_Digest pv = se_digest env v"
  by (auto simp: previewLocked_def split: option.splits sum.splits)

lemma outcome_apply: "call_outcome env (CallApply io now n c e a dry) m"
proof (cases "mg_closed m \<or> n \<noteq> revision m")
  case True
  then show ?thesis by (auto simp: call_outcome_def State_Apply_def Let_def)
next
  case False
  show ?thesis
  proof (cases "previewLocked env c e (mg_snapshot m)")
    case (Inl err)
    then show ?thesis using False by (simp add: call_outcome_def State_Apply_def)
  next
    case (Inr pv)
    then obtain c' v where c: "c = Some c'" "se_validator env (Clone c') = Inr v" "pv_Digest pv = se_digest env v"
      using previewLocked_Inr by blast
    let ?eff = "case e of None \<Rightarrow> ss_Effective (mg_snapshot m) | Some e \<Rightarrow> Clone e"
    let ?s = "\<lparr>ss_SchemaVersion = metadataSchemaVersion, ss_Revision = revision m + 1, ss_Digest = pv_Digest pv,
      ss_EffectiveDigest = se_digest env ?eff, ss_UpdatedAt = now, ss_Actor = actor_or_default m a, ss_Desired = Clone c',
      ss_Effective = Clone ?eff, ss_RestartRequired = pv_RestartRequired pv\<rparr>"
    show ?thesis
    proof (cases "dry \<or> \<not> pv_Changed pv \<and> e = None")
      case True
      then show ?thesis using False Inr by (auto simp: call_outcome_def State_Apply_def cloneSnapshot_def Let_def)
    next
      case noisy: False
      then have "run_call env (CallApply io now n c e a dry) m = commit_snapshot io ?s m"
        using False Inr c(1) by (auto simp: State_Apply_def Let_def)
      moreover have "built env (CallApply io now n c e a dry) m ?s"
        using built_apply [of env c' v ?s m io now e a] False noisy c by simp
      ultimately show ?thesis unfolding call_outcome_def by auto
    qed
  qed
qed

lemma outcome_rollback: "call_outcome env (CallRollback io now n a) m"
proof (cases "mg_closed m \<or> n \<noteq> revision m \<or> \<not> is_ok (loadBackup env (mg_disk m))")
  case True
  then show ?thesis by (auto simp: call_outcome_def State_Rollback_def Let_def is_ok_def split: sum.splits)
next
  case False
  then obtain b where b: "loadBackup env (mg_disk m) = Inr b" by (auto elim: is_okE)
  show ?thesis
  proof (cases "se_validator env b")
    case (Inl err)
    then show ?thesis using False b by (simp add: call_outcome_def State_Rollback_def)
  next
    case (Inr v)
    then obtain s where "run_call env (CallRollback io now n a) m = commit_snapshot io s m"
        "ss_Desired s = Clone v" "ss_Digest s = se_digest env v" "ss_Revision s = Suc (revision m)"
      using False b by (fastforce simp: State_Rollback_def Let_def)
    then show ?thesis using built_rollback [OF b Inr] False unfolding call_outcome_def by auto
  qed
qed

lemma outcome_effective: "call_outcome env (CallSetEffective io now n e a) m"
proof (cases "n \<noteq> revision m \<or> e = None")
  case True
  then show ?thesis by (auto simp: call_outcome_def State_SetEffective_def Let_def)
next
  case False
  then obtain e' where e: "e = Some e'" by auto
  show ?thesis
  proof (cases "se_validator env (Clone e')")
    case (Inl err)
    then show ?thesis using False e by (simp add: call_outcome_def State_SetEffective_def)
  next
    case (Inr v)
    then obtain s where "run_call env (CallSetEffective io now n e a) m = commit_snapshot io s m"
        "ss_Desired s = Clone (ss_Desired (mg_snapshot m))" "ss_Digest s = ss_Digest (mg_snapshot m)" "ss_Revision s = Suc (revision m)"
      using False e by (fastforce simp: State_SetEffective_def Let_def cloneSnapshot_def)
    then show ?thesis using built_effective False unfolding call_outcome_def by auto
  qed
qed

lemma call_outcome: "call_outcome env call m"
proof (cases call)
  case CallClose
  then show ?thesis by (simp add: call_outcome_def State_Close_def State_Snapshot_def cloneSnapshot_def kept_def)
qed (simp_all add: outcome_apply outcome_rollback outcome_effective)

lemma run_call_cases:
  obtains (Kept) "kept m (snd (run_call env call m))"
      "\<And>s. fst (run_call env call m) = Inr s \<Longrightarrow> dry_run call \<or> ss_Revision s = revision m \<and> ss_Digest s = ss_Digest (mg_snapshot m)"
  | (Failed) s e d where "run_call env call m = (Inl e, m\<lparr>mg_disk := d\<rparr>)" "persist (call_fault call) s (mg_disk m) = (Some e, d)"
      "built env call m s"
  | (Committed) s d where "run_call env call m = (Inr (cloneSnapshot s), m\<lparr>mg_disk := d, mg_snapshot := s\<rparr>)"
      "persist (call_fault call) s (mg_disk m) = (None, d)" "built env call m s"
proof -
  from call_outcome [of env call m] show thesis unfolding call_outcome_def
  proof (elim disjE conjE exE)
    fix s
    assume s: "run_call env call m = commit_snapshot (call_fault call) s m" "built env call m s"
    show thesis by (cases rule: commit_snapshot_cases [of "call_fault call" s m]) (use s that(2,3) in auto)
  qed (use that(1) in auto)
qed

lemma built_expected: "built env call m s \<Longrightarrow> call_expected call = revision m \<and> ss_Revision s = Suc (revision m) \<and> \<not> dry_run call"
  by (auto elim: built.cases)

section \<open>No lost update\<close>

text \<open>The calls that changed the snapshot, by the revision each of them named.\<close>

fun run_calls :: "state_env \<Rightarrow> state_call list \<Rightarrow> state_manager \<Rightarrow> nat list \<times> state_manager" where
  "run_calls env [] m = ([], m)"
| "run_calls env (call # calls) m =
     (let (r, m') = run_call env call m; (won, m'') = run_calls env calls m'
      in (if mg_snapshot m' \<noteq> mg_snapshot m then call_expected call # won else won, m''))"

lemma run_call_revision:
  "(mg_snapshot (snd (run_call env call m)) = mg_snapshot m)
   \<or> (is_ok (fst (run_call env call m)) \<and> call_expected call = revision m \<and> revision (snd (run_call env call m)) = Suc (revision m))"
  by (cases rule: run_call_cases [of m env call]) (auto simp: kept_def dest: built_expected)

lemma run_calls_revisions:
  "fst (run_calls env calls m) = [revision m ..< revision (snd (run_calls env calls m))]
   \<and> revision m \<le> revision (snd (run_calls env calls m))"
proof (induction calls arbitrary: m)
  case (Cons call calls)
  let ?m' = "snd (run_call env call m)"
  have IH: "fst (run_calls env calls ?m') = [revision ?m' ..< revision (snd (run_calls env calls ?m'))]"
    "revision ?m' \<le> revision (snd (run_calls env calls ?m'))" using Cons.IH by auto
  show ?case
  proof (cases "mg_snapshot ?m' = mg_snapshot m")
    case True
    then show ?thesis using IH by (simp add: case_prod_unfold)
  next
    case False
    then have "call_expected call = revision m" "revision ?m' = Suc (revision m)" using run_call_revision [of env call m] by auto
    then show ?thesis using IH False by (auto simp: case_prod_unfold upt_conv_Cons Let_def)
  qed
qed simp

text \<open>C32: however many clients call with whatever revisions, and wherever persistence is
  interrupted, the calls that change the snapshot name consecutive revisions: each revision is
  replaced by exactly one call, which named it, and a call that returns an error leaves the
  snapshot alone.\<close>

theorem state_no_lost_update:
  "fst (run_calls env calls m) = [revision m ..< revision (snd (run_calls env calls m))]
   \<and> (is_ok (fst (run_call env call m)) \<or> mg_snapshot (snd (run_call env call m)) = mg_snapshot m)"
  using run_calls_revisions [of env calls m] run_call_revision [of env call m] by blast

section \<open>Crashes and openings\<close>

text \<open>
  The running manager, if any, the files of a stopped one, and what clients have been told: the
  revision and digest of every snapshot an opening or a call has returned, dry runs apart.
\<close>

record state_system =
  sy_disk :: state_disk
  sy_running :: "state_manager option"
  sy_told :: "(nat \<times> string) list"

abbreviation told_of :: "state_snapshot \<Rightarrow> nat \<times> string" where
  "told_of s \<equiv> (ss_Revision s, ss_Digest s)"

definition open_step ::
    "state_env \<Rightarrow> metadata_write \<Rightarrow> gotime \<Rightarrow> string \<Rightarrow> config option \<Rightarrow> string \<Rightarrow> state_system \<Rightarrow> state_system" where
  "open_step env w now path initial actor y =
     (case State_Open env w True True now path initial actor (sy_disk y) of
        (Inl e, d) \<Rightarrow> y\<lparr>sy_disk := d\<rparr>
      | (Inr m, d) \<Rightarrow> y\<lparr>sy_disk := d, sy_running := Some m, sy_told := sy_told y @ [told_of (mg_snapshot m)]\<rparr>)"

definition call_step :: "state_env \<Rightarrow> state_call \<Rightarrow> state_manager \<Rightarrow> state_system \<Rightarrow> state_system" where
  "call_step env call m y =
     (case run_call env call m of
        (Inl e, m') \<Rightarrow> y\<lparr>sy_running := Some m'\<rparr>
      | (Inr s, m') \<Rightarrow> y\<lparr>sy_running := Some m', sy_told := (if dry_run call then sy_told y else sy_told y @ [told_of s])\<rparr>)"

definition crash :: "state_manager \<Rightarrow> state_system \<Rightarrow> state_system" where
  "crash m y = y\<lparr>sy_running := None, sy_disk := mg_disk m\<rparr>"

fun call_steady :: "(config \<Rightarrow> bool) \<Rightarrow> state_call \<Rightarrow> bool" where
  "call_steady steady (CallApply io now n c e a dry) = (case c of None \<Rightarrow> True | Some c \<Rightarrow> steady (Clone c))"
| "call_steady steady call = True"

inductive state_step :: "state_env \<Rightarrow> (config \<Rightarrow> bool) \<Rightarrow> config \<Rightarrow> state_system \<Rightarrow> state_system \<Rightarrow> bool" for env steady initial where
  st_open: "sy_running y = None \<Longrightarrow> state_step env steady initial y (open_step env w now path (Some initial) actor y)"
| st_call: "sy_running y = Some m \<Longrightarrow> call_steady steady call \<Longrightarrow> state_step env steady initial y (call_step env call m y)"
| st_crash: "sy_running y = Some m \<Longrightarrow> state_step env steady initial y (crash m y)"

definition fresh_disk :: state_disk where
  "fresh_disk = \<lparr>dk_config = ConfigMissing, dk_metadata = MetadataMissing, dk_backup = ConfigMissing, dk_metadata_backup = MetadataMissing\<rparr>"

definition fresh_system :: state_system where
  "fresh_system = \<lparr>sy_disk = fresh_disk, sy_running = None, sy_told = []\<rparr>"

text \<open>A later observation supersedes an earlier one, or is the same.\<close>

definition supersedes :: "nat \<times> string \<Rightarrow> nat \<times> string \<Rightarrow> bool" where
  "supersedes p q \<longleftrightarrow> fst p < fst q \<or> p = q"

lemma supersedes_refl [simp]: "supersedes p p"
  by (simp add: supersedes_def)

lemma supersedes_trans: "supersedes p q \<Longrightarrow> supersedes q r \<Longrightarrow> supersedes p r"
  by (auto simp: supersedes_def)

lemma supersedes_later: "supersedes p q \<Longrightarrow> fst q < fst r \<Longrightarrow> supersedes p r"
  by (auto simp: supersedes_def)

section \<open>What the manager relies on\<close>

locale managed_config =
  fixes env :: state_env and steady :: "config \<Rightarrow> bool"
  assumes validated: "steady c \<Longrightarrow> Clone c = c \<Longrightarrow> se_validator env c = Inr v \<Longrightarrow>
      steady v \<and> Clone v = v \<and> (\<exists>w. se_validator env v = Inr w \<and> se_digest env w = se_digest env v)"
    and reloaded: "steady c \<Longrightarrow> Clone c = c \<Longrightarrow> se_validator env c = Inr v \<Longrightarrow>
      \<exists>e w. se_loader env c = Inr e \<and> steady e \<and> Clone e = e \<and> se_validator env e = Inr w \<and> se_digest env w = se_digest env v"
begin

definition accepted :: "config \<Rightarrow> string \<Rightarrow> bool" where
  "accepted c digest \<longleftrightarrow> steady c \<and> Clone c = c \<and> (\<exists>v. se_validator env c = Inr v \<and> se_digest env v = digest)"

lemma accepted_validated: "accepted c digest \<Longrightarrow> se_validator env c = Inr v \<Longrightarrow> accepted v digest"
  using validated by (auto simp: accepted_def)

lemma accepted_reload:
  assumes "accepted c digest"
  shows "\<exists>e v. se_loader env c = Inr e \<and> Clone e = e \<and> se_validator env e = Inr v \<and> se_digest env v = digest \<and> accepted v digest"
proof -
  obtain v where "steady c" "Clone c = c" "se_validator env c = Inr v" "se_digest env v = digest"
    using assms by (auto simp: accepted_def)
  then obtain e w where e: "se_loader env c = Inr e" "steady e" "Clone e = e" "se_validator env e = Inr w" "se_digest env w = digest"
    using reloaded by metis
  then have "accepted e digest" by (auto simp: accepted_def)
  then show ?thesis using e accepted_validated by blast
qed

definition files_ok :: "config \<Rightarrow> state_disk \<Rightarrow> bool" where
  "files_ok initial d \<longleftrightarrow>
     (case dk_config d of ConfigMissing \<Rightarrow> \<exists>x. accepted (Clone initial) x | ConfigStatFails \<Rightarrow> False | ConfigFile c \<Rightarrow> \<exists>x. accepted c x)
     \<and> (\<forall>c. dk_backup d = ConfigFile c \<longrightarrow> (\<exists>x. accepted c x))"

definition metadata_after :: "(nat \<times> string) list \<Rightarrow> state_disk \<Rightarrow> bool" where
  "metadata_after told d \<longleftrightarrow>
     (\<exists>md. dk_metadata d = MetadataFile md \<and> 1 \<le> md_Revision md \<and> list_all (\<lambda>p. supersedes p (md_Revision md, md_Digest md)) told)"

definition stopped_ok :: "config \<Rightarrow> (nat \<times> string) list \<Rightarrow> state_disk \<Rightarrow> bool" where
  "stopped_ok initial told d \<longleftrightarrow>
     files_ok initial d \<and> (dk_metadata d = MetadataMissing \<and> told = [] \<or> metadata_after told d)"

definition manager_ok :: "config \<Rightarrow> state_manager \<Rightarrow> bool" where
  "manager_ok initial m \<longleftrightarrow> accepted (ss_Desired (mg_snapshot m)) (ss_Digest (mg_snapshot m))
     \<and> files_ok initial (mg_disk m) \<and> metadata_after [told_of (mg_snapshot m)] (mg_disk m)"

lemma loadable:
  assumes "files_ok initial d"
  shows "\<exists>c v x. loadConfig env (Some initial) d = Inr c \<and> se_validator env (Clone c) = Inr v \<and> se_digest env v = x \<and> accepted v x"
proof (cases "dk_config d")
  case ConfigMissing
  then obtain x v where "accepted (Clone initial) x" "se_validator env (Clone initial) = Inr v" "se_digest env v = x"
    using assms by (auto simp: files_ok_def accepted_def)
  then show ?thesis using ConfigMissing accepted_validated by (auto simp: loadConfig_def)
next
  case (ConfigFile c)
  then obtain x where "accepted c x" using assms by (auto simp: files_ok_def)
  then show ?thesis using ConfigFile accepted_reload by (fastforce simp: loadConfig_def)
qed (use assms in \<open>simp add: files_ok_def\<close>)

lemma metadata_afterI:
  "dk_metadata d = MetadataFile md \<Longrightarrow> 1 \<le> md_Revision md \<Longrightarrow> (\<And>p. p \<in> set told \<Longrightarrow> supersedes p (md_Revision md, md_Digest md)) \<Longrightarrow>
   metadata_after told d"
  by (auto simp: metadata_after_def list_all_iff)

lemma files_ok_metadata [simp]: "files_ok initial (d\<lparr>dk_metadata := x\<rparr>) = files_ok initial d"
  by (simp add: files_ok_def)

text \<open>Loading in either of the two situations that need new metadata.\<close>

lemma load_written:
  assumes "files_ok initial d" and "accepted c x" and "ss_Revision (loaded_snapshot c x md) = md_Revision md" and "md_Digest md = x"
    and "1 \<le> md_Revision md" and "\<And>p. p \<in> set told \<Longrightarrow> supersedes p (md_Revision md, md_Digest md)"
  shows "files_ok initial (d\<lparr>dk_metadata := MetadataFile md\<rparr>) \<and> metadata_after told (d\<lparr>dk_metadata := MetadataFile md\<rparr>)
    \<and> accepted (ss_Desired (loaded_snapshot c x md)) (ss_Digest (loaded_snapshot c x md))
    \<and> metadata_after [told_of (loaded_snapshot c x md)] (d\<lparr>dk_metadata := MetadataFile md\<rparr>)
    \<and> list_all (\<lambda>p. supersedes p (told_of (loaded_snapshot c x md))) told"
  using assms by (auto simp: metadata_after_def list_all_iff loaded_snapshot_def accepted_def)

lemma load_ok:
  assumes "stopped_ok initial told d" and "Manager_load env w now (Some initial) actor d = (r, d')"
  shows "case r of
      Inl e \<Rightarrow> stopped_ok initial told d' \<and> w \<noteq> MetadataWritten
    | Inr s \<Rightarrow> accepted (ss_Desired s) (ss_Digest s) \<and> files_ok initial d' \<and> metadata_after [told_of s] d'
        \<and> list_all (\<lambda>p. supersedes p (told_of s)) told"
proof -
  have f: "files_ok initial d" using assms(1) by (simp add: stopped_ok_def)
  obtain c v x where load: "loadConfig env (Some initial) d = Inr c" "se_validator env (Clone c) = Inr v" "se_digest env v = x" "accepted v x"
    using loadable [OF f] by blast
  note run = assms(2) [unfolded Manager_load_def load(1), simplified, unfolded load(2), simplified]
  show ?thesis
  proof (cases "dk_metadata d")
    case MetadataMissing
    let ?md = "initial_metadata x actor now"
    have "told = []" using assms(1) MetadataMissing by (auto simp: stopped_ok_def metadata_after_def)
    then show ?thesis
      using run load_written [OF f load(4), of ?md told] load(3) f MetadataMissing
      by (cases w) (auto simp: write_metadata_def Let_def stopped_ok_def initial_metadata_def loaded_snapshot_def)
  next
    case MetadataUnreadable
    then show ?thesis using assms(1) by (auto simp: stopped_ok_def metadata_after_def)
  next
    case (MetadataFile md)
    then have md: "1 \<le> md_Revision md" "\<And>p. p \<in> set told \<Longrightarrow> supersedes p (md_Revision md, md_Digest md)"
      using assms(1) by (auto simp: stopped_ok_def metadata_after_def list_all_iff)
    show ?thesis
    proof (cases "md_Digest md = x")
      case True
      have "d\<lparr>dk_metadata := MetadataFile md\<rparr> = d" using MetadataFile by simp
      then show ?thesis using run load_written [OF f load(4), of md told] True MetadataFile load(3) md
        by (auto simp: loaded_snapshot_def metadata_after_def)
    next
      case False
      let ?md = "repaired_metadata x now md"
      have "supersedes p (md_Revision ?md, md_Digest ?md)" if "p \<in> set told" for p
        using md(2) [OF that] by (rule supersedes_later) (simp add: repaired_metadata_def)
      then show ?thesis
        using run load_written [OF f load(4), of ?md told] False MetadataFile load(3) md assms(1)
        by (cases w) (auto simp: write_metadata_def Let_def stopped_ok_def repaired_metadata_def loaded_snapshot_def)
    qed
  qed
qed

lemma files_ok_backup:
  assumes "files_ok initial d"
  shows "files_ok initial (backup_config d)" "files_ok initial (backup_metadata d)"
    "dk_config (backup_config d) = dk_config d" "dk_config (backup_metadata d) = dk_config d"
    "dk_metadata (backup_config d) = dk_metadata d" "dk_metadata (backup_metadata d) = dk_metadata d"
  using assms
  by (auto simp: files_ok_def backup_config_def backup_metadata_def split: config_file.splits metadata_file.splits)

lemma files_ok_replace: "files_ok initial d \<Longrightarrow> accepted c x \<Longrightarrow> files_ok initial (d\<lparr>dk_config := ConfigFile c\<rparr>)"
  by (auto simp: files_ok_def)

lemma persist_ok:
  assumes "files_ok initial d" and "accepted (ss_Desired s) x" and "persist io s d = (r, d')"
  shows "files_ok initial d' \<and> (dk_metadata d' = dk_metadata d \<and> r \<noteq> None \<or> dk_metadata d' = MetadataFile (metadata_of s))
    \<and> (r = None \<longrightarrow> dk_config d' = ConfigFile (ss_Desired s))"
proof -
  let ?b = "backup_metadata (backup_config d)"
  have st: "dk_config d \<noteq> ConfigStatFails" using assms(1) by (auto simp: files_ok_def)
  have b1: "files_ok initial (backup_config d)" "dk_metadata (backup_config d) = dk_metadata d"
    using files_ok_backup [OF assms(1)] by auto
  have b2: "files_ok initial ?b" "dk_metadata ?b = dk_metadata d" using files_ok_backup [OF b1(1)] b1(2) by auto
  have b3: "files_ok initial (?b\<lparr>dk_config := ConfigFile (ss_Desired s)\<rparr>)" using b2(1) assms(2) by (rule files_ok_replace)
  show ?thesis using assms(3) st assms(1) b1 b2 b3
    by (cases io; cases "the io") (auto simp: persist_def Let_def)
qed

lemma built_accepted:
  assumes "manager_ok initial m" and "built env call m s" and "call_steady steady call"
  shows "accepted (ss_Desired s) (ss_Digest s)"
  using assms(2)
proof cases
  case (built_apply c v)
  then show ?thesis using assms(3) by (auto simp: accepted_def)
next
  case (built_rollback b v)
  obtain c where c: "dk_backup (mg_disk m) = ConfigFile c" "se_loader env c = Inr b"
    using built_rollback(2) by (auto simp: loadBackup_def split: config_file.splits sum.splits)
  then obtain x where "accepted c x" using assms(1) by (auto simp: manager_ok_def files_ok_def)
  then have "accepted v (se_digest env v)" using accepted_reload [of c x] c(2) built_rollback(3) by auto
  then show ?thesis using built_rollback by (auto simp: accepted_def)
next
  case built_effective
  then show ?thesis using assms(1) by (auto simp: manager_ok_def accepted_def)
qed

lemma call_ok:
  assumes "manager_ok initial m" and "call_steady steady call" and "run_call env call m = (r, m')"
  shows "manager_ok initial m' \<and> supersedes (told_of (mg_snapshot m)) (told_of (mg_snapshot m'))
    \<and> (\<forall>s. r = Inr s \<longrightarrow> dry_run call \<or> told_of s = told_of (mg_snapshot m'))"
proof (cases rule: run_call_cases [of m env call])
  case Kept
  then show ?thesis using assms by (auto simp: kept_def manager_ok_def)
next
  case (Failed s e d)
  have acc: "accepted (ss_Desired s) (ss_Digest s)" using assms(1) Failed(3) assms(2) by (rule built_accepted)
  have p: "files_ok initial d \<and> (dk_metadata d = dk_metadata (mg_disk m) \<or> dk_metadata d = MetadataFile (metadata_of s))"
    using persist_ok [OF _ acc Failed(2)] assms(1) by (auto simp: manager_ok_def)
  have "metadata_after [told_of (mg_snapshot m)] d"
    using p assms(1) built_expected [OF Failed(3)]
    by (auto simp: metadata_after_def manager_ok_def metadata_of_def supersedes_def)
  then show ?thesis using Failed assms p by (auto simp: manager_ok_def)
next
  case (Committed s d)
  have acc: "accepted (ss_Desired s) (ss_Digest s)" using assms(1) Committed(3) assms(2) by (rule built_accepted)
  have p: "files_ok initial d \<and> dk_metadata d = MetadataFile (metadata_of s)"
    using persist_ok [OF _ acc Committed(2)] assms(1) by (auto simp: manager_ok_def)
  then have "metadata_after [told_of s] d"
    using built_expected [OF Committed(3)] by (auto simp: metadata_after_def metadata_of_def)
  then show ?thesis using Committed assms p acc built_expected [OF Committed(3)]
    by (auto simp: manager_ok_def supersedes_def cloneSnapshot_def)
qed

end

locale managed_store = managed_config +
  fixes initial :: config
  assumes initial_accepted: "\<exists>x. accepted (Clone initial) x"
begin

definition system_ok :: "state_system \<Rightarrow> bool" where
  "system_ok y \<longleftrightarrow> sorted_wrt supersedes (sy_told y)
     \<and> (case sy_running y of
          None \<Rightarrow> stopped_ok initial (sy_told y) (sy_disk y)
        | Some m \<Rightarrow> manager_ok initial m \<and> list_all (\<lambda>p. supersedes p (told_of (mg_snapshot m))) (sy_told y))"

lemma open_cases:
  assumes "stopped_ok initial told d" and "State_Open env w True True now path (Some initial) actor d = (r, d')"
  shows "case r of
      Inl e \<Rightarrow> stopped_ok initial told d' \<and> (w \<noteq> MetadataWritten \<or> trim_space path = '''')
    | Inr m \<Rightarrow> manager_ok initial m \<and> mg_disk m = d' \<and> list_all (\<lambda>p. supersedes p (told_of (mg_snapshot m))) told"
proof (cases "trim_space path = ''''")
  case True
  then show ?thesis using assms by (auto simp: State_Open_def)
next
  case False
  let ?actor = "if trim_space actor = '''' then ''ya-routerd'' else actor"
  obtain r2 d2 where l: "Manager_load env w now (Some initial) ?actor d = (r2, d2)" by (cases "Manager_load env w now (Some initial) ?actor d")
  then show ?thesis using load_ok [OF assms(1) l] assms(2) False
    by (cases r2) (auto simp: State_Open_def Let_def manager_ok_def)
qed

lemma step_ok:
  assumes "state_step env steady initial y y'" and "system_ok y"
  shows "system_ok y'"
  using assms
proof (induction rule: state_step.induct)
  case (st_open y w now path actor)
  obtain r d where o: "State_Open env w True True now path (Some initial) actor (sy_disk y) = (r, d)"
    by (cases "State_Open env w True True now path (Some initial) actor (sy_disk y)")
  have st: "stopped_ok initial (sy_told y) (sy_disk y)" using st_open by (simp add: system_ok_def)
  show ?case using open_cases [OF st o] st_open o
    by (cases r) (auto simp: open_step_def system_ok_def list_all_iff sorted_wrt_append)
next
  case (st_call y m call)
  obtain r m' where c: "run_call env call m = (r, m')" by (cases "run_call env call m")
  have ok: "manager_ok initial m" "list_all (\<lambda>p. supersedes p (told_of (mg_snapshot m))) (sy_told y)" "sorted_wrt supersedes (sy_told y)"
    using st_call by (auto simp: system_ok_def)
  note call = call_ok [OF ok(1) st_call(2) c]
  then have "list_all (\<lambda>p. supersedes p (told_of (mg_snapshot m'))) (sy_told y)"
    using ok(2) supersedes_trans by (fastforce simp: list_all_iff)
  then show ?case using c call ok(3)
    by (cases r) (auto simp: call_step_def system_ok_def sorted_wrt_append list_all_iff)
next
  case (st_crash y m)
  then have "metadata_after [told_of (mg_snapshot m)] (mg_disk m)" "list_all (\<lambda>p. supersedes p (told_of (mg_snapshot m))) (sy_told y)"
    by (auto simp: system_ok_def manager_ok_def)
  then have "metadata_after (sy_told y) (mg_disk m)"
    using supersedes_trans by (fastforce simp: metadata_after_def list_all_iff)
  then show ?case using st_crash by (auto simp: crash_def system_ok_def manager_ok_def stopped_ok_def)
qed

lemma fresh_ok: "system_ok fresh_system"
  using initial_accepted by (simp add: system_ok_def fresh_system_def fresh_disk_def stopped_ok_def files_ok_def)

end

sublocale managed_store \<subseteq> store: invariant_system "\<lambda>y. y = fresh_system" "state_step env steady initial" system_ok
  by unfold_locales (auto simp: fresh_ok intro: step_ok)

context managed_store
begin

lemma reopens:
  assumes "reach (state_step env steady initial) fresh_system y" and "sy_running y = None" and "trim_space path \<noteq> ''''"
  shows "\<exists>m d. State_Open env MetadataWritten True True now path (Some initial) actor (sy_disk y) = (Inr m, d)
    \<and> list_all (\<lambda>p. supersedes p (told_of (mg_snapshot m))) (sy_told y)"
proof -
  have st: "stopped_ok initial (sy_told y) (sy_disk y)"
    using store.reachable_invar [OF assms(1)] assms(2) by (simp add: system_ok_def)
  obtain r d where o: "State_Open env MetadataWritten True True now path (Some initial) actor (sy_disk y) = (r, d)"
    by (cases "State_Open env MetadataWritten True True now path (Some initial) actor (sy_disk y)")
  show ?thesis using open_cases [OF st o] o assms(3) by (cases r) auto
qed

lemma durable:
  assumes "reach (state_step env steady initial) fresh_system y" and "sy_running y = Some m" and "call_steady steady call"
    and "run_call env call m = (Inr s, m')" and "revision m' \<noteq> revision m" and "trim_space path \<noteq> ''''"
  shows "\<exists>m2 d. State_Open env w True True now path (Some initial) actor (mg_disk m') = (Inr m2, d)
    \<and> told_of (mg_snapshot m2) = told_of s \<and> told_of s = told_of (mg_snapshot m')"
proof -
  have ok: "manager_ok initial m" using store.reachable_invar [OF assms(1)] assms(2) by (simp add: system_ok_def)
  show ?thesis
  proof (cases rule: run_call_cases [of m env call])
    case (Committed s0 d)
    have acc: "accepted (ss_Desired s0) (ss_Digest s0)" using ok Committed(3) assms(3) by (rule built_accepted)
    have p: "dk_config d = ConfigFile (ss_Desired s0)" "dk_metadata d = MetadataFile (metadata_of s0)"
      using persist_ok [OF _ acc Committed(2)] ok by (auto simp: manager_ok_def)
    obtain e v where e: "se_loader env (ss_Desired s0) = Inr e" "Clone e = e" "se_validator env e = Inr v"
        "se_digest env v = ss_Digest s0" using accepted_reload [OF acc] by blast
    have "mg_disk m' = d" "told_of s = told_of s0" "mg_snapshot m' = s0" using Committed(1) assms(4) by (auto simp: cloneSnapshot_def)
    moreover have "0 < ss_Revision s0" using built_expected [OF Committed(3)] by simp
    ultimately show ?thesis using p e assms(6)
      by (auto simp: State_Open_def Manager_load_def loadConfig_def Let_def metadata_of_def loaded_snapshot_def)
  qed (use assms(4,5) in \<open>auto simp: kept_def\<close>)
qed

end

section \<open>The daemon's configuration\<close>

text \<open>
  \<open>openConfigState\<close> of \<open>src/revisioned_state.go\<close>. The digest and the decoded object of a
  configuration only depend on its encoding, in which \<open>nil\<close> and empty agree for the members
  marked \<open>omitempty\<close>.
\<close>

definition managed_env :: "(string \<Rightarrow> string) \<Rightarrow> (config \<Rightarrow> string) \<Rightarrow> (config \<Rightarrow> json) \<Rightarrow> state_env" where
  "managed_env h sha obj =
     \<lparr>se_loader = (\<lambda>c. loadConfigFromPath h (PathDocument (marshalled c))),
      se_validator = validateManagedConfig h,
      se_digest = (\<lambda>c. sha (json_reload c)),
      se_object = (\<lambda>c. obj (json_reload c))\<rparr>"

lemma managed_env_simps [simp]:
  "se_loader (managed_env h sha obj) c = loadConfigFromPath h (PathDocument (marshalled c))"
  "se_validator (managed_env h sha obj) = validateManagedConfig h"
  "se_digest (managed_env h sha obj) c = sha (json_reload c)"
  by (simp_all add: managed_env_def)

lemma settled_json_reload: "settled v \<Longrightarrow> settled (json_reload v)"
  by (simp add: settled_def migrates_codex_def)

lemma managed_validated:
  assumes "settled c" and "Clone c = c" and "validateManagedConfig h c = Inr v"
  shows "settled v" "Clone v = v" "validateManagedConfig h v = Inr v"
  using settled_validated [OF assms(1,3)] validate_fields [OF assms(3)] Clone_applyConfigDefaults [OF assms(2)] assms(1)
  by (auto simp: settled_def)

lemma defaultConfig_accepted: "validateManagedConfig h defaultConfig = Inr (applyConfigDefaults h defaultConfig)"
proof -
  have v: "cfg_version defaultConfig = currentConfigVersion" "nonzero_or (cfg_port defaultConfig) 7071 = 7071" by code_simp+
  have "ValidateVirtualModels (default_routing (cfg_routing defaultConfig)) KnownPrefixes = None" by code_simp
  with v show ?thesis by (simp add: validate_accepts_iff)
qed

lemma defaultConfig_settled: "settled defaultConfig" "Clone defaultConfig = defaultConfig"
  by (simp_all add: settled_def Clone_same_iff) code_simp+

interpretation daemon_config: managed_config "managed_env h sha obj" settled for h sha obj
proof unfold_locales
  fix c v
  assume c: "settled c" "Clone c = c" "se_validator (managed_env h sha obj) c = Inr v"
  then have v: "validateManagedConfig h c = Inr v" by simp
  show "settled v \<and> Clone v = v \<and> (\<exists>w. se_validator (managed_env h sha obj) v = Inr w
      \<and> se_digest (managed_env h sha obj) w = se_digest (managed_env h sha obj) v)"
    using managed_validated [OF c(1,2) v] by simp
  show "\<exists>e w. se_loader (managed_env h sha obj) c = Inr e \<and> settled e \<and> Clone e = e \<and> se_validator (managed_env h sha obj) e = Inr w
      \<and> se_digest (managed_env h sha obj) w = se_digest (managed_env h sha obj) v"
    using settled_reload [OF c(1,2) v] managed_validated [OF c(1,2) v] settled_json_reload by auto
qed

interpretation daemon: managed_store "managed_env h sha obj" settled defaultConfig for h sha obj
  by unfold_locales (simp add: daemon_config.accepted_def defaultConfig_settled defaultConfig_accepted)


text \<open>A run: the first start, a committed change, one interrupted between the two renames, a crash.\<close>

definition sample_env :: state_env where
  "sample_env = managed_env (\<lambda>s. s) (\<lambda>c. rt_default_model (cfg_routing c)) (\<lambda>c. JNull)"

definition sample_change :: "state_fault option \<Rightarrow> nat \<Rightarrow> string \<Rightarrow> state_call" where
  "sample_change io n model =
     CallApply io 1 n (Some (defaultConfig\<lparr>cfg_routing := (cfg_routing defaultConfig)\<lparr>rt_default_model := model\<rparr>\<rparr>)) None ''cli'' False"

definition sample_s1 :: state_system where
  "sample_s1 = open_step sample_env MetadataWritten 0 ''config.json'' (Some defaultConfig) '''' fresh_system"
definition sample_s2 :: state_system where
  "sample_s2 = call_step sample_env (sample_change None 1 ''codex/gpt-5'') (the (sy_running sample_s1)) sample_s1"
definition sample_s3 :: state_system where
  "sample_s3 = call_step sample_env (sample_change (Some FaultAfterConfigRename) 2 ''gpt-5'') (the (sy_running sample_s2)) sample_s2"
definition sample_s4 :: state_system where
  "sample_s4 = crash (the (sy_running sample_s3)) sample_s3"

lemma sample_change_steady: "call_steady settled (sample_change io n model)"
proof -
  have "\<not> migrates_codex (pv_codex (cfg_providers defaultConfig))" "rt_virtual_models (cfg_routing defaultConfig) \<noteq> Some []"
    "cfg_version defaultConfig = currentConfigVersion" by code_simp+
  then show ?thesis using defaultConfig_settled(2)
    by (auto simp: sample_change_def settled_def Clone_same_iff) (auto simp: Clone_def Let_def migrates_codex_def cloneVirtualModels_def)
qed

lemma sample_running:
  "sy_running sample_s1 = Some (the (sy_running sample_s1))" "sy_running sample_s2 = Some (the (sy_running sample_s2))"
  "sy_running sample_s3 = Some (the (sy_running sample_s3))" "sy_running sample_s4 = None"
  by code_simp+


text \<open>The limits of \<open>settled\<close>. Changes outside it are accepted all the same: the manager stores
  the configuration it was given, not the one its validator completed.\<close>

lemma unversioned_change_lost:
  assumes "cfg_version c = 0"
  shows "\<exists>e. se_loader (managed_env h sha obj) (Clone c) = Inr e
    \<and> cp_accounts (pv_copilot (cfg_providers e)) = None \<and> xp_accounts (pv_codex (cfg_providers e)) = None
    \<and> held_secrets e = [] \<and> rt_virtual_models (cfg_routing e) = Some defaultVirtualModels"
proof -
  have n: "normalizeCodexAccounts h (pv_codex (cfg_providers defaultConfig)) = pv_codex (cfg_providers defaultConfig)"
    "xp_accounts (pv_codex (cfg_providers defaultConfig)) = None" "xp_auth (pv_codex (cfg_providers defaultConfig)) = zero_codex_auth\<lparr>xa_mode := ''device_code''\<rparr>"
    "cp_accounts (pv_copilot (cfg_providers defaultConfig)) = None" "pv_kilo (cfg_providers defaultConfig) = (pv_kilo (cfg_providers zero_config))\<lparr>kp_allow_anonymous := True\<rparr>"
    "rt_virtual_models (cfg_routing defaultConfig) = Some defaultVirtualModels"
    by (simp_all add: normalizeCodex_cases defaultConfig_def Let_def zero_config_def migrates_codex_def zero_codex_auth_def)
  have "cfg_version (Clone c) = 0" using assms by (simp add: Clone_def Let_def)
  then show ?thesis
    by (simp add: loadConfigFromPath_def marshalled_def migrateV0ToV1_def Let_def legacy_view_def n
      normalizeCopilot_cases migrates_copilot_def held_secrets_def config_secrets_def copilot_auth_secrets_def codex_auth_secrets_def
      zero_copilot_auth_def zero_codex_auth_def zero_config_def)
qed

end
