(* ===== verification/Config_Mutations.thy ===== *)
theory Config_Mutations
  imports Config_Schema
begin

text \<open>
  The revision-safe configuration mutations of \<open>internal/control/mutations.go\<close>: a request
  changes one setting of a copy of the configuration or is refused. The mutations are
  shown to keep what start-up validation established, to leave credentials alone, and
  to change nothing beside the setting they name.
\<close>

section \<open>Requests\<close>

definition MutationProviderEnabled :: string where "MutationProviderEnabled = ''provider_enabled''"
definition MutationDefaultModel :: string where "MutationDefaultModel = ''default_model''"
definition MutationDefaultProvider :: string where "MutationDefaultProvider = ''default_provider''"
definition MutationAllowedModels :: string where "MutationAllowedModels = ''allowed_models''"
definition MutationModelMapSet :: string where "MutationModelMapSet = ''model_map_set''"
definition MutationModelMapDelete :: string where "MutationModelMapDelete = ''model_map_delete''"

lemmas mutation_kind_defs = MutationProviderEnabled_def MutationDefaultModel_def MutationDefaultProvider_def
  MutationAllowedModels_def MutationModelMapSet_def MutationModelMapDelete_def

record mutation_request =
  mq_kind :: string
  mq_expected_revision :: nat
  mq_dry_run :: bool
  mq_provider :: string
  mq_enabled :: "bool option"
  mq_model :: string
  mq_upstream_model :: string
  mq_allowed_models :: "string slice"
  mq_value :: string

datatype mutation_error =
    ConfigurationRequired
  | EnabledRequired
  | UnknownProvider string
  | DefaultModelRequired
  | DefaultProviderUnknown string
  | MapModelRequired
  | MapProviderUnknown string
  | MapShadowsVirtual string
  | DeleteModelRequired
  | UnsupportedMutation string

definition knownProviderIDs :: "string list" where
  "knownProviderIDs = [''copilot'', ''codex'', ''kilo'']"

section \<open>Operations\<close>

definition setProviderEnabled :: "config \<Rightarrow> string \<Rightarrow> bool \<Rightarrow> mutation_error + config" where
  "setProviderEnabled c provider enabled =
     (let p = trim_space provider; pv = cfg_providers c in
      if p = ''copilot'' then Inr (c\<lparr>cfg_providers := pv\<lparr>pv_copilot := (pv_copilot pv)\<lparr>cp_enabled := enabled\<rparr>\<rparr>\<rparr>)
      else if p = ''codex'' then Inr (c\<lparr>cfg_providers := pv\<lparr>pv_codex := (pv_codex pv)\<lparr>xp_enabled := enabled\<rparr>\<rparr>\<rparr>)
      else if p = ''kilo'' then Inr (c\<lparr>cfg_providers := pv\<lparr>pv_kilo := (pv_kilo pv)\<lparr>kp_enabled := enabled\<rparr>\<rparr>\<rparr>)
      else Inl (UnknownProvider provider))"

text \<open>The loop of \<open>cleanModelList\<close>, with the set of the models already kept.\<close>

fun clean_models :: "string list \<Rightarrow> string list \<Rightarrow> string list" where
  "clean_models seen [] = []"
| "clean_models seen (model # rest) =
     (let trimmed = trim_space model in
      if trimmed = '''' then clean_models seen rest
      else if trimmed \<in> set seen then clean_models seen rest
      else trimmed # clean_models (trimmed # seen) rest)"

definition cleanModelList :: "string slice \<Rightarrow> string slice" where
  "cleanModelList models =
     (if items models = [] then None else Some (sort (clean_models [] (items models))))"

definition setAllowedModels :: "config \<Rightarrow> string \<Rightarrow> string slice \<Rightarrow> mutation_error + config" where
  "setAllowedModels c provider models =
     (let cleaned = cleanModelList models; p = trim_space provider; pv = cfg_providers c in
      if p = ''copilot'' then Inr (c\<lparr>cfg_providers := pv\<lparr>pv_copilot := (pv_copilot pv)\<lparr>cp_allowed_models := cleaned\<rparr>\<rparr>\<rparr>)
      else if p = ''codex'' then Inr (c\<lparr>cfg_providers := pv\<lparr>pv_codex := (pv_codex pv)\<lparr>xp_allowed_models := cleaned\<rparr>\<rparr>\<rparr>)
      else if p = ''kilo'' then Inr (c\<lparr>cfg_providers := pv\<lparr>pv_kilo := (pv_kilo pv)\<lparr>kp_allowed_models := cleaned\<rparr>\<rparr>\<rparr>)
      else Inl (UnknownProvider provider))"

definition setModelMapEntry :: "config \<Rightarrow> mutation_request \<Rightarrow> mutation_error + config" where
  "setModelMapEntry c q =
     (let key = trim_space (mq_model q); provider = trim_space (mq_provider q); rt = cfg_routing c in
      if key = '''' then Inl MapModelRequired
      else if provider \<notin> set knownProviderIDs then Inl (MapProviderUnknown provider)
      else if has_key (items (rt_virtual_models rt)) key then Inl (MapShadowsVirtual key)
      else Inr (c\<lparr>cfg_routing := rt\<lparr>rt_model_map :=
        Some (AList.update key \<lparr>mm_provider = provider, mm_upstream_model = trim_space (mq_upstream_model q)\<rparr>
          (items (rt_model_map rt)))\<rparr>\<rparr>))"

definition firstNonEmptyMutation :: "string list \<Rightarrow> string" where
  "firstNonEmptyMutation values =
     (case find (\<lambda>v. trim_space v \<noteq> '''') values of Some v \<Rightarrow> v | None \<Rightarrow> '''')"

definition ApplyMutation :: "config option \<Rightarrow> mutation_request \<Rightarrow> mutation_error + config" where
  "ApplyMutation current q =
     (case current of None \<Rightarrow> Inl ConfigurationRequired
      | Some c \<Rightarrow>
        (let next = Clone c; rt = cfg_routing next in
         if mq_kind q = MutationProviderEnabled then
           (case mq_enabled q of None \<Rightarrow> Inl EnabledRequired
            | Some enabled \<Rightarrow> setProviderEnabled next (mq_provider q) enabled)
         else if mq_kind q = MutationDefaultModel then
           (let v = trim_space (firstNonEmptyMutation [mq_value q, mq_model q]) in
            if v = '''' then Inl DefaultModelRequired
            else Inr (next\<lparr>cfg_routing := rt\<lparr>rt_default_model := v\<rparr>\<rparr>))
         else if mq_kind q = MutationDefaultProvider then
           (let v = trim_space (mq_value q) in
            if v \<notin> set knownProviderIDs then Inl (DefaultProviderUnknown v)
            else Inr (next\<lparr>cfg_routing := rt\<lparr>rt_default_provider := v\<rparr>\<rparr>))
         else if mq_kind q = MutationAllowedModels then setAllowedModels next (mq_provider q) (mq_allowed_models q)
         else if mq_kind q = MutationModelMapSet then setModelMapEntry next q
         else if mq_kind q = MutationModelMapDelete then
           (let key = trim_space (mq_model q) in
            if key = '''' then Inl DeleteModelRequired
            else (case rt_model_map rt of None \<Rightarrow> Inr next
                  | Some m \<Rightarrow> Inr (next\<lparr>cfg_routing := rt\<lparr>rt_model_map := Some (AList.delete key m)\<rparr>\<rparr>)))
         else Inl (UnsupportedMutation (mq_kind q))))"

section \<open>Facts\<close>

lemma set_clean_models: "set (clean_models seen ms) = (trim_space ` set ms) - {''''} - set seen"
  by (induction seen ms rule: clean_models.induct) (auto simp: Let_def)

lemma distinct_clean_models: "distinct (clean_models seen ms)"
  by (induction seen ms rule: clean_models.induct) (auto simp: Let_def set_clean_models)

lemma cleanModelList_spec:
  "items (cleanModelList ms) = sorted_list_of_set (trim_space ` set (items ms) - {''''})"
proof (cases "items ms = []")
  case False
  have "sort (clean_models [] (items ms)) = sorted_list_of_set (set (clean_models [] (items ms)))"
    by (simp add: distinct_clean_models sorted_list_of_set_sort_remdups distinct_remdups_id)
  with False show ?thesis by (simp add: cleanModelList_def set_clean_models)
qed (simp add: cleanModelList_def)

lemma config_secrets_Clone [simp]: "config_secrets (Clone c) = config_secrets c"
  by (simp add: config_secrets_def Clone_def Let_def)

lemma cloneVirtualModels_ok:
  assumes "\<forall>(vid, vm) \<in> set (items m). P vid (vm\<lparr>vm_targets := cloneStrings (vm_targets vm)\<rparr>)"
  shows "\<forall>(vid, vm) \<in> set (items (cloneVirtualModels m)). P vid vm"
  using assms by (cases m) (auto simp: cloneVirtualModels_def)

lemma cloneVirtualModels_has_key [simp]: "has_key (items (cloneVirtualModels m)) k = has_key (items m) k"
  by (simp add: has_key_iff)

lemma wf_cloneVirtualModels [simp]: "wf_map (items (cloneVirtualModels m)) = wf_map (items m)"
  by (simp add: wf_map_def)

text \<open>Validation survives a change of the routing section that keeps the umbrella models, up
  to the copy, and adds no model-map key that is one of them.\<close>

lemma ValidateVirtualModels_mono:
  assumes wf: "wf_map (items (rt_virtual_models r))"
    and ok: "ValidateVirtualModels r known = None"
    and vms: "rt_virtual_models r' = cloneVirtualModels (rt_virtual_models r)"
    and keys: "\<And>k. has_key (items (rt_model_map r')) k \<Longrightarrow>
      has_key (items (rt_model_map r)) k \<or> \<not> has_key (items (rt_virtual_models r)) k"
  shows "ValidateVirtualModels r' known = None"
proof -
  have *: "virtual_model_ok r' known vid (vm\<lparr>vm_targets := cloneStrings (vm_targets vm)\<rparr>)"
    if "(vid, vm) \<in> set (items (rt_virtual_models r))" for vid vm
  proof -
    have "virtual_model_ok r known vid vm"
      using ok that by (auto simp: ValidateVirtualModels_None [OF wf])
    moreover have "has_key (items (rt_virtual_models r)) vid"
      using that by (force simp: has_key_iff keys_of_def)
    ultimately show ?thesis
      using keys [of vid] by (auto simp: virtual_model_ok_def target_ok_def vms)
  qed
  have "\<forall>(vid, vm) \<in> set (items (rt_virtual_models r')). virtual_model_ok r' known vid vm"
    unfolding vms by (rule cloneVirtualModels_ok) (use * in auto)
  then show ?thesis using wf by (simp add: ValidateVirtualModels_None vms)
qed

lemmas mutation_op_defs = setProviderEnabled_def setAllowedModels_def setModelMapEntry_def

text \<open>Every accepted mutation leaves all credentials, timeouts, logging, port and version as
  they were, and the umbrella models.\<close>

lemma ApplyMutation_secrets: "ApplyMutation (Some c) q = Inr c' \<Longrightarrow> config_secrets c' = config_secrets c"
  by (auto simp: ApplyMutation_def mutation_op_defs Let_def config_secrets_def Clone_def
      split: if_splits option.splits)

lemma ApplyMutation_frame:
  "ApplyMutation (Some c) q = Inr c' \<Longrightarrow>
     cfg_port c' = cfg_port c \<and> cfg_version c' = cfg_version c \<and> cfg_enable_pprof c' = cfg_enable_pprof c
     \<and> cfg_logging c' = cfg_logging c \<and> cfg_timeouts c' = cfg_timeouts c
     \<and> rt_virtual_models (cfg_routing c') = cloneVirtualModels (rt_virtual_models (cfg_routing c))"
  by (auto simp: ApplyMutation_def mutation_op_defs Let_def Clone_def split: if_splits option.splits)

lemma ApplyMutation_keys:
  "ApplyMutation (Some c) q = Inr c' \<Longrightarrow> has_key (items (rt_model_map (cfg_routing c'))) k \<Longrightarrow>
     has_key (items (rt_model_map (cfg_routing c))) k \<or> \<not> has_key (items (rt_virtual_models (cfg_routing c))) k"
  by (auto simp: ApplyMutation_def mutation_op_defs Let_def Clone_def split: if_splits option.splits)

text \<open>C35: a configuration whose umbrella models passed validation still passes it after any
  accepted mutation (in particular no model-map entry can be added that shadows an
  umbrella model), and no mutation reads or changes a credential, the timeouts, the
  logging settings, the port, or the umbrella models themselves.\<close>

theorem mutation_keeps_validation:
  assumes "wf_map (items (rt_virtual_models (cfg_routing c)))"
    and "ValidateVirtualModels (cfg_routing c) known = None"
    and "ApplyMutation (Some c) q = Inr c'"
  shows "ValidateVirtualModels (cfg_routing c') known = None
    \<and> config_secrets c' = config_secrets c
    \<and> cfg_port c' = cfg_port c \<and> cfg_logging c' = cfg_logging c \<and> cfg_timeouts c' = cfg_timeouts c
    \<and> rt_virtual_models (cfg_routing c') = cloneVirtualModels (rt_virtual_models (cfg_routing c))"
  using ApplyMutation_frame [OF assms(3)] ApplyMutation_secrets [OF assms(3)] ApplyMutation_keys [OF assms(3)]
    ValidateVirtualModels_mono [OF assms(1,2)] by blast

definition sample_mutation :: mutation_request where
  "sample_mutation = \<lparr>mq_kind = MutationModelMapSet, mq_expected_revision = 1, mq_dry_run = False,
     mq_provider = '' codex '', mq_enabled = None, mq_model = '' fast '', mq_upstream_model = ''gpt-5'',
     mq_allowed_models = None, mq_value = ''''\<rparr>"

theorem mutation_keeps_validation_witness:
  "\<exists>c'. ApplyMutation (Some (zero_config\<lparr>cfg_routing := sample_routing\<rparr>)) sample_mutation = Inr c'
     \<and> map_of (items (rt_model_map (cfg_routing c'))) ''fast'' = Some \<lparr>mm_provider = ''codex'', mm_upstream_model = ''gpt-5''\<rparr>
     \<and> ValidateVirtualModels (cfg_routing c') KnownPrefixes = None"
proof -
  let ?c = "zero_config\<lparr>cfg_routing := sample_routing\<rparr>"
  have ok: "ValidateVirtualModels (cfg_routing ?c) KnownPrefixes = None" by code_simp
  have wf: "wf_map (items (rt_virtual_models (cfg_routing ?c)))" by code_simp
  define c' where "c' = projr (ApplyMutation (Some ?c) sample_mutation)"
  have eq: "ApplyMutation (Some ?c) sample_mutation = Inr c'"
    and entry: "map_of (items (rt_model_map (cfg_routing c'))) ''fast'' =
      Some \<lparr>mm_provider = ''codex'', mm_upstream_model = ''gpt-5''\<rparr>"
    unfolding c'_def by code_simp+
  show ?thesis
    using mutation_keeps_validation [OF wf ok eq] eq entry by blast
qed

text \<open>Replacing an allowlist stores the sorted list of the distinct non-blank trimmed
  names that were sent, for the named provider only; an unknown provider is refused.\<close>

theorem allowed_models_mutation:
  "items (cleanModelList ms) = sorted_list_of_set (trim_space ` set (items ms) - {''''})
   \<and> (mq_kind q = MutationAllowedModels \<longrightarrow>
       (is_ok (ApplyMutation (Some c) q) \<longleftrightarrow> trim_space (mq_provider q) \<in> {''copilot'', ''codex'', ''kilo''})
       \<and> (\<forall>c'. ApplyMutation (Some c) q = Inr c' \<longrightarrow>
            cfg_routing c' = cfg_routing (Clone c)
            \<and> [items (cp_allowed_models (pv_copilot (cfg_providers c'))),
                items (xp_allowed_models (pv_codex (cfg_providers c'))),
                items (kp_allowed_models (pv_kilo (cfg_providers c')))]
              = map (\<lambda>(p, old). if trim_space (mq_provider q) = p
                       then sorted_list_of_set (trim_space ` set (items (mq_allowed_models q)) - {''''}) else items old)
                  [(''copilot'', cp_allowed_models (pv_copilot (cfg_providers c))),
                   (''codex'', xp_allowed_models (pv_codex (cfg_providers c))),
                   (''kilo'', kp_allowed_models (pv_kilo (cfg_providers c)))]))"
proof (intro conjI impI)
  show "items (cleanModelList ms) = sorted_list_of_set (trim_space ` set (items ms) - {''''})"
    by (rule cleanModelList_spec)
next
  assume k: "mq_kind q = MutationAllowedModels"
  show "is_ok (ApplyMutation (Some c) q) \<longleftrightarrow> trim_space (mq_provider q) \<in> {''copilot'', ''codex'', ''kilo''}"
    by (auto simp: ApplyMutation_def k mutation_kind_defs setAllowedModels_def Let_def)
  show "\<forall>c'. ApplyMutation (Some c) q = Inr c' \<longrightarrow>
            cfg_routing c' = cfg_routing (Clone c)
            \<and> [items (cp_allowed_models (pv_copilot (cfg_providers c'))),
                items (xp_allowed_models (pv_codex (cfg_providers c'))),
                items (kp_allowed_models (pv_kilo (cfg_providers c')))]
              = map (\<lambda>(p, old). if trim_space (mq_provider q) = p
                       then sorted_list_of_set (trim_space ` set (items (mq_allowed_models q)) - {''''}) else items old)
                  [(''copilot'', cp_allowed_models (pv_copilot (cfg_providers c))),
                   (''codex'', xp_allowed_models (pv_codex (cfg_providers c))),
                   (''kilo'', kp_allowed_models (pv_kilo (cfg_providers c)))]"
    by (auto simp: ApplyMutation_def k mutation_kind_defs setAllowedModels_def Let_def Clone_def
        cleanModelList_spec split: if_splits)
qed

theorem allowed_models_mutation_witness:
  "items (cp_allowed_models (pv_copilot (cfg_providers (projr (ApplyMutation (Some zero_config)
      (sample_mutation\<lparr>mq_kind := MutationAllowedModels, mq_provider := ''copilot'',
        mq_allowed_models := Some ['' o3'', ''gpt-4o'', '' '', ''o3'']\<rparr>)))))) = [''gpt-4o'', ''o3'']"
proof -
  let ?q = "sample_mutation\<lparr>mq_kind := MutationAllowedModels, mq_provider := ''copilot'',
        mq_allowed_models := Some ['' o3'', ''gpt-4o'', '' '', ''o3'']\<rparr>"
  have prov: "trim_space (mq_provider ?q) = ''copilot''" by code_simp
  have models: "sorted_list_of_set (trim_space ` set (items (mq_allowed_models ?q)) - {''''}) = [''gpt-4o'', ''o3'']"
    by code_simp
  have kind: "mq_kind ?q = MutationAllowedModels" by simp
  obtain c' where "ApplyMutation (Some zero_config) ?q = Inr c'"
    using allowed_models_mutation [of None ?q zero_config] kind prov by (auto elim: is_okE)
  with allowed_models_mutation [of None ?q zero_config] kind prov models show ?thesis by simp
qed

end
