(* ===== verification/Managed_Config.thy ===== *)
theory Managed_Config
  imports State_Recovery Config_Mutations
begin

text \<open>
  The callers of the revisioned state: management mutations
  (\<open>src/mutation_runtime.go\<close>), which are committed, handed to the provider runtime and undone
  when it refuses them, and the runtime's own writes (\<open>src/config_persistence.go\<close>), which
  carry tokens and limits of one account into the newest configuration. Both hold
  \<open>configWriteMu\<close>, so each is one transition of the manager.

  The provider runtime is represented by whether its \<open>Reconcile\<close> accepts a configuration; a
  fault and a time are given for each of the calls of \<open>Apply\<close>.
\<close>

section \<open>Management mutations\<close>

record mutation_result =
  mr_DryRun :: bool
  mr_Applied :: bool
  mr_RuntimePublished :: bool
  mr_CurrentRevision :: nat
  mr_NextRevision :: nat
  mr_Changed :: bool
  mr_ChangedPaths :: "string list"
  mr_RestartRequired :: "string list"

definition zero_result :: mutation_result where
  "zero_result = \<lparr>mr_DryRun = False, mr_Applied = False, mr_RuntimePublished = False, mr_CurrentRevision = 0,
     mr_NextRevision = 0, mr_Changed = False, mr_ChangedPaths = [], mr_RestartRequired = []\<rparr>"

datatype managed_error =
    StateNotActive
  | MutationConflict nat nat
  | MutationRejected mutation_error
  | StateRejected state_error
  | ReconcileAndRestoreFailed state_error
  | RecoveredMutation

record mutation_io =
  mi_apply :: "state_fault option"
  mi_apply_time :: gotime
  mi_restore :: "state_fault option"
  mi_restore_time :: gotime

definition applyManagedMutation ::
    "state_env \<Rightarrow> mutation_io \<Rightarrow> (config \<Rightarrow> bool) option \<Rightarrow> mutation_request \<Rightarrow> string \<Rightarrow> state_manager \<Rightarrow>
     mutation_result \<times> managed_error option \<times> state_manager" where
  "applyManagedMutation env io reloader request actor m =
     (let snapshot = State_Snapshot m in
      if mq_expected_revision request \<noteq> ss_Revision snapshot
      then (zero_result, Some (MutationConflict (mq_expected_revision request) (ss_Revision snapshot)), m)
      else case ApplyMutation (Some (ss_Desired snapshot)) request of
        Inl e \<Rightarrow> (zero_result, Some (MutationRejected e), m)
      | Inr nxt \<Rightarrow>
        (case State_Validate env (Some nxt) (Some nxt) m of
           Inl e \<Rightarrow> (zero_result, Some (StateRejected e), m)
         | Inr preview \<Rightarrow>
             let result = \<lparr>mr_DryRun = mq_dry_run request, mr_Applied = False, mr_RuntimePublished = False,
                   mr_CurrentRevision = pv_CurrentRevision preview, mr_NextRevision = pv_NextRevision preview,
                   mr_Changed = pv_Changed preview, mr_ChangedPaths = pv_ChangedPaths preview,
                   mr_RestartRequired = pv_RestartRequired preview\<rparr>
             in if mq_dry_run request then (result, None, m)
             else case State_Apply env (mi_apply io) (mi_apply_time io) (ss_Revision snapshot) (Some nxt) (Some nxt) actor False m of
               (Inl e, m) \<Rightarrow> (zero_result, Some (StateRejected e), m)
             | (Inr applied, m) \<Rightarrow>
                 let result = result\<lparr>mr_Applied := True, mr_NextRevision := ss_Revision applied\<rparr>
                 in case reloader of
                   None \<Rightarrow> (result, None, m)
                 | Some reconcile \<Rightarrow>
                     if reconcile (ss_Effective applied) then (result\<lparr>mr_RuntimePublished := True\<rparr>, None, m)
                     else case State_Apply env (mi_restore io) (mi_restore_time io) (ss_Revision applied)
                                 (Some (ss_Desired snapshot)) (Some (ss_Effective snapshot)) actor False m of
                       (Inl e, m) \<Rightarrow> (result, Some (ReconcileAndRestoreFailed e), m)
                     | (Inr restored, m) \<Rightarrow>
                         (result\<lparr>mr_Applied := False, mr_CurrentRevision := ss_Revision restored,
                            mr_NextRevision := ss_Revision restored, mr_Changed := False, mr_ChangedPaths := [],
                            mr_RestartRequired := []\<rparr>, Some RecoveredMutation, m)))"

text \<open>The configured state may be inactive; then nothing is done.\<close>

definition managed_mutation ::
    "state_env \<Rightarrow> mutation_io \<Rightarrow> (config \<Rightarrow> bool) option \<Rightarrow> mutation_request \<Rightarrow> string \<Rightarrow> state_manager option \<Rightarrow>
     mutation_result \<times> managed_error option \<times> state_manager option" where
  "managed_mutation env io reloader request actor st =
     (case st of None \<Rightarrow> (zero_result, Some StateNotActive, None)
      | Some m \<Rightarrow> (case applyManagedMutation env io reloader request actor m of (r, e, m) \<Rightarrow> (r, e, Some m)))"

text \<open>\<open>errors.As\<close> also finds a conflict reported by \<open>Apply\<close>.\<close>

definition mutationHTTPStatus :: "managed_error \<Rightarrow> int \<times> string" where
  "mutationHTTPStatus e =
     (case e of
        MutationConflict _ _ \<Rightarrow> (409, ''revision_conflict'')
      | StateRejected (ConflictError _ _) \<Rightarrow> (409, ''revision_conflict'')
      | RecoveredMutation \<Rightarrow> (503, ''runtime_reconcile_failed'')
      | _ \<Rightarrow> (400, ''invalid_mutation''))"

definition mutation_Execute ::
    "state_env \<Rightarrow> mutation_io \<Rightarrow> (config \<Rightarrow> bool) option \<Rightarrow> mutation_request \<Rightarrow> string \<Rightarrow> state_manager option \<Rightarrow>
     (mutation_result option \<times> int \<times> string \<times> managed_error option) \<times> state_manager option" where
  "mutation_Execute env io reloader request actor st =
     (case managed_mutation env io reloader request actor st of
        (result, None, st) \<Rightarrow> ((Some result, 200, '''', None), st)
      | (result, Some e, st) \<Rightarrow>
          (case mutationHTTPStatus e of (status, code) \<Rightarrow>
             ((if e = RecoveredMutation then Some result else None, status, code, Some e), st)))"

section \<open>Writes of the runtime\<close>

definition saveConfigLocked ::
    "state_env \<Rightarrow> state_fault option \<Rightarrow> gotime \<Rightarrow> config \<Rightarrow> state_manager \<Rightarrow> (state_error + state_snapshot) \<times> state_manager" where
  "saveConfigLocked env io now cfg m =
     State_Apply env io now (ss_Revision (State_Snapshot m)) (Some cfg) (Some cfg) ''runtime'' False m"

definition sameAccount :: "string \<Rightarrow> string \<Rightarrow> string \<Rightarrow> string \<Rightarrow> bool" where
  "sameAccount sourceID sourceLabel candidateID candidateLabel =
     (if sourceID \<noteq> '''' \<and> candidateID \<noteq> '''' then sourceID = candidateID
      else sourceLabel \<noteq> '''' \<and> sourceLabel = candidateLabel)"

datatype account_error = InvalidAccountIndex | AccountGone string | SaveFailed state_error

fun update_copilot_account :: "copilot_account \<Rightarrow> copilot_account list \<Rightarrow> copilot_account list option" where
  "update_copilot_account source [] = None"
| "update_copilot_account source (candidate # rest) =
     (if sameAccount (cacc_id source) (cacc_label source) (cacc_id candidate) (cacc_label candidate)
      then Some (candidate\<lparr>cacc_auth := cacc_auth source, cacc_last_limited_at := cacc_last_limited_at source\<rparr> # rest)
      else map_option (Cons candidate) (update_copilot_account source rest))"

fun update_codex_account :: "codex_account \<Rightarrow> codex_account list \<Rightarrow> codex_account list option" where
  "update_codex_account source [] = None"
| "update_codex_account source (candidate # rest) =
     (if sameAccount (xacc_id source) (xacc_label source) (xacc_id candidate) (xacc_label candidate)
      then Some (candidate\<lparr>xacc_auth := xacc_auth source, xacc_last_limited_at := xacc_last_limited_at source\<rparr> # rest)
      else map_option (Cons candidate) (update_codex_account source rest))"

definition save_result :: "(state_error + state_snapshot) \<times> state_manager \<Rightarrow> account_error option \<times> state_manager" where
  "save_result r = (case r of (Inl e, m) \<Rightarrow> (Some (SaveFailed e), m) | (Inr _, m) \<Rightarrow> (None, m))"

definition persistCopilotRuntimeAccount ::
    "state_env \<Rightarrow> state_fault option \<Rightarrow> gotime \<Rightarrow> copilot_provider \<Rightarrow> int \<Rightarrow> state_manager \<Rightarrow> account_error option \<times> state_manager" where
  "persistCopilotRuntimeAccount env io now source accountIndex m =
     (let latest = Clone (ss_Desired (State_Snapshot m)); pv = cfg_providers latest; cp = pv_copilot pv;
          accounts = items (cp_accounts source)
      in if accounts = []
         then save_result (saveConfigLocked env io now (latest\<lparr>cfg_providers := pv\<lparr>pv_copilot := cp\<lparr>cp_auth := cp_auth source\<rparr>\<rparr>\<rparr>) m)
         else if accountIndex < 0 \<or> accountIndex \<ge> int (length accounts) then (Some InvalidAccountIndex, m)
         else
           let sourceAccount = accounts ! nat accountIndex in
           case update_copilot_account sourceAccount (items (cp_accounts cp)) of
             None \<Rightarrow> (Some (AccountGone (cacc_id sourceAccount)), m)
           | Some updated \<Rightarrow>
               save_result (saveConfigLocked env io now
                 (latest\<lparr>cfg_providers := pv\<lparr>pv_copilot := cp\<lparr>cp_accounts := Some updated\<rparr>\<rparr>\<rparr>) m))"

definition persistCodexRuntimeAccount ::
    "state_env \<Rightarrow> state_fault option \<Rightarrow> gotime \<Rightarrow> codex_provider \<Rightarrow> int \<Rightarrow> state_manager \<Rightarrow> account_error option \<times> state_manager" where
  "persistCodexRuntimeAccount env io now source accountIndex m =
     (let latest = Clone (ss_Desired (State_Snapshot m)); pv = cfg_providers latest; xp = pv_codex pv;
          accounts = items (xp_accounts source)
      in if accounts = []
         then save_result (saveConfigLocked env io now (latest\<lparr>cfg_providers := pv\<lparr>pv_codex := xp\<lparr>xp_auth := xp_auth source\<rparr>\<rparr>\<rparr>) m)
         else if accountIndex < 0 \<or> accountIndex \<ge> int (length accounts) then (Some InvalidAccountIndex, m)
         else
           let sourceAccount = accounts ! nat accountIndex in
           case update_codex_account sourceAccount (items (xp_accounts xp)) of
             None \<Rightarrow> (Some (AccountGone (xacc_id sourceAccount)), m)
           | Some updated \<Rightarrow>
               save_result (saveConfigLocked env io now
                 (latest\<lparr>cfg_providers := pv\<lparr>pv_codex := xp\<lparr>xp_accounts := Some updated\<rparr>\<rparr>\<rparr>) m))"

section \<open>Facts on mutations\<close>

lemma apply_both_ok:
  assumes "State_Apply env io now n (Some c) (Some e) a False m = (Inr s, m')"
  shows "n = revision m \<and> s = cloneSnapshot (mg_snapshot m') \<and> ss_Desired (mg_snapshot m') = Clone c
    \<and> ss_Effective (mg_snapshot m') = Clone e \<and> revision m' = Suc (revision m) \<and> mg_closed m' = mg_closed m"
proof -
  from assms have g: "\<not> mg_closed m" "n = revision m" by (auto simp: State_Apply_def Let_def split: if_splits)
  then obtain pv where pv: "previewLocked env (Some c) (Some e) (mg_snapshot m) = Inr pv"
    using assms by (cases "previewLocked env (Some c) (Some e) (mg_snapshot m)") (auto simp: State_Apply_def)
  then obtain s0 where s0: "commit_snapshot io s0 m = (Inr s, m')" "ss_Desired s0 = Clone c" "ss_Effective s0 = Clone e"
      "ss_Revision s0 = Suc (revision m)"
    using assms g by (fastforce simp: State_Apply_def Let_def)
  show ?thesis by (cases rule: commit_snapshot_cases [of io s0 m]) (use g s0 in auto)
qed

lemma apply_both_error:
  "State_Apply env io now n (Some c) (Some e) a False m = (Inl err, m') \<Longrightarrow> mg_snapshot m' = mg_snapshot m"
  using run_call_revision [of env "CallApply io now n (Some c) (Some e) a False" m] by auto

lemma settled_Clone: "settled c \<Longrightarrow> settled (Clone c)"
  by (cases "rt_virtual_models (cfg_routing c)")
    (auto simp: settled_def Clone_def Let_def cloneVirtualModels_def migrates_codex_def)

lemma ApplyMutation_settled:
  assumes "ApplyMutation (Some c) q = Inr c'" and "settled c"
  shows "settled c'"
proof -
  have "cfg_version c' = cfg_version c" "rt_virtual_models (cfg_routing c') = cloneVirtualModels (rt_virtual_models (cfg_routing c))"
    using ApplyMutation_frame [OF assms(1)] by auto
  moreover have "migrates_codex (pv_codex (cfg_providers c')) = migrates_codex (pv_codex (cfg_providers c))"
    using assms(1) by (auto simp: ApplyMutation_def mutation_op_defs Let_def Clone_def migrates_codex_def
      split: if_splits option.splits)
  ultimately show ?thesis using assms(2)
    by (cases "rt_virtual_models (cfg_routing c)") (auto simp: settled_def cloneVirtualModels_def)
qed

lemma State_Snapshot_fields [simp]:
  "ss_Revision (State_Snapshot m) = revision m" "ss_Desired (State_Snapshot m) = Clone (ss_Desired (mg_snapshot m))"
  "ss_Effective (State_Snapshot m) = Clone (ss_Effective (mg_snapshot m))"
  by (simp_all add: State_Snapshot_def cloneSnapshot_def)

text \<open>The outcomes of a mutation.\<close>

inductive mutation_outcome ::
    "(config \<Rightarrow> bool) option \<Rightarrow> mutation_request \<Rightarrow> state_manager \<Rightarrow> mutation_result \<Rightarrow> managed_error option \<Rightarrow> state_manager \<Rightarrow> bool" where
  refused: "\<not> mr_Applied r \<Longrightarrow> mg_snapshot m' = mg_snapshot m \<Longrightarrow> e \<noteq> RecoveredMutation \<Longrightarrow>
    mutation_outcome reloader q m r (Some e) m'"
| previewed: "mq_dry_run q \<Longrightarrow> \<not> mr_Applied r \<Longrightarrow> mq_expected_revision q = revision m \<Longrightarrow>
    mutation_outcome reloader q m r None m"
| changed: "mr_Applied r \<Longrightarrow> \<not> mq_dry_run q \<Longrightarrow> mq_expected_revision q = revision m \<Longrightarrow>
    ApplyMutation (Some (Clone (ss_Desired (mg_snapshot m)))) q = Inr nxt \<Longrightarrow>
    ss_Desired (mg_snapshot m') = Clone nxt \<Longrightarrow> ss_Effective (mg_snapshot m') = Clone nxt \<Longrightarrow>
    revision m' = Suc (revision m) \<Longrightarrow> mr_NextRevision r = revision m' \<Longrightarrow>
    (e = None \<longleftrightarrow> (case reloader of None \<Rightarrow> True | Some reconcile \<Rightarrow> reconcile (Clone nxt))) \<Longrightarrow> e \<noteq> Some RecoveredMutation \<Longrightarrow>
    mutation_outcome reloader q m r e m'"
| undone: "\<not> mr_Applied r \<Longrightarrow> mq_expected_revision q = revision m \<Longrightarrow>
    ApplyMutation (Some (Clone (ss_Desired (mg_snapshot m)))) q = Inr nxt \<Longrightarrow> \<not> reconcile (Clone nxt) \<Longrightarrow>
    ss_Desired (mg_snapshot m') = Clone (ss_Desired (mg_snapshot m)) \<Longrightarrow>
    ss_Effective (mg_snapshot m') = Clone (ss_Effective (mg_snapshot m)) \<Longrightarrow>
    revision m' = revision m + 2 \<Longrightarrow> mr_CurrentRevision r = revision m' \<Longrightarrow>
    mutation_outcome (Some reconcile) q m r (Some RecoveredMutation) m'"

lemma mutation_reconciled:
  assumes run: "applyManagedMutation env io reloader q actor m = (r, e, m')"
    and rev: "mq_expected_revision q = revision m"
    and mut: "ApplyMutation (Some (Clone (ss_Desired (mg_snapshot m)))) q = Inr nxt"
    and val: "State_Validate env (Some nxt) (Some nxt) m = Inr pv" and dry: "\<not> mq_dry_run q"
    and ap: "State_Apply env (mi_apply io) (mi_apply_time io) (revision m) (Some nxt) (Some nxt) actor False m = (Inr s, ma)"
  shows "mutation_outcome reloader q m r e m'"
proof -
  note red = applyManagedMutation_def Let_def rev mut val ap dry
  note a = apply_both_ok [OF ap]
  have eff: "ss_Effective s = Clone nxt" "ss_Revision s = Suc (revision m)" using a by (auto simp: cloneSnapshot_def)
  show ?thesis
  proof (cases "case reloader of None \<Rightarrow> True | Some reconcile \<Rightarrow> reconcile (Clone nxt)")
    case True
    then have "e = None" "m' = ma" "mr_Applied r" "mr_NextRevision r = Suc (revision m)"
      using run eff by (auto simp: red split: option.splits)
    then show ?thesis using a dry rev mut True by (intro changed [where nxt = nxt]) simp_all
  next
    case False
    then obtain reconcile where rl: "reloader = Some reconcile" "\<not> reconcile (Clone nxt)" by (auto split: option.splits)
    let ?restore = "State_Apply env (mi_restore io) (mi_restore_time io) (Suc (revision m))
      (Some (Clone (ss_Desired (mg_snapshot m)))) (Some (Clone (ss_Effective (mg_snapshot m)))) actor False ma"
    obtain rb mb where rs: "?restore = (rb, mb)" by (cases ?restore)
    show ?thesis
    proof (cases rb)
      case (Inl err)
      have "e = Some (ReconcileAndRestoreFailed err)" "m' = mb" "mr_Applied r" "mr_NextRevision r = Suc (revision m)"
        using run eff rl rs Inl by (auto simp: red)
      moreover have "mg_snapshot mb = mg_snapshot ma" using rs unfolding Inl by (rule apply_both_error)
      ultimately show ?thesis using a dry rev mut rl by (intro changed [where nxt = nxt]) simp_all
    next
      case (Inr s2)
      have b: "ss_Desired (mg_snapshot mb) = Clone (Clone (ss_Desired (mg_snapshot m)))" "s2 = cloneSnapshot (mg_snapshot mb)"
        "ss_Effective (mg_snapshot mb) = Clone (Clone (ss_Effective (mg_snapshot m)))" "revision mb = Suc (revision ma)"
        "revision ma = Suc (revision m)"
        using apply_both_ok [OF rs [unfolded Inr]] a by blast+
      have e: "e = Some RecoveredMutation" and "m' = mb" "\<not> mr_Applied r" "mr_CurrentRevision r = ss_Revision s2"
        using run eff rl rs Inr by (auto simp: red)
      then show ?thesis using b rev mut rl(2) unfolding rl(1) e
        by (intro undone [where nxt = nxt]) (simp_all add: cloneSnapshot_def)
    qed
  qed
qed

lemma mutation_outcomes:
  assumes "applyManagedMutation env io reloader q actor m = (r, e, m')"
  shows "mutation_outcome reloader q m r e m'"
proof (cases "mq_expected_revision q = revision m \<and> is_ok (ApplyMutation (Some (Clone (ss_Desired (mg_snapshot m)))) q)")
  case False
  then show ?thesis using assms
    by (auto simp: applyManagedMutation_def Let_def zero_result_def is_ok_def split: sum.splits if_splits intro!: refused)
next
  case True
  then obtain nxt where rev: "mq_expected_revision q = revision m"
      and mut: "ApplyMutation (Some (Clone (ss_Desired (mg_snapshot m)))) q = Inr nxt" by (auto elim: is_okE)
  show ?thesis
  proof (cases "State_Validate env (Some nxt) (Some nxt) m")
    case (Inl err)
    then show ?thesis using assms rev mut by (auto simp: applyManagedMutation_def Let_def zero_result_def intro!: refused)
  next
    case val: (Inr pv)
    let ?ap = "State_Apply env (mi_apply io) (mi_apply_time io) (revision m) (Some nxt) (Some nxt) actor False m"
    obtain ra ma where ap: "?ap = (ra, ma)" by (cases ?ap)
    show ?thesis
    proof (cases "mq_dry_run q \<or> \<not> is_ok ra")
      case True
      then show ?thesis using assms rev mut val ap apply_both_error [of env "mi_apply io" "mi_apply_time io" "revision m" nxt nxt actor m]
        by (cases ra) (auto simp: applyManagedMutation_def Let_def zero_result_def split: if_splits intro!: previewed refused)
    next
      case False
      then obtain s where "ra = Inr s" "\<not> mq_dry_run q" by (auto elim: is_okE)
      then show ?thesis using mutation_reconciled [OF assms rev mut val] ap by blast
    qed
  qed
qed


definition sample_state :: state_manager where
  "sample_state = the (sy_running sample_s1)"

definition sample_request :: mutation_request where
  "sample_request = \<lparr>mq_kind = MutationDefaultModel, mq_expected_revision = 1, mq_dry_run = False, mq_provider = '''',
     mq_enabled = None, mq_model = '''', mq_upstream_model = '''', mq_allowed_models = None, mq_value = ''codex/gpt-5''\<rparr>"

definition sample_io :: mutation_io where
  "sample_io = \<lparr>mi_apply = None, mi_apply_time = 1, mi_restore = None, mi_restore_time = 2\<rparr>"

definition sample_refused :: "mutation_result \<times> managed_error option \<times> state_manager" where
  "sample_refused = applyManagedMutation sample_env sample_io (Some (\<lambda>c. False)) sample_request ''cli'' sample_state"


section \<open>Facts on the runtime's writes\<close>

lemma update_copilot_account_Some:
  "update_copilot_account src xs = Some ys \<Longrightarrow>
     \<exists>i < length xs. sameAccount (cacc_id src) (cacc_label src) (cacc_id (xs ! i)) (cacc_label (xs ! i))
       \<and> ys = xs[i := (xs ! i)\<lparr>cacc_auth := cacc_auth src, cacc_last_limited_at := cacc_last_limited_at src\<rparr>]"
proof (induction xs arbitrary: ys)
  case (Cons x xs)
  show ?case
  proof (cases "sameAccount (cacc_id src) (cacc_label src) (cacc_id x) (cacc_label x)")
    case True
    then show ?thesis using Cons.prems by (intro exI [of _ 0]) auto
  next
    case False
    then obtain zs where zs: "update_copilot_account src xs = Some zs" "ys = x # zs" using Cons.prems by auto
    then obtain i where "i < length xs" "sameAccount (cacc_id src) (cacc_label src) (cacc_id (xs ! i)) (cacc_label (xs ! i))"
        "zs = xs[i := (xs ! i)\<lparr>cacc_auth := cacc_auth src, cacc_last_limited_at := cacc_last_limited_at src\<rparr>]"
      using Cons.IH by blast
    then show ?thesis using zs by (intro exI [of _ "Suc i"]) auto
  qed
qed simp

text \<open>A write of the runtime touches the authentication and the limit of one account, by
  identifier when both sides have one, and nothing else of the newest configuration; it fails
  without effect when the account is gone.\<close>

lemma copilot_account_write:
  assumes "persistCopilotRuntimeAccount env io now source k m = (r, m')" and "items (cp_accounts source) \<noteq> []"
  shows "(case r of
      Some e \<Rightarrow> mg_snapshot m' = mg_snapshot m
    | None \<Rightarrow> \<exists>i. let latest = Clone (ss_Desired (mg_snapshot m)); pv = cfg_providers latest; xs = items (cp_accounts (pv_copilot pv));
          src = items (cp_accounts source) ! nat k
        in i < length xs \<and> sameAccount (cacc_id src) (cacc_label src) (cacc_id (xs ! i)) (cacc_label (xs ! i))
           \<and> ss_Desired (mg_snapshot m') = Clone (latest\<lparr>cfg_providers := pv\<lparr>pv_copilot := (pv_copilot pv)\<lparr>cp_accounts :=
               Some (xs[i := (xs ! i)\<lparr>cacc_auth := cacc_auth src, cacc_last_limited_at := cacc_last_limited_at src\<rparr>])\<rparr>\<rparr>\<rparr>)
           \<and> revision m' = Suc (revision m))"
proof (cases "k < 0 \<or> k \<ge> int (length (items (cp_accounts source)))")
  case True
  then show ?thesis using assms by (auto simp: persistCopilotRuntimeAccount_def Let_def)
next
  case False
  let ?latest = "Clone (ss_Desired (mg_snapshot m))"
  let ?src = "items (cp_accounts source) ! nat k" and ?xs = "items (cp_accounts (pv_copilot (cfg_providers ?latest)))"
  show ?thesis
  proof (cases "update_copilot_account ?src ?xs")
    case None
    then show ?thesis using assms False by (auto simp: persistCopilotRuntimeAccount_def Let_def)
  next
    case (Some ys)
    let ?new = "?latest\<lparr>cfg_providers := (cfg_providers ?latest)\<lparr>pv_copilot := (pv_copilot (cfg_providers ?latest))\<lparr>cp_accounts := Some ys\<rparr>\<rparr>\<rparr>"
    obtain ra ma where ap: "State_Apply env io now (revision m) (Some ?new) (Some ?new) ''runtime'' False m = (ra, ma)"
      by (cases "State_Apply env io now (revision m) (Some ?new) (Some ?new) ''runtime'' False m")
    have res: "save_result (ra, ma) = (r, m')"
      using assms False Some ap by (simp add: persistCopilotRuntimeAccount_def Let_def saveConfigLocked_def)
    show ?thesis
    proof (cases ra)
      case (Inl e)
      then show ?thesis using res apply_both_error [OF ap [unfolded Inl]] by (auto simp: save_result_def)
    next
      case (Inr s)
      then have "r = None" "m' = ma" using res by (auto simp: save_result_def)
      moreover obtain i where "i < length ?xs" "sameAccount (cacc_id ?src) (cacc_label ?src) (cacc_id (?xs ! i)) (cacc_label (?xs ! i))"
          "ys = ?xs[i := (?xs ! i)\<lparr>cacc_auth := cacc_auth ?src, cacc_last_limited_at := cacc_last_limited_at ?src\<rparr>]"
        using update_copilot_account_Some [OF Some] by blast
      ultimately show ?thesis using apply_both_ok [OF ap [unfolded Inr]] unfolding Let_def by (auto intro!: exI [of _ i])
    qed
  qed
qed

end
