(* ===== verification/Availability.thy ===== *)
theory Availability
  imports Prefixes
begin

text \<open>
  The availability view of \<open>internal/availability/availability.go\<close>: an immutable snapshot
  built from per-provider views, and the evaluation of one provider/model target for one
  capability. A Go \<open>map[K]struct{}\<close> is a set here, a missing map entry reads as Go's zero
  value. The reference specification \<open>view_routable\<close> says, on the views a snapshot
  was built from, when a target may be dispatched.
\<close>

section \<open>Reasons\<close>

type_synonym reason = string
type_synonym cooldown_reason = string

definition ReasonRoutable :: reason where "ReasonRoutable = ''routable''"
definition ReasonProviderNotRegistered :: reason where "ReasonProviderNotRegistered = ''provider_not_registered''"
definition ReasonTargetDisabled :: reason where "ReasonTargetDisabled = ''target_disabled''"
definition ReasonProviderNotReady :: reason where "ReasonProviderNotReady = ''provider_not_ready''"
definition ReasonCapabilityUnsupported :: reason where "ReasonCapabilityUnsupported = ''capability_unsupported''"
definition ReasonModelDisallowed :: reason where "ReasonModelDisallowed = ''model_disallowed''"
definition ReasonModelNotInCatalog :: reason where "ReasonModelNotInCatalog = ''model_not_in_catalog''"
definition ReasonCatalogStale :: reason where "ReasonCatalogStale = ''catalog_stale''"
definition ReasonCooldown :: reason where "ReasonCooldown = ''cooldown''"
definition ReasonAlreadyAttempted :: reason where "ReasonAlreadyAttempted = ''already_attempted''"

lemmas reason_defs = ReasonRoutable_def ReasonProviderNotRegistered_def ReasonTargetDisabled_def
  ReasonProviderNotReady_def ReasonCapabilityUnsupported_def ReasonModelDisallowed_def
  ReasonModelNotInCatalog_def ReasonCatalogStale_def ReasonCooldown_def ReasonAlreadyAttempted_def

definition CooldownRateLimited :: cooldown_reason where "CooldownRateLimited = ''rate_limited''"
definition CooldownEntitlementDenied :: cooldown_reason where "CooldownEntitlementDenied = ''entitlement_denied''"
definition CooldownAuthRequired :: cooldown_reason where "CooldownAuthRequired = ''auth_required''"
definition CooldownTransientFailure :: cooldown_reason where "CooldownTransientFailure = ''transient_failure''"
definition CooldownTimeout :: cooldown_reason where "CooldownTimeout = ''timeout''"
definition CooldownQuotaExhausted :: cooldown_reason where "CooldownQuotaExhausted = ''quota_exhausted''"

lemmas cooldown_reason_defs = CooldownRateLimited_def CooldownEntitlementDenied_def CooldownAuthRequired_def
  CooldownTransientFailure_def CooldownTimeout_def CooldownQuotaExhausted_def

section \<open>Data\<close>

record cooldown =
  cd_model :: string
  cd_capability :: capability
  cd_until :: gotime
  cd_reason :: cooldown_reason

definition zero_cooldown :: cooldown where
  "zero_cooldown = \<lparr>cd_model = '''', cd_capability = '''', cd_until = zero_time, cd_reason = ''''\<rparr>"

record provider_view =
  pw_id :: provider_id
  pw_disabled :: bool
  pw_ready :: bool
  pw_capabilities :: "capability list"
  pw_allowed_models :: "string list"
  pw_catalog_present :: bool
  pw_catalog_stale :: bool
  pw_catalog_fetched_at :: gotime
  pw_catalog_models :: "string list"
  pw_cooldowns :: "cooldown list"

record provider_entry =
  pe_disabled :: bool
  pe_ready :: bool
  pe_capabilities :: "capability set"
  pe_allowed :: "string set"
  pe_has_allowlist :: bool
  pe_catalog_present :: bool
  pe_catalog_stale :: bool
  pe_catalog_fetched_at :: gotime
  pe_models :: "string set"
  pe_cooldowns :: "(string, cooldown) gomap"

record availability_snapshot =
  sn_generation :: nat
  sn_built_at :: gotime
  sn_providers :: "(provider_id, provider_entry) gomap"

record target_result =
  tr_routable :: bool
  tr_reason :: reason
  tr_generation :: nat
  tr_catalog_fetched_at :: gotime
  tr_catalog_stale :: bool
  tr_cooldown_until :: gotime
  tr_cooldown_reason :: cooldown_reason

definition zero_target_result :: target_result where
  "zero_target_result = \<lparr>tr_routable = False, tr_reason = '''', tr_generation = 0,
     tr_catalog_fetched_at = zero_time, tr_catalog_stale = False, tr_cooldown_until = zero_time,
     tr_cooldown_reason = ''''\<rparr>"

section \<open>Operations\<close>

definition normalizeModel :: "string \<Rightarrow> string" where
  "normalizeModel model = to_lower (trim_space model)"

definition cooldownKey :: "string \<Rightarrow> capability \<Rightarrow> string" where
  "cooldownKey model cap = cap @ nul @ normalizeModel model"

text \<open>The loop over the cooldowns of one view: an expired one is not taken over.\<close>

fun add_cooldowns :: "gotime \<Rightarrow> cooldown list \<Rightarrow> (string, cooldown) gomap \<Rightarrow> (string, cooldown) gomap" where
  "add_cooldowns built [] m = m"
| "add_cooldowns built (c # cs) m =
     add_cooldowns built cs
       (if cd_until c > built
        then (let c' = c\<lparr>cd_model := normalizeModel (cd_model c)\<rparr>
              in AList.update (cooldownKey (cd_model c') (cd_capability c')) c' m)
        else m)"

definition provider_entry_of :: "gotime \<Rightarrow> provider_view \<Rightarrow> provider_entry" where
  "provider_entry_of built v =
     \<lparr>pe_disabled = pw_disabled v, pe_ready = pw_ready v,
      pe_capabilities = set (pw_capabilities v),
      pe_allowed = set (map normalizeModel (pw_allowed_models v)),
      pe_has_allowlist = (pw_allowed_models v \<noteq> []),
      pe_catalog_present = pw_catalog_present v, pe_catalog_stale = pw_catalog_stale v,
      pe_catalog_fetched_at = pw_catalog_fetched_at v,
      pe_models = set (map normalizeModel (pw_catalog_models v)),
      pe_cooldowns = add_cooldowns built (pw_cooldowns v) []\<rparr>"

definition NewSnapshot :: "nat \<Rightarrow> gotime \<Rightarrow> provider_view list \<Rightarrow> availability_snapshot" where
  "NewSnapshot generation built views =
     \<lparr>sn_generation = generation, sn_built_at = built,
      sn_providers = fold (\<lambda>v m. AList.update (pw_id v) (provider_entry_of built v) m) views []\<rparr>"

definition Snapshot_Generation :: "availability_snapshot option \<Rightarrow> nat" where
  "Snapshot_Generation s = (case s of None \<Rightarrow> 0 | Some s \<Rightarrow> sn_generation s)"

definition entry_cooldown :: "provider_entry \<Rightarrow> string \<Rightarrow> capability \<Rightarrow> gotime \<Rightarrow> cooldown" where
  "entry_cooldown e model cap now =
     (let c = (case map_of (pe_cooldowns e) (cooldownKey (normalizeModel model) cap) of
                 None \<Rightarrow> zero_cooldown | Some c \<Rightarrow> c)
      in if \<not> cd_until c > now then zero_cooldown else c)"

definition supportsCapability :: "provider_entry \<Rightarrow> capability \<Rightarrow> bool" where
  "supportsCapability e cap \<longleftrightarrow> cap \<in> pe_capabilities e"

definition isAllowed :: "provider_entry \<Rightarrow> string \<Rightarrow> bool" where
  "isAllowed e model \<longleftrightarrow> normalizeModel model \<in> pe_allowed e"

definition hasModel :: "provider_entry \<Rightarrow> string \<Rightarrow> bool" where
  "hasModel e model \<longleftrightarrow> normalizeModel model \<in> pe_models e"

definition Evaluate :: "availability_snapshot option \<Rightarrow> provider_id \<Rightarrow> string \<Rightarrow> capability \<Rightarrow> target_result" where
  "Evaluate snap pid model cap =
     (case snap of None \<Rightarrow> zero_target_result\<lparr>tr_reason := ReasonProviderNotRegistered\<rparr>
      | Some s \<Rightarrow>
        (let r = zero_target_result\<lparr>tr_generation := sn_generation s\<rparr> in
         case map_of (sn_providers s) pid of
           None \<Rightarrow> r\<lparr>tr_reason := ReasonProviderNotRegistered\<rparr>
         | Some e \<Rightarrow>
           (let r = r\<lparr>tr_catalog_fetched_at := pe_catalog_fetched_at e, tr_catalog_stale := pe_catalog_stale e\<rparr>;
                c = entry_cooldown e model cap (sn_built_at s)
            in if pe_disabled e then r\<lparr>tr_reason := ReasonTargetDisabled\<rparr>
               else if \<not> pe_ready e then r\<lparr>tr_reason := ReasonProviderNotReady\<rparr>
               else if \<not> supportsCapability e cap then r\<lparr>tr_reason := ReasonCapabilityUnsupported\<rparr>
               else if cd_until c > sn_built_at s
               then r\<lparr>tr_reason := ReasonCooldown, tr_cooldown_until := cd_until c, tr_cooldown_reason := cd_reason c\<rparr>
               else if pe_has_allowlist e \<and> \<not> isAllowed e model then r\<lparr>tr_reason := ReasonModelDisallowed\<rparr>
               else if \<not> pe_catalog_present e \<or> \<not> hasModel e model then r\<lparr>tr_reason := ReasonModelNotInCatalog\<rparr>
               else r\<lparr>tr_routable := True, tr_reason := ReasonRoutable\<rparr>)))"

definition ProviderIDs :: "availability_snapshot option \<Rightarrow> provider_id list" where
  "ProviderIDs snap = (case snap of None \<Rightarrow> [] | Some s \<Rightarrow> sort (keys_of (sn_providers s)))"

section \<open>Specification on the views\<close>

definition view_cooling :: "gotime \<Rightarrow> provider_view \<Rightarrow> string \<Rightarrow> capability \<Rightarrow> bool" where
  "view_cooling built v model cap \<longleftrightarrow>
     (\<exists>c \<in> set (pw_cooldowns v). cd_until c > built \<and> cd_capability c = cap
        \<and> normalizeModel (cd_model c) = normalizeModel model)"

definition view_routable :: "gotime \<Rightarrow> provider_view \<Rightarrow> string \<Rightarrow> capability \<Rightarrow> bool" where
  "view_routable built v model cap \<longleftrightarrow>
     \<not> pw_disabled v \<and> pw_ready v \<and> cap \<in> set (pw_capabilities v)
     \<and> \<not> view_cooling built v model cap
     \<and> (pw_allowed_models v = [] \<or> normalizeModel model \<in> normalizeModel ` set (pw_allowed_models v))
     \<and> pw_catalog_present v \<and> normalizeModel model \<in> normalizeModel ` set (pw_catalog_models v)"

text \<open>The diagnostic code: the first failing condition, in the documented order.\<close>

definition view_reason :: "gotime \<Rightarrow> provider_view \<Rightarrow> string \<Rightarrow> capability \<Rightarrow> reason" where
  "view_reason built v model cap =
     (if pw_disabled v then ReasonTargetDisabled
      else if \<not> pw_ready v then ReasonProviderNotReady
      else if cap \<notin> set (pw_capabilities v) then ReasonCapabilityUnsupported
      else if view_cooling built v model cap then ReasonCooldown
      else if pw_allowed_models v \<noteq> [] \<and> normalizeModel model \<notin> normalizeModel ` set (pw_allowed_models v)
      then ReasonModelDisallowed
      else if \<not> pw_catalog_present v \<or> normalizeModel model \<notin> normalizeModel ` set (pw_catalog_models v)
      then ReasonModelNotInCatalog
      else ReasonRoutable)"

section \<open>Facts\<close>

lemma normalizeModel_idem [simp]: "normalizeModel (normalizeModel m) = normalizeModel m"
  by (simp add: normalizeModel_def trim_space_to_lower)

lemma cooldownKey_normalize [simp]: "cooldownKey (normalizeModel m) cap = cooldownKey m cap"
  by (simp add: cooldownKey_def)

lemma cooldownKey_inject:
  assumes "CHR 0x00 \<notin> set cap" and "CHR 0x00 \<notin> set cap'"
  shows "cooldownKey m cap = cooldownKey m' cap' \<longleftrightarrow> cap = cap' \<and> normalizeModel m = normalizeModel m'"
  unfolding cooldownKey_def using nul_split [OF assms] by blast

lemma add_cooldowns_map_of:
  "map_of (add_cooldowns built cs m) k =
     (case find (\<lambda>c. cd_until c > built \<and> cooldownKey (cd_model c) (cd_capability c) = k) (rev cs) of
        Some c \<Rightarrow> Some (c\<lparr>cd_model := normalizeModel (cd_model c)\<rparr>) | None \<Rightarrow> map_of m k)"
  by (induction built cs m rule: add_cooldowns.induct)
    (auto simp: find_append Let_def split: option.splits)

text \<open>The cooldown the snapshot finds is active exactly when the view lists an active one
  under the same key, that is for the same model, up to case and white space, and the same
  capability.\<close>

lemma entry_cooldown_key:
  assumes "0 \<le> built"
  shows "cd_until (entry_cooldown (provider_entry_of built v) model cap built) > built \<longleftrightarrow>
    (\<exists>c \<in> set (pw_cooldowns v). cd_until c > built \<and> cooldownKey (cd_model c) (cd_capability c) = cooldownKey model cap)"
    (is "_ \<longleftrightarrow> (\<exists>c \<in> _. ?P c)")
proof -
  have map: "map_of (pe_cooldowns (provider_entry_of built v)) (cooldownKey model cap) =
      map_option (\<lambda>c. c\<lparr>cd_model := normalizeModel (cd_model c)\<rparr>) (find ?P (rev (pw_cooldowns v)))"
    by (simp add: provider_entry_of_def add_cooldowns_map_of split: option.split)
  show ?thesis
  proof (cases "find ?P (rev (pw_cooldowns v))")
    case None
    then have "\<not> (\<exists>c \<in> set (pw_cooldowns v). ?P c)" by (auto simp: find_None_iff)
    with None assms show ?thesis
      by (simp add: entry_cooldown_def Let_def map zero_cooldown_def zero_time_def)
  next
    case (Some c)
    from find_Some_in [OF Some] have c: "c \<in> set (pw_cooldowns v)" "?P c" by simp_all
    then have "\<exists>c \<in> set (pw_cooldowns v). ?P c" by blast
    with Some c show ?thesis by (simp add: entry_cooldown_def Let_def map)
  qed
qed

lemma entry_cooldown_active:
  assumes "0 \<le> built" and "CHR 0x00 \<notin> set cap"
    and "\<forall>c \<in> set (pw_cooldowns v). CHR 0x00 \<notin> set (cd_capability c)"
  shows "cd_until (entry_cooldown (provider_entry_of built v) model cap built) > built
    \<longleftrightarrow> view_cooling built v model cap"
  unfolding entry_cooldown_key [OF assms(1)] view_cooling_def using cooldownKey_inject assms(2,3) by blast

lemma NewSnapshot_providers:
  "map_of (sn_providers (NewSnapshot g built views)) pid =
     map_option (provider_entry_of built) (find (\<lambda>v. pw_id v = pid) (rev views))"
proof -
  have "map_of (fold (\<lambda>v m. AList.update (pw_id v) (provider_entry_of built v) m) vs m0) pid =
     (case find (\<lambda>v. pw_id v = pid) (rev vs) of Some v \<Rightarrow> Some (provider_entry_of built v) | None \<Rightarrow> map_of m0 pid)"
    for vs m0
    by (induction vs arbitrary: m0) (auto simp: find_append split: option.splits)
  then show ?thesis by (simp add: NewSnapshot_def split: option.split)
qed

lemma Evaluate_absent:
  "pid \<notin> pw_id ` set views \<Longrightarrow>
     \<not> tr_routable (Evaluate (Some (NewSnapshot g built views)) pid model cap)
     \<and> tr_reason (Evaluate (Some (NewSnapshot g built views)) pid model cap) = ReasonProviderNotRegistered"
  by (auto simp: Evaluate_def NewSnapshot_providers Let_def zero_target_result_def find_None_iff
      split: option.splits dest!: find_Some_in)

text \<open>What a routable answer guarantees about the view of the provider, whatever its cooldowns.\<close>

lemma Evaluate_routable_view:
  assumes "tr_routable (Evaluate (Some (NewSnapshot g built views)) pid model cap)"
  shows "\<exists>v \<in> set views. pw_id v = pid \<and> pw_ready v \<and> cap \<in> set (pw_capabilities v)
    \<and> \<not> cd_until (entry_cooldown (provider_entry_of built v) model cap built) > built"
proof -
  obtain v where v: "find (\<lambda>v. pw_id v = pid) (rev views) = Some v"
    using assms by (cases "find (\<lambda>v. pw_id v = pid) (rev views)")
      (auto simp: Evaluate_def NewSnapshot_providers Let_def zero_target_result_def)
  have built: "sn_built_at (NewSnapshot g built views) = built" by (simp add: NewSnapshot_def)
  have sel: "pe_ready (provider_entry_of built v) = pw_ready v"
    "pe_capabilities (provider_entry_of built v) = set (pw_capabilities v)"
    by (simp_all add: provider_entry_of_def)
  from assms have "pw_ready v" "cap \<in> set (pw_capabilities v)"
    "\<not> cd_until (entry_cooldown (provider_entry_of built v) model cap built) > built"
    by (simp_all add: Evaluate_def NewSnapshot_providers Let_def zero_target_result_def supportsCapability_def v built sel
        split: if_splits)
  with find_Some_in [OF v] show ?thesis by auto
qed

lemma Evaluate_routable_iff: "tr_routable (Evaluate s pid m cap) \<longleftrightarrow> tr_reason (Evaluate s pid m cap) = ReasonRoutable"
  by (simp add: Evaluate_def Let_def zero_target_result_def reason_defs split: option.split)

lemma view_routable_reason: "view_routable built v m cap \<longleftrightarrow> view_reason built v m cap = ReasonRoutable"
  by (auto simp: view_routable_def view_reason_def reason_defs)

lemma Evaluate_reason:
  assumes "0 \<le> built" and "CHR 0x00 \<notin> set cap"
    and "\<forall>c \<in> set (pw_cooldowns v). CHR 0x00 \<notin> set (cd_capability c)"
    and "distinct (map pw_id views)" and "v \<in> set views"
  shows "tr_reason (Evaluate (Some (NewSnapshot g built views)) (pw_id v) model cap) = view_reason built v model cap"
proof -
  have e: "map_of (sn_providers (NewSnapshot g built views)) (pw_id v) = Some (provider_entry_of built v)"
    using find_rev_distinct [OF assms(4,5)] by (simp add: NewSnapshot_providers)
  have built: "sn_built_at (NewSnapshot g built views) = built" by (simp add: NewSnapshot_def)
  have cool: "cd_until (entry_cooldown (provider_entry_of built v) model cap built) > built \<longleftrightarrow> view_cooling built v model cap"
    using assms(1-3) by (rule entry_cooldown_active)
  show ?thesis
    by (simp add: Evaluate_def e built cool Let_def view_reason_def)
      (auto simp add: provider_entry_of_def supportsCapability_def isAllowed_def hasModel_def)
qed

text \<open>C7: on a snapshot built from views with one view per provider, a target is routable
  exactly when its provider's view is enabled, ready, supports the capability, has no
  active cooldown for that model and capability, allows the model and lists it in its
  catalog (case and surrounding blanks ignored); the reason reported otherwise is the
  first of these conditions that fails; a stale catalog never decides; and a provider
  without a view is reported as not registered.\<close>

theorem evaluate_correct:
  assumes "0 \<le> built" and "CHR 0x00 \<notin> set cap"
    and "\<forall>v \<in> set views. \<forall>c \<in> set (pw_cooldowns v). CHR 0x00 \<notin> set (cd_capability c)"
    and "distinct (map pw_id views)"
  shows "(\<forall>v \<in> set views.
      let r = Evaluate (Some (NewSnapshot g built views)) (pw_id v) model cap in
      (tr_routable r \<longleftrightarrow> view_routable built v model cap)
      \<and> tr_reason r = view_reason built v model cap
      \<and> view_reason built (v\<lparr>pw_catalog_stale := stale\<rparr>) model cap = view_reason built v model cap)
    \<and> (\<forall>pid. pid \<notin> pw_id ` set views \<longrightarrow>
        tr_reason (Evaluate (Some (NewSnapshot g built views)) pid model cap) = ReasonProviderNotRegistered)"
proof (intro conjI ballI allI impI)
  fix v assume v: "v \<in> set views"
  then have "tr_reason (Evaluate (Some (NewSnapshot g built views)) (pw_id v) model cap) = view_reason built v model cap"
    using assms(3) by (intro Evaluate_reason [OF assms(1,2) _ assms(4)]) blast
  moreover have "view_reason built (v\<lparr>pw_catalog_stale := stale\<rparr>) model cap = view_reason built v model cap"
    by (cases v) (simp only: view_reason_def view_cooling_def provider_view.select_convs provider_view.update_convs)
  ultimately show "let r = Evaluate (Some (NewSnapshot g built views)) (pw_id v) model cap in
      (tr_routable r \<longleftrightarrow> view_routable built v model cap)
      \<and> tr_reason r = view_reason built v model cap
      \<and> view_reason built (v\<lparr>pw_catalog_stale := stale\<rparr>) model cap = view_reason built v model cap"
    by (simp only: Let_def Evaluate_routable_iff view_routable_reason simp_thms)
qed (simp add: Evaluate_absent)

definition sample_view :: provider_view where
  "sample_view = \<lparr>pw_id = Codex, pw_disabled = False, pw_ready = True, pw_capabilities = [CapabilityChat],
     pw_allowed_models = [], pw_catalog_present = True, pw_catalog_stale = True, pw_catalog_fetched_at = 5,
     pw_catalog_models = [''GPT-5'', ''o3''],
     pw_cooldowns = [\<lparr>cd_model = ''o3'', cd_capability = CapabilityChat, cd_until = 100, cd_reason = CooldownTimeout\<rparr>]\<rparr>"

theorem evaluate_correct_witness:
  "tr_routable (Evaluate (Some (NewSnapshot 7 50 [sample_view])) Codex '' gpt-5 '' CapabilityChat)
   \<and> tr_reason (Evaluate (Some (NewSnapshot 7 50 [sample_view])) Codex ''O3'' CapabilityChat) = ReasonCooldown
   \<and> tr_reason (Evaluate (Some (NewSnapshot 7 50 [sample_view])) Kilo ''o3'' CapabilityChat) = ReasonProviderNotRegistered"
proof -
  have "view_routable 50 sample_view '' gpt-5 '' CapabilityChat" by code_simp
  moreover have "view_reason 50 sample_view ''O3'' CapabilityChat = ReasonCooldown" by code_simp
  moreover have "pw_id sample_view = Codex" "Kilo \<noteq> Codex" by (simp_all add: sample_view_def provider_id_defs)
  moreover have nul: "CHR 0x00 \<notin> set CapabilityChat" by (simp add: CapabilityChat_def)
  moreover have "\<forall>v \<in> set [sample_view]. \<forall>c \<in> set (pw_cooldowns v). CHR 0x00 \<notin> set (cd_capability c)"
    by (simp add: sample_view_def CapabilityChat_def)
  moreover note evaluate_correct [of 50 CapabilityChat "[sample_view]" 7 "'' gpt-5 ''" False]
    evaluate_correct [of 50 CapabilityChat "[sample_view]" 7 "''O3''" False]
    evaluate_correct [of 50 CapabilityChat "[sample_view]" 7 "''o3''" False]
  ultimately show ?thesis by (simp add: Let_def)
qed

end
