(* ===== verification/Selector.thy ===== *)
theory Selector
  imports Availability Config_Schema
begin

text \<open>
  Umbrella-model selection: \<open>internal/routing/selector.go\<close>, the order of the targets
  (\<open>reorderVMTargets\<close> of \<open>router.go\<close>) and the registry of preferred targets
  (\<open>preferred_target.go\<close>). The specification is the first target in order that is active;
  \<open>failover_source\<close> is the interface the sequential failover of the proxy relies on.
\<close>

section \<open>Selection\<close>

record skipped_target =
  sk_target :: string
  sk_index :: nat
  sk_reason :: reason
  sk_cooldown_until :: int

record selection_decision =
  sd_virtual_model :: string
  sd_strategy :: string
  sd_selected_target :: string
  sd_selected_index :: nat
  sd_generation :: nat
  sd_catalog_fetched_at :: int
  sd_catalog_stale :: bool
  sd_capability :: capability
  sd_skipped :: "skipped_target list"

record no_active_target =
  na_virtual_model :: string
  na_skipped :: "skipped_target list"

definition unix_or_zero :: "gotime \<Rightarrow> int" where
  "unix_or_zero t = (if t = zero_time then 0 else unix_seconds t)"

fun select_loop ::
    "string \<Rightarrow> capability \<Rightarrow> availability_snapshot option \<Rightarrow> string set \<Rightarrow> nat \<Rightarrow> skipped_target list \<Rightarrow>
     string list \<Rightarrow> no_active_target + selection_decision" where
  "select_loop vid cap snap exclude index skipped [] = Inl \<lparr>na_virtual_model = vid, na_skipped = skipped\<rparr>"
| "select_loop vid cap snap exclude index skipped (target # rest) =
     (let trimmed = trim_space target in
      if trimmed \<in> exclude
      then select_loop vid cap snap exclude (Suc index)
        (skipped @ [\<lparr>sk_target = target, sk_index = index, sk_reason = ReasonAlreadyAttempted, sk_cooldown_until = 0\<rparr>]) rest
      else case StripModelPrefix trimmed of (bare, pid, hasPrefix) \<Rightarrow>
        if \<not> hasPrefix
        then select_loop vid cap snap exclude (Suc index)
          (skipped @ [\<lparr>sk_target = target, sk_index = index, sk_reason = ReasonProviderNotRegistered, sk_cooldown_until = 0\<rparr>]) rest
        else (let result = Evaluate snap pid bare cap in
          if tr_routable result
          then Inr \<lparr>sd_virtual_model = vid, sd_strategy = VirtualModelStrategyPriority,
                    sd_selected_target = target, sd_selected_index = index,
                    sd_generation = tr_generation result,
                    sd_catalog_fetched_at = unix_or_zero (tr_catalog_fetched_at result),
                    sd_catalog_stale = tr_catalog_stale result, sd_capability = cap, sd_skipped = skipped\<rparr>
          else select_loop vid cap snap exclude (Suc index)
            (skipped @ [\<lparr>sk_target = target, sk_index = index, sk_reason = tr_reason result,
               sk_cooldown_until = unix_or_zero (tr_cooldown_until result)\<rparr>]) rest))"

definition SelectPriorityTargetExcluding ::
    "string \<Rightarrow> virtual_model \<Rightarrow> capability \<Rightarrow> availability_snapshot option \<Rightarrow> string set \<Rightarrow>
     no_active_target + selection_decision" where
  "SelectPriorityTargetExcluding vid vm cap snap exclude = select_loop vid cap snap exclude 0 [] (items (vm_targets vm))"

definition SelectPriorityTarget ::
    "string \<Rightarrow> virtual_model \<Rightarrow> capability \<Rightarrow> availability_snapshot option \<Rightarrow> no_active_target + selection_decision" where
  "SelectPriorityTarget vid vm cap snap = SelectPriorityTargetExcluding vid vm cap snap {}"

section \<open>Order of the targets\<close>

definition reorderVMTargets :: "virtual_model \<Rightarrow> string \<Rightarrow> virtual_model" where
  "reorderVMTargets vm preferred =
     (let ts = items (vm_targets vm) in
      if \<not> list_ex (\<lambda>t. trim_space t = trim_space preferred) ts then vm
      else \<lparr>vm_strategy = vm_strategy vm,
            vm_targets = Some (preferred # filter (\<lambda>t. trim_space t \<noteq> trim_space preferred) ts)\<rparr>)"

section \<open>Preferred targets\<close>

type_synonym preferred_registry = "(string \<times> capability, string) gomap"

definition Preferred_Set :: "preferred_registry \<Rightarrow> string \<Rightarrow> capability \<Rightarrow> string \<Rightarrow> preferred_registry" where
  "Preferred_Set r vid cap target =
     (if vid = '''' \<or> cap = '''' \<or> target = '''' then r else AList.update (vid, cap) target r)"

definition Preferred_Get :: "preferred_registry \<Rightarrow> string \<Rightarrow> capability \<Rightarrow> string option" where
  "Preferred_Get r vid cap = map_of r (vid, cap)"

section \<open>Specification\<close>

definition target_reason :: "availability_snapshot option \<Rightarrow> string set \<Rightarrow> capability \<Rightarrow> string \<Rightarrow> reason" where
  "target_reason snap exclude cap target =
     (if trim_space target \<in> exclude then ReasonAlreadyAttempted
      else case StripModelPrefix (trim_space target) of (bare, pid, hasPrefix) \<Rightarrow>
        if hasPrefix then tr_reason (Evaluate snap pid bare cap) else ReasonProviderNotRegistered)"

definition target_active :: "availability_snapshot option \<Rightarrow> string set \<Rightarrow> capability \<Rightarrow> string \<Rightarrow> bool" where
  "target_active snap exclude cap target \<longleftrightarrow> target_reason snap exclude cap target = ReasonRoutable"

definition first_active :: "availability_snapshot option \<Rightarrow> string set \<Rightarrow> capability \<Rightarrow> string list \<Rightarrow> string option" where
  "first_active snap exclude cap ts = find (target_active snap exclude cap) ts"

section \<open>Facts\<close>

lemma target_active_iff:
  "target_active snap exclude cap t \<longleftrightarrow> trim_space t \<notin> exclude
     \<and> (case StripModelPrefix (trim_space t) of (bare, pid, ok) \<Rightarrow> ok \<and> tr_routable (Evaluate snap pid bare cap))"
  by (simp add: target_active_def target_reason_def Evaluate_routable_iff reason_defs split: prod.split)

lemma select_loop_correct:
  "case select_loop vid cap snap exclude index skipped ts of
     Inl e \<Rightarrow> (\<forall>t \<in> set ts. \<not> target_active snap exclude cap t)
        \<and> map (\<lambda>s. (sk_target s, sk_reason s)) (na_skipped e) =
           map (\<lambda>s. (sk_target s, sk_reason s)) skipped @ map (\<lambda>t. (t, target_reason snap exclude cap t)) ts
        \<and> map sk_index (na_skipped e) = map sk_index skipped @ [index..<index + length ts]
        \<and> na_virtual_model e = vid
   | Inr d \<Rightarrow> \<exists>pre t post. ts = pre @ t # post \<and> target_active snap exclude cap t
        \<and> (\<forall>u \<in> set pre. \<not> target_active snap exclude cap u)
        \<and> sd_selected_target d = t \<and> sd_selected_index d = index + length pre
        \<and> sd_virtual_model d = vid \<and> sd_capability d = cap
        \<and> map (\<lambda>s. (sk_target s, sk_reason s)) (sd_skipped d) =
           map (\<lambda>s. (sk_target s, sk_reason s)) skipped @ map (\<lambda>t. (t, target_reason snap exclude cap t)) pre
        \<and> map sk_index (sd_skipped d) = map sk_index skipped @ [index..<index + length pre]"
proof (induction ts arbitrary: index skipped)
  case (Cons target rest)
  obtain bare pid ok where strip: "StripModelPrefix (trim_space target) = (bare, pid, ok)" by (metis prod_cases3)
  show ?case
  proof (cases "target_active snap exclude cap target")
    case True
    then have "trim_space target \<notin> exclude" "ok" "tr_routable (Evaluate snap pid bare cap)"
      by (simp_all add: target_active_iff strip)
    then have "\<exists>d. select_loop vid cap snap exclude index skipped (target # rest) = Inr d
        \<and> sd_selected_target d = target \<and> sd_selected_index d = index \<and> sd_virtual_model d = vid
        \<and> sd_capability d = cap \<and> sd_skipped d = skipped"
      by (simp add: strip Let_def)
    with True show ?thesis by (auto intro!: exI [of _ "[]"])
  next
    case False
    then have "\<exists>s. select_loop vid cap snap exclude index skipped (target # rest) =
          select_loop vid cap snap exclude (Suc index) (skipped @ [s]) rest
        \<and> sk_target s = target \<and> sk_reason s = target_reason snap exclude cap target \<and> sk_index s = index"
      by (auto simp: target_active_iff strip target_reason_def Let_def)
    then obtain s where eq: "select_loop vid cap snap exclude index skipped (target # rest) =
          select_loop vid cap snap exclude (Suc index) (skipped @ [s]) rest"
      and s: "sk_target s = target" "sk_reason s = target_reason snap exclude cap target" "sk_index s = index" by blast
    show ?thesis
    proof (cases "select_loop vid cap snap exclude (Suc index) (skipped @ [s]) rest")
      case (Inl e)
      with Cons.IH [where index = "Suc index" and skipped = "skipped @ [s]"] s False show ?thesis
        unfolding eq by (simp add: upt_conv_Cons del: upt_Suc)
    next
      case (Inr d)
      with Cons.IH [where index = "Suc index" and skipped = "skipped @ [s]"] obtain pre t post where
        *: "rest = pre @ t # post" "target_active snap exclude cap t"
        "\<forall>u \<in> set pre. \<not> target_active snap exclude cap u"
        "sd_selected_target d = t" "sd_selected_index d = Suc index + length pre"
        "sd_virtual_model d = vid" "sd_capability d = cap"
        "map (\<lambda>s. (sk_target s, sk_reason s)) (sd_skipped d) =
           map (\<lambda>s. (sk_target s, sk_reason s)) (skipped @ [s]) @ map (\<lambda>t. (t, target_reason snap exclude cap t)) pre"
        "map sk_index (sd_skipped d) = map sk_index (skipped @ [s]) @ [Suc index..<Suc index + length pre]"
        by auto
      have "target # rest = (target # pre) @ t # post" using *(1) by simp
      with * s False show ?thesis
        unfolding eq Inr by (simp del: upt_Suc) (rule exI [of _ "target # pre"], simp add: upt_conv_Cons del: upt_Suc)
    qed
  qed
qed simp

lemmas select_loop_start = select_loop_correct [where index = 0 and skipped = "[]"]

lemma select_Some:
  assumes "SelectPriorityTargetExcluding vid vm cap snap exclude = Inr d"
  shows "sd_selected_target d \<in> set (items (vm_targets vm))"
    and "target_active snap exclude cap (sd_selected_target d)"
    and "sd_capability d = cap" and "sd_virtual_model d = vid"
  using assms select_loop_start [where vid = vid and cap = cap and snap = snap and exclude = exclude and ts = "items (vm_targets vm)"]
  by (auto simp: SelectPriorityTargetExcluding_def)

lemma find_split: "(\<forall>u \<in> set pre. \<not> P u) \<Longrightarrow> P t \<Longrightarrow> find P (pre @ t # post) = Some t"
  by (induction pre) auto

lemma select_first_active:
  "map_option sd_selected_target (case SelectPriorityTargetExcluding vid vm cap snap exclude of Inl _ \<Rightarrow> None | Inr d \<Rightarrow> Some d)
     = first_active snap exclude cap (items (vm_targets vm))"
proof (cases "SelectPriorityTargetExcluding vid vm cap snap exclude")
  case (Inl e)
  with select_loop_start [where vid = vid and cap = cap and snap = snap and exclude = exclude and ts = "items (vm_targets vm)"] show ?thesis
    by (simp add: SelectPriorityTargetExcluding_def first_active_def find_None_iff find_None_iff2)
next
  case (Inr d)
  with select_loop_start [where vid = vid and cap = cap and snap = snap and exclude = exclude and ts = "items (vm_targets vm)"] show ?thesis
    by (auto simp: SelectPriorityTargetExcluding_def first_active_def find_split)
qed

text \<open>C6: umbrella selection returns the first target in the configured order that was not
  tried yet and is routable, together with its position and, for every earlier target, the
  reason why it was passed over; it fails exactly when no target is active, and then the
  error lists every target with its reason, in order.\<close>

theorem selection_correct:
  "case SelectPriorityTargetExcluding vid vm cap snap exclude of
     Inl e \<Rightarrow> first_active snap exclude cap (items (vm_targets vm)) = None
        \<and> map (\<lambda>s. (sk_target s, sk_reason s)) (na_skipped e) =
            map (\<lambda>t. (t, target_reason snap exclude cap t)) (items (vm_targets vm))
   | Inr d \<Rightarrow> first_active snap exclude cap (items (vm_targets vm)) = Some (sd_selected_target d)
        \<and> sd_selected_index d < length (items (vm_targets vm))
        \<and> items (vm_targets vm) ! sd_selected_index d = sd_selected_target d
        \<and> map (\<lambda>s. (sk_target s, sk_reason s)) (sd_skipped d) =
            map (\<lambda>t. (t, target_reason snap exclude cap t)) (take (sd_selected_index d) (items (vm_targets vm)))
        \<and> map sk_index (sd_skipped d) = [0..<sd_selected_index d]"
proof (cases "SelectPriorityTargetExcluding vid vm cap snap exclude")
  case (Inl e)
  with select_first_active [of vid vm cap snap exclude]
    select_loop_start [where vid = vid and cap = cap and snap = snap and exclude = exclude and ts = "items (vm_targets vm)"] show ?thesis
    by (simp add: SelectPriorityTargetExcluding_def)
next
  case (Inr d)
  with select_first_active [of vid vm cap snap exclude]
    select_loop_start [where vid = vid and cap = cap and snap = snap and exclude = exclude and ts = "items (vm_targets vm)"] show ?thesis
    by (auto simp: SelectPriorityTargetExcluding_def)
qed

text \<open>Moving the preferred target to the front keeps the set of targets, up to blanks.\<close>

lemma reorder_trimmed_set: "trim_space ` set (items (vm_targets (reorderVMTargets vm p))) = trim_space ` set (items (vm_targets vm))"
proof (cases "\<exists>t \<in> set (items (vm_targets vm)). trim_space t = trim_space p")
  case True
  then show ?thesis by (auto simp: reorderVMTargets_def Let_def list_ex_iff image_iff) (metis (no_types))+
qed (simp add: reorderVMTargets_def Let_def list_ex_iff)

lemma reorder_distinct:
  "distinct (map trim_space (items (vm_targets vm))) \<Longrightarrow> distinct (map trim_space (items (vm_targets (reorderVMTargets vm p))))"
  by (auto simp: reorderVMTargets_def Let_def distinct_map_filter)

lemma reorder_strategy [simp]: "vm_strategy (reorderVMTargets vm p) = vm_strategy vm"
  by (simp add: reorderVMTargets_def Let_def)

lemma target_active_trim: "trim_space t = trim_space u \<Longrightarrow> target_active snap exclude cap t = target_active snap exclude cap u"
  by (simp add: target_active_iff)

text \<open>So a preference changes which active target is chosen, never whether one is.\<close>

lemma reorder_active_iff:
  "first_active snap exclude cap (items (vm_targets (reorderVMTargets vm p))) = None \<longleftrightarrow>
     first_active snap exclude cap (items (vm_targets vm)) = None"
proof -
  have "(\<exists>t \<in> set ts. target_active snap exclude cap t) \<longleftrightarrow> (\<exists>s \<in> trim_space ` set ts. target_active snap exclude cap s)" for ts
    using target_active_trim trim_space_idem by (metis (no_types, opaque_lifting) image_iff)
  then have "(\<exists>t \<in> set (items (vm_targets (reorderVMTargets vm p))). target_active snap exclude cap t)
      \<longleftrightarrow> (\<exists>t \<in> set (items (vm_targets vm)). target_active snap exclude cap t)"
    by (simp only: reorder_trimmed_set)
  then show ?thesis by (auto simp: first_active_def find_None_iff find_None_iff2)
qed

section \<open>Sequential failover\<close>

text \<open>
  What the failover loop needs of whoever proposes the next target, in whatever state the
  providers are at that moment: the target is one of finitely many, identified by a key,
  and its key is not among the keys already tried.
\<close>

locale failover_source =
  fixes proposes :: "'k set \<Rightarrow> 't \<Rightarrow> bool"
    and key :: "'t \<Rightarrow> 'k"
    and universe :: "'k set"
  assumes finite_universe: "finite universe"
    and proposes_fresh: "proposes tried t \<Longrightarrow> key t \<in> universe \<and> key t \<notin> tried"
begin

text \<open>A run of attempts, each proposed with the keys of the earlier ones excluded.\<close>

inductive attempts :: "'k set \<Rightarrow> 't list \<Rightarrow> bool" where
  attempts_stop: "attempts tried []"
| attempts_next: "proposes tried t \<Longrightarrow> attempts (insert (key t) tried) ts \<Longrightarrow> attempts tried (t # ts)"

lemma attempts_fresh:
  assumes "attempts tried ts"
  shows "distinct (map key ts) \<and> key ` set ts \<subseteq> universe \<and> key ` set ts \<inter> tried = {}"
  using assms by (induction rule: attempts.induct) (auto dest: proposes_fresh)

lemma attempts_bounded:
  assumes "attempts tried ts"
  shows "length ts \<le> card universe"
proof -
  from attempts_fresh [OF assms] have d: "distinct (map key ts)" and s: "key ` set ts \<subseteq> universe" by simp_all
  from d have "card (key ` set ts) = length ts" using distinct_card by fastforce
  with s card_mono [OF finite_universe s] show ?thesis by simp
qed

end

interpretation selector: failover_source
  "\<lambda>exclude t. \<exists>snap d. SelectPriorityTargetExcluding vid vm cap snap exclude = Inr d \<and> t = sd_selected_target d"
  trim_space "trim_space ` set (items (vm_targets vm))"
  by unfold_locales (auto dest: select_Some simp: target_active_iff)

end
