(* ===== verification/Routing_Metrics.thy ===== *)
theory Routing_Metrics
  imports Selector "HOL-Library.Product_Lexorder"
begin

text \<open>
  The bounded umbrella-routing counters of \<open>internal/routing/metrics.go\<close>: each is a map
  from a composite key to a count, exported as a sorted list of labelled samples.
\<close>

record metrics =
  mt_selections :: "(string, nat) gomap"
  mt_no_active_target :: "(string, nat) gomap"
  mt_skipped :: "(string, nat) gomap"
  mt_stale_catalog :: "(string, nat) gomap"
  mt_cooldown_entries :: "(string, nat) gomap"
  mt_cooldown_exits :: "(string, nat) gomap"

definition NewMetrics :: metrics where
  "NewMetrics = \<lparr>mt_selections = [], mt_no_active_target = [], mt_skipped = [], mt_stale_catalog = [],
     mt_cooldown_entries = [], mt_cooldown_exits = []\<rparr>"

text \<open>\<open>m[key]++\<close>, a missing count being 0.\<close>

definition count_of :: "(string, nat) gomap \<Rightarrow> string \<Rightarrow> nat" where
  "count_of m k = (case map_of m k of None \<Rightarrow> 0 | Some n \<Rightarrow> n)"

definition bump :: "string \<Rightarrow> (string, nat) gomap \<Rightarrow> (string, nat) gomap" where
  "bump k m = AList.update k (Suc (count_of m k)) m"

definition metricKey :: "string \<Rightarrow> string \<Rightarrow> string" where
  "metricKey a b = a @ nul @ b"

definition RecordCooldownEntry :: "metrics \<Rightarrow> string \<Rightarrow> cooldown_reason \<Rightarrow> metrics" where
  "RecordCooldownEntry m target reason =
     (if target = '''' \<or> reason = '''' then m
      else m\<lparr>mt_cooldown_entries := bump (metricKey target reason) (mt_cooldown_entries m)\<rparr>)"

definition RecordCooldownExit :: "metrics \<Rightarrow> string \<Rightarrow> string \<Rightarrow> metrics" where
  "RecordCooldownExit m target reason =
     (if target = '''' \<or> reason = '''' then m
      else m\<lparr>mt_cooldown_exits := bump (metricKey target reason) (mt_cooldown_exits m)\<rparr>)"

text \<open>The loop over the skipped targets both recording functions have.\<close>

definition record_skips :: "string \<Rightarrow> skipped_target list \<Rightarrow> metrics \<Rightarrow> metrics" where
  "record_skips vid skips m =
     fold (\<lambda>s m. let m = m\<lparr>mt_skipped := bump (metricKey (sk_target s) (sk_reason s)) (mt_skipped m)\<rparr>
                 in if sk_reason s = ReasonCatalogStale
                    then m\<lparr>mt_stale_catalog := bump vid (mt_stale_catalog m)\<rparr> else m) skips m"

definition RecordSelection :: "metrics \<Rightarrow> selection_decision \<Rightarrow> metrics" where
  "RecordSelection m d =
     (let m = m\<lparr>mt_selections := bump (metricKey (sd_virtual_model d) (sd_selected_target d)) (mt_selections m)\<rparr>;
          m = (if sd_catalog_stale d then m\<lparr>mt_stale_catalog := bump (sd_virtual_model d) (mt_stale_catalog m)\<rparr> else m)
      in record_skips (sd_virtual_model d) (sd_skipped d) m)"

definition RecordNoActiveTarget :: "metrics \<Rightarrow> no_active_target \<Rightarrow> metrics" where
  "RecordNoActiveTarget m e =
     record_skips (na_virtual_model e) (na_skipped e)
       (m\<lparr>mt_no_active_target := bump (na_virtual_model e) (mt_no_active_target m)\<rparr>)"

section \<open>Export\<close>

record counter =
  ct_name :: string
  ct_labels :: "(string, string) gomap"
  ct_value :: nat

definition splitKey :: "string \<Rightarrow> string \<times> string" where
  "splitKey key = (takeWhile (\<lambda>c. c \<noteq> CHR 0x00) key, drop 1 (dropWhile (\<lambda>c. c \<noteq> CHR 0x00) key))"

definition labelString :: "(string, string) gomap \<Rightarrow> string" where
  "labelString labels = concat (map (\<lambda>k. k @ ''='' @ (case map_of labels k of Some v \<Rightarrow> v | None \<Rightarrow> '''') @ '';'') (sort (keys_of labels)))"

definition pair_counters :: "string \<Rightarrow> string \<Rightarrow> string \<Rightarrow> (string, nat) gomap \<Rightarrow> counter list" where
  "pair_counters name l1 l2 m =
     map (\<lambda>(key, v). let (a, b) = splitKey key in \<lparr>ct_name = name, ct_labels = [(l1, a), (l2, b)], ct_value = v\<rparr>) m"

definition single_counters :: "string \<Rightarrow> string \<Rightarrow> (string, nat) gomap \<Rightarrow> counter list" where
  "single_counters name l m = map (\<lambda>(key, v). \<lparr>ct_name = name, ct_labels = [(l, key)], ct_value = v\<rparr>) m"

definition Metrics_Snapshot :: "metrics \<Rightarrow> counter list" where
  "Metrics_Snapshot m =
     sort_key (\<lambda>c. (ct_name c, labelString (ct_labels c)))
       (pair_counters ''umbrella_selections_total'' ''virtual_model'' ''target'' (mt_selections m)
        @ single_counters ''umbrella_no_active_target_total'' ''virtual_model'' (mt_no_active_target m)
        @ pair_counters ''umbrella_skipped_targets_total'' ''target'' ''reason'' (mt_skipped m)
        @ single_counters ''umbrella_stale_catalog_total'' ''virtual_model'' (mt_stale_catalog m)
        @ pair_counters ''umbrella_cooldown_entries_total'' ''target'' ''reason'' (mt_cooldown_entries m)
        @ pair_counters ''umbrella_cooldown_exits_total'' ''target'' ''reason'' (mt_cooldown_exits m))"

section \<open>Facts\<close>

lemma count_bump [simp]: "count_of (bump k m) k' = (if k' = k then Suc (count_of m k) else count_of m k')"
  by (simp add: bump_def count_of_def)

lemma splitKey_metricKey: "CHR 0x00 \<notin> set a \<Longrightarrow> splitKey (metricKey a b) = (a, b)"
  by (induction a) (auto simp: splitKey_def metricKey_def nul_def)

lemma record_skips_count:
  "count_of (mt_skipped (record_skips vid skips m)) k =
     count_of (mt_skipped m) k + length (filter (\<lambda>s. metricKey (sk_target s) (sk_reason s) = k) skips)"
  by (induction skips arbitrary: m) (auto simp: record_skips_def Let_def)

lemma record_skips_frame [simp]:
  "mt_selections (record_skips vid skips m) = mt_selections m"
  "mt_no_active_target (record_skips vid skips m) = mt_no_active_target m"
  "mt_cooldown_entries (record_skips vid skips m) = mt_cooldown_entries m"
  "mt_cooldown_exits (record_skips vid skips m) = mt_cooldown_exits m"
  by (induction skips arbitrary: m) (auto simp: record_skips_def Let_def)

lemma record_skips_stale:
  "\<forall>s \<in> set skips. sk_reason s \<noteq> ReasonCatalogStale \<Longrightarrow> mt_stale_catalog (record_skips vid skips m) = mt_stale_catalog m"
  by (induction skips arbitrary: m) (auto simp: record_skips_def Let_def)

lemma Evaluate_not_stale: "tr_reason (Evaluate snap pid m cap) \<noteq> ReasonCatalogStale"
  by (simp add: Evaluate_def Let_def zero_target_result_def reason_defs split: option.split)

lemma target_reason_not_stale: "target_reason snap exclude cap t \<noteq> ReasonCatalogStale"
  using Evaluate_not_stale by (simp add: target_reason_def reason_defs split: prod.split)

text \<open>The counters follow the decisions of the selector. A successful umbrella selection
  adds one to the count of its model and target and, for each skipped target, one to the
  count of that target and reason, and marks a stale catalog once exactly when the selected
  target's catalog was stale; a failed one adds one to the model's no-active-target count.\<close>

theorem selection_metrics_correct:
  "case SelectPriorityTargetExcluding vid vm cap snap exclude of
     Inr d \<Rightarrow>
       (let m' = RecordSelection m d; k = metricKey vid (sd_selected_target d) in
        count_of (mt_selections m') k = Suc (count_of (mt_selections m) k)
        \<and> mt_no_active_target m' = mt_no_active_target m
        \<and> count_of (mt_stale_catalog m') vid = count_of (mt_stale_catalog m) vid + (if sd_catalog_stale d then 1 else 0)
        \<and> (\<forall>k. count_of (mt_skipped m') k = count_of (mt_skipped m) k
               + length (filter (\<lambda>t. metricKey t (target_reason snap exclude cap t) = k)
                   (take (sd_selected_index d) (items (vm_targets vm))))))
   | Inl e \<Rightarrow>
       (let m' = RecordNoActiveTarget m e in
        count_of (mt_no_active_target m') vid = Suc (count_of (mt_no_active_target m) vid)
        \<and> mt_selections m' = mt_selections m
        \<and> (\<forall>k. count_of (mt_skipped m') k = count_of (mt_skipped m) k
               + length (filter (\<lambda>t. metricKey t (target_reason snap exclude cap t) = k) (items (vm_targets vm)))))"
proof -
  let ?ts = "items (vm_targets vm)" and ?R = "target_reason snap exclude cap"
  have len: "length (filter (\<lambda>s. metricKey (sk_target s) (sk_reason s) = k) skips)
      = length (filter (\<lambda>t. metricKey t (?R t) = k) ts)"
    if "map (\<lambda>s. (sk_target s, sk_reason s)) skips = map (\<lambda>t. (t, ?R t)) ts" for skips ts k
  proof -
    have "length (filter (\<lambda>s. metricKey (sk_target s) (sk_reason s) = k) skips)
        = length (filter (\<lambda>(t, r). metricKey t r = k) (map (\<lambda>s. (sk_target s, sk_reason s)) skips))"
      by (simp add: filter_map comp_def)
    also have "\<dots> = length (filter (\<lambda>t. metricKey t (?R t) = k) ts)"
      unfolding that by (simp add: filter_map comp_def)
    finally show ?thesis .
  qed
  have stale: "\<forall>s \<in> set skips. sk_reason s \<noteq> ReasonCatalogStale"
    if "map (\<lambda>s. (sk_target s, sk_reason s)) skips = map (\<lambda>t. (t, ?R t)) ts" for skips ts
  proof
    fix s assume "s \<in> set skips"
    then have "(sk_target s, sk_reason s) \<in> set (map (\<lambda>t. (t, ?R t)) ts)" unfolding that [symmetric] by auto
    then have "sk_reason s = ?R (sk_target s)" by auto
    then show "sk_reason s \<noteq> ReasonCatalogStale" by (simp add: target_reason_not_stale)
  qed
  show ?thesis
  proof (cases "SelectPriorityTargetExcluding vid vm cap snap exclude")
    case (Inl e)
    with select_loop_start [where vid = vid and cap = cap and snap = snap and exclude = exclude and ts = ?ts]
    have sk: "map (\<lambda>s. (sk_target s, sk_reason s)) (na_skipped e) = map (\<lambda>t. (t, ?R t)) ?ts"
      and vid: "na_virtual_model e = vid"
      by (simp_all add: SelectPriorityTargetExcluding_def)
    with Inl show ?thesis by (simp add: RecordNoActiveTarget_def record_skips_count len [OF sk])
  next
    case (Inr d)
    with select_loop_start [where vid = vid and cap = cap and snap = snap and exclude = exclude and ts = ?ts]
    have sk: "map (\<lambda>s. (sk_target s, sk_reason s)) (sd_skipped d) = map (\<lambda>t. (t, ?R t)) (take (sd_selected_index d) ?ts)"
      and vid: "sd_virtual_model d = vid"
      by (auto simp: SelectPriorityTargetExcluding_def)
    show ?thesis
      using len [OF sk] record_skips_stale [OF stale [OF sk]]
      by (simp add: Inr RecordSelection_def Let_def record_skips_count vid)
  qed
qed

end
