(* ===== verification/Cooldown.thy ===== *)
theory Cooldown
  imports Availability "HOL-Library.Product_Lexorder" "HOL-Library.Multiset"
begin

text \<open>
  The cooldown registry of \<open>internal/routing/cooldown.go\<close>: feedback on failing targets,
  kept in memory under a mutex and mirrored to a JSON state file. The clock is an
  argument of each operation and so is the outcome of the file operations; the state
  file is represented by what decoding it yields, JSON being the identity on the
  persisted records (\<open>encoding/json\<close> writes times with nanoseconds).
\<close>

section \<open>Data\<close>

definition baseCooldown :: duration where "baseCooldown = 15 * second"
definition maxCooldown :: duration where "maxCooldown = 5 * minute"
definition quotaCooldown :: duration where "quotaCooldown = 24 * hour"
definition cooldownStateVersion :: int where "cooldownStateVersion = 1"
definition maxPersistedCooldowns :: nat where "maxPersistedCooldowns = 4096"

lemmas cooldown_const_defs = baseCooldown_def maxCooldown_def quotaCooldown_def duration_defs

record cooldown_entry =
  ce_provider :: provider_id
  ce_model :: string
  ce_capability :: capability
  ce_until :: gotime
  ce_reason :: cooldown_reason
  ce_failures :: int

record persisted_cooldown =
  pc_provider :: string
  pc_model :: string
  pc_capability :: string
  pc_until :: gotime
  pc_reason :: cooldown_reason
  pc_failures :: int

datatype cooldown_file =
    NoFile
  | Unreadable
  | Blank
  | InvalidJSON
  | CooldownState int "persisted_cooldown list"

record cooldown_registry =
  cr_entries :: "(string, cooldown_entry) gomap"
  cr_state_path :: string
  cr_disk :: cooldown_file

definition NewCooldownRegistry :: cooldown_registry where
  "NewCooldownRegistry = \<lparr>cr_entries = [], cr_state_path = '''', cr_disk = NoFile\<rparr>"

section \<open>Opening\<close>

definition validCooldownReason :: "cooldown_reason \<Rightarrow> bool" where
  "validCooldownReason r \<longleftrightarrow>
     r \<in> {CooldownRateLimited, CooldownEntitlementDenied, CooldownAuthRequired,
          CooldownTransientFailure, CooldownTimeout, CooldownQuotaExhausted}"

definition cooldownEntryKey :: "provider_id \<Rightarrow> string \<Rightarrow> capability \<Rightarrow> string" where
  "cooldownEntryKey p model cap = p @ nul @ cap @ nul @ to_lower (trim_space model)"

definition decodePersistedCooldown :: "persisted_cooldown \<Rightarrow> gotime \<Rightarrow> cooldown_entry option" where
  "decodePersistedCooldown item now =
     (let p = trim_space (pc_provider item); model = trim_space (pc_model item);
          cap = trim_space (pc_capability item)
      in if p = '''' \<or> model = '''' \<or> cap = '''' \<or> \<not> validCooldownReason (pc_reason item) then None
         else if pc_until item = zero_time \<or> \<not> pc_until item > now then None
         else Some \<lparr>ce_provider = p, ce_model = model, ce_capability = cap, ce_until = pc_until item,
                    ce_reason = pc_reason item,
                    ce_failures = (if pc_failures item < 1 then 1 else pc_failures item)\<rparr>)"

fun load_cooldowns ::
    "gotime \<Rightarrow> nat \<Rightarrow> persisted_cooldown list \<Rightarrow> (string, cooldown_entry) gomap \<Rightarrow> (string, cooldown_entry) gomap" where
  "load_cooldowns now index [] m = m"
| "load_cooldowns now index (item # rest) m =
     (if index \<ge> maxPersistedCooldowns then m
      else load_cooldowns now (Suc index) rest
        (case decodePersistedCooldown item now of
           None \<Rightarrow> m
         | Some e \<Rightarrow> AList.update (cooldownEntryKey (ce_provider e) (ce_model e) (ce_capability e)) e m))"

datatype cooldown_open_error = CreateStateDirectory | ReadCooldownState

definition OpenCooldownRegistry ::
    "bool \<Rightarrow> cooldown_file \<Rightarrow> gotime \<Rightarrow> string \<Rightarrow> cooldown_open_error + cooldown_registry" where
  "OpenCooldownRegistry mkdir_ok disk now path =
     (let registry = NewCooldownRegistry; path = trim_space path in
      if path = '''' then Inr registry
      else if \<not> mkdir_ok then Inl CreateStateDirectory
      else (let registry = registry\<lparr>cr_state_path := path, cr_disk := disk\<rparr> in
        case disk of
          NoFile \<Rightarrow> Inr registry
        | Unreadable \<Rightarrow> Inl ReadCooldownState
        | Blank \<Rightarrow> Inr registry
        | InvalidJSON \<Rightarrow> Inr registry
        | CooldownState version entries \<Rightarrow>
            if version \<noteq> cooldownStateVersion then Inr registry
            else Inr (registry\<lparr>cr_entries := load_cooldowns now 0 entries []\<rparr>)))"

section \<open>Persisting\<close>

text \<open>Where \<open>persistLocked\<close> may stop; only the rename replaces the state file.\<close>

datatype persist_outcome =
    CreateTempFails | SecureTempFails | WriteTempFails | SyncTempFails | CloseTempFails
  | RenameFails | SecureStateFails | PersistDone

definition persisted_of :: "cooldown_entry \<Rightarrow> persisted_cooldown" where
  "persisted_of e = \<lparr>pc_provider = ce_provider e, pc_model = ce_model e, pc_capability = ce_capability e,
     pc_until = ce_until e, pc_reason = ce_reason e, pc_failures = ce_failures e\<rparr>"

definition persisted_order :: "persisted_cooldown \<Rightarrow> string \<times> string \<times> string" where
  "persisted_order p = (pc_provider p, pc_capability p, to_lower (pc_model p))"

definition persisted_entries :: "cooldown_registry \<Rightarrow> persisted_cooldown list" where
  "persisted_entries r = sort_key persisted_order (map (persisted_of \<circ> snd) (cr_entries r))"

definition persistLocked :: "persist_outcome \<Rightarrow> cooldown_registry \<Rightarrow> cooldown_registry" where
  "persistLocked io r =
     (if io \<in> {SecureStateFails, PersistDone}
      then r\<lparr>cr_disk := CooldownState cooldownStateVersion (persisted_entries r)\<rparr> else r)"

definition persistOrLogLocked :: "persist_outcome \<Rightarrow> cooldown_registry \<Rightarrow> cooldown_registry" where
  "persistOrLogLocked io r = (if cr_state_path r = '''' then r else persistLocked io r)"

section \<open>Feedback\<close>

text \<open>The doubling loop of \<open>cooldownDuration\<close>.\<close>

function backoff :: "int \<Rightarrow> int \<Rightarrow> duration \<Rightarrow> duration" where
  "backoff step failures d =
     (if step < failures \<and> d < maxCooldown then backoff (step + 1) failures (d * 2) else d)"
  by pat_completeness auto
termination
  by (relation "measure (\<lambda>(step, failures, d). nat (failures - step))") auto

declare backoff.simps [simp del]

definition cooldownDuration :: "cooldown_reason \<Rightarrow> int \<Rightarrow> duration \<Rightarrow> duration" where
  "cooldownDuration reason failures hint =
     (if reason = CooldownQuotaExhausted
      then (if hint > quotaCooldown then hint else quotaCooldown)
      else
        (let d = backoff 1 failures baseCooldown;
             d = (if d > maxCooldown then maxCooldown else d)
         in if hint > 0
            then (let h = (if hint > maxCooldown then maxCooldown else hint) in if h > d then h else d)
            else d))"

definition Record ::
    "persist_outcome \<Rightarrow> gotime \<Rightarrow> cooldown_registry \<Rightarrow> provider_id \<Rightarrow> string \<Rightarrow> capability \<Rightarrow>
     cooldown_reason \<Rightarrow> duration \<Rightarrow> gotime \<times> bool \<times> cooldown_registry" where
  "Record io now r p model cap reason hint =
     (if p = '''' \<or> trim_space model = '''' \<or> cap = '''' \<or> \<not> validCooldownReason reason
      then (zero_time, False, r)
      else
        (let key = cooldownEntryKey p model cap;
             existing = map_of (cr_entries r) key;
             failures = (case existing of
                 Some e \<Rightarrow> if ce_until e > now then wrap64 (ce_failures e + 1) else 1
               | None \<Rightarrow> 1);
             until = now + cooldownDuration reason failures hint;
             until = (case existing of Some e \<Rightarrow> if ce_until e > until then ce_until e else until | None \<Rightarrow> until);
             entry = \<lparr>ce_provider = p, ce_model = trim_space model, ce_capability = cap, ce_until = until,
                      ce_reason = reason, ce_failures = failures\<rparr>
         in (until, True, persistOrLogLocked io (r\<lparr>cr_entries := AList.update key entry (cr_entries r)\<rparr>))))"

definition Clear ::
    "persist_outcome \<Rightarrow> cooldown_registry \<Rightarrow> provider_id \<Rightarrow> string \<Rightarrow> capability \<Rightarrow> bool \<times> cooldown_registry" where
  "Clear io r p model cap =
     (let key = cooldownEntryKey p model cap in
      if \<not> has_key (cr_entries r) key then (False, r)
      else (True, persistOrLogLocked io (r\<lparr>cr_entries := AList.delete key (cr_entries r)\<rparr>)))"

definition cooldown_of :: "cooldown_entry \<Rightarrow> cooldown" where
  "cooldown_of e = \<lparr>cd_model = ce_model e, cd_capability = ce_capability e, cd_until = ce_until e, cd_reason = ce_reason e\<rparr>"

text \<open>The loop of \<open>Cooldowns\<close> over the entries: active, expired, remaining, changed.\<close>

fun scan_cooldowns ::
    "provider_id \<Rightarrow> gotime \<Rightarrow> (string, cooldown_entry) gomap \<Rightarrow>
     cooldown list \<times> cooldown list \<times> (string, cooldown_entry) gomap" where
  "scan_cooldowns p now [] = ([], [], [])"
| "scan_cooldowns p now ((key, e) # rest) =
     (let (active, expired, kept) = scan_cooldowns p now rest in
      if ce_provider e \<noteq> p then (active, expired, (key, e) # kept)
      else if ce_until e > now then (cooldown_of e # active, expired, (key, e) # kept)
      else (active, cooldown_of e # expired, kept))"

definition Cooldowns ::
    "persist_outcome \<Rightarrow> gotime \<Rightarrow> cooldown_registry \<Rightarrow> provider_id \<Rightarrow> cooldown list \<times> cooldown list \<times> cooldown_registry" where
  "Cooldowns io now r p =
     (let (active, expired, kept) = scan_cooldowns p now (cr_entries r) in
      (active, expired,
       if expired = [] then r else persistOrLogLocked io (r\<lparr>cr_entries := kept\<rparr>)))"

section \<open>Classifying outcomes\<close>

text \<open>An \<open>error\<close> value is known here by what \<open>errors.Is\<close> says of it.\<close>

record go_error =
  err_canceled :: bool
  err_deadline :: bool

definition cooldownReason :: "int \<Rightarrow> go_error option \<Rightarrow> cooldown_reason option" where
  "cooldownReason status err =
     (if (case err of Some e \<Rightarrow> err_canceled e | None \<Rightarrow> False) then None
      else if (case err of Some e \<Rightarrow> err_deadline e | None \<Rightarrow> False) \<or> status = 408 \<or> status = 504
      then Some CooldownTimeout
      else if status = 429 then Some CooldownRateLimited
      else if status = 401 then Some CooldownAuthRequired
      else if status = 402 \<or> status = 403 then Some CooldownEntitlementDenied
      else if status \<ge> 500 \<or> err \<noteq> None then Some CooldownTransientFailure
      else None)"

definition cooldownPolicy :: "int \<Rightarrow> go_error option \<Rightarrow> duration \<Rightarrow> (cooldown_reason \<times> duration) option" where
  "cooldownPolicy status err retryAfter =
     (case cooldownReason status err of
        None \<Rightarrow> None
      | Some reason \<Rightarrow>
        if status = 402 \<or> status = 403 then Some (CooldownQuotaExhausted, retryAfter)
        else if status = 429 then
          (if retryAfter > 0 \<and> retryAfter \<le> maxCooldown then Some (CooldownRateLimited, retryAfter)
           else Some (CooldownQuotaExhausted, retryAfter))
        else Some (reason, retryAfter))"

section \<open>Durations\<close>

lemma backoff_min:
  "0 < d \<Longrightarrow> min (backoff step failures d) maxCooldown = min (d * 2 ^ nat (failures - step)) maxCooldown"
proof (induction step failures d rule: backoff.induct)
  case (1 step failures d)
  show ?case
  proof (cases "step < failures \<and> d < maxCooldown")
    case True
    then have "nat (failures - step) = Suc (nat (failures - (step + 1)))" by linarith
    with True "1.IH" "1.prems" show ?thesis by (subst backoff.simps) (simp add: algebra_simps)
  next
    case False
    then have eq: "backoff step failures d = d" by (subst backoff.simps) (rule if_not_P)
    show ?thesis
    proof (cases "step < failures")
      case True
      then have "maxCooldown \<le> d" using False by simp
      moreover have "d \<le> d * 2 ^ nat (failures - step)" using "1.prems" by simp
      ultimately show ?thesis unfolding eq by (simp only: min_absorb2 order.trans [of maxCooldown d])
    qed (simp add: eq)
  qed
qed

lemma cooldownDuration_eq:
  "cooldownDuration reason failures hint =
     (if reason = CooldownQuotaExhausted then max quotaCooldown hint
      else max (min (baseCooldown * 2 ^ nat (failures - 1)) maxCooldown) (min hint maxCooldown))"
proof -
  have pos: "0 < min (baseCooldown * 2 ^ nat (failures - 1)) maxCooldown"
    by (simp add: cooldown_const_defs)
  have "(let d = backoff 1 failures baseCooldown in if d > maxCooldown then maxCooldown else d)
      = min (backoff 1 failures baseCooldown) maxCooldown" by (simp add: Let_def min_def)
  also have "\<dots> = min (baseCooldown * 2 ^ nat (failures - 1)) maxCooldown"
    by (rule backoff_min) (simp add: cooldown_const_defs)
  finally show ?thesis using pos by (auto simp: cooldownDuration_def Let_def max_def min_def)
qed

lemma cooldownDuration_bounds:
  "baseCooldown \<le> cooldownDuration reason failures hint"
  "reason \<noteq> CooldownQuotaExhausted \<Longrightarrow> cooldownDuration reason failures hint \<le> maxCooldown"
  "quotaCooldown \<le> cooldownDuration CooldownQuotaExhausted failures hint"
proof -
  have "baseCooldown \<le> baseCooldown * 2 ^ n" for n :: nat by (simp add: cooldown_const_defs)
  moreover have "baseCooldown \<le> maxCooldown" "baseCooldown \<le> quotaCooldown" by (simp_all add: cooldown_const_defs)
  ultimately show "baseCooldown \<le> cooldownDuration reason failures hint"
    by (auto simp: cooldownDuration_eq le_max_iff_disj)
qed (auto simp: cooldownDuration_eq)

text \<open>The cooldown of a target is 24 hours, or the longer hint, when its quota is
  exhausted; otherwise 15 seconds doubled for every further consecutive failure, raised
  to a positive hint, and in every case between 15 seconds and 5 minutes.\<close>

theorem cooldown_duration_correct:
  "cooldownDuration reason failures hint =
     (if reason = CooldownQuotaExhausted then max (24 * hour) hint
      else max (min (15 * second * 2 ^ nat (failures - 1)) (5 * minute)) (min hint (5 * minute)))
   \<and> 15 * second \<le> cooldownDuration reason failures hint
   \<and> (reason = CooldownQuotaExhausted \<or> cooldownDuration reason failures hint \<le> 5 * minute)"
proof (intro conjI)
  show "15 * second \<le> cooldownDuration reason failures hint"
    using cooldownDuration_bounds(1) by (simp only: baseCooldown_def)
  show "reason = CooldownQuotaExhausted \<or> cooldownDuration reason failures hint \<le> 5 * minute"
    using cooldownDuration_bounds(2) by (auto simp only: maxCooldown_def)
qed (simp only: cooldownDuration_eq baseCooldown_def maxCooldown_def quotaCooldown_def)

section \<open>Invariant\<close>

text \<open>Entries are stored under the key of their own fields, trimmed and with a known reason.\<close>

definition cooldown_entry_ok :: "string \<Rightarrow> cooldown_entry \<Rightarrow> bool" where
  "cooldown_entry_ok key e \<longleftrightarrow>
     key = cooldownEntryKey (ce_provider e) (ce_model e) (ce_capability e)
     \<and> ce_provider e \<noteq> '''' \<and> trim_space (ce_provider e) = ce_provider e
     \<and> ce_model e \<noteq> '''' \<and> trim_space (ce_model e) = ce_model e
     \<and> ce_capability e \<noteq> '''' \<and> trim_space (ce_capability e) = ce_capability e
     \<and> validCooldownReason (ce_reason e)"

definition cooldown_inv :: "cooldown_registry \<Rightarrow> bool" where
  "cooldown_inv r \<longleftrightarrow> wf_map (cr_entries r) \<and> (\<forall>(key, e) \<in> set (cr_entries r). cooldown_entry_ok key e)"

lemma persistOrLogLocked_entries [simp]: "cr_entries (persistOrLogLocked io r) = cr_entries r"
  by (simp add: persistOrLogLocked_def persistLocked_def)

lemma persistOrLogLocked_path [simp]: "cr_state_path (persistOrLogLocked io r) = cr_state_path r"
  by (simp add: persistOrLogLocked_def persistLocked_def)

lemma cooldown_inv_persist [simp]: "cooldown_inv (persistOrLogLocked io r) = cooldown_inv r"
  by (simp add: cooldown_inv_def)

lemma cooldownEntryKey_trim [simp]: "cooldownEntryKey p (trim_space m) cap = cooldownEntryKey p m cap"
  by (simp add: cooldownEntryKey_def)

lemma cooldown_inv_iff:
  "cooldown_inv r \<longleftrightarrow> wf_map (cr_entries r) \<and> (\<forall>k e. map_of (cr_entries r) k = Some e \<longrightarrow> cooldown_entry_ok k e)"
  by (auto simp: cooldown_inv_def wf_map_Some_iff)

lemma Record_entries:
  assumes "Record io now r p model cap reason hint = (until, True, r')"
  shows "\<exists>e. map_of (cr_entries r') = (map_of (cr_entries r))(cooldownEntryKey p model cap \<mapsto> e)
    \<and> ce_provider e = p \<and> ce_model e = trim_space model \<and> ce_capability e = cap \<and> ce_until e = until \<and> ce_reason e = reason
    \<and> p \<noteq> '''' \<and> trim_space model \<noteq> '''' \<and> cap \<noteq> '''' \<and> validCooldownReason reason"
  using assms by (auto simp: Record_def Let_def fun_eq_iff split: if_splits)

lemma Record_until:
  assumes "Record io now r p model cap reason hint = (until, True, r')"
  shows "now + 15 * second \<le> until"
proof -
  have "15 * second \<le> cooldownDuration reason f hint" for f
    using cooldownDuration_bounds(1) by (simp only: baseCooldown_def)
  then have "now + 15 * second \<le> now + cooldownDuration reason f hint" for f by simp
  moreover from this have "e > now + cooldownDuration reason f hint \<Longrightarrow> now + 15 * second \<le> e" for e f
    by (meson less_le_not_le order.trans)
  ultimately show ?thesis using assms by (auto simp: Record_def Let_def split: if_splits option.splits)
qed

lemma Record_wf: "wf_map (cr_entries r) \<Longrightarrow> wf_map (cr_entries (snd (snd (Record io now r p model cap reason hint))))"
  by (simp add: Record_def Let_def wf_map_update)

lemma Record_entered:
  "fst (snd (Record io now r p model cap reason hint)) \<longleftrightarrow>
     p \<noteq> '''' \<and> trim_space model \<noteq> '''' \<and> cap \<noteq> '''' \<and> validCooldownReason reason"
  by (simp add: Record_def Let_def)

lemma Record_refused: "Record io now r p model cap reason hint = (until, False, r') \<Longrightarrow> r' = r"
  by (auto simp: Record_def Let_def split: if_splits)

lemma cooldown_inv_Record:
  assumes "cooldown_inv r" and "trim_space p = p" and "trim_space cap = cap"
  shows "cooldown_inv (snd (snd (Record io now r p model cap reason hint)))"
proof -
  obtain until entered r' where rec: "Record io now r p model cap reason hint = (until, entered, r')"
    by (metis prod_cases3)
  show ?thesis
  proof (cases entered)
    case True
    with rec have "Record io now r p model cap reason hint = (until, True, r')" by simp
    then obtain e where e: "map_of (cr_entries r') = (map_of (cr_entries r))(cooldownEntryKey p model cap \<mapsto> e)"
      "ce_provider e = p" "ce_model e = trim_space model" "ce_capability e = cap" "ce_reason e = reason"
      "p \<noteq> ''''" "trim_space model \<noteq> ''''" "cap \<noteq> ''''" "validCooldownReason reason"
      by (rule Record_entries [THEN exE]) blast
    moreover have "wf_map (cr_entries r')" using Record_wf [of r] assms(1) rec by (metis cooldown_inv_def snd_conv)
    ultimately show ?thesis
      using assms rec by (auto simp: cooldown_inv_iff cooldown_entry_ok_def)
  next
    case False
    with rec Record_refused assms(1) show ?thesis by fastforce
  qed
qed

lemma cooldown_inv_Clear: "cooldown_inv r \<Longrightarrow> cooldown_inv (snd (Clear io r p model cap))"
  by (auto simp: Clear_def Let_def cooldown_inv_iff wf_map_delete)

lemma scan_cooldowns_eq:
  "scan_cooldowns p now m =
     (map (cooldown_of \<circ> snd) (filter (\<lambda>(k, e). ce_provider e = p \<and> ce_until e > now) m),
      map (cooldown_of \<circ> snd) (filter (\<lambda>(k, e). ce_provider e = p \<and> \<not> ce_until e > now) m),
      filter (\<lambda>(k, e). \<not> (ce_provider e = p \<and> \<not> ce_until e > now)) m)"
  by (induction p now m rule: scan_cooldowns.induct) (auto simp: Let_def)

lemma Cooldowns_entries:
  "cr_entries (snd (snd (Cooldowns io now r p))) =
     filter (\<lambda>(k, e). \<not> (ce_provider e = p \<and> \<not> ce_until e > now)) (cr_entries r)"
  by (auto simp: Cooldowns_def scan_cooldowns_eq Let_def case_prod_unfold filter_empty_conv intro!: filter_True [symmetric])

lemma cooldown_inv_Cooldowns: "cooldown_inv r \<Longrightarrow> cooldown_inv (snd (snd (Cooldowns io now r p)))"
  by (auto simp: cooldown_inv_def Cooldowns_entries wf_map_filter)

section \<open>Reopening\<close>

definition reloaded :: "cooldown_entry \<Rightarrow> cooldown_entry" where
  "reloaded e = e\<lparr>ce_failures := max 1 (ce_failures e)\<rparr>"

lemma decode_persisted:
  assumes "cooldown_entry_ok key e" and "0 \<le> now"
  shows "decodePersistedCooldown (persisted_of e) now = (if ce_until e > now then Some (reloaded e) else None)"
  using assms
  by (cases e) (auto simp: decodePersistedCooldown_def Let_def persisted_of_def cooldown_entry_ok_def
      reloaded_def zero_time_def max_def)

lemma reloaded_sel [simp]:
  "ce_provider (reloaded e) = ce_provider e" "ce_model (reloaded e) = ce_model e"
  "ce_capability (reloaded e) = ce_capability e" "ce_until (reloaded e) = ce_until e"
  by (simp_all add: reloaded_def)

definition entry_key :: "cooldown_entry \<Rightarrow> string" where
  "entry_key e = cooldownEntryKey (ce_provider e) (ce_model e) (ce_capability e)"

lemma load_cooldowns_find:
  assumes "\<forall>e \<in> set es. cooldown_entry_ok (entry_key e) e" and "0 \<le> now"
    and "index + length es \<le> maxPersistedCooldowns"
  shows "map_of (load_cooldowns now index (map persisted_of es) m) k =
    (case find (\<lambda>e. ce_until e > now \<and> entry_key e = k) (rev es) of
       Some e \<Rightarrow> Some (reloaded e) | None \<Rightarrow> map_of m k)"
  using assms
proof (induction es arbitrary: index m)
  case (Cons e es)
  have "decodePersistedCooldown (persisted_of e) now = (if ce_until e > now then Some (reloaded e) else None)"
    using Cons.prems by (intro decode_persisted) auto
  with Cons show ?case by (auto simp: find_append entry_key_def split: option.split)
qed simp

lemma persisted_of_inject [simp]: "persisted_of e = persisted_of e' \<longleftrightarrow> e = e'"
  by (cases e; cases e') (simp add: persisted_of_def)

text \<open>What is written is the entries themselves, in a sorted order.\<close>

lemma persisted_entries_eq:
  "\<exists>es. persisted_entries r = map persisted_of es \<and> mset es = mset (map snd (cr_entries r))"
proof (intro exI conjI)
  let ?es = "sort_key (persisted_order \<circ> persisted_of) (map snd (cr_entries r))"
  have "mset (persisted_entries r) = mset (map persisted_of ?es)"
    by (simp add: persisted_entries_def multiset.map_comp)
  show "mset ?es = mset (map snd (cr_entries r))" by simp
  have "sort_key f (map g xs) = map g (sort_key (f \<circ> g) xs)" for f :: "persisted_cooldown \<Rightarrow> string \<times> string \<times> string" and g and xs :: "cooldown_entry list"
  proof -
    have ins: "insort_key f (g x) (map g ys) = map g (insort_key (f \<circ> g) x ys)" for x ys
      by (induction ys) auto
    show ?thesis by (induction xs) (simp_all add: ins [unfolded comp_def] comp_def)
  qed
  then show "persisted_entries r = map persisted_of ?es"
    by (simp add: persisted_entries_def flip: map_map)
qed

lemma reopen_lookup:
  assumes "cooldown_inv r" and "0 \<le> now" and "length (cr_entries r) \<le> maxPersistedCooldowns"
  shows "map_of (load_cooldowns now 0 (persisted_entries r) []) k =
    (case map_of (cr_entries r) k of
       Some e \<Rightarrow> if ce_until e > now then Some (reloaded e) else None | None \<Rightarrow> None)"
proof -
  obtain es where es: "persisted_entries r = map persisted_of es" "mset es = mset (map snd (cr_entries r))"
    using persisted_entries_eq by blast
  have set: "set es = snd ` set (cr_entries r)" using mset_eq_setD [OF es(2)] by simp
  have len: "length es = length (cr_entries r)" using mset_eq_length [OF es(2)] by simp
  have inv: "wf_map (cr_entries r)" "\<forall>(key, e) \<in> set (cr_entries r). cooldown_entry_ok key e"
    using assms(1) by (simp_all add: cooldown_inv_def)
  have key: "(k, e) \<in> set (cr_entries r) \<longleftrightarrow> e \<in> set es \<and> entry_key e = k" for k e
    using inv(2) by (force simp: set cooldown_entry_ok_def entry_key_def)
  have "\<forall>e \<in> set es. cooldown_entry_ok (entry_key e) e" using inv(2) key by blast
  then have load: "map_of (load_cooldowns now 0 (persisted_entries r) []) k =
      map_option reloaded (find (\<lambda>e. ce_until e > now \<and> entry_key e = k) (rev es))"
    using assms(2,3) len by (simp add: es(1) load_cooldowns_find split: option.split)
  show ?thesis
  proof (cases "find (\<lambda>e. ce_until e > now \<and> entry_key e = k) (rev es)")
    case None
    then have "e \<in> set es \<Longrightarrow> ce_until e > now \<Longrightarrow> entry_key e \<noteq> k" for e
      by (simp add: find_None_iff)
    with key have "map_of (cr_entries r) k = Some e \<Longrightarrow> \<not> ce_until e > now" for e
      by (auto simp: wf_map_Some_iff [OF inv(1)])
    with None load show ?thesis by (simp split: option.split)
  next
    case (Some e)
    from find_Some_in [OF Some] have "map_of (cr_entries r) k = Some e" "ce_until e > now"
      using key by (auto simp: wf_map_Some_iff [OF inv(1)])
    with Some load show ?thesis by simp
  qed
qed

lemma decode_ok:
  "decodePersistedCooldown item now = Some e \<Longrightarrow> cooldown_entry_ok (entry_key e) e \<and> ce_until e > now \<and> 1 \<le> ce_failures e"
  by (auto simp: decodePersistedCooldown_def Let_def cooldown_entry_ok_def entry_key_def split: if_splits)

lemma load_cooldowns_ok:
  assumes "wf_map m" and "\<forall>(key, e) \<in> set m. cooldown_entry_ok key e \<and> ce_until e > now \<and> 1 \<le> ce_failures e"
    and "length m \<le> index" and "index \<le> maxPersistedCooldowns"
  shows "wf_map (load_cooldowns now index items m)
    \<and> (\<forall>(key, e) \<in> set (load_cooldowns now index items m). cooldown_entry_ok key e \<and> ce_until e > now \<and> 1 \<le> ce_failures e)
    \<and> length (load_cooldowns now index items m) \<le> maxPersistedCooldowns"
  using assms
proof (induction now index items m rule: load_cooldowns.induct)
  case (2 now index item rest m)
  show ?case
  proof (cases "index \<ge> maxPersistedCooldowns")
    case True
    with "2.prems" show ?thesis by auto
  next
    case False
    let ?m = "case decodePersistedCooldown item now of None \<Rightarrow> m
      | Some e \<Rightarrow> AList.update (cooldownEntryKey (ce_provider e) (ce_model e) (ce_capability e)) e m"
    have "wf_map ?m" using "2.prems"(1) by (auto split: option.split intro: wf_map_update)
    moreover have "\<forall>(key, e) \<in> set ?m. cooldown_entry_ok key e \<and> ce_until e > now \<and> 1 \<le> ce_failures e"
      using "2.prems"(2) decode_ok
      by (auto split: option.split simp: entry_key_def dest!: set_updateD)
    moreover have "length ?m \<le> Suc index"
      using "2.prems"(3) length_update_le [of _ _ m] by (auto split: option.split intro: order.trans)
    ultimately show ?thesis using False "2.IH" [OF False] by simp
  qed
qed simp

section \<open>Properties\<close>

text \<open>Recording a failure for a valid target stores a cooldown for exactly that
  provider, model and capability, at least 15 seconds from now and never earlier than the
  cooldown already in force; the failure count grows only while the previous cooldown is
  active; every other target keeps its state; and the state file is either untouched or
  replaced as a whole by the new state.\<close>

theorem record_cooldown_correct:
  assumes "Record io now r p model cap reason hint = (until, True, r')"
  shows "let existing = map_of (cr_entries r) (cooldownEntryKey p model cap);
             failures = (case existing of Some e \<Rightarrow> if ce_until e > now then wrap64 (ce_failures e + 1) else 1 | None \<Rightarrow> 1);
             fresh = now + cooldownDuration reason failures hint
         in until = (case existing of Some e \<Rightarrow> max fresh (ce_until e) | None \<Rightarrow> fresh)
            \<and> now + 15 * second \<le> until
            \<and> map_of (cr_entries r') = (map_of (cr_entries r))(cooldownEntryKey p model cap \<mapsto>
                 \<lparr>ce_provider = p, ce_model = trim_space model, ce_capability = cap, ce_until = until,
                  ce_reason = reason, ce_failures = failures\<rparr>)
            \<and> (cr_disk r' = cr_disk r \<or> cr_disk r' = CooldownState cooldownStateVersion (persisted_entries r'))"
proof -
  define K where "K = cooldownEntryKey p model cap"
  define existing where "existing = map_of (cr_entries r) K"
  define failures where "failures = (case existing of Some e \<Rightarrow> if ce_until e > now then wrap64 (ce_failures e + 1) else 1 | None \<Rightarrow> 1)"
  define fresh where "fresh = now + cooldownDuration reason failures hint"
  define entry where "entry = \<lparr>ce_provider = p, ce_model = trim_space model, ce_capability = cap, ce_until = until,
                  ce_reason = reason, ce_failures = failures\<rparr>"
  note defs = K_def existing_def failures_def fresh_def
  have until: "until = (case existing of Some e \<Rightarrow> if ce_until e > fresh then ce_until e else fresh | None \<Rightarrow> fresh)"
    and r': "r' = persistOrLogLocked io (r\<lparr>cr_entries := AList.update K entry (cr_entries r)\<rparr>)"
    using assms unfolding Record_def Let_def entry_def defs by (auto split: if_splits)
  have "until = (case existing of Some e \<Rightarrow> max fresh (ce_until e) | None \<Rightarrow> fresh)"
    unfolding until by (simp add: max_def split: option.split)
  moreover have "now + 15 * second \<le> fresh"
    using cooldownDuration_bounds(1) by (simp only: fresh_def baseCooldown_def add_le_cancel_left)
  then have "now + 15 * second \<le> until" unfolding until by (auto split: option.split)
  moreover have "map_of (cr_entries r') = (map_of (cr_entries r))(K \<mapsto> entry)"
    by (simp add: r' fun_eq_iff)
  moreover have "cr_disk r' = cr_disk r \<or> cr_disk r' = CooldownState cooldownStateVersion (persisted_entries r')"
    by (simp add: r' persistOrLogLocked_def persistLocked_def persisted_entries_def)
  ultimately show ?thesis unfolding Let_def defs entry_def by blast
qed

theorem record_cooldown_correct_witness:
  "let r' = snd (snd (Record PersistDone 100 NewCooldownRegistry Codex '' GPT-5'' CapabilityChat CooldownTimeout 0))
   in map_option ce_until (map_of (cr_entries r') (cooldownEntryKey Codex ''gpt-5'' CapabilityChat)) = Some (100 + 15 * second)"
proof -
  have 1: "Record PersistDone 100 NewCooldownRegistry Codex '' GPT-5'' CapabilityChat CooldownTimeout 0
      = (100 + 15 * second, True, snd (snd (Record PersistDone 100 NewCooldownRegistry Codex '' GPT-5'' CapabilityChat CooldownTimeout 0)))"
    by code_simp
  have 2: "cooldownEntryKey Codex ''gpt-5'' CapabilityChat = cooldownEntryKey Codex '' GPT-5'' CapabilityChat"
    by code_simp
  show ?thesis
    using record_cooldown_correct [OF 1] unfolding 2 by (simp add: Let_def)
qed

text \<open>What the registry wrote is what reopening restores: every cooldown still in force at
  that time comes back under the same key with the same deadline and reason, expired ones
  do not, and nothing else appears.\<close>

theorem reopen_restores_cooldowns:
  assumes "cooldown_inv r" and "0 \<le> now" and "length (cr_entries r) \<le> maxPersistedCooldowns"
    and "trim_space (cr_state_path r) \<noteq> ''''" and "io \<in> {SecureStateFails, PersistDone}"
  shows "\<exists>r'. OpenCooldownRegistry True (cr_disk (persistOrLogLocked io r)) now (cr_state_path r) = Inr r'
    \<and> (\<forall>k. map_of (cr_entries r') k =
          (case map_of (cr_entries r) k of
             Some e \<Rightarrow> if ce_until e > now then Some (e\<lparr>ce_failures := max 1 (ce_failures e)\<rparr>) else None
           | None \<Rightarrow> None))"
proof -
  have "cr_state_path r \<noteq> ''''" using assms(4) by auto
  with assms(4,5) have "OpenCooldownRegistry True (cr_disk (persistOrLogLocked io r)) now (cr_state_path r) =
     Inr (NewCooldownRegistry\<lparr>cr_state_path := trim_space (cr_state_path r),
       cr_disk := CooldownState cooldownStateVersion (persisted_entries r),
       cr_entries := load_cooldowns now 0 (persisted_entries r) []\<rparr>)"
    by (auto simp: OpenCooldownRegistry_def Let_def persistOrLogLocked_def persistLocked_def)
  with reopen_lookup [OF assms(1-3)] show ?thesis by (simp add: reloaded_def split: option.split)
qed

definition sample_registry :: cooldown_registry where
  "sample_registry = snd (snd (Record PersistDone 100 (NewCooldownRegistry\<lparr>cr_state_path := ''/state''\<rparr>)
     Codex ''gpt-5'' CapabilityChat CooldownQuotaExhausted 0))"

theorem reopen_restores_cooldowns_witness:
  "\<exists>r'. OpenCooldownRegistry True (cr_disk (persistOrLogLocked PersistDone sample_registry)) 200 (cr_state_path sample_registry) = Inr r'
     \<and> map_option ce_until (map_of (cr_entries r') (cooldownEntryKey Codex ''gpt-5'' CapabilityChat)) = Some (100 + 24 * hour)"
proof -
  have path: "trim_space (cr_state_path sample_registry) \<noteq> ''''" by code_simp
  have len: "length (cr_entries sample_registry) \<le> maxPersistedCooldowns" by code_simp
  have inv: "cooldown_inv sample_registry"
    unfolding sample_registry_def
    by (rule cooldown_inv_Record) (code_simp, code_simp, code_simp)
  have entry: "map_option (\<lambda>e. (ce_until e, ce_until e > 200))
      (map_of (cr_entries sample_registry) (cooldownEntryKey Codex ''gpt-5'' CapabilityChat)) = Some (100 + 24 * hour, True)"
    by code_simp
  obtain r' where "OpenCooldownRegistry True (cr_disk (persistOrLogLocked PersistDone sample_registry)) 200 (cr_state_path sample_registry) = Inr r'"
    "\<forall>k. map_of (cr_entries r') k = (case map_of (cr_entries sample_registry) k of
             Some e \<Rightarrow> if ce_until e > 200 then Some (e\<lparr>ce_failures := max 1 (ce_failures e)\<rparr>) else None | None \<Rightarrow> None)"
    using reopen_restores_cooldowns [OF inv _ len path, of 200 PersistDone] by auto
  with entry show ?thesis by (auto split: option.splits)
qed

text \<open>Whatever the state file holds, short of an unreadable file, the registry opens; and
  everything it then holds is well formed, still in force, counted at least one failure, and
  at most 4096 entries, so corrupted state cannot block start-up or grow without bound.\<close>

theorem open_sanitises_state:
  "(is_ok (OpenCooldownRegistry True disk now path) \<longleftrightarrow> trim_space path = '''' \<or> disk \<noteq> Unreadable)
   \<and> (\<forall>r. OpenCooldownRegistry mkdir_ok disk now path = Inr r \<longrightarrow>
        cooldown_inv r \<and> length (cr_entries r) \<le> maxPersistedCooldowns
        \<and> (\<forall>(key, e) \<in> set (cr_entries r). ce_until e > now \<and> 1 \<le> ce_failures e))"
proof (intro conjI allI impI)
  show "is_ok (OpenCooldownRegistry True disk now path) \<longleftrightarrow> trim_space path = '''' \<or> disk \<noteq> Unreadable"
    by (cases disk) (auto simp: OpenCooldownRegistry_def Let_def)
next
  fix r assume "OpenCooldownRegistry mkdir_ok disk now path = Inr r"
  then have "cr_entries r = load_cooldowns now 0 [] [] \<or> (\<exists>items. cr_entries r = load_cooldowns now 0 items [])"
    by (auto simp: OpenCooldownRegistry_def Let_def NewCooldownRegistry_def split: if_splits cooldown_file.splits)
  then obtain items where items: "cr_entries r = load_cooldowns now 0 items []" by blast
  have "wf_map (load_cooldowns now 0 items [])
    \<and> (\<forall>(key, e) \<in> set (load_cooldowns now 0 items []). cooldown_entry_ok key e \<and> ce_until e > now \<and> 1 \<le> ce_failures e)
    \<and> length (load_cooldowns now 0 items []) \<le> maxPersistedCooldowns"
    by (rule load_cooldowns_ok) simp_all
  then show "cooldown_inv r" and "length (cr_entries r) \<le> maxPersistedCooldowns"
    and "\<forall>(key, e) \<in> set (cr_entries r). ce_until e > now \<and> 1 \<le> ce_failures e"
    unfolding cooldown_inv_def items by blast+
qed

definition sample_file :: cooldown_file where
  "sample_file = CooldownState 1 [\<lparr>pc_provider = '' kilo '', pc_model = ''free'', pc_capability = ''chat'', pc_until = 300,
      pc_reason = CooldownTimeout, pc_failures = 0\<rparr>,
    \<lparr>pc_provider = ''kilo'', pc_model = ''old'', pc_capability = ''chat'', pc_until = 3,
      pc_reason = CooldownTimeout, pc_failures = 2\<rparr>]"

theorem open_sanitises_state_witness:
  "\<exists>r. OpenCooldownRegistry True sample_file 10 ''/state'' = Inr r
     \<and> map ce_provider (map snd (cr_entries r)) = [''kilo''] \<and> cooldown_inv r"
proof -
  define r where "r = projr (OpenCooldownRegistry True sample_file 10 ''/state'')"
  have open_r: "OpenCooldownRegistry True sample_file 10 ''/state'' = Inr r"
    and providers: "map ce_provider (map snd (cr_entries r)) = [''kilo'']"
    unfolding r_def by code_simp+
  have "cooldown_inv r"
    using open_sanitises_state [of sample_file 10 "''/state''" True] open_r by simp
  with open_r providers show ?thesis by (intro exI [of _ r] conjI)
qed

text \<open>How a dispatch outcome becomes a cooldown. A client cancellation and a success or
  client error outside the listed statuses record nothing; 402 and 403, and a 429 whose
  Retry-After is missing or longer than five minutes, exhaust the quota; a 429 with a short
  Retry-After is a rate limit; the Retry-After hint is passed on unchanged.\<close>

theorem cooldown_policy_correct:
  "(cooldownPolicy status err retryAfter = None \<longleftrightarrow>
      (case err of Some e \<Rightarrow> err_canceled e
       | None \<Rightarrow> status < 500 \<and> status \<notin> {401, 402, 403, 408, 429}))
   \<and> (\<forall>reason hint. cooldownPolicy status err retryAfter = Some (reason, hint) \<longrightarrow>
        hint = retryAfter \<and> validCooldownReason reason
        \<and> (reason = CooldownQuotaExhausted \<longleftrightarrow>
             status \<in> {402, 403} \<or> status = 429 \<and> \<not> (0 < retryAfter \<and> retryAfter \<le> 5 * minute))
        \<and> (reason = CooldownRateLimited \<longleftrightarrow> status = 429 \<and> 0 < retryAfter \<and> retryAfter \<le> 5 * minute))"
  by (auto simp: cooldownPolicy_def cooldownReason_def maxCooldown_def validCooldownReason_def cooldown_reason_defs
      split: option.splits if_splits)

theorem cooldown_policy_correct_witness:
  "cooldownPolicy 429 None (10 * minute) = Some (CooldownQuotaExhausted, 10 * minute)
   \<and> CooldownQuotaExhausted \<noteq> CooldownRateLimited"
proof -
  have "cooldownPolicy 429 None (10 * minute) \<noteq> None"
    using cooldown_policy_correct [of 429 None "10 * minute"] by simp
  then obtain reason hint where rh: "cooldownPolicy 429 None (10 * minute) = Some (reason, hint)" by auto
  have "\<not> 10 * minute \<le> 5 * minute" by (simp add: duration_defs)
  with rh cooldown_policy_correct [of 429 None "10 * minute"] show ?thesis
    by (simp add: cooldown_reason_defs)
qed

end
