(* ===== verification/Provider_Registry.thy ===== *)
theory Provider_Registry
  imports Prefixes
begin

text \<open>
  The provider registry of \<open>internal/provider/registry.go\<close>. A provider is represented by
  what its interface methods answer while one request is served: its ID, its capabilities,
  whether \<open>Health\<close> says it is authenticated, its allowlist when it reports one, its
  last-known-good catalog when it has one, and the model IDs of \<open>ListModels\<close>
  (\<^const>\<open>None\<close> for an error or a \<open>nil\<close> list). Those answers come from the upstream
  services, so they are data of the model.
\<close>

record provider_info =
  pr_id :: provider_id
  pr_capabilities :: "capability list"
  pr_authenticated :: bool
  pr_allowed_models :: "string list"
  pr_last_known :: "(string list \<times> gotime \<times> bool) option"
  pr_list_models :: "string list option"

record registry =
  rg_providers :: "(provider_id, provider_info) gomap"
  rg_order :: "provider_id list"
  rg_frozen :: bool

datatype registry_error = ProviderRequired | RegistryFrozen | NotRegistered provider_id

definition Register :: "registry \<Rightarrow> provider_info option \<Rightarrow> registry_error option \<times> registry" where
  "Register r p =
     (case p of None \<Rightarrow> (Some ProviderRequired, r)
      | Some p \<Rightarrow>
        if rg_frozen r then (Some RegistryFrozen, r)
        else (None, r\<lparr>rg_order := (if \<not> has_key (rg_providers r) (pr_id p) then rg_order r @ [pr_id p] else rg_order r),
                      rg_providers := AList.update (pr_id p) p (rg_providers r)\<rparr>))"

definition NewRegistry :: "provider_info option list \<Rightarrow> registry" where
  "NewRegistry ps = fold (\<lambda>p r. snd (Register r p)) ps \<lparr>rg_providers = [], rg_order = [], rg_frozen = False\<rparr>"

text \<open>The error, the removed provider and whether there was one.\<close>

definition Unregister :: "registry \<Rightarrow> provider_id \<Rightarrow> (registry_error + provider_info option) \<times> registry" where
  "Unregister r pid =
     (if rg_frozen r then (Inl RegistryFrozen, r)
      else case map_of (rg_providers r) pid of
        None \<Rightarrow> (Inr None, r)
      | Some p \<Rightarrow> (Inr (Some p), r\<lparr>rg_providers := AList.delete pid (rg_providers r), rg_order := remove1 pid (rg_order r)\<rparr>))"

definition Freeze :: "registry \<Rightarrow> registry" where
  "Freeze r = r\<lparr>rg_frozen := True\<rparr>"

definition registry_IDs :: "registry \<Rightarrow> provider_id list" where
  "registry_IDs r = rg_order r"

definition registry_Get :: "registry \<Rightarrow> provider_id \<Rightarrow> registry_error + provider_info" where
  "registry_Get r pid = (case map_of (rg_providers r) pid of None \<Rightarrow> Inl (NotRegistered pid) | Some p \<Rightarrow> Inr p)"

text \<open>The providers in registration order; on a consistent registry no ID of the order is
  without a provider.\<close>

definition registry_All :: "registry \<Rightarrow> provider_info list" where
  "registry_All r = List.map_filter (map_of (rg_providers r)) (rg_order r)"

definition registry_inv :: "registry \<Rightarrow> bool" where
  "registry_inv r \<longleftrightarrow> wf_map (rg_providers r) \<and> distinct (rg_order r)
     \<and> set (rg_order r) = set (keys_of (rg_providers r))
     \<and> (\<forall>(pid, p) \<in> set (rg_providers r). pr_id p = pid)"

lemma registry_inv_iff:
  "registry_inv r \<longleftrightarrow> wf_map (rg_providers r) \<and> distinct (rg_order r)
     \<and> (\<forall>pid. pid \<in> set (rg_order r) \<longleftrightarrow> has_key (rg_providers r) pid)
     \<and> (\<forall>pid p. map_of (rg_providers r) pid = Some p \<longrightarrow> pr_id p = pid)"
  by (auto simp: registry_inv_def has_key_iff wf_map_Some_iff)

lemma registry_inv_Register: "registry_inv r \<Longrightarrow> registry_inv (snd (Register r p))"
  by (auto simp: Register_def registry_inv_iff wf_map_update split: option.splits)

lemma registry_inv_Unregister: "registry_inv r \<Longrightarrow> registry_inv (snd (Unregister r pid))"
  by (auto simp: Unregister_def registry_inv_iff wf_map_delete split: option.splits)

lemma registry_inv_NewRegistry: "registry_inv (NewRegistry ps)"
proof -
  have "registry_inv r \<Longrightarrow> registry_inv (fold (\<lambda>p r. snd (Register r p)) ps r)" for r
    by (induction ps arbitrary: r) (auto intro: registry_inv_Register)
  moreover have "registry_inv \<lparr>rg_providers = [], rg_order = [], rg_frozen = False\<rparr>"
    by (simp add: registry_inv_def keys_of_def)
  ultimately show ?thesis unfolding NewRegistry_def by blast
qed

text \<open>The registry as the router uses it: the listing and the lookup agree, one provider per ID.\<close>

lemma registry_All_ids:
  assumes "registry_inv r"
  shows "map pr_id (registry_All r) = rg_order r"
proof -
  have "\<exists>p. map_of (rg_providers r) pid = Some p \<and> pr_id p = pid" if "pid \<in> set (rg_order r)" for pid
    using assms that by (auto simp: registry_inv_iff has_key_def)
  then have "map pr_id (List.map_filter (map_of (rg_providers r)) ids) = ids" if "set ids \<subseteq> set (rg_order r)" for ids
    using that by (induction ids) (fastforce simp: map_filter_simps)+
  then show ?thesis by (simp add: registry_All_def)
qed

lemma registry_order_distinct: "registry_inv r \<Longrightarrow> distinct (rg_order r)"
  by (simp add: registry_inv_def)

lemma registry_All_distinct: "registry_inv r \<Longrightarrow> distinct (map pr_id (registry_All r))"
  by (simp add: registry_All_ids registry_inv_def)

lemma registry_All_iff:
  assumes "registry_inv r"
  shows "p \<in> set (registry_All r) \<longleftrightarrow> registry_Get r (pr_id p) = Inr p"
proof -
  have "p \<in> set (registry_All r) \<longleftrightarrow> (\<exists>pid \<in> set (rg_order r). map_of (rg_providers r) pid = Some p)"
    by (force simp: registry_All_def map_filter_def)
  also have "\<dots> \<longleftrightarrow> map_of (rg_providers r) (pr_id p) = Some p"
    using assms unfolding registry_inv_iff has_key_def by (metis option.distinct(1))
  finally show ?thesis by (simp add: registry_Get_def split: option.split)
qed

lemma registry_Get_id: "registry_inv r \<Longrightarrow> registry_Get r pid = Inr p \<Longrightarrow> pr_id p = pid"
  by (auto simp: registry_Get_def registry_inv_iff split: option.splits)

text \<open>A registry built by registrations and removals lists each provider once, in the
  order of first registration, and its lookup returns exactly the listed providers; a frozen
  registry refuses every change.\<close>

theorem registry_consistent:
  "registry_inv (NewRegistry ps)
   \<and> (registry_inv r \<longrightarrow>
        registry_inv (snd (Register r p)) \<and> registry_inv (snd (Unregister r pid))
        \<and> distinct (registry_IDs r) \<and> map pr_id (registry_All r) = registry_IDs r
        \<and> (\<forall>q. q \<in> set (registry_All r) \<longleftrightarrow> registry_Get r (pr_id q) = Inr q))
   \<and> snd (Register (Freeze r) p) = Freeze r \<and> snd (Unregister (Freeze r) pid) = Freeze r"
proof (intro conjI impI)
  show "snd (Register (Freeze r) p) = Freeze r" and "snd (Unregister (Freeze r) pid) = Freeze r"
    by (simp_all add: Register_def Unregister_def Freeze_def split: option.split)
qed (simp_all add: registry_inv_NewRegistry registry_inv_Register registry_inv_Unregister registry_All_ids
      registry_All_iff registry_IDs_def registry_order_distinct)

definition sample_provider :: "provider_id \<Rightarrow> provider_info" where
  "sample_provider pid = \<lparr>pr_id = pid, pr_capabilities = [CapabilityChat], pr_authenticated = True,
     pr_allowed_models = [], pr_last_known = Some ([''gpt-5'', ''free''], 5, False), pr_list_models = Some [''gpt-5'', ''free'']\<rparr>"

definition sample_providers :: registry where
  "sample_providers = NewRegistry [Some (sample_provider Codex), None, Some (sample_provider Kilo), Some (sample_provider Codex)]"

theorem registry_consistent_witness:
  "registry_inv sample_providers \<and> map pr_id (registry_All sample_providers) = [Codex, Kilo]
   \<and> registry_inv (snd (Unregister sample_providers Codex))"
proof -
  have ids: "registry_IDs sample_providers = [Codex, Kilo]" by code_simp
  have inv: "registry_inv sample_providers"
    unfolding sample_providers_def using registry_consistent by blast
  with registry_consistent [of "[]" sample_providers None Codex] ids show ?thesis by simp
qed

end
