(* ===== verification/Router.thy ===== *)
theory Router
  imports Routing_Metrics Cooldown Provider_Registry
begin

text \<open>
  The router of \<open>internal/routing/router.go\<close>, with the feedback of dispatch outcomes
  (\<open>RecordOutcome\<close> of \<open>cooldown.go\<close>) and the readiness diagnostics (\<open>diagnostics.go\<close>).
  The router holds the frozen provider registry, the routing section of the configuration,
  the metrics and the shared cooldown and preferred-target registries; an operation takes
  the router and returns it with its changes. The readings of the clock and the outcomes of
  persisting, which one operation may need several of, are given by \<open>routing_env\<close>. Log
  lines are left out.
\<close>

section \<open>State\<close>

record router =
  ro_registry :: registry
  ro_routing :: routing
  ro_generation :: nat
  ro_metrics :: metrics
  ro_cooldowns :: cooldown_registry
  ro_preferred :: preferred_registry

record routing_env =
  ev_clock :: "nat \<Rightarrow> gotime"
  ev_io :: "nat \<Rightarrow> persist_outcome"

record route_result =
  rr_provider :: provider_info
  rr_model :: string
  rr_selection :: "selection_decision option"

datatype route_error =
    MapUnknownProvider string string
  | MapCapabilityUnsupported string provider_id capability
  | PrefixNotRegistered string provider_id
  | PrefixCapabilityUnsupported string provider_id capability
  | PrefixModelUnavailable string capability provider_id
  | ModelUnavailable string capability
  | ModelAmbiguous string "provider_id list"
  | DefaultProviderUnavailable string provider_id
  | DefaultCapabilityUnsupported provider_id capability
  | NoActiveTarget no_active_target

definition NewRouterWithRegistries ::
    "registry \<Rightarrow> routing \<Rightarrow> cooldown_registry option \<Rightarrow> preferred_registry option \<Rightarrow> router" where
  "NewRouterWithRegistries reg rt cds pref =
     \<lparr>ro_registry = reg,
      ro_routing = (if rt_model_map rt = None then rt\<lparr>rt_model_map := Some []\<rparr> else rt),
      ro_generation = 0, ro_metrics = NewMetrics,
      ro_cooldowns = (case cds of None \<Rightarrow> NewCooldownRegistry | Some c \<Rightarrow> c),
      ro_preferred = (case pref of None \<Rightarrow> [] | Some p \<Rightarrow> p)\<rparr>"

definition SetGeneration :: "nat \<Rightarrow> router \<Rightarrow> router" where
  "SetGeneration g r = r\<lparr>ro_generation := g\<rparr>"

definition hasCapability :: "provider_info \<Rightarrow> capability \<Rightarrow> bool" where
  "hasCapability p cap \<longleftrightarrow> list_ex (\<lambda>c. c = cap) (pr_capabilities p)"

section \<open>Availability\<close>

definition view_of :: "provider_info \<Rightarrow> cooldown list \<Rightarrow> provider_view" where
  "view_of p active =
     (let v = \<lparr>pw_id = pr_id p, pw_disabled = False, pw_ready = pr_authenticated p,
               pw_capabilities = pr_capabilities p, pw_allowed_models = pr_allowed_models p,
               pw_catalog_present = False, pw_catalog_stale = False, pw_catalog_fetched_at = zero_time,
               pw_catalog_models = [], pw_cooldowns = active\<rparr>
      in case pr_last_known p of None \<Rightarrow> v
         | Some (models, fetchedAt, stale) \<Rightarrow>
             v\<lparr>pw_catalog_present := True, pw_catalog_models := models, pw_catalog_fetched_at := fetchedAt,
               pw_catalog_stale := stale\<rparr>)"

text \<open>The loop over the providers; \<open>i\<close> numbers the clock readings.\<close>

fun build_views :: "routing_env \<Rightarrow> nat \<Rightarrow> provider_info list \<Rightarrow> router \<Rightarrow> provider_view list \<times> router" where
  "build_views env i [] r = ([], r)"
| "build_views env i (p # ps) r =
     (let (active, expired, cds) = Cooldowns (ev_io env i) (ev_clock env i) (ro_cooldowns r) (pr_id p);
          m = fold (\<lambda>c m. RecordCooldownExit m (AddModelPrefix (pr_id p) (cd_model c)) ''expired'') expired (ro_metrics r);
          (views, r') = build_views env (Suc i) ps (r\<lparr>ro_cooldowns := cds, ro_metrics := m\<rparr>)
      in (view_of p active # views, r'))"

definition buildAvailabilitySnapshot :: "routing_env \<Rightarrow> router \<Rightarrow> availability_snapshot \<times> router" where
  "buildAvailabilitySnapshot env r =
     (let registered = registry_All (ro_registry r);
          (views, r') = build_views env 0 registered r
      in (NewSnapshot (ro_generation r) (ev_clock env (length registered)) views, r'))"

section \<open>Resolution\<close>

definition resolveVirtualModelExcluding ::
    "routing_env \<Rightarrow> router \<Rightarrow> string \<Rightarrow> virtual_model \<Rightarrow> capability \<Rightarrow> string set \<Rightarrow> (route_error + route_result) \<times> router" where
  "resolveVirtualModelExcluding env r vid vm cap exclude =
     (let ordered =
            (if vm_strategy vm = VirtualModelStrategyPriority
             then (case Preferred_Get (ro_preferred r) vid cap of
                     Some t \<Rightarrow> if t \<noteq> '''' then reorderVMTargets vm t else vm | None \<Rightarrow> vm)
             else vm);
          (snap, r1) = buildAvailabilitySnapshot env r
      in case SelectPriorityTargetExcluding vid ordered cap (Some snap) exclude of
           Inl e \<Rightarrow> (Inl (NoActiveTarget e), r1\<lparr>ro_metrics := RecordNoActiveTarget (ro_metrics r1) e\<rparr>)
         | Inr d \<Rightarrow>
             (case StripModelPrefix (trim_space (sd_selected_target d)) of (bare, pid, _) \<Rightarrow>
                (case registry_Get (ro_registry r1) pid of
                   Inl _ \<Rightarrow>
                     (let e = \<lparr>na_virtual_model = vid,
                               na_skipped = sd_skipped d @ [\<lparr>sk_target = sd_selected_target d, sk_index = sd_selected_index d,
                                  sk_reason = ReasonProviderNotRegistered, sk_cooldown_until = 0\<rparr>]\<rparr>
                      in (Inl (NoActiveTarget e), r1\<lparr>ro_metrics := RecordNoActiveTarget (ro_metrics r1) e\<rparr>))
                 | Inr p \<Rightarrow> (Inr \<lparr>rr_provider = p, rr_model = bare, rr_selection = Some d\<rparr>,
                            r1\<lparr>ro_metrics := RecordSelection (ro_metrics r1) d\<rparr>))))"

definition resolveVirtualModel ::
    "routing_env \<Rightarrow> router \<Rightarrow> string \<Rightarrow> virtual_model \<Rightarrow> capability \<Rightarrow> (route_error + route_result) \<times> router" where
  "resolveVirtualModel env r vid vm cap = resolveVirtualModelExcluding env r vid vm cap {}"

definition ResolveNext ::
    "routing_env \<Rightarrow> router \<Rightarrow> string \<Rightarrow> capability \<Rightarrow> string set \<Rightarrow> (route_error + route_result) \<times> router" where
  "ResolveNext env r vid cap exclude =
     (case map_of (items (rt_virtual_models (ro_routing r))) vid of
        None \<Rightarrow> (Inl (NoActiveTarget \<lparr>na_virtual_model = vid, na_skipped = []\<rparr>), r)
      | Some vm \<Rightarrow> resolveVirtualModelExcluding env r vid vm cap exclude)"

definition resolveWithPrefix ::
    "router \<Rightarrow> string \<Rightarrow> string \<Rightarrow> provider_id \<Rightarrow> capability \<Rightarrow> route_error + route_result" where
  "resolveWithPrefix r full bare pid cap =
     (case registry_Get (ro_registry r) pid of
        Inl _ \<Rightarrow> Inl (PrefixNotRegistered full pid)
      | Inr p \<Rightarrow>
          if \<not> hasCapability p cap then Inl (PrefixCapabilityUnsupported full pid cap)
          else if list_ex (\<lambda>m. equal_fold m bare) (case pr_list_models p of None \<Rightarrow> [] | Some ms \<Rightarrow> ms)
          then Inr \<lparr>rr_provider = p, rr_model = bare, rr_selection = None\<rparr>
          else Inl (PrefixModelUnavailable full cap pid))"

definition discoverFromCatalogs :: "router \<Rightarrow> string \<Rightarrow> capability \<Rightarrow> route_result list" where
  "discoverFromCatalogs r model cap =
     List.map_filter
       (\<lambda>p. if \<not> hasCapability p cap then None
            else case pr_list_models p of
              None \<Rightarrow> None
            | Some ms \<Rightarrow> if list_ex (\<lambda>m. equal_fold m model) ms
                then Some \<lparr>rr_provider = p, rr_model = model, rr_selection = None\<rparr> else None)
       (registry_All (ro_registry r))"

definition defaultProviderRoute :: "router \<Rightarrow> string \<Rightarrow> capability \<Rightarrow> route_error + route_result" where
  "defaultProviderRoute r model cap =
     (let dp = rt_default_provider (ro_routing r); pid = (if dp = '''' then Copilot else dp) in
      case registry_Get (ro_registry r) pid of
        Inl _ \<Rightarrow> Inl (DefaultProviderUnavailable model pid)
      | Inr p \<Rightarrow> if \<not> hasCapability p cap then Inl (DefaultCapabilityUnsupported pid cap)
                else Inr \<lparr>rr_provider = p, rr_model = model, rr_selection = None\<rparr>)"

definition Resolve ::
    "routing_env \<Rightarrow> router \<Rightarrow> string \<Rightarrow> capability \<Rightarrow> (route_error + route_result) \<times> router" where
  "Resolve env r requested cap =
     (let rt = ro_routing r; usedDefault = (requested = '''');
          model = (if requested = '''' then rt_default_model rt else requested) in
      case StripModelPrefix model of (bare, prefixProvider, hasPrefix) \<Rightarrow>
      (let entry = (case map_of (items (rt_model_map rt)) model of
              Some e \<Rightarrow> Some e
            | None \<Rightarrow> if hasPrefix then map_of (items (rt_model_map rt)) bare else None) in
       case entry of
         Some e \<Rightarrow>
           (case registry_Get (ro_registry r) (mm_provider e) of
              Inl _ \<Rightarrow> (Inl (MapUnknownProvider model (mm_provider e)), r)
            | Inr p \<Rightarrow>
                if \<not> hasCapability p cap then (Inl (MapCapabilityUnsupported model (pr_id p) cap), r)
                else (Inr \<lparr>rr_provider = p,
                           rr_model = (if mm_upstream_model e = '''' then bare else mm_upstream_model e),
                           rr_selection = None\<rparr>, r))
       | None \<Rightarrow>
           if hasPrefix then (resolveWithPrefix r model bare prefixProvider cap, r)
           else case map_of (items (rt_virtual_models rt)) model of
             Some vm \<Rightarrow> resolveVirtualModel env r model vm cap
           | None \<Rightarrow>
               (case discoverFromCatalogs r model cap of
                  [] \<Rightarrow> if \<not> usedDefault then (Inl (ModelUnavailable model cap), r)
                        else (defaultProviderRoute r model cap, r)
                | [res] \<Rightarrow> (Inr res, r)
                | cs \<Rightarrow> (Inl (ModelAmbiguous model (map (pr_id \<circ> rr_provider) cs)), r))))"

section \<open>Feedback\<close>

definition RecordOutcome ::
    "persist_outcome \<Rightarrow> gotime \<Rightarrow> router \<Rightarrow> selection_decision option \<Rightarrow> int \<Rightarrow> go_error option \<Rightarrow> duration \<Rightarrow> router" where
  "RecordOutcome io now r decision status err retryAfter =
     (case decision of None \<Rightarrow> r
      | Some d \<Rightarrow>
        (case StripModelPrefix (sd_selected_target d) of (bare, pid, hasPrefix) \<Rightarrow>
           if \<not> hasPrefix then r
           else if status \<ge> 200 \<and> status < 300 \<and> err = None then
             (let (cleared, cds) = Clear io (ro_cooldowns r) pid bare (sd_capability d) in
              r\<lparr>ro_cooldowns := cds,
                ro_metrics := (if cleared then RecordCooldownExit (ro_metrics r) (sd_selected_target d) ''recovered''
                               else ro_metrics r)\<rparr>)
           else case cooldownPolicy status err retryAfter of None \<Rightarrow> r
             | Some (reason, hint) \<Rightarrow>
               (let (until, entered, cds) = Record io now (ro_cooldowns r) pid bare (sd_capability d) reason hint in
                r\<lparr>ro_cooldowns := cds,
                  ro_metrics := (if entered then RecordCooldownEntry (ro_metrics r) (sd_selected_target d) reason
                                 else ro_metrics r)\<rparr>)))"

definition RecordPreferred :: "router \<Rightarrow> string \<Rightarrow> capability \<Rightarrow> string \<Rightarrow> router" where
  "RecordPreferred r vid cap target =
     (case map_of (items (rt_virtual_models (ro_routing r))) vid of
        None \<Rightarrow> r
      | Some vm \<Rightarrow> if vm_strategy vm \<noteq> VirtualModelStrategyPriority then r
                   else r\<lparr>ro_preferred := Preferred_Set (ro_preferred r) vid cap target\<rparr>)"

section \<open>Diagnostics\<close>

record target_readiness =
  td_target :: string
  td_index :: nat
  td_routable :: bool
  td_reason :: reason
  td_cooldown_until :: int
  td_cooldown_reason :: cooldown_reason
  td_catalog_fetched_at :: int
  td_catalog_stale :: bool

record vm_readiness =
  vr_virtual_model :: string
  vr_strategy :: string
  vr_capability :: string
  vr_generation :: nat
  vr_selected_target :: string
  vr_active :: bool
  vr_targets :: "target_readiness list"

definition readiness_of :: "availability_snapshot option \<Rightarrow> capability \<Rightarrow> nat \<Rightarrow> string \<Rightarrow> target_readiness" where
  "readiness_of snap cap index target =
     (case StripModelPrefix target of (bare, pid, hasPrefix) \<Rightarrow>
        if hasPrefix then
          (let result = Evaluate snap pid bare cap in
           \<lparr>td_target = target, td_index = index, td_routable = tr_routable result, td_reason = tr_reason result,
            td_cooldown_until = unix_or_zero (tr_cooldown_until result), td_cooldown_reason = tr_cooldown_reason result,
            td_catalog_fetched_at = unix_or_zero (tr_catalog_fetched_at result), td_catalog_stale = tr_catalog_stale result\<rparr>)
        else \<lparr>td_target = target, td_index = index, td_routable = False, td_reason = ReasonProviderNotRegistered,
              td_cooldown_until = 0, td_cooldown_reason = '''', td_catalog_fetched_at = 0, td_catalog_stale = False\<rparr>)"

fun readiness_loop ::
    "availability_snapshot option \<Rightarrow> capability \<Rightarrow> nat \<Rightarrow> string list \<Rightarrow> vm_readiness \<Rightarrow> vm_readiness" where
  "readiness_loop snap cap index [] s = s"
| "readiness_loop snap cap index (target # rest) s =
     (let t = readiness_of snap cap index target;
          s = s\<lparr>vr_targets := vr_targets s @ [t]\<rparr>
      in readiness_loop snap cap (Suc index) rest
           (if td_routable t \<and> \<not> vr_active s then s\<lparr>vr_active := True, vr_selected_target := target\<rparr> else s))"

definition VirtualModelReadinessFor :: "router \<Rightarrow> capability \<Rightarrow> availability_snapshot option \<Rightarrow> vm_readiness list" where
  "VirtualModelReadinessFor r cap snap =
     (let vms = items (rt_virtual_models (ro_routing r)) in
      List.map_filter
        (\<lambda>vid. map_option
           (\<lambda>vm. readiness_loop snap cap 0 (items (vm_targets vm))
              \<lparr>vr_virtual_model = vid, vr_strategy = vm_strategy vm, vr_capability = cap,
               vr_generation = Snapshot_Generation snap, vr_selected_target = '''', vr_active = False, vr_targets = []\<rparr>)
           (map_of vms vid))
        (sort (keys_of vms)))"

section \<open>Facts on the availability view\<close>

lemma build_views_frame:
  "ro_registry (snd (build_views env i ps r)) = ro_registry r
   \<and> ro_routing (snd (build_views env i ps r)) = ro_routing r
   \<and> ro_generation (snd (build_views env i ps r)) = ro_generation r
   \<and> ro_preferred (snd (build_views env i ps r)) = ro_preferred r"
  by (induction ps arbitrary: i r) (auto simp: case_prod_unfold Let_def)

lemmas build_views_frames [simp] =
  build_views_frame [THEN conjunct1] build_views_frame [THEN conjunct2, THEN conjunct1]
  build_views_frame [THEN conjunct2, THEN conjunct2, THEN conjunct1]
  build_views_frame [THEN conjunct2, THEN conjunct2, THEN conjunct2]

lemma build_views_preferred:
  "build_views env i ps (r\<lparr>ro_preferred := q\<rparr>) =
     (fst (build_views env i ps r), (snd (build_views env i ps r))\<lparr>ro_preferred := q\<rparr>)"
proof (induction ps arbitrary: i r)
  case (Cons p ps)
  have "r\<lparr>ro_preferred := q, ro_cooldowns := c, ro_metrics := m\<rparr> = r\<lparr>ro_cooldowns := c, ro_metrics := m\<rparr>\<lparr>ro_preferred := q\<rparr>" for c m
    by simp
  then show ?case by (simp only: build_views.simps Let_def case_prod_unfold Cons.IH) simp
qed simp

lemma view_of_sel [simp]:
  "pw_id (view_of p a) = pr_id p" "pw_capabilities (view_of p a) = pr_capabilities p"
  "pw_cooldowns (view_of p a) = a" "pw_ready (view_of p a) = pr_authenticated p"
  by (simp_all add: view_of_def Let_def split: option.split)

lemma build_views_ids: "map pw_id (fst (build_views env i ps r)) = map pr_id ps"
  by (induction ps arbitrary: i r) (simp_all add: case_prod_unfold Let_def)

lemma build_views_from:
  "v \<in> set (fst (build_views env i ps r)) \<Longrightarrow> \<exists>p \<in> set ps. \<exists>a. v = view_of p a"
  by (induction ps arbitrary: i r) (auto simp: case_prod_unfold Let_def)

text \<open>A cooldown that outlasts every clock reading is in the view of its provider.\<close>

lemma build_views_cooling:
  assumes "(k, e) \<in> set (cr_entries (ro_cooldowns r))" and "p \<in> set ps" and "ce_provider e = pr_id p"
    and "\<forall>j. ev_clock env j < ce_until e"
  shows "\<exists>v \<in> set (fst (build_views env i ps r)). pw_id v = pr_id p \<and> cooldown_of e \<in> set (pw_cooldowns v)"
  using assms
proof (induction ps arbitrary: i r)
  case (Cons q ps)
  obtain active expired cds where c:
    "Cooldowns (ev_io env i) (ev_clock env i) (ro_cooldowns r) (pr_id q) = (active, expired, cds)" by (metis prod_cases3)
  have kept: "(k, e) \<in> set (cr_entries cds)"
    using Cooldowns_entries [of "ev_io env i" "ev_clock env i" "ro_cooldowns r" "pr_id q"] c Cons.prems(1,4) by auto
  show ?case
  proof (cases "pr_id q = pr_id p")
    case True
    have "active = map (cooldown_of \<circ> snd) (filter (\<lambda>(k, e). ce_provider e = pr_id q \<and> ce_until e > ev_clock env i) (cr_entries (ro_cooldowns r)))"
      using c by (simp add: Cooldowns_def scan_cooldowns_eq)
    then have "cooldown_of e \<in> set active" using Cons.prems True by force
    with True show ?thesis using c by (auto simp: case_prod_unfold Let_def)
  next
    case False
    with Cons.prems have "p \<in> set ps" by auto
    with Cons.IH [of "r\<lparr>ro_cooldowns := cds, ro_metrics := _\<rparr>" "Suc i"] kept Cons.prems show ?thesis
      by (simp add: case_prod_unfold Let_def c)
  qed
qed simp

lemma buildAvailabilitySnapshot_eq:
  "buildAvailabilitySnapshot env r =
     (NewSnapshot (ro_generation r) (ev_clock env (length (registry_All (ro_registry r))))
        (fst (build_views env 0 (registry_All (ro_registry r)) r)),
      snd (build_views env 0 (registry_All (ro_registry r)) r))"
  by (simp add: buildAvailabilitySnapshot_def Let_def case_prod_unfold)

text \<open>A routable target belongs to a registered provider that is authenticated and supports
  the capability.\<close>

lemma snapshot_routable_provider:
  assumes "registry_inv (ro_registry r)"
    and "tr_routable (Evaluate (Some (fst (buildAvailabilitySnapshot env r))) pid model cap)"
  shows "\<exists>p. registry_Get (ro_registry r) pid = Inr p \<and> hasCapability p cap \<and> pr_authenticated p \<and> pr_id p = pid"
proof -
  obtain v where v: "v \<in> set (fst (build_views env 0 (registry_All (ro_registry r)) r))" "pw_id v = pid"
    "pw_ready v" "cap \<in> set (pw_capabilities v)"
    using Evaluate_routable_view [OF assms(2) [unfolded buildAvailabilitySnapshot_eq fst_conv]] by blast
  then obtain p a where "p \<in> set (registry_All (ro_registry r))" "v = view_of p a"
    using build_views_from by blast
  with v registry_All_iff [OF assms(1)] show ?thesis
    by (auto simp: hasCapability_def list_ex_iff)
qed

lemma snapshot_cooling:
  assumes inv: "registry_inv (ro_registry r)"
    and e: "(k, e) \<in> set (cr_entries (ro_cooldowns r))" "\<forall>j. 0 \<le> ev_clock env j \<and> ev_clock env j < ce_until e"
    and key: "ce_provider e = pid" "cooldownKey (ce_model e) (ce_capability e) = cooldownKey model cap"
  shows "\<not> tr_routable (Evaluate (Some (fst (buildAvailabilitySnapshot env r))) pid model cap)"
proof
  let ?ps = "registry_All (ro_registry r)" and ?b = "ev_clock env (length (registry_All (ro_registry r)))"
  assume *: "tr_routable (Evaluate (Some (fst (buildAvailabilitySnapshot env r))) pid model cap)"
  then obtain v where v: "v \<in> set (fst (build_views env 0 ?ps r))" "pw_id v = pid"
    and cool: "\<not> cd_until (entry_cooldown (provider_entry_of ?b v) model cap ?b) > ?b"
    using Evaluate_routable_view [OF * [unfolded buildAvailabilitySnapshot_eq fst_conv]] by blast
  from v obtain p where p: "p \<in> set ?ps" "pr_id p = pid" using build_views_from by fastforce
  then obtain w where w: "w \<in> set (fst (build_views env 0 ?ps r))" "pw_id w = pid" "cooldown_of e \<in> set (pw_cooldowns w)"
    using build_views_cooling [OF e(1), of p ?ps env 0] e(2) key(1) by auto
  have "w = v"
    using registry_All_distinct [OF inv] v(1,2) w(1,2) build_views_ids [of env 0 ?ps r]
    by (metis distinct_map inj_onD)
  with w e(2) key(2) cool show False
    by (auto simp: entry_cooldown_key cooldown_of_def)
qed

section \<open>Facts on resolution\<close>

definition ordered_targets :: "router \<Rightarrow> string \<Rightarrow> virtual_model \<Rightarrow> capability \<Rightarrow> virtual_model" where
  "ordered_targets r vid vm cap =
     (if vm_strategy vm = VirtualModelStrategyPriority
      then (case Preferred_Get (ro_preferred r) vid cap of
              Some t \<Rightarrow> if t \<noteq> '''' then reorderVMTargets vm t else vm | None \<Rightarrow> vm)
      else vm)"

lemma ordered_targets_set:
  "trim_space ` set (items (vm_targets (ordered_targets r vid vm cap))) = trim_space ` set (items (vm_targets vm))"
  by (simp add: ordered_targets_def reorder_trimmed_set split: option.split)

text \<open>Resolving an umbrella model succeeds exactly when selection does: the branch for a
  provider that vanished cannot be taken, because the registry is frozen.\<close>

lemma resolveVirtual_cases:
  fixes env r
  assumes "registry_inv (ro_registry r)"
  defines "snap \<equiv> fst (buildAvailabilitySnapshot env r)"
  shows "case SelectPriorityTargetExcluding vid (ordered_targets r vid vm cap) cap (Some snap) exclude of
      Inl e \<Rightarrow> fst (resolveVirtualModelExcluding env r vid vm cap exclude) = Inl (NoActiveTarget e)
    | Inr d \<Rightarrow> \<exists>p bare. StripModelPrefix (trim_space (sd_selected_target d)) = (bare, pr_id p, True)
        \<and> registry_Get (ro_registry r) (pr_id p) = Inr p \<and> hasCapability p cap \<and> pr_authenticated p
        \<and> fst (resolveVirtualModelExcluding env r vid vm cap exclude) =
            Inr \<lparr>rr_provider = p, rr_model = bare, rr_selection = Some d\<rparr>"
proof (cases "SelectPriorityTargetExcluding vid (ordered_targets r vid vm cap) cap (Some snap) exclude")
  case (Inl e)
  then show ?thesis
    by (simp add: resolveVirtualModelExcluding_def Let_def case_prod_unfold snap_def flip: ordered_targets_def)
next
  case (Inr d)
  obtain bare pid ok where strip: "StripModelPrefix (trim_space (sd_selected_target d)) = (bare, pid, ok)"
    by (metis prod_cases3)
  with select_Some(2) [OF Inr] have ok: "ok" "tr_routable (Evaluate (Some snap) pid bare cap)"
    by (simp_all add: target_active_iff)
  obtain p where p: "registry_Get (ro_registry r) pid = Inr p" "hasCapability p cap" "pr_authenticated p" "pr_id p = pid"
    using snapshot_routable_provider [OF assms(1) ok(2) [unfolded snap_def]] by blast
  have reg: "ro_registry (snd (buildAvailabilitySnapshot env r)) = ro_registry r"
    by (simp add: buildAvailabilitySnapshot_eq)
  have "fst (resolveVirtualModelExcluding env r vid vm cap exclude) =
      Inr \<lparr>rr_provider = p, rr_model = bare, rr_selection = Some d\<rparr>"
    using Inr p(1) by (simp add: resolveVirtualModelExcluding_def Let_def case_prod_unfold snap_def strip reg
        flip: ordered_targets_def)
  with Inr strip ok(1) p show ?thesis by auto
qed

lemma resolveVirtual_Inr:
  assumes "registry_inv (ro_registry r)"
    and "fst (resolveVirtualModelExcluding env r vid vm cap exclude) = Inr res"
  shows "\<exists>d. rr_selection res = Some d
    \<and> SelectPriorityTargetExcluding vid (ordered_targets r vid vm cap) cap (Some (fst (buildAvailabilitySnapshot env r))) exclude = Inr d
    \<and> StripModelPrefix (trim_space (sd_selected_target d)) = (rr_model res, pr_id (rr_provider res), True)
    \<and> registry_Get (ro_registry r) (pr_id (rr_provider res)) = Inr (rr_provider res)
    \<and> hasCapability (rr_provider res) cap \<and> pr_authenticated (rr_provider res)"
  using resolveVirtual_cases [OF assms(1), of env vid vm cap exclude] assms(2)
  by (auto split: sum.splits)

lemma ResolveNext_Inr:
  assumes "registry_inv (ro_registry r)" and "fst (ResolveNext env r vid cap exclude) = Inr res"
  shows "\<exists>vm d. map_of (items (rt_virtual_models (ro_routing r))) vid = Some vm \<and> rr_selection res = Some d
    \<and> SelectPriorityTargetExcluding vid (ordered_targets r vid vm cap) cap (Some (fst (buildAvailabilitySnapshot env r))) exclude = Inr d"
proof -
  obtain vm where vm: "map_of (items (rt_virtual_models (ro_routing r))) vid = Some vm"
    using assms(2) by (cases "map_of (items (rt_virtual_models (ro_routing r))) vid") (auto simp: ResolveNext_def)
  with assms(2) have "fst (resolveVirtualModelExcluding env r vid vm cap exclude) = Inr res"
    by (simp add: ResolveNext_def)
  with vm resolveVirtual_Inr [OF assms(1) this] show ?thesis by blast
qed

text \<open>The router, in whatever state the failover finds it, is a failover source over the
  configured targets of the umbrella model.\<close>

definition proposal :: "string \<Rightarrow> virtual_model \<Rightarrow> capability \<Rightarrow> string set \<Rightarrow> string \<Rightarrow> bool" where
  "proposal vid vm cap exclude t \<longleftrightarrow>
     (\<exists>env r res d. registry_inv (ro_registry r)
        \<and> map_of (items (rt_virtual_models (ro_routing r))) vid = Some vm
        \<and> fst (ResolveNext env r vid cap exclude) = Inr res \<and> rr_selection res = Some d \<and> t = sd_selected_target d)"

interpretation umbrella: failover_source "proposal vid vm cap" trim_space "trim_space ` set (items (vm_targets vm))"
proof
  fix tried :: "string set" and t
  assume "proposal vid vm cap tried t"
  then obtain env r res d where *: "registry_inv (ro_registry r)"
    "map_of (items (rt_virtual_models (ro_routing r))) vid = Some vm"
    "fst (ResolveNext env r vid cap tried) = Inr res" "rr_selection res = Some d" "t = sd_selected_target d"
    unfolding proposal_def by blast
  then have "SelectPriorityTargetExcluding vid (ordered_targets r vid vm cap) cap (Some (fst (buildAvailabilitySnapshot env r))) tried = Inr d"
    using ResolveNext_Inr by fastforce
  with *(5) select_Some(1,2) ordered_targets_set show "trim_space t \<in> trim_space ` set (items (vm_targets vm)) \<and> trim_space t \<notin> tried"
    by (metis (no_types, lifting) image_eqI target_active_iff)
qed simp

definition route_ok :: "router \<Rightarrow> capability \<Rightarrow> route_result \<Rightarrow> bool" where
  "route_ok r cap res \<longleftrightarrow>
     registry_Get (ro_registry r) (pr_id (rr_provider res)) = Inr (rr_provider res) \<and> hasCapability (rr_provider res) cap
     \<and> (\<forall>d. rr_selection res = Some d \<longrightarrow> pr_authenticated (rr_provider res)
          \<and> StripModelPrefix (trim_space (sd_selected_target d)) = (rr_model res, pr_id (rr_provider res), True))"

lemma route_ok_plain:
  "registry_inv (ro_registry r) \<Longrightarrow> registry_Get (ro_registry r) pid = Inr p \<Longrightarrow> hasCapability p cap \<Longrightarrow>
     route_ok r cap \<lparr>rr_provider = p, rr_model = m, rr_selection = None\<rparr>"
  using registry_Get_id by (auto simp: route_ok_def)

lemma discover_ok:
  "registry_inv (ro_registry r) \<Longrightarrow> res \<in> set (discoverFromCatalogs r model cap) \<Longrightarrow> route_ok r cap res"
  by (auto simp: discoverFromCatalogs_def map_filter_def registry_All_iff intro!: route_ok_plain split: if_splits option.splits)

lemma discover_selection: "res \<in> set (discoverFromCatalogs r model cap) \<Longrightarrow> rr_selection res = None"
  by (auto simp: discoverFromCatalogs_def map_filter_def split: if_splits option.splits)

lemma virtual_ok:
  "registry_inv (ro_registry r) \<Longrightarrow> fst (resolveVirtualModelExcluding env r vid vm cap exclude) = Inr res \<Longrightarrow> route_ok r cap res"
  using resolveVirtual_Inr unfolding route_ok_def by fastforce

lemma Resolve_ok:
  assumes "registry_inv (ro_registry r)" and "fst (Resolve env r requested cap) = Inr res"
  shows "route_ok r cap res"
proof -
  have "resolveWithPrefix r full bare pid cap = Inr res \<Longrightarrow> route_ok r cap res" for full bare pid
    by (auto simp: resolveWithPrefix_def intro!: route_ok_plain [OF assms(1)] split: if_splits sum.splits)
  moreover have "defaultProviderRoute r model cap = Inr res \<Longrightarrow> route_ok r cap res" for model
    by (auto simp: defaultProviderRoute_def Let_def intro!: route_ok_plain [OF assms(1)] split: if_splits sum.splits)
  moreover have "discoverFromCatalogs r model cap = [res] \<Longrightarrow> route_ok r cap res" for model
    using discover_ok [OF assms(1), of res model cap] by simp
  moreover obtain bare pid ok where
    strip: "StripModelPrefix (if requested = '''' then rt_default_model (ro_routing r) else requested) = (bare, pid, ok)"
    by (metis prod_cases3)
  ultimately show ?thesis
    using assms(2) virtual_ok [OF assms(1)] route_ok_plain [OF assms(1)]
    unfolding Resolve_def Let_def strip resolveVirtualModel_def prod.case
    by (auto split: option.splits sum.splits if_split_asm list.splits)
qed

lemma resolveVirtual_frame:
  "ro_registry (snd (resolveVirtualModelExcluding env r vid vm cap exclude)) = ro_registry r
   \<and> ro_routing (snd (resolveVirtualModelExcluding env r vid vm cap exclude)) = ro_routing r
   \<and> ro_preferred (snd (resolveVirtualModelExcluding env r vid vm cap exclude)) = ro_preferred r"
  by (simp add: resolveVirtualModelExcluding_def Let_def case_prod_unfold buildAvailabilitySnapshot_eq split: sum.split)

lemma Resolve_state:
  assumes "P r" and "\<And>vid vm. P (snd (resolveVirtualModelExcluding env r vid vm cap {}))"
  shows "P (snd (Resolve env r requested cap))"
proof -
  obtain bare pid ok where strip: "StripModelPrefix (if requested = '''' then rt_default_model (ro_routing r) else requested) = (bare, pid, ok)"
    by (metis prod_cases3)
  define model where "model = (if requested = '''' then rt_default_model (ro_routing r) else requested)"
  define entry where "entry = (case map_of (items (rt_model_map (ro_routing r))) model of Some e \<Rightarrow> Some e
      | None \<Rightarrow> if ok then map_of (items (rt_model_map (ro_routing r))) bare else None)"
  note unfold = Resolve_def Let_def model_def [symmetric] strip [folded model_def] resolveVirtualModel_def prod.case
    entry_def [symmetric]
  show ?thesis
  proof (cases entry)
    case None
    show ?thesis
    proof (cases "map_of (items (rt_virtual_models (ro_routing r))) model")
      case vm: None
      show ?thesis
        unfolding unfold None vm option.case
        by (simp add: assms(1) split: list.split)
    qed (unfold unfold None, simp add: assms)
  next
    case (Some e)
    then show ?thesis
      unfolding unfold by (simp add: assms(1) split: sum.split)
  qed
qed

lemma Resolve_frame:
  "ro_registry (snd (Resolve env r requested cap)) = ro_registry r
   \<and> ro_routing (snd (Resolve env r requested cap)) = ro_routing r
   \<and> ro_preferred (snd (Resolve env r requested cap)) = ro_preferred r"
  by (rule Resolve_state) (simp_all add: resolveVirtual_frame)

section \<open>Properties\<close>

text \<open>C5: whatever way a request resolves (model map, provider prefix, umbrella model,
  catalog or default), the chosen provider is one of the registered ones and supports the
  requested capability, and for an umbrella model it is also authenticated and the upstream
  model is the selected target without its prefix. Resolution changes neither the registry
  nor the routing configuration nor the preferences.\<close>

theorem resolve_sound:
  assumes "registry_inv (ro_registry r)" and "Resolve env r requested cap = (out, r')"
  shows "(\<forall>res. out = Inr res \<longrightarrow>
        registry_Get (ro_registry r) (pr_id (rr_provider res)) = Inr (rr_provider res)
        \<and> hasCapability (rr_provider res) cap
        \<and> (\<forall>d. rr_selection res = Some d \<longrightarrow> pr_authenticated (rr_provider res)
             \<and> StripModelPrefix (trim_space (sd_selected_target d)) = (rr_model res, pr_id (rr_provider res), True)))
    \<and> ro_registry r' = ro_registry r \<and> ro_routing r' = ro_routing r \<and> ro_preferred r' = ro_preferred r"
proof -
  have "out = Inr res \<Longrightarrow> route_ok r cap res" for res
    using Resolve_ok [OF assms(1)] assms(2) by (metis fst_conv)
  moreover have "ro_registry r' = ro_registry r \<and> ro_routing r' = ro_routing r \<and> ro_preferred r' = ro_preferred r"
    using Resolve_frame [of env r requested cap] assms(2) by simp
  ultimately show ?thesis unfolding route_ok_def by blast
qed

definition sample_router :: router where
  "sample_router = NewRouterWithRegistries (Freeze sample_providers) sample_routing None None"

definition sample_env :: routing_env where
  "sample_env = \<lparr>ev_clock = (\<lambda>i. 1000 + int i), ev_io = (\<lambda>i. PersistDone)\<rparr>"

lemma sample_router_inv: "registry_inv (ro_registry sample_router)"
proof -
  have "ro_registry sample_router = Freeze (NewRegistry [Some (sample_provider Codex), None, Some (sample_provider Kilo), Some (sample_provider Codex)])"
    by (simp add: sample_router_def NewRouterWithRegistries_def sample_providers_def)
  then show ?thesis using registry_inv_NewRegistry by (auto simp: registry_inv_def Freeze_def)
qed

theorem resolve_sound_witness:
  "\<exists>res. fst (Resolve sample_env sample_router ''thiendu'' CapabilityChat) = Inr res
     \<and> hasCapability (rr_provider res) CapabilityChat
     \<and> StripModelPrefix ''codex/gpt-5'' = (rr_model res, pr_id (rr_provider res), True)"
proof -
  obtain out r' where eq: "Resolve sample_env sample_router ''thiendu'' CapabilityChat = (out, r')" by fastforce
  have sel: "(case fst (Resolve sample_env sample_router ''thiendu'' CapabilityChat) of
       Inr res \<Rightarrow> map_option sd_selected_target (rr_selection res) | Inl _ \<Rightarrow> None) = Some ''codex/gpt-5''" by code_simp
  then obtain res d where res: "out = Inr res" "rr_selection res = Some d" "sd_selected_target d = ''codex/gpt-5''"
    by (cases out) (auto simp: eq)
  have "trim_space ''codex/gpt-5'' = ''codex/gpt-5''" by code_simp
  with resolve_sound [OF sample_router_inv eq] res show ?thesis by (simp add: eq)
qed

lemma build_snapshot_preferred:
  "fst (buildAvailabilitySnapshot env (r\<lparr>ro_preferred := q\<rparr>)) = fst (buildAvailabilitySnapshot env r)"
  by (simp add: buildAvailabilitySnapshot_eq build_views_preferred)

lemma reorder_front:
  assumes "trim_space t \<in> trim_space ` set (items (vm_targets vm))"
  shows "\<exists>rest. items (vm_targets (reorderVMTargets vm t)) = t # rest"
  using assms by (force simp: reorderVMTargets_def Let_def list_ex_iff)

text \<open>The two strategies of umbrella models. Under \<open>quota_priority\<close> a success leaves no
  preference behind and the target chosen is always the first active one in the configured
  order, whatever preferences are stored. Under \<open>priority\<close> a target recorded as preferred is
  chosen for the next request as long as it is active.\<close>

theorem strategy_correct:
  assumes "registry_inv (ro_registry r)"
    and "map_of (items (rt_virtual_models (ro_routing r))) vid = Some vm"
    and "fst (buildAvailabilitySnapshot env r) = snap"
  shows "(vm_strategy vm = VirtualModelStrategyQuotaPriority \<longrightarrow>
        RecordPreferred r vid cap t = r
        \<and> (case fst (ResolveNext env (r\<lparr>ro_preferred := q\<rparr>) vid cap exclude) of
             Inl _ \<Rightarrow> first_active (Some snap) exclude cap (items (vm_targets vm)) = None
           | Inr res \<Rightarrow> map_option sd_selected_target (rr_selection res)
               = first_active (Some snap) exclude cap (items (vm_targets vm))))
    \<and> (vm_strategy vm = VirtualModelStrategyPriority \<and> vid \<noteq> '''' \<and> cap \<noteq> '''' \<and> t \<noteq> ''''
       \<and> t \<in> set (items (vm_targets vm)) \<and> target_active (Some snap) exclude cap t \<longrightarrow>
        (\<exists>res d. fst (ResolveNext env (RecordPreferred r vid cap t) vid cap exclude) = Inr res
           \<and> rr_selection res = Some d \<and> sd_selected_target d = t))"
proof (intro conjI impI)
  assume quota: "vm_strategy vm = VirtualModelStrategyQuotaPriority"
  then show "RecordPreferred r vid cap t = r"
    using assms(2) by (simp add: RecordPreferred_def strategy_defs)
  let ?r = "r\<lparr>ro_preferred := q\<rparr>"
  have ord: "ordered_targets ?r vid vm cap = vm" using quota by (simp add: ordered_targets_def strategy_defs)
  have next_eq: "fst (ResolveNext env ?r vid cap exclude) = fst (resolveVirtualModelExcluding env ?r vid vm cap exclude)"
    using assms(2) by (simp add: ResolveNext_def)
  have sel: "map_option sd_selected_target (case SelectPriorityTargetExcluding vid vm cap (Some snap) exclude of Inl _ \<Rightarrow> None | Inr d \<Rightarrow> Some d)
     = first_active (Some snap) exclude cap (items (vm_targets vm))" by (rule select_first_active)
  have "registry_inv (ro_registry ?r)" using assms(1) by simp
  from resolveVirtual_cases [OF this, of env vid vm cap exclude] sel
  show "case fst (ResolveNext env ?r vid cap exclude) of
             Inl _ \<Rightarrow> first_active (Some snap) exclude cap (items (vm_targets vm)) = None
           | Inr res \<Rightarrow> map_option sd_selected_target (rr_selection res)
               = first_active (Some snap) exclude cap (items (vm_targets vm))"
    unfolding next_eq ord build_snapshot_preferred assms(3) by (auto split: sum.splits)
next
  assume pri: "vm_strategy vm = VirtualModelStrategyPriority \<and> vid \<noteq> '''' \<and> cap \<noteq> '''' \<and> t \<noteq> ''''
       \<and> t \<in> set (items (vm_targets vm)) \<and> target_active (Some snap) exclude cap t"
  let ?r = "RecordPreferred r vid cap t"
  have r: "?r = r\<lparr>ro_preferred := Preferred_Set (ro_preferred r) vid cap t\<rparr>"
    using pri assms(2) by (simp add: RecordPreferred_def)
  have ord: "ordered_targets ?r vid vm cap = reorderVMTargets vm t"
    using pri by (simp add: r ordered_targets_def Preferred_Get_def Preferred_Set_def)
  obtain rest where front: "items (vm_targets (reorderVMTargets vm t)) = t # rest"
    using reorder_front [of t vm] pri by blast
  have snap: "fst (buildAvailabilitySnapshot env ?r) = snap" unfolding r build_snapshot_preferred by (rule assms(3))
  have "first_active (Some snap) exclude cap (items (vm_targets (reorderVMTargets vm t))) = Some t"
    using pri by (simp add: front first_active_def)
  with select_first_active [of vid "reorderVMTargets vm t" cap "Some snap" exclude]
  obtain d where d: "SelectPriorityTargetExcluding vid (reorderVMTargets vm t) cap (Some snap) exclude = Inr d"
    "sd_selected_target d = t" by (auto split: sum.splits)
  have "registry_inv (ro_registry ?r)" "map_of (items (rt_virtual_models (ro_routing ?r))) vid = Some vm"
    using assms(1,2) by (simp_all add: r)
  with resolveVirtual_cases [of ?r env vid vm cap exclude] d
  show "\<exists>res d. fst (ResolveNext env ?r vid cap exclude) = Inr res \<and> rr_selection res = Some d \<and> sd_selected_target d = t"
    unfolding ord snap by (auto simp: ResolveNext_def)
qed

theorem strategy_correct_witness:
  "\<exists>res d. fst (ResolveNext sample_env (RecordPreferred sample_router ''thiendu'' CapabilityChat '' kilo/free '') ''thiendu'' CapabilityChat {}) = Inr res
     \<and> rr_selection res = Some d \<and> sd_selected_target d = '' kilo/free ''"
proof -
  have vm: "map_of (items (rt_virtual_models (ro_routing sample_router))) ''thiendu'' =
      Some \<lparr>vm_strategy = ''priority'', vm_targets = Some [''codex/gpt-5'', '' kilo/free '']\<rparr>"
    by (simp add: sample_router_def NewRouterWithRegistries_def sample_routing_def zero_config_def)
  have "target_active (Some (fst (buildAvailabilitySnapshot sample_env sample_router))) {} CapabilityChat '' kilo/free ''"
    by code_simp
  with strategy_correct [where env = sample_env and cap = CapabilityChat and t = "'' kilo/free ''" and q = "[]" and exclude = "{}",
    OF sample_router_inv vm refl]
  show ?thesis by (simp add: strategy_defs CapabilityChat_def)
qed

text \<open>A failing outcome on a well-formed target leaves a cooldown entry for it.\<close>

lemma RecordOutcome_failure:
  assumes "StripModelPrefix (sd_selected_target d) = (bare, pid, True)"
    and "trim_space bare \<noteq> ''''" and "sd_capability d \<noteq> ''''"
    and "cooldownPolicy status err retryAfter = Some x"
  shows "\<exists>k e. (k, e) \<in> set (cr_entries (ro_cooldowns (RecordOutcome io now r (Some d) status err retryAfter)))
    \<and> ce_provider e = pid \<and> ce_model e = trim_space bare \<and> ce_capability e = sd_capability d
    \<and> now + 15 * second \<le> ce_until e"
proof -
  obtain reason hint where x: "x = (reason, hint)" by fastforce
  have valid: "validCooldownReason reason" and fail: "\<not> (status \<ge> 200 \<and> status < 300 \<and> err = None)"
    using assms(4) by (auto simp: x cooldownPolicy_def cooldownReason_def validCooldownReason_def split: option.splits if_splits)
  have "pid \<noteq> ''''" using StripModelPrefix_known [OF assms(1)] by (auto simp: provider_id_defs)
  then have "fst (snd (Record io now (ro_cooldowns r) pid bare (sd_capability d) reason hint))"
    using assms(2,3) valid by (simp add: Record_entered)
  then obtain until cds where rec: "Record io now (ro_cooldowns r) pid bare (sd_capability d) reason hint = (until, True, cds)"
    by (metis prod.collapse)
  have eq: "ro_cooldowns (RecordOutcome io now r (Some d) status err retryAfter) = cds"
    using fail by (auto simp: RecordOutcome_def assms(1,4) x rec)
  obtain e where e: "map_of (cr_entries cds) (cooldownEntryKey pid bare (sd_capability d)) = Some e"
    "ce_provider e = pid" "ce_model e = trim_space bare" "ce_capability e = sd_capability d" "ce_until e = until"
    using Record_entries [OF rec] by auto
  have "now + 15 * second \<le> until"
    using Record_until [OF rec] .
  with e eq show ?thesis by (auto dest: map_of_SomeD)
qed


definition sample_decision :: selection_decision where
  "sample_decision = \<lparr>sd_virtual_model = ''thiendu'', sd_strategy = ''priority'', sd_selected_target = ''codex/gpt-5'',
     sd_selected_index = 0, sd_generation = 0, sd_catalog_fetched_at = 0, sd_catalog_stale = False,
     sd_capability = CapabilityChat, sd_skipped = []\<rparr>"

definition sample_env2 :: routing_env where
  "sample_env2 = \<lparr>ev_clock = (\<lambda>i. 2000), ev_io = (\<lambda>i. PersistDone)\<rparr>"


text \<open>A plain model ID, one that is neither mapped nor prefixed nor an umbrella model,
  resolves exactly when a single registered provider with the capability lists it (ignoring
  case), and then to that provider, unchanged; with none or several it is refused.\<close>

theorem plain_model_unique_provider:
  assumes "registry_inv (ro_registry r)" and "model \<noteq> ''''"
    and "map_of (items (rt_model_map (ro_routing r))) model = None"
    and "snd (snd (StripModelPrefix model)) = False"
    and "map_of (items (rt_virtual_models (ro_routing r))) model = None"
  shows "(case fst (Resolve env r model cap) of
      Inr res \<Rightarrow> {p \<in> set (registry_All (ro_registry r)). hasCapability p cap
            \<and> (\<exists>ms. pr_list_models p = Some ms \<and> (\<exists>m \<in> set ms. equal_fold m model))} = {rr_provider res}
          \<and> rr_model res = model
    | Inl _ \<Rightarrow> \<nexists>!p. p \<in> set (registry_All (ro_registry r)) \<and> hasCapability p cap
            \<and> (\<exists>ms. pr_list_models p = Some ms \<and> (\<exists>m \<in> set ms. equal_fold m model)))"
proof -
  let ?lists = "\<lambda>p. hasCapability p cap \<and> (\<exists>ms. pr_list_models p = Some ms \<and> (\<exists>m \<in> set ms. equal_fold m model))"
  let ?all = "registry_All (ro_registry r)"
  obtain bare pid where strip: "StripModelPrefix model = (bare, pid, False)"
    using assms(4) by (cases "StripModelPrefix model") auto
  have disc: "discoverFromCatalogs r model cap = map (\<lambda>p. \<lparr>rr_provider = p, rr_model = model, rr_selection = None\<rparr>) (filter ?lists ?all)"
  proof -
    have "List.map_filter (\<lambda>p. if \<not> hasCapability p cap then None
            else case pr_list_models p of None \<Rightarrow> None
            | Some ms \<Rightarrow> if list_ex (\<lambda>m. equal_fold m model) ms
                then Some \<lparr>rr_provider = p, rr_model = model, rr_selection = None\<rparr> else None) ps
        = map (\<lambda>p. \<lparr>rr_provider = p, rr_model = model, rr_selection = None\<rparr>) (filter ?lists ps)" for ps
      by (induction ps) (auto simp: map_filter_simps list_ex_iff split: option.splits)
    then show ?thesis by (simp only: discoverFromCatalogs_def)
  qed
  have res: "fst (Resolve env r model cap) = (case discoverFromCatalogs r model cap of
      [] \<Rightarrow> Inl (ModelUnavailable model cap) | [res] \<Rightarrow> Inr res
    | cs \<Rightarrow> Inl (ModelAmbiguous model (map (pr_id \<circ> rr_provider) cs)))"
    using assms(2,3,5) by (simp add: Resolve_def Let_def strip split: list.split)
  have dist: "distinct (filter ?lists ?all)"
    using registry_All_distinct [OF assms(1)] by (simp add: distinct_map)
  have set: "set (filter ?lists ?all) = {p \<in> set ?all. ?lists p}" by auto
  show ?thesis
  proof (cases "filter ?lists ?all")
    case Nil
    then have "{p \<in> set ?all. ?lists p} = {}" using set by simp
    with Nil show ?thesis by (auto simp: res disc)
  next
    case (Cons p ps)
    show ?thesis
    proof (cases ps)
      case Nil
      then show ?thesis using Cons set by (simp add: res disc)
    next
      case (Cons q qs)
      then have "p \<noteq> q" "p \<in> {p \<in> set ?all. ?lists p}" "q \<in> {p \<in> set ?all. ?lists p}"
        using \<open>filter ?lists ?all = p # ps\<close> dist set by auto
      then have "\<nexists>!p. p \<in> set ?all \<and> ?lists p" by blast
      with Cons \<open>filter ?lists ?all = p # ps\<close> show ?thesis by (simp add: res disc)
    qed
  qed
qed

theorem plain_model_unique_provider_witness:
  "\<nexists>!p. p \<in> set (registry_All (ro_registry sample_router)) \<and> hasCapability p CapabilityChat
      \<and> (\<exists>ms. pr_list_models p = Some ms \<and> (\<exists>m \<in> set ms. equal_fold m ''GPT-5''))"
proof -
  have "\<not> is_ok (fst (Resolve sample_env sample_router ''GPT-5'' CapabilityChat))" by code_simp
  moreover have "map_of (items (rt_model_map (ro_routing sample_router))) ''GPT-5'' = None" by code_simp
  moreover have "snd (snd (StripModelPrefix ''GPT-5'')) = False" by code_simp
  moreover have "map_of (items (rt_virtual_models (ro_routing sample_router))) ''GPT-5'' = None" by code_simp
  ultimately show ?thesis
    using plain_model_unique_provider [where model = "''GPT-5''" and env = sample_env and cap = CapabilityChat, OF sample_router_inv]
    by (auto simp: is_ok_def split: sum.splits)
qed

end
