(* ===== verification/Http_Writers.thy ===== *)
theory Http_Writers
  imports Json_Body
begin

text \<open>
  The response writers a proxied request passes through, from the client inwards:

  \<^item> \<open>client\<close>: the \<open>net/http\<close> response. \<open>WriteHeader\<close> sends the status with the headers set so
    far, once; a write sends 200 first if nothing was sent. \<open>cl_broken\<close> says that the
    connection is gone, so that writes fail.
  \<^item> \<open>response_wrapper\<close> (\<open>src/proxy.go\<close>): counts what was sent.
  \<^item> \<open>attempt_writer\<close> (\<open>src/proxy.go\<close>): holds back the status and the body of one failover
    attempt until it is committed. Its headers are those of the real writer.
  \<^item> \<open>virtual_writer\<close> (\<open>src/virtual_model_response.go\<close>): buffers a response to put the
    umbrella model's name into it, line by line once it is flushed.
  \<^item> \<open>usage_writer\<close> (\<open>src/usage_sniffer.go\<close>): keeps a bounded copy of what passes.

  What a provider does with its writer is a list of \<open>rw_action\<close>s. Flushing the connection
  sends the headers set so far with status 200 if nothing was sent.
\<close>

section \<open>The client\<close>

type_synonym header = "(string, string list) gomap"

record client =
  cl_header :: header
  cl_sent :: "(int \<times> header) option"
  cl_body :: string
  cl_broken :: bool

definition client_WriteHeader :: "int \<Rightarrow> client \<Rightarrow> client" where
  "client_WriteHeader code c = (if cl_sent c = None then c\<lparr>cl_sent := Some (code, cl_header c)\<rparr> else c)"

text \<open>A write answers whether it succeeded.\<close>

definition client_Write :: "string \<Rightarrow> client \<Rightarrow> bool \<times> client" where
  "client_Write data c =
     (let c = client_WriteHeader 200 c in
      if cl_broken c then (False, c) else (True, c\<lparr>cl_body := cl_body c @ data\<rparr>))"

definition client_Flush :: "client \<Rightarrow> client" where
  "client_Flush c = client_WriteHeader 200 c"

definition header_add :: "string \<Rightarrow> string \<Rightarrow> header \<Rightarrow> header" where
  "header_add k v h = AList.update k ((case map_of h k of None \<Rightarrow> [] | Some vs \<Rightarrow> vs) @ [v]) h"

definition header_get :: "string \<Rightarrow> header \<Rightarrow> string" where
  "header_get k h = (case map_of h k of Some (v # vs) \<Rightarrow> v | _ \<Rightarrow> '''')"

section \<open>responseWrapper\<close>

record response_wrapper =
  rw_client :: client
  rw_headers_sent :: bool
  rw_status_code :: int
  rw_bytes_written :: nat

definition rw_WriteHeader :: "int \<Rightarrow> response_wrapper \<Rightarrow> response_wrapper" where
  "rw_WriteHeader code rw =
     (if rw_headers_sent rw then rw
      else rw\<lparr>rw_headers_sent := True, rw_status_code := code, rw_client := client_WriteHeader code (rw_client rw)\<rparr>)"

definition rw_Write :: "string \<Rightarrow> response_wrapper \<Rightarrow> bool \<times> response_wrapper" where
  "rw_Write data rw =
     (let rw = (if rw_headers_sent rw then rw else rw_WriteHeader 200 rw);
          (ok, c) = client_Write data (rw_client rw)
      in (ok, rw\<lparr>rw_client := c, rw_bytes_written := rw_bytes_written rw + (if ok then length data else 0)\<rparr>))"

text \<open>A flush goes to the connection and leaves the wrapper's own account as it is.\<close>

definition rw_Flush :: "response_wrapper \<Rightarrow> response_wrapper" where
  "rw_Flush rw = rw\<lparr>rw_client := client_Flush (rw_client rw)\<rparr>"

definition rw_StatusCode :: "response_wrapper \<Rightarrow> int" where
  "rw_StatusCode rw = (if rw_status_code rw = 0 \<and> rw_headers_sent rw then 200 else rw_status_code rw)"

definition rw_header :: "response_wrapper \<Rightarrow> header" where
  "rw_header rw = cl_header (rw_client rw)"

definition rw_set_header :: "header \<Rightarrow> response_wrapper \<Rightarrow> response_wrapper" where
  "rw_set_header h rw = rw\<lparr>rw_client := (rw_client rw)\<lparr>cl_header := h\<rparr>\<rparr>"

section \<open>attemptResponseWriter\<close>

record attempt_writer =
  at_status_code :: int
  at_headers_sent :: bool
  at_output_committed :: bool
  at_buf :: string

definition newAttemptResponseWriter :: attempt_writer where
  "newAttemptResponseWriter = \<lparr>at_status_code = 0, at_headers_sent = False, at_output_committed = False, at_buf = ''''\<rparr>"

definition at_WriteHeader :: "int \<Rightarrow> attempt_writer \<Rightarrow> attempt_writer" where
  "at_WriteHeader code a = (if at_headers_sent a then a else a\<lparr>at_headers_sent := True, at_status_code := code\<rparr>)"

definition at_StatusCode :: "attempt_writer \<Rightarrow> int" where
  "at_StatusCode a = (if at_status_code a = 0 then 200 else at_status_code a)"

definition CommitToReal :: "attempt_writer \<times> response_wrapper \<Rightarrow> bool \<times> attempt_writer \<times> response_wrapper" where
  "CommitToReal s =
     (case s of (a, rw) \<Rightarrow>
       if at_output_committed a then (True, a, rw)
       else
         (let a = a\<lparr>at_output_committed := True\<rparr>; rw = rw_WriteHeader (at_StatusCode a) rw in
          if at_buf a \<noteq> ''''
          then (let (ok, rw) = rw_Write (at_buf a) rw in (ok, a\<lparr>at_buf := ''''\<rparr>, rw))
          else (True, a, rw)))"

definition at_Write :: "string \<Rightarrow> attempt_writer \<times> response_wrapper \<Rightarrow> bool \<times> attempt_writer \<times> response_wrapper" where
  "at_Write data s =
     (case s of (a, rw) \<Rightarrow>
       if at_output_committed a then (let (ok, rw) = rw_Write data rw in (ok, a, rw))
       else if 200 \<le> at_StatusCode a \<and> at_StatusCode a < 300
       then (let (_, a, rw) = CommitToReal (a, rw); (ok, rw) = rw_Write data rw in (ok, a, rw))
       else (True, a\<lparr>at_buf := at_buf a @ data\<rparr>, rw))"

section \<open>virtualModelResponseWriter\<close>

record virtual_writer =
  vw_model :: string
  vw_status_code :: int
  vw_headers_sent :: bool
  vw_streaming :: bool
  vw_body :: string
  vw_stream_pending :: string

definition newVirtualModelResponseWriter :: "string \<Rightarrow> virtual_writer" where
  "newVirtualModelResponseWriter model = \<lparr>vw_model = model, vw_status_code = 0, vw_headers_sent = False,
     vw_streaming = False, vw_body = '''', vw_stream_pending = ''''\<rparr>"

type_synonym writer_stack = "virtual_writer \<times> attempt_writer \<times> response_wrapper"

definition vw_WriteHeader :: "int \<Rightarrow> virtual_writer \<Rightarrow> virtual_writer" where
  "vw_WriteHeader code v = (if vw_headers_sent v then v else v\<lparr>vw_headers_sent := True, vw_status_code := code\<rparr>)"

definition vw_StatusCode :: "virtual_writer \<Rightarrow> int" where
  "vw_StatusCode v = (if vw_status_code v = 0 then 200 else vw_status_code v)"

definition commitHeaders :: "writer_stack \<Rightarrow> writer_stack" where
  "commitHeaders s =
     (case s of (v, a, rw) \<Rightarrow>
       (v, at_WriteHeader (vw_StatusCode v) a, rw_set_header (AList.delete ''Content-Length'' (rw_header rw)) rw))"

lemma length_after_dropWhile: "dropWhile P xs = y # ys \<Longrightarrow> length ys < length xs"
  using length_dropWhile_le [of P xs] by simp

text \<open>The loop of \<open>writeStream\<close>: whole lines of the pending bytes are written, the rest stays.\<close>

function write_lines ::
    "json_codec \<Rightarrow> string \<Rightarrow> string \<Rightarrow> attempt_writer \<times> response_wrapper \<Rightarrow> bool \<times> string \<times> attempt_writer \<times> response_wrapper" where
  "write_lines codec model pending s =
     (case dropWhile (\<lambda>c. c \<noteq> newline) pending of
        [] \<Rightarrow> (True, pending, s)
      | nl # rest \<Rightarrow>
          (let line = takeWhile (\<lambda>c. c \<noteq> newline) pending @ [newline];
               (ok, s) = at_Write (rewriteSSEModelLine codec model line) s
           in if \<not> ok then (False, rest, s) else write_lines codec model rest s))"
  by pat_completeness auto
termination
  by (relation "measure (\<lambda>(codec, model, pending, s). length pending)") (auto dest: length_after_dropWhile)

declare write_lines.simps [simp del]

definition writeStream :: "json_codec \<Rightarrow> string \<Rightarrow> writer_stack \<Rightarrow> bool \<times> writer_stack" where
  "writeStream codec body s =
     (case s of (v, a, rw) \<Rightarrow>
       (case write_lines codec (vw_model v) (vw_stream_pending v @ body) (a, rw) of
          (ok, pending, a, rw) \<Rightarrow> (ok, v\<lparr>vw_stream_pending := pending\<rparr>, a, rw)))"

definition vw_Write :: "json_codec \<Rightarrow> string \<Rightarrow> writer_stack \<Rightarrow> bool \<times> writer_stack" where
  "vw_Write codec body s =
     (case s of (v, a, rw) \<Rightarrow>
       if vw_streaming v then writeStream codec body (v, a, rw)
       else (True, v\<lparr>vw_body := vw_body v @ body\<rparr>, a, rw))"

definition vw_Flush :: "json_codec \<Rightarrow> writer_stack \<Rightarrow> writer_stack" where
  "vw_Flush codec s =
     (case s of (v, a, rw) \<Rightarrow>
       if vw_streaming v then s
       else
         (case commitHeaders (v\<lparr>vw_streaming := True\<rparr>, a, rw) of (v, a, rw) \<Rightarrow>
            if vw_body v = '''' then (v, a, rw)
            else (case snd (writeStream codec (vw_body v) (v, a, rw)) of (v, a, rw) \<Rightarrow> (v\<lparr>vw_body := ''''\<rparr>, a, rw))))"

definition vw_Commit :: "json_codec \<Rightarrow> writer_stack \<Rightarrow> bool \<times> writer_stack" where
  "vw_Commit codec s =
     (case s of (v, a, rw) \<Rightarrow>
       if vw_streaming v then
         (if vw_stream_pending v = '''' then (True, s)
          else (case at_Write (rewriteSSEModelLine codec (vw_model v) (vw_stream_pending v)) (a, rw) of
                  (ok, a, rw) \<Rightarrow> if \<not> ok then (False, v, a, rw) else (True, v\<lparr>vw_stream_pending := ''''\<rparr>, a, rw)))
       else
         (case commitHeaders (v, a, rw) of (v, a, rw) \<Rightarrow>
            (case at_Write (rewriteModelJSON codec (vw_model v) (vw_body v)) (a, rw) of
               (ok, a, rw) \<Rightarrow> (ok, v, a, rw))))"

section \<open>usageSniffWriter\<close>

definition usageSniffMaxBytes :: int where
  "usageSniffMaxBytes = 1048576"

record usage_writer =
  uw_buf :: string
  uw_capped :: bool

definition uw_Write :: "string \<Rightarrow> usage_writer \<Rightarrow> usage_writer" where
  "uw_Write p s =
     (if uw_capped s then s
      else if int (length (uw_buf s)) + int (length p) > usageSniffMaxBytes then s\<lparr>uw_capped := True, uw_buf := ''''\<rparr>
      else s\<lparr>uw_buf := uw_buf s @ p\<rparr>)"

section \<open>Running a provider\<close>

datatype rw_action = AddHeader string string | SetHeader string string | WriteStatus int | WriteBody string | DoFlush

text \<open>Through the umbrella stack, and directly on the wrapper for explicit routes.\<close>

fun run_action :: "json_codec \<Rightarrow> rw_action \<Rightarrow> usage_writer \<times> writer_stack \<Rightarrow> usage_writer \<times> writer_stack" where
  "run_action codec (AddHeader k x) (u, v, a, rw) = (u, v, a, rw_set_header (header_add k x (rw_header rw)) rw)"
| "run_action codec (SetHeader k x) (u, v, a, rw) = (u, v, a, rw_set_header (AList.update k [x] (rw_header rw)) rw)"
| "run_action codec (WriteStatus code) (u, v, a, rw) = (u, vw_WriteHeader code v, a, rw)"
| "run_action codec (WriteBody data) (u, s) = (uw_Write data u, snd (vw_Write codec data s))"
| "run_action codec DoFlush (u, s) = (u, vw_Flush codec s)"

definition run_actions :: "json_codec \<Rightarrow> rw_action list \<Rightarrow> usage_writer \<times> writer_stack \<Rightarrow> usage_writer \<times> writer_stack" where
  "run_actions codec acts s = fold (run_action codec) acts s"

fun run_direct :: "rw_action \<Rightarrow> usage_writer \<times> response_wrapper \<Rightarrow> usage_writer \<times> response_wrapper" where
  "run_direct (AddHeader k x) (u, rw) = (u, rw_set_header (header_add k x (rw_header rw)) rw)"
| "run_direct (SetHeader k x) (u, rw) = (u, rw_set_header (AList.update k [x] (rw_header rw)) rw)"
| "run_direct (WriteStatus code) (u, rw) = (u, rw_WriteHeader code rw)"
| "run_direct (WriteBody data) (u, rw) = (uw_Write data u, snd (rw_Write data rw))"
| "run_direct DoFlush (u, rw) = (u, rw_Flush rw)"

section \<open>Discarding and committing attempts\<close>

text \<open>What the client has received so far, headers still to be sent left aside.\<close>

definition received :: "response_wrapper \<Rightarrow> (int \<times> header) option \<times> string \<times> bool \<times> int \<times> nat" where
  "received rw = (cl_sent (rw_client rw), cl_body (rw_client rw), rw_headers_sent rw, rw_status_code rw, rw_bytes_written rw)"

definition unsent :: "response_wrapper \<Rightarrow> bool" where
  "unsent rw \<longleftrightarrow> cl_sent (rw_client rw) = None \<and> \<not> rw_headers_sent rw"

definition sent_status :: "response_wrapper \<Rightarrow> int option" where
  "sent_status rw = map_option fst (cl_sent (rw_client rw))"

text \<open>The contract of an attempt writer over a client that had received \<open>rw0\<close>: nothing
  reaches the client before the commit, and a commit is of a 2xx status.\<close>

definition attempt_inv :: "response_wrapper \<Rightarrow> attempt_writer \<times> response_wrapper \<Rightarrow> bool" where
  "attempt_inv rw0 s \<longleftrightarrow>
     (case s of (a, rw) \<Rightarrow>
       if at_output_committed a
       then at_headers_sent a \<and> 200 \<le> at_StatusCode a \<and> at_StatusCode a < 300
            \<and> rw_headers_sent rw \<and> sent_status rw = Some (at_StatusCode a)
       else received rw = received rw0)"

definition stack_inv :: "response_wrapper \<Rightarrow> writer_stack \<Rightarrow> bool" where
  "stack_inv rw0 s \<longleftrightarrow>
     (case s of (v, a, rw) \<Rightarrow> attempt_inv rw0 (a, rw) \<and> (vw_streaming v \<longleftrightarrow> at_headers_sent a))"

lemma received_set_header [simp]: "received (rw_set_header h rw) = received rw"
  by (simp add: received_def rw_set_header_def)

lemma sent_set_header [simp]: "sent_status (rw_set_header h rw) = sent_status rw"
  "rw_headers_sent (rw_set_header h rw) = rw_headers_sent rw"
  by (simp_all add: sent_status_def rw_set_header_def)

lemma received_unsent: "received rw = received rw0 \<Longrightarrow> unsent rw0 \<Longrightarrow> unsent rw"
  by (simp add: received_def unsent_def)

lemma rw_WriteHeader_unsent:
  "unsent rw \<Longrightarrow> rw_headers_sent (rw_WriteHeader code rw) \<and> sent_status (rw_WriteHeader code rw) = Some code"
  by (simp add: unsent_def rw_WriteHeader_def client_WriteHeader_def sent_status_def)

lemma rw_Write_sent:
  assumes "rw_headers_sent rw" and "sent_status rw = Some code" and "rw_Write data rw = (ok, rw')"
  shows "rw_headers_sent rw' \<and> sent_status rw' = Some code"
  using assms by (auto simp: rw_Write_def Let_def client_Write_def client_WriteHeader_def sent_status_def split: if_splits)

lemma CommitToReal_sent:
  assumes "unsent rw" and "\<not> at_output_committed a" and "CommitToReal (a, rw) = (ok, a', rw')"
  shows "at_output_committed a' \<and> at_StatusCode a' = at_StatusCode a \<and> at_headers_sent a' = at_headers_sent a
    \<and> rw_headers_sent rw' \<and> sent_status rw' = Some (at_StatusCode a)"
proof -
  note w = rw_WriteHeader_unsent [OF assms(1), of "at_StatusCode a"]
  have st: "at_StatusCode (a\<lparr>at_output_committed := True\<rparr>) = at_StatusCode a"
    "at_StatusCode (a\<lparr>at_output_committed := True, at_buf := b\<rparr>) = at_StatusCode a" for b
    by (simp_all add: at_StatusCode_def)
  show ?thesis
    using assms(2,3) w rw_Write_sent [OF w [THEN conjunct1] w [THEN conjunct2], of "at_buf a"]
    by (auto simp: CommitToReal_def Let_def st split: if_splits prod.splits)
qed

lemma at_Write_inv:
  assumes "attempt_inv rw0 (a, rw)" and "unsent rw0" and "at_headers_sent a" and "at_Write data (a, rw) = (ok, a', rw')"
  shows "attempt_inv rw0 (a', rw') \<and> at_headers_sent a' \<and> at_StatusCode a' = at_StatusCode a"
proof -
  consider (out) "at_output_committed a" | (good) "\<not> at_output_committed a" "200 \<le> at_StatusCode a \<and> at_StatusCode a < 300"
    | (bad) "\<not> at_output_committed a" "\<not> (200 \<le> at_StatusCode a \<and> at_StatusCode a < 300)" by blast
  then show ?thesis
  proof cases
    case out
    with assms show ?thesis
      by (auto simp: at_Write_def attempt_inv_def dest: rw_Write_sent split: prod.splits)
  next
    case good
    obtain ok1 a1 rw1 where c: "CommitToReal (a, rw) = (ok1, a1, rw1)" by (metis prod_cases3)
    have "unsent rw" using assms(1,2) good(1) received_unsent by (simp add: attempt_inv_def)
    note s = CommitToReal_sent [OF this good(1) c]
    obtain ok2 rw2 where w: "rw_Write data rw1 = (ok2, rw2)" by fastforce
    have "rw_headers_sent rw2 \<and> sent_status rw2 = Some (at_StatusCode a)" using rw_Write_sent s w by blast
    moreover have "a' = a1" "rw' = rw2" using assms(4) good by (simp_all add: at_Write_def c w)
    ultimately show ?thesis using s good assms(3) by (simp add: attempt_inv_def)
  next
    case bad
    with assms show ?thesis by (auto simp: at_Write_def attempt_inv_def at_StatusCode_def)
  qed
qed

lemma write_lines_inv:
  assumes "attempt_inv rw0 (a, rw)" and "unsent rw0" and "at_headers_sent a"
    and "write_lines codec model pending (a, rw) = (ok, pending', a', rw')"
  shows "attempt_inv rw0 (a', rw') \<and> at_headers_sent a' \<and> at_StatusCode a' = at_StatusCode a"
  using assms
proof (induction codec model pending "(a, rw)" arbitrary: a rw rule: write_lines.induct)
  case (1 codec model pending a rw)
  show ?case
  proof (cases "dropWhile (\<lambda>c. c \<noteq> newline) pending")
    case Nil
    with 1 show ?thesis by (subst (asm) (2) write_lines.simps) simp
  next
    case (Cons nl rest)
    obtain ok1 a1 rw1 where w: "at_Write (rewriteSSEModelLine codec model (takeWhile (\<lambda>c. c \<noteq> newline) pending @ [newline])) (a, rw) = (ok1, a1, rw1)"
      by (metis prod_cases3)
    note inv1 = at_Write_inv [OF "1.prems"(1-3) w]
    show ?thesis
    proof (cases ok1)
      case True
      have "write_lines codec model rest (a1, rw1) = (ok, pending', a', rw')"
        using "1.prems"(4) Cons w True by (subst (asm) write_lines.simps) simp
      with "1.hyps" [OF Cons refl w [symmetric] refl] True inv1 "1.prems"(2) show ?thesis by auto
    next
      case False
      then show ?thesis using "1.prems"(4) Cons w inv1 by (subst (asm) write_lines.simps) simp
    qed
  qed
qed

lemma writeStream_inv:
  assumes "stack_inv rw0 (v, a, rw)" and "unsent rw0" and "vw_streaming v"
    and "writeStream codec body (v, a, rw) = (ok, v', a', rw')"
  shows "stack_inv rw0 (v', a', rw') \<and> vw_streaming v' \<and> at_StatusCode a' = at_StatusCode a"
proof -
  obtain ok1 pending a1 rw1 where w: "write_lines codec (vw_model v) (vw_stream_pending v @ body) (a, rw) = (ok1, pending, a1, rw1)"
    by (metis prod_cases4)
  have "attempt_inv rw0 (a, rw)" "at_headers_sent a" using assms(1,3) by (simp_all add: stack_inv_def)
  from write_lines_inv [OF this(1) assms(2) this(2) w] assms(3,4) show ?thesis
    by (auto simp: writeStream_def w stack_inv_def)
qed

lemma commitHeaders_eq:
  "commitHeaders (v, a, rw) = (v, at_WriteHeader (vw_StatusCode v) a, rw_set_header (AList.delete ''Content-Length'' (rw_header rw)) rw)"
  by (simp add: commitHeaders_def)

lemma commitHeaders_inv:
  assumes "attempt_inv rw0 (a, rw)" and "\<not> at_headers_sent a"
  shows "attempt_inv rw0 (at_WriteHeader code a, rw_set_header h rw) \<and> at_headers_sent (at_WriteHeader code a)
    \<and> \<not> at_output_committed (at_WriteHeader code a)"
  using assms by (auto simp: attempt_inv_def at_WriteHeader_def split: if_splits)

lemma stack_inv_action:
  assumes "stack_inv rw0 (v, a, rw)" and "unsent rw0" and "run_action codec act (u, v, a, rw) = (u', v', a', rw')"
  shows "stack_inv rw0 (v', a', rw')"
proof (cases act)
  case (AddHeader k x)
  with assms show ?thesis by (auto simp: stack_inv_def attempt_inv_def split: if_splits)
next
  case (SetHeader k x)
  with assms show ?thesis by (auto simp: stack_inv_def attempt_inv_def split: if_splits)
next
  case (WriteStatus code)
  have "vw_streaming (vw_WriteHeader code v) = vw_streaming v" by (simp add: vw_WriteHeader_def)
  with WriteStatus assms show ?thesis by (auto simp: stack_inv_def)
next
  case (WriteBody data)
  show ?thesis
  proof (cases "vw_streaming v")
    case True
    have "writeStream codec data (v, a, rw) = (fst (writeStream codec data (v, a, rw)), v', a', rw')"
      using assms(3) WriteBody True by (simp add: vw_Write_def prod_eq_iff)
    from writeStream_inv [OF assms(1,2) True this] show ?thesis by blast
  qed (use assms WriteBody in \<open>auto simp: vw_Write_def stack_inv_def\<close>)
next
  case DoFlush
  show ?thesis
  proof (cases "vw_streaming v")
    case False
    let ?v = "v\<lparr>vw_streaming := True\<rparr>" and ?a = "at_WriteHeader (vw_StatusCode (v\<lparr>vw_streaming := True\<rparr>)) a"
      and ?rw = "rw_set_header (AList.delete ''Content-Length'' (rw_header rw)) rw"
    have ci: "attempt_inv rw0 (?a, ?rw) \<and> at_headers_sent ?a \<and> \<not> at_output_committed ?a"
      using assms(1) False by (intro commitHeaders_inv) (simp_all add: stack_inv_def)
    then have inv: "stack_inv rw0 (?v, ?a, ?rw)" by (simp add: stack_inv_def)
    obtain ok v2 a2 rw2 where w: "writeStream codec (vw_body ?v) (?v, ?a, ?rw) = (ok, v2, a2, rw2)" by (metis prod_cases4)
    from writeStream_inv [OF inv assms(2) _ w] have inv2: "stack_inv rw0 (v2, a2, rw2)" by simp
    show ?thesis
      using assms(3) DoFlush False inv inv2 w by (auto simp: vw_Flush_def commitHeaders_eq stack_inv_def split: if_splits)
  qed (use assms DoFlush in \<open>auto simp: vw_Flush_def\<close>)
qed

lemma stack_inv_actions:
  assumes "stack_inv rw0 (v, a, rw)" and "unsent rw0" and "run_actions codec acts (u, v, a, rw) = (u', v', a', rw')"
  shows "stack_inv rw0 (v', a', rw')"
  using assms
proof (induction acts arbitrary: u v a rw)
  case (Cons act acts)
  obtain u1 v1 a1 rw1 where r: "run_action codec act (u, v, a, rw) = (u1, v1, a1, rw1)" by (metis prod_cases4)
  then have "run_actions codec acts (u1, v1, a1, rw1) = (u', v', a', rw')"
    using Cons.prems(3) by (simp add: run_actions_def)
  with Cons.IH stack_inv_action [OF Cons.prems(1,2) r] Cons.prems(2) show ?case by blast
qed (simp add: run_actions_def)

lemma stack_inv_fresh: "stack_inv rw (newVirtualModelResponseWriter model, newAttemptResponseWriter, rw)"
  by (simp add: stack_inv_def attempt_inv_def newVirtualModelResponseWriter_def newAttemptResponseWriter_def)

lemma vw_Commit_inv:
  assumes "stack_inv rw0 (v, a, rw)" and "unsent rw0" and "vw_Commit codec (v, a, rw) = (ok, v', a', rw')"
  shows "attempt_inv rw0 (a', rw') \<and> vw_status_code v' = vw_status_code v \<and> vw_streaming v' = vw_streaming v
    \<and> (\<not> vw_streaming v \<longrightarrow> at_StatusCode a' = vw_StatusCode v
        \<and> (at_output_committed a' \<longleftrightarrow> 200 \<le> vw_StatusCode v \<and> vw_StatusCode v < 300))"
proof (cases "vw_streaming v")
  case True
  then have a: "attempt_inv rw0 (a, rw)" "at_headers_sent a" using assms(1) by (simp_all add: stack_inv_def)
  obtain ok1 a1 rw1 where w: "at_Write (rewriteSSEModelLine codec (vw_model v) (vw_stream_pending v)) (a, rw) = (ok1, a1, rw1)"
    by (metis prod_cases3)
  from at_Write_inv [OF a(1) assms(2) a(2) w] a True assms(3) w show ?thesis
    by (auto simp: vw_Commit_def split: if_splits)
next
  case False
  let ?a = "at_WriteHeader (vw_StatusCode v) a" and ?rw = "rw_set_header (AList.delete ''Content-Length'' (rw_header rw)) rw"
  have na: "\<not> at_headers_sent a" and ai: "attempt_inv rw0 (a, rw)" using assms(1) False by (simp_all add: stack_inv_def)
  note ci = commitHeaders_inv [OF ai na, of "vw_StatusCode v" "AList.delete ''Content-Length'' (rw_header rw)"]
  have st: "at_StatusCode ?a = vw_StatusCode v"
    using na by (simp add: at_StatusCode_def at_WriteHeader_def vw_StatusCode_def)
  obtain ok1 a1 rw1 where w: "at_Write (rewriteModelJSON codec (vw_model v) (vw_body v)) (?a, ?rw) = (ok1, a1, rw1)"
    by (metis prod_cases3)
  have eq: "v' = v" "a' = a1" "rw' = rw1" using assms(3) False w by (simp_all add: vw_Commit_def commitHeaders_eq)
  have "at_output_committed a1 \<longleftrightarrow> 200 \<le> vw_StatusCode v \<and> vw_StatusCode v < 300"
    using w ci by (auto simp: at_Write_def st CommitToReal_def Let_def split: if_splits prod.splits)
  with at_Write_inv [OF ci [THEN conjunct1] assms(2) ci [THEN conjunct2, THEN conjunct1] w] st eq False show ?thesis
    by simp
qed

text \<open>C3: the commit protocol of failover attempts. Whatever a provider writes through a
  fresh writer stack, and after the final commit of the umbrella writer: if the attempt is
  not committed, the client has received nothing from it, so it can be discarded; if it is
  committed, a 2xx status has been sent. A response that was never flushed is committed
  exactly when its status is 2xx, the default status 200 included.\<close>

theorem attempt_commit_protocol:
  assumes "unsent rw"
    and "run_actions codec acts (u, newVirtualModelResponseWriter model, newAttemptResponseWriter, rw) = (u', v, a, rw1)"
    and "vw_Commit codec (v, a, rw1) = (ok, v', a', rw')"
  shows "(\<not> at_output_committed a' \<longrightarrow> received rw' = received rw)
    \<and> (at_output_committed a' \<longrightarrow> (\<exists>code. sent_status rw' = Some code \<and> 200 \<le> code \<and> code < 300))
    \<and> (\<not> vw_streaming v' \<longrightarrow> (at_output_committed a' \<longleftrightarrow> 200 \<le> vw_StatusCode v' \<and> vw_StatusCode v' < 300))"
proof -
  have "stack_inv rw (v, a, rw1)" by (rule stack_inv_actions [OF stack_inv_fresh assms(1,2)])
  from vw_Commit_inv [OF this assms(1,3)] show ?thesis
    by (auto simp: attempt_inv_def vw_StatusCode_def split: if_splits)
qed

definition fresh_wrapper :: response_wrapper where
  "fresh_wrapper = \<lparr>rw_client = \<lparr>cl_header = [], cl_sent = None, cl_body = '''', cl_broken = False\<rparr>, rw_headers_sent = False,
     rw_status_code = 0, rw_bytes_written = 0\<rparr>"

definition no_codec :: json_codec where
  "no_codec = \<lparr>jc_decode = (\<lambda>_. None), jc_encode = (\<lambda>_. None)\<rparr>"

definition empty_usage :: usage_writer where
  "empty_usage = \<lparr>uw_buf = '''', uw_capped = False\<rparr>"

theorem attempt_commit_protocol_witness:
  "\<exists>u' v a rw1 ok v' a' rw'.
     run_actions no_codec [WriteStatus 503, WriteBody ''busy'']
       (empty_usage, newVirtualModelResponseWriter ''thiendu'', newAttemptResponseWriter, fresh_wrapper) = (u', v, a, rw1)
     \<and> vw_Commit no_codec (v, a, rw1) = (ok, v', a', rw') \<and> received rw' = received fresh_wrapper"
proof -
  let ?s0 = "(empty_usage, newVirtualModelResponseWriter ''thiendu'', newAttemptResponseWriter, fresh_wrapper)"
  obtain u' v a rw1 where r: "run_actions no_codec [WriteStatus 503, WriteBody ''busy''] ?s0 = (u', v, a, rw1)" by (metis prod_cases4)
  obtain ok v' a' rw' where c: "vw_Commit no_codec (v, a, rw1) = (ok, v', a', rw')" by (metis prod_cases4)
  have "vw_Commit no_codec (snd (run_actions no_codec [WriteStatus 503, WriteBody ''busy''] ?s0)) = (ok, v', a', rw')"
    by (simp add: r c)
  moreover have "\<not> at_output_committed (fst (snd (snd (vw_Commit no_codec (snd (run_actions no_codec [WriteStatus 503, WriteBody ''busy''] ?s0))))))"
    by (simp add: run_actions_def vw_Commit_def vw_Write_def vw_WriteHeader_def newVirtualModelResponseWriter_def
        newAttemptResponseWriter_def commitHeaders_def at_WriteHeader_def at_Write_def at_StatusCode_def vw_StatusCode_def)
  ultimately have "\<not> at_output_committed a'" by simp
  moreover have "unsent fresh_wrapper" by (simp add: unsent_def fresh_wrapper_def)
  ultimately show ?thesis
    using attempt_commit_protocol [OF _ r c] r c by blast
qed

text \<open>A provider that returns without having written anything, as one does that fails before
  it has an upstream response, is committed as an empty response with status 200.\<close>

lemma silent_attempt_commits_200:
  assumes "unsent rw" and "vw_Commit codec (newVirtualModelResponseWriter model, newAttemptResponseWriter, rw) = (ok, v', a', rw')"
    and "jc_decode codec '''' = None"
  shows "at_output_committed a' \<and> sent_status rw' = Some 200 \<and> cl_body (rw_client rw') = cl_body (rw_client rw)"
proof -
  have inv: "stack_inv rw (newVirtualModelResponseWriter model, newAttemptResponseWriter, rw)" by (rule stack_inv_fresh)
  have v: "\<not> vw_streaming (newVirtualModelResponseWriter model)" "vw_StatusCode (newVirtualModelResponseWriter model) = 200"
    by (simp_all add: newVirtualModelResponseWriter_def vw_StatusCode_def)
  note ci = vw_Commit_inv [OF inv assms(1,2)]
  have body: "cl_body (rw_client rw') = cl_body (rw_client rw)"
    using assms by (auto simp: vw_Commit_def newVirtualModelResponseWriter_def newAttemptResponseWriter_def commitHeaders_def
        rewriteModelJSON_def at_Write_def at_StatusCode_def at_WriteHeader_def vw_StatusCode_def CommitToReal_def Let_def
        rw_Write_def client_Write_def client_WriteHeader_def rw_WriteHeader_def rw_set_header_def unsent_def
        split: if_splits)
  show ?thesis using ci v body by (auto simp: attempt_inv_def)
qed

end
