(* ===== verification/Telemetry.thy ===== *)
theory Telemetry
  imports Go_Prelude "HOL-Library.Product_Lexorder"
begin

text \<open>
  The request counters of \<open>internal/telemetry/telemetry.go\<close>. The recorder keeps one state per
  provider/model target; every started request holds a handle, and the handles given out
  are part of the modelled state, so that runs in which requests start and finish in any
  order, and handles are finished more than once, are runs of one transition system. Token
  sums are \<open>int64\<close> and wrap.
\<close>

section \<open>State\<close>

record usage =
  us_input_tokens :: int
  us_output_tokens :: int
  us_total_tokens :: int

record outcome =
  oc_success :: bool
  oc_error_category :: string
  oc_produced_message :: bool
  oc_usage :: "usage option"

record target_state =
  ts_requests :: nat
  ts_successes :: nat
  ts_errors :: nat
  ts_in_flight :: int
  ts_messages :: nat
  ts_last_latency :: duration
  ts_last_error_category :: string
  ts_input_tokens :: int
  ts_output_tokens :: int
  ts_total_tokens :: int
  ts_unavailable_usage :: nat

definition zero_target_state :: target_state where
  "zero_target_state = \<lparr>ts_requests = 0, ts_successes = 0, ts_errors = 0, ts_in_flight = 0, ts_messages = 0,
     ts_last_latency = 0, ts_last_error_category = '''', ts_input_tokens = 0, ts_output_tokens = 0,
     ts_total_tokens = 0, ts_unavailable_usage = 0\<rparr>"

record in_flight =
  fl_provider :: string
  fl_model :: string
  fl_start :: gotime
  fl_done :: bool

record recorder =
  tl_targets :: "(string, target_state) gomap"
  tl_handles :: "in_flight list"

definition NewRecorder :: recorder where
  "NewRecorder = \<lparr>tl_targets = [], tl_handles = []\<rparr>"

definition targetKey :: "string \<Rightarrow> string \<Rightarrow> string" where
  "targetKey p model = p @ nul @ model"

definition splitTargetKey :: "string \<Rightarrow> string \<times> string" where
  "splitTargetKey key = (takeWhile (\<lambda>c. c \<noteq> CHR 0x00) key, drop 1 (dropWhile (\<lambda>c. c \<noteq> CHR 0x00) key))"

definition stateLocked :: "recorder \<Rightarrow> string \<Rightarrow> string \<Rightarrow> target_state" where
  "stateLocked r p model = (case map_of (tl_targets r) (targetKey p model) of None \<Rightarrow> zero_target_state | Some s \<Rightarrow> s)"

section \<open>Operations\<close>

text \<open>The new handle is the last of the list.\<close>

definition Begin :: "gotime \<Rightarrow> string \<Rightarrow> string \<Rightarrow> recorder \<Rightarrow> recorder" where
  "Begin now p model r =
     (let s = stateLocked r p model in
      r\<lparr>tl_targets := AList.update (targetKey p model)
          (s\<lparr>ts_requests := ts_requests s + 1, ts_in_flight := ts_in_flight s + 1\<rparr>) (tl_targets r),
        tl_handles := tl_handles r @ [\<lparr>fl_provider = p, fl_model = model, fl_start = now, fl_done = False\<rparr>]\<rparr>)"

definition finish_state :: "duration \<Rightarrow> outcome \<Rightarrow> target_state \<Rightarrow> target_state" where
  "finish_state latency out s =
     (let s = s\<lparr>ts_in_flight := (if ts_in_flight s > 0 then ts_in_flight s - 1 else ts_in_flight s), ts_last_latency := latency\<rparr>;
          s = (if oc_success out then s\<lparr>ts_successes := ts_successes s + 1\<rparr>
               else s\<lparr>ts_errors := ts_errors s + 1, ts_last_error_category := oc_error_category out\<rparr>);
          s = (if oc_produced_message out then s\<lparr>ts_messages := ts_messages s + 1\<rparr> else s)
      in case oc_usage out of
           Some u \<Rightarrow> s\<lparr>ts_input_tokens := wrap64 (ts_input_tokens s + us_input_tokens u),
                      ts_output_tokens := wrap64 (ts_output_tokens s + us_output_tokens u),
                      ts_total_tokens := wrap64 (ts_total_tokens s + us_total_tokens u)\<rparr>
         | None \<Rightarrow> s\<lparr>ts_unavailable_usage := ts_unavailable_usage s + 1\<rparr>)"

definition Finish :: "gotime \<Rightarrow> nat \<Rightarrow> outcome \<Rightarrow> recorder \<Rightarrow> recorder" where
  "Finish now h out r =
     (if h \<ge> length (tl_handles r) then r
      else let handle = tl_handles r ! h in
        if fl_done handle then r
        else r\<lparr>tl_handles := (tl_handles r)[h := handle\<lparr>fl_done := True\<rparr>],
               tl_targets := AList.update (targetKey (fl_provider handle) (fl_model handle))
                 (finish_state (now - fl_start handle) out (stateLocked r (fl_provider handle) (fl_model handle)))
                 (tl_targets r)\<rparr>)"

record target_snapshot =
  sh_provider :: string
  sh_model :: string
  sh_state :: target_state

definition Recorder_Snapshot :: "recorder \<Rightarrow> target_snapshot list" where
  "Recorder_Snapshot r =
     sort_key (\<lambda>s. (sh_provider s, sh_model s))
       (map (\<lambda>(key, s). let (p, m) = splitTargetKey key in \<lparr>sh_provider = p, sh_model = m, sh_state = s\<rparr>) (tl_targets r))"

datatype display_state = StateServing | StateReady | StateCooldown | StateAuthRequired | StateDisabled | StateError

definition DeriveProviderState :: "bool \<Rightarrow> bool \<Rightarrow> bool \<Rightarrow> bool \<Rightarrow> int \<Rightarrow> display_state" where
  "DeriveProviderState enabled authenticated healthError hasActiveCooldown inFlight =
     (if \<not> enabled then StateDisabled
      else if healthError then StateError
      else if \<not> authenticated then StateAuthRequired
      else if hasActiveCooldown then StateCooldown
      else if inFlight > 0 then StateServing
      else StateReady)"

section \<open>Runs\<close>

inductive recorder_step :: "recorder \<Rightarrow> recorder \<Rightarrow> bool" where
  step_begin: "recorder_step r (Begin now p model r)"
| step_finish: "recorder_step r (Finish now h out r)"

definition open_requests :: "recorder \<Rightarrow> string \<Rightarrow> nat" where
  "open_requests r key = length (filter (\<lambda>h. \<not> fl_done h \<and> targetKey (fl_provider h) (fl_model h) = key) (tl_handles r))"

definition state_of :: "recorder \<Rightarrow> string \<Rightarrow> target_state" where
  "state_of r key = (case map_of (tl_targets r) key of None \<Rightarrow> zero_target_state | Some s \<Rightarrow> s)"

definition recorder_inv :: "recorder \<Rightarrow> bool" where
  "recorder_inv r \<longleftrightarrow> (\<forall>key. ts_in_flight (state_of r key) = int (open_requests r key)
     \<and> ts_requests (state_of r key) = ts_successes (state_of r key) + ts_errors (state_of r key) + open_requests r key)"

lemma stateLocked_state_of: "stateLocked r p model = state_of r (targetKey p model)"
  by (simp add: stateLocked_def state_of_def)

lemma recorder_inv_Begin: "recorder_inv r \<Longrightarrow> recorder_inv (Begin now p model r)"
  by (simp add: recorder_inv_def Begin_def Let_def stateLocked_state_of)
    (auto simp: state_of_def open_requests_def)

lemma filter_update_length:
  assumes "i < length xs" and "P (xs ! i)" and "\<not> P y"
  shows "length (filter P xs) = Suc (length (filter P (xs[i := y])))"
proof -
  have "filter P xs = filter P (take i xs @ xs ! i # drop (Suc i) xs)"
    using id_take_nth_drop [OF assms(1)] by simp
  then show ?thesis using assms by (simp add: upd_conv_take_nth_drop)
qed

lemma filter_update_same:
  assumes "i < length xs" and "\<not> P (xs ! i)" and "\<not> P y"
  shows "filter P (xs[i := y]) = filter P xs"
proof -
  have "filter P xs = filter P (take i xs @ xs ! i # drop (Suc i) xs)"
    using id_take_nth_drop [OF assms(1)] by simp
  then show ?thesis using assms by (simp add: upd_conv_take_nth_drop)
qed

lemma finish_state_sel:
  "ts_requests (finish_state l out s) = ts_requests s"
  "0 < ts_in_flight s \<Longrightarrow> ts_in_flight (finish_state l out s) = ts_in_flight s - 1"
  "ts_successes (finish_state l out s) + ts_errors (finish_state l out s) = Suc (ts_successes s + ts_errors s)"
  by (simp_all add: finish_state_def Let_def split: option.split)

lemma open_requests_finish:
  assumes "h < length (tl_handles r)" and "\<not> fl_done (tl_handles r ! h)"
  defines "key \<equiv> targetKey (fl_provider (tl_handles r ! h)) (fl_model (tl_handles r ! h))"
  shows "open_requests r key = Suc (open_requests (Finish now h out r) key)"
    and "k \<noteq> key \<Longrightarrow> open_requests (Finish now h out r) k = open_requests r k"
  using assms filter_update_length [of h "tl_handles r"] filter_update_same [of h "tl_handles r"]
  by (simp_all add: open_requests_def Finish_def Let_def key_def)

lemma recorder_inv_Finish:
  assumes "recorder_inv r"
  shows "recorder_inv (Finish now h out r)"
proof (cases "h < length (tl_handles r) \<and> \<not> fl_done (tl_handles r ! h)")
  case True
  define key where "key = targetKey (fl_provider (tl_handles r ! h)) (fl_model (tl_handles r ! h))"
  have op: "open_requests r key = Suc (open_requests (Finish now h out r) key)"
    "k \<noteq> key \<Longrightarrow> open_requests (Finish now h out r) k = open_requests r k" for k
    using open_requests_finish True unfolding key_def by blast+
  have st: "state_of (Finish now h out r) k =
      (if k = key then finish_state (now - fl_start (tl_handles r ! h)) out (state_of r key) else state_of r k)" for k
    using True by (simp add: Finish_def Let_def state_of_def stateLocked_def key_def)
  have r: "ts_in_flight (state_of r k) = int (open_requests r k)"
    "ts_requests (state_of r k) = ts_successes (state_of r k) + ts_errors (state_of r k) + open_requests r k" for k
    using assms by (simp_all add: recorder_inv_def)
  have "0 < ts_in_flight (state_of r key)" using r(1) [of key] op(1) by simp
  then show ?thesis
    unfolding recorder_inv_def st using op r finish_state_sel by (auto simp: op(2))
qed (auto simp: Finish_def Let_def assms)

lemma recorder_inv_New: "recorder_inv NewRecorder"
  by (simp add: recorder_inv_def NewRecorder_def state_of_def open_requests_def zero_target_state_def)

interpretation recorder: invariant_system "\<lambda>r. r = NewRecorder" recorder_step recorder_inv
  by unfold_locales (auto simp: recorder_inv_New elim!: recorder_step.cases intro: recorder_inv_Begin recorder_inv_Finish)

text \<open>However requests start and finish, and however often a handle is finished, for
  every target the in-flight counter is the number of its unfinished requests, and the
  requests are exactly the successes, the errors and those in flight; so once every request
  has finished, nothing is in flight and every request has been counted once.\<close>

theorem telemetry_balanced:
  assumes "reach recorder_step NewRecorder r"
  shows "ts_in_flight (stateLocked r p model) = int (open_requests r (targetKey p model))
    \<and> ts_requests (stateLocked r p model)
       = ts_successes (stateLocked r p model) + ts_errors (stateLocked r p model) + open_requests r (targetKey p model)
    \<and> ((\<forall>h \<in> set (tl_handles r). fl_done h) \<longrightarrow> ts_in_flight (stateLocked r p model) = 0)"
proof -
  have "recorder_inv r" using assms by (rule recorder.reachable_invar) simp
  then have "ts_in_flight (stateLocked r p model) = int (open_requests r (targetKey p model))"
    and "ts_requests (stateLocked r p model)
       = ts_successes (stateLocked r p model) + ts_errors (stateLocked r p model) + open_requests r (targetKey p model)"
    by (simp_all add: recorder_inv_def stateLocked_state_of)
  moreover have "\<forall>h \<in> set (tl_handles r). fl_done h \<Longrightarrow> open_requests r (targetKey p model) = 0"
    by (simp add: open_requests_def)
  ultimately show ?thesis by simp
qed

definition sample_outcome :: outcome where
  "sample_outcome = \<lparr>oc_success = True, oc_error_category = '''', oc_produced_message = True, oc_usage = None\<rparr>"

theorem telemetry_balanced_witness:
  "let r = Finish 9 0 sample_outcome (Finish 7 0 sample_outcome (Begin 5 ''codex'' ''gpt-5'' NewRecorder))
   in ts_requests (stateLocked r ''codex'' ''gpt-5'') = 1 \<and> ts_successes (stateLocked r ''codex'' ''gpt-5'') = 1
      \<and> ts_in_flight (stateLocked r ''codex'' ''gpt-5'') = 0"
proof -
  let ?r = "Finish 9 0 sample_outcome (Finish 7 0 sample_outcome (Begin 5 ''codex'' ''gpt-5'' NewRecorder))"
  have "reach recorder_step NewRecorder ?r"
    by (meson reach_start reach_step step_begin step_finish)
  moreover have "\<forall>h \<in> set (tl_handles ?r). fl_done h" by code_simp
  moreover have "open_requests ?r (targetKey ''codex'' ''gpt-5'') = 0" by code_simp
  moreover have "ts_successes (stateLocked ?r ''codex'' ''gpt-5'') = 1" "ts_errors (stateLocked ?r ''codex'' ''gpt-5'') = 0"
    by code_simp+
  ultimately show ?thesis using telemetry_balanced [of ?r "''codex''" "''gpt-5''"] by (simp add: Let_def)
qed

end
