(* ===== verification/Usage_Sniffer.thy ===== *)
theory Usage_Sniffer
  imports Http_Writers Telemetry
begin

text \<open>
  Token usage read off a response (\<open>src/usage_sniffer.go\<close>): the scan for \<open>"usage"\<close> members,
  the extraction of the brace-balanced object that follows, and its decoding. An object is
  balanced when its braces outside string literals match; \<open>scan_state\<close> is the state of that
  scanner and \<open>scan_fold\<close> its run over a prefix, against which the bounded loop is stated.
\<close>

section \<open>Balanced objects\<close>

record scan_state =
  sc_depth :: int
  sc_in_string :: bool
  sc_escaped :: bool

definition scan_start :: scan_state where
  "scan_start = \<lparr>sc_depth = 0, sc_in_string = False, sc_escaped = False\<rparr>"

definition quote :: char where "quote = CHR 0x22"
definition backslash :: char where "backslash = CHR 0x5C"
definition open_brace :: char where "open_brace = CHR 0x7B"
definition close_brace :: char where "close_brace = CHR 0x7D"

lemmas brace_defs = quote_def backslash_def open_brace_def close_brace_def

text \<open>One turn of the switch.\<close>

definition scan_char :: "char \<Rightarrow> scan_state \<Rightarrow> scan_state" where
  "scan_char c s =
     (if sc_escaped s then s\<lparr>sc_escaped := False\<rparr>
      else if sc_in_string s \<and> c = backslash then s\<lparr>sc_escaped := True\<rparr>
      else if c = quote then s\<lparr>sc_in_string := \<not> sc_in_string s\<rparr>
      else if sc_in_string s then s
      else if c = open_brace then s\<lparr>sc_depth := sc_depth s + 1\<rparr>
      else if c = close_brace then s\<lparr>sc_depth := sc_depth s - 1\<rparr>
      else s)"

text \<open>The turn that closes the object is the one that ends the loop.\<close>

definition closes :: "char \<Rightarrow> scan_state \<Rightarrow> bool" where
  "closes c s \<longleftrightarrow> \<not> sc_escaped s \<and> \<not> sc_in_string s \<and> c = close_brace \<and> sc_depth s = 1"

definition maxObjectScan :: nat where
  "maxObjectScan = 8192"

fun balanced_loop :: "scan_state \<Rightarrow> string \<Rightarrow> string \<Rightarrow> string option" where
  "balanced_loop s seen [] = None"
| "balanced_loop s seen (c # rest) =
     (if closes c s then Some (seen @ [c]) else balanced_loop (scan_char c s) (seen @ [c]) rest)"

definition extractBalancedJSONObject :: "string \<Rightarrow> string option" where
  "extractBalancedJSONObject data =
     (if data = '''' \<or> hd data \<noteq> open_brace then None
      else balanced_loop scan_start '''' (take maxObjectScan data))"

section \<open>Usage objects\<close>

text \<open>Decoding into a field of type \<open>*int\<close>: \<open>None\<close> is a type error, \<open>Some None\<close> an absent or
  null field.\<close>

fun digits_value :: "int \<Rightarrow> string \<Rightarrow> int option" where
  "digits_value acc [] = Some acc"
| "digits_value acc (c # cs) =
     (let n = (of_char c :: nat) in if 48 \<le> n \<and> n \<le> 57 then digits_value (10 * acc + (int n - 48)) cs else None)"

definition int64_range :: "int \<Rightarrow> int option" where
  "int64_range x = (if - (2 ^ 63) \<le> x \<and> x < 2 ^ 63 then Some x else None)"

text \<open>\<open>strconv.Atoi\<close>: an optional sign, at least one digit, within the range of \<open>int\<close>.\<close>

definition Atoi :: "string \<Rightarrow> int option" where
  "Atoi s =
     (let neg = (s \<noteq> '''' \<and> hd s = CHR ''-''); body = (if s \<noteq> '''' \<and> (hd s = CHR ''-'' \<or> hd s = CHR ''+'') then tl s else s) in
      if body = '''' then None
      else case digits_value 0 body of None \<Rightarrow> None | Some n \<Rightarrow> int64_range (if neg then - n else n))"

fun int_field :: "string \<Rightarrow> int option \<Rightarrow> (string \<times> json) list \<Rightarrow> int option option" where
  "int_field name acc [] = Some acc"
| "int_field name acc ((k, v) # kvs) =
     (if equal_fold k name
      then (case v of
              JNum n \<Rightarrow> (case Atoi n of Some x \<Rightarrow> int_field name (Some x) kvs | None \<Rightarrow> None)
            | JNull \<Rightarrow> int_field name None kvs
            | _ \<Rightarrow> None)
      else int_field name acc kvs)"

text \<open>One shape: input, output and total token names; a missing total is the (wrapping) sum.\<close>

definition usage_shape :: "string \<Rightarrow> string \<Rightarrow> (string \<times> json) list \<Rightarrow> usage option" where
  "usage_shape inName outName kvs =
     (case (int_field inName None kvs, int_field outName None kvs, int_field ''total_tokens'' None kvs) of
        (Some i, Some out, Some t) \<Rightarrow>
          if i = None \<and> out = None then None
          else (let inTokens = (case i of Some x \<Rightarrow> x | None \<Rightarrow> 0); outTokens = (case out of Some x \<Rightarrow> x | None \<Rightarrow> 0) in
            Some \<lparr>us_input_tokens = inTokens, us_output_tokens = outTokens,
                  us_total_tokens = (case t of Some x \<Rightarrow> x | None \<Rightarrow> wrap64 (inTokens + outTokens))\<rparr>)
      | _ \<Rightarrow> None)"

definition parseUsageFragment :: "json_codec \<Rightarrow> string \<Rightarrow> usage option" where
  "parseUsageFragment codec fragment =
     (case jc_decode codec fragment of
        Some (JObj kvs) \<Rightarrow>
          (case usage_shape ''prompt_tokens'' ''completion_tokens'' kvs of
             Some u \<Rightarrow> Some u
           | None \<Rightarrow> usage_shape ''input_tokens'' ''output_tokens'' kvs)
      | _ \<Rightarrow> None)"

text \<open>The bytes after the first occurrence of a key, \<open>bytes.Index\<close>.\<close>

fun after_key :: "string \<Rightarrow> string \<Rightarrow> string option" where
  "after_key key [] = (if key = [] then Some [] else None)"
| "after_key key (c # cs) = (if has_prefix (c # cs) key then Some (drop (length key) (c # cs)) else after_key key cs)"

definition usage_key :: string where
  "usage_key = quote # ''usage'' @ [quote]"

lemma after_key_length: "after_key key s = Some r \<Longrightarrow> length r \<le> length s"
  by (induction key s rule: after_key.induct) (auto split: if_splits)

function sniff_loop :: "json_codec \<Rightarrow> usage option \<Rightarrow> string \<Rightarrow> usage option" where
  "sniff_loop codec found rest =
     (case after_key usage_key rest of
        None \<Rightarrow> found
      | Some afterKey \<Rightarrow>
          (case dropWhile (\<lambda>c. c \<noteq> open_brace) afterKey of
             [] \<Rightarrow> found
           | obj # tail \<Rightarrow>
               sniff_loop codec
                 (case extractBalancedJSONObject (obj # tail) of
                    Some fragment \<Rightarrow> (case parseUsageFragment codec fragment of Some u \<Rightarrow> Some u | None \<Rightarrow> found)
                  | None \<Rightarrow> found)
                 tail))"
  by pat_completeness auto
termination
  by (relation "measure (\<lambda>(codec, found, rest). length rest)")
    (auto dest!: after_key_length length_after_dropWhile)

declare sniff_loop.simps [simp del]

definition sniffUsageJSON :: "json_codec \<Rightarrow> string \<Rightarrow> usage option" where
  "sniffUsageJSON codec body = sniff_loop codec None body"

definition uw_Usage :: "json_codec \<Rightarrow> usage_writer \<Rightarrow> usage option" where
  "uw_Usage codec s = (if uw_capped s then None else sniffUsageJSON codec (uw_buf s))"

section \<open>Facts\<close>

definition scan_fold :: "string \<Rightarrow> scan_state" where
  "scan_fold s = fold scan_char s scan_start"

definition balanced_end :: "string \<Rightarrow> bool" where
  "balanced_end s \<longleftrightarrow> s \<noteq> '''' \<and> closes (last s) (scan_fold (butlast s))"

lemma balanced_loop_Some:
  "balanced_loop (scan_fold seen) seen data = Some out \<longleftrightarrow>
     (\<exists>n. n < length data \<and> out = seen @ take (Suc n) data \<and> balanced_end (seen @ take (Suc n) data)
        \<and> (\<forall>m < n. \<not> balanced_end (seen @ take (Suc m) data)))"
proof (induction data arbitrary: seen)
  case (Cons c rest)
  have ends: "balanced_end (seen @ [c]) \<longleftrightarrow> closes c (scan_fold seen)" by (simp add: balanced_end_def)
  have step: "scan_fold (seen @ [c]) = scan_char c (scan_fold seen)" by (simp add: scan_fold_def)
  show ?case
  proof (cases "closes c (scan_fold seen)")
    case True
    then have *: "balanced_end (seen @ take (Suc 0) (c # rest))" using ends by simp
    have "(\<exists>n. n < length (c # rest) \<and> out = seen @ take (Suc n) (c # rest) \<and> balanced_end (seen @ take (Suc n) (c # rest))
        \<and> (\<forall>m < n. \<not> balanced_end (seen @ take (Suc m) (c # rest)))) \<longleftrightarrow> out = seen @ [c]"
      using * by (metis One_nat_def length_greater_0_conv list.distinct(1) not_gr0 take0 take_Suc_Cons not_less0)
    with True show ?thesis by auto
  next
    case False
    have "(\<exists>n. n < length (c # rest) \<and> out = seen @ take (Suc n) (c # rest) \<and> balanced_end (seen @ take (Suc n) (c # rest))
        \<and> (\<forall>m < n. \<not> balanced_end (seen @ take (Suc m) (c # rest))))
      \<longleftrightarrow> (\<exists>n. n < length rest \<and> out = (seen @ [c]) @ take (Suc n) rest \<and> balanced_end ((seen @ [c]) @ take (Suc n) rest)
        \<and> (\<forall>m < n. \<not> balanced_end ((seen @ [c]) @ take (Suc m) rest)))" (is "(\<exists>n. ?L n) \<longleftrightarrow> (\<exists>n. ?R n)")
    proof
      assume "\<exists>n. ?L n"
      then obtain n where n: "?L n" by blast
      have "n \<noteq> 0"
      proof
        assume "n = 0"
        with n have "balanced_end (seen @ [c])" by simp
        with False ends show False by simp
      qed
      then obtain k where "n = Suc k" by (cases n) auto
      with n have "?R k" by auto
      then show "\<exists>n. ?R n" ..
    next
      assume "\<exists>n. ?R n"
      then obtain n where n: "?R n" by blast
      have "?L (Suc n)" using n False ends by (auto simp: less_Suc_eq_0_disj)
      then show "\<exists>n. ?L n" ..
    qed
    with False Cons.IH [of "seen @ [c]"] step show ?thesis by simp
  qed
qed simp

text \<open>The object cut out of a response is the shortest prefix, within the scan window,
  whose braces outside string literals are balanced; it starts with an opening and ends with
  a closing brace; and when no such prefix exists none is returned.\<close>

theorem extract_balanced_correct:
  "case extractBalancedJSONObject data of
     Some out \<Rightarrow> hd out = open_brace \<and> last out = close_brace
        \<and> (\<exists>n \<le> maxObjectScan. out = take n data \<and> balanced_end out \<and> (\<forall>m < n. \<not> balanced_end (take m data)))
   | None \<Rightarrow> data = '''' \<or> hd data \<noteq> open_brace \<or> (\<forall>n \<le> maxObjectScan. \<not> balanced_end (take n data))"
proof (cases "data = '''' \<or> hd data \<noteq> open_brace")
  case True
  then show ?thesis by (auto simp: extractBalancedJSONObject_def)
next
  case False
  let ?w = "take maxObjectScan data"
  have start: "scan_fold '''' = scan_start" by (simp add: scan_fold_def)
  have eq: "extractBalancedJSONObject data = balanced_loop (scan_fold '''') '''' ?w"
    using False by (simp add: extractBalancedJSONObject_def start)
  have nil: "\<not> balanced_end (take 0 data)" by (simp add: balanced_end_def)
  show ?thesis
  proof (cases "balanced_loop (scan_fold '''') '''' ?w")
    case None
    have "\<not> balanced_end (take n data)" if n: "n \<le> maxObjectScan" for n
    proof
      assume "balanced_end (take n data)"
      define k where "k = (LEAST k. balanced_end (take k data))"
      have k: "balanced_end (take k data)" "\<forall>m < k. \<not> balanced_end (take m data)" "k \<le> n"
        unfolding k_def using \<open>balanced_end (take n data)\<close> by (auto intro: LeastI Least_le dest: not_less_Least)
      have kl: "k \<le> length data"
      proof (rule ccontr)
        assume "\<not> k \<le> length data"
        then have "take (length data) data = take k data" "length data < k" by simp_all
        with k(1,2) show False by metis
      qed
      have "0 < k" using k(1) nil by (metis gr0I)
      then obtain j where j: "k = Suc j" by (cases k) auto
      have "j < length ?w" using kl j k(3) n by simp
      moreover have "take (Suc m) ?w = take (Suc m) data" if "m \<le> j" for m
        using that j k(3) n by (simp add: min_def)
      ultimately have "balanced_loop (scan_fold '''') '''' ?w = Some (take (Suc j) data)"
        unfolding balanced_loop_Some using k j by (intro exI [of _ j]) auto
      with None show False by simp
    qed
    with None show ?thesis by (simp add: eq)
  next
    case (Some out)
    then obtain n where n: "n < length ?w" "out = take (Suc n) ?w" "balanced_end out" "\<forall>m < n. \<not> balanced_end (take (Suc m) ?w)"
      by (auto simp: balanced_loop_Some)
    have le: "Suc n \<le> maxObjectScan" using n(1) by simp
    have tk: "take (Suc m) ?w = take (Suc m) data" if "m \<le> n" for m using that le by (simp add: min_def)
    have out: "out = take (Suc n) data" using n(2) tk by simp
    have min: "\<forall>m < Suc n. \<not> balanced_end (take m data)"
    proof clarify
      fix m assume m: "m < Suc n" and be: "balanced_end (take m data)"
      then show False using nil n(4) tk by (cases m) auto
    qed
    have "hd out = open_brace" using False out by (cases data) auto
    moreover have "last out = close_brace" using n(3) by (simp add: balanced_end_def closes_def)
    ultimately show ?thesis using Some out le min n(3) by (auto simp: eq)
  qed
qed

theorem extract_balanced_correct_witness:
  "extractBalancedJSONObject ''{}x'' = Some ''{}''
   \<and> (\<exists>n. n \<le> maxObjectScan \<and> ''{}'' = take n ''{}x'' \<and> balanced_end ''{}'')"
proof -
  have r: "extractBalancedJSONObject ''{}x'' = Some ''{}''"
    by (simp add: extractBalancedJSONObject_def brace_defs maxObjectScan_def
        scan_start_def scan_char_def closes_def)
  with extract_balanced_correct [where data = "''{}x''"] show ?thesis by auto
qed

end
