(* ===== verification/Proxy.thy ===== *)
theory Proxy
  imports Router Usage_Sniffer
begin

text \<open>
  The proxied request of \<open>src/proxy.go\<close>: routing, the sequential failover over the targets of
  an umbrella model, the single dispatch of an explicit route, and the handler around them,
  with the error values of \<open>src/provider_error.go\<close> and the telemetry classification of
  \<open>src/telemetry_runtime.go\<close>.

  What the providers, the clock, the file system and the request context do is given by
  \<open>proxy_env\<close>, attempt by attempt: a provider's behaviour is the list of its writer actions
  and the error it returns. The route observer sees every attempt; the list of what it saw
  is part of the state.
\<close>

section \<open>Errors\<close>

record proxy_error =
  er_message :: string
  er_provider :: "(string \<times> int) option"
  er_canceled :: bool
  er_deadline :: bool

definition go_error_of :: "proxy_error \<Rightarrow> go_error" where
  "go_error_of e = \<lparr>err_canceled = er_canceled e, err_deadline = er_deadline e\<rparr>"

definition ProviderErrorInvalidRequest :: string where "ProviderErrorInvalidRequest = ''invalid_request''"
definition ProviderErrorAuthRequired :: string where "ProviderErrorAuthRequired = ''auth_required''"
definition ProviderErrorEntitlement :: string where "ProviderErrorEntitlement = ''entitlement_denied''"
definition ProviderErrorRateLimit :: string where "ProviderErrorRateLimit = ''rate_limited''"
definition ProviderErrorUnsupported :: string where "ProviderErrorUnsupported = ''unsupported_capability''"
definition ProviderErrorUnavailable :: string where "ProviderErrorUnavailable = ''provider_unavailable''"
definition ProviderErrorTransport :: string where "ProviderErrorTransport = ''transport_error''"
definition ProviderErrorModelUnavailable :: string where "ProviderErrorModelUnavailable = ''model_unavailable''"

lemmas provider_error_kind_defs = ProviderErrorInvalidRequest_def ProviderErrorAuthRequired_def
  ProviderErrorEntitlement_def ProviderErrorRateLimit_def ProviderErrorUnsupported_def
  ProviderErrorUnavailable_def ProviderErrorTransport_def ProviderErrorModelUnavailable_def

definition newProviderError :: "string \<Rightarrow> int \<Rightarrow> string \<Rightarrow> proxy_error" where
  "newProviderError kind status message =
     \<lparr>er_message = message, er_provider = Some (kind, status), er_canceled = False, er_deadline = False\<rparr>"

definition providerErrorStatus :: "proxy_error option \<Rightarrow> int" where
  "providerErrorStatus err =
     (case err of None \<Rightarrow> 200
      | Some e \<Rightarrow>
        (case er_provider e of
           Some (kind, status) \<Rightarrow>
             if status > 0 then status else if er_deadline e then 504 else if er_canceled e then 408 else 502
         | None \<Rightarrow> if er_deadline e then 504 else if er_canceled e then 408 else 502))"

definition responseStatus :: "int \<Rightarrow> int" where
  "responseStatus status = (if status > 0 then status else 200)"

definition classifyErrorCategory :: "int \<Rightarrow> proxy_error option \<Rightarrow> string" where
  "classifyErrorCategory status err =
     (let by_status =
            (if status = 429 then ''rate_limited''
             else if status = 401 \<or> status = 403 then ''auth_required''
             else if status = 408 \<or> status = 504 then ''timeout''
             else if status = 503 then ''provider_unavailable''
             else if status \<ge> 500 then ''provider_unavailable''
             else if status \<ge> 400 then ''invalid_request''
             else ''transport_error'')
      in case err of None \<Rightarrow> by_status
         | Some e \<Rightarrow>
             if er_deadline e then ''timeout''
             else if er_canceled e then ''canceled''
             else (case er_provider e of
                     None \<Rightarrow> by_status
                   | Some (kind, _) \<Rightarrow>
                       if kind = ProviderErrorInvalidRequest then ''invalid_request''
                       else if kind = ProviderErrorAuthRequired then ''auth_required''
                       else if kind = ProviderErrorEntitlement then ''entitlement_denied''
                       else if kind = ProviderErrorRateLimit then ''rate_limited''
                       else if kind = ProviderErrorUnsupported then ''unsupported_capability''
                       else if kind = ProviderErrorUnavailable then ''provider_unavailable''
                       else if kind = ProviderErrorModelUnavailable then ''model_unavailable''
                       else if kind = ProviderErrorTransport then ''transport_error''
                       else by_status))"

section \<open>Failover decisions\<close>

definition isEligibleFailoverStatus :: "int \<Rightarrow> proxy_error option \<Rightarrow> bool" where
  "isEligibleFailoverStatus status err \<longleftrightarrow>
     err \<noteq> None \<or> status \<in> {429, 401, 402, 403, 408, 504} \<or> status \<ge> 500"

definition retryAfterDuration :: "string \<Rightarrow> duration" where
  "retryAfterDuration value =
     (case Atoi (trim_space value) of
        None \<Rightarrow> 0
      | Some seconds \<Rightarrow>
          if seconds \<le> 0 then 0
          else (let d = wrap64 (seconds * second) in if d > 5 * minute then 5 * minute else d))"

section \<open>State and environment\<close>

record proxy_state =
  ps_router :: router
  ps_recorder :: recorder
  ps_writer :: response_wrapper
  ps_observed :: "(provider_id \<times> string) list"

record proxy_env =
  px_codec :: json_codec
  px_routing :: "nat \<Rightarrow> routing_env"
  px_clock :: "nat \<Rightarrow> gotime"
  px_io :: "nat \<Rightarrow> persist_outcome"
  px_provider :: "nat \<Rightarrow> provider_id \<Rightarrow> string \<Rightarrow> rw_action list \<times> proxy_error option"
  px_ctx_err :: "nat \<Rightarrow> proxy_error option"

datatype proxy_result = Returned "proxy_error option" | Panicked

record proxy_request =
  rq_path :: string
  rq_body :: "string option"

definition write_error :: proxy_error where
  "write_error = \<lparr>er_message = ''write'', er_provider = None, er_canceled = False, er_deadline = False\<rparr>"

definition attempt_body :: "json_codec \<Rightarrow> string \<Rightarrow> string \<Rightarrow> string \<Rightarrow> patched" where
  "attempt_body codec body requested resolved =
     (if resolved \<noteq> requested then PatchModel codec body resolved else Body body)"

definition telemetry_outcome :: "json_codec \<Rightarrow> capability \<Rightarrow> int \<Rightarrow> proxy_error option \<Rightarrow> usage_writer \<Rightarrow> outcome" where
  "telemetry_outcome codec cap status err u =
     (let success = (err = None \<and> status < 400) in
      \<lparr>oc_success = success, oc_error_category = classifyErrorCategory status err,
       oc_produced_message = (success \<and> cap \<noteq> CapabilityEmbeddings), oc_usage = uw_Usage codec u\<rparr>)"

section \<open>One attempt\<close>

text \<open>What the loop body decides: return, or go on with the next route.\<close>

datatype attempt_result =
    Finished proxy_result proxy_state
  | NextRoute route_result proxy_state

text \<open>The dispatch of one attempt: the provider's error, the outcome status, the attempt writer,
  and the state after the outcome has been recorded.\<close>

definition run_attempt ::
    "proxy_env \<Rightarrow> nat \<Rightarrow> string \<Rightarrow> string \<Rightarrow> capability \<Rightarrow> route_result \<Rightarrow> selection_decision \<Rightarrow> proxy_state \<Rightarrow>
     proxy_error option \<times> int \<times> attempt_writer \<times> proxy_state" where
  "run_attempt env n requested attemptBody cap route d st =
     (let pid = pr_id (rr_provider route);
          handle = length (tl_handles (ps_recorder st));
          rec = Begin (px_clock env (2 * n)) pid (rr_model route) (ps_recorder st);
          (acts, err0) = px_provider env n pid attemptBody;
          (u, stack) = run_actions (px_codec env) acts
            (\<lparr>uw_buf = '''', uw_capped = False\<rparr>, newVirtualModelResponseWriter requested, newAttemptResponseWriter, ps_writer st);
          (ok, v, a, rw) = vw_Commit (px_codec env) stack;
          proxyErr = (if \<not> ok \<and> err0 = None then Some write_error else err0);
          status0 = responseStatus (vw_StatusCode v);
          status = (if proxyErr \<noteq> None \<and> status0 = 200 then providerErrorStatus proxyErr else status0);
          now = px_clock env (2 * n + 1);
          router = RecordOutcome (px_io env n) now (ps_router st) (Some d) status (map_option go_error_of proxyErr)
            (retryAfterDuration (header_get ''Retry-After'' (rw_header rw)));
          rec = Finish now handle (telemetry_outcome (px_codec env) cap status proxyErr u) rec
      in (proxyErr, status, a, st\<lparr>ps_recorder := rec, ps_router := router, ps_writer := rw\<rparr>))"

text \<open>The decision after it: commit and return, or resolve the next target.\<close>

definition decide_attempt ::
    "proxy_env \<Rightarrow> nat \<Rightarrow> capability \<Rightarrow> string set \<Rightarrow> selection_decision \<Rightarrow> proxy_error option \<Rightarrow> int \<Rightarrow> attempt_writer \<Rightarrow>
     proxy_state \<Rightarrow> attempt_result" where
  "decide_attempt env n cap attempted d proxyErr status a st =
     (let target = trim_space (sd_selected_target d); success = (proxyErr = None \<and> status < 400) in
      if success \<or> at_output_committed a then
        (let st = (if success then st\<lparr>ps_router := RecordPreferred (ps_router st) (sd_virtual_model d) cap target\<rparr> else st) in
         if \<not> at_output_committed a then
           (case CommitToReal (a, ps_writer st) of (ok, a, rw) \<Rightarrow>
              Finished (Returned (if ok then proxyErr else Some write_error)) (st\<lparr>ps_writer := rw\<rparr>))
         else Finished (Returned proxyErr) st)
      else if \<not> isEligibleFailoverStatus status proxyErr then
        (case CommitToReal (a, ps_writer st) of (ok, a, rw) \<Rightarrow> Finished (Returned proxyErr) (st\<lparr>ps_writer := rw\<rparr>))
      else if px_ctx_err env n \<noteq> None then Finished (Returned proxyErr) st
      else
        (case ResolveNext (px_routing env (Suc n)) (ps_router st) (sd_virtual_model d) cap (insert target attempted) of
           (Inl _, router) \<Rightarrow>
             Finished (Returned (Some (newProviderError ProviderErrorModelUnavailable 503 ''all active targets failed'')))
               (st\<lparr>ps_router := router\<rparr>)
         | (Inr route, router) \<Rightarrow> NextRoute route (st\<lparr>ps_router := router\<rparr>)))"

definition failover_attempt ::
    "proxy_env \<Rightarrow> nat \<Rightarrow> string \<Rightarrow> string \<Rightarrow> capability \<Rightarrow> string set \<Rightarrow> route_result \<Rightarrow> selection_decision \<Rightarrow> proxy_state \<Rightarrow> attempt_result" where
  "failover_attempt env n requested body cap attempted route d st =
     (let st = st\<lparr>ps_observed := ps_observed st @ [(pr_id (rr_provider route), rr_model route)]\<rparr>
      in case attempt_body (px_codec env) body requested (rr_model route) of
           Panic \<Rightarrow> Finished Panicked st
         | Body attemptBody \<Rightarrow>
             (case run_attempt env n requested attemptBody cap route d st of
                (proxyErr, status, a, st) \<Rightarrow> decide_attempt env n cap attempted d proxyErr status a st))"

section \<open>Facts on one attempt\<close>

lemma RecordOutcome_frame [simp]:
  "ro_registry (RecordOutcome io now r dec status err ra) = ro_registry r"
  "ro_routing (RecordOutcome io now r dec status err ra) = ro_routing r"
  "ro_preferred (RecordOutcome io now r dec status err ra) = ro_preferred r"
  by (simp_all add: RecordOutcome_def Let_def case_prod_unfold split: option.split)

lemma RecordPreferred_frame [simp]:
  "ro_registry (RecordPreferred r vid cap t) = ro_registry r"
  "ro_routing (RecordPreferred r vid cap t) = ro_routing r"
  by (simp_all add: RecordPreferred_def split: option.split)

lemma ResolveNext_frame [simp]:
  "ro_registry (snd (ResolveNext env r vid cap exclude)) = ro_registry r"
  "ro_routing (snd (ResolveNext env r vid cap exclude)) = ro_routing r"
  by (simp_all add: ResolveNext_def resolveVirtual_frame split: option.split)

text \<open>What the next route is, without any assumption on the registry.\<close>

lemma resolveVirtual_selection:
  assumes "fst (resolveVirtualModelExcluding env r vid vm cap exclude) = Inr res"
  shows "\<exists>d. rr_selection res = Some d \<and> sd_virtual_model d = vid \<and> sd_capability d = cap
    \<and> trim_space (sd_selected_target d) \<in> trim_space ` set (items (vm_targets vm))
    \<and> trim_space (sd_selected_target d) \<notin> exclude"
proof -
  define snap where "snap = fst (buildAvailabilitySnapshot env r)"
  have "\<exists>d. rr_selection res = Some d
      \<and> SelectPriorityTargetExcluding vid (ordered_targets r vid vm cap) cap (Some snap) exclude = Inr d"
    using assms unfolding resolveVirtualModelExcluding_def ordered_targets_def [symmetric] snap_def
    by (auto simp: Let_def case_prod_unfold split: sum.splits)
  then obtain d where d: "rr_selection res = Some d"
    "SelectPriorityTargetExcluding vid (ordered_targets r vid vm cap) cap (Some snap) exclude = Inr d" by blast
  have "trim_space (sd_selected_target d) \<in> trim_space ` set (items (vm_targets vm))"
    using select_Some(1) [OF d(2)] ordered_targets_set by (metis image_eqI)
  with d select_Some [OF d(2)] show ?thesis by (auto simp: target_active_iff)
qed

definition route_universe :: "router \<Rightarrow> string \<Rightarrow> string set" where
  "route_universe r vid =
     (case map_of (items (rt_virtual_models (ro_routing r))) vid of
        None \<Rightarrow> {} | Some vm \<Rightarrow> trim_space ` set (items (vm_targets vm)))"

lemma finite_route_universe [simp]: "finite (route_universe r vid)"
  by (simp add: route_universe_def split: option.split)

lemma ResolveNext_selection:
  assumes "fst (ResolveNext env r vid cap exclude) = Inr res"
  shows "\<exists>d. rr_selection res = Some d \<and> sd_virtual_model d = vid \<and> sd_capability d = cap
    \<and> trim_space (sd_selected_target d) \<in> route_universe r vid - exclude"
  using assms resolveVirtual_selection by (fastforce simp: ResolveNext_def route_universe_def split: option.splits)

lemma run_attempt_facts:
  assumes "run_attempt env n requested b cap route d st = (err, status, a, st1)"
  shows "ro_routing (ps_router st1) = ro_routing (ps_router st)" and "ro_registry (ps_router st1) = ro_registry (ps_router st)"
    and "ps_observed st1 = ps_observed st"
    and "\<exists>t1 t2 out. ps_recorder st1 = Finish t2 (length (tl_handles (ps_recorder st))) out
          (Begin t1 (pr_id (rr_provider route)) (rr_model route) (ps_recorder st))"
    and "unsent (ps_writer st) \<Longrightarrow> attempt_inv (ps_writer st) (a, ps_writer st1)"
proof -
  obtain acts err0 where p: "px_provider env n (pr_id (rr_provider route)) b = (acts, err0)" by fastforce
  obtain u v0 a0 rw0 where r: "run_actions (px_codec env) acts
      (\<lparr>uw_buf = '''', uw_capped = False\<rparr>, newVirtualModelResponseWriter requested, newAttemptResponseWriter, ps_writer st) = (u, v0, a0, rw0)"
    by (metis prod_cases4)
  obtain ok v a' rw where c: "vw_Commit (px_codec env) (v0, a0, rw0) = (ok, v, a', rw)" by (metis prod_cases4)
  note eq = assms [unfolded run_attempt_def Let_def p prod.case r c, symmetric]
  show "ro_routing (ps_router st1) = ro_routing (ps_router st)" "ro_registry (ps_router st1) = ro_registry (ps_router st)"
    "ps_observed st1 = ps_observed st"
    and "\<exists>t1 t2 out. ps_recorder st1 = Finish t2 (length (tl_handles (ps_recorder st))) out
          (Begin t1 (pr_id (rr_provider route)) (rr_model route) (ps_recorder st))"
    using eq by auto
  have a: "a = a'" "ps_writer st1 = rw" using eq by simp_all
  show "attempt_inv (ps_writer st) (a, ps_writer st1)" if un: "unsent (ps_writer st)"
    using vw_Commit_inv [OF stack_inv_actions [OF stack_inv_fresh un r] un c] by (simp add: a)
qed

lemma decide_attempt_next:
  assumes "decide_attempt env n cap attempted d err status a st = NextRoute route' st'"
  shows "\<not> at_output_committed a \<and> ps_writer st' = ps_writer st \<and> ps_observed st' = ps_observed st \<and> ps_recorder st' = ps_recorder st
    \<and> ResolveNext (px_routing env (Suc n)) (ps_router st) (sd_virtual_model d) cap
        (insert (trim_space (sd_selected_target d)) attempted) = (Inr route', ps_router st')"
  using assms by (auto simp: decide_attempt_def Let_def split: if_splits sum.splits prod.splits)

lemma decide_attempt_finished:
  assumes "decide_attempt env n cap attempted d err status a st = Finished res st'"
  shows "ps_observed st' = ps_observed st \<and> ps_recorder st' = ps_recorder st \<and> res \<noteq> Panicked"
  using assms by (auto simp: decide_attempt_def Let_def split: if_splits sum.splits prod.splits)

text \<open>An attempt goes on only to a target not tried before, under the same configuration,
  and only when it left the client untouched.\<close>

lemma failover_attempt_next:
  assumes "failover_attempt env n requested body cap attempted route d st = NextRoute route' st'"
  shows "\<exists>d'. rr_selection route' = Some d' \<and> sd_virtual_model d' = sd_virtual_model d
      \<and> trim_space (sd_selected_target d') \<in> route_universe (ps_router st) (sd_virtual_model d) - insert (trim_space (sd_selected_target d)) attempted"
    and "ro_routing (ps_router st') = ro_routing (ps_router st)"
    and "ro_registry (ps_router st') = ro_registry (ps_router st)"
    and "ps_observed st' = ps_observed st @ [(pr_id (rr_provider route), rr_model route)]"
    and "\<exists>r env'. ro_registry r = ro_registry (ps_router st) \<and> ro_routing r = ro_routing (ps_router st)
      \<and> fst (ResolveNext env' r (sd_virtual_model d) cap (insert (trim_space (sd_selected_target d)) attempted)) = Inr route'"
    and "unsent (ps_writer st) \<Longrightarrow> received (ps_writer st') = received (ps_writer st)"
proof -
  let ?ex = "insert (trim_space (sd_selected_target d)) attempted"
  let ?st = "st\<lparr>ps_observed := ps_observed st @ [(pr_id (rr_provider route), rr_model route)]\<rparr>"
  obtain b where b: "attempt_body (px_codec env) body requested (rr_model route) = Body b"
    using assms by (cases "attempt_body (px_codec env) body requested (rr_model route)") (auto simp: failover_attempt_def Let_def)
  obtain err status a st1 where run: "run_attempt env n requested b cap route d ?st = (err, status, a, st1)" by (metis prod_cases4)
  have dec: "decide_attempt env n cap attempted d err status a st1 = NextRoute route' st'"
    using assms by (simp add: failover_attempt_def Let_def b run)
  note run_facts = run_attempt_facts [OF run]
  note dec_facts = decide_attempt_next [OF dec]
  let ?R = "ResolveNext (px_routing env (Suc n)) (ps_router st1) (sd_virtual_model d) cap ?ex"
  have fst: "fst ?R = Inr route'" and snd: "ps_router st' = snd ?R" using dec_facts by simp_all
  have univ: "route_universe (ps_router st1) (sd_virtual_model d) = route_universe (ps_router st) (sd_virtual_model d)"
    using run_facts(1) by (simp add: route_universe_def)
  show "\<exists>d'. rr_selection route' = Some d' \<and> sd_virtual_model d' = sd_virtual_model d
      \<and> trim_space (sd_selected_target d') \<in> route_universe (ps_router st) (sd_virtual_model d) - ?ex"
    using ResolveNext_selection [OF fst] unfolding univ by blast
  show "ro_routing (ps_router st') = ro_routing (ps_router st)" "ro_registry (ps_router st') = ro_registry (ps_router st)"
    using snd run_facts(1,2) by simp_all
  show "ps_observed st' = ps_observed st @ [(pr_id (rr_provider route), rr_model route)]"
    using dec_facts run_facts(3) by simp
  show "\<exists>r env'. ro_registry r = ro_registry (ps_router st) \<and> ro_routing r = ro_routing (ps_router st)
      \<and> fst (ResolveNext env' r (sd_virtual_model d) cap ?ex) = Inr route'"
    using fst run_facts(1,2) by fastforce
  show "received (ps_writer st') = received (ps_writer st)" if un: "unsent (ps_writer st)"
    using run_facts(5) un dec_facts by (simp add: attempt_inv_def)
qed

section \<open>The failover loop\<close>

definition untried :: "string set \<Rightarrow> route_result \<Rightarrow> proxy_state \<Rightarrow> nat" where
  "untried attempted route st =
     (case rr_selection route of None \<Rightarrow> 0
      | Some d \<Rightarrow> card (route_universe (ps_router st) (sd_virtual_model d) - insert (trim_space (sd_selected_target d)) attempted))"

lemma untried_decreases:
  assumes "rr_selection route = Some d"
    and "failover_attempt env n requested body cap attempted route d st = NextRoute route' st'"
  shows "untried (insert (trim_space (sd_selected_target d)) attempted) route' st' < untried attempted route st"
proof -
  let ?U = "route_universe (ps_router st) (sd_virtual_model d)" and ?ex = "insert (trim_space (sd_selected_target d)) attempted"
  obtain d' where d': "rr_selection route' = Some d'" "sd_virtual_model d' = sd_virtual_model d"
    "trim_space (sd_selected_target d') \<in> ?U - ?ex"
    using failover_attempt_next(1) [OF assms(2)] by blast
  have univ: "route_universe (ps_router st') (sd_virtual_model d') = ?U"
    using failover_attempt_next(2) [OF assms(2)] by (simp add: route_universe_def d'(2))
  have "?U - insert (trim_space (sd_selected_target d')) ?ex \<subset> ?U - ?ex" using d'(3) by blast
  then have "card (?U - insert (trim_space (sd_selected_target d')) ?ex) < card (?U - ?ex)"
    by (intro psubset_card_mono) simp_all
  then show ?thesis by (simp add: untried_def assms(1) d'(1) univ)
qed

text \<open>An umbrella route always carries its selection; dereferencing a missing one would panic.\<close>

function failover_loop ::
    "proxy_env \<Rightarrow> nat \<Rightarrow> string \<Rightarrow> string \<Rightarrow> capability \<Rightarrow> string set \<Rightarrow> route_result \<Rightarrow> proxy_state \<Rightarrow> proxy_result \<times> proxy_state" where
  "failover_loop env n requested body cap attempted route st =
     (case rr_selection route of
        None \<Rightarrow> (Panicked, st)
      | Some d \<Rightarrow>
          (case failover_attempt env n requested body cap attempted route d st of
             Finished res st' \<Rightarrow> (res, st')
           | NextRoute route' st' \<Rightarrow>
               failover_loop env (Suc n) requested body cap (insert (trim_space (sd_selected_target d)) attempted) route' st'))"
  by pat_completeness auto
termination
  by (relation "measure (\<lambda>(env, n, requested, body, cap, attempted, route, st). untried attempted route st)")
    (auto intro: untried_decreases)

declare failover_loop.simps [simp del]

definition dispatchSingleRoute ::
    "proxy_env \<Rightarrow> route_result \<Rightarrow> string \<Rightarrow> string \<Rightarrow> capability \<Rightarrow> proxy_state \<Rightarrow> proxy_result \<times> proxy_state" where
  "dispatchSingleRoute env route requested body cap st =
     (let pid = pr_id (rr_provider route);
          st = st\<lparr>ps_observed := ps_observed st @ [(pid, rr_model route)]\<rparr>
      in case attempt_body (px_codec env) body requested (rr_model route) of
           Panic \<Rightarrow> (Panicked, st)
         | Body patchedBody \<Rightarrow>
           (let handle = length (tl_handles (ps_recorder st));
                rec = Begin (px_clock env 0) pid (rr_model route) (ps_recorder st);
                (acts, proxyErr) = px_provider env 0 pid patchedBody;
                (u, rw) = fold run_direct acts (\<lparr>uw_buf = '''', uw_capped = False\<rparr>, ps_writer st);
                status0 = responseStatus (rw_StatusCode rw);
                status = (if proxyErr \<noteq> None \<and> status0 = 200 then providerErrorStatus proxyErr else status0);
                rec = Finish (px_clock env 1) handle (telemetry_outcome (px_codec env) cap status proxyErr u) rec
            in (Returned proxyErr, st\<lparr>ps_recorder := rec, ps_writer := rw\<rparr>)))"

definition processProxyRequest :: "proxy_env \<Rightarrow> proxy_request \<Rightarrow> proxy_state \<Rightarrow> proxy_result \<times> proxy_state" where
  "processProxyRequest env q st =
     (case CapabilityFromPath (rq_path q) of
        None \<Rightarrow> (Returned (Some (newProviderError ProviderErrorInvalidRequest 404 ''unsupported path'')), st)
      | Some cap \<Rightarrow>
        (case rq_body q of
           None \<Rightarrow> (Returned (Some (newProviderError ProviderErrorInvalidRequest 400 ''reading request body'')), st)
         | Some body \<Rightarrow>
           (let requested = ExtractModel (px_codec env) body in
            case Resolve (px_routing env 0) (ps_router st) requested cap of
              (Inl (NoActiveTarget e), router) \<Rightarrow>
                (Returned (Some (newProviderError ProviderErrorModelUnavailable 503 ''no active target is available'')),
                 st\<lparr>ps_router := router\<rparr>)
            | (Inl e, router) \<Rightarrow>
                (Returned (Some (newProviderError ProviderErrorInvalidRequest 400 ''routing'')), st\<lparr>ps_router := router\<rparr>)
            | (Inr route, router) \<Rightarrow>
                if rr_selection route = None
                then dispatchSingleRoute env route requested body cap (st\<lparr>ps_router := router\<rparr>)
                else failover_loop env 0 requested body cap {} route (st\<lparr>ps_router := router\<rparr>))))"

text \<open>The error body of \<open>writeOpenAIError\<close>; its marshalling cannot fail.\<close>

definition openai_error_body :: "json_codec \<Rightarrow> proxy_error option \<Rightarrow> string" where
  "openai_error_body codec err =
     (let message = (case err of None \<Rightarrow> ''request failed'' | Some e \<Rightarrow> er_message e);
          kind = (case err of Some e \<Rightarrow> (case er_provider e of Some (k, _) \<Rightarrow> k | None \<Rightarrow> ''proxy_error'') | None \<Rightarrow> ''proxy_error'')
      in case jc_encode codec (JObj [(''error'', JObj [(''message'', JStr message), (''type'', JStr kind)])]) of
           Some b \<Rightarrow> b | None \<Rightarrow> '''')"

definition writeOpenAIError :: "json_codec \<Rightarrow> int \<Rightarrow> proxy_error option \<Rightarrow> response_wrapper \<Rightarrow> response_wrapper" where
  "writeOpenAIError codec status err rw =
     (let status = (if status \<le> 0 then 500 else status);
          rw = rw_set_header (AList.update ''Content-Type'' [''application/json''] (rw_header rw)) rw;
          rw = rw_WriteHeader status rw
      in snd (rw_Write (openai_error_body codec err) rw))"

definition proxyHandler :: "proxy_env \<Rightarrow> proxy_error option \<Rightarrow> proxy_request \<Rightarrow> proxy_state \<Rightarrow> proxy_state" where
  "proxyHandler env ctxErr q st =
     (case processProxyRequest env q st of
        (Panicked, st) \<Rightarrow>
          if rw_headers_sent (ps_writer st) then st
          else st\<lparr>ps_writer := writeOpenAIError (px_codec env) 500
                 (Some (newProviderError ProviderErrorTransport 500 ''internal server error'')) (ps_writer st)\<rparr>
      | (Returned err, st) \<Rightarrow>
          (let err = (if err = None \<and> ctxErr \<noteq> None \<and> \<not> rw_headers_sent (ps_writer st) then ctxErr else err) in
           case err of
             None \<Rightarrow> st
           | Some e \<Rightarrow>
               if rw_headers_sent (ps_writer st) then st
               else st\<lparr>ps_writer := writeOpenAIError (px_codec env)
                      (if er_deadline e then 504 else providerErrorStatus err) err (ps_writer st)\<rparr>))"

section \<open>Facts on the loop\<close>

definition split_target :: "string \<Rightarrow> provider_id \<times> string" where
  "split_target t = (case StripModelPrefix (trim_space t) of (bare, pid, _) \<Rightarrow> (pid, bare))"

text \<open>Every attempt of a run of the loop was proposed by the router with the earlier ones excluded.\<close>

lemma failover_attempt_observed:
  "failover_attempt env n requested body cap attempted route d st = Finished res st' \<Longrightarrow>
     ps_observed st' = ps_observed st @ [(pr_id (rr_provider route), rr_model route)]"
  by (auto simp: failover_attempt_def Let_def dest!: decide_attempt_finished dest: run_attempt_facts(3)
      split: patched.splits prod.splits)

lemma failover_loop_attempts:
  assumes "failover_loop env n requested body cap attempted route st = (res, st')"
    and "registry_inv (ro_registry (ps_router st))"
    and "map_of (items (rt_virtual_models (ro_routing (ps_router st)))) vid = Some vm"
    and "\<exists>env' r. ro_registry r = ro_registry (ps_router st) \<and> ro_routing r = ro_routing (ps_router st)
      \<and> fst (ResolveNext env' r vid cap attempted) = Inr route"
  shows "\<exists>ts. failover_source.attempts (proposal vid vm cap) trim_space attempted ts
    \<and> ps_observed st' = ps_observed st @ map split_target ts"
  using assms
proof (induction env n requested body cap attempted route st rule: failover_loop.induct)
  case (1 env n requested body cap attempted route st)
  obtain env' r where r: "ro_registry r = ro_registry (ps_router st)" "ro_routing r = ro_routing (ps_router st)"
    and nxt: "fst (ResolveNext env' r vid cap attempted) = Inr route" using "1.prems"(4) by blast
  have inv: "registry_inv (ro_registry r)" and vm: "map_of (items (rt_virtual_models (ro_routing r))) vid = Some vm"
    using "1.prems"(2,3) r by simp_all
  obtain d where d: "rr_selection route = Some d" "sd_virtual_model d = vid"
    using ResolveNext_selection [OF nxt] by blast
  have fresh: "proposal vid vm cap attempted (sd_selected_target d)"
    unfolding proposal_def using inv vm nxt d(1) by blast
  have "fst (resolveVirtualModelExcluding env' r vid vm cap attempted) = Inr route" using nxt vm by (simp add: ResolveNext_def)
  then have tgt: "split_target (sd_selected_target d) = (pr_id (rr_provider route), rr_model route)"
    using virtual_ok [OF inv] d(1) by (auto simp: route_ok_def split_target_def)
  show ?case
  proof (cases "failover_attempt env n requested body cap attempted route d st")
    case (Finished res1 st1)
    then have "st' = st1" using "1.prems"(1) d(1) by (simp add: failover_loop.simps)
    then have obs: "ps_observed st' = ps_observed st @ map split_target [sd_selected_target d]"
      using failover_attempt_observed [OF Finished] tgt by simp
    have "failover_source.attempts (proposal vid vm cap) trim_space attempted [sd_selected_target d]"
      by (intro umbrella.attempts.attempts_next fresh umbrella.attempts.attempts_stop)
    with obs show ?thesis by blast
  next
    case (NextRoute route1 st1)
    note step_facts = failover_attempt_next [OF NextRoute]
    have "failover_loop env (Suc n) requested body cap (insert (trim_space (sd_selected_target d)) attempted) route1 st1 = (res, st')"
      using "1.prems"(1) d(1) NextRoute by (simp add: failover_loop.simps [of env n])
    then obtain ts where ts: "failover_source.attempts (proposal vid vm cap) trim_space (insert (trim_space (sd_selected_target d)) attempted) ts"
      "ps_observed st' = ps_observed st1 @ map split_target ts"
      using "1.IH" [OF d(1) NextRoute] "1.prems"(2,3) step_facts(2,3,5) d(2) by auto
    have "failover_source.attempts (proposal vid vm cap) trim_space attempted (sd_selected_target d # ts)"
      by (intro umbrella.attempts.attempts_next fresh ts(1))
    moreover have "ps_observed st' = ps_observed st @ map split_target (sd_selected_target d # ts)"
      using ts(2) step_facts(4) tgt by simp
    ultimately show ?thesis by blast
  qed
qed

lemma proposal_stripped:
  assumes "failover_source.attempts (proposal vid vm cap) trim_space tried ts" and "t \<in> set ts"
  shows "\<exists>pid bare. StripModelPrefix (trim_space t) = (bare, pid, True)"
  using assms
proof (induction rule: umbrella.attempts.induct)
  case (attempts_next tried t' ts)
  obtain env r res d where p: "registry_inv (ro_registry r)" "fst (ResolveNext env r vid cap tried) = Inr res"
    "rr_selection res = Some d" "t' = sd_selected_target d"
    using attempts_next.hyps(1) unfolding proposal_def by blast
  from ResolveNext_Inr [OF p(1,2)] p(3) obtain vm' snap where
    "SelectPriorityTargetExcluding vid (ordered_targets r vid vm' cap) cap (Some snap) tried = Inr d" by auto
  from select_Some(2) [OF this] have "\<exists>pid bare. StripModelPrefix (trim_space t') = (bare, pid, True)"
    by (auto simp: target_active_iff p(4) split: prod.splits)
  with attempts_next show ?case by auto
qed simp

lemma Resolve_virtual_route:
  assumes "Resolve env r requested cap = (Inr route, r')" and "rr_selection route \<noteq> None"
  shows "\<exists>vid vm. map_of (items (rt_virtual_models (ro_routing r))) vid = Some vm
    \<and> fst (ResolveNext env r vid cap {}) = Inr route"
proof -
  let ?m = "if requested = '''' then rt_default_model (ro_routing r) else requested"
  obtain bare pid ok where strip: "StripModelPrefix ?m = (bare, pid, ok)" by (metis prod_cases3)
  have none: "resolveWithPrefix r full b p cap \<noteq> Inr route" "defaultProviderRoute r full cap \<noteq> Inr route"
    for full b p using assms(2)
    by (auto simp: resolveWithPrefix_def defaultProviderRoute_def Let_def split: sum.splits if_splits)
  have none2: "discoverFromCatalogs r full cap \<noteq> [route]" for full
    using discover_selection [of route r full cap] assms(2) by auto
  obtain vm where "map_of (items (rt_virtual_models (ro_routing r))) ?m = Some vm"
    "resolveVirtualModelExcluding env r ?m vm cap {} = (Inr route, r')"
    using assms none none2 unfolding Resolve_def Let_def strip resolveVirtualModel_def prod.case
    by (auto split: option.splits sum.splits if_split_asm list.splits)
  then show ?thesis by (intro exI [of _ ?m] exI [of _ vm]) (simp add: ResolveNext_def)
qed

lemma dispatchSingleRoute_observed:
  "dispatchSingleRoute env route requested body cap st = (res, st') \<Longrightarrow>
     ps_observed st' = ps_observed st @ [(pr_id (rr_provider route), rr_model route)]"
  by (auto simp: dispatchSingleRoute_def Let_def split: patched.splits prod.splits)

section \<open>Properties\<close>

text \<open>C1: sequential failover terminates and never repeats. For one request, the targets
  dispatched to are pairwise distinct; an explicit route is dispatched at most once; and an
  umbrella request goes to configured targets of one umbrella model only, each at most once,
  so there are never more attempts than configured targets.\<close>

theorem failover_never_repeats:
  assumes "registry_inv (ro_registry (ps_router st))" and "processProxyRequest env q st = (res, st')"
  shows "\<exists>obs. ps_observed st' = ps_observed st @ obs \<and> distinct obs
    \<and> (length obs \<le> 1 \<or>
       (\<exists>vid vm. map_of (items (rt_virtual_models (ro_routing (ps_router st)))) vid = Some vm
          \<and> length obs \<le> length (items (vm_targets vm))
          \<and> (\<forall>(pid, model) \<in> set obs. ProviderPrefix pid @ model \<in> trim_space ` set (items (vm_targets vm)))))"
proof (cases "ps_observed st' = ps_observed st")
  case True
  then show ?thesis by (intro exI [of _ "[]"]) simp
next
  case new: False
  obtain cap body route r where cap: "CapabilityFromPath (rq_path q) = Some cap" "rq_body q = Some body"
    and route: "Resolve (px_routing env 0) (ps_router st) (ExtractModel (px_codec env) body) cap = (Inr route, r)"
    using new assms(2)
    by (auto simp: processProxyRequest_def Let_def split: option.splits prod.splits sum.splits route_error.splits)
  let ?req = "ExtractModel (px_codec env) body" and ?st = "st\<lparr>ps_router := r\<rparr>"
  show ?thesis
  proof (cases "rr_selection route = None")
    case True
    then have "dispatchSingleRoute env route ?req body cap ?st = (res, st')"
      using assms(2) by (simp add: processProxyRequest_def cap route)
    from dispatchSingleRoute_observed [OF this] show ?thesis by (auto intro!: exI [of _ "[(pr_id (rr_provider route), rr_model route)]"])
  next
    case False
    then have loop: "failover_loop env 0 ?req body cap {} route ?st = (res, st')"
      using assms(2) by (auto simp: processProxyRequest_def Let_def cap route)
    obtain vid vm where vm: "map_of (items (rt_virtual_models (ro_routing (ps_router st)))) vid = Some vm"
      and nxt: "fst (ResolveNext (px_routing env 0) (ps_router st) vid cap {}) = Inr route"
      using Resolve_virtual_route [OF route False] by blast
    have frame: "ro_registry r = ro_registry (ps_router st)" "ro_routing r = ro_routing (ps_router st)"
      using Resolve_frame [of "px_routing env 0" "ps_router st" ?req cap] route by simp_all
    have "\<exists>env' r'. ro_registry r' = ro_registry (ps_router ?st) \<and> ro_routing r' = ro_routing (ps_router ?st)
        \<and> fst (ResolveNext env' r' vid cap {}) = Inr route"
      using nxt frame by (intro exI [of _ "px_routing env 0"] exI [of _ "ps_router st"]) simp
    then obtain ts where ts: "failover_source.attempts (proposal vid vm cap) trim_space {} ts"
      and obs: "ps_observed st' = ps_observed st @ map split_target ts"
      using failover_loop_attempts [OF loop, of vid vm] assms(1) vm frame by auto
    have fresh: "distinct (map trim_space ts)" "trim_space ` set ts \<subseteq> trim_space ` set (items (vm_targets vm))"
      using umbrella.attempts_fresh [OF ts] by simp_all
    have len: "length ts \<le> length (items (vm_targets vm))"
      using umbrella.attempts_bounded [OF ts] card_length [of "map trim_space (items (vm_targets vm))"] by simp
    have join: "\<exists>pid bare. StripModelPrefix (trim_space t) = (bare, pid, True)" if "t \<in> set ts" for t
      using proposal_stripped [OF ts that] .
    have key: "(\<lambda>(pid, model). ProviderPrefix pid @ model) (split_target t) = trim_space t" if "t \<in> set ts" for t
      using join [OF that] StripModelPrefix_known(2) by (fastforce simp: split_target_def)
    have "map (\<lambda>(pid, model). ProviderPrefix pid @ model) (map split_target ts) = map trim_space ts"
      using key by simp
    then have "distinct (map split_target ts)" using fresh(1) by (metis distinct_map)
    moreover have "(\<lambda>(pid, model). ProviderPrefix pid @ model) x \<in> trim_space ` set (items (vm_targets vm))"
      if x: "x \<in> set (map split_target ts)" for x
    proof -
      obtain t where t: "t \<in> set ts" "x = split_target t" using x by auto
      then show ?thesis unfolding t(2) key [OF t(1)] using fresh(2) by blast
    qed
    then have "\<forall>(pid, model) \<in> set (map split_target ts). ProviderPrefix pid @ model \<in> trim_space ` set (items (vm_targets vm))"
      unfolding case_prod_unfold by blast
    ultimately show ?thesis using obs len vm by (intro exI [of _ "map split_target ts"]) auto
  qed
qed

text \<open>Two targets, the first of which answers 503 and the second 200.\<close>

definition sample_proxy_codec :: json_codec where
  "sample_proxy_codec = \<lparr>jc_decode = (\<lambda>b. if b = ''Q'' then Some (JObj [(''model'', JStr ''thiendu'')]) else None),
     jc_encode = (\<lambda>j. Some ''P'')\<rparr>"

definition sample_proxy_env :: "(nat \<Rightarrow> rw_action list \<times> proxy_error option) \<Rightarrow> proxy_env" where
  "sample_proxy_env behaviour = \<lparr>px_codec = sample_proxy_codec, px_routing = (\<lambda>i. sample_env), px_clock = (\<lambda>i. 1000),
     px_io = (\<lambda>i. PersistDone), px_provider = (\<lambda>i pid body. behaviour i), px_ctx_err = (\<lambda>i. None)\<rparr>"

definition sample_behaviour :: "nat \<Rightarrow> rw_action list \<times> proxy_error option" where
  "sample_behaviour n = (if n = 0 then ([AddHeader ''Retry-After'' ''7'', WriteStatus 503, WriteBody ''busy''], None)
     else ([WriteStatus 200, WriteBody ''hello''], None))"

definition sample_proxy_state :: proxy_state where
  "sample_proxy_state = \<lparr>ps_router = sample_router, ps_recorder = NewRecorder, ps_writer = fresh_wrapper, ps_observed = []\<rparr>"

definition sample_request :: proxy_request where
  "sample_request = \<lparr>rq_path = ''/v1/chat/completions'', rq_body = Some ''Q''\<rparr>"

theorem failover_never_repeats_witness:
  "\<exists>res st'. processProxyRequest (sample_proxy_env sample_behaviour) sample_request sample_proxy_state = (res, st')
     \<and> ps_observed st' = [(Codex, ''gpt-5''), (Kilo, ''free'')] \<and> distinct (ps_observed st')"
proof -
  obtain res st' where p: "processProxyRequest (sample_proxy_env sample_behaviour) sample_request sample_proxy_state = (res, st')"
    by fastforce
  have "ps_observed (snd (processProxyRequest (sample_proxy_env sample_behaviour) sample_request sample_proxy_state))
      = [(Codex, ''gpt-5''), (Kilo, ''free'')]" by code_simp
  then have obs: "ps_observed st' = [(Codex, ''gpt-5''), (Kilo, ''free'')]" by (simp add: p)
  have "registry_inv (ro_registry (ps_router sample_proxy_state))"
    using sample_router_inv by (simp add: sample_proxy_state_def)
  from failover_never_repeats [OF this p] have "distinct (ps_observed st')"
    by (auto simp: sample_proxy_state_def)
  with p obs show ?thesis by blast
qed


definition sample_route :: route_result where
  "sample_route = \<lparr>rr_provider = sample_provider Codex, rr_model = ''gpt-5'', rr_selection = Some sample_decision\<rparr>"


text \<open>Which failures fail over. An outcome puts the target into cooldown exactly when it is
  eligible for failover and is not a cancellation by the client, so a target that was given
  up for the next one is, but for cancellations, also kept out of the following requests.\<close>

theorem failover_iff_cooldown:
  "cooldownPolicy status (map_option go_error_of err) retryAfter \<noteq> None \<longleftrightarrow>
     isEligibleFailoverStatus status err \<and> \<not> (case err of Some e \<Rightarrow> er_canceled e | None \<Rightarrow> False)"
  by (auto simp: cooldownPolicy_def cooldownReason_def isEligibleFailoverStatus_def go_error_of_def split: option.splits if_splits)

text \<open>C40: a provider that fails before writing anything is not failed over. Although every error
  is eligible for failover, committing the untouched umbrella writer sends the client a 200
  with an empty body; the request ends there with the provider's error, whatever other
  targets are active, and no error response can follow.\<close>

theorem silent_failure_not_failed_over:
  assumes "unsent (ps_writer st)" and "jc_decode (px_codec env) '''' = None"
    and "attempt_body (px_codec env) body requested (rr_model route) = Body b"
    and "px_provider env n (pr_id (rr_provider route)) b = ([], Some e)"
  shows "(\<exists>st'. failover_attempt env n requested body cap attempted route d st = Finished (Returned (Some e)) st'
      \<and> sent_status (ps_writer st') = Some 200
      \<and> cl_body (rw_client (ps_writer st')) = cl_body (rw_client (ps_writer st)))
    \<and> isEligibleFailoverStatus status (Some e)"
proof -
  obtain ok v a rw where c: "vw_Commit (px_codec env) (newVirtualModelResponseWriter requested, newAttemptResponseWriter, ps_writer st) = (ok, v, a, rw)"
    by (metis prod_cases4)
  note silent = silent_attempt_commits_200 [OF assms(1) c assms(2)]
  then have "\<exists>st'. failover_attempt env n requested body cap attempted route d st = Finished (Returned (Some e)) st' \<and> ps_writer st' = rw"
    by (simp add: failover_attempt_def run_attempt_def decide_attempt_def Let_def assms(3,4) run_actions_def c)
  with silent show ?thesis by (auto simp: isEligibleFailoverStatus_def)
qed

definition sample_error :: proxy_error where
  "sample_error = newProviderError ProviderErrorUnavailable 503 ''circuit open''"

theorem silent_failure_not_failed_over_witness:
  "\<exists>st'. failover_attempt (sample_proxy_env (\<lambda>n. ([], Some sample_error))) 0 ''thiendu'' ''Q'' CapabilityChat {} sample_route
        sample_decision sample_proxy_state = Finished (Returned (Some sample_error)) st'
     \<and> sent_status (ps_writer st') = Some 200 \<and> cl_body (rw_client (ps_writer st')) = ''''"
proof -
  let ?env = "sample_proxy_env (\<lambda>n. ([], Some sample_error))"
  have u: "unsent (ps_writer sample_proxy_state)" "cl_body (rw_client (ps_writer sample_proxy_state)) = ''''"
    by (simp_all add: sample_proxy_state_def unsent_def fresh_wrapper_def)
  have dec: "jc_decode (px_codec ?env) '''' = None" by (simp add: sample_proxy_env_def sample_proxy_codec_def)
  have body: "attempt_body (px_codec ?env) ''Q'' ''thiendu'' (rr_model sample_route) = Body ''P''" by code_simp
  have beh: "px_provider ?env 0 (pr_id (rr_provider sample_route)) ''P'' = ([], Some sample_error)"
    by (simp add: sample_proxy_env_def)
  show ?thesis
    using silent_failure_not_failed_over [OF u(1) dec body beh, of CapabilityChat "{}" sample_decision 502] u(2) by simp
qed

text \<open>The Retry-After hint is at most five minutes, because the value is cut there before it
  is classified; so a 429 response that asks for a longer pause, by any number of seconds
  that does not overflow, is recorded as a five-minute rate limit and never as an exhausted
  quota with its cooldown of 24 hours.\<close>

theorem retry_after_never_quota:
  assumes "Atoi (trim_space v) = Some s" and "0 < s" and "s * second < 2 ^ 63"
  shows "retryAfterDuration v = min (s * second) (5 * minute)
    \<and> cooldownPolicy 429 None (retryAfterDuration v) = Some (CooldownRateLimited, min (s * second) (5 * minute))"
proof -
  have pos: "0 < s * second" using assms(2) by (simp add: second_def)
  moreover have "- (2 ^ 63) \<le> (0 :: int)" by simp
  ultimately have "- (2 ^ 63) \<le> s * second" by (meson less_imp_le order.trans)
  then have "wrap64 (s * second) = s * second" using assms(3) by (rule wrap64_id)
  then have ra: "retryAfterDuration v = min (s * second) (5 * minute)"
    using assms(1,2) by (simp add: retryAfterDuration_def Let_def min_def)
  have "0 < min (s * second) (5 * minute)" "min (s * second) (5 * minute) \<le> maxCooldown"
    using pos by (simp_all add: maxCooldown_def duration_defs)
  then show ?thesis by (simp add: ra cooldownPolicy_def cooldownReason_def)
qed

theorem retry_after_never_quota_witness:
  "cooldownPolicy 429 None (retryAfterDuration '' 86400'') = Some (CooldownRateLimited, 5 * minute)"
proof -
  have a: "Atoi (trim_space '' 86400'') = Some 86400" by code_simp
  have "(86400 :: int) * second < 2 ^ 63" "min (86400 * second) (5 * minute) = 5 * minute" by (simp_all add: duration_defs)
  with retry_after_never_quota [OF a] show ?thesis by (metis zero_less_numeral)
qed

lemma writeOpenAIError_sent:
  "unsent rw \<Longrightarrow> 0 < status \<Longrightarrow> sent_status (writeOpenAIError codec status err rw) = Some status"
  by (simp add: writeOpenAIError_def Let_def rw_WriteHeader_def rw_set_header_def rw_Write_def client_Write_def
      client_WriteHeader_def sent_status_def unsent_def)

lemma providerErrorStatus_pos: "0 < providerErrorStatus err"
  by (simp add: providerErrorStatus_def split: option.split prod.split)

text \<open>The handler answers every failure the client has not seen anything of. A request that
  returns an error before output gets the error's own status, 504 when a deadline passed, and
  a panic gets 500; and once output was sent the handler adds nothing to it.\<close>

theorem handler_error_response:
  assumes "processProxyRequest env q st = (out, st1)"
  shows "(unsent (ps_writer st1) \<longrightarrow>
      (case out of
         Panicked \<Rightarrow> sent_status (ps_writer (proxyHandler env ctxErr q st)) = Some 500
       | Returned (Some e) \<Rightarrow> sent_status (ps_writer (proxyHandler env ctxErr q st)) =
           Some (if er_deadline e then 504 else providerErrorStatus (Some e))
       | Returned None \<Rightarrow> ctxErr = None \<longrightarrow> proxyHandler env ctxErr q st = st1))
    \<and> (rw_headers_sent (ps_writer st1) \<longrightarrow> proxyHandler env ctxErr q st = st1)"
proof (intro conjI impI)
  assume u: "unsent (ps_writer st1)"
  then have "\<not> rw_headers_sent (ps_writer st1)" by (simp add: unsent_def)
  with u show "case out of
         Panicked \<Rightarrow> sent_status (ps_writer (proxyHandler env ctxErr q st)) = Some 500
       | Returned (Some e) \<Rightarrow> sent_status (ps_writer (proxyHandler env ctxErr q st)) =
           Some (if er_deadline e then 504 else providerErrorStatus (Some e))
       | Returned None \<Rightarrow> ctxErr = None \<longrightarrow> proxyHandler env ctxErr q st = st1"
    by (auto simp: proxyHandler_def assms Let_def writeOpenAIError_sent providerErrorStatus_pos split: proxy_result.split option.split)
qed (auto simp: proxyHandler_def assms Let_def split: proxy_result.split option.split)

theorem handler_error_response_witness:
  "sent_status (ps_writer (proxyHandler (sample_proxy_env sample_behaviour) None (sample_request\<lparr>rq_path := ''/v1/audio''\<rparr>) sample_proxy_state)) = Some 404"
proof -
  let ?e = "newProviderError ProviderErrorInvalidRequest 404 ''unsupported path''"
  have "CapabilityFromPath ''/v1/audio'' = None" by code_simp
  then have p: "processProxyRequest (sample_proxy_env sample_behaviour) (sample_request\<lparr>rq_path := ''/v1/audio''\<rparr>) sample_proxy_state
      = (Returned (Some ?e), sample_proxy_state)" by (simp add: processProxyRequest_def)
  have u: "unsent (ps_writer sample_proxy_state)" by (simp add: sample_proxy_state_def unsent_def fresh_wrapper_def)
  have st: "er_deadline ?e = False" "providerErrorStatus (Some ?e) = 404" by (simp_all add: newProviderError_def providerErrorStatus_def)
  show ?thesis using handler_error_response [OF p, of None] u st by simp
qed

definition handles_done :: "recorder \<Rightarrow> bool" where
  "handles_done r \<longleftrightarrow> (\<forall>h \<in> set (tl_handles r). fl_done h)"

lemma begin_finish_done:
  "handles_done r \<Longrightarrow> handles_done (Finish t2 (length (tl_handles r)) out (Begin t1 p m r))"
  by (auto simp: handles_done_def Finish_def Begin_def Let_def nth_append list_update_append split: if_splits)

lemma begin_finish_reach:
  "reach recorder_step NewRecorder r \<Longrightarrow> reach recorder_step NewRecorder (Finish t2 h out (Begin t1 p m r))"
  by (meson reach_step step_begin step_finish)

lemma failover_attempt_recorder:
  assumes "failover_attempt env n requested body cap attempted route d st = Finished res st'
    \<or> failover_attempt env n requested body cap attempted route d st = NextRoute route' st'"
  shows "ps_recorder st' = ps_recorder st
   \<or> (\<exists>t1 t2 out p m. ps_recorder st' = Finish t2 (length (tl_handles (ps_recorder st))) out (Begin t1 p m (ps_recorder st)))"
proof (cases "attempt_body (px_codec env) body requested (rr_model route)")
  case (Body b)
  let ?st = "st\<lparr>ps_observed := ps_observed st @ [(pr_id (rr_provider route), rr_model route)]\<rparr>"
  obtain err status a st1 where run: "run_attempt env n requested b cap route d ?st = (err, status, a, st1)" by (metis prod_cases4)
  have "decide_attempt env n cap attempted d err status a st1 = Finished res st'
      \<or> decide_attempt env n cap attempted d err status a st1 = NextRoute route' st'"
    using assms by (simp add: failover_attempt_def Let_def Body run)
  then have "ps_recorder st' = ps_recorder st1" by (auto dest: decide_attempt_finished decide_attempt_next)
  moreover obtain t1 t2 out where "ps_recorder st1 = Finish t2 (length (tl_handles (ps_recorder st))) out
      (Begin t1 (pr_id (rr_provider route)) (rr_model route) (ps_recorder st))"
    using run_attempt_facts(4) [OF run] by auto
  ultimately show ?thesis by metis
qed (use assms in \<open>auto simp: failover_attempt_def Let_def\<close>)

lemma failover_loop_recorder:
  assumes "failover_loop env n requested body cap attempted route st = (res, st')"
    and "P (ps_recorder st)"
    and "\<And>r t1 t2 out p m. P r \<Longrightarrow> P (Finish t2 (length (tl_handles r)) out (Begin t1 p m r))"
  shows "P (ps_recorder st')"
  using assms(1,2)
proof (induction env n requested body cap attempted route st rule: failover_loop.induct)
  case (1 env n requested body cap attempted route st)
  show ?case
  proof (cases "rr_selection route")
    case None
    with "1.prems" show ?thesis by (simp add: failover_loop.simps)
  next
    case (Some d)
    show ?thesis
    proof (cases "failover_attempt env n requested body cap attempted route d st")
      case (Finished res1 st1)
      then have "failover_attempt env n requested body cap attempted route d st = Finished res st'"
        using "1.prems"(1) Some by (simp add: failover_loop.simps)
      with failover_attempt_recorder "1.prems"(2) assms(3) show ?thesis by metis
    next
      case (NextRoute route1 st1)
      have "P (ps_recorder st1)" using failover_attempt_recorder NextRoute "1.prems"(2) assms(3) by metis
      moreover have "failover_loop env (Suc n) requested body cap (insert (trim_space (sd_selected_target d)) attempted) route1 st1 = (res, st')"
        using "1.prems"(1) Some NextRoute by (simp add: failover_loop.simps [of env n])
      ultimately show ?thesis using "1.IH" [OF Some NextRoute] by blast
    qed
  qed
qed

lemma processProxyRequest_recorder:
  assumes "processProxyRequest env q st = (res, st')" and "P (ps_recorder st)"
    and step: "\<And>r t1 t2 out p m. P r \<Longrightarrow> P (Finish t2 (length (tl_handles r)) out (Begin t1 p m r))"
  shows "P (ps_recorder st')"
proof (cases "\<exists>router. st' = st\<lparr>ps_router := router\<rparr>")
  case True
  with assms(2) show ?thesis by auto
next
  case new: False
  have [simp]: "st\<lparr>ps_router := ps_router st\<rparr> = st" by simp
  have "st' \<noteq> st" using new by (metis \<open>st\<lparr>ps_router := ps_router st\<rparr> = st\<close>)
  then obtain cap body route r where cap: "CapabilityFromPath (rq_path q) = Some cap" "rq_body q = Some body"
    and route: "Resolve (px_routing env 0) (ps_router st) (ExtractModel (px_codec env) body) cap = (Inr route, r)"
    using new assms(1)
    by (auto simp: processProxyRequest_def Let_def split: option.splits prod.splits sum.splits route_error.splits)
  let ?req = "ExtractModel (px_codec env) body" and ?st = "st\<lparr>ps_router := r\<rparr>"
  have P: "P (ps_recorder ?st)" using assms(2) by simp
  show ?thesis
  proof (cases "rr_selection route = None")
    case True
    then have "dispatchSingleRoute env route ?req body cap ?st = (res, st')"
      using assms(1) by (auto simp: processProxyRequest_def Let_def cap route)
    then show ?thesis using step P by (auto simp: dispatchSingleRoute_def Let_def split: patched.splits prod.splits)
  next
    case False
    then have "failover_loop env 0 ?req body cap {} route ?st = (res, st')"
      using assms(1) by (auto simp: processProxyRequest_def Let_def cap route)
    from failover_loop_recorder [OF this P step] show ?thesis .
  qed
qed

text \<open>Telemetry is balanced across failover. However a request ends, success, error,
  exhausted targets, cancellation or a panic while rewriting the body, every attempt it
  started has been finished when it returns, and the recorder is in a state reachable by its
  own operations.\<close>

theorem request_telemetry_closed:
  assumes "processProxyRequest env q st = (res, st')"
    and "\<forall>h \<in> set (tl_handles (ps_recorder st)). fl_done h" and "reach recorder_step NewRecorder (ps_recorder st)"
  shows "(\<forall>h \<in> set (tl_handles (ps_recorder st')). fl_done h) \<and> reach recorder_step NewRecorder (ps_recorder st')"
proof -
  let ?P = "\<lambda>r. handles_done r \<and> reach recorder_step NewRecorder r"
  have "?P (ps_recorder st')"
    by (rule processProxyRequest_recorder [OF assms(1), where P = ?P])
      (use assms(2,3) begin_finish_done begin_finish_reach in \<open>auto simp: handles_done_def\<close>)
  then show ?thesis by (simp add: handles_done_def)
qed

theorem request_telemetry_closed_witness:
  "list_all fl_done (tl_handles (ps_recorder (snd (processProxyRequest (sample_proxy_env sample_behaviour) sample_request sample_proxy_state))))"
proof -
  obtain res st' where p: "processProxyRequest (sample_proxy_env sample_behaviour) sample_request sample_proxy_state = (res, st')"
    by fastforce
  have "ps_recorder sample_proxy_state = NewRecorder" by (simp add: sample_proxy_state_def)
  then have "\<forall>h \<in> set (tl_handles (ps_recorder sample_proxy_state)). fl_done h"
    "reach recorder_step NewRecorder (ps_recorder sample_proxy_state)"
    by (simp_all add: NewRecorder_def reach_start)
  with request_telemetry_closed [OF p] p show ?thesis by (simp add: list_all_iff)
qed

end
