(* ===== verification/Operation_Store.thy ===== *)
theory Operation_Store
  imports Go_Prelude "HOL-Library.Product_Lexorder"
begin

text \<open>
  The durable operation store of \<open>internal/operation\<close> (\<open>types.go\<close>, \<open>store.go\<close>,
  \<open>persistence.go\<close>): long-running control-plane work as records that move through a state
  machine, each change appended to a bounded event log and written to the state file
  before it is published.

  \<^item> States, recovery policies and event types are strings, as in Go, so that a state file
    with an unknown state is covered.
  \<^item> A mutation holds the store's mutex from its first read to its rollback or commit, so
    each is one function on the store; \<open>publish\<close> runs after the mutex is released and is a
    function of its own.
  \<^item> Every reading of the clock is an argument, as are the identifier drawn by \<open>newID\<close>,
    the digest function and the file system call that fails, if one does.
  \<^item> The state file is what decoding it yields; \<open>encoding/json\<close> is the identity on the
    records the store writes. A \<open>nil\<close> map is \<^const>\<open>None\<close>.
\<close>

section \<open>Types\<close>

type_synonym op_state = string
type_synonym string_map = "(string, string) gomap option"

definition StatePending :: op_state where "StatePending = ''pending''"
definition StateRunning :: op_state where "StateRunning = ''running''"
definition StateWaitingForUser :: op_state where "StateWaitingForUser = ''waiting_for_user''"
definition StateSucceeded :: op_state where "StateSucceeded = ''succeeded''"
definition StateFailed :: op_state where "StateFailed = ''failed''"
definition StateCancelled :: op_state where "StateCancelled = ''cancelled''"
definition StateExpired :: op_state where "StateExpired = ''expired''"

lemmas state_defs = StatePending_def StateRunning_def StateWaitingForUser_def StateSucceeded_def
  StateFailed_def StateCancelled_def StateExpired_def

definition Terminal :: "op_state \<Rightarrow> bool" where
  "Terminal s \<longleftrightarrow> s \<in> {StateSucceeded, StateFailed, StateCancelled, StateExpired}"

definition RecoveryFail :: string where "RecoveryFail = ''fail''"
definition RecoveryExpire :: string where "RecoveryExpire = ''expire''"

record op_failure =
  fa_Code :: string
  fa_Message :: string
  fa_Retryable :: bool

record op_record =
  or_ID :: string
  or_Kind :: string
  or_Target :: string
  or_Owner :: string
  or_State :: op_state
  or_Progress :: int
  or_Cancelable :: bool
  or_RecoveryPolicy :: string
  or_CreatedAt :: gotime
  or_UpdatedAt :: gotime
  or_ExpiresAt :: gotime
  or_Sequence :: nat
  or_Failure :: "op_failure option"
  or_Metadata :: string_map
  or_Result :: string_map

record op_event =
  ev_Sequence :: nat
  ev_OperationID :: string
  ev_Type :: string
  ev_State :: op_state
  ev_Timestamp :: gotime

record create_request =
  rq_Kind :: string
  rq_Target :: string
  rq_Owner :: string
  rq_Cancelable :: bool
  rq_ExpiresAt :: gotime
  rq_RecoveryPolicy :: string
  rq_Metadata :: string_map
  rq_IdempotencyKey :: string
  rq_RequestDigest :: string

record op_options =
  oo_Path :: string
  oo_MaxOperations :: int
  oo_MaxEvents :: int
  oo_Retention :: duration
  oo_DefaultTTL :: duration

text \<open>Where \<open>persistSnapshot\<close> may stop.\<close>

datatype snapshot_fault =
    SnapMkdir | SnapCreateTemp | SnapChmod | SnapWrite | SnapSync | SnapClose | SnapRename
  | SnapOpenDirectory | SnapSyncDirectory

datatype op_error =
    PathRequired
  | ReadOperations
  | DecodeOperations
  | UnsupportedSchema int
  | StoreClosed
  | InvalidRequest string
  | IdempotencyConflictError
  | NotFoundError string
  | InvalidTransitionError string op_state op_state
  | CapacityError
  | NotCancelable string
  | PersistFailed snapshot_fault

definition safe_token :: "string \<Rightarrow> string \<Rightarrow> bool" where
  "safe_token extra s \<longleftrightarrow>
     (case s of
        [] \<Rightarrow> False
      | c # cs \<Rightarrow> CHR ''a'' \<le> c \<and> c \<le> CHR ''z'' \<and> length cs \<le> 63
          \<and> list_all (\<lambda>c. (CHR ''a'' \<le> c \<and> c \<le> CHR ''z'') \<or> (CHR ''0'' \<le> c \<and> c \<le> CHR ''9'')
                          \<or> c \<in> set extra) cs)"

definition safeCode :: "string \<Rightarrow> bool" where "safeCode = safe_token ''_''"
definition safeKind :: "string \<Rightarrow> bool" where "safeKind = safe_token ''_''"
definition safeMetadataKey :: "string \<Rightarrow> bool" where "safeMetadataKey = safe_token ''_.-''"

definition failureMessage :: "string \<Rightarrow> string" where
  "failureMessage code =
     (if code = ''operation_cancelled'' then ''The operation was cancelled.''
      else if code = ''operation_expired'' then ''The operation expired.''
      else if code = ''operation_interrupted'' then ''The operation was interrupted.''
      else if code = ''operation_panic'' then ''The operation failed unexpectedly.''
      else if code = ''progress_failed'' then ''Operation progress could not be persisted.''
      else ''The operation failed.'')"

definition NewFailure :: "string \<Rightarrow> string \<Rightarrow> bool \<Rightarrow> op_failure" where
  "NewFailure code message retryable =
     (let code = trim_space code;
          code = (if \<not> safeCode code then ''operation_failed'' else code)
      in \<lparr>fa_Code = code, fa_Message = failureMessage code, fa_Retryable = retryable\<rparr>)"

section \<open>The store and its file\<close>

record op_entry =
  en_record :: op_record
  en_idempotencyHash :: string
  en_requestDigest :: string

record persisted_store =
  ps_SchemaVersion :: int
  ps_NextSequence :: nat
  ps_Operations :: "op_entry list"
  ps_Events :: "op_event list"

datatype op_file = OpNoFile | OpUnreadable | OpUndecodable | OpSnapshot persisted_store

definition schemaVersion :: int where "schemaVersion = 1"

record op_subscriber =
  sb_buffer :: int
  sb_queue :: "op_event list"

record op_store =
  os_options :: op_options
  os_operations :: "(string, op_entry) gomap"
  os_events :: "op_event list"
  os_nextSequence :: nat
  os_subscribers :: "(nat, op_subscriber) gomap"
  os_nextSubID :: nat
  os_closed :: bool
  os_disk :: op_file

record store_checkpoint =
  sc_operations :: "(string, op_entry) gomap"
  sc_events :: "op_event list"
  sc_nextSequence :: nat

definition loadPersisted :: "op_file \<Rightarrow> op_error + persisted_store" where
  "loadPersisted file =
     (case file of
        OpNoFile \<Rightarrow> Inr \<lparr>ps_SchemaVersion = schemaVersion, ps_NextSequence = 0, ps_Operations = [], ps_Events = []\<rparr>
      | OpUnreadable \<Rightarrow> Inl ReadOperations
      | OpUndecodable \<Rightarrow> Inl DecodeOperations
      | OpSnapshot snapshot \<Rightarrow>
          if ps_SchemaVersion snapshot \<noteq> schemaVersion then Inl (UnsupportedSchema (ps_SchemaVersion snapshot))
          else Inr snapshot)"

text \<open>Only the rename replaces the file; a failure after it is still reported.\<close>

definition persistSnapshot ::
    "snapshot_fault option \<Rightarrow> op_file \<Rightarrow> persisted_store \<Rightarrow> op_file \<times> op_error option" where
  "persistSnapshot io file snapshot =
     (case io of
        None \<Rightarrow> (OpSnapshot snapshot, None)
      | Some fault \<Rightarrow>
          (if fault \<in> {SnapOpenDirectory, SnapSyncDirectory} then OpSnapshot snapshot else file,
           Some (PersistFailed fault)))"

definition store_snapshot :: "op_store \<Rightarrow> persisted_store" where
  "store_snapshot st =
     \<lparr>ps_SchemaVersion = schemaVersion, ps_NextSequence = os_nextSequence st,
      ps_Operations = map (\<lambda>id. the (map_of (os_operations st) id)) (sort (keys_of (os_operations st))),
      ps_Events = os_events st\<rparr>"

definition store_persistLocked :: "snapshot_fault option \<Rightarrow> op_store \<Rightarrow> op_error option \<times> op_store" where
  "store_persistLocked io st =
     (let (file, err) = persistSnapshot io (os_disk st) (store_snapshot st) in (err, st\<lparr>os_disk := file\<rparr>))"

definition checkpointLocked :: "op_store \<Rightarrow> store_checkpoint" where
  "checkpointLocked st =
     \<lparr>sc_operations = os_operations st, sc_events = os_events st, sc_nextSequence = os_nextSequence st\<rparr>"

definition restoreLocked :: "store_checkpoint \<Rightarrow> op_store \<Rightarrow> op_store" where
  "restoreLocked c st =
     st\<lparr>os_operations := sc_operations c, os_events := sc_events c, os_nextSequence := sc_nextSequence c\<rparr>"

definition nextEventLocked ::
    "string \<Rightarrow> string \<Rightarrow> op_state \<Rightarrow> gotime \<Rightarrow> op_store \<Rightarrow> op_event \<times> op_store" where
  "nextEventLocked opid etype state now st =
     (let n = os_nextSequence st + 1 in
      (\<lparr>ev_Sequence = n, ev_OperationID = opid, ev_Type = etype, ev_State = state, ev_Timestamp = now\<rparr>,
       st\<lparr>os_nextSequence := n\<rparr>))"

definition appendEventLocked :: "op_event \<Rightarrow> op_store \<Rightarrow> op_store" where
  "appendEventLocked event st =
     (let events = os_events st @ [event] in
      st\<lparr>os_events :=
         (if int (length events) > oo_MaxEvents (os_options st)
          then (let overflow = nat (int (length events) - oo_MaxEvents (os_options st))
                in take (nat (oo_MaxEvents (os_options st))) (drop overflow events @ drop (length events - overflow) events))
          else events)\<rparr>)"

text \<open>A send on a full channel is skipped.\<close>

definition publish :: "op_event \<Rightarrow> op_store \<Rightarrow> op_store" where
  "publish event st =
     st\<lparr>os_subscribers := map (\<lambda>(id, s).
          (id, if int (length (sb_queue s)) < sb_buffer s then s\<lparr>sb_queue := sb_queue s @ [event]\<rparr> else s))
        (os_subscribers st)\<rparr>"

definition allowedTransition :: "op_state \<Rightarrow> op_state \<Rightarrow> bool" where
  "allowedTransition from to \<longleftrightarrow>
     (if Terminal from then False
      else if from = StatePending
        then to = StateRunning \<or> to = StateWaitingForUser \<or> to = StateSucceeded \<or> to = StateFailed \<or> to = StateCancelled \<or> to = StateExpired
      else if from = StateRunning
        then to = StateWaitingForUser \<or> to = StateSucceeded \<or> to = StateFailed \<or> to = StateCancelled \<or> to = StateExpired
      else if from = StateWaitingForUser
        then to = StateRunning \<or> to = StateSucceeded \<or> to = StateFailed \<or> to = StateCancelled \<or> to = StateExpired
      else False)"

section \<open>Validation\<close>

text \<open>\<open>validateMetadata\<close>: at most 32 fields, each key and value trimmed.\<close>

fun validate_fields :: "(string, string) gomap \<Rightarrow> (string, string) gomap \<Rightarrow> op_error + (string, string) gomap" where
  "validate_fields [] result = Inr result"
| "validate_fields ((key, value) # rest) result =
     (let key = trim_space key; value = trim_space value in
      if \<not> safeMetadataKey key then Inl (InvalidRequest ''invalid operation metadata key'')
      else if length value > 1024 then Inl (InvalidRequest ''operation metadata value is too long'')
      else validate_fields rest (AList.update key value result))"

definition validateMetadata :: "string_map \<Rightarrow> op_error + (string, string) gomap" where
  "validateMetadata source =
     (let fields = (case source of None \<Rightarrow> [] | Some m \<Rightarrow> m) in
      if length fields > 32 then Inl (InvalidRequest ''operation metadata contains too many fields'')
      else validate_fields fields [])"

definition sanitizeMetadata :: "string_map \<Rightarrow> string_map" where
  "sanitizeMetadata source =
     (case validateMetadata source of
        Inl e \<Rightarrow> None
      | Inr validated \<Rightarrow> if length validated = 0 then None else Some validated)"

definition validateCreate :: "create_request \<Rightarrow> gotime \<Rightarrow> op_error option" where
  "validateCreate rq now =
     (if \<not> safeKind (rq_Kind rq) then Some (InvalidRequest ''invalid operation kind'')
      else if trim_space (rq_Owner rq) = '''' \<or> length (rq_Owner rq) > 256 then Some (InvalidRequest ''operation owner is required'')
      else if length (rq_Target rq) > 512 then Some (InvalidRequest ''operation target is too long'')
      else if \<not> rq_ExpiresAt rq > now then Some (InvalidRequest ''operation expiry must be in the future'')
      else if rq_RecoveryPolicy rq \<noteq> '''' \<and> rq_RecoveryPolicy rq \<noteq> RecoveryFail \<and> rq_RecoveryPolicy rq \<noteq> RecoveryExpire
        then Some (InvalidRequest ''unsupported recovery policy'')
      else (case validateMetadata (rq_Metadata rq) of
          Inl e \<Rightarrow> Some e
        | Inr _ \<Rightarrow>
            if rq_IdempotencyKey rq \<noteq> '''' \<and> trim_space (rq_RequestDigest rq) = ''''
            then Some (InvalidRequest ''request digest is required with an idempotency key'')
            else None))"

definition hashIdempotency :: "(string \<Rightarrow> string) \<Rightarrow> string \<Rightarrow> string \<Rightarrow> string" where
  "hashIdempotency sha256_hex owner key =
     (let key = trim_space key in if key = '''' then '''' else sha256_hex (owner @ nul @ key))"

section \<open>Pruning, recovery and opening\<close>

fun prune_loop :: "int \<Rightarrow> string list \<Rightarrow> (string, op_entry) gomap \<Rightarrow> (string, op_entry) gomap" where
  "prune_loop limit [] ops = ops"
| "prune_loop limit (opid # rest) ops =
     (if int (length ops) \<le> limit then ops else prune_loop limit rest (AList.delete opid ops))"

definition terminal_candidates :: "(string, op_entry) gomap \<Rightarrow> string list" where
  "terminal_candidates ops =
     map fst (sort_key (\<lambda>(opid, e). or_UpdatedAt (en_record e)) (filter (\<lambda>(opid, e). Terminal (or_State (en_record e))) ops))"

definition pruneLocked :: "gotime \<Rightarrow> op_store \<Rightarrow> bool \<times> op_store" where
  "pruneLocked now st =
     (let cutoff = now - oo_Retention (os_options st);
          kept = filter (\<lambda>(opid, e). \<not> (Terminal (or_State (en_record e)) \<and> or_UpdatedAt (en_record e) < cutoff)) (os_operations st);
          changed = (length kept < length (os_operations st))
      in if int (length kept) \<le> oo_MaxOperations (os_options st)
         then (changed, st\<lparr>os_operations := kept\<rparr>)
         else let rest = prune_loop (oo_MaxOperations (os_options st)) (terminal_candidates kept) kept
              in (changed \<or> length rest < length kept, st\<lparr>os_operations := rest\<rparr>))"

definition recover_record :: "gotime \<Rightarrow> op_record \<Rightarrow> op_record" where
  "recover_record now r =
     (let r = (if \<not> or_ExpiresAt r > now \<or> or_RecoveryPolicy r = RecoveryExpire
               then r\<lparr>or_State := StateExpired,
                      or_Failure := Some (NewFailure ''operation_expired'' ''The operation expired before it could be resumed.'' True)\<rparr>
               else r\<lparr>or_State := StateFailed,
                      or_Failure := Some (NewFailure ''operation_interrupted'' ''The daemon restarted before the operation completed.'' True)\<rparr>)
      in r\<lparr>or_UpdatedAt := now\<rparr>)"

definition recover_one :: "gotime \<Rightarrow> string \<Rightarrow> bool \<times> op_store \<Rightarrow> bool \<times> op_store" where
  "recover_one now opid cs =
     (let (changed, st) = cs; item = the (map_of (os_operations st) opid) in
      if Terminal (or_State (en_record item)) then (changed, st)
      else
        let r = recover_record now (en_record item);
            (event, st) = nextEventLocked opid ''recovered'' (or_State r) now st;
            item = item\<lparr>en_record := r\<lparr>or_Sequence := ev_Sequence event\<rparr>\<rparr>
        in (True, appendEventLocked event (st\<lparr>os_operations := AList.update opid item (os_operations st)\<rparr>)))"

definition recoverLocked :: "gotime \<Rightarrow> op_store \<Rightarrow> bool \<times> op_store" where
  "recoverLocked now st = fold (recover_one now) (sort (keys_of (os_operations st))) (False, st)"

definition default_options :: "op_options \<Rightarrow> op_options" where
  "default_options o1 =
     o1\<lparr>oo_MaxOperations := (if oo_MaxOperations o1 \<le> 0 then 1024 else oo_MaxOperations o1),
        oo_MaxEvents := (if oo_MaxEvents o1 \<le> 0 then 4096 else oo_MaxEvents o1),
        oo_Retention := (if oo_Retention o1 \<le> 0 then 7 * 24 * hour else oo_Retention o1),
        oo_DefaultTTL := (if oo_DefaultTTL o1 \<le> 0 then 15 * minute else oo_DefaultTTL o1)\<rparr>"

definition load_entries :: "op_entry list \<Rightarrow> (string, op_entry) gomap" where
  "load_entries items = fold (\<lambda>item. AList.update (or_ID (en_record item)) item) items []"

definition loaded_sequence :: "persisted_store \<Rightarrow> nat" where
  "loaded_sequence p =
     (let n = fold (\<lambda>item n. if or_Sequence (en_record item) > n then or_Sequence (en_record item) else n)
                (ps_Operations p) (ps_NextSequence p)
      in fold (\<lambda>event n. if ev_Sequence event > n then ev_Sequence event else n) (ps_Events p) n)"

text \<open>The clock is read once by the recovery and once by the pruning.\<close>

definition Store_Open ::
    "snapshot_fault option \<Rightarrow> op_file \<Rightarrow> gotime \<Rightarrow> gotime \<Rightarrow> op_options \<Rightarrow> op_error + op_store" where
  "Store_Open io file now_recover now_prune options =
     (if trim_space (oo_Path options) = '''' then Inl PathRequired
      else (case loadPersisted file of
          Inl e \<Rightarrow> Inl e
        | Inr persisted \<Rightarrow>
            let st = \<lparr>os_options = default_options options, os_operations = load_entries (ps_Operations persisted),
                      os_events = ps_Events persisted, os_nextSequence = loaded_sequence persisted,
                      os_subscribers = [], os_nextSubID = 0, os_closed = False, os_disk = file\<rparr>;
                (recovered, st) = recoverLocked now_recover st;
                (pruned, st) = pruneLocked now_prune st
            in if recovered \<or> pruned
               then (case store_persistLocked io st of (Some e, st) \<Rightarrow> Inl e | (None, st) \<Rightarrow> Inr st)
               else Inr st))"

section \<open>Operations\<close>

text \<open>
  The part of each mutation under the mutex returns its result, the event to publish, if
  any, and the store.
\<close>

type_synonym 'a op_result = "(op_error + 'a) \<times> op_event option \<times> op_store"

definition new_record :: "string \<Rightarrow> gotime \<Rightarrow> create_request \<Rightarrow> op_record" where
  "new_record opid now rq =
     \<lparr>or_ID = opid, or_Kind = rq_Kind rq, or_Target = trim_space (rq_Target rq), or_Owner = trim_space (rq_Owner rq),
      or_State = StatePending, or_Progress = 0, or_Cancelable = rq_Cancelable rq,
      or_RecoveryPolicy = (if rq_RecoveryPolicy rq = '''' then RecoveryFail else rq_RecoveryPolicy rq),
      or_CreatedAt = now, or_UpdatedAt = now, or_ExpiresAt = rq_ExpiresAt rq, or_Sequence = 0, or_Failure = None,
      or_Metadata = sanitizeMetadata (rq_Metadata rq), or_Result = None\<rparr>"

definition commit_or_restore ::
    "snapshot_fault option \<Rightarrow> store_checkpoint \<Rightarrow> 'a \<Rightarrow> op_event option \<Rightarrow> op_store \<Rightarrow> 'a op_result" where
  "commit_or_restore io checkpoint result event st =
     (case store_persistLocked io st of
        (Some e, st) \<Rightarrow> (Inl e, None, restoreLocked checkpoint st)
      | (None, st) \<Rightarrow> (Inr result, event, st))"

definition Create_locked ::
    "(string \<Rightarrow> string) \<Rightarrow> snapshot_fault option \<Rightarrow> gotime \<Rightarrow> gotime \<Rightarrow> string \<Rightarrow> create_request \<Rightarrow> op_store \<Rightarrow> (op_record \<times> bool) op_result" where
  "Create_locked sha256_hex io now_prune now newID rq st =
     (if os_closed st then (Inl StoreClosed, None, st)
      else
        let checkpoint = checkpointLocked st;
            (pruned, st) = pruneLocked now_prune st;
            h = hashIdempotency sha256_hex (rq_Owner rq) (rq_IdempotencyKey rq)
        in case (if h = '''' then None else find (\<lambda>(opid, e). en_idempotencyHash e = h) (os_operations st)) of
             Some (opid, existing) \<Rightarrow>
               if en_requestDigest existing \<noteq> rq_RequestDigest rq
               then (Inl IdempotencyConflictError, None, restoreLocked checkpoint st)
               else if pruned then commit_or_restore io checkpoint (en_record existing, False) None st
               else (Inr (en_record existing, False), None, st)
           | None \<Rightarrow>
               if int (length (os_operations st)) \<ge> oo_MaxOperations (os_options st)
               then (Inl CapacityError, None, restoreLocked checkpoint st)
               else
                 let r = new_record newID now rq;
                     (event, st) = nextEventLocked newID ''created'' (or_State r) now st;
                     r = r\<lparr>or_Sequence := ev_Sequence event\<rparr>;
                     item = \<lparr>en_record = r, en_idempotencyHash = h, en_requestDigest = rq_RequestDigest rq\<rparr>;
                     st = appendEventLocked event (st\<lparr>os_operations := AList.update newID item (os_operations st)\<rparr>)
                 in commit_or_restore io checkpoint (r, True) (Some event) st)"

definition with_publish :: "'a op_result \<Rightarrow> (op_error + 'a) \<times> op_store" where
  "with_publish r = (case r of (res, ev, st) \<Rightarrow> (res, case ev of None \<Rightarrow> st | Some e \<Rightarrow> publish e st))"

definition Store_Create ::
    "(string \<Rightarrow> string) \<Rightarrow> snapshot_fault option \<Rightarrow> gotime \<Rightarrow> gotime \<Rightarrow> gotime \<Rightarrow> string \<Rightarrow> create_request \<Rightarrow> op_store \<Rightarrow>
     (op_error + (op_record \<times> bool)) \<times> op_store" where
  "Store_Create sha256_hex io now_validate now_prune now newID rq st =
     (case validateCreate rq now_validate of
        Some e \<Rightarrow> (Inl e, st)
      | None \<Rightarrow> with_publish (Create_locked sha256_hex io now_prune now newID rq st))"

definition Store_Get :: "string \<Rightarrow> op_store \<Rightarrow> op_error + op_record" where
  "Store_Get opid st =
     (case map_of (os_operations st) opid of None \<Rightarrow> Inl (NotFoundError opid) | Some item \<Rightarrow> Inr (en_record item))"

definition clamp_progress :: "int \<Rightarrow> int" where
  "clamp_progress progress =
     (let progress = (if progress < 0 then 0 else progress) in if progress > 100 then 100 else progress)"

definition transition_record ::
    "op_state \<Rightarrow> int \<Rightarrow> string_map \<Rightarrow> op_failure option \<Rightarrow> gotime \<Rightarrow> op_record \<Rightarrow> op_record" where
  "transition_record state progress result failure now r =
     r\<lparr>or_State := state, or_Progress := clamp_progress progress, or_UpdatedAt := now,
       or_Result := sanitizeMetadata result,
       or_Failure := (case failure of None \<Rightarrow> None | Some f \<Rightarrow> Some (NewFailure (fa_Code f) (fa_Message f) (fa_Retryable f)))\<rparr>"

definition progress_record :: "int \<Rightarrow> string_map \<Rightarrow> gotime \<Rightarrow> op_record \<Rightarrow> op_record" where
  "progress_record progress metadata now r =
     (let r = r\<lparr>or_Progress := clamp_progress progress, or_UpdatedAt := now\<rparr>
      in if metadata = None then r else r\<lparr>or_Result := sanitizeMetadata metadata\<rparr>)"

text \<open>The common end of \<open>Transition\<close> and \<open>UpdateProgress\<close>: number the event, log it, persist.\<close>

definition commit_record ::
    "snapshot_fault option \<Rightarrow> store_checkpoint \<Rightarrow> string \<Rightarrow> string \<Rightarrow> gotime \<Rightarrow> op_entry \<Rightarrow> op_record \<Rightarrow> op_store \<Rightarrow> op_record op_result" where
  "commit_record io checkpoint opid etype now item r st =
     (let (event, st) = nextEventLocked opid etype (or_State r) now st;
          r = r\<lparr>or_Sequence := ev_Sequence event\<rparr>;
          st = appendEventLocked event (st\<lparr>os_operations := AList.update opid (item\<lparr>en_record := r\<rparr>) (os_operations st)\<rparr>)
      in commit_or_restore io checkpoint r (Some event) st)"

definition Transition_locked ::
    "snapshot_fault option \<Rightarrow> gotime \<Rightarrow> string \<Rightarrow> op_state \<Rightarrow> int \<Rightarrow> string_map \<Rightarrow> op_failure option \<Rightarrow> string \<Rightarrow> op_store \<Rightarrow> op_record op_result" where
  "Transition_locked io now opid state progress result failure etype st =
     (if os_closed st then (Inl StoreClosed, None, st)
      else
        let checkpoint = checkpointLocked st in
        case map_of (os_operations st) opid of
          None \<Rightarrow> (Inl (NotFoundError opid), None, st)
        | Some item \<Rightarrow>
            if \<not> allowedTransition (or_State (en_record item)) state
            then (Inl (InvalidTransitionError opid (or_State (en_record item)) state), None, st)
            else commit_record io checkpoint opid (if etype = '''' then ''state_changed'' else etype) now item
                   (transition_record state progress result failure now (en_record item)) st)"

definition UpdateProgress_locked ::
    "snapshot_fault option \<Rightarrow> gotime \<Rightarrow> string \<Rightarrow> int \<Rightarrow> string_map \<Rightarrow> op_store \<Rightarrow> op_record op_result" where
  "UpdateProgress_locked io now opid progress metadata st =
     (if os_closed st then (Inl StoreClosed, None, st)
      else
        let checkpoint = checkpointLocked st in
        case map_of (os_operations st) opid of
          None \<Rightarrow> (Inl (NotFoundError opid), None, st)
        | Some item \<Rightarrow>
            if Terminal (or_State (en_record item))
            then (Inl (InvalidTransitionError opid (or_State (en_record item)) (or_State (en_record item))), None, st)
            else commit_record io checkpoint opid ''progress'' now item
                   (progress_record progress metadata now (en_record item)) st)"

definition Store_Transition ::
    "snapshot_fault option \<Rightarrow> gotime \<Rightarrow> string \<Rightarrow> op_state \<Rightarrow> int \<Rightarrow> string_map \<Rightarrow> op_failure option \<Rightarrow> string \<Rightarrow> op_store \<Rightarrow>
     (op_error + op_record) \<times> op_store" where
  "Store_Transition io now opid state progress result failure etype st =
     with_publish (Transition_locked io now opid state progress result failure etype st)"

definition Store_UpdateProgress ::
    "snapshot_fault option \<Rightarrow> gotime \<Rightarrow> string \<Rightarrow> int \<Rightarrow> string_map \<Rightarrow> op_store \<Rightarrow> (op_error + op_record) \<times> op_store" where
  "Store_UpdateProgress io now opid progress metadata st =
     with_publish (UpdateProgress_locked io now opid progress metadata st)"

text \<open>\<open>Cancel\<close> reads the record and then transitions; \<open>between\<close> is what other callers do to
  the store between the two.\<close>

definition Store_Cancel ::
    "snapshot_fault option \<Rightarrow> gotime \<Rightarrow> string \<Rightarrow> (op_store \<Rightarrow> op_store) \<Rightarrow> op_store \<Rightarrow> (op_error + op_record) \<times> op_store" where
  "Store_Cancel io now opid between st =
     (case Store_Get opid st of
        Inl e \<Rightarrow> (Inl e, st)
      | Inr item \<Rightarrow>
          if \<not> or_Cancelable item then (Inl (NotCancelable opid), st)
          else Store_Transition io now opid StateCancelled (or_Progress item) None
                 (Some (NewFailure ''operation_cancelled'' ''The operation was cancelled.'' False)) ''cancelled'' (between st))"

definition Store_List :: "op_store \<Rightarrow> op_record list" where
  "Store_List st = sort_key (\<lambda>r. (or_CreatedAt r, or_ID r)) (map (en_record \<circ> snd) (os_operations st))"

definition Store_Events :: "nat \<Rightarrow> op_store \<Rightarrow> op_event list" where
  "Store_Events after st = filter (\<lambda>e. ev_Sequence e > after) (os_events st)"

text \<open>On a closed store the returned stream is already closed.\<close>

definition Store_Subscribe :: "int \<Rightarrow> op_store \<Rightarrow> nat option \<times> op_store" where
  "Store_Subscribe buffer st =
     (let buffer = (if buffer < 1 then 1 else buffer) in
      if os_closed st then (None, st)
      else let n = os_nextSubID st + 1
           in (Some n, st\<lparr>os_nextSubID := n,
                 os_subscribers := AList.update n \<lparr>sb_buffer = buffer, sb_queue = []\<rparr> (os_subscribers st)\<rparr>))"

definition Store_Unsubscribe :: "nat \<Rightarrow> op_store \<Rightarrow> op_store" where
  "Store_Unsubscribe n st = st\<lparr>os_subscribers := AList.delete n (os_subscribers st)\<rparr>"

definition Store_Close :: "op_store \<Rightarrow> op_store" where
  "Store_Close st = (if os_closed st then st else st\<lparr>os_closed := True, os_subscribers := []\<rparr>)"

end
