(* ===== verification/Operation_Invariant.thy ===== *)
theory Operation_Invariant
  imports Operation_Store
begin

text \<open>
  The invariant of the operation store and what each of its operations does to it: the
  event log as a bounded history, the table of operations, the image written to the file,
  pruning, recovery and opening.
\<close>

section \<open>The event log\<close>

lemma appendEventLocked_sel [simp]:
  "os_options (appendEventLocked e st) = os_options st"
  "os_operations (appendEventLocked e st) = os_operations st"
  "os_nextSequence (appendEventLocked e st) = os_nextSequence st"
  "os_subscribers (appendEventLocked e st) = os_subscribers st"
  "os_closed (appendEventLocked e st) = os_closed st"
  "os_disk (appendEventLocked e st) = os_disk st"
  by (simp_all add: appendEventLocked_def Let_def)

lemma shift_down:
  assumes "m < int (length xs)" and "0 < m"
  shows "take (nat m) (drop (nat (int (length xs) - m)) xs @ zs) = keep_last (nat m) xs"
proof -
  have k: "nat (int (length xs) - m) = length xs - nat m" using assms by linarith
  have "length (drop (length xs - nat m) xs) = nat m" using assms by simp
  then show ?thesis by (simp add: k keep_last_def)
qed

lemma events_append:
  assumes "0 < oo_MaxEvents (os_options st)"
  shows "os_events (appendEventLocked e st) = keep_last (nat (oo_MaxEvents (os_options st))) (os_events st @ [e])"
proof (cases "int (length (os_events st @ [e])) > oo_MaxEvents (os_options st)")
  case True
  have "os_events (appendEventLocked e st) =
      (let m = oo_MaxEvents (os_options st); xs = os_events st @ [e]; k = nat (int (length xs) - m)
       in take (nat m) (drop k xs @ drop (length xs - k) xs))"
    using True by (simp only: appendEventLocked_def Let_def if_True) simp
  then show ?thesis by (simp only: Let_def shift_down [OF True assms])
next
  case False
  then show ?thesis by (simp add: appendEventLocked_def Let_def keep_last_def)
qed

text \<open>The event log is a bounded history of \<open>MaxEvents\<close> entries.\<close>

interpretation op_log: bounded_log os_events "\<lambda>st. nat (oo_MaxEvents (os_options st))" appendEventLocked
  by unfold_locales (simp_all add: events_append)

definition log_ok :: "op_options \<Rightarrow> op_event list \<Rightarrow> nat \<Rightarrow> bool" where
  "log_ok opts evs n \<longleftrightarrow> int (length evs) \<le> oo_MaxEvents opts \<and> length evs \<le> n
     \<and> map ev_Sequence evs = [Suc n - length evs ..< Suc n]"

lemma log_ok_append:
  assumes "log_ok (os_options st) (os_events st) n" and "0 < oo_MaxEvents (os_options st)" and "ev_Sequence e = Suc n"
  shows "log_ok (os_options st) (os_events (appendEventLocked e st)) (Suc n)"
proof -
  let ?m = "nat (oo_MaxEvents (os_options st))" and ?evs = "os_events st"
  have seqs: "map ev_Sequence (?evs @ [e]) = [Suc n - length ?evs ..< Suc (Suc n)]"
    using assms(1,3) by (simp add: log_ok_def)
  have "map ev_Sequence (keep_last ?m (?evs @ [e])) = keep_last ?m (map ev_Sequence (?evs @ [e]))"
    by (simp only: keep_last_def drop_map length_map)
  also have "\<dots> = [Suc (Suc n) - length (keep_last ?m (?evs @ [e])) ..< Suc (Suc n)]"
    unfolding seqs keep_last_upt length_keep_last by (rule arg_cong2 [where f = upt]) auto
  finally have *: "map ev_Sequence (keep_last ?m (?evs @ [e])) = \<dots>" .
  have "length (keep_last ?m (?evs @ [e])) \<le> ?m" "length (keep_last ?m (?evs @ [e])) \<le> Suc n"
    using assms(1) by (auto simp: log_ok_def simp del: upt_Suc)
  then show ?thesis unfolding log_ok_def events_append [OF assms(2)] using * assms(2) by linarith
qed

section \<open>The invariant\<close>

definition known_state :: "op_state \<Rightarrow> bool" where
  "known_state s \<longleftrightarrow> s \<in> {StatePending, StateRunning, StateWaitingForUser} \<or> Terminal s"

definition entry_ok :: "nat \<Rightarrow> string \<Rightarrow> op_entry \<Rightarrow> bool" where
  "entry_ok n opid e \<longleftrightarrow> or_ID (en_record e) = opid \<and> 0 \<le> or_Progress (en_record e) \<and> or_Progress (en_record e) \<le> 100
     \<and> or_Sequence (en_record e) \<le> n \<and> known_state (or_State (en_record e))"

definition unique_hashes :: "(string, op_entry) gomap \<Rightarrow> bool" where
  "unique_hashes ops \<longleftrightarrow> (\<forall>(i, e) \<in> set ops. \<forall>(j, f) \<in> set ops.
     en_idempotencyHash e = en_idempotencyHash f \<and> en_idempotencyHash e \<noteq> '''' \<longrightarrow> i = j)"

definition table_ok :: "op_options \<Rightarrow> (string, op_entry) gomap \<Rightarrow> nat \<Rightarrow> bool" where
  "table_ok opts ops n \<longleftrightarrow> wf_map ops \<and> int (length ops) \<le> oo_MaxOperations opts
     \<and> (\<forall>(opid, e) \<in> set ops. entry_ok n opid e) \<and> unique_hashes ops"

definition keyed :: "op_entry list \<Rightarrow> (string, op_entry) gomap" where
  "keyed items = map (\<lambda>e. (or_ID (en_record e), e)) items"

definition file_ok :: "op_options \<Rightarrow> op_file \<Rightarrow> bool" where
  "file_ok opts file \<longleftrightarrow>
     (case file of
        OpNoFile \<Rightarrow> True
      | OpSnapshot p \<Rightarrow> ps_SchemaVersion p = schemaVersion \<and> table_ok opts (keyed (ps_Operations p)) (ps_NextSequence p)
          \<and> log_ok opts (ps_Events p) (ps_NextSequence p)
      | _ \<Rightarrow> False)"

definition live_ok :: "op_store \<Rightarrow> bool" where
  "live_ok st \<longleftrightarrow> 0 < oo_MaxOperations (os_options st) \<and> 0 < oo_MaxEvents (os_options st)
     \<and> table_ok (os_options st) (os_operations st) (os_nextSequence st)
     \<and> log_ok (os_options st) (os_events st) (os_nextSequence st)"

definition store_inv :: "op_store \<Rightarrow> bool" where
  "store_inv st \<longleftrightarrow> live_ok st \<and> file_ok (os_options st) (os_disk st)"

lemma unique_hashesI:
  "(\<And>i e j f. (i, e) \<in> set ops \<Longrightarrow> (j, f) \<in> set ops \<Longrightarrow> en_idempotencyHash e = en_idempotencyHash f \<Longrightarrow>
      en_idempotencyHash e \<noteq> '''' \<Longrightarrow> i = j) \<Longrightarrow> unique_hashes ops"
  unfolding unique_hashes_def by blast

lemma unique_hashesD:
  "unique_hashes ops \<Longrightarrow> (i, e) \<in> set ops \<Longrightarrow> (j, f) \<in> set ops \<Longrightarrow> en_idempotencyHash e = en_idempotencyHash f \<Longrightarrow>
     en_idempotencyHash e \<noteq> '''' \<Longrightarrow> i = j"
  unfolding unique_hashes_def by blast

lemma entry_ok_mono: "entry_ok n opid e \<Longrightarrow> n \<le> m \<Longrightarrow> entry_ok m opid e"
  by (simp add: entry_ok_def)

lemma table_ok_mono: "table_ok opts ops n \<Longrightarrow> n \<le> m \<Longrightarrow> table_ok opts ops m"
  by (auto simp: table_ok_def entry_ok_mono)

text \<open>A table stays well formed when entries are dropped or reordered,\<close>

lemma table_ok_subset:
  assumes "table_ok opts ops n" and "wf_map ops'" and "set ops' \<subseteq> set ops"
  shows "table_ok opts ops' n"
proof -
  have "distinct ops'" using assms(2) by (simp add: wf_map_def keys_of_def distinct_map)
  then have "length ops' = card (set ops')" by (simp add: distinct_card)
  also have "\<dots> \<le> card (set ops)" by (rule card_mono) (simp_all add: assms(3))
  also have "\<dots> \<le> length ops" by (rule card_length)
  finally have "int (length ops') \<le> oo_MaxOperations opts" using assms(1) by (simp add: table_ok_def)
  moreover have "unique_hashes ops'"
    using assms(1,3) by (intro unique_hashesI) (metis subsetD table_ok_def unique_hashesD)
  ultimately show ?thesis using assms by (auto simp: table_ok_def)
qed

text \<open>when the record of an entry is replaced,\<close>

lemma table_ok_replace:
  assumes "table_ok opts ops n" and "map_of ops opid = Some item"
    and "entry_ok m opid (item\<lparr>en_record := r\<rparr>)" and "n \<le> m"
  shows "table_ok opts (AList.update opid (item\<lparr>en_record := r\<rparr>) ops) m"
proof -
  let ?ops = "AList.update opid (item\<lparr>en_record := r\<rparr>) ops"
  have wf: "wf_map ops" using assms(1) by (simp add: table_ok_def)
  have old: "(opid, item) \<in> set ops" using assms(2) by (rule map_of_SomeD)
  have mem: "(i, e) \<in> set ?ops \<Longrightarrow>
      (i = opid \<and> e = item\<lparr>en_record := r\<rparr>) \<or> (i \<noteq> opid \<and> (i, e) \<in> set ops)" for i e
    using wf wf_map_update [OF wf, of opid] wf_map_Some_iff [of ?ops i e] wf_map_Some_iff [of ops i e]
    by (auto split: if_splits)
  have "unique_hashes ops" using assms(1) by (simp add: table_ok_def)
  moreover have "\<exists>e0. (i, e0) \<in> set ops \<and> en_idempotencyHash e0 = en_idempotencyHash e"
    if "(i, e) \<in> set ?ops" for i e using mem [OF that] old by auto
  ultimately have "unique_hashes ?ops" by (intro unique_hashesI) (metis unique_hashesD)
  moreover have "length ?ops = length ops" using assms(2) by (simp add: length_update_old has_key_def)
  moreover have "\<forall>(i, e) \<in> set ?ops. entry_ok m i e"
    using assms by (auto dest!: mem simp: table_ok_def entry_ok_mono)
  ultimately show ?thesis using assms(1) wf_map_update [OF wf] by (simp add: table_ok_def)
qed

text \<open>and when an entry is added while there is room for it.\<close>

lemma table_ok_insert:
  assumes "table_ok opts ops n" and "\<not> has_key ops opid" and "entry_ok m opid item" and "n \<le> m"
    and "int (length ops) < oo_MaxOperations opts"
    and "\<And>i e. (i, e) \<in> set ops \<Longrightarrow> en_idempotencyHash item \<noteq> '''' \<Longrightarrow> en_idempotencyHash e \<noteq> en_idempotencyHash item"
  shows "table_ok opts (AList.update opid item ops) m"
proof -
  let ?ops = "AList.update opid item ops"
  have wf: "wf_map ops" using assms(1) by (simp add: table_ok_def)
  have mem: "(i, e) \<in> set ?ops \<Longrightarrow> (i = opid \<and> e = item) \<or> (i, e) \<in> set ops" for i e
    using set_updateD [of i e opid item ops] by simp
  have "unique_hashes ops" using assms(1) by (simp add: table_ok_def)
  then have "unique_hashes ?ops"
    by (intro unique_hashesI) (metis mem assms(6) unique_hashesD)
  moreover have "length ?ops = Suc (length ops)" using assms(2) by (rule length_update_new)
  moreover have "\<forall>(i, e) \<in> set ?ops. entry_ok m i e"
    using assms(1,3,4) by (auto dest!: mem simp: table_ok_def entry_ok_mono)
  ultimately show ?thesis using assms(1,5) wf_map_update [OF wf] by (simp add: table_ok_def)
qed

subsection \<open>Writing the file\<close>

lemma keyed_snapshot:
  assumes "table_ok opts (os_operations st) n"
  shows "keyed (ps_Operations (store_snapshot st)) =
      map (\<lambda>opid. (opid, the (map_of (os_operations st) opid))) (sort (keys_of (os_operations st)))"
proof -
  have "or_ID (en_record (the (map_of (os_operations st) opid))) = opid"
    if key: "opid \<in> set (keys_of (os_operations st))" for opid
  proof -
    obtain e where e: "map_of (os_operations st) opid = Some e"
      using key has_key_iff [of "os_operations st" opid] by (auto simp: has_key_def)
    then have "(opid, e) \<in> set (os_operations st)" by (rule map_of_SomeD)
    then have "entry_ok n opid e" using assms by (auto simp: table_ok_def)
    with e show ?thesis by (simp add: entry_ok_def)
  qed
  then show ?thesis by (simp add: keyed_def store_snapshot_def)
qed

lemma set_keyed_snapshot:
  assumes "table_ok opts (os_operations st) n"
  shows "set (keyed (ps_Operations (store_snapshot st))) = set (os_operations st)"
    and "wf_map (keyed (ps_Operations (store_snapshot st)))"
proof -
  have wf: "wf_map (os_operations st)" using assms by (simp add: table_ok_def)
  have "(fst x, the (map_of (os_operations st) (fst x))) = x" if "x \<in> set (os_operations st)" for x
    using that wf_map_Some_iff [OF wf, of "fst x" "snd x"] by simp
  then have "(\<lambda>opid. (opid, the (map_of (os_operations st) opid))) ` fst ` set (os_operations st) = set (os_operations st)"
    by (simp add: image_image)
  then show "set (keyed (ps_Operations (store_snapshot st))) = set (os_operations st)"
    by (simp add: keyed_snapshot [OF assms] keys_of_def)
  show "wf_map (keyed (ps_Operations (store_snapshot st)))"
    using wf by (simp add: keyed_snapshot [OF assms] wf_map_def keys_of_def comp_def)
qed

lemma snapshot_ok: "live_ok st \<Longrightarrow> file_ok (os_options st) (OpSnapshot (store_snapshot st))"
  using set_keyed_snapshot [of "os_options st" st "os_nextSequence st"]
    table_ok_subset [of "os_options st" "os_operations st" "os_nextSequence st" "keyed (ps_Operations (store_snapshot st))"]
  by (simp add: live_ok_def file_ok_def) (simp add: store_snapshot_def)

definition io_replaces :: "snapshot_fault option \<Rightarrow> bool" where
  "io_replaces io \<longleftrightarrow> io \<in> {None, Some SnapOpenDirectory, Some SnapSyncDirectory}"

lemma store_persistLocked_eq:
  "store_persistLocked io st =
     (map_option PersistFailed io, st\<lparr>os_disk := (if io_replaces io then OpSnapshot (store_snapshot st) else os_disk st)\<rparr>)"
  by (cases io) (auto simp: store_persistLocked_def persistSnapshot_def io_replaces_def)

lemma commit_or_restore_eq:
  "commit_or_restore io (checkpointLocked st0) res ev st =
     (case io of
        None \<Rightarrow> (Inr res, ev, st\<lparr>os_disk := OpSnapshot (store_snapshot st)\<rparr>)
      | Some fault \<Rightarrow> (Inl (PersistFailed fault), None,
          st\<lparr>os_disk := (if io_replaces io then OpSnapshot (store_snapshot st) else os_disk st),
             os_operations := os_operations st0, os_events := os_events st0, os_nextSequence := os_nextSequence st0\<rparr>))"
  by (cases io) (simp_all add: commit_or_restore_def store_persistLocked_eq io_replaces_def checkpointLocked_def restoreLocked_def)

lemma store_snapshot_disk [simp]: "store_snapshot (st\<lparr>os_disk := f\<rparr>) = store_snapshot st"
  by (simp add: store_snapshot_def)

lemma live_ok_disk [simp]: "live_ok (st\<lparr>os_disk := f\<rparr>) = live_ok st"
  by (simp add: live_ok_def)

lemma commit_or_restore_inv:
  assumes "store_inv st0" and "live_ok st" and "os_options st = os_options st0" and "os_disk st = os_disk st0"
    and "commit_or_restore io (checkpointLocked st0) res ev st = (r, ev', st')"
  shows "store_inv st'" and "os_options st' = os_options st0"
  using assms snapshot_ok [OF assms(2)]
  by (auto simp: commit_or_restore_eq store_inv_def live_ok_def split: option.splits if_splits)

subsection \<open>Pruning\<close>

lemma prune_loop_subset: "wf_map ops \<Longrightarrow> wf_map (prune_loop m ids ops) \<and> set (prune_loop m ids ops) \<subseteq> set ops"
proof (induction m ids ops rule: prune_loop.induct)
  case (2 m opid rest ops)
  moreover have "set (AList.delete opid ops) \<subseteq> set ops" by (simp add: AList.delete_eq)
  ultimately show ?case by (auto dest: wf_map_delete)
qed simp

lemma pruneLocked_ops:
  obtains ops where "snd (pruneLocked now st) = st\<lparr>os_operations := ops\<rparr>"
    and "wf_map (os_operations st) \<Longrightarrow> wf_map ops" and "wf_map (os_operations st) \<Longrightarrow> set ops \<subseteq> set (os_operations st)"
proof -
  define kept where "kept = filter (\<lambda>(opid, e). \<not> (Terminal (or_State (en_record e))
    \<and> or_UpdatedAt (en_record e) < now - oo_Retention (os_options st))) (os_operations st)"
  define ops where "ops = (if int (length kept) \<le> oo_MaxOperations (os_options st) then kept
    else prune_loop (oo_MaxOperations (os_options st)) (terminal_candidates kept) kept)"
  have "snd (pruneLocked now st) = st\<lparr>os_operations := ops\<rparr>"
    unfolding pruneLocked_def Let_def kept_def [symmetric] ops_def by simp
  moreover have "wf_map (os_operations st) \<Longrightarrow> wf_map kept" "set kept \<subseteq> set (os_operations st)"
    unfolding kept_def by (auto intro: wf_map_filter)
  then have "wf_map (os_operations st) \<Longrightarrow> wf_map ops \<and> set ops \<subseteq> set (os_operations st)"
    using prune_loop_subset [of kept] unfolding ops_def by (auto split: if_splits)
  ultimately show ?thesis using that [of ops] by blast
qed

lemma pruneLocked_sel:
  assumes "pruneLocked now st = (changed, st')"
  shows "os_options st' = os_options st" "os_events st' = os_events st" "os_nextSequence st' = os_nextSequence st"
    "os_disk st' = os_disk st" "os_closed st' = os_closed st" "os_subscribers st' = os_subscribers st"
    "wf_map (os_operations st) \<Longrightarrow> wf_map (os_operations st')"
    "wf_map (os_operations st) \<Longrightarrow> set (os_operations st') \<subseteq> set (os_operations st)"
proof -
  obtain ops where "st' = st\<lparr>os_operations := ops\<rparr>" and "wf_map (os_operations st) \<Longrightarrow> wf_map ops"
    and "wf_map (os_operations st) \<Longrightarrow> set ops \<subseteq> set (os_operations st)"
    using pruneLocked_ops [of now st] assms by (metis snd_conv)
  then show "os_options st' = os_options st" "os_events st' = os_events st" "os_nextSequence st' = os_nextSequence st"
    "os_disk st' = os_disk st" "os_closed st' = os_closed st" "os_subscribers st' = os_subscribers st"
    "wf_map (os_operations st) \<Longrightarrow> wf_map (os_operations st')"
    "wf_map (os_operations st) \<Longrightarrow> set (os_operations st') \<subseteq> set (os_operations st)"
    by simp_all
qed

lemma pruneLocked_live_ok:
  assumes "live_ok st" and "pruneLocked now st = (changed, st')"
  shows "live_ok st'"
proof -
  have "wf_map (os_operations st)" using assms(1) by (simp add: live_ok_def table_ok_def)
  then have "table_ok (os_options st) (os_operations st') (os_nextSequence st)"
    using assms pruneLocked_sel(7,8) [OF assms(2)] table_ok_subset by (meson live_ok_def)
  then show ?thesis using assms(1) pruneLocked_sel(1-3) [OF assms(2)] by (simp add: live_ok_def)
qed

subsection \<open>Mutations\<close>

text \<open>Every mutation numbers one event, changes the table, and logs the event.\<close>

definition logged :: "string \<Rightarrow> string \<Rightarrow> op_state \<Rightarrow> gotime \<Rightarrow> (string, op_entry) gomap \<Rightarrow> op_store \<Rightarrow> op_event \<times> op_store" where
  "logged opid etype state now ops st =
     (let (event, st) = nextEventLocked opid etype state now st
      in (event, appendEventLocked event (st\<lparr>os_operations := ops\<rparr>)))"

lemma logged_sel:
  assumes "logged opid etype state now ops st = (event, st')"
  shows "event = \<lparr>ev_Sequence = Suc (os_nextSequence st), ev_OperationID = opid, ev_Type = etype, ev_State = state, ev_Timestamp = now\<rparr>"
    and "os_options st' = os_options st" "os_operations st' = ops" "os_nextSequence st' = Suc (os_nextSequence st)"
    "os_disk st' = os_disk st" "os_closed st' = os_closed st" "os_subscribers st' = os_subscribers st"
    and "0 < oo_MaxEvents (os_options st) \<Longrightarrow>
      os_events st' = keep_last (nat (oo_MaxEvents (os_options st))) (os_events st @ [event])"
  using assms by (auto simp: logged_def nextEventLocked_def Let_def events_append)

lemma logged_live_ok:
  assumes "live_ok st" and "logged opid etype state now ops st = (event, st')"
    and "table_ok (os_options st) ops (Suc (os_nextSequence st))"
  shows "live_ok st'"
proof -
  have "log_ok (os_options st) (os_events st') (Suc (os_nextSequence st))"
    using assms(1) logged_sel(1,8) [OF assms(2)] log_ok_append [of st "os_nextSequence st" event]
    by (simp add: live_ok_def events_append)
  then show ?thesis using assms(1,3) logged_sel(2-4) [OF assms(2)] by (simp add: live_ok_def)
qed

lemma commit_record_logged:
  "commit_record io c opid etype now item r st =
     (let (event, st') = logged opid etype (or_State r) now
            (AList.update opid (item\<lparr>en_record := r\<lparr>or_Sequence := Suc (os_nextSequence st)\<rparr>\<rparr>) (os_operations st)) st
      in commit_or_restore io c (r\<lparr>or_Sequence := Suc (os_nextSequence st)\<rparr>) (Some event) st')"
  by (simp add: commit_record_def logged_def nextEventLocked_def Let_def)

lemma clamp_progress_bounds: "0 \<le> clamp_progress p" "clamp_progress p \<le> 100"
  by (simp_all add: clamp_progress_def)

lemma allowedTransition_known: "allowedTransition from to \<Longrightarrow> known_state to"
  by (auto simp: allowedTransition_def known_state_def Terminal_def split: if_splits)

lemma restore_pruned: "pruneLocked now st = (changed, st') \<Longrightarrow> restoreLocked (checkpointLocked st) st' = st"
  using pruneLocked_ops [of now st] by (metis checkpointLocked_def op_store.surjective op_store.update_convs(2-4)
      restoreLocked_def snd_conv store_checkpoint.select_convs)

text \<open>The branches of \<open>Create\<close> after the request has been validated.\<close>

lemma Create_locked_cases:
  assumes "Create_locked sha io now_prune now newID rq st = (res, ev, st')"
    and "pruneLocked now_prune st = (pruned, st1)"
    and "h = hashIdempotency sha (rq_Owner rq) (rq_IdempotencyKey rq)"
  obtains (closed) "os_closed st" "res = Inl StoreClosed" "ev = None" "st' = st"
  | (conflict) opid e where "\<not> os_closed st" "h \<noteq> ''''" "(opid, e) \<in> set (os_operations st1)" "en_idempotencyHash e = h"
      "en_requestDigest e \<noteq> rq_RequestDigest rq" "res = Inl IdempotencyConflictError" "ev = None" "st' = st"
  | (replayed) opid e where "\<not> os_closed st" "h \<noteq> ''''" "(opid, e) \<in> set (os_operations st1)" "en_idempotencyHash e = h"
      "en_requestDigest e = rq_RequestDigest rq"
      "(res, ev, st') = (if pruned then commit_or_restore io (checkpointLocked st) (en_record e, False) None st1
                         else (Inr (en_record e, False), None, st1))"
  | (full) "\<not> os_closed st" "h = '''' \<or> (\<forall>(i, e) \<in> set (os_operations st1). en_idempotencyHash e \<noteq> h)"
      "int (length (os_operations st1)) \<ge> oo_MaxOperations (os_options st1)" "res = Inl CapacityError" "ev = None" "st' = st"
  | (fresh) r event st2 where "\<not> os_closed st" "h = '''' \<or> (\<forall>(i, e) \<in> set (os_operations st1). en_idempotencyHash e \<noteq> h)"
      "int (length (os_operations st1)) < oo_MaxOperations (os_options st1)"
      "r = (new_record newID now rq)\<lparr>or_Sequence := Suc (os_nextSequence st1)\<rparr>"
      "logged newID ''created'' StatePending now
         (AList.update newID \<lparr>en_record = r, en_idempotencyHash = h, en_requestDigest = rq_RequestDigest rq\<rparr> (os_operations st1)) st1
       = (event, st2)"
      "(res, ev, st') = commit_or_restore io (checkpointLocked st) (r, True) (Some event) st2"
proof (cases "os_closed st")
  case True
  with assms(1) have "(res, ev, st') = (Inl StoreClosed, None, st)" by (simp add: Create_locked_def)
  with True show ?thesis by (auto intro: closed)
next
  case False
  note open1 = this
  let ?hit = "if h = '''' then None else find (\<lambda>(opid, e). en_idempotencyHash e = h) (os_operations st1)"
  have st: "restoreLocked (checkpointLocked st) st1 = st" using assms(2) by (rule restore_pruned)
  note unf = Create_locked_def assms(2) assms(3) [symmetric] Let_def prod.case open1 if_False option.case
  show ?thesis
  proof (cases ?hit)
    case None
    then have none: "h = '''' \<or> (\<forall>(i, e) \<in> set (os_operations st1). en_idempotencyHash e \<noteq> h)"
      by (auto simp: find_None_iff split: if_splits)
    show ?thesis
    proof (cases "int (length (os_operations st1)) \<ge> oo_MaxOperations (os_options st1)")
      case True
      then have "Create_locked sha io now_prune now newID rq st = (Inl CapacityError, None, st)"
        by (simp only: unf None if_True st)
      with assms(1) show ?thesis using full [OF open1 none True] by simp
    next
      case False
      define r where "r = (new_record newID now rq)\<lparr>or_Sequence := Suc (os_nextSequence st1)\<rparr>"
      define ops where "ops = AList.update newID
        \<lparr>en_record = r, en_idempotencyHash = h, en_requestDigest = rq_RequestDigest rq\<rparr> (os_operations st1)"
      define event where "event = \<lparr>ev_Sequence = Suc (os_nextSequence st1), ev_OperationID = newID, ev_Type = ''created'',
        ev_State = StatePending, ev_Timestamp = now\<rparr>"
      define st2 where "st2 = appendEventLocked event (st1\<lparr>os_nextSequence := Suc (os_nextSequence st1), os_operations := ops\<rparr>)"
      have lg: "logged newID ''created'' StatePending now ops st1 = (event, st2)"
        by (simp add: logged_def nextEventLocked_def event_def st2_def)
      have "or_State (new_record newID now rq) = StatePending" by (simp add: new_record_def)
      then have cl: "Create_locked sha io now_prune now newID rq st
          = commit_or_restore io (checkpointLocked st) (r, True) (Some event) st2"
        by (simp only: unf None False nextEventLocked_def) (simp add: r_def event_def st2_def ops_def)
      show ?thesis
        by (rule fresh [OF open1 none _ r_def lg [unfolded ops_def]]) (use False assms(1) cl in simp_all)
    qed
  next
    case (Some hit)
    obtain opid e where hit: "hit = (opid, e)" by (cases hit)
    have e: "h \<noteq> ''''" "(opid, e) \<in> set (os_operations st1)" "en_idempotencyHash e = h"
      using Some find_Some_in [of _ "os_operations st1"] unfolding hit by (auto split: if_splits)
    show ?thesis
    proof (cases "en_requestDigest e = rq_RequestDigest rq")
      case True
      then have "Create_locked sha io now_prune now newID rq st =
          (if pruned then commit_or_restore io (checkpointLocked st) (en_record e, False) None st1
           else (Inr (en_record e, False), None, st1))"
        by (simp only: unf Some hit simp_thms)
      with assms(1) show ?thesis using replayed [OF open1 e True] by simp
    next
      case False
      then have "Create_locked sha io now_prune now newID rq st = (Inl IdempotencyConflictError, None, st)"
        by (simp only: unf Some hit st simp_thms if_True)
      with assms(1) show ?thesis using conflict [OF open1 e False] by simp
    qed
  qed
qed

subsection \<open>Recovery and opening\<close>

definition recovered_entry :: "gotime \<Rightarrow> nat \<Rightarrow> op_entry \<Rightarrow> op_entry" where
  "recovered_entry now n e =
     (if Terminal (or_State (en_record e)) then e
      else e\<lparr>en_record := (recover_record now (en_record e))\<lparr>or_Sequence := n\<rparr>\<rparr>)"

lemma recover_record_terminal: "Terminal (or_State (recover_record now r))"
  by (simp add: recover_record_def Let_def Terminal_def)

lemma recovered_entry_terminal: "Terminal (or_State (en_record (recovered_entry now n e)))"
  using recover_record_terminal [of now "en_record e"] by (simp add: recovered_entry_def)

lemma recover_one_logged:
  assumes "map_of (os_operations st) opid = Some item"
  shows "recover_one now opid (changed, st) =
     (if Terminal (or_State (en_record item)) then (changed, st)
      else (True, snd (logged opid ''recovered'' (or_State (recover_record now (en_record item))) now
        (AList.update opid (recovered_entry now (Suc (os_nextSequence st)) item) (os_operations st)) st)))"
  using assms by (simp add: recover_one_def logged_def nextEventLocked_def Let_def recovered_entry_def)

lemma keys_of_update_old: "has_key m k \<Longrightarrow> keys_of (AList.update k v m) = keys_of m"
  by (simp add: has_key_iff keys_of_def update_keys)

lemma recover_one_effect:
  assumes "map_of (os_operations st) opid = Some item" and "recover_one now opid (changed, st) = (changed', st')"
  shows "keys_of (os_operations st') = keys_of (os_operations st)" "os_options st' = os_options st" "os_disk st' = os_disk st"
    "os_closed st' = os_closed st"
    "\<exists>n. map_of (os_operations st') opid = Some (recovered_entry now n item)"
    "i \<noteq> opid \<Longrightarrow> map_of (os_operations st') i = map_of (os_operations st) i"
    "live_ok st \<Longrightarrow> live_ok st'"
proof -
  let ?e = "recovered_entry now (Suc (os_nextSequence st)) item"
  obtain event st1 where lg: "logged opid ''recovered'' (or_State (recover_record now (en_record item))) now
      (AList.update opid ?e (os_operations st)) st = (event, st1)" by fastforce
  note sel = logged_sel [OF lg]
  have st': "st' = (if Terminal (or_State (en_record item)) then st else st1)"
    using assms lg by (simp add: recover_one_logged split: if_splits)
  have "recovered_entry now n item = item" if "Terminal (or_State (en_record item))" for n
    using that by (simp add: recovered_entry_def)
  with st' sel assms(1) show "keys_of (os_operations st') = keys_of (os_operations st)" "os_options st' = os_options st"
    "os_disk st' = os_disk st" "os_closed st' = os_closed st"
    "\<exists>n. map_of (os_operations st') opid = Some (recovered_entry now n item)"
    "i \<noteq> opid \<Longrightarrow> map_of (os_operations st') i = map_of (os_operations st) i"
    by (auto simp: keys_of_update_old has_key_def)
  show "live_ok st'" if live: "live_ok st"
  proof (cases "Terminal (or_State (en_record item))")
    case False
    have "entry_ok (os_nextSequence st) opid item"
      using live map_of_SomeD [OF assms(1)] by (auto simp: live_ok_def table_ok_def)
    then have "entry_ok (Suc (os_nextSequence st)) opid ?e"
      using recover_record_terminal [of now "en_record item"] False
      by (simp add: entry_ok_def recovered_entry_def known_state_def) (simp add: recover_record_def Let_def)
    then have "table_ok (os_options st) (AList.update opid ?e (os_operations st)) (Suc (os_nextSequence st))"
      using table_ok_replace [of "os_options st" "os_operations st" "os_nextSequence st" opid item] live assms(1) False
      by (simp add: live_ok_def recovered_entry_def)
    then show ?thesis using logged_live_ok [OF live lg] st' False by simp
  qed (use st' live in simp)
qed

lemma recover_fold_effect:
  assumes "fold (recover_one now) ids (changed, st) = (changed', st')" and "distinct ids"
    and "set ids \<subseteq> set (keys_of (os_operations st))"
  shows "keys_of (os_operations st') = keys_of (os_operations st) \<and> os_options st' = os_options st
    \<and> os_disk st' = os_disk st \<and> os_closed st' = os_closed st \<and> (live_ok st \<longrightarrow> live_ok st')
    \<and> (\<forall>i. if i \<in> set ids
           then (\<exists>e n. map_of (os_operations st) i = Some e \<and> map_of (os_operations st') i = Some (recovered_entry now n e))
           else map_of (os_operations st') i = map_of (os_operations st) i)"
  using assms
proof (induction ids arbitrary: changed st)
  case (Cons opid ids)
  obtain item where item: "map_of (os_operations st) opid = Some item"
    using Cons.prems(3) has_key_iff [of "os_operations st" opid] by (auto simp: has_key_def)
  obtain changed1 st1 where one: "recover_one now opid (changed, st) = (changed1, st1)" by fastforce
  note eff = recover_one_effect [OF item one]
  have "fold (recover_one now) ids (changed1, st1) = (changed', st')" using Cons.prems(1) one by simp
  then have IH: "keys_of (os_operations st') = keys_of (os_operations st1) \<and> os_options st' = os_options st1
    \<and> os_disk st' = os_disk st1 \<and> os_closed st' = os_closed st1 \<and> (live_ok st1 \<longrightarrow> live_ok st')
    \<and> (\<forall>i. if i \<in> set ids
           then (\<exists>e n. map_of (os_operations st1) i = Some e \<and> map_of (os_operations st') i = Some (recovered_entry now n e))
           else map_of (os_operations st') i = map_of (os_operations st1) i)"
    using Cons.prems(2,3) eff(1) by (intro Cons.IH) auto
  have rest: "\<forall>i. if i \<in> set (opid # ids)
      then (\<exists>e n. map_of (os_operations st) i = Some e \<and> map_of (os_operations st') i = Some (recovered_entry now n e))
      else map_of (os_operations st') i = map_of (os_operations st) i"
  proof
    fix i
    show "if i \<in> set (opid # ids)
      then (\<exists>e n. map_of (os_operations st) i = Some e \<and> map_of (os_operations st') i = Some (recovered_entry now n e))
      else map_of (os_operations st') i = map_of (os_operations st) i"
      using IH [THEN conjunct2, THEN conjunct2, THEN conjunct2, THEN conjunct2, THEN conjunct2, rule_format, of i]
        eff(5) eff(6) [of i] item Cons.prems(2)
      by (cases "i = opid"; cases "i \<in> set ids") auto
  qed
  with IH eff(1-4,7) show ?case by simp
qed simp

lemma prune_loop_length:
  assumes "set (keys_of ops) \<subseteq> set ids" and "0 \<le> m"
  shows "int (length (prune_loop m ids ops)) \<le> m"
  using assms
proof (induction m ids ops rule: prune_loop.induct)
  case (2 m opid rest ops)
  have "set (keys_of (AList.delete opid ops)) \<subseteq> set rest"
    using 2(2) by (auto simp: keys_of_def AList.delete_eq)
  with 2 show ?case by auto
qed (simp add: keys_of_def)

text \<open>When every operation is terminal, pruning brings the table within its capacity.\<close>

lemma pruneLocked_capacity:
  assumes "pruneLocked now st = (changed, st')" and "0 \<le> oo_MaxOperations (os_options st)"
    and "\<forall>(i, e) \<in> set (os_operations st). Terminal (or_State (en_record e))"
  shows "int (length (os_operations st')) \<le> oo_MaxOperations (os_options st)"
proof -
  define kept where "kept = filter (\<lambda>(opid, e). \<not> (Terminal (or_State (en_record e))
    \<and> or_UpdatedAt (en_record e) < now - oo_Retention (os_options st))) (os_operations st)"
  have "\<forall>x \<in> set kept. case x of (opid, e) \<Rightarrow> Terminal (or_State (en_record e))"
    using assms(3) by (simp add: kept_def)
  then have "filter (\<lambda>(opid, e). Terminal (or_State (en_record e))) kept = kept" by (rule filter_True)
  then have "set (terminal_candidates kept) = set (keys_of kept)"
    by (simp add: terminal_candidates_def keys_of_def)
  then have "int (length (prune_loop (oo_MaxOperations (os_options st)) (terminal_candidates kept) kept))
      \<le> oo_MaxOperations (os_options st)"
    using assms(2) by (intro prune_loop_length) simp_all
  then show ?thesis
    using assms(1) unfolding pruneLocked_def Let_def kept_def [symmetric] by (auto split: if_splits)
qed

lemma load_entries_fold:
  assumes "wf_map m"
  shows "wf_map (fold (\<lambda>item. AList.update (or_ID (en_record item)) item) items m)"
    and "(i, e) \<in> set (fold (\<lambda>item. AList.update (or_ID (en_record item)) item) items m) \<Longrightarrow>
      (i, e) \<in> set m \<or> (e \<in> set items \<and> i = or_ID (en_record e))"
  using assms
proof (induction items arbitrary: m)
  case (Cons x items)
  { case 1 then show ?case using Cons.IH(1) [OF wf_map_update] by simp
  next
    case 2
    then have "(i, e) \<in> set (AList.update (or_ID (en_record x)) x m) \<or> (e \<in> set items \<and> i = or_ID (en_record e))"
      using Cons.IH(2) [OF _ wf_map_update] by simp
    then show ?case using set_updateD [of i e "or_ID (en_record x)" x m] by auto
  }
qed simp_all

lemma load_entries_wf: "wf_map (load_entries items)"
  unfolding load_entries_def by (rule load_entries_fold(1)) (rule wf_map_Nil)

lemma load_entries_mem: "(i, e) \<in> set (load_entries items) \<Longrightarrow> e \<in> set items \<and> i = or_ID (en_record e)"
  using load_entries_fold(2) [OF wf_map_Nil] unfolding load_entries_def by fastforce

lemma fold_max_same: "(\<And>x. x \<in> set xs \<Longrightarrow> f x \<le> n) \<Longrightarrow> fold (\<lambda>x n. if f x > n then f x else n) xs n = (n :: nat)"
  by (induction xs) (simp_all add: leD)

lemma update_append: "k \<notin> fst ` set m \<Longrightarrow> AList.update k v m = m @ [(k, v)]"
  by (induction m) auto

lemma load_entries_keyed: "wf_map (keyed items) \<Longrightarrow> load_entries items = keyed items"
proof -
  have "fold (\<lambda>item. AList.update (or_ID (en_record item)) item) items m = m @ keyed items"
    if "distinct (map fst (m @ keyed items))" for m
    using that
  proof (induction items arbitrary: m)
    case (Cons x items)
    then have "AList.update (or_ID (en_record x)) x m = m @ [(or_ID (en_record x), x)]"
      by (simp add: keyed_def update_append)
    then show ?case using Cons by (simp add: keyed_def)
  qed (simp add: keyed_def)
  then show "wf_map (keyed items) \<Longrightarrow> load_entries items = keyed items"
    by (simp add: load_entries_def wf_map_def keys_of_def)
qed

text \<open>The stages of a successful opening.\<close>

lemma Store_Open_cases:
  assumes "Store_Open io file t1 t2 options = Inr st"
  obtains p c1 st1 c2 st2 where "trim_space (oo_Path options) \<noteq> ''''" "loadPersisted file = Inr p"
    "recoverLocked t1 \<lparr>os_options = default_options options, os_operations = load_entries (ps_Operations p),
       os_events = ps_Events p, os_nextSequence = loaded_sequence p,
       os_subscribers = [], os_nextSubID = 0, os_closed = False, os_disk = file\<rparr> = (c1, st1)"
    "pruneLocked t2 st1 = (c2, st2)"
    "if c1 \<or> c2 then io = None \<and> st = st2\<lparr>os_disk := OpSnapshot (store_snapshot st2)\<rparr> else st = st2"
  using assms
  by (auto simp: Store_Open_def Let_def store_persistLocked_eq io_replaces_def
      split: if_splits sum.splits prod.splits option.splits)

lemma recoverLocked_effect:
  assumes "recoverLocked now st = (changed, st')" and "wf_map (os_operations st)"
  shows "keys_of (os_operations st') = keys_of (os_operations st)" "os_options st' = os_options st" "os_disk st' = os_disk st"
    "os_closed st' = os_closed st" "live_ok st \<Longrightarrow> live_ok st'" "wf_map (os_operations st')"
    "map_of (os_operations st') i = Some e' \<Longrightarrow> \<exists>e n. map_of (os_operations st) i = Some e \<and> e' = recovered_entry now n e"
proof -
  have ids: "distinct (sort (keys_of (os_operations st)))" using assms(2) by (simp add: wf_map_def)
  note eff = recover_fold_effect [OF assms(1) [unfolded recoverLocked_def] ids]
  show keys: "keys_of (os_operations st') = keys_of (os_operations st)" and "os_options st' = os_options st" "os_disk st' = os_disk st"
    "os_closed st' = os_closed st" "live_ok st \<Longrightarrow> live_ok st'"
    using eff by simp_all
  from keys show "wf_map (os_operations st')" using assms(2) by (simp add: wf_map_def)
  show "\<exists>e n. map_of (os_operations st) i = Some e \<and> e' = recovered_entry now n e" if e': "map_of (os_operations st') i = Some e'"
  proof -
    have "has_key (os_operations st') i" using e' by (simp add: has_key_def)
    then have "i \<in> set (sort (keys_of (os_operations st)))" by (simp add: has_key_iff keys)
    then show ?thesis using eff e' by (auto dest!: spec [of _ i])
  qed
qed

lemma Store_Open_effect:
  assumes "Store_Open io file t1 t2 options = Inr st" and "loadPersisted file = Inr p"
  shows "os_options st = default_options options" "\<not> os_closed st" "wf_map (os_operations st)"
    and "(i, e') \<in> set (os_operations st) \<Longrightarrow> \<exists>e n. e \<in> set (ps_Operations p) \<and> or_ID (en_record e) = i \<and> e' = recovered_entry t1 n e"
    and "int (length (os_operations st)) \<le> oo_MaxOperations (os_options st)"
    and "file_ok (default_options options) file \<Longrightarrow> store_inv st"
proof -
  obtain c1 st1 c2 st2 where rec: "recoverLocked t1 \<lparr>os_options = default_options options, os_operations = load_entries (ps_Operations p),
       os_events = ps_Events p, os_nextSequence = loaded_sequence p,
       os_subscribers = [], os_nextSubID = 0, os_closed = False, os_disk = file\<rparr> = (c1, st1)"
    and pr: "pruneLocked t2 st1 = (c2, st2)"
    and fin: "if c1 \<or> c2 then io = None \<and> st = st2\<lparr>os_disk := OpSnapshot (store_snapshot st2)\<rparr> else st = st2"
    using Store_Open_cases [OF assms(1)] assms(2) by (metis sum.inject(2))
  note eff = recoverLocked_effect [OF rec, simplified, OF load_entries_wf]
  note sel = pruneLocked_sel [OF pr]
  have ops: "os_operations st = os_operations st2" and opt: "os_options st = os_options st2" and cl: "os_closed st = os_closed st2"
    using fin by (auto split: if_splits)
  show options: "os_options st = default_options options" and "\<not> os_closed st" using opt cl sel eff by simp_all
  show "wf_map (os_operations st)" using ops sel(7) eff(6) by simp
  have from1: "\<exists>e n. e \<in> set (ps_Operations p) \<and> or_ID (en_record e) = i \<and> e' = recovered_entry t1 n e"
    if "(i, e') \<in> set (os_operations st1)" for i e'
  proof -
    have "map_of (os_operations st1) i = Some e'" using that eff(6) by (simp add: wf_map_Some_iff)
    then obtain e n where "map_of (load_entries (ps_Operations p)) i = Some e" "e' = recovered_entry t1 n e"
      using eff(7) by blast
    then show ?thesis using load_entries_mem [OF map_of_SomeD] by blast
  qed
  then show "\<exists>e n. e \<in> set (ps_Operations p) \<and> or_ID (en_record e) = i \<and> e' = recovered_entry t1 n e"
    if "(i, e') \<in> set (os_operations st)" using that ops sel(8) eff(6) by auto
  have "\<forall>(i, e) \<in> set (os_operations st1). Terminal (or_State (en_record e))"
    using from1 recovered_entry_terminal by blast
  moreover have "0 \<le> oo_MaxOperations (os_options st1)" using eff(2) by (simp add: default_options_def)
  ultimately show "int (length (os_operations st)) \<le> oo_MaxOperations (os_options st)"
    using pruneLocked_capacity [OF pr] ops opt sel(1) by simp
  show "store_inv st" if ok: "file_ok (default_options options) file"
  proof -
    have tab: "table_ok (default_options options) (keyed (ps_Operations p)) (ps_NextSequence p)"
      "log_ok (default_options options) (ps_Events p) (ps_NextSequence p)"
      using ok assms(2) by (auto simp: file_ok_def loadPersisted_def table_ok_def log_ok_def keyed_def unique_hashes_def
          default_options_def split: op_file.splits if_splits)
    have "or_Sequence (en_record x) \<le> ps_NextSequence p" if "x \<in> set (ps_Operations p)" for x
      using tab(1) that by (force simp: table_ok_def keyed_def entry_ok_def)
    moreover have "ev_Sequence e \<le> ps_NextSequence p" if "e \<in> set (ps_Events p)" for e
    proof -
      have "ev_Sequence e \<in> set (map ev_Sequence (ps_Events p))" using that by simp
      then show ?thesis using tab(2) by (auto simp: log_ok_def simp del: set_map upt_Suc)
    qed
    ultimately have "loaded_sequence p = ps_NextSequence p" by (simp add: loaded_sequence_def Let_def fold_max_same)
    moreover have "load_entries (ps_Operations p) = keyed (ps_Operations p)"
      using tab(1) by (intro load_entries_keyed) (simp add: table_ok_def)
    moreover have "0 < oo_MaxOperations (default_options options)" "0 < oo_MaxEvents (default_options options)"
      by (simp_all add: default_options_def)
    ultimately have "live_ok st1" using eff(5) tab by (simp add: live_ok_def)
    then have live2: "live_ok st2" using pr by (rule pruneLocked_live_ok)
    then show ?thesis using fin ok snapshot_ok [OF live2] sel(4) eff(3) options opt
      by (auto simp: store_inv_def split: if_splits)
  qed
qed

end
