(* ===== verification/Operation_Runs.thy ===== *)
theory Operation_Runs
  imports Operation_Invariant
begin

text \<open>
  Runs of the operation store: interleaved mutations, publications, failing file systems and
  restarts as one transition system, and the properties of every reachable state.
\<close>

section \<open>Runs of the store\<close>

text \<open>
  Callers interleave at the mutex, publications come when they come, and the daemon may
  stop at any moment and be started again on the file it left. The identifier of a new
  operation is 16 random bytes: it is not in use.
\<close>

inductive op_step :: "(string \<Rightarrow> string) \<Rightarrow> op_store \<Rightarrow> op_store \<Rightarrow> bool" for sha where
  step_create: "validateCreate rq t0 = None \<Longrightarrow> \<not> has_key (os_operations st) newID \<Longrightarrow>
    Create_locked sha io t1 t2 newID rq st = (res, ev, st') \<Longrightarrow> op_step sha st st'"
| step_transition: "Transition_locked io t opid state progress result failure etype st = (res', ev, st') \<Longrightarrow> op_step sha st st'"
| step_progress: "UpdateProgress_locked io t opid progress metadata st = (res', ev, st') \<Longrightarrow> op_step sha st st'"
| step_publish: "op_step sha st (publish event st)"
| step_subscribe: "op_step sha st (snd (Store_Subscribe buffer st))"
| step_unsubscribe: "op_step sha st (Store_Unsubscribe n st)"
| step_close: "op_step sha st (Store_Close st)"
| step_reopen: "Store_Open io (os_disk st) t1 t2 (os_options st) = Inr st' \<Longrightarrow> op_step sha st st'"

definition identity_of :: "op_entry \<Rightarrow> (string \<times> string \<times> string \<times> string) \<times> (bool \<times> string \<times> gotime \<times> gotime) \<times> string_map \<times> string \<times> string" where
  "identity_of e = (let r = en_record e in
     ((or_ID r, or_Kind r, or_Target r, or_Owner r), (or_Cancelable r, or_RecoveryPolicy r, or_CreatedAt r, or_ExpiresAt r),
      or_Metadata r, en_idempotencyHash e, en_requestDigest e))"

text \<open>What may become of an entry: nothing at all, or, while it is not terminal, progress
  within its state or a transition of the state machine.\<close>

definition entry_moves :: "op_entry \<Rightarrow> op_entry \<Rightarrow> bool" where
  "entry_moves e e' \<longleftrightarrow> e' = e \<or>
     (\<not> Terminal (or_State (en_record e)) \<and> identity_of e' = identity_of e
      \<and> (or_State (en_record e') = or_State (en_record e) \<or> allowedTransition (or_State (en_record e)) (or_State (en_record e'))))"

definition table_moves :: "(string, op_entry) gomap \<Rightarrow> (string, op_entry) gomap \<Rightarrow> bool" where
  "table_moves ops ops' \<longleftrightarrow> (\<forall>i e e'. map_of ops i = Some e \<longrightarrow> map_of ops' i = Some e' \<longrightarrow> entry_moves e e')"

definition file_table :: "op_file \<Rightarrow> (string, op_entry) gomap" where
  "file_table file = (case file of OpSnapshot p \<Rightarrow> keyed (ps_Operations p) | _ \<Rightarrow> [])"

definition system_inv :: "op_store \<Rightarrow> bool" where
  "system_inv st \<longleftrightarrow> store_inv st \<and> default_options (os_options st) = os_options st
     \<and> table_moves (os_operations st) (file_table (os_disk st))"

lemma entry_moves_refl [simp]: "entry_moves e e"
  by (simp add: entry_moves_def)

lemma table_moves_refl [simp]: "table_moves ops ops"
  by (simp add: table_moves_def)

lemma table_moves_subset: "wf_map ops \<Longrightarrow> wf_map ops' \<Longrightarrow> set ops' \<subseteq> set ops \<Longrightarrow> table_moves ops ops'"
  unfolding table_moves_def by (metis entry_moves_refl option.inject subsetD wf_map_Some_iff)

lemma table_moves_replace:
  "map_of ops opid = Some item \<Longrightarrow> entry_moves item item' \<Longrightarrow> table_moves ops (AList.update opid item' ops)"
  by (auto simp: table_moves_def)

lemma map_of_file_snapshot:
  assumes "live_ok st"
  shows "map_of (file_table (OpSnapshot (store_snapshot st))) = map_of (os_operations st)"
proof
  fix i
  have t: "table_ok (os_options st) (os_operations st) (os_nextSequence st)" using assms by (simp add: live_ok_def)
  show "map_of (file_table (OpSnapshot (store_snapshot st))) i = map_of (os_operations st) i"
    using set_keyed_snapshot [OF t] t wf_map_Some_iff [of "os_operations st" i]
      wf_map_Some_iff [of "keyed (ps_Operations (store_snapshot st))" i]
    by (simp add: file_table_def table_ok_def) (metis option.exhaust)
qed

lemma commit_or_restore_moves:
  assumes "system_inv st0" and "live_ok st" and "os_options st = os_options st0" and "os_disk st = os_disk st0"
    and moves: "table_moves (os_operations st0) (os_operations st)"
    and cr: "commit_or_restore io (checkpointLocked st0) res ev st = (r, ev', st')"
  shows "system_inv st'" and "table_moves (os_operations st0) (os_operations st')"
proof -
  have inv: "store_inv st0" using assms(1) by (simp add: system_inv_def)
  note map_of_file_snapshot [OF assms(2)]
  then have ahead: "table_moves (os_operations st0) (file_table (OpSnapshot (store_snapshot st)))"
    "table_moves (os_operations st) (file_table (OpSnapshot (store_snapshot st)))"
    using moves by (simp_all add: table_moves_def)
  note kept = commit_or_restore_inv [OF inv assms(2-4) cr]
  have "table_moves (os_operations st') (file_table (os_disk st'))"
    using cr ahead assms(1,4) by (auto simp: commit_or_restore_eq system_inv_def split: option.splits if_splits)
  with kept assms(1) show "system_inv st'" by (simp add: system_inv_def)
  show "table_moves (os_operations st0) (os_operations st')"
    using cr moves by (auto simp: commit_or_restore_eq split: option.splits)
qed

lemma commit_record_moves:
  assumes sys: "system_inv st" and item: "map_of (os_operations st) opid = Some item"
    and ok: "entry_ok (Suc (os_nextSequence st)) opid (item\<lparr>en_record := r\<lparr>or_Sequence := Suc (os_nextSequence st)\<rparr>\<rparr>)"
    and moves: "entry_moves item (item\<lparr>en_record := r\<lparr>or_Sequence := Suc (os_nextSequence st)\<rparr>\<rparr>)"
    and cr: "commit_record io (checkpointLocked st) opid etype now item r st = (res, ev, st')"
  shows "system_inv st' \<and> table_moves (os_operations st) (os_operations st')"
proof -
  let ?ops = "AList.update opid (item\<lparr>en_record := r\<lparr>or_Sequence := Suc (os_nextSequence st)\<rparr>\<rparr>) (os_operations st)"
  obtain event st1 where lg: "logged opid etype (or_State r) now ?ops st = (event, st1)" by fastforce
  have live: "live_ok st" using sys by (simp add: system_inv_def store_inv_def)
  then have "table_ok (os_options st) ?ops (Suc (os_nextSequence st))"
    using item ok table_ok_replace [of _ _ "os_nextSequence st"] by (simp add: live_ok_def)
  then have live1: "live_ok st1" by (rule logged_live_ok [OF live lg])
  have tm: "table_moves (os_operations st) (os_operations st1)"
    using table_moves_replace [OF item moves] logged_sel(3) [OF lg] by simp
  have "commit_or_restore io (checkpointLocked st) (r\<lparr>or_Sequence := Suc (os_nextSequence st)\<rparr>) (Some event) st1 = (res, ev, st')"
    using cr lg by (simp add: commit_record_logged)
  from commit_or_restore_moves [OF sys live1 logged_sel(2,5) [OF lg] tm this] show ?thesis by simp
qed

lemma entry_okD: "store_inv st \<Longrightarrow> map_of (os_operations st) opid = Some item \<Longrightarrow> entry_ok (os_nextSequence st) opid item"
  using map_of_SomeD [of "os_operations st" opid item] by (auto simp: store_inv_def live_ok_def table_ok_def)

lemma Transition_locked_moves:
  assumes sys: "system_inv st" and tr: "Transition_locked io now opid state progress result failure etype st = (res, ev, st')"
  shows "system_inv st' \<and> table_moves (os_operations st) (os_operations st')"
proof (cases "map_of (os_operations st) opid")
  case None
  then show ?thesis using assms by (simp add: Transition_locked_def Let_def split: if_splits)
next
  case item: (Some item)
  let ?e = "item\<lparr>en_record := (transition_record state progress result failure now (en_record item))\<lparr>or_Sequence := Suc (os_nextSequence st)\<rparr>\<rparr>"
  show ?thesis
  proof (cases "allowedTransition (or_State (en_record item)) state")
    case True
    have "entry_ok (os_nextSequence st) opid item" using sys item by (simp add: system_inv_def entry_okD)
    then have ok: "entry_ok (Suc (os_nextSequence st)) opid ?e"
      using allowedTransition_known [OF True] by (simp add: entry_ok_def transition_record_def clamp_progress_bounds)
    have "\<not> Terminal (or_State (en_record item))" using True by (auto simp: allowedTransition_def)
    moreover have "or_State (en_record ?e) = state" "identity_of ?e = identity_of item"
      by (simp_all add: identity_of_def transition_record_def Let_def)
    ultimately have "entry_moves item ?e" using True by (simp add: entry_moves_def)
    then show ?thesis
      using commit_record_moves [OF sys item ok] assms True item by (auto simp: Transition_locked_def Let_def split: if_splits)
  qed (use assms item in \<open>auto simp: Transition_locked_def Let_def split: if_splits\<close>)
qed

lemma UpdateProgress_locked_moves:
  assumes sys: "system_inv st" and up: "UpdateProgress_locked io now opid progress metadata st = (res, ev, st')"
  shows "system_inv st' \<and> table_moves (os_operations st) (os_operations st')"
proof (cases "map_of (os_operations st) opid")
  case None
  then show ?thesis using assms by (simp add: UpdateProgress_locked_def Let_def split: if_splits)
next
  case item: (Some item)
  let ?e = "item\<lparr>en_record := (progress_record progress metadata now (en_record item))\<lparr>or_Sequence := Suc (os_nextSequence st)\<rparr>\<rparr>"
  show ?thesis
  proof (cases "Terminal (or_State (en_record item))")
    case False
    have "entry_ok (os_nextSequence st) opid item" using sys item by (simp add: system_inv_def entry_okD)
    then have ok: "entry_ok (Suc (os_nextSequence st)) opid ?e"
      by (simp add: entry_ok_def progress_record_def Let_def clamp_progress_bounds)
    have "entry_moves item ?e" using False by (simp add: entry_moves_def identity_of_def progress_record_def Let_def)
    then show ?thesis
      using commit_record_moves [OF sys item ok] assms False item by (auto simp: UpdateProgress_locked_def Let_def split: if_splits)
  qed (use assms item in \<open>auto simp: UpdateProgress_locked_def Let_def split: if_splits\<close>)
qed

lemma Create_locked_moves:
  assumes sys: "system_inv st" and cl: "Create_locked sha io now_prune now newID rq st = (res, ev, st')"
    and new: "\<not> has_key (os_operations st) newID"
  shows "system_inv st' \<and> table_moves (os_operations st) (os_operations st')"
proof -
  obtain pruned st1 where pr: "pruneLocked now_prune st = (pruned, st1)" by fastforce
  have inv: "store_inv st" and live: "live_ok st" using sys by (simp_all add: system_inv_def store_inv_def)
  then have wf: "wf_map (os_operations st)" by (simp add: live_ok_def table_ok_def)
  have live1: "live_ok st1" using live pr by (rule pruneLocked_live_ok)
  note sel1 = pruneLocked_sel [OF pr]
  have tm1: "table_moves (os_operations st) (os_operations st1)" using sel1(7,8) wf by (simp add: table_moves_subset)
  have map1: "map_of (os_operations st1) i = Some e \<Longrightarrow> map_of (os_operations st) i = Some e" for i e
    using sel1(7,8) wf by (metis subsetD wf_map_Some_iff)
  have sys1: "system_inv st1"
    using sys live1 sel1 map1 by (simp add: system_inv_def store_inv_def table_moves_def) blast
  show ?thesis
  proof (rule Create_locked_cases [OF cl pr refl])
    fix opid e
    assume "(res, ev, st') = (if pruned then commit_or_restore io (checkpointLocked st) (en_record e, False) None st1
        else (Inr (en_record e, False), None, st1))"
    then show ?thesis
      using commit_or_restore_moves [OF sys live1 sel1(1,4) tm1] sys1 tm1 by (metis prod.inject)
  next
    fix r event st2
    let ?h = "hashIdempotency sha (rq_Owner rq) (rq_IdempotencyKey rq)"
    let ?ops = "AList.update newID \<lparr>en_record = r, en_idempotencyHash = ?h, en_requestDigest = rq_RequestDigest rq\<rparr> (os_operations st1)"
    assume h: "?h = '''' \<or> (\<forall>(i, e) \<in> set (os_operations st1). en_idempotencyHash e \<noteq> ?h)"
      and room: "int (length (os_operations st1)) < oo_MaxOperations (os_options st1)"
      and r: "r = (new_record newID now rq)\<lparr>or_Sequence := Suc (os_nextSequence st1)\<rparr>"
      and lg: "logged newID ''created'' StatePending now ?ops st1 = (event, st2)"
      and cr: "(res, ev, st') = commit_or_restore io (checkpointLocked st) (r, True) (Some event) st2"
    have new1: "\<not> has_key (os_operations st1) newID" using new map1 by (metis has_key_def not_None_eq)
    moreover have "known_state StatePending" by (simp add: known_state_def)
    ultimately have "table_ok (os_options st1) ?ops (Suc (os_nextSequence st1))"
      using live1 h room
      by (intro table_ok_insert [of _ _ "os_nextSequence st1"]) (auto simp: live_ok_def entry_ok_def r new_record_def)
    then have live2: "live_ok st2" by (rule logged_live_ok [OF live1 lg])
    have "table_moves (os_operations st) ?ops" using tm1 new by (auto simp: table_moves_def has_key_def)
    then have tm2: "table_moves (os_operations st) (os_operations st2)" using logged_sel(3) [OF lg] by simp
    have "os_options st2 = os_options st" "os_disk st2 = os_disk st"
      using logged_sel(2,5) [OF lg] sel1(1,4) by simp_all
    from commit_or_restore_moves [OF sys live2 this tm2 cr [symmetric]] show ?thesis by simp
  qed (use sys in simp_all)
qed

lemma moves_recovered:
  assumes "entry_moves e e'" and "known_state (or_State (en_record e))"
  shows "entry_moves e (recovered_entry now n e')"
proof (cases "Terminal (or_State (en_record e'))")
  case False
  then have nt: "\<not> Terminal (or_State (en_record e))" using assms(1) by (auto simp: entry_moves_def)
  have "identity_of (recovered_entry now n e') = identity_of e'"
    by (simp add: recovered_entry_def identity_of_def recover_record_def Let_def)
  moreover have "allowedTransition (or_State (en_record e)) (or_State (en_record (recovered_entry now n e')))"
    using nt assms(2) False by (auto simp: recovered_entry_def recover_record_def Let_def allowedTransition_def known_state_def)
  ultimately show ?thesis using assms(1) nt by (auto simp: entry_moves_def)
qed (use assms in \<open>simp add: recovered_entry_def\<close>)

lemma default_options_idem [simp]: "default_options (default_options opts) = default_options opts"
  by (simp add: default_options_def duration_defs)

lemma recover_fold_unchanged:
  "fold (recover_one now) ids (c, st) = (False, st') \<Longrightarrow> set ids \<subseteq> set (keys_of (os_operations st)) \<Longrightarrow> \<not> c \<and> st' = st"
proof (induction ids arbitrary: c st)
  case (Cons opid ids)
  obtain item where item: "map_of (os_operations st) opid = Some item"
    using Cons.prems(2) has_key_iff [of "os_operations st" opid] by (auto simp: has_key_def)
  obtain c1 st1 where one: "recover_one now opid (c, st) = (c1, st1)" by fastforce
  have "\<not> c1 \<and> st' = st1"
    using Cons.IH [of c1 st1] Cons.prems recover_one_effect(1) [OF item one] one by simp
  then show ?case using one by (auto simp: recover_one_logged [OF item] split: if_splits)
qed simp

lemma reopen_moves:
  assumes sys: "system_inv st" and op: "Store_Open io (os_disk st) t1 t2 (os_options st) = Inr st'"
  shows "system_inv st' \<and> table_moves (os_operations st) (os_operations st')"
proof -
  obtain p where load: "loadPersisted (os_disk st) = Inr p" using Store_Open_cases [OF op] by metis
  have opts: "default_options (os_options st) = os_options st" and ok: "file_ok (os_options st) (os_disk st)"
    and inv: "store_inv st" and ahead: "table_moves (os_operations st) (file_table (os_disk st))"
    using sys by (simp_all add: system_inv_def store_inv_def)
  note eff = Store_Open_effect [OF op load]
  have inv': "store_inv st'" using eff(6) opts ok by simp
  have items: "keyed (ps_Operations p) = file_table (os_disk st)"
    using load by (auto simp: loadPersisted_def file_table_def keyed_def split: op_file.splits if_splits)
  have wfile: "wf_map (file_table (os_disk st))"
    using ok by (auto simp: file_ok_def file_table_def table_ok_def split: op_file.splits)
  have origin: "\<exists>e n. map_of (file_table (os_disk st)) i = Some e \<and> e' = recovered_entry t1 n e"
    if found: "map_of (os_operations st') i = Some e'" for i e'
  proof -
    obtain e n where "e \<in> set (ps_Operations p)" "or_ID (en_record e) = i" "e' = recovered_entry t1 n e"
      using eff(4) [OF map_of_SomeD [OF found]] by blast
    then show ?thesis using wf_map_Some_iff [OF wfile] by (auto simp: keyed_def simp flip: items)
  qed
  have "table_moves (os_operations st) (os_operations st')"
    unfolding table_moves_def
  proof (intro allI impI)
    fix i e e'
    assume e: "map_of (os_operations st) i = Some e" and "map_of (os_operations st') i = Some e'"
    then obtain f n where "map_of (file_table (os_disk st)) i = Some f" "e' = recovered_entry t1 n f" using origin by blast
    moreover have "known_state (or_State (en_record e))" using entry_okD [OF inv e] by (simp add: entry_ok_def)
    ultimately show "entry_moves e e'" using ahead e moves_recovered by (auto simp: table_moves_def)
  qed
  moreover have "table_moves (os_operations st') (file_table (os_disk st'))"
  proof -
    obtain c1 st1 c2 st2 where rec: "recoverLocked t1 \<lparr>os_options = default_options (os_options st), os_operations = load_entries (ps_Operations p),
       os_events = ps_Events p, os_nextSequence = loaded_sequence p,
       os_subscribers = [], os_nextSubID = 0, os_closed = False, os_disk = os_disk st\<rparr> = (c1, st1)"
      and pr: "pruneLocked t2 st1 = (c2, st2)"
      and fin: "if c1 \<or> c2 then io = None \<and> st' = st2\<lparr>os_disk := OpSnapshot (store_snapshot st2)\<rparr> else st' = st2"
      using Store_Open_cases [OF op] load by (metis sum.inject(2))
    show ?thesis
    proof (cases "c1 \<or> c2")
      case True
      then have "os_disk st' = OpSnapshot (store_snapshot st')" using fin by simp
      then show ?thesis using map_of_file_snapshot [of st'] inv' by (simp add: store_inv_def table_moves_def)
    next
      case False
      then have "os_disk st' = os_disk st"
        using fin pruneLocked_sel(4) [OF pr] recoverLocked_effect(3) [OF rec] load_entries_wf by simp
      moreover have c1: "c1 = False" using False by simp
      have "os_operations st1 = load_entries (ps_Operations p)"
        using recover_fold_unchanged [OF rec [unfolded recoverLocked_def c1]] by simp
      then have "os_operations st1 = file_table (os_disk st)" using load_entries_keyed wfile items by simp
      then have "set (os_operations st') \<subseteq> set (file_table (os_disk st))"
        using fin False pruneLocked_sel(8) [OF pr] wfile by simp
      then have "entry_moves e' f" if "map_of (os_operations st') i = Some e'" "map_of (file_table (os_disk st)) i = Some f" for i e' f
        using that wf_map_Some_iff [OF wfile] map_of_SomeD [OF that(1)] by (metis entry_moves_refl option.inject subsetD)
      ultimately show ?thesis by (simp add: table_moves_def)
    qed
  qed
  ultimately show ?thesis using inv' eff(1) by (simp add: system_inv_def)
qed

text \<open>Every step keeps the invariant and moves entries as the state machine allows.\<close>

lemma op_step_moves:
  assumes "op_step sha st st'" and "system_inv st"
  shows "system_inv st' \<and> table_moves (os_operations st) (os_operations st')"
  using assms
proof (induction rule: op_step.induct)
  case (step_create rq t0 st newID io t1 t2 res ev st')
  then show ?case using Create_locked_moves by blast
next
  case (step_transition io t opid state progress result failure etype st res' ev st')
  then show ?case using Transition_locked_moves by blast
next
  case (step_progress io t opid progress metadata st res' ev st')
  then show ?case using UpdateProgress_locked_moves by blast
next
  case (step_reopen io st t1 t2 st')
  then show ?case using reopen_moves by blast
qed (auto simp: system_inv_def store_inv_def live_ok_def publish_def Store_Subscribe_def Store_Unsubscribe_def Store_Close_def Let_def)

definition op_init :: "op_store \<Rightarrow> bool" where
  "op_init st \<longleftrightarrow> (\<exists>io t1 t2 options. Store_Open io OpNoFile t1 t2 options = Inr st)"

lemma op_init_inv:
  assumes "op_init st"
  shows "system_inv st"
proof -
  obtain io t1 t2 options where op: "Store_Open io OpNoFile t1 t2 options = Inr st" using assms by (auto simp: op_init_def)
  have load: "loadPersisted OpNoFile = Inr \<lparr>ps_SchemaVersion = schemaVersion, ps_NextSequence = 0, ps_Operations = [], ps_Events = []\<rparr>"
    by (simp add: loadPersisted_def)
  note eff = Store_Open_effect [OF op load]
  have "os_operations st = []"
  proof (rule ccontr)
    assume "os_operations st \<noteq> []"
    then obtain i e where "(i, e) \<in> set (os_operations st)" by (metis list.set_intros(1) neq_Nil_conv surj_pair)
    then show False using eff(4) by auto
  qed
  then show ?thesis using eff(1,6) by (simp add: system_inv_def file_ok_def table_moves_def)
qed

interpretation op_system: invariant_system op_init "op_step sha" system_inv
  by unfold_locales (auto intro: op_init_inv dest: op_step_moves)

section \<open>Properties\<close>

definition sample_op_options :: op_options where
  "sample_op_options = \<lparr>oo_Path = ''ops.json'', oo_MaxOperations = 2, oo_MaxEvents = 3, oo_Retention = 1000, oo_DefaultTTL = 50\<rparr>"

definition sample_st0 :: op_store where
  "sample_st0 = \<lparr>os_options = sample_op_options, os_operations = [], os_events = [], os_nextSequence = 0,
     os_subscribers = [], os_nextSubID = 0, os_closed = False, os_disk = OpNoFile\<rparr>"

definition sample_rq :: create_request where
  "sample_rq = \<lparr>rq_Kind = ''login'', rq_Target = '' codex '', rq_Owner = ''cli'', rq_Cancelable = True, rq_ExpiresAt = 90,
     rq_RecoveryPolicy = '''', rq_Metadata = None, rq_IdempotencyKey = ''k1'', rq_RequestDigest = ''d1''\<rparr>"

definition sample_created :: "op_store" where
  "sample_created = snd (snd (Create_locked (\<lambda>x. x) None 5 5 ''op_1'' sample_rq sample_st0))"

definition sample_done :: "op_store" where
  "sample_done = snd (snd (Transition_locked None 9 ''op_1'' StateSucceeded 130 None None '''' sample_created))"

lemma sample_open: "Store_Open None OpNoFile 0 0 sample_op_options = Inr sample_st0"
  by code_simp

lemma sample_init: "op_init sample_st0"
  unfolding op_init_def using sample_open by blast

lemma sample_steps:
  "op_step (\<lambda>x. x) sample_st0 sample_created" "op_step (\<lambda>x. x) sample_created sample_done"
proof -
  have "validateCreate sample_rq 0 = None" "\<not> has_key (os_operations sample_st0) ''op_1''" by code_simp+
  moreover obtain r ev st where "Create_locked (\<lambda>x. x) None 5 5 ''op_1'' sample_rq sample_st0 = (r, ev, st)"
    by (cases "Create_locked (\<lambda>x. x) None 5 5 ''op_1'' sample_rq sample_st0")
  ultimately show "op_step (\<lambda>x. x) sample_st0 sample_created"
    using step_create [of sample_rq 0 sample_st0 "''op_1''" "\<lambda>x. x" None 5 5] by (simp add: sample_created_def)
  obtain r ev st where "Transition_locked None 9 ''op_1'' StateSucceeded 130 None None '''' sample_created = (r, ev, st)"
    by (cases "Transition_locked None 9 ''op_1'' StateSucceeded 130 None None '''' sample_created")
  then show "op_step (\<lambda>x. x) sample_created sample_done"
    using step_transition [of None 9 "''op_1''" StateSucceeded 130 None None "''''" sample_created] by (simp add: sample_done_def)
qed

lemma sample_reach: "reach (op_step (\<lambda>x. x)) sample_st0 sample_created" "reach (op_step (\<lambda>x. x)) sample_st0 sample_done"
proof -
  show r1: "reach (op_step (\<lambda>x. x)) sample_st0 sample_created"
    using reach_start sample_steps(1) by (rule reach_step)
  show "reach (op_step (\<lambda>x. x)) sample_st0 sample_done" using r1 sample_steps(2) by (rule reach_step)
qed

text \<open>C8: whatever callers do, whatever file system call fails, and however often the daemon is
  stopped and restarted, a terminal operation never changes again (it can only be pruned),
  and an operation that is not terminal keeps its identity and either keeps its state or makes
  a transition of the state machine.\<close>

theorem operation_lifecycle:
  assumes "op_init st0" and "reach (op_step sha) st0 st" and "op_step sha st st'"
    and "map_of (os_operations st) opid = Some e"
  shows "(Terminal (or_State (en_record e)) \<longrightarrow> map_of (os_operations st') opid \<in> {None, Some e})
    \<and> (\<forall>e'. map_of (os_operations st') opid = Some e' \<longrightarrow>
         identity_of e' = identity_of e
         \<and> (or_State (en_record e') = or_State (en_record e)
            \<or> allowedTransition (or_State (en_record e)) (or_State (en_record e'))))"
proof -
  have "system_inv st" using op_system.reachable_invar [OF assms(2,1)] .
  then have "table_moves (os_operations st) (os_operations st')" using op_step_moves [OF assms(3)] by blast
  then have "map_of (os_operations st') opid = Some e' \<Longrightarrow> entry_moves e e'" for e'
    using assms(4) by (auto simp: table_moves_def)
  then show ?thesis unfolding entry_moves_def by (metis insertCI option.exhaust)
qed

theorem operation_lifecycle_witness:
  "\<exists>e e'. map_of (os_operations sample_created) ''op_1'' = Some e \<and> or_State (en_record e) = StatePending
     \<and> map_of (os_operations sample_done) ''op_1'' = Some e' \<and> or_State (en_record e') = StateSucceeded
     \<and> identity_of e' = identity_of e \<and> allowedTransition (or_State (en_record e)) (or_State (en_record e'))"
proof -
  obtain e where e: "map_of (os_operations sample_created) ''op_1'' = Some e"
    by (cases "map_of (os_operations sample_created) ''op_1''") (code_simp, simp)
  obtain e' where e': "map_of (os_operations sample_done) ''op_1'' = Some e'"
    by (cases "map_of (os_operations sample_done) ''op_1''") (code_simp, simp)
  have "map_option (or_State \<circ> en_record) (map_of (os_operations sample_created) ''op_1'') = Some StatePending"
    "map_option (or_State \<circ> en_record) (map_of (os_operations sample_done) ''op_1'') = Some StateSucceeded"
    by code_simp+
  then have "or_State (en_record e) = StatePending" "or_State (en_record e') = StateSucceeded" using e e' by simp_all
  moreover have "StatePending \<noteq> StateSucceeded" by code_simp
  ultimately show ?thesis
    using operation_lifecycle [OF sample_init sample_reach(1) sample_steps(2) e] e e' by metis
qed

text \<open>C11: in every reachable state the table is within its capacity and keyed by the records'
  own identifiers, every record has a state of the state machine and a progress between 0
  and 100, and the event log holds the newest events, at most \<open>MaxEvents\<close> of them, numbered
  without a gap; so asking for the events after a sequence number the log still reaches
  yields every later event exactly once and in order.\<close>

theorem operation_store_bounded:
  assumes "op_init st0" and "reach (op_step sha) st0 st"
  shows "int (length (os_operations st)) \<le> oo_MaxOperations (os_options st)
    \<and> int (length (os_events st)) \<le> oo_MaxEvents (os_options st)
    \<and> (\<forall>opid e. map_of (os_operations st) opid = Some e \<longrightarrow>
         or_ID (en_record e) = opid \<and> known_state (or_State (en_record e)) \<and> 0 \<le> or_Progress (en_record e)
         \<and> or_Progress (en_record e) \<le> 100 \<and> or_Sequence (en_record e) \<le> os_nextSequence st)
    \<and> map ev_Sequence (Store_Events after st)
        = [max (Suc after) (Suc (os_nextSequence st) - length (os_events st)) ..< Suc (os_nextSequence st)]"
proof -
  have inv: "store_inv st" using op_system.reachable_invar [OF assms(2,1)] by (simp add: system_inv_def)
  then have tab: "table_ok (os_options st) (os_operations st) (os_nextSequence st)"
    and lg: "log_ok (os_options st) (os_events st) (os_nextSequence st)" by (simp_all add: store_inv_def live_ok_def)
  have "map ev_Sequence (Store_Events after st) = filter (\<lambda>n. after < n) (map ev_Sequence (os_events st))"
    by (simp add: Store_Events_def filter_map comp_def)
  also have "\<dots> = filter (\<lambda>n. after < n) [Suc (os_nextSequence st) - length (os_events st) ..< Suc (os_nextSequence st)]"
    using lg by (simp only: log_ok_def)
  also have "\<dots> = [max (Suc after) (Suc (os_nextSequence st) - length (os_events st)) ..< Suc (os_nextSequence st)]"
    by (rule filter_upt_above)
  finally have ev: "map ev_Sequence (Store_Events after st) = \<dots>" .
  moreover have "int (length (os_operations st)) \<le> oo_MaxOperations (os_options st)"
    and "int (length (os_events st)) \<le> oo_MaxEvents (os_options st)"
    using tab lg by (simp_all add: table_ok_def log_ok_def)
  moreover have "\<forall>opid e. map_of (os_operations st) opid = Some e \<longrightarrow>
         or_ID (en_record e) = opid \<and> known_state (or_State (en_record e)) \<and> 0 \<le> or_Progress (en_record e)
         \<and> or_Progress (en_record e) \<le> 100 \<and> or_Sequence (en_record e) \<le> os_nextSequence st"
    using entry_okD [OF inv] by (simp add: entry_ok_def)
  ultimately show ?thesis by blast
qed

theorem operation_store_bounded_witness:
  "map ev_Sequence (Store_Events 1 sample_done) = [2] \<and> length (os_operations sample_done) = 1"
proof -
  have "os_nextSequence sample_done = 2" "length (os_events sample_done) = 2" "length (os_operations sample_done) = 1"
    by code_simp+
  then show ?thesis
    using operation_store_bounded [OF sample_init sample_reach(2), of 1] by (simp add: upt_rec)
qed

definition same_memory :: "op_store \<Rightarrow> op_store \<Rightarrow> bool" where
  "same_memory st st' \<longleftrightarrow> st'\<lparr>os_disk := os_disk st\<rparr> = st"

definition atomic_result :: "op_store \<Rightarrow> 'a op_result \<Rightarrow> bool" where
  "atomic_result st r \<longleftrightarrow>
     (case r of
        (Inl e, ev, st') \<Rightarrow> ev = None \<and> same_memory st st'
          \<and> (os_disk st' = os_disk st \<or> e \<in> {PersistFailed SnapOpenDirectory, PersistFailed SnapSyncDirectory})
      | (Inr _, None, st') \<Rightarrow> os_events st' = os_events st \<and> os_nextSequence st' = os_nextSequence st
      | (Inr _, Some event, st') \<Rightarrow> os_disk st' = OpSnapshot (store_snapshot st') \<and> last (os_events st') = event
          \<and> ev_Sequence event = Suc (os_nextSequence st) \<and> os_nextSequence st' = Suc (os_nextSequence st))"

lemma commit_or_restore_atomic:
  assumes "os_events st \<noteq> [] \<Longrightarrow> last (os_events st) = event" and "os_events st \<noteq> []"
    and "os_nextSequence st = Suc (os_nextSequence st0)" and "ev_Sequence event = Suc (os_nextSequence st0)"
    and "st\<lparr>os_operations := os_operations st0, os_events := os_events st0, os_nextSequence := os_nextSequence st0\<rparr> = st0"
  shows "atomic_result st0 (commit_or_restore io (checkpointLocked st0) res (Some event) st)"
proof -
  have "os_disk st = os_disk st0" using assms(5) by (metis op_store.select_convs(8) op_store.surjective op_store.update_convs(2-4))
  moreover have "same_memory st0 (st\<lparr>os_disk := f, os_operations := os_operations st0, os_events := os_events st0, os_nextSequence := os_nextSequence st0\<rparr>)" for f
    unfolding same_memory_def using assms(5) \<open>os_disk st = os_disk st0\<close> by (cases st; cases st0) simp
  ultimately show ?thesis using assms
    by (auto simp: atomic_result_def commit_or_restore_eq io_replaces_def split: option.split)
qed

lemma logged_atomic:
  assumes "0 < oo_MaxEvents (os_options st)" and "logged opid etype state now ops st = (event, st')"
  shows "os_events st' \<noteq> []" "last (os_events st') = event"
    "os_nextSequence st' = Suc (os_nextSequence st)" "ev_Sequence event = Suc (os_nextSequence st)"
    "st'\<lparr>os_operations := x, os_events := y, os_nextSequence := z\<rparr> = st\<lparr>os_operations := x, os_events := y, os_nextSequence := z\<rparr>"
proof -
  have ev: "os_events st' = keep_last (nat (oo_MaxEvents (os_options st))) (os_events st @ [event])"
    using logged_sel(8) [OF assms(2,1)] .
  have "length (os_events st') \<noteq> 0" unfolding ev length_keep_last using assms(1) by simp
  then show "os_events st' \<noteq> []" by simp
  show "last (os_events st') = event" unfolding ev using assms(1) by (simp add: last_keep_last)
  show "os_nextSequence st' = Suc (os_nextSequence st)" "ev_Sequence event = Suc (os_nextSequence st)"
    using logged_sel(1,4) [OF assms(2)] by simp_all
  show "st'\<lparr>os_operations := x, os_events := y, os_nextSequence := z\<rparr> = st\<lparr>os_operations := x, os_events := y, os_nextSequence := z\<rparr>"
    using assms(2) by (auto simp: logged_def nextEventLocked_def Let_def appendEventLocked_def)
qed

lemma commit_record_atomic:
  assumes "0 < oo_MaxEvents (os_options st)"
  shows "atomic_result st (commit_record io (checkpointLocked st) opid etype now item r st)"
proof -
  let ?ops = "AList.update opid (item\<lparr>en_record := r\<lparr>or_Sequence := Suc (os_nextSequence st)\<rparr>\<rparr>) (os_operations st)"
  obtain event st1 where lg: "logged opid etype (or_State r) now ?ops st = (event, st1)" by fastforce
  note logged_atomic [OF assms lg]
  then show ?thesis using lg by (simp add: commit_record_logged commit_or_restore_atomic)
qed

lemma atomic_rejected [simp]: "atomic_result st (Inl e, None, st)"
  by (simp add: atomic_result_def same_memory_def)

lemma Create_locked_atomic:
  assumes "0 < oo_MaxEvents (os_options st)"
  shows "atomic_result st (Create_locked sha io t1 t2 newID rq st)"
proof -
  obtain res ev st' where cl: "Create_locked sha io t1 t2 newID rq st = (res, ev, st')" by (metis prod_cases3)
  obtain pruned st1 where pr: "pruneLocked t1 st = (pruned, st1)" by fastforce
  obtain ops where st1: "st1 = st\<lparr>os_operations := ops\<rparr>" using pruneLocked_ops [of t1 st] pr by (metis snd_conv)
  show ?thesis
    unfolding cl
  proof (rule Create_locked_cases [OF cl pr refl])
    fix opid e
    assume "(res, ev, st') = (if pruned then commit_or_restore io (checkpointLocked st) (en_record e, False) None st1
        else (Inr (en_record e, False), None, st1))"
    moreover have "st\<lparr>os_disk := f, os_operations := os_operations st, os_events := os_events st, os_nextSequence := os_nextSequence st, os_disk := os_disk st\<rparr> = st" for f
      by simp
    ultimately show "atomic_result st (res, ev, st')"
      by (auto simp: atomic_result_def commit_or_restore_eq io_replaces_def same_memory_def st1 split: option.splits if_splits)
  next
    fix r event st2
    assume lg: "logged newID ''created'' StatePending t2 (AList.update newID \<lparr>en_record = r,
          en_idempotencyHash = hashIdempotency sha (rq_Owner rq) (rq_IdempotencyKey rq), en_requestDigest = rq_RequestDigest rq\<rparr> (os_operations st1)) st1
        = (event, st2)"
      and cr: "(res, ev, st') = commit_or_restore io (checkpointLocked st) (r, True) (Some event) st2"
    have "0 < oo_MaxEvents (os_options st1)" using assms by (simp add: st1)
    note at = logged_atomic [OF this lg]
    show "atomic_result st (res, ev, st')"
      unfolding cr by (rule commit_or_restore_atomic) (use at in \<open>simp_all add: st1\<close>)
  qed simp_all
qed

text \<open>C9: a mutation that reports an error has changed nothing but possibly the file, and the
  file only when the directory could not be synced after the rename; a mutation that
  succeeds has its event at the end of the log, and log and table are in the file, before
  the event is published.\<close>

theorem mutation_atomic:
  assumes "op_init st0" and "reach (op_step sha) st0 st"
  shows "atomic_result st (Create_locked sha io t1 t2 newID rq st)
    \<and> atomic_result st (Transition_locked io t opid state progress result failure etype st)
    \<and> atomic_result st (UpdateProgress_locked io t opid progress metadata st)"
proof -
  have "0 < oo_MaxEvents (os_options st)"
    using op_system.reachable_invar [OF assms(2,1)] by (simp add: system_inv_def store_inv_def live_ok_def)
  then show ?thesis
    by (simp add: Create_locked_atomic Transition_locked_def UpdateProgress_locked_def Let_def commit_record_atomic split: option.split)
qed

theorem mutation_atomic_witness:
  "atomic_result sample_created (Transition_locked (Some SnapWrite) 9 ''op_1'' StateRunning 0 None None '''' sample_created)
   \<and> fst (Transition_locked (Some SnapWrite) 9 ''op_1'' StateRunning 0 None None '''' sample_created) = Inl (PersistFailed SnapWrite)"
proof -
  have "fst (Transition_locked (Some SnapWrite) 9 ''op_1'' StateRunning 0 None None '''' sample_created) = Inl (PersistFailed SnapWrite)"
    by code_simp
  with mutation_atomic [OF sample_init sample_reach(1)] show ?thesis by blast
qed

text \<open>Pruning never drops an operation that is not terminal.\<close>

lemma prune_loop_keeps: "opid \<notin> set ids \<Longrightarrow> map_of (prune_loop m ids ops) opid = map_of ops opid"
  by (induction m ids ops rule: prune_loop.induct) simp_all

lemma pruneLocked_keeps:
  assumes "pruneLocked now st = (changed, st')" and "wf_map (os_operations st)"
    and "map_of (os_operations st) opid = Some e" and "\<not> Terminal (or_State (en_record e))"
  shows "map_of (os_operations st') opid = Some e"
proof -
  define kept where "kept = filter (\<lambda>(opid, e). \<not> (Terminal (or_State (en_record e))
    \<and> or_UpdatedAt (en_record e) < now - oo_Retention (os_options st))) (os_operations st)"
  have wf: "wf_map kept" unfolding kept_def using assms(2) by (rule wf_map_filter)
  have mem: "(opid, e) \<in> set kept"
    using assms(4) map_of_SomeD [OF assms(3)] by (simp add: kept_def)
  have "opid \<notin> set (terminal_candidates kept)"
  proof
    assume "opid \<in> set (terminal_candidates kept)"
    then obtain f where "(opid, f) \<in> set kept" "Terminal (or_State (en_record f))"
      by (auto simp: terminal_candidates_def)
    then show False using mem assms(4) wf wf_map_Some_iff [OF wf] by (metis option.inject)
  qed
  moreover have "map_of kept opid = Some e" using mem wf wf_map_Some_iff by metis
  ultimately show ?thesis
    using assms(1) unfolding pruneLocked_def Let_def kept_def [symmetric]
    by (auto simp: prune_loop_keeps split: if_splits)
qed

lemma pruneLocked_unchanged:
  assumes "pruneLocked now st = (False, st')"
  shows "st' = st"
proof -
  define kept where "kept = filter (\<lambda>(opid, e). \<not> (Terminal (or_State (en_record e))
    \<and> or_UpdatedAt (en_record e) < now - oo_Retention (os_options st))) (os_operations st)"
  have loop: "length (prune_loop m ids ops) \<le> length ops \<and>
      (length (prune_loop m ids ops) = length ops \<longrightarrow> prune_loop m ids ops = ops)" for m ids ops
  proof (induction m ids ops rule: prune_loop.induct)
    case (2 m opid rest ops)
    have "length (AList.delete opid ops) < length ops \<or> AList.delete opid ops = ops"
      by (auto simp: AList.delete_eq length_filter_less filter_id_conv)
    with 2 show ?case by auto
  qed simp
  have "\<not> length kept < length (os_operations st)"
    using assms unfolding pruneLocked_def Let_def kept_def [symmetric] by (auto split: if_splits)
  then have "kept = os_operations st" unfolding kept_def
    by (metis (no_types, lifting) filter_True length_filter_less linorder_not_less)
  moreover have "\<not> length (prune_loop m ids ops) < length ops \<Longrightarrow> prune_loop m ids ops = ops" for m ids ops
    using loop [of m ids ops] by auto
  ultimately show ?thesis
    using assms unfolding pruneLocked_def Let_def kept_def [symmetric] by (auto split: if_splits)
qed

lemma created_entry:
  assumes "Create_locked sha None t1 t2 newID rq st = (Inr (r, True), ev, st')"
  shows "map_of (os_operations st') newID = Some \<lparr>en_record = r,
      en_idempotencyHash = hashIdempotency sha (rq_Owner rq) (rq_IdempotencyKey rq), en_requestDigest = rq_RequestDigest rq\<rparr>
    \<and> or_State r = StatePending \<and> \<not> os_closed st'" (is ?created)
proof -
  obtain pruned st1 where pr: "pruneLocked t1 st = (pruned, st1)" by fastforce
  show ?created
  proof (rule Create_locked_cases [OF assms pr refl])
    fix r' event st2
    assume "\<not> os_closed st" and r': "r' = (new_record newID t2 rq)\<lparr>or_Sequence := Suc (os_nextSequence st1)\<rparr>"
      and lg: "logged newID ''created'' StatePending t2 (AList.update newID \<lparr>en_record = r',
          en_idempotencyHash = hashIdempotency sha (rq_Owner rq) (rq_IdempotencyKey rq), en_requestDigest = rq_RequestDigest rq\<rparr> (os_operations st1)) st1
        = (event, st2)"
      and cr: "(Inr (r, True), ev, st') = commit_or_restore None (checkpointLocked st) (r', True) (Some event) st2"
    have "r = r'" "os_operations st' = os_operations st2" "os_closed st' = os_closed st2"
      using cr by (simp_all add: commit_or_restore_eq)
    then show ?created
      using logged_sel(3,6) [OF lg] pruneLocked_sel(5) [OF pr] \<open>\<not> os_closed st\<close> r' by (simp add: new_record_def)
  qed (auto simp: commit_or_restore_eq split: if_splits)
qed



text \<open>C12: opening the store succeeds exactly when the path is set, the file is absent or a
  readable snapshot of the supported schema, and the recovered state, if anything had to be
  recovered or pruned, could be written; whatever the file held, every operation of the
  opened store is one of the file, in a terminal state, those interrupted being failed, or
  expired when their time is up or their policy says so, and the table is within capacity.\<close>

theorem open_recovers:
  "(Store_Open None file t1 t2 options \<in> range Inr \<longleftrightarrow>
      trim_space (oo_Path options) \<noteq> '''' \<and> is_ok (loadPersisted file))
   \<and> (Store_Open io file t1 t2 options = Inr st \<longrightarrow>
      (\<exists>p. loadPersisted file = Inr p
        \<and> (\<forall>opid e'. map_of (os_operations st) opid = Some e' \<longrightarrow>
             (\<exists>e n. e \<in> set (ps_Operations p) \<and> or_ID (en_record e) = opid \<and> e' = recovered_entry t1 n e
                \<and> Terminal (or_State (en_record e')))))
      \<and> int (length (os_operations st)) \<le> oo_MaxOperations (os_options st))"
proof (intro conjI impI)
  show "Store_Open None file t1 t2 options \<in> range Inr \<longleftrightarrow>
      trim_space (oo_Path options) \<noteq> '''' \<and> is_ok (loadPersisted file)"
    by (auto simp: Store_Open_def Let_def store_persistLocked_eq is_ok_def split: if_splits sum.splits prod.splits option.splits)
  assume op: "Store_Open io file t1 t2 options = Inr st"
  then obtain p where load: "loadPersisted file = Inr p" using Store_Open_cases [OF op] by metis
  note eff = Store_Open_effect [OF op load]
  show "int (length (os_operations st)) \<le> oo_MaxOperations (os_options st)" by (rule eff(5))
  show "\<exists>p. loadPersisted file = Inr p
        \<and> (\<forall>opid e'. map_of (os_operations st) opid = Some e' \<longrightarrow>
             (\<exists>e n. e \<in> set (ps_Operations p) \<and> or_ID (en_record e) = opid \<and> e' = recovered_entry t1 n e
                \<and> Terminal (or_State (en_record e'))))"
    using load eff(4) [OF map_of_SomeD] recovered_entry_terminal by metis
qed

theorem open_recovers_witness:
  "\<exists>st e. Store_Open None (os_disk sample_created) 40 40 sample_op_options = Inr st
     \<and> map_of (os_operations st) ''op_1'' = Some e \<and> Terminal (or_State (en_record e))"
proof -
  define o1 where "o1 = Store_Open None (os_disk sample_created) 40 40 sample_op_options"
  have "case o1 of Inr st \<Rightarrow> map_of (os_operations st) ''op_1'' \<noteq> None | Inl _ \<Rightarrow> False" unfolding o1_def by code_simp
  then obtain st e where st: "o1 = Inr st" and e: "map_of (os_operations st) ''op_1'' = Some e"
    by (auto split: sum.splits)
  show ?thesis
    using open_recovers [of "os_disk sample_created" 40 40 sample_op_options None st] st e unfolding o1_def by blast
qed

end
