(* ===== verification/Resilience.thy ===== *)
theory Resilience
  imports Go_Prelude
begin

text \<open>
  The request infrastructure of \<open>src/proxy.go\<close>: the circuit breaker each provider holds, the
  bounded retry of upstream requests, the collapsing of identical concurrent requests and
  the worker pool. The breaker is a state machine whose methods run under its mutex; the
  other two concurrent structures are transition systems whose steps are the regions
  between two synchronisations.
\<close>

section \<open>Circuit breaker\<close>

datatype circuit_state = CircuitClosed | CircuitOpen | CircuitHalfOpen

record circuit_breaker =
  cb_failureCount :: nat
  cb_lastFailureTime :: gotime
  cb_state :: circuit_state
  cb_timeout :: duration
  cb_probeInFlight :: bool

definition circuitBreakerFailureThreshold :: nat where "circuitBreakerFailureThreshold = 5"

definition canExecute :: "gotime \<Rightarrow> circuit_breaker \<Rightarrow> bool \<times> circuit_breaker" where
  "canExecute now cb =
     (case cb_state cb of
        CircuitClosed \<Rightarrow> (True, cb)
      | CircuitOpen \<Rightarrow>
          if now - cb_lastFailureTime cb > cb_timeout cb
          then (True, cb\<lparr>cb_state := CircuitHalfOpen, cb_probeInFlight := True\<rparr>)
          else (False, cb)
      | CircuitHalfOpen \<Rightarrow>
          if cb_probeInFlight cb then (False, cb) else (True, cb\<lparr>cb_probeInFlight := True\<rparr>))"

definition onSuccess :: "circuit_breaker \<Rightarrow> circuit_breaker" where
  "onSuccess cb = cb\<lparr>cb_failureCount := 0, cb_state := CircuitClosed, cb_probeInFlight := False\<rparr>"

definition onFailure :: "gotime \<Rightarrow> circuit_breaker \<Rightarrow> circuit_breaker" where
  "onFailure now cb =
     (let n = (if cb_state cb = CircuitHalfOpen then circuitBreakerFailureThreshold else cb_failureCount cb + 1);
          cb = cb\<lparr>cb_failureCount := n, cb_lastFailureTime := now, cb_probeInFlight := False\<rparr>
      in if n \<ge> circuitBreakerFailureThreshold then cb\<lparr>cb_state := CircuitOpen\<rparr> else cb)"

definition new_breaker :: "duration \<Rightarrow> circuit_breaker" where
  "new_breaker timeout = \<lparr>cb_failureCount = 0, cb_lastFailureTime = zero_time, cb_state = CircuitClosed,
     cb_timeout = timeout, cb_probeInFlight = False\<rparr>"

text \<open>The calls a breaker receives, in the order of its mutex, with the answers it gave.\<close>

datatype breaker_call = CanExecute gotime | OnSuccess | OnFailure gotime

fun apply_call :: "breaker_call \<Rightarrow> circuit_breaker \<Rightarrow> bool option \<times> circuit_breaker" where
  "apply_call (CanExecute now) cb = (case canExecute now cb of (ok, cb) \<Rightarrow> (Some ok, cb))"
| "apply_call OnSuccess cb = (None, onSuccess cb)"
| "apply_call (OnFailure now) cb = (None, onFailure now cb)"

fun breaker_run :: "breaker_call list \<Rightarrow> circuit_breaker \<Rightarrow> bool list \<times> circuit_breaker" where
  "breaker_run [] cb = ([], cb)"
| "breaker_run (c # cs) cb =
     (case apply_call c cb of (ans, cb) \<Rightarrow>
       case breaker_run cs cb of (oks, cb) \<Rightarrow> ((case ans of None \<Rightarrow> oks | Some ok \<Rightarrow> ok # oks), cb))"

text \<open>The breaker is open only from the threshold on, closed only below it, and a probe is in
  flight only while it is half open.\<close>

definition breaker_inv :: "circuit_breaker \<Rightarrow> bool" where
  "breaker_inv cb \<longleftrightarrow>
     (case cb_state cb of
        CircuitClosed \<Rightarrow> cb_failureCount cb < circuitBreakerFailureThreshold \<and> \<not> cb_probeInFlight cb
      | CircuitOpen \<Rightarrow> cb_failureCount cb \<ge> circuitBreakerFailureThreshold \<and> \<not> cb_probeInFlight cb
      | CircuitHalfOpen \<Rightarrow> cb_failureCount cb \<ge> circuitBreakerFailureThreshold \<and> cb_probeInFlight cb)"

lemma canExecute_inv: "breaker_inv cb \<Longrightarrow> breaker_inv (snd (canExecute now cb))"
  by (simp add: breaker_inv_def canExecute_def split: circuit_state.splits)

lemma onSuccess_inv: "breaker_inv (onSuccess cb)"
  by (simp add: breaker_inv_def onSuccess_def circuitBreakerFailureThreshold_def)

lemma onFailure_inv: "breaker_inv cb \<Longrightarrow> breaker_inv (onFailure now cb)"
  by (simp add: breaker_inv_def onFailure_def Let_def split: circuit_state.splits)

lemma apply_call_inv: "breaker_inv cb \<Longrightarrow> breaker_inv (snd (apply_call c cb))"
  by (cases c) (simp_all add: canExecute_inv onSuccess_inv onFailure_inv case_prod_unfold)

lemma breaker_run_snd: "snd (breaker_run cs cb) = fold (\<lambda>c cb. snd (apply_call c cb)) cs cb"
  by (induction cs arbitrary: cb) (simp_all add: case_prod_unfold)

lemma breaker_run_inv: "breaker_inv cb \<Longrightarrow> breaker_inv (snd (breaker_run cs cb))"
  unfolding breaker_run_snd by (induction cs arbitrary: cb) (simp_all add: apply_call_inv)

lemma new_breaker_inv: "breaker_inv (new_breaker t)"
  by (simp add: breaker_inv_def new_breaker_def circuitBreakerFailureThreshold_def)

text \<open>Asking again while a probe is in flight is refused and changes nothing.\<close>

lemma probe_refuses:
  "cb_state cb = CircuitHalfOpen \<Longrightarrow> cb_probeInFlight cb \<Longrightarrow>
     breaker_run (map CanExecute ts) cb = (map (\<lambda>_. False) ts, cb)"
  by (induction ts) (simp_all add: canExecute_def)

lemma open_refuses:
  "cb_state cb = CircuitOpen \<Longrightarrow> list_all (\<lambda>t. t - cb_lastFailureTime cb \<le> cb_timeout cb) ts \<Longrightarrow>
     breaker_run (map CanExecute ts) cb = (map (\<lambda>_. False) ts, cb)"
  by (induction ts) (simp_all add: canExecute_def)

text \<open>After any history, the breaker is half open exactly when a probe is in flight; while it
  is, every request is refused, however long one waits, until the outcome of some request is
  reported: success closes the breaker, failure opens it again for the whole timeout.\<close>

theorem breaker_protocol:
  assumes "snd (breaker_run history (new_breaker timeout)) = cb"
  shows "(cb_state cb = CircuitHalfOpen \<longleftrightarrow> cb_probeInFlight cb)
    \<and> (cb_state cb = CircuitHalfOpen \<longrightarrow>
         breaker_run (map CanExecute ts) cb = (map (\<lambda>_. False) ts, cb)
         \<and> fst (canExecute now (onSuccess cb))
         \<and> cb_state (onFailure now cb) = CircuitOpen
         \<and> (list_all (\<lambda>t. t - now \<le> timeout) ts \<longrightarrow>
              breaker_run (map CanExecute ts) (onFailure now cb) = (map (\<lambda>_. False) ts, onFailure now cb)))
    \<and> (cb_state cb = CircuitClosed \<longleftrightarrow> cb_failureCount cb < circuitBreakerFailureThreshold)"
proof -
  have inv: "breaker_inv cb" using breaker_run_inv [OF new_breaker_inv] assms by blast
  have "cb_timeout (snd (apply_call c b)) = cb_timeout b" for c b
    by (cases c) (auto simp: canExecute_def onSuccess_def onFailure_def Let_def split: circuit_state.split)
  then have "cb_timeout (snd (breaker_run cs b)) = cb_timeout b" for cs b
    unfolding breaker_run_snd by (induction cs arbitrary: b) simp_all
  then have to: "cb_timeout cb = timeout" using assms by (auto simp: new_breaker_def)
  have half: "cb_state cb = CircuitHalfOpen \<longleftrightarrow> cb_probeInFlight cb"
    and closed: "cb_state cb = CircuitClosed \<longleftrightarrow> cb_failureCount cb < circuitBreakerFailureThreshold"
    using inv by (auto simp: breaker_inv_def split: circuit_state.splits)
  moreover have "cb_state (onFailure now cb) = CircuitOpen" "cb_lastFailureTime (onFailure now cb) = now"
    "cb_timeout (onFailure now cb) = timeout" if "cb_state cb = CircuitHalfOpen"
    using that to by (simp_all add: onFailure_def Let_def)
  ultimately show ?thesis
    using probe_refuses [of cb ts] open_refuses [of "onFailure now cb" ts]
    by (simp add: canExecute_def onSuccess_def)
qed

theorem breaker_protocol_witness:
  "fst (breaker_run [OnFailure 1, OnFailure 2, OnFailure 3, OnFailure 4, OnFailure 5, CanExecute 9, CanExecute 60, CanExecute 900]
     (new_breaker 30)) = [False, True, False]
   \<and> cb_state (snd (breaker_run [OnFailure 1, OnFailure 2, OnFailure 3, OnFailure 4, OnFailure 5, CanExecute 60] (new_breaker 30)))
      = CircuitHalfOpen
   \<and> breaker_run (map CanExecute [900]) (snd (breaker_run [OnFailure 1, OnFailure 2, OnFailure 3, OnFailure 4, OnFailure 5, CanExecute 60] (new_breaker 30)))
      = ([False], snd (breaker_run [OnFailure 1, OnFailure 2, OnFailure 3, OnFailure 4, OnFailure 5, CanExecute 60] (new_breaker 30)))"
proof -
  let ?cb = "snd (breaker_run [OnFailure 1, OnFailure 2, OnFailure 3, OnFailure 4, OnFailure 5, CanExecute 60] (new_breaker 30))"
  have "cb_state ?cb = CircuitHalfOpen" by code_simp
  moreover have "fst (breaker_run [OnFailure 1, OnFailure 2, OnFailure 3, OnFailure 4, OnFailure 5, CanExecute 9, CanExecute 60, CanExecute 900]
     (new_breaker 30)) = [False, True, False]" by code_simp
  ultimately show ?thesis using breaker_protocol [OF refl, where ts = "[900]"] by (simp only: list.map)
qed

section \<open>Bounded retry\<close>

text \<open>
  \<open>client.Do\<close> on attempt \<open>n\<close> is \<open>send n\<close>, an error or a status; \<open>cancelled n\<close> is the error of
  the context when it is done before the back-off after attempt \<open>n\<close> is over. The effects
  are the attempts sent, the response bodies closed and the back-offs waited for.
\<close>

definition maxChatRetries :: nat where "maxChatRetries = 3"
definition baseChatRetryDelay :: nat where "baseChatRetryDelay = 1"

definition isRetriableError :: "int \<Rightarrow> string option \<Rightarrow> bool" where
  "isRetriableError statusCode err \<longleftrightarrow> err \<noteq> None \<or> statusCode \<ge> 500 \<or> statusCode = 408"

record upstream_request =
  ur_Method :: string
  ur_IdempotencyKey :: string

record upstream =
  up_new_request :: "nat \<Rightarrow> string option"
  up_send :: "nat \<Rightarrow> string + int"
  up_cancelled :: "nat \<Rightarrow> string option"

record retry_effects =
  re_sent :: "nat list"
  re_closed :: "nat list"
  re_waited :: "duration list"

datatype retry_outcome = RetryResponse nat int | RetryError string | NoResponse

definition retry_backoff :: "nat \<Rightarrow> duration" where
  "retry_backoff attempt = int (baseChatRetryDelay * attempt * attempt) * second"

function retry_loop :: "upstream \<Rightarrow> bool \<Rightarrow> nat \<Rightarrow> retry_effects \<Rightarrow> retry_outcome \<Rightarrow> retry_outcome \<times> retry_effects" where
  "retry_loop u retryAllowed attempt fx last_outcome =
     (if attempt > maxChatRetries then (last_outcome, fx)
      else case up_new_request u attempt of
        Some e \<Rightarrow> (RetryError e, fx)
      | None \<Rightarrow>
        (let fx = fx\<lparr>re_sent := re_sent fx @ [attempt]\<rparr> in
         case up_send u attempt of
           Inl e \<Rightarrow>
             if \<not> retryAllowed \<or> attempt = maxChatRetries then (RetryError e, fx)
             else (case up_cancelled u attempt of
                 Some ce \<Rightarrow> (RetryError ce, fx)
               | None \<Rightarrow> retry_loop u retryAllowed (attempt + 1)
                   (fx\<lparr>re_waited := re_waited fx @ [retry_backoff attempt]\<rparr>)
                   (case last_outcome of RetryResponse n s \<Rightarrow> RetryResponse n s | _ \<Rightarrow> RetryError e))
         | Inr status \<Rightarrow>
             if \<not> isRetriableError status None \<or> \<not> retryAllowed \<or> attempt = maxChatRetries
             then (RetryResponse attempt status, fx)
             else (let fx = fx\<lparr>re_closed := re_closed fx @ [attempt]\<rparr> in
               case up_cancelled u attempt of
                 Some ce \<Rightarrow> (RetryError ce, fx)
               | None \<Rightarrow> retry_loop u retryAllowed (attempt + 1)
                   (fx\<lparr>re_waited := re_waited fx @ [retry_backoff attempt]\<rparr>) (RetryResponse attempt status))))"
  by pat_completeness auto
termination
  by (relation "measure (\<lambda>(u, r, attempt, fx, l). Suc maxChatRetries - attempt)") (auto simp: maxChatRetries_def)

declare retry_loop.simps [simp del]

definition makeRequestWithRetry :: "upstream \<Rightarrow> upstream_request \<Rightarrow> retry_outcome \<times> retry_effects" where
  "makeRequestWithRetry u req =
     (let safeMethod = (ur_Method req = ''GET'' \<or> ur_Method req = ''HEAD'');
          retryAllowed = (safeMethod \<or> ur_IdempotencyKey req \<noteq> '''')
      in retry_loop u retryAllowed 1 \<lparr>re_sent = [], re_closed = [], re_waited = []\<rparr> NoResponse)"

text \<open>The loop as a specification: try the attempts in turn and stop at the first one that is
  not to be retried.\<close>

definition retried :: "upstream \<Rightarrow> bool \<Rightarrow> nat \<Rightarrow> bool" where
  "retried u allowed n \<longleftrightarrow> allowed \<and> n < maxChatRetries \<and> up_new_request u n = None \<and> up_cancelled u n = None
     \<and> (case up_send u n of Inl _ \<Rightarrow> True | Inr status \<Rightarrow> isRetriableError status None)"

definition final_outcome :: "upstream \<Rightarrow> bool \<Rightarrow> nat \<Rightarrow> retry_outcome" where
  "final_outcome u allowed n =
     (case up_new_request u n of
        Some e \<Rightarrow> RetryError e
      | None \<Rightarrow>
        (case up_send u n of
           Inl e \<Rightarrow> (if \<not> allowed \<or> n = maxChatRetries then RetryError e
                     else case up_cancelled u n of Some ce \<Rightarrow> RetryError ce | None \<Rightarrow> RetryError e)
         | Inr status \<Rightarrow> (if \<not> isRetriableError status None \<or> \<not> allowed \<or> n = maxChatRetries then RetryResponse n status
                          else case up_cancelled u n of Some ce \<Rightarrow> RetryError ce | None \<Rightarrow> RetryResponse n status)))"

definition discarded :: "upstream \<Rightarrow> bool \<Rightarrow> nat \<Rightarrow> bool" where
  "discarded u allowed n \<longleftrightarrow> up_new_request u n = None \<and> allowed \<and> n < maxChatRetries
     \<and> (case up_send u n of Inl _ \<Rightarrow> False | Inr status \<Rightarrow> isRetriableError status None)"

lemma retry_loop_stop:
  assumes "n \<le> maxChatRetries" and "\<not> retried u allowed n"
  shows "retry_loop u allowed n fx l =
    (final_outcome u allowed n,
     \<lparr>re_sent = re_sent fx @ (if up_new_request u n = None then [n] else []),
      re_closed = re_closed fx @ (if discarded u allowed n then [n] else []), re_waited = re_waited fx\<rparr>)"
proof (cases "up_new_request u n")
  case (Some e)
  then show ?thesis using assms(1) by (simp add: retry_loop.simps [of u allowed n] final_outcome_def discarded_def)
next
  case None
  then show ?thesis
    using assms by (cases "up_send u n"; cases "up_cancelled u n")
      (auto simp: retry_loop.simps [of u allowed n] final_outcome_def discarded_def retried_def Let_def)
qed

lemma retry_loop_spec:
  assumes "n \<le> maxChatRetries"
  shows "\<exists>k. n \<le> k \<and> k \<le> maxChatRetries \<and> (\<forall>i. n \<le> i \<longrightarrow> i < k \<longrightarrow> retried u allowed i) \<and> \<not> retried u allowed k
    \<and> retry_loop u allowed n fx l =
       (final_outcome u allowed k,
        \<lparr>re_sent = re_sent fx @ [n..<k] @ (if up_new_request u k = None then [k] else []),
         re_closed = re_closed fx @ filter (discarded u allowed) [n..<Suc k],
         re_waited = re_waited fx @ map retry_backoff [n..<k]\<rparr>)"
  using assms
proof (induction "maxChatRetries - n" arbitrary: n fx l)
  case 0
  then have "n = maxChatRetries" by simp
  then show ?case
    using retry_loop_stop [of n u allowed fx l] by (intro exI [of _ n]) (simp add: retried_def)
next
  case (Suc m)
  show ?case
  proof (cases "retried u allowed n")
    case False
    then show ?thesis using Suc.prems retry_loop_stop [of n u allowed fx l] by (intro exI [of _ n]) simp
  next
    case True
    then have n: "n < maxChatRetries" "up_new_request u n = None" "up_cancelled u n = None" "allowed" by (simp_all add: retried_def)
    define fx' where "fx' = \<lparr>re_sent = re_sent fx @ [n], re_closed = re_closed fx @ (if discarded u allowed n then [n] else []),
      re_waited = re_waited fx @ [retry_backoff n]\<rparr>"
    have "\<exists>l'. retry_loop u allowed n fx l = retry_loop u allowed (Suc n) fx' l'"
      using n True by (cases "up_send u n"; cases fx) (auto simp: retry_loop.simps [of u _ n] fx'_def discarded_def retried_def Let_def)
    then obtain l' where step: "retry_loop u allowed n fx l = retry_loop u allowed (Suc n) fx' l'" ..
    have "m = maxChatRetries - Suc n" "Suc n \<le> maxChatRetries" using Suc.hyps(2) n(1) by simp_all
    then obtain k where k: "Suc n \<le> k" "k \<le> maxChatRetries" "\<forall>i. Suc n \<le> i \<longrightarrow> i < k \<longrightarrow> retried u allowed i" "\<not> retried u allowed k"
      "retry_loop u allowed (Suc n) fx' l' =
       (final_outcome u allowed k,
        \<lparr>re_sent = re_sent fx' @ [Suc n..<k] @ (if up_new_request u k = None then [k] else []),
         re_closed = re_closed fx' @ filter (discarded u allowed) [Suc n..<Suc k],
         re_waited = re_waited fx' @ map retry_backoff [Suc n..<k]\<rparr>)"
      using Suc.hyps(1) [of "Suc n" fx' l'] by blast
    have up: "[n..<k] = n # [Suc n..<k]" "[n..<Suc k] = n # [Suc n..<Suc k]" using k(1) by (simp_all add: upt_conv_Cons)
    have "\<forall>i. n \<le> i \<longrightarrow> i < k \<longrightarrow> retried u allowed i" using k(3) True by (metis Suc_leI le_neq_implies_less)
    moreover have "n \<le> k" using k(1) by simp
    ultimately show ?thesis
      unfolding step k(5) using k(2,4) by (intro exI [of _ k]) (simp add: fx'_def up del: upt_Suc)
  qed
qed

lemma retry_backoff_total: "k \<le> maxChatRetries \<Longrightarrow> sum_list (map retry_backoff [1..<k]) \<le> 5 * second"
proof -
  assume "k \<le> maxChatRetries"
  then have "k = 0 \<or> k = 1 \<or> k = 2 \<or> k = 3" by (auto simp: maxChatRetries_def)
  moreover have "[1..<2] = [1 :: nat]" "[1..<3] = [1, 2 :: nat]" by code_simp+
  ultimately show ?thesis by (elim disjE) (simp_all add: retry_backoff_def baseChatRetryDelay_def second_def)
qed

text \<open>C38: a request is sent at most three times, with at most five seconds of waiting between;
  without a safe method or an idempotency key it is sent at most once; attempt \<open>k\<close> is the
  last exactly when every earlier one failed in a retriable way with the context still
  alive; the outcome is that of the last attempt, and the bodies closed are exactly those of
  the responses that are not returned.\<close>

theorem retry_bounded:
  "\<exists>k. 1 \<le> k \<and> k \<le> 3 \<and>
     (let allowed = (ur_Method req = ''GET'' \<or> ur_Method req = ''HEAD'' \<or> ur_IdempotencyKey req \<noteq> '''');
          (out, fx) = makeRequestWithRetry u req
      in out = final_outcome u allowed k
         \<and> re_sent fx = [1..<k] @ (if up_new_request u k = None then [k] else [])
         \<and> list_all (retried u allowed) [1..<k] \<and> \<not> retried u allowed k
         \<and> re_closed fx = filter (discarded u allowed) [1..<Suc k]
         \<and> sum_list (re_waited fx) \<le> 5 * second
         \<and> (allowed \<or> k = 1)
         \<and> (case out of RetryResponse n status \<Rightarrow> n = k \<and> up_send u k = Inr status \<and> n \<notin> set (re_closed fx) | _ \<Rightarrow> True))"
proof -
  define allowed where "allowed \<longleftrightarrow> ur_Method req = ''GET'' \<or> ur_Method req = ''HEAD'' \<or> ur_IdempotencyKey req \<noteq> ''''"
  obtain k where k: "1 \<le> k" "k \<le> maxChatRetries" "\<forall>i. 1 \<le> i \<longrightarrow> i < k \<longrightarrow> retried u allowed i" "\<not> retried u allowed k"
    and run: "retry_loop u allowed 1 \<lparr>re_sent = [], re_closed = [], re_waited = []\<rparr> NoResponse =
       (final_outcome u allowed k,
        \<lparr>re_sent = [1..<k] @ (if up_new_request u k = None then [k] else []),
         re_closed = filter (discarded u allowed) [1..<Suc k], re_waited = map retry_backoff [1..<k]\<rparr>)"
    using retry_loop_spec [of 1 u allowed "\<lparr>re_sent = [], re_closed = [], re_waited = []\<rparr>" NoResponse]
    by (auto simp: maxChatRetries_def simp del: upt_Suc)
  have mk: "makeRequestWithRetry u req = retry_loop u allowed 1 \<lparr>re_sent = [], re_closed = [], re_waited = []\<rparr> NoResponse"
    by (simp add: makeRequestWithRetry_def allowed_def Let_def)
  have "retried u allowed 1" if "k \<noteq> 1" using k(1,3) that by simp
  then have single: "allowed \<or> k = 1" by (auto simp: retried_def)
  have resp: "n = k \<and> up_send u k = Inr status \<and> \<not> discarded u allowed k" if "final_outcome u allowed k = RetryResponse n status" for n status
    using that k(4) by (auto simp: final_outcome_def discarded_def retried_def split: option.splits sum.splits if_splits)
  show ?thesis
    unfolding allowed_def [symmetric] Let_def mk run prod.case
    using k single resp retry_backoff_total [OF k(2)]
    by (intro exI [of _ k]) (auto simp: maxChatRetries_def list_all_iff split: retry_outcome.split simp del: upt_Suc)
qed

theorem retry_bounded_witness:
  "\<exists>k. 1 \<le> k \<and> k \<le> 3 \<and> re_sent (snd (makeRequestWithRetry
      \<lparr>up_new_request = (\<lambda>_. None), up_send = (\<lambda>n. Inr 503), up_cancelled = (\<lambda>_. None)\<rparr>
      \<lparr>ur_Method = ''POST'', ur_IdempotencyKey = ''''\<rparr>)) = [1..<k] @ [k] \<and> k = 1"
proof -
  let ?u = "\<lparr>up_new_request = (\<lambda>_. None), up_send = (\<lambda>n. Inr 503), up_cancelled = (\<lambda>_. None)\<rparr>"
  show ?thesis
    using retry_bounded [of "\<lparr>ur_Method = ''POST'', ur_IdempotencyKey = ''''\<rparr>" ?u] by (auto simp: Let_def case_prod_unfold)
qed

section \<open>Collapsing identical requests\<close>

text \<open>
  \<open>CoalesceRequest\<close>: an entry is its key and, once its channel is closed, its result. A
  caller leads an entry, has finished it and is about to remove it, waits for it, or has
  returned. The function values produced so far are recorded in \<open>cc_runs\<close>.
\<close>

datatype 'v coalescing_caller =
    Leading string nat | Removing string nat | Waiting string nat | Answered string 'v

record 'v coalescing_cache =
  cc_requests :: "(string, nat) gomap"
  cc_entries :: "(string \<times> 'v option) list"
  cc_callers :: "'v coalescing_caller list"
  cc_runs :: "(string \<times> 'v) set"

definition NewCoalescingCache :: "'v coalescing_cache" where
  "NewCoalescingCache = \<lparr>cc_requests = [], cc_entries = [], cc_callers = [], cc_runs = {}\<rparr>"

definition coalesce_enter :: "string \<Rightarrow> 'v coalescing_cache \<Rightarrow> 'v coalescing_cache" where
  "coalesce_enter key c =
     (case map_of (cc_requests c) key of
        Some e \<Rightarrow> c\<lparr>cc_callers := cc_callers c @ [Waiting key e]\<rparr>
      | None \<Rightarrow>
          let e = length (cc_entries c)
          in c\<lparr>cc_entries := cc_entries c @ [(key, None)], cc_requests := AList.update key e (cc_requests c),
               cc_callers := cc_callers c @ [Leading key e]\<rparr>)"

definition coalesce_finish :: "nat \<Rightarrow> string \<Rightarrow> nat \<Rightarrow> 'v \<Rightarrow> 'v coalescing_cache \<Rightarrow> 'v coalescing_cache" where
  "coalesce_finish i key e v c =
     c\<lparr>cc_entries := (cc_entries c)[e := (key, Some v)], cc_callers := (cc_callers c)[i := Removing key e],
       cc_runs := insert (key, v) (cc_runs c)\<rparr>"

definition coalesce_remove :: "nat \<Rightarrow> string \<Rightarrow> 'v \<Rightarrow> 'v coalescing_cache \<Rightarrow> 'v coalescing_cache" where
  "coalesce_remove i key v c =
     c\<lparr>cc_requests := AList.delete key (cc_requests c), cc_callers := (cc_callers c)[i := Answered key v]\<rparr>"

definition coalesce_wake :: "nat \<Rightarrow> string \<Rightarrow> 'v \<Rightarrow> 'v coalescing_cache \<Rightarrow> 'v coalescing_cache" where
  "coalesce_wake i key v c = c\<lparr>cc_callers := (cc_callers c)[i := Answered key v]\<rparr>"

inductive coalesce_step :: "'v coalescing_cache \<Rightarrow> 'v coalescing_cache \<Rightarrow> bool" where
  co_enter: "coalesce_step c (coalesce_enter key c)"
| co_finish: "i < length (cc_callers c) \<Longrightarrow> cc_callers c ! i = Leading key e \<Longrightarrow> coalesce_step c (coalesce_finish i key e v c)"
| co_remove: "i < length (cc_callers c) \<Longrightarrow> cc_callers c ! i = Removing key e \<Longrightarrow> e < length (cc_entries c) \<Longrightarrow>
    snd (cc_entries c ! e) = Some v \<Longrightarrow> coalesce_step c (coalesce_remove i key v c)"
| co_wake: "i < length (cc_callers c) \<Longrightarrow> cc_callers c ! i = Waiting key e \<Longrightarrow> e < length (cc_entries c) \<Longrightarrow>
    snd (cc_entries c ! e) = Some v \<Longrightarrow> coalesce_step c (coalesce_wake i key v c)"

fun owns :: "'v coalescing_caller \<Rightarrow> (string \<times> nat) option" where
  "owns (Leading k e) = Some (k, e)"
| "owns (Removing k e) = Some (k, e)"
| "owns _ = None"

text \<open>What is true of one caller, given the map, the entries and the runs.\<close>

definition caller_ok :: "'v coalescing_cache \<Rightarrow> 'v coalescing_caller \<Rightarrow> bool" where
  "caller_ok c w \<longleftrightarrow>
     (case w of
        Leading k e \<Rightarrow> map_of (cc_requests c) k = Some e \<and> e < length (cc_entries c) \<and> cc_entries c ! e = (k, None)
      | Removing k e \<Rightarrow> map_of (cc_requests c) k = Some e \<and> e < length (cc_entries c)
          \<and> (\<exists>v. cc_entries c ! e = (k, Some v))
      | Waiting k e \<Rightarrow> e < length (cc_entries c) \<and> fst (cc_entries c ! e) = k
      | Answered k v \<Rightarrow> (k, v) \<in> cc_runs c)"

definition owners_unique :: "'v coalescing_caller list \<Rightarrow> bool" where
  "owners_unique ws \<longleftrightarrow> (\<forall>i < length ws. \<forall>j < length ws. \<forall>k e e'.
     owns (ws ! i) = Some (k, e) \<longrightarrow> owns (ws ! j) = Some (k, e') \<longrightarrow> i = j)"

definition entry_served :: "'v coalescing_cache \<Rightarrow> nat \<Rightarrow> bool" where
  "entry_served c e \<longleftrightarrow>
     (case cc_entries c ! e of (k, None) \<Rightarrow> Leading k e \<in> set (cc_callers c) | (k, Some v) \<Rightarrow> (k, v) \<in> cc_runs c)"

definition coalesce_inv :: "'v coalescing_cache \<Rightarrow> bool" where
  "coalesce_inv c \<longleftrightarrow>
     (\<forall>i < length (cc_callers c). caller_ok c (cc_callers c ! i))
     \<and> owners_unique (cc_callers c)
     \<and> (\<forall>k e. map_of (cc_requests c) k = Some e \<longrightarrow> e < length (cc_entries c) \<and> fst (cc_entries c ! e) = k)
     \<and> (\<forall>e < length (cc_entries c). entry_served c e)"

lemma caller_okD: "coalesce_inv c \<Longrightarrow> i < length (cc_callers c) \<Longrightarrow> caller_ok c (cc_callers c ! i)"
  by (simp add: coalesce_inv_def)

lemma coalesce_invI:
  "(\<And>i. i < length (cc_callers c) \<Longrightarrow> caller_ok c (cc_callers c ! i)) \<Longrightarrow> owners_unique (cc_callers c) \<Longrightarrow>
   (\<And>k e. map_of (cc_requests c) k = Some e \<Longrightarrow> e < length (cc_entries c) \<and> fst (cc_entries c ! e) = k) \<Longrightarrow>
   (\<And>e. e < length (cc_entries c) \<Longrightarrow> entry_served c e) \<Longrightarrow> coalesce_inv c"
  by (simp add: coalesce_inv_def)

lemma requestsD: "coalesce_inv c \<Longrightarrow> map_of (cc_requests c) k = Some e \<Longrightarrow> e < length (cc_entries c) \<and> fst (cc_entries c ! e) = k"
  by (simp add: coalesce_inv_def)

lemma owners_unique_snoc:
  "owners_unique ws \<Longrightarrow> (\<And>k e. owns w = Some (k, e) \<Longrightarrow> \<forall>x \<in> set ws. \<forall>e'. owns x \<noteq> Some (k, e')) \<Longrightarrow> owners_unique (ws @ [w])"
  unfolding owners_unique_def by (auto simp: nth_append less_Suc_eq split: if_splits)

lemma owners_unique_update:
  "owners_unique ws \<Longrightarrow> owns w = None \<or> owns w = owns (ws ! i) \<Longrightarrow> owners_unique (ws[i := w])"
proof -
  assume uniq: "owners_unique ws" and w: "owns w = None \<or> owns w = owns (ws ! i)"
  have "owns (ws[i := w] ! j) = Some x \<Longrightarrow> owns (ws ! j) = Some x" for j x
    using w by (cases "j = i"; cases "i < length ws") (auto simp: list_update_beyond)
  then show ?thesis using uniq unfolding owners_unique_def by (metis length_list_update)
qed

lemma mem_update_other: "x \<in> set xs \<Longrightarrow> x \<noteq> xs ! i \<Longrightarrow> x \<in> set (xs[i := y])"
  by (metis in_set_conv_nth length_list_update nth_list_update_neq)

lemma coalesce_enter_inv:
  assumes "coalesce_inv c"
  shows "coalesce_inv (coalesce_enter key c)"
proof (cases "map_of (cc_requests c) key")
  case (Some e)
  have "owners_unique (cc_callers c @ [Waiting key e])"
    using assms by (intro owners_unique_snoc) (simp_all add: coalesce_inv_def)
  then show ?thesis using assms Some
    by (auto simp: coalesce_inv_def coalesce_enter_def Let_def caller_ok_def entry_served_def nth_append less_Suc_eq
        split: coalescing_caller.splits prod.splits option.splits)
next
  case None
  let ?e = "length (cc_entries c)"
  have callers: "caller_ok c w" if "w \<in> set (cc_callers c)" for w
    using assms that by (auto simp: coalesce_inv_def in_set_conv_nth)
  have "owns w \<noteq> Some (key, e')" if "w \<in> set (cc_callers c)" for w e'
    using callers [OF that] None by (cases w) (auto simp: caller_ok_def)
  then have uniq: "owners_unique (cc_callers c @ [Leading key ?e])"
    using assms by (intro owners_unique_snoc) (auto simp: coalesce_inv_def)
  have old: "caller_ok (coalesce_enter key c) w" if "w \<in> set (cc_callers c)" for w
    using callers [OF that] None by (cases w) (auto simp: caller_ok_def coalesce_enter_def Let_def nth_append)
  have new: "caller_ok (coalesce_enter key c) (Leading key ?e)"
    using None by (simp add: caller_ok_def coalesce_enter_def Let_def)
  have served: "entry_served (coalesce_enter key c) e" if "e < Suc ?e" for e
    using assms that None
    by (auto simp: coalesce_inv_def entry_served_def coalesce_enter_def Let_def nth_append less_Suc_eq split: prod.splits option.splits)
  show ?thesis
    unfolding coalesce_inv_def using None uniq old new served assms
    by (auto simp: coalesce_enter_def Let_def nth_append less_Suc_eq coalesce_inv_def)
qed

lemma coalesce_finish_inv:
  assumes inv: "coalesce_inv c" and i: "i < length (cc_callers c)" and lead: "cc_callers c ! i = Leading key e"
  shows "coalesce_inv (coalesce_finish i key e v c)"
proof -
  have e: "e < length (cc_entries c)" "cc_entries c ! e = (key, None)" "map_of (cc_requests c) key = Some e"
    using caller_okD [OF inv i] lead by (auto simp: caller_ok_def)
  have uniq: "owners_unique (cc_callers c)" using inv by (simp add: coalesce_inv_def)
  have other: "caller_ok (coalesce_finish i key e v c) (cc_callers c ! j)" if j: "j < length (cc_callers c)" "j \<noteq> i" for j
  proof -
    have ok: "caller_ok c (cc_callers c ! j)" using inv j by (simp add: coalesce_inv_def)
    have "owns (cc_callers c ! j) \<noteq> Some (key, e)"
      using uniq i j lead unfolding owners_unique_def by (metis owns.simps(1))
    then show ?thesis using ok e
      by (cases "cc_callers c ! j") (auto simp: caller_ok_def coalesce_finish_def nth_list_update)
  qed
  show ?thesis
  proof (rule coalesce_invI)
    fix j
    assume "j < length (cc_callers (coalesce_finish i key e v c))"
    then have "j < length (cc_callers c)" by (simp add: coalesce_finish_def)
    moreover have "caller_ok (coalesce_finish i key e v c) (Removing key e)"
      using e by (simp add: caller_ok_def coalesce_finish_def)
    moreover have "cc_callers (coalesce_finish i key e v c) = (cc_callers c)[i := Removing key e]"
      by (simp add: coalesce_finish_def)
    ultimately show "caller_ok (coalesce_finish i key e v c) (cc_callers (coalesce_finish i key e v c) ! j)"
      using other [of j] by (cases "j = i") simp_all
  next
    show "owners_unique (cc_callers (coalesce_finish i key e v c))"
      using owners_unique_update [OF uniq, of "Removing key e" i] lead by (simp add: coalesce_finish_def)
  next
    fix k e'
    assume "map_of (cc_requests (coalesce_finish i key e v c)) k = Some e'"
    then have "e' < length (cc_entries c) \<and> fst (cc_entries c ! e') = k" using requestsD [OF inv] by (simp add: coalesce_finish_def)
    then show "e' < length (cc_entries (coalesce_finish i key e v c)) \<and> fst (cc_entries (coalesce_finish i key e v c) ! e') = k"
      using e(2) by (cases "e' = e") (simp_all add: coalesce_finish_def)
  next
    fix e'
    assume "e' < length (cc_entries (coalesce_finish i key e v c))"
    then have "entry_served c e'" using inv by (simp add: coalesce_finish_def coalesce_inv_def)
    then show "entry_served (coalesce_finish i key e v c) e'"
      using e lead by (cases "e' = e")
        (auto simp: entry_served_def coalesce_finish_def mem_update_other split: prod.splits option.splits)
  qed
qed

lemma coalesce_remove_inv:
  assumes inv: "coalesce_inv c" and i: "i < length (cc_callers c)" and rem: "cc_callers c ! i = Removing key e"
    and v: "snd (cc_entries c ! e) = Some v"
  shows "coalesce_inv (coalesce_remove i key v c)"
proof -
  have e: "e < length (cc_entries c)" "cc_entries c ! e = (key, Some v)"
    using caller_okD [OF inv i] rem v by (auto simp: caller_ok_def)
  then have run: "(key, v) \<in> cc_runs c" using inv by (auto simp: coalesce_inv_def entry_served_def)
  have uniq: "owners_unique (cc_callers c)" using inv by (simp add: coalesce_inv_def)
  have "caller_ok (coalesce_remove i key v c) (cc_callers c ! j)" if j: "j < length (cc_callers c)" "j \<noteq> i" for j
  proof -
    have ok: "caller_ok c (cc_callers c ! j)" using inv j by (simp add: coalesce_inv_def)
    have "owns (cc_callers c ! j) \<noteq> Some (key, e')" for e'
      using uniq i j rem unfolding owners_unique_def by (metis owns.simps(2))
    then show ?thesis using ok
      by (cases "cc_callers c ! j") (auto simp: caller_ok_def coalesce_remove_def)
  qed
  moreover have "entry_served (coalesce_remove i key v c) e'" if "e' < length (cc_entries c)" for e'
  proof -
    have "entry_served c e'" using inv that by (simp add: coalesce_inv_def)
    then show ?thesis
      using rem by (auto simp: entry_served_def coalesce_remove_def mem_update_other split: prod.splits option.splits)
  qed
  moreover have "owners_unique ((cc_callers c)[i := Answered key v])"
    using uniq by (intro owners_unique_update) simp_all
  ultimately show ?thesis
    using inv i run unfolding coalesce_inv_def by (auto simp: coalesce_remove_def nth_list_update caller_ok_def [of _ "Answered _ _"])
qed

lemma coalesce_wake_inv:
  assumes inv: "coalesce_inv c" and i: "i < length (cc_callers c)" and wait: "cc_callers c ! i = Waiting key e"
    and v: "snd (cc_entries c ! e) = Some v"
  shows "coalesce_inv (coalesce_wake i key v c)"
proof -
  have e: "e < length (cc_entries c)" "cc_entries c ! e = (key, Some v)"
    using caller_okD [OF inv i] wait v by (auto simp: caller_ok_def prod_eq_iff)
  then have run: "(key, v) \<in> cc_runs c" using inv by (auto simp: coalesce_inv_def entry_served_def)
  have "caller_ok (coalesce_wake i key v c) w" if "caller_ok c w" for w
    using that by (cases w) (auto simp: caller_ok_def coalesce_wake_def)
  moreover have "entry_served (coalesce_wake i key v c) e'" if "entry_served c e'" for e'
    using that wait by (auto simp: entry_served_def coalesce_wake_def mem_update_other split: prod.splits option.splits)
  moreover have "owners_unique ((cc_callers c)[i := Answered key v])"
    using inv by (intro owners_unique_update) (simp_all add: coalesce_inv_def)
  ultimately show ?thesis
    using inv i run unfolding coalesce_inv_def by (auto simp: coalesce_wake_def nth_list_update caller_ok_def [of _ "Answered _ _"])
qed

interpretation coalescing: invariant_system "\<lambda>c. c = NewCoalescingCache" coalesce_step coalesce_inv
proof
  fix c d :: "'a coalescing_cache"
  show "c = NewCoalescingCache \<Longrightarrow> coalesce_inv c"
    by (simp add: NewCoalescingCache_def coalesce_inv_def owners_unique_def)
  show "coalesce_inv c \<Longrightarrow> coalesce_step c d \<Longrightarrow> coalesce_inv d"
    by (auto elim!: coalesce_step.cases intro: coalesce_enter_inv coalesce_finish_inv coalesce_remove_inv coalesce_wake_inv)
qed

text \<open>However callers interleave, at most one of them runs the function for a key at a time;
  every value returned for a key was produced by a run for that key; and a caller that waits
  is never stranded: its result is there or the run it waits for is still going on.\<close>

theorem coalescing_correct:
  assumes "reach coalesce_step NewCoalescingCache c"
  shows "(\<forall>i j k e e'. i < length (cc_callers c) \<longrightarrow> j < length (cc_callers c) \<longrightarrow>
            cc_callers c ! i = Leading k e \<longrightarrow> cc_callers c ! j = Leading k e' \<longrightarrow> i = j)
    \<and> (\<forall>k v. Answered k v \<in> set (cc_callers c) \<longrightarrow> (k, v) \<in> cc_runs c)
    \<and> (\<forall>k e. Waiting k e \<in> set (cc_callers c) \<longrightarrow>
         e < length (cc_entries c)
         \<and> (Leading k e \<in> set (cc_callers c) \<or> (\<exists>v. snd (cc_entries c ! e) = Some v \<and> (k, v) \<in> cc_runs c)))"
proof -
  have inv: "coalesce_inv c" using coalescing.reachable_invar [OF assms] by simp
  have ok: "caller_ok c w" if "w \<in> set (cc_callers c)" for w
    using caller_okD [OF inv] that by (metis in_set_conv_nth)
  have "owners_unique (cc_callers c)" using inv by (simp add: coalesce_inv_def)
  then have "i = j" if "i < length (cc_callers c)" "j < length (cc_callers c)" "cc_callers c ! i = Leading k e"
    "cc_callers c ! j = Leading k e'" for i j k e e'
    using that unfolding owners_unique_def by (metis owns.simps(1))
  moreover have "(k, v) \<in> cc_runs c" if "Answered k v \<in> set (cc_callers c)" for k v
    using ok [OF that] by (simp add: caller_ok_def)
  moreover have "e < length (cc_entries c)
      \<and> (Leading k e \<in> set (cc_callers c) \<or> (\<exists>v. snd (cc_entries c ! e) = Some v \<and> (k, v) \<in> cc_runs c))"
    if "Waiting k e \<in> set (cc_callers c)" for k e
  proof -
    have w: "e < length (cc_entries c)" "fst (cc_entries c ! e) = k" using ok [OF that] by (simp_all add: caller_ok_def)
    then have "entry_served c e" using inv by (simp add: coalesce_inv_def)
    then show ?thesis using w by (auto simp: entry_served_def split: prod.splits option.splits)
  qed
  ultimately show ?thesis by blast
qed

theorem coalescing_correct_witness:
  "Answered ''models'' True \<in> set (cc_callers (coalesce_wake 1 ''models'' True
      (coalesce_finish 0 ''models'' 0 True (coalesce_enter ''models'' (coalesce_enter ''models'' NewCoalescingCache)))))
   \<and> (''models'', True) \<in> cc_runs (coalesce_wake 1 ''models'' True
      (coalesce_finish 0 ''models'' 0 True (coalesce_enter ''models'' (coalesce_enter ''models'' NewCoalescingCache))))"
proof -
  let ?c2 = "coalesce_enter ''models'' (coalesce_enter ''models'' (NewCoalescingCache :: bool coalescing_cache))"
  let ?c3 = "coalesce_finish 0 ''models'' 0 True ?c2"
  let ?c4 = "coalesce_wake 1 ''models'' True ?c3"
  have r2: "reach coalesce_step NewCoalescingCache ?c2" by (meson reach_start reach_step co_enter)
  have "coalesce_step ?c2 ?c3"
    by (rule co_finish) (simp_all add: coalesce_enter_def NewCoalescingCache_def Let_def)
  with r2 have r3: "reach coalesce_step NewCoalescingCache ?c3" by (rule reach_step)
  have "coalesce_step ?c3 ?c4"
    by (rule co_wake [where e = 0]) (simp_all add: coalesce_enter_def coalesce_finish_def NewCoalescingCache_def Let_def)
  with r3 have "reach coalesce_step NewCoalescingCache ?c4" by (rule reach_step)
  moreover have "Answered ''models'' True \<in> set (cc_callers ?c4)"
    by (simp add: coalesce_enter_def coalesce_finish_def coalesce_wake_def NewCoalescingCache_def Let_def)
  ultimately show ?thesis using coalescing_correct by blast
qed

end
