(* ===== verification/Provider_Events.thy ===== *)
theory Provider_Events
  imports Provider_Registry
begin

text \<open>
  The bookkeeping around the provider manager: the bounded bus of lifecycle events
  (\<open>internal/provider/events.go\<close>), the health registry (\<open>health_registry.go\<close>) and the
  descriptors of factories (\<open>descriptor.go\<close>). A time is the reading of the clock the code
  makes at that point.
\<close>

section \<open>Events\<close>

datatype lifecycle_type =
    EventFactoryRegistered | EventFactoryUnregistered | EventConstructing | EventValidating | EventPublished
  | EventRemoved | EventReconcileFailed | EventDrainStarted | EventDrainTimedOut | EventDrained

record lifecycle_event =
  le_Sequence :: nat
  le_Type :: lifecycle_type
  le_ProviderID :: provider_id
  le_Generation :: nat
  le_Reason :: string
  le_PendingSnapshots :: nat
  le_Timestamp :: gotime

text \<open>A subscriber is its buffered channel: the capacity and the events not yet received.\<close>

record event_bus =
  eb_nextSequence :: nat
  eb_historyLimit :: nat
  eb_history :: "lifecycle_event list"
  eb_nextSubID :: nat
  eb_subscribers :: "(nat, nat \<times> lifecycle_event list) gomap"

definition NewEventBus :: "int \<Rightarrow> event_bus" where
  "NewEventBus historyLimit =
     \<lparr>eb_nextSequence = 0, eb_historyLimit = (if historyLimit \<le> 0 then 256 else nat historyLimit),
      eb_history = [], eb_nextSubID = 0, eb_subscribers = []\<rparr>"

definition offer :: "lifecycle_event \<Rightarrow> nat \<times> lifecycle_event list \<Rightarrow> nat \<times> lifecycle_event list" where
  "offer e ch = (case ch of (cap, queue) \<Rightarrow> if length queue < cap then (cap, queue @ [e]) else (cap, queue))"

definition bus_Publish :: "gotime \<Rightarrow> lifecycle_event \<Rightarrow> event_bus \<Rightarrow> event_bus" where
  "bus_Publish now event bus =
     (let event = event\<lparr>le_Sequence := eb_nextSequence bus + 1,
                        le_Timestamp := (if le_Timestamp event = zero_time then now else le_Timestamp event)\<rparr>;
          history = eb_history bus @ [event];
          overflow = length history - eb_historyLimit bus
      in bus\<lparr>eb_nextSequence := eb_nextSequence bus + 1,
             eb_history := (if overflow > 0 then drop overflow history else history),
             eb_subscribers := map (\<lambda>(k, ch). (k, offer event ch)) (eb_subscribers bus)\<rparr>)"

definition bus_History :: "nat \<Rightarrow> event_bus \<Rightarrow> lifecycle_event list" where
  "bus_History after bus = filter (\<lambda>e. le_Sequence e > after) (eb_history bus)"

definition bus_Subscribe :: "int \<Rightarrow> event_bus \<Rightarrow> nat \<times> event_bus" where
  "bus_Subscribe buffer bus =
     (let buffer = (if buffer \<le> 0 then 16 else nat buffer); sub = eb_nextSubID bus + 1
      in (sub, bus\<lparr>eb_nextSubID := sub, eb_subscribers := AList.update sub (buffer, []) (eb_subscribers bus)\<rparr>))"

definition bus_Cancel :: "nat \<Rightarrow> event_bus \<Rightarrow> event_bus" where
  "bus_Cancel sub bus = bus\<lparr>eb_subscribers := AList.delete sub (eb_subscribers bus)\<rparr>"

definition event :: "lifecycle_type \<Rightarrow> provider_id \<Rightarrow> nat \<Rightarrow> string \<Rightarrow> nat \<Rightarrow> lifecycle_event" where
  "event ty pid generation reason pending =
     \<lparr>le_Sequence = 0, le_Type = ty, le_ProviderID = pid, le_Generation = generation, le_Reason = reason,
      le_PendingSnapshots = pending, le_Timestamp = zero_time\<rparr>"

section \<open>Health\<close>

record health =
  hl_Authenticated :: bool
  hl_CanRefresh :: bool
  hl_LastError :: string
  hl_LastRefreshAt :: gotime

datatype lifecycle_state = StateDisabled | StateEnabledUnconfigured | StateReady | StateDegraded | StateError | StateDraining

record health_record =
  hr_ProviderID :: provider_id
  hr_State :: lifecycle_state
  hr_Health :: health
  hr_Generation :: nat
  hr_UpdatedAt :: gotime

type_synonym health_registry = "(provider_id, health_record) gomap"

definition zero_health :: health where
  "zero_health = \<lparr>hl_Authenticated = False, hl_CanRefresh = False, hl_LastError = '''', hl_LastRefreshAt = zero_time\<rparr>"

definition health_Set :: "gotime \<Rightarrow> health_record \<Rightarrow> health_registry \<Rightarrow> health_registry" where
  "health_Set now record registry =
     (if hr_ProviderID record = '''' then registry
      else AList.update (hr_ProviderID record)
        (record\<lparr>hr_UpdatedAt := (if hr_UpdatedAt record = zero_time then now else hr_UpdatedAt record)\<rparr>) registry)"

definition health_Get :: "provider_id \<Rightarrow> health_registry \<Rightarrow> health_record option" where
  "health_Get pid registry = map_of registry pid"

definition health_Remove :: "provider_id \<Rightarrow> health_registry \<Rightarrow> health_registry" where
  "health_Remove pid registry = AList.delete pid registry"

definition health_All :: "health_registry \<Rightarrow> health_record list" where
  "health_All registry = sort_key hr_ProviderID (map snd registry)"

definition stateFromHealth :: "health \<Rightarrow> lifecycle_state" where
  "stateFromHealth h =
     (if hl_Authenticated h then StateReady
      else if hl_LastError h \<noteq> '''' then StateError
      else if hl_CanRefresh h then StateDegraded
      else StateEnabledUnconfigured)"

definition health_entry :: "provider_id \<Rightarrow> lifecycle_state \<Rightarrow> health \<Rightarrow> nat \<Rightarrow> health_record" where
  "health_entry pid state h generation =
     \<lparr>hr_ProviderID = pid, hr_State = state, hr_Health = h, hr_Generation = generation, hr_UpdatedAt = zero_time\<rparr>"

section \<open>Descriptors\<close>

record config_field =
  cf_Name :: string
  cf_Type :: string
  cf_Required :: bool
  cf_Secret :: bool

record descriptor =
  ds_ID :: provider_id
  ds_Name :: string
  ds_Capabilities :: "capability list"
  ds_AuthMethods :: "string list"
  ds_MultiAccount :: bool
  ds_ConfigSchema :: "config_field list"
  ds_SchemaVersion :: int

datatype descriptor_error =
    DescriptorIDRequired | DescriptorNameRequired | DescriptorVersion | DescriptorCapabilities
  | UnnamedField | RepeatedField string

fun validate_fields_seen :: "string list \<Rightarrow> config_field list \<Rightarrow> descriptor_error option" where
  "validate_fields_seen seen [] = None"
| "validate_fields_seen seen (field # rest) =
     (if cf_Name field = '''' then Some UnnamedField
      else if cf_Name field \<in> set seen then Some (RepeatedField (cf_Name field))
      else validate_fields_seen (cf_Name field # seen) rest)"

definition ValidateDescriptor :: "descriptor \<Rightarrow> descriptor_error option" where
  "ValidateDescriptor d =
     (if ds_ID d = '''' then Some DescriptorIDRequired
      else if ds_Name d = '''' then Some DescriptorNameRequired
      else if ds_SchemaVersion d < 1 then Some DescriptorVersion
      else if ds_Capabilities d = [] then Some DescriptorCapabilities
      else validate_fields_seen [] (ds_ConfigSchema d))"

section \<open>Facts\<close>

lemma eb_history_Publish:
  "eb_history (bus_Publish now e bus) = keep_last (eb_historyLimit bus) (eb_history bus
     @ [e\<lparr>le_Sequence := eb_nextSequence bus + 1, le_Timestamp := (if le_Timestamp e = zero_time then now else le_Timestamp e)\<rparr>])"
  by (auto simp: bus_Publish_def Let_def keep_last_def)

lemma validate_fields_seen_None:
  "validate_fields_seen seen fs = None \<longleftrightarrow> (\<forall>f \<in> set fs. cf_Name f \<noteq> '''' \<and> cf_Name f \<notin> set seen) \<and> distinct (map cf_Name fs)"
  by (induction fs arbitrary: seen) (auto, (metis image_eqI)+)

lemma ValidateDescriptor_None:
  "ValidateDescriptor d = None \<longleftrightarrow> ds_ID d \<noteq> '''' \<and> ds_Name d \<noteq> '''' \<and> 1 \<le> ds_SchemaVersion d \<and> ds_Capabilities d \<noteq> []
     \<and> (\<forall>f \<in> set (ds_ConfigSchema d). cf_Name f \<noteq> '''') \<and> distinct (map cf_Name (ds_ConfigSchema d))"
  by (auto simp: ValidateDescriptor_def validate_fields_seen_None)

text \<open>The bus is a bounded log of what happened, and its sequence numbers have no gap.\<close>

type_synonym occurrence = "lifecycle_type \<times> provider_id \<times> nat \<times> string \<times> nat"

definition occurrence :: "lifecycle_event \<Rightarrow> occurrence" where
  "occurrence e = (le_Type e, le_ProviderID e, le_Generation e, le_Reason e, le_PendingSnapshots e)"

definition publish_occurrence :: "gotime \<Rightarrow> occurrence \<Rightarrow> event_bus \<Rightarrow> event_bus" where
  "publish_occurrence now oc bus = (case oc of (ty, pid, generation, reason, pending) \<Rightarrow> bus_Publish now (event ty pid generation reason pending) bus)"

lemma keep_last_map: "keep_last n (map f xs) = map f (keep_last n xs)"
  by (simp add: keep_last_def drop_map)

interpretation lifecycle: bounded_log "\<lambda>bus. map occurrence (eb_history bus)" eb_historyLimit "publish_occurrence now" for now
proof unfold_locales
  fix oc bus
  show "eb_historyLimit (publish_occurrence now oc bus) = eb_historyLimit bus"
    by (cases oc) (simp add: publish_occurrence_def bus_Publish_def Let_def)
  show "map occurrence (eb_history (publish_occurrence now oc bus))
      = keep_last (eb_historyLimit bus) (map occurrence (eb_history bus) @ [oc])"
    by (cases oc) (simp add: publish_occurrence_def eb_history_Publish keep_last_map [symmetric] event_def occurrence_def)
qed

definition bus_ok :: "event_bus \<Rightarrow> bool" where
  "bus_ok bus \<longleftrightarrow> 0 < eb_historyLimit bus \<and>
     map le_Sequence (eb_history bus) = [Suc (eb_nextSequence bus - length (eb_history bus)) ..< Suc (eb_nextSequence bus)]
     \<and> length (eb_history bus) \<le> min (eb_historyLimit bus) (eb_nextSequence bus)"

lemma bus_ok_new: "bus_ok (NewEventBus n)"
  by (simp add: bus_ok_def NewEventBus_def)

lemma bus_ok_Publish:
  assumes "bus_ok bus"
  shows "bus_ok (bus_Publish now e bus)"
proof -
  let ?n = "eb_nextSequence bus" and ?k = "length (eb_history bus)" and ?m = "eb_historyLimit bus"
  have len: "length (eb_history (bus_Publish now e bus)) = min ?m (Suc ?k)" by (simp add: eb_history_Publish)
  have "map le_Sequence (eb_history (bus_Publish now e bus)) = keep_last ?m ([Suc (?n - ?k) ..< Suc ?n] @ [Suc ?n])"
    using assms by (simp add: eb_history_Publish keep_last_map [symmetric] bus_ok_def)
  also have "[Suc (?n - ?k) ..< Suc ?n] @ [Suc ?n] = [Suc (?n - ?k) ..< Suc (Suc ?n)]" by simp
  finally have "map le_Sequence (eb_history (bus_Publish now e bus)) = [max (Suc (?n - ?k)) (Suc (Suc ?n) - ?m) ..< Suc (Suc ?n)]"
    by (simp only: keep_last_upt)
  moreover have "max (Suc (?n - ?k)) (Suc (Suc ?n) - ?m) = Suc (Suc ?n - min ?m (Suc ?k))"
    using assms by (auto simp: bus_ok_def min_def max_def)
  moreover have "eb_nextSequence (bus_Publish now e bus) = Suc ?n" "eb_historyLimit (bus_Publish now e bus) = ?m"
    by (simp_all add: bus_Publish_def Let_def)
  ultimately show ?thesis using assms len by (auto simp: bus_ok_def)
qed

lemma bus_History_exact:
  assumes "bus_ok bus"
  shows "map le_Sequence (bus_History after bus)
    = [max (Suc after) (Suc (eb_nextSequence bus - length (eb_history bus))) ..< Suc (eb_nextSequence bus)]"
proof -
  have "map le_Sequence (bus_History after bus) = filter (\<lambda>n. after < n) (map le_Sequence (eb_history bus))"
    by (simp add: bus_History_def filter_map comp_def)
  then show ?thesis using assms by (simp only: bus_ok_def filter_upt_above)
qed

end
