(* ===== verification/Runtime_Manager.thy ===== *)
theory Runtime_Manager
  imports Router
begin

text \<open>
  The publication of runtime snapshots in \<open>internal/runtime\<close> (\<open>snapshot.go\<close>, \<open>manager.go\<close>).
  A snapshot pointer is its position in the list of all snapshots ever built. The requests
  take leases without the manager's mutex: \<open>Acquire\<close> loads the current pointer and tries the
  snapshot it found, and a publication may come between the two. The transition system at
  the end has one step per region between two synchronisations, so that every such race is a
  run of it.
\<close>

section \<open>Snapshots\<close>

record rt_snapshot =
  sp_generation :: nat
  sp_config :: config
  sp_providers :: registry
  sp_router :: router
  sp_active :: nat
  sp_retired :: bool
  sp_drained :: bool

definition newSnapshotWithRegistries ::
    "nat \<Rightarrow> config \<Rightarrow> provider_info list \<Rightarrow> cooldown_registry \<Rightarrow> preferred_registry \<Rightarrow> rt_snapshot" where
  "newSnapshotWithRegistries generation cfg ps cooldowns preferred =
     (let effectiveConfig = Clone cfg;
          reg = Freeze (NewRegistry (map Some ps));
          rtr = SetGeneration generation (NewRouterWithRegistries reg (cfg_routing effectiveConfig) (Some cooldowns) (Some preferred))
      in \<lparr>sp_generation = generation, sp_config = effectiveConfig, sp_providers = reg, sp_router = rtr,
          sp_active = 0, sp_retired = False, sp_drained = False\<rparr>)"

definition tryAcquire :: "rt_snapshot \<Rightarrow> bool \<times> rt_snapshot" where
  "tryAcquire s = (if sp_retired s then (False, s) else (True, s\<lparr>sp_active := sp_active s + 1\<rparr>))"

text \<open>\<open>release\<close> and \<open>retire\<close> decide under the snapshot's mutex whether to drain and close the
  channel after unlocking it.\<close>

definition release :: "rt_snapshot \<Rightarrow> bool \<times> rt_snapshot" where
  "release s =
     (let s = (if sp_active s > 0 then s\<lparr>sp_active := sp_active s - 1\<rparr> else s)
      in (sp_retired s \<and> sp_active s = 0, s))"

definition retire :: "rt_snapshot \<Rightarrow> bool \<times> rt_snapshot" where
  "retire s = (sp_active s = 0, s\<lparr>sp_retired := True\<rparr>)"

definition drain :: "rt_snapshot \<Rightarrow> rt_snapshot" where
  "drain s = s\<lparr>sp_drained := True\<rparr>"

section \<open>The manager\<close>

datatype runtime_error =
    ErrManagerClosed | RuntimeConfigRequired | RuntimeProviderNil | RuntimeProviderIDRequired | RuntimeProviderDuplicated provider_id

record rt_manager =
  rm_current :: "nat option"
  rm_closed :: bool
  rm_generation :: nat
  rm_snapshots :: "rt_snapshot list"
  rm_live :: "nat list"
  rm_cooldowns :: cooldown_registry
  rm_preferred :: preferred_registry

fun validate_runtime_providers :: "provider_id list \<Rightarrow> provider_info option list \<Rightarrow> runtime_error + provider_info list" where
  "validate_runtime_providers seen [] = Inr []"
| "validate_runtime_providers seen (None # rest) = Inl RuntimeProviderNil"
| "validate_runtime_providers seen (Some p # rest) =
     (if pr_id p = '''' then Inl RuntimeProviderIDRequired
      else if pr_id p \<in> set seen then Inl (RuntimeProviderDuplicated (pr_id p))
      else case validate_runtime_providers (pr_id p # seen) rest of Inl e \<Rightarrow> Inl e | Inr ps \<Rightarrow> Inr (p # ps))"

text \<open>\<open>validateProviders\<close> only accepts; what it accepted is returned without the pointers.\<close>

definition validateProviders :: "provider_info option list \<Rightarrow> runtime_error + provider_info list" where
  "validateProviders ps = validate_runtime_providers [] ps"

definition NewManager ::
    "config option \<Rightarrow> provider_info option list \<Rightarrow> cooldown_registry \<Rightarrow> runtime_error + rt_manager" where
  "NewManager cfg ps cooldowns =
     (case cfg of None \<Rightarrow> Inl RuntimeConfigRequired
      | Some c \<Rightarrow>
        (case validateProviders ps of
           Inl e \<Rightarrow> Inl e
         | Inr providers \<Rightarrow>
             Inr \<lparr>rm_current = Some 0, rm_closed = False, rm_generation = 1,
                  rm_snapshots = [newSnapshotWithRegistries 1 c providers cooldowns []],
                  rm_live = [0], rm_cooldowns = cooldowns, rm_preferred = []\<rparr>))"

text \<open>Up to the swap of the current pointer; the old pointer is returned for retirement, and
  the snapshots the retirement of the publication waits for.\<close>

definition publishLocked ::
    "config option \<Rightarrow> provider_info option list \<Rightarrow> rt_manager \<Rightarrow> (runtime_error + (nat option \<times> nat list)) \<times> rt_manager" where
  "publishLocked cfg ps m =
     (case cfg of None \<Rightarrow> (Inl RuntimeConfigRequired, m)
      | Some c \<Rightarrow>
        (case validateProviders ps of
           Inl e \<Rightarrow> (Inl e, m)
         | Inr providers \<Rightarrow>
             let generation = rm_generation m + 1;
                 new_ptr = length (rm_snapshots m);
                 snapshot = newSnapshotWithRegistries generation c providers (rm_cooldowns m) (rm_preferred m)
             in (Inr (rm_current m, rm_live m),
                 m\<lparr>rm_generation := generation, rm_snapshots := rm_snapshots m @ [snapshot],
                   rm_live := rm_live m @ [new_ptr], rm_current := Some new_ptr\<rparr>)))"

definition Publish ::
    "config option \<Rightarrow> provider_info option list \<Rightarrow> rt_manager \<Rightarrow> (runtime_error + (nat option \<times> nat list)) \<times> rt_manager" where
  "Publish cfg ps m = (if rm_closed m then (Inl ErrManagerClosed, m) else publishLocked cfg ps m)"

definition PublishProviders ::
    "provider_info option list \<Rightarrow> rt_manager \<Rightarrow> (runtime_error + (nat option \<times> nat list)) \<times> rt_manager" where
  "PublishProviders ps m =
     (if rm_closed m then (Inl ErrManagerClosed, m)
      else case rm_current m of
        None \<Rightarrow> (Inl ErrManagerClosed, m)
      | Some s \<Rightarrow> publishLocked (Some (sp_config (rm_snapshots m ! s))) ps m)"

text \<open>Closing: the pointers to retire, and those the wait is for.\<close>

definition Manager_Close :: "rt_manager \<Rightarrow> nat list \<times> rt_manager" where
  "Manager_Close m = (if rm_closed m then ([], m) else (rm_live m, m\<lparr>rm_closed := True, rm_current := None\<rparr>))"

definition untrack :: "nat \<Rightarrow> rt_manager \<Rightarrow> rt_manager" where
  "untrack s m = m\<lparr>rm_live := removeAll s (rm_live m)\<rparr>"

definition on_snapshot :: "nat \<Rightarrow> (rt_snapshot \<Rightarrow> rt_snapshot) \<Rightarrow> rt_manager \<Rightarrow> rt_manager" where
  "on_snapshot s f m = m\<lparr>rm_snapshots := (rm_snapshots m)[s := f (rm_snapshots m ! s)]\<rparr>"

text \<open>A retirement: the snapshots not drained when it is made, and whether all of them are now.\<close>

definition newRetirement :: "rt_manager \<Rightarrow> nat list \<Rightarrow> nat list" where
  "newRetirement m ptrs = filter (\<lambda>s. \<not> sp_drained (rm_snapshots m ! s)) ptrs"

definition Pending :: "rt_manager \<Rightarrow> nat list \<Rightarrow> nat" where
  "Pending m r = length (filter (\<lambda>s. \<not> sp_drained (rm_snapshots m ! s)) r)"

section \<open>Runs\<close>

text \<open>
  Pointers loaded by callers inside \<open>Acquire\<close>, the leases given out and whether each has been
  released, the pointers a publisher or \<open>Close\<close> (which holds the manager's mutex meanwhile)
  still has to retire, and the snapshots whose channel is about to be closed.
\<close>

record rt_system =
  ry_manager :: rt_manager
  ry_loaded :: "nat list"
  ry_leases :: "(nat \<times> bool) list"
  ry_retiring :: "nat list"
  ry_draining :: "nat list"

definition acquire_load :: "nat \<Rightarrow> rt_system \<Rightarrow> rt_system" where
  "acquire_load s y = y\<lparr>ry_loaded := s # ry_loaded y\<rparr>"

definition acquire_try :: "nat \<Rightarrow> rt_system \<Rightarrow> rt_system" where
  "acquire_try s y =
     (let y = y\<lparr>ry_loaded := remove1 s (ry_loaded y)\<rparr> in
      case tryAcquire (rm_snapshots (ry_manager y) ! s) of (ok, sn) \<Rightarrow>
        if ok then y\<lparr>ry_manager := on_snapshot s (\<lambda>_. sn) (ry_manager y), ry_leases := ry_leases y @ [(s, False)]\<rparr>
        else y)"

definition Lease_Release :: "nat \<Rightarrow> rt_system \<Rightarrow> rt_system" where
  "Lease_Release i y =
     (case ry_leases y ! i of (s, released) \<Rightarrow>
        if released then y
        else case release (rm_snapshots (ry_manager y) ! s) of (shouldDrain, sn) \<Rightarrow>
          y\<lparr>ry_leases := (ry_leases y)[i := (s, True)], ry_manager := on_snapshot s (\<lambda>_. sn) (ry_manager y),
            ry_draining := (if shouldDrain then s # ry_draining y else ry_draining y)\<rparr>)"

definition retire_next :: "nat \<Rightarrow> rt_system \<Rightarrow> rt_system" where
  "retire_next s y =
     (case retire (rm_snapshots (ry_manager y) ! s) of (shouldDrain, sn) \<Rightarrow>
        y\<lparr>ry_retiring := remove1 s (ry_retiring y), ry_manager := on_snapshot s (\<lambda>_. sn) (ry_manager y),
          ry_draining := (if shouldDrain then s # ry_draining y else ry_draining y)\<rparr>)"

definition close_drained :: "nat \<Rightarrow> rt_system \<Rightarrow> rt_system" where
  "close_drained s y =
     y\<lparr>ry_draining := remove1 s (ry_draining y), ry_manager := on_snapshot s drain (ry_manager y)\<rparr>"

definition begin_publish :: "config option \<Rightarrow> provider_info option list \<Rightarrow> rt_system \<Rightarrow> rt_system" where
  "begin_publish cfg ps y =
     (case Publish cfg ps (ry_manager y) of
        (Inl _, m) \<Rightarrow> y\<lparr>ry_manager := m\<rparr>
      | (Inr (old, _), m) \<Rightarrow> y\<lparr>ry_manager := m, ry_retiring := (case old of None \<Rightarrow> [] | Some s \<Rightarrow> [s])\<rparr>)"

definition begin_close :: "rt_system \<Rightarrow> rt_system" where
  "begin_close y = (case Manager_Close (ry_manager y) of (ptrs, m) \<Rightarrow> y\<lparr>ry_manager := m, ry_retiring := ptrs\<rparr>)"

inductive rt_step :: "rt_system \<Rightarrow> rt_system \<Rightarrow> bool" where
  rt_load: "rm_current (ry_manager y) = Some s \<Longrightarrow> rt_step y (acquire_load s y)"
| rt_try: "s \<in> set (ry_loaded y) \<Longrightarrow> rt_step y (acquire_try s y)"
| rt_release: "i < length (ry_leases y) \<Longrightarrow> rt_step y (Lease_Release i y)"
| rt_retire: "s \<in> set (ry_retiring y) \<Longrightarrow> rt_step y (retire_next s y)"
| rt_drain: "s \<in> set (ry_draining y) \<Longrightarrow> rt_step y (close_drained s y)"
| rt_publish: "ry_retiring y = [] \<Longrightarrow> rt_step y (begin_publish cfg ps y)"
| rt_close: "ry_retiring y = [] \<Longrightarrow> rt_step y (begin_close y)"
| rt_untrack: "ry_retiring y = [] \<Longrightarrow> s < length (rm_snapshots (ry_manager y)) \<Longrightarrow>
    sp_drained (rm_snapshots (ry_manager y) ! s) \<Longrightarrow> rt_step y (y\<lparr>ry_manager := untrack s (ry_manager y)\<rparr>)"

definition rt_init :: "rt_system \<Rightarrow> bool" where
  "rt_init y \<longleftrightarrow> (\<exists>cfg ps cooldowns. NewManager cfg ps cooldowns = Inr (ry_manager y))
     \<and> ry_loaded y = [] \<and> ry_leases y = [] \<and> ry_retiring y = [] \<and> ry_draining y = []"

section \<open>The invariant\<close>

abbreviation snap :: "rt_system \<Rightarrow> nat \<Rightarrow> rt_snapshot" where
  "snap y s \<equiv> rm_snapshots (ry_manager y) ! s"

abbreviation snap_count :: "rt_system \<Rightarrow> nat" where
  "snap_count y \<equiv> length (rm_snapshots (ry_manager y))"

definition open_leases :: "(nat \<times> bool) list \<Rightarrow> nat \<Rightarrow> nat" where
  "open_leases ls s = length (filter (\<lambda>(p, released). p = s \<and> \<not> released) ls)"

definition snap_ok :: "rt_system \<Rightarrow> nat \<Rightarrow> bool" where
  "snap_ok y s \<longleftrightarrow>
     sp_active (snap y s) = open_leases (ry_leases y) s
     \<and> (sp_drained (snap y s) \<or> s \<in> set (ry_draining y) \<longleftrightarrow> sp_retired (snap y s) \<and> sp_active (snap y s) = 0)
     \<and> (rm_current (ry_manager y) = Some s \<longleftrightarrow> \<not> sp_retired (snap y s) \<and> s \<notin> set (ry_retiring y))
     \<and> (sp_drained (snap y s) \<or> s \<in> set (rm_live (ry_manager y)))
     \<and> sp_generation (snap y s) = Suc s"

definition pointers_ok :: "rt_system \<Rightarrow> bool" where
  "pointers_ok y \<longleftrightarrow>
     rm_generation (ry_manager y) = snap_count y
     \<and> set (ry_loaded y) \<union> set (ry_retiring y) \<union> set (ry_draining y) \<union> fst ` set (ry_leases y)
         \<union> set (rm_live (ry_manager y)) \<subseteq> {..<snap_count y}
     \<and> (case rm_current (ry_manager y) of
          Some s \<Rightarrow> Suc s = snap_count y \<and> \<not> rm_closed (ry_manager y)
        | None \<Rightarrow> rm_closed (ry_manager y))"

definition rt_inv :: "rt_system \<Rightarrow> bool" where
  "rt_inv y \<longleftrightarrow> pointers_ok y \<and> (\<forall>s < snap_count y. snap_ok y s)"

lemma on_snapshot_sel [simp]:
  "length (rm_snapshots (on_snapshot s f m)) = length (rm_snapshots m)"
  "rm_generation (on_snapshot s f m) = rm_generation m"
  "rm_current (on_snapshot s f m) = rm_current m"
  "rm_closed (on_snapshot s f m) = rm_closed m"
  "rm_live (on_snapshot s f m) = rm_live m"
  by (simp_all add: on_snapshot_def)

lemma snap_on_snapshot:
  "s < length (rm_snapshots m) \<Longrightarrow>
     rm_snapshots (on_snapshot s f m) ! t = (if t = s then f (rm_snapshots m ! s) else rm_snapshots m ! t)"
  by (simp add: on_snapshot_def)

lemma open_leases_snoc [simp]:
  "open_leases (ls @ [(p, r)]) s = open_leases ls s + (if p = s \<and> \<not> r then 1 else 0)"
  by (simp add: open_leases_def)

lemma open_leases_release:
  assumes "i < length ls" and "ls ! i = (p, False)"
  shows "open_leases ls p = Suc (open_leases (ls[i := (p, True)]) p)"
    and "s \<noteq> p \<Longrightarrow> open_leases (ls[i := (p, True)]) s = open_leases ls s"
proof -
  have "filter Q ls = filter Q (take i ls @ ls ! i # drop (Suc i) ls)" for Q
    using id_take_nth_drop [OF assms(1)] by simp
  then show "open_leases ls p = Suc (open_leases (ls[i := (p, True)]) p)"
    and "s \<noteq> p \<Longrightarrow> open_leases (ls[i := (p, True)]) s = open_leases ls s"
    using assms by (simp_all add: open_leases_def upd_conv_take_nth_drop)
qed

lemma rt_invD: "rt_inv y \<Longrightarrow> s < snap_count y \<Longrightarrow> snap_ok y s"
  by (simp add: rt_inv_def)

lemma set_remove1_subset': "set (remove1 a xs) \<subseteq> S" if "set xs \<subseteq> S"
  using that set_remove1_subset by fastforce

lemma rt_load_inv:
  assumes "rt_inv y" and "rm_current (ry_manager y) = Some s"
  shows "rt_inv (acquire_load s y)"
  using assms by (auto simp: rt_inv_def pointers_ok_def acquire_load_def snap_ok_def)

lemma rt_try_inv:
  assumes inv: "rt_inv y" and s: "s \<in> set (ry_loaded y)"
  shows "rt_inv (acquire_try s y)"
proof -
  have len: "s < snap_count y" using inv s by (auto simp: rt_inv_def pointers_ok_def)
  have ptr: "set (remove1 s (ry_loaded y)) \<subseteq> {..<snap_count y}"
    using inv by (intro set_remove1_subset') (auto simp: rt_inv_def pointers_ok_def)
  have "pointers_ok (acquire_try s y)"
    using inv ptr len by (auto simp: rt_inv_def pointers_ok_def acquire_try_def Let_def tryAcquire_def split: option.splits)
  moreover have "snap_ok (acquire_try s y) t" if "t < snap_count y" for t
    using rt_invD [OF inv that] len
    by (auto simp: snap_ok_def acquire_try_def Let_def tryAcquire_def snap_on_snapshot)
  ultimately show ?thesis using len by (auto simp: rt_inv_def acquire_try_def Let_def tryAcquire_def split: if_splits)
qed

lemma rt_release_inv:
  assumes inv: "rt_inv y" and i: "i < length (ry_leases y)"
  shows "rt_inv (Lease_Release i y)"
proof -
  obtain s r where l: "ry_leases y ! i = (s, r)" by fastforce
  have "(s, r) \<in> set (ry_leases y)" using i l by (metis nth_mem)
  then have len: "s < snap_count y" using inv by (force simp: rt_inv_def pointers_ok_def)
  show ?thesis
  proof (cases r)
    case True
    then show ?thesis using inv l by (simp add: Lease_Release_def)
  next
    case False
    note rel = open_leases_release [OF i, of s]
    have act: "sp_active (snap y s) = open_leases (ry_leases y) s" using rt_invD [OF inv len] by (simp add: snap_ok_def)
    have "fst ` set ((ry_leases y)[i := (s, True)]) \<subseteq> {..<snap_count y}"
      using inv len set_update_subset_insert [of "ry_leases y" i "(s, True)"] by (fastforce simp: rt_inv_def pointers_ok_def)
    then have "pointers_ok (Lease_Release i y)"
      using inv len l False by (auto simp: rt_inv_def pointers_ok_def Lease_Release_def release_def Let_def split: option.splits)
    moreover have "snap_ok (Lease_Release i y) t" if "t < snap_count y" for t
      using rt_invD [OF inv that] len l False rel act
      by (auto simp: snap_ok_def Lease_Release_def release_def Let_def snap_on_snapshot)
    ultimately show ?thesis using l False by (simp add: rt_inv_def Lease_Release_def release_def Let_def)
  qed
qed

lemma rt_retire_inv:
  assumes inv: "rt_inv y" and s: "s \<in> set (ry_retiring y)"
  shows "rt_inv (retire_next s y)"
proof -
  have len: "s < snap_count y" using inv s by (auto simp: rt_inv_def pointers_ok_def)
  have ptr: "set (remove1 s (ry_retiring y)) \<subseteq> {..<snap_count y}"
    using inv by (intro set_remove1_subset') (auto simp: rt_inv_def pointers_ok_def)
  have "pointers_ok (retire_next s y)"
    using inv ptr len by (auto simp: rt_inv_def pointers_ok_def retire_next_def retire_def split: option.splits)
  moreover have "snap_ok (retire_next s y) t" if "t < snap_count y" for t
    using rt_invD [OF inv that] len s
    by (auto simp: snap_ok_def retire_next_def retire_def snap_on_snapshot dest: notin_set_remove1)
  ultimately show ?thesis by (simp add: rt_inv_def retire_next_def retire_def)
qed

lemma rt_drain_inv:
  assumes inv: "rt_inv y" and s: "s \<in> set (ry_draining y)"
  shows "rt_inv (close_drained s y)"
proof -
  have len: "s < snap_count y" using inv s by (auto simp: rt_inv_def pointers_ok_def)
  have ptr: "set (remove1 s (ry_draining y)) \<subseteq> {..<snap_count y}"
    using inv by (intro set_remove1_subset') (auto simp: rt_inv_def pointers_ok_def)
  have "pointers_ok (close_drained s y)"
    using inv ptr len by (auto simp: rt_inv_def pointers_ok_def close_drained_def split: option.splits)
  moreover have "snap_ok (close_drained s y) t" if "t < snap_count y" for t
    using rt_invD [OF inv that] len s
    by (auto simp: snap_ok_def close_drained_def drain_def snap_on_snapshot dest: notin_set_remove1)
  ultimately show ?thesis by (simp add: rt_inv_def close_drained_def)
qed

lemma open_leases_none: "fst ` set ls \<subseteq> {..<n} \<Longrightarrow> open_leases ls n = 0"
  by (force simp: open_leases_def filter_empty_conv)

lemma rt_publish_inv:
  assumes inv: "rt_inv y" and idle: "ry_retiring y = []"
  shows "rt_inv (begin_publish cfg ps y)"
proof (cases "\<exists>c providers. \<not> rm_closed (ry_manager y) \<and> cfg = Some c \<and> validateProviders ps = Inr providers")
  case False
  then have "\<exists>e. Publish cfg ps (ry_manager y) = (Inl e, ry_manager y)"
    by (auto simp: Publish_def publishLocked_def split: option.split sum.split)
  then show ?thesis using inv by (auto simp: begin_publish_def)
next
  case True
  then obtain c providers where c: "\<not> rm_closed (ry_manager y)" "cfg = Some c" "validateProviders ps = Inr providers" by blast
  then obtain old where old: "rm_current (ry_manager y) = Some old" "Suc old = snap_count y"
    using inv by (auto simp: rt_inv_def pointers_ok_def split: option.splits)
  define sn where "sn = newSnapshotWithRegistries (rm_generation (ry_manager y) + 1) c providers
    (rm_cooldowns (ry_manager y)) (rm_preferred (ry_manager y))"
  have sn: "sp_active sn = 0" "\<not> sp_retired sn" "\<not> sp_drained sn" "sp_generation sn = Suc (snap_count y)"
    using inv by (simp_all add: sn_def newSnapshotWithRegistries_def Let_def rt_inv_def pointers_ok_def)
  have y': "begin_publish cfg ps y = y\<lparr>ry_manager := (ry_manager y)
      \<lparr>rm_generation := rm_generation (ry_manager y) + 1, rm_snapshots := rm_snapshots (ry_manager y) @ [sn],
       rm_live := rm_live (ry_manager y) @ [snap_count y], rm_current := Some (snap_count y)\<rparr>, ry_retiring := [old]\<rparr>"
    using c old by (simp add: begin_publish_def Publish_def publishLocked_def Let_def sn_def)
  have ptr: "fst ` set (ry_leases y) \<subseteq> {..<snap_count y}" "set (ry_draining y) \<subseteq> {..<snap_count y}"
    using inv by (auto simp: rt_inv_def pointers_ok_def)
  have "pointers_ok (begin_publish cfg ps y)"
    using inv old c unfolding y' by (auto simp: rt_inv_def pointers_ok_def)
  moreover have "snap_ok (begin_publish cfg ps y) t" if "t < Suc (snap_count y)" for t
  proof (cases "t = snap_count y")
    case True
    then show ?thesis unfolding y' using sn open_leases_none [OF ptr(1)] ptr(2) old
      by (auto simp: snap_ok_def)
  next
    case False
    then have t: "t < snap_count y" using that by simp
    show ?thesis unfolding y' using rt_invD [OF inv t] t old idle by (auto simp: snap_ok_def nth_append)
  qed
  ultimately show ?thesis by (simp add: rt_inv_def y')
qed

lemma rt_close_inv:
  assumes inv: "rt_inv y" and idle: "ry_retiring y = []"
  shows "rt_inv (begin_close y)"
proof (cases "rm_closed (ry_manager y)")
  case True
  then have "begin_close y = y" using idle by (cases y) (simp add: begin_close_def Manager_Close_def)
  then show ?thesis using inv by simp
next
  case False
  have "pointers_ok (begin_close y)"
    using inv False by (auto simp: rt_inv_def pointers_ok_def begin_close_def Manager_Close_def)
  moreover have "snap_ok (begin_close y) t" if "t < snap_count y" for t
    using rt_invD [OF inv that] False idle by (auto simp: snap_ok_def begin_close_def Manager_Close_def)
  ultimately show ?thesis using False by (simp add: rt_inv_def begin_close_def Manager_Close_def)
qed

lemma rt_untrack_inv:
  assumes inv: "rt_inv y" and "s < snap_count y" and "sp_drained (snap y s)"
  shows "rt_inv (y\<lparr>ry_manager := untrack s (ry_manager y)\<rparr>)"
proof -
  have "pointers_ok (y\<lparr>ry_manager := untrack s (ry_manager y)\<rparr>)"
    using inv by (cases "rm_current (ry_manager y)") (auto simp: rt_inv_def pointers_ok_def untrack_def)
  moreover have "snap_ok (y\<lparr>ry_manager := untrack s (ry_manager y)\<rparr>) t" if "t < snap_count y" for t
    using rt_invD [OF inv that] assms(3) by (auto simp: snap_ok_def untrack_def)
  ultimately show ?thesis by (simp add: rt_inv_def untrack_def)
qed

lemma NewManager_sel:
  assumes "NewManager cfg ps cooldowns = Inr m"
  obtains sn where "rm_current m = Some 0" "\<not> rm_closed m" "rm_generation m = 1" "rm_live m = [0]" "rm_snapshots m = [sn]"
    "sp_active sn = 0" "\<not> sp_retired sn" "\<not> sp_drained sn" "sp_generation sn = 1"
proof -
  obtain c providers where "m = \<lparr>rm_current = Some 0, rm_closed = False, rm_generation = 1,
      rm_snapshots = [newSnapshotWithRegistries 1 c providers cooldowns []],
      rm_live = [0], rm_cooldowns = cooldowns, rm_preferred = []\<rparr>"
    using assms by (auto simp: NewManager_def split: option.splits sum.splits)
  then show ?thesis using that by (simp add: newSnapshotWithRegistries_def Let_def)
qed

lemma rt_init_inv: "rt_init y \<Longrightarrow> rt_inv y"
  by (auto simp: rt_init_def rt_inv_def pointers_ok_def snap_ok_def open_leases_def elim!: NewManager_sel)

lemma rt_step_inv: "rt_inv y \<Longrightarrow> rt_step y z \<Longrightarrow> rt_inv z"
  by (erule rt_step.cases) (simp_all add: rt_load_inv rt_try_inv rt_release_inv rt_retire_inv rt_drain_inv
      rt_publish_inv rt_close_inv rt_untrack_inv)

interpretation runtime: invariant_system rt_init rt_step rt_inv
  by unfold_locales (auto intro: rt_init_inv rt_step_inv)

text \<open>A drained snapshot stays drained.\<close>

lemma rt_step_drained:
  assumes "rt_step y z" and "rt_inv y" and s: "s < snap_count y" "sp_drained (snap y s)"
  shows "s < snap_count z \<and> sp_drained (snap z s)"
  using assms(1)
proof cases
  case (rt_try t)
  then have "t < snap_count y" using assms(2) by (auto simp: rt_inv_def pointers_ok_def)
  then show ?thesis using rt_try s by (auto simp: acquire_try_def tryAcquire_def Let_def snap_on_snapshot)
next
  case (rt_release i)
  have "fst (ry_leases y ! i) < snap_count y"
    using assms(2) nth_mem [OF rt_release(2)] by (force simp: rt_inv_def pointers_ok_def)
  then show ?thesis using rt_release s
    by (cases "ry_leases y ! i") (auto simp: Lease_Release_def release_def Let_def snap_on_snapshot)
next
  case (rt_retire t)
  then have "t < snap_count y" using assms(2) by (auto simp: rt_inv_def pointers_ok_def)
  then show ?thesis using rt_retire s by (auto simp: retire_next_def retire_def snap_on_snapshot)
next
  case (rt_drain t)
  then have "t < snap_count y" using assms(2) by (auto simp: rt_inv_def pointers_ok_def)
  then show ?thesis using rt_drain s by (auto simp: close_drained_def drain_def snap_on_snapshot)
next
  case (rt_publish cfg ps)
  then show ?thesis using s
    by (auto simp: begin_publish_def Publish_def publishLocked_def Let_def nth_append split: option.split sum.split)
qed (use s in \<open>auto simp: acquire_load_def begin_close_def Manager_Close_def untrack_def\<close>)

lemma reach_drained:
  assumes "reach rt_step y z" and "rt_inv y" and "s < snap_count y" and "sp_drained (snap y s)"
  shows "rt_inv z \<and> s < snap_count z \<and> sp_drained (snap z s)"
  using assms by (induction rule: reach.induct) (auto intro: rt_step_inv dest: rt_step_drained)

section \<open>Properties\<close>

text \<open>C30: when the wait for a publication is over, that is, when every snapshot that was live at
  the publication is drained, no request holds a lease on any snapshot older than the
  published one, and none ever will again, whatever requests, releases, publications and
  closings follow.\<close>

theorem retirement_safe:
  assumes "rt_init y0" and "reach rt_step y0 y" and "Publish cfg ps (ry_manager y) = (Inr (old, prior), m)"
    and "reach rt_step (begin_publish cfg ps y) z" and "Pending (ry_manager z) (newRetirement m prior) = 0"
    and "reach rt_step z z'" and "ry_retiring y = []"
  shows "\<forall>s. (s, False) \<in> set (ry_leases z') \<longrightarrow> snap_count y \<le> s \<and> sp_generation (snap z' s) \<ge> rm_generation m"
proof (intro allI impI)
  fix s
  assume lease: "(s, False) \<in> set (ry_leases z')"
  have inv: "rt_inv y" using runtime.reachable_invar [OF assms(2,1)] .
  let ?p = "begin_publish cfg ps y"
  have invp: "rt_inv ?p" using inv assms(7) by (rule rt_publish_inv)
  have mp: "ry_manager ?p = m" using assms(3) by (simp add: begin_publish_def)
  have pub: "prior = rm_live (ry_manager y)" "rm_generation m = Suc (rm_generation (ry_manager y))"
    "take (snap_count y) (rm_snapshots m) = rm_snapshots (ry_manager y)" "length (rm_snapshots m) = Suc (snap_count y)"
    using assms(3) by (auto simp: Publish_def publishLocked_def Let_def split: if_splits option.splits sum.splits)
  have inv_z: "rt_inv z" using assms(4) invp by (induction rule: reach.induct) (auto intro: rt_step_inv)
  have inv_z': "rt_inv z'" using assms(6) inv_z by (induction rule: reach.induct) (auto intro: rt_step_inv)
  have s: "s < snap_count z'" using inv_z' lease by (force simp: rt_inv_def pointers_ok_def)
  have ge: "snap_count y \<le> s"
  proof (rule ccontr)
    assume "\<not> snap_count y \<le> s"
    then have sy: "s < snap_count y" by simp
    have same: "snap ?p s = snap y s" using pub(3) sy unfolding mp by (metis nth_take)
    have "sp_drained (snap z s) \<and> s < snap_count z"
    proof (cases "sp_drained (snap y s)")
      case True
      then show ?thesis using reach_drained [OF assms(4) invp, of s] same sy pub(4) by (simp add: mp)
    next
      case False
      then have "s \<in> set prior" using rt_invD [OF inv sy] pub(1) by (simp add: snap_ok_def)
      then have "s \<in> set (newRetirement m prior)" using False same by (simp add: newRetirement_def mp)
      then have "sp_drained (snap z s)" using assms(5) by (auto simp: Pending_def filter_empty_conv)
      moreover have "snap_count ?p \<le> snap_count z"
        using assms(4) by (induction rule: reach.induct) (auto elim!: rt_step.cases simp: acquire_load_def acquire_try_def
          tryAcquire_def Lease_Release_def release_def retire_next_def retire_def close_drained_def begin_publish_def Publish_def
          publishLocked_def begin_close_def Manager_Close_def untrack_def Let_def split: option.splits sum.splits prod.splits if_splits)
      ultimately show ?thesis using sy pub(4) by (simp add: mp)
    qed
    then have "sp_drained (snap z' s)" using reach_drained [OF assms(6) inv_z] by blast
    then have "open_leases (ry_leases z') s = 0" using rt_invD [OF inv_z' s] by (simp add: snap_ok_def)
    then show False using lease by (auto simp: open_leases_def filter_empty_conv)
  qed
  moreover have "sp_generation (snap z' s) = Suc s" using rt_invD [OF inv_z' s] by (simp add: snap_ok_def)
  moreover have "rm_generation (ry_manager y) = snap_count y" using inv by (simp add: rt_inv_def pointers_ok_def)
  ultimately show "snap_count y \<le> s \<and> sp_generation (snap z' s) \<ge> rm_generation m" using pub(2) by simp
qed

definition sample_manager :: rt_manager where
  "sample_manager = (case NewManager (Some zero_config) [] NewCooldownRegistry of Inr m \<Rightarrow> m)"

definition sample_y0 :: rt_system where
  "sample_y0 = \<lparr>ry_manager = sample_manager, ry_loaded = [], ry_leases = [], ry_retiring = [], ry_draining = []\<rparr>"

definition sample_y1 :: rt_system where "sample_y1 = begin_publish (Some zero_config) [] sample_y0"
definition sample_y2 :: rt_system where "sample_y2 = close_drained 0 (retire_next 0 sample_y1)"
definition sample_y3 :: rt_system where "sample_y3 = acquire_try 1 (acquire_load 1 sample_y2)"

lemmas sample_runtime_defs = sample_manager_def sample_y0_def sample_y1_def sample_y2_def sample_y3_def
  NewManager_def validateProviders_def newSnapshotWithRegistries_def Let_def begin_publish_def Publish_def publishLocked_def
  retire_next_def retire_def close_drained_def drain_def acquire_load_def acquire_try_def tryAcquire_def on_snapshot_def

theorem retirement_safe_witness:
  "(1, False) \<in> set (ry_leases sample_y3) \<and> (0, False) \<notin> set (ry_leases sample_y3) \<and> sp_generation (snap sample_y3 1) \<ge> 2"
proof -
  have init: "rt_init sample_y0"
    unfolding rt_init_def by (rule conjI, rule exI [of _ "Some zero_config"], rule exI [of _ "[]"], rule exI [of _ NewCooldownRegistry])
      (simp_all add: sample_runtime_defs)
  have pub: "Publish (Some zero_config) [] (ry_manager sample_y0) = (Inr (Some 0, [0]), ry_manager sample_y1)"
    by (simp add: sample_runtime_defs)
  have "rt_step sample_y1 (retire_next 0 sample_y1)" by (rule rt_retire) (simp add: sample_runtime_defs)
  moreover have "rt_step (retire_next 0 sample_y1) sample_y2"
    unfolding sample_y2_def by (rule rt_drain) (simp add: sample_runtime_defs)
  ultimately have r2: "reach rt_step (begin_publish (Some zero_config) [] sample_y0) sample_y2"
    unfolding sample_y1_def [symmetric] by (meson reach_start reach_step)
  have "rt_step sample_y2 (acquire_load 1 sample_y2)" by (rule rt_load) (simp add: sample_runtime_defs)
  moreover have "rt_step (acquire_load 1 sample_y2) sample_y3"
    unfolding sample_y3_def by (rule rt_try) (simp add: sample_runtime_defs)
  ultimately have r3: "reach rt_step sample_y2 sample_y3" by (meson reach_start reach_step)
  have pending: "Pending (ry_manager sample_y2) (newRetirement (ry_manager sample_y1) [0]) = 0"
    by (simp add: sample_runtime_defs Pending_def newRetirement_def)
  have "ry_retiring sample_y0 = []" by (simp add: sample_y0_def)
  note safe = retirement_safe [OF init reach_start pub r2 pending r3 this]
  have "snap_count sample_y0 = 1" "rm_generation (ry_manager sample_y1) = 2" "(1, False) \<in> set (ry_leases sample_y3)"
    by (simp_all add: sample_runtime_defs)
  then show ?thesis using safe by fastforce
qed

end
