(* ===== verification/Provider_Manager.thy ===== *)
theory Provider_Manager
  imports Provider_Events Runtime_Manager
begin

text \<open>
  The provider manager of \<open>internal/provider/manager.go\<close>: it builds provider instances from
  registered factories, publishes them as a runtime generation
  (\<^const>\<open>PublishProviders\<close>) and closes replaced instances once no request can use them.

  \<^item> An instance is a reference, numbered in the order of construction, and what its interface
    answers. The manager's record carries the number of instances built and the references
    closed so far, in order.
  \<^item> A factory is its descriptor and what its functions answer; the configuration of a provider
    is opaque, of type \<open>'c\<close>. The fingerprint of a configuration (\<open>None\<close> when it cannot be
    encoded), the health of an instance and whether closing it succeeds in time are parameters.
  \<^item> A mutation holds the mutex \<open>mutations\<close> until its publication, so that it is one transition
    up to there; waiting for the drain and closing come later.
\<close>

section \<open>Types\<close>

record provider_instance =
  in_ref :: nat
  in_info :: provider_info

datatype build_result = BuildFailed | BuildNil | Built provider_info

record 'c factory =
  fc_descriptor :: descriptor
  fc_validate_config :: "'c \<Rightarrow> bool"
  fc_build :: "'c \<Rightarrow> build_result"
  fc_validate_provider :: "provider_info \<Rightarrow> bool"

record account_state =
  as_ID :: string
  as_Label :: string
  as_Enabled :: bool
  as_Priority :: int

record 'c desired_provider =
  dp_ID :: provider_id
  dp_Enabled :: bool
  dp_Config :: 'c
  dp_ConfigFingerprint :: string
  dp_Accounts :: "account_state list"

record desired_record =
  dr_enabled :: bool
  dr_accounts :: "account_state list"
  dr_fingerprint :: string

record effective_record =
  er_provider :: provider_instance
  er_generation :: nat

record 'c provider_env =
  pe_now :: gotime
  pe_health :: "nat \<Rightarrow> health"
  pe_fingerprint :: "'c \<Rightarrow> string option"

record 'c provider_manager =
  pm_health :: health_registry
  pm_events :: event_bus
  pm_factories :: "(provider_id, 'c factory) gomap"
  pm_factoryOrder :: "provider_id list"
  pm_desired :: "(provider_id, desired_record) gomap"
  pm_effective :: "(provider_id, effective_record) gomap"
  pm_built :: nat
  pm_closed :: "nat list"

datatype manager_error =
    FactoryRequired | InvalidDescriptor descriptor_error | FactoryExists provider_id | FactoryMissing
  | ContextDone | DesiredIDRequired | DesiredDuplicated provider_id | AccountIDRequired | AccountPriority string
  | AccountDuplicated string | InvalidProviderConfig | ConstructFailed | ConstructNil | ConstructedID provider_id
  | UndescribedCapability capability | InvalidInstance | PublicationFailed runtime_error

text \<open>What a mutation has published: the pointer swapped out, the snapshots live before, the
  generation, the instances in the snapshot, and those to drain.\<close>

record provider_publication =
  pb_old :: "nat option"
  pb_prior :: "nat list"
  pb_generation :: nat
  pb_instances :: "provider_instance list"
  pb_retired :: "provider_instance list"

definition NewProviderManager :: "health_registry option \<Rightarrow> event_bus option \<Rightarrow> 'c provider_manager" where
  "NewProviderManager h events =
     \<lparr>pm_health = (case h of None \<Rightarrow> [] | Some h \<Rightarrow> h),
      pm_events = (case events of None \<Rightarrow> NewEventBus 256 | Some e \<Rightarrow> e),
      pm_factories = [], pm_factoryOrder = [], pm_desired = [], pm_effective = [], pm_built = 0, pm_closed = []\<rparr>"

section \<open>Helpers\<close>

definition emit :: "'c provider_env \<Rightarrow> lifecycle_event \<Rightarrow> 'c provider_manager \<Rightarrow> 'c provider_manager" where
  "emit env e m = m\<lparr>pm_events := bus_Publish (pe_now env) e (pm_events m)\<rparr>"

definition set_health :: "'c provider_env \<Rightarrow> health_record \<Rightarrow> 'c provider_manager \<Rightarrow> 'c provider_manager" where
  "set_health env r m = m\<lparr>pm_health := health_Set (pe_now env) r (pm_health m)\<rparr>"

definition closeProviders :: "provider_instance list \<Rightarrow> 'c provider_manager \<Rightarrow> 'c provider_manager" where
  "closeProviders ps m = m\<lparr>pm_closed := pm_closed m @ map in_ref ps\<rparr>"

fun validate_accounts_seen :: "string list \<Rightarrow> account_state list \<Rightarrow> manager_error option" where
  "validate_accounts_seen seen [] = None"
| "validate_accounts_seen seen (account # rest) =
     (if as_ID account = '''' then Some AccountIDRequired
      else if as_Priority account < 0 then Some (AccountPriority (as_ID account))
      else if as_ID account \<in> set seen then Some (AccountDuplicated (as_ID account))
      else validate_accounts_seen (as_ID account # seen) rest)"

definition validateAccounts :: "account_state list \<Rightarrow> manager_error option" where
  "validateAccounts accounts = validate_accounts_seen [] accounts"

definition validateCapabilities :: "descriptor \<Rightarrow> provider_info \<Rightarrow> manager_error option" where
  "validateCapabilities d p =
     map_option UndescribedCapability (find (\<lambda>c. c \<notin> set (ds_Capabilities d)) (pr_capabilities p))"

definition desiredFingerprint :: "'c provider_env \<Rightarrow> 'c desired_provider \<Rightarrow> string option" where
  "desiredFingerprint env spec =
     (if dp_ConfigFingerprint spec \<noteq> '''' then Some (dp_ConfigFingerprint spec) else pe_fingerprint env (dp_Config spec))"

text \<open>A fingerprint that could not be computed is stored as the empty string.\<close>

definition stored_fingerprint :: "string option \<Rightarrow> string" where
  "stored_fingerprint fp = (case fp of None \<Rightarrow> '''' | Some s \<Rightarrow> s)"

definition providersFromEffective :: "(provider_id, effective_record) gomap \<Rightarrow> provider_id list \<Rightarrow> provider_instance list" where
  "providersFromEffective eff order =
     (let listed = filter (has_key eff) order;
          providers = map (\<lambda>pid. er_provider (the (map_of eff pid))) listed
      in if length providers \<noteq> length eff
         then providers @ map (\<lambda>pid. er_provider (the (map_of eff pid))) (sort (filter (\<lambda>pid. pid \<notin> set listed) (keys_of eff)))
         else providers)"

definition with_generation :: "nat \<Rightarrow> (provider_id, effective_record) gomap \<Rightarrow> (provider_id, effective_record) gomap" where
  "with_generation generation eff = map (\<lambda>(pid, r). (pid, r\<lparr>er_generation := generation\<rparr>)) eff"

definition publish_effective ::
    "(provider_id, effective_record) gomap \<Rightarrow> provider_id list \<Rightarrow> rt_manager \<Rightarrow>
     (runtime_error + (nat option \<times> nat list)) \<times> rt_manager" where
  "publish_effective eff order rt = PublishProviders (map (Some \<circ> in_info) (providersFromEffective eff order)) rt"

definition updateHealth :: "'c provider_env \<Rightarrow> nat \<Rightarrow> 'c provider_manager \<Rightarrow> 'c provider_manager" where
  "updateHealth env generation m =
     fold (\<lambda>pid m. case map_of (pm_effective m) pid of
             None \<Rightarrow> set_health env (health_entry pid StateDisabled zero_health generation) m
           | Some r \<Rightarrow>
               let h = pe_health env (in_ref (er_provider r))
               in set_health env (health_entry pid (stateFromHealth h) h generation) m)
       (pm_factoryOrder m) m"

definition build :: "'c provider_env \<Rightarrow> 'c factory \<Rightarrow> 'c \<Rightarrow> 'c provider_manager \<Rightarrow> (manager_error + provider_instance) \<times> 'c provider_manager" where
  "build env factory cfg m =
     (let d = fc_descriptor factory;
          m = emit env (event EventConstructing (ds_ID d) 0 '''' 0) m
      in if \<not> fc_validate_config factory cfg then (Inl InvalidProviderConfig, m)
         else case fc_build factory cfg of
           BuildFailed \<Rightarrow> (Inl ConstructFailed, m)
         | BuildNil \<Rightarrow> (Inl ConstructNil, m)
         | Built p \<Rightarrow>
             let registered = \<lparr>in_ref = pm_built m, in_info = p\<rparr>; m = m\<lparr>pm_built := pm_built m + 1\<rparr>
             in if pr_id p \<noteq> ds_ID d then (Inl (ConstructedID (pr_id p)), closeProviders [registered] m)
                else
                  let m = emit env (event EventValidating (ds_ID d) 0 '''' 0) m
                  in case validateCapabilities d p of
                    Some e \<Rightarrow> (Inl e, closeProviders [registered] m)
                  | None \<Rightarrow>
                      if fc_validate_provider factory p then (Inr registered, m)
                      else (Inl InvalidInstance, closeProviders [registered] m))"

section \<open>Registration\<close>

definition RegisterFactory :: "'c provider_env \<Rightarrow> 'c factory option \<Rightarrow> 'c provider_manager \<Rightarrow> manager_error option \<times> 'c provider_manager" where
  "RegisterFactory env factory m =
     (case factory of None \<Rightarrow> (Some FactoryRequired, m)
      | Some factory \<Rightarrow>
        let d = fc_descriptor factory in
        case ValidateDescriptor d of Some e \<Rightarrow> (Some (InvalidDescriptor e), m)
        | None \<Rightarrow>
          if has_key (pm_factories m) (ds_ID d) then (Some (FactoryExists (ds_ID d)), m)
          else
            let m = m\<lparr>pm_factories := AList.update (ds_ID d) factory (pm_factories m),
                      pm_factoryOrder := pm_factoryOrder m @ [ds_ID d]\<rparr>;
                m = set_health env (health_entry (ds_ID d) StateDisabled zero_health 0) m
            in (None, emit env (event EventFactoryRegistered (ds_ID d) 0 '''' 0) m))"

section \<open>Reconciliation\<close>

fun collect_requested ::
    "(provider_id, 'c desired_provider) gomap \<Rightarrow> 'c desired_provider list \<Rightarrow> manager_error + (provider_id, 'c desired_provider) gomap" where
  "collect_requested requested [] = Inr requested"
| "collect_requested requested (spec # rest) =
     (if dp_ID spec = '''' then Inl DesiredIDRequired
      else if has_key requested (dp_ID spec) then Inl (DesiredDuplicated (dp_ID spec))
      else case validateAccounts (dp_Accounts spec) of
        Some e \<Rightarrow> Inl e
      | None \<Rightarrow> collect_requested (AList.update (dp_ID spec) spec requested) rest)"

record reconcile_state =
  rs_nextEffective :: "(provider_id, effective_record) gomap"
  rs_newlyBuilt :: "provider_instance list"
  rs_reused :: "provider_id list"
  rs_changed :: bool

definition reusable :: "'c provider_env \<Rightarrow> 'c provider_manager \<Rightarrow> provider_id \<Rightarrow> 'c desired_provider \<Rightarrow> effective_record option" where
  "reusable env old pid spec =
     (case (desiredFingerprint env spec, map_of (pm_desired old) pid, map_of (pm_effective old) pid) of
        (Some fp, Some prior, Some eff) \<Rightarrow> if dr_enabled prior \<and> dr_fingerprint prior = fp then Some eff else None
      | _ \<Rightarrow> None)"

fun reconcile_loop ::
    "'c provider_env \<Rightarrow> 'c provider_manager \<Rightarrow> (provider_id, 'c desired_provider) gomap \<Rightarrow> provider_id list \<Rightarrow> reconcile_state \<Rightarrow>
     'c provider_manager \<Rightarrow> (manager_error + reconcile_state) \<times> 'c provider_manager" where
  "reconcile_loop env old requested [] rs m = (Inr rs, m)"
| "reconcile_loop env old requested (pid # rest) rs m =
     (case map_of requested pid of
        None \<Rightarrow> reconcile_loop env old requested rest (rs\<lparr>rs_changed := rs_changed rs \<or> has_key (pm_effective old) pid\<rparr>) m
      | Some spec \<Rightarrow>
          if \<not> dp_Enabled spec
          then reconcile_loop env old requested rest (rs\<lparr>rs_changed := rs_changed rs \<or> has_key (pm_effective old) pid\<rparr>) m
          else case reusable env old pid spec of
            Some eff \<Rightarrow>
              reconcile_loop env old requested rest
                (rs\<lparr>rs_nextEffective := AList.update pid eff (rs_nextEffective rs), rs_reused := pid # rs_reused rs\<rparr>) m
          | None \<Rightarrow>
              (case build env (the (map_of (pm_factories old) pid)) (dp_Config spec) m of
                 (Inl e, m) \<Rightarrow>
                   (Inl e, emit env (event EventReconcileFailed pid 0 ''build_or_validation_failed'' 0)
                             (closeProviders (rs_newlyBuilt rs) m))
               | (Inr registered, m) \<Rightarrow>
                   reconcile_loop env old requested rest
                     (rs\<lparr>rs_changed := True, rs_newlyBuilt := rs_newlyBuilt rs @ [registered],
                         rs_nextEffective := AList.update pid \<lparr>er_provider = registered, er_generation = 0\<rparr> (rs_nextEffective rs)\<rparr>) m))"

definition next_desired :: "'c provider_env \<Rightarrow> (provider_id, 'c desired_provider) gomap \<Rightarrow> (provider_id, desired_record) gomap" where
  "next_desired env requested =
     map (\<lambda>(pid, spec). (pid, \<lparr>dr_enabled = dp_Enabled spec, dr_accounts = dp_Accounts spec,
                               dr_fingerprint = stored_fingerprint (desiredFingerprint env spec)\<rparr>)) requested"

type_synonym 'c mutation_return = "(manager_error + provider_publication option) \<times> 'c provider_manager \<times> rt_manager"

definition Reconcile ::
    "'c provider_env \<Rightarrow> bool \<Rightarrow> 'c desired_provider list \<Rightarrow> 'c provider_manager \<Rightarrow> rt_manager \<Rightarrow> 'c mutation_return" where
  "Reconcile env cancelled specs m rt =
     (if cancelled then (Inl ContextDone, m, rt)
      else case collect_requested [] specs of Inl e \<Rightarrow> (Inl e, m, rt)
      | Inr requested \<Rightarrow>
        if list_ex (\<lambda>pid. \<not> has_key (pm_factories m) pid) (keys_of requested) then (Inl FactoryMissing, m, rt)
        else case reconcile_loop env m requested (pm_factoryOrder m)
                    \<lparr>rs_nextEffective = [], rs_newlyBuilt = [], rs_reused = [], rs_changed = False\<rparr> m of
          (Inl e, m') \<Rightarrow> (Inl e, m', rt)
        | (Inr rs, m') \<Rightarrow>
            if \<not> rs_changed rs then (Inr None, m'\<lparr>pm_desired := next_desired env requested\<rparr>, rt)
            else case publish_effective (rs_nextEffective rs) (pm_factoryOrder m) rt of
              (Inl e, rt) \<Rightarrow>
                (Inl (PublicationFailed e),
                 emit env (event EventReconcileFailed '''' 0 ''publication_failed'' 0) (closeProviders (rs_newlyBuilt rs) m'), rt)
            | (Inr (old, prior), rt) \<Rightarrow>
                let generation = rm_generation rt;
                    eff = with_generation generation (rs_nextEffective rs);
                    m' = m'\<lparr>pm_effective := eff, pm_desired := next_desired env requested\<rparr>;
                    m' = updateHealth env generation m';
                    m' = fold (\<lambda>pid m. if has_key eff pid then emit env (event EventPublished pid generation '''' 0) m else m)
                           (pm_factoryOrder m) m';
                    retired = providersFromEffective (filter (\<lambda>(pid, r). pid \<notin> set (rs_reused rs)) (pm_effective m)) (pm_factoryOrder m)
                in (Inr (Some \<lparr>pb_old = old, pb_prior = prior, pb_generation = generation,
                              pb_instances = providersFromEffective eff (pm_factoryOrder m), pb_retired = retired\<rparr>), m', rt))"

section \<open>Single replacements\<close>

definition zero_desired :: desired_record where
  "zero_desired = \<lparr>dr_enabled = False, dr_accounts = [], dr_fingerprint = ''''\<rparr>"

definition desired_of :: "'c provider_manager \<Rightarrow> provider_id \<Rightarrow> desired_record" where
  "desired_of m pid = (case map_of (pm_desired m) pid of None \<Rightarrow> zero_desired | Some r \<Rightarrow> r)"

definition Replace ::
    "'c provider_env \<Rightarrow> bool \<Rightarrow> provider_id \<Rightarrow> 'c \<Rightarrow> 'c provider_manager \<Rightarrow> rt_manager \<Rightarrow> 'c mutation_return" where
  "Replace env cancelled pid cfg m rt =
     (if cancelled then (Inl ContextDone, m, rt)
      else case map_of (pm_factories m) pid of None \<Rightarrow> (Inl FactoryMissing, m, rt)
      | Some factory \<Rightarrow>
        (case build env factory cfg m of
           (Inl e, m') \<Rightarrow> (Inl e, emit env (event EventReconcileFailed pid 0 ''build_or_validation_failed'' 0) m', rt)
         | (Inr replacement, m') \<Rightarrow>
             let nextEffective = AList.update pid \<lparr>er_provider = replacement, er_generation = 0\<rparr> (pm_effective m)
             in case publish_effective nextEffective (pm_factoryOrder m) rt of
               (Inl e, rt) \<Rightarrow> (Inl (PublicationFailed e), closeProviders [replacement] m', rt)
             | (Inr (old, prior), rt) \<Rightarrow>
                 let generation = rm_generation rt;
                     eff = with_generation generation nextEffective;
                     record = (desired_of m pid)\<lparr>dr_enabled := True, dr_fingerprint := stored_fingerprint (pe_fingerprint env cfg)\<rparr>;
                     m' = m'\<lparr>pm_effective := eff, pm_desired := AList.update pid record (pm_desired m')\<rparr>;
                     m' = emit env (event EventPublished pid generation '''' 0) (updateHealth env generation m');
                     retired = (case map_of (pm_effective m) pid of None \<Rightarrow> [] | Some r \<Rightarrow> [er_provider r])
                 in (Inr (Some \<lparr>pb_old = old, pb_prior = prior, pb_generation = generation,
                               pb_instances = providersFromEffective eff (pm_factoryOrder m), pb_retired = retired\<rparr>), m', rt)))"

definition prepareRemoveLocked ::
    "'c provider_env \<Rightarrow> provider_id \<Rightarrow> 'c provider_manager \<Rightarrow> rt_manager \<Rightarrow> 'c mutation_return" where
  "prepareRemoveLocked env pid m rt =
     (if \<not> has_key (pm_factories m) pid then (Inl FactoryMissing, m, rt)
      else
        let record = (desired_of m pid)\<lparr>dr_enabled := False\<rparr> in
        case map_of (pm_effective m) pid of
          None \<Rightarrow>
            (Inr None, set_health env (health_entry pid StateDisabled zero_health 0)
                         (m\<lparr>pm_desired := AList.update pid record (pm_desired m)\<rparr>), rt)
        | Some old_record \<Rightarrow>
            (let remaining = AList.delete pid (pm_effective m) in
             case publish_effective remaining (pm_factoryOrder m) rt of
               (Inl e, rt) \<Rightarrow> (Inl (PublicationFailed e), m, rt)
             | (Inr (old, prior), rt) \<Rightarrow>
                 let generation = rm_generation rt;
                     eff = with_generation generation remaining;
                     m' = m\<lparr>pm_effective := eff, pm_desired := AList.update pid record (pm_desired m)\<rparr>;
                     m' = set_health env (health_entry pid StateDisabled zero_health generation) m';
                     m' = emit env (event EventRemoved pid generation '''' 0) m'
                 in (Inr (Some \<lparr>pb_old = old, pb_prior = prior, pb_generation = generation,
                               pb_instances = providersFromEffective eff (pm_factoryOrder m),
                               pb_retired = [er_provider old_record]\<rparr>), m', rt)))"

definition Remove ::
    "'c provider_env \<Rightarrow> bool \<Rightarrow> provider_id \<Rightarrow> 'c provider_manager \<Rightarrow> rt_manager \<Rightarrow> 'c mutation_return" where
  "Remove env cancelled pid m rt = (if cancelled then (Inl ContextDone, m, rt) else prepareRemoveLocked env pid m rt)"

definition UnregisterFactory ::
    "'c provider_env \<Rightarrow> bool \<Rightarrow> provider_id \<Rightarrow> 'c provider_manager \<Rightarrow> rt_manager \<Rightarrow> 'c mutation_return" where
  "UnregisterFactory env cancelled pid m rt =
     (if cancelled then (Inl ContextDone, m, rt)
      else if \<not> has_key (pm_factories m) pid then (Inl FactoryMissing, m, rt)
      else case prepareRemoveLocked env pid m rt of
        (Inl e, m, rt) \<Rightarrow> (Inl e, m, rt)
      | (Inr plan, m, rt) \<Rightarrow>
          let m = m\<lparr>pm_factories := AList.delete pid (pm_factories m), pm_desired := AList.delete pid (pm_desired m),
                    pm_factoryOrder := remove1 pid (pm_factoryOrder m), pm_health := health_Remove pid (pm_health m)\<rparr>
          in (Inr plan, emit env (event EventFactoryUnregistered pid 0 '''' 0) m, rt))"

section \<open>Reading\<close>

definition ActiveProviders :: "'c provider_manager \<Rightarrow> provider_instance list" where
  "ActiveProviders m = providersFromEffective (pm_effective m) (pm_factoryOrder m)"

record provider_status =
  st_Descriptor :: descriptor
  st_Enabled :: bool
  st_EffectiveCapabilities :: "capability list"
  st_Accounts :: "account_state list"
  st_Health :: health_record
  st_Generation :: nat

definition manager_List :: "'c provider_manager \<Rightarrow> provider_status list" where
  "manager_List m =
     map (\<lambda>pid.
       let d = desired_of m pid; eff = map_of (pm_effective m) pid
       in \<lparr>st_Descriptor = fc_descriptor (the (map_of (pm_factories m) pid)),
           st_Enabled = (eff \<noteq> None \<and> dr_enabled d),
           st_EffectiveCapabilities = (case eff of None \<Rightarrow> [] | Some r \<Rightarrow> pr_capabilities (in_info (er_provider r))),
           st_Accounts = dr_accounts d,
           st_Health = (case health_Get pid (pm_health m) of Some h \<Rightarrow> h | None \<Rightarrow> health_entry pid StateDisabled zero_health 0),
           st_Generation = (case eff of None \<Rightarrow> 0 | Some r \<Rightarrow> er_generation r)\<rparr>)
       (pm_factoryOrder m)"

definition RefreshHealth :: "'c provider_env \<Rightarrow> 'c provider_manager \<Rightarrow> 'c provider_manager" where
  "RefreshHealth env m =
     fold (\<lambda>(pid, r) m.
       let h = pe_health env (in_ref (er_provider r))
       in set_health env (health_entry pid (stateFromHealth h) h (er_generation r)) m) (pm_effective m) m"

section \<open>Draining\<close>

text \<open>The start of a drain, its end, and what is told when the bounded wait elapses first: the
  instances are then closed later, in the background.\<close>

definition drain_started :: "'c provider_env \<Rightarrow> nat \<Rightarrow> nat \<Rightarrow> provider_instance list \<Rightarrow> 'c provider_manager \<Rightarrow> 'c provider_manager" where
  "drain_started env generation pending retired m =
     fold (\<lambda>p. emit env (event EventDrainStarted (pr_id (in_info p)) generation '''' pending)) retired m"

definition drain_timed_out :: "'c provider_env \<Rightarrow> nat \<Rightarrow> nat \<Rightarrow> provider_instance list \<Rightarrow> 'c provider_manager \<Rightarrow> 'c provider_manager" where
  "drain_timed_out env generation pending retired m =
     fold (\<lambda>p. emit env (event EventDrainTimedOut (pr_id (in_info p)) generation ''bounded_wait_elapsed'' pending)) retired m"

definition publishDrained :: "'c provider_env \<Rightarrow> nat \<Rightarrow> provider_instance list \<Rightarrow> bool \<Rightarrow> 'c provider_manager \<Rightarrow> 'c provider_manager" where
  "publishDrained env generation retired close_failed m =
     fold (\<lambda>p. emit env (event EventDrained (pr_id (in_info p)) generation (if close_failed then ''close_failed'' else '''') 0)) retired m"

definition drain_finished :: "'c provider_env \<Rightarrow> nat \<Rightarrow> provider_instance list \<Rightarrow> bool \<Rightarrow> 'c provider_manager \<Rightarrow> 'c provider_manager" where
  "drain_finished env generation retired close_failed m =
     publishDrained env generation retired close_failed (closeProviders retired m)"

end
