(* ===== verification/Provider_Drain.thy ===== *)
theory Provider_Drain
  imports Provider_Manager
begin

text \<open>
  The provider manager and the runtime together: which instance is in which runtime
  generation, and when it is closed. Every instance ever built is in exactly one of three
  places: it is effective, it waits for a drain, or it is closed; and an instance that waits is
  waited for by every snapshot that still holds it.
\<close>

section \<open>Accounting of instances\<close>

definition refs :: "(provider_id, effective_record) gomap \<Rightarrow> nat list" where
  "refs eff = map (in_ref \<circ> er_provider \<circ> snd) eff"

abbreviation eff_refs :: "'c provider_manager \<Rightarrow> nat list" where
  "eff_refs m \<equiv> refs (pm_effective m)"

text \<open>The part of the manager's record the accounting reads.\<close>

definition same_books :: "'c provider_manager \<Rightarrow> 'c provider_manager \<Rightarrow> bool" where
  "same_books m m' \<longleftrightarrow> pm_effective m' = pm_effective m \<and> pm_built m' = pm_built m \<and> pm_closed m' = pm_closed m
     \<and> pm_factories m' = pm_factories m \<and> pm_factoryOrder m' = pm_factoryOrder m"

lemma same_books_refl [simp]: "same_books m m"
  by (simp add: same_books_def)

lemma same_books_trans: "same_books a b \<Longrightarrow> same_books b c \<Longrightarrow> same_books a c"
  by (simp add: same_books_def)

lemma same_books_emit [simp]: "same_books m (emit env e m)" and same_books_health [simp]: "same_books m (set_health env r m)"
  by (simp_all add: same_books_def emit_def set_health_def)

lemma same_books_fold:
  assumes "\<And>x m. same_books m (f x m)"
  shows "same_books m (fold f xs m)"
proof (induction xs arbitrary: m)
  case (Cons x xs)
  have "same_books m (f x m)" by (rule assms)
  moreover have "same_books (f x m) (fold f xs (f x m))" by (rule Cons.IH)
  ultimately show ?case using same_books_trans by auto
qed simp

lemma same_books_updateHealth: "same_books m (updateHealth env g m)"
  unfolding updateHealth_def by (rule same_books_fold) (simp add: Let_def split: option.split)

lemma same_books_RefreshHealth: "same_books m (RefreshHealth env m)"
  unfolding RefreshHealth_def by (rule same_books_fold) (simp add: Let_def split: prod.split)

lemma same_books_published:
  "same_books m (fold (\<lambda>pid m. if has_key eff pid then emit env (event EventPublished pid g '''' 0) m else m) order m)"
  by (rule same_books_fold) simp

lemma same_books_drain_started: "same_books m (drain_started env g n ps m)"
  and same_books_drain_timed_out: "same_books m (drain_timed_out env g n ps m)"
  and same_books_publishDrained: "same_books m (publishDrained env g ps b m)"
  unfolding drain_started_def drain_timed_out_def publishDrained_def by (rule same_books_fold, simp)+

text \<open>Building allocates one reference, and closes it when the instance is not returned.\<close>

lemma build_books:
  assumes "build env factory cfg m = (r, m')"
  shows "pm_effective m' = pm_effective m \<and> pm_factories m' = pm_factories m \<and> pm_factoryOrder m' = pm_factoryOrder m
    \<and> pm_desired m' = pm_desired m
    \<and> (case r of
        Inr p \<Rightarrow> in_ref p = pm_built m \<and> pm_built m' = Suc (pm_built m) \<and> pm_closed m' = pm_closed m
      | Inl e \<Rightarrow> pm_built m' = pm_built m \<and> pm_closed m' = pm_closed m
          \<or> pm_built m' = Suc (pm_built m) \<and> pm_closed m' = pm_closed m @ [pm_built m])"
  using assms
  by (auto simp: build_def Let_def emit_def closeProviders_def split: if_splits build_result.splits option.splits)

definition built_refs :: "nat \<Rightarrow> nat multiset" where
  "built_refs n = mset [0..<n]"

lemma built_refs_simps [simp]: "built_refs 0 = {#}" "built_refs (Suc n) = add_mset n (built_refs n)"
  by (simp_all only: built_refs_def upt_Suc_append le0 mset_append mset.simps) auto

lemma size_built_refs [simp]: "size (built_refs n) = n"
  by (simp only: built_refs_def size_mset length_upt diff_zero)

lemma count_built_refs: "count (built_refs n) r = (if r < n then 1 else 0)"
  by (simp add: built_refs_def count_mset)

section \<open>Published instances\<close>

lemma mset_map_of_keys:
  assumes "wf_map eff"
  shows "mset (map (\<lambda>pid. er_provider (the (map_of eff pid))) (keys_of eff)) = mset (map (er_provider \<circ> snd) eff)"
proof -
  have "map (\<lambda>pid. er_provider (the (map_of eff pid))) (keys_of eff) = map (er_provider \<circ> snd) eff"
    using assms by (auto simp: keys_of_def wf_map_Some_iff [OF assms, THEN iffD2])
  then show ?thesis by simp
qed

lemma providersFromEffective_mset:
  assumes wf: "wf_map eff" and d: "distinct order"
  shows "mset (providersFromEffective eff order) = mset (map (er_provider \<circ> snd) eff)"
proof -
  let ?listed = "filter (has_key eff) order" and ?get = "\<lambda>pid. er_provider (the (map_of eff pid))"
  let ?rest = "filter (\<lambda>pid. pid \<notin> set ?listed) (keys_of eff)"
  have keys: "distinct (keys_of eff)" using wf by (simp add: wf_map_def)
  have sub: "set ?listed \<subseteq> set (keys_of eff)" by (auto simp: has_key_iff)
  have part: "mset ?listed + mset ?rest = mset (keys_of eff)"
  proof -
    have "mset ?listed = mset (filter (\<lambda>pid. pid \<in> set ?listed) (keys_of eff))"
      using d keys sub by (intro set_eq_iff_mset_eq_distinct [THEN iffD1]) auto
    then show ?thesis using multiset_partition [of "mset (keys_of eff)" "\<lambda>pid. pid \<in> set ?listed"]
      by (simp only: mset_filter [symmetric])
  qed
  have "mset (providersFromEffective eff order) = image_mset ?get (mset ?listed) + image_mset ?get (mset ?rest)"
  proof (cases "length ?listed = length eff")
    case True
    have "length ?listed + length ?rest = length (keys_of eff)" by (metis part size_mset size_union)
    moreover have "length (keys_of eff) = length eff" by (simp add: keys_of_def)
    ultimately have "?rest = []" using True by simp
    then have "mset ?rest = {#}" by (simp only: mset.simps)
    then show ?thesis using True by (simp add: providersFromEffective_def Let_def del: mset_filter)
  next
    case False
    then show ?thesis by (simp add: providersFromEffective_def Let_def)
  qed
  also have "\<dots> = mset (map ?get (keys_of eff))" using part by (metis image_mset_union mset_map)
  finally show ?thesis using mset_map_of_keys [OF wf] by simp
qed

lemma providersFromEffective_refs:
  "wf_map eff \<Longrightarrow> distinct order \<Longrightarrow> mset (map in_ref (providersFromEffective eff order)) = mset (refs eff)"
  using providersFromEffective_mset [of eff order] by (simp add: refs_def) (metis comp_assoc image_mset.compositionality)

lemma refs_with_generation [simp]: "refs (with_generation g eff) = refs eff"
  by (simp add: refs_def with_generation_def case_prod_unfold)

lemma wf_with_generation [simp]: "wf_map (with_generation g eff) = wf_map eff"
  by (simp add: wf_map_def with_generation_def keys_of_def case_prod_unfold comp_def)

section \<open>Effects of the operations\<close>

definition mgr_ok :: "'c provider_manager \<Rightarrow> bool" where
  "mgr_ok m \<longleftrightarrow> wf_map (pm_effective m) \<and> distinct (pm_factoryOrder m)
     \<and> set (pm_factoryOrder m) = set (keys_of (pm_factories m))"

definition balanced :: "'c provider_manager \<Rightarrow> 'c provider_manager \<Rightarrow> nat list \<Rightarrow> bool" where
  "balanced m m' waiting \<longleftrightarrow>
     mset (eff_refs m') + mset waiting + mset (pm_closed m') + built_refs (pm_built m)
       = mset (eff_refs m) + mset (pm_closed m) + built_refs (pm_built m')"

definition op_ok :: "'c provider_manager \<Rightarrow> rt_manager \<Rightarrow> 'c mutation_return \<Rightarrow> bool" where
  "op_ok m rt ret \<longleftrightarrow> (case ret of (r, m', rt') \<Rightarrow> mgr_ok m' \<and>
     (case r of
        Inr (Some p) \<Rightarrow>
          balanced m m' (map in_ref (pb_retired p)) \<and> pm_closed m' = pm_closed m \<and> pm_built m \<le> pm_built m'
          \<and> mset (map in_ref (pb_instances p)) = mset (eff_refs m')
          \<and> (\<exists>ps. PublishProviders ps rt = (Inr (pb_old p, pb_prior p), rt'))
      | _ \<Rightarrow> rt' = rt \<and> pm_effective m' = pm_effective m \<and> balanced m m' []))"

lemma op_ok_keptI:
  "mgr_ok m' \<Longrightarrow> pm_effective m' = pm_effective m \<Longrightarrow>
   mset (pm_closed m') + built_refs (pm_built m) = mset (pm_closed m) + built_refs (pm_built m') \<Longrightarrow>
   r = Inr None \<or> (\<exists>e. r = Inl e) \<Longrightarrow> op_ok m rt (r, m', rt)"
  by (auto simp: op_ok_def balanced_def)

lemma op_ok_publishedI:
  assumes "PublishProviders ps rt = (Inr (old, prior), rt')" and "mgr_ok m'" and "pm_closed m' = pm_closed m" and "pm_built m \<le> pm_built m'"
    and "mset (eff_refs m') + mset (map in_ref retired) + built_refs (pm_built m) = mset (eff_refs m) + built_refs (pm_built m')"
    and "mset (map in_ref instances) = mset (eff_refs m')"
  shows "op_ok m rt (Inr (Some \<lparr>pb_old = old, pb_prior = prior, pb_generation = g, pb_instances = instances, pb_retired = retired\<rparr>), m', rt')"
  using assms unfolding op_ok_def balanced_def by (auto simp: ac_simps)

lemma same_books_mgr_ok: "same_books m m' \<Longrightarrow> mgr_ok m' = mgr_ok m"
  by (simp add: same_books_def mgr_ok_def)

lemma PublishProviders_error: "PublishProviders ps rt = (Inl e, rt') \<Longrightarrow> rt' = rt"
  by (auto simp: PublishProviders_def publishLocked_def Let_def split: if_splits option.splits sum.splits)

lemma mset_filter_entry:
  assumes "wf_map eff" and "map_of eff pid = Some r" and "pid \<notin> set R"
  shows "mset (filter (\<lambda>(k, v). k \<in> set (pid # R)) eff) = add_mset (pid, r) (mset (filter (\<lambda>(k, v). k \<in> set R) eff))"
proof -
  obtain a b where ab: "eff = a @ (pid, r) # b" using map_of_SomeD [OF assms(2)] split_list by metis
  have no: "pid \<notin> fst ` set a" "pid \<notin> fst ` set b" using assms(1) by (auto simp: ab wf_map_def keys_of_def)
  have "filter (\<lambda>(k, v). k \<in> set (pid # R)) xs = filter (\<lambda>(k, v). k \<in> set R) xs" if "pid \<notin> fst ` set xs" for xs
    by (rule filter_cong) (use that in \<open>force simp: image_iff\<close>)+
  from this [OF no(1)] this [OF no(2)] show ?thesis using assms(3) by (simp add: ab del: mset_filter)
qed

lemma refs_update_new: "\<not> has_key eff pid \<Longrightarrow> mset (refs (AList.update pid r eff)) = add_mset (in_ref (er_provider r)) (mset (refs eff))"
proof (induction eff)
  case (Cons e eff)
  then show ?case by (cases e) (auto simp: refs_def has_key_def split: if_splits)
qed (simp add: refs_def)

text \<open>The loop that builds or reuses one instance per enabled provider.\<close>

definition loop_ok :: "'c provider_manager \<Rightarrow> provider_id list \<Rightarrow> reconcile_state \<Rightarrow> 'c provider_manager \<Rightarrow> bool" where
  "loop_ok old rest rs m \<longleftrightarrow>
     wf_map (rs_nextEffective rs) \<and> (\<forall>pid \<in> set rest. \<not> has_key (rs_nextEffective rs) pid \<and> pid \<notin> set (rs_reused rs))
     \<and> mset (refs (rs_nextEffective rs)) = mset (map in_ref (rs_newlyBuilt rs))
         + mset (refs (filter (\<lambda>(k, v). k \<in> set (rs_reused rs)) (pm_effective old)))
     \<and> mset (map in_ref (rs_newlyBuilt rs)) + built_refs (pm_built old) = built_refs (pm_built m)
     \<and> (rs_newlyBuilt rs = [] \<or> rs_changed rs)
     \<and> pm_closed m = pm_closed old \<and> pm_effective m = pm_effective old
     \<and> pm_factories m = pm_factories old \<and> pm_factoryOrder m = pm_factoryOrder old"

definition loop_result :: "'c provider_manager \<Rightarrow> (manager_error + reconcile_state) \<times> 'c provider_manager \<Rightarrow> bool" where
  "loop_result old ret \<longleftrightarrow> (case ret of
     (Inr rs, m) \<Rightarrow> loop_ok old [] rs m
   | (Inl e, m) \<Rightarrow> pm_effective m = pm_effective old \<and> pm_factories m = pm_factories old \<and> pm_factoryOrder m = pm_factoryOrder old
       \<and> mset (pm_closed m) + built_refs (pm_built old) = mset (pm_closed old) + built_refs (pm_built m))"

lemma loop_skip: "loop_ok old (pid # rest) rs m \<Longrightarrow> loop_ok old rest (rs\<lparr>rs_changed := rs_changed rs \<or> c\<rparr>) m"
  by (auto simp: loop_ok_def)

lemma loop_reuse:
  assumes "loop_ok old (pid # rest) rs m" and "reusable env old pid spec = Some eff" and "wf_map (pm_effective old)"
    and "pid \<notin> set rest"
  shows "loop_ok old rest (rs\<lparr>rs_nextEffective := AList.update pid eff (rs_nextEffective rs), rs_reused := pid # rs_reused rs\<rparr>) m"
proof -
  have e: "map_of (pm_effective old) pid = Some eff"
    using assms(2) by (auto simp: reusable_def split: option.splits if_splits)
  have new: "\<not> has_key (rs_nextEffective rs) pid" "pid \<notin> set (rs_reused rs)" using assms(1) by (auto simp: loop_ok_def)
  have "mset (refs (filter (\<lambda>(k, v). k \<in> set (pid # rs_reused rs)) (pm_effective old)))
      = add_mset (in_ref (er_provider eff)) (mset (refs (filter (\<lambda>(k, v). k \<in> set (rs_reused rs)) (pm_effective old))))"
    using mset_filter_entry [OF assms(3) e new(2)] unfolding refs_def mset_map by simp
  then show ?thesis using assms(1,4) refs_update_new [OF new(1), of eff] unfolding loop_ok_def by auto
qed

lemma loop_build:
  assumes "loop_ok old (pid # rest) rs m" and "build env factory cfg m = (Inr p, m')" and "pid \<notin> set rest"
  shows "loop_ok old rest (rs\<lparr>rs_changed := True, rs_newlyBuilt := rs_newlyBuilt rs @ [p],
     rs_nextEffective := AList.update pid \<lparr>er_provider = p, er_generation = 0\<rparr> (rs_nextEffective rs)\<rparr>) m'"
proof -
  have b: "in_ref p = pm_built m" "pm_built m' = Suc (pm_built m)" "pm_closed m' = pm_closed m" "pm_effective m' = pm_effective m"
    "pm_factories m' = pm_factories m" "pm_factoryOrder m' = pm_factoryOrder m"
    using build_books [OF assms(2)] by auto
  have new: "\<not> has_key (rs_nextEffective rs) pid" using assms(1) by (auto simp: loop_ok_def)
  show ?thesis using assms(1,3) b refs_update_new [OF new, of "\<lparr>er_provider = p, er_generation = 0\<rparr>"]
    unfolding loop_ok_def by auto
qed

lemma reconcile_loop_ok:
  assumes "loop_ok old order rs m" and "wf_map (pm_effective old)" and "distinct order"
  shows "loop_result old (reconcile_loop env old requested order rs m)"
  using assms
proof (induction order arbitrary: rs m)
  case Nil
  then show ?case by (simp add: loop_result_def)
next
  case (Cons pid rest)
  have d: "distinct rest" "pid \<notin> set rest" using Cons.prems(3) by auto
  note skip = Cons.IH [OF loop_skip [OF Cons.prems(1)] Cons.prems(2) d(1)]
  show ?case
  proof (cases "map_of requested pid")
    case None
    then show ?thesis using skip by simp
  next
    case (Some spec)
    show ?thesis
    proof (cases "dp_Enabled spec")
      case False
      then show ?thesis using Some skip by simp
    next
      case True
      show ?thesis
      proof (cases "reusable env old pid spec")
        case r: (Some eff)
        then show ?thesis using Some True Cons.IH [OF loop_reuse [OF Cons.prems(1) r Cons.prems(2) d(2)] Cons.prems(2) d(1)] by simp
      next
        case r: None
        obtain b m' where b: "build env (the (map_of (pm_factories old) pid)) (dp_Config spec) m = (b, m')"
          by (cases "build env (the (map_of (pm_factories old) pid)) (dp_Config spec) m")
        show ?thesis
        proof (cases b)
          case (Inl e)
          then show ?thesis using Some True r b build_books [OF b] Cons.prems(1)
            by (auto simp: loop_result_def loop_ok_def emit_def closeProviders_def)
        next
          case (Inr p)
          then show ?thesis using Some True r b Cons.IH [OF loop_build [OF Cons.prems(1) b [unfolded Inr] d(2)] Cons.prems(2) d(1)] by simp
        qed
      qed
    qed
  qed
qed

lemma refs_partition:
  "mset (refs (filter (\<lambda>(k, v). k \<in> set R) eff)) + mset (refs (filter (\<lambda>(k, v). k \<notin> set R) eff)) = mset (refs eff)"
  by (induction eff) (auto simp: refs_def)

lemma wf_filter_snd: "wf_map eff \<Longrightarrow> wf_map (filter P eff)"
  by (rule wf_map_filter)

lemma publish_books:
  assumes "same_books (m'\<lparr>pm_effective := eff, pm_desired := des\<rparr>) m2" and "pm_factories m' = pm_factories m"
    and "pm_factoryOrder m' = pm_factoryOrder m" and "mgr_ok m" and "wf_map eff"
  shows "mgr_ok m2" "pm_effective m2 = eff" "pm_built m2 = pm_built m'" "pm_closed m2 = pm_closed m'"
  using assms by (simp_all add: same_books_def mgr_ok_def)

definition start_reconcile :: reconcile_state where
  "start_reconcile = \<lparr>rs_nextEffective = [], rs_newlyBuilt = [], rs_reused = [], rs_changed = False\<rparr>"

lemma Reconcile_built:
  assumes ok: "mgr_ok m" and lo: "loop_ok m [] rs m'"
    and loop: "reconcile_loop env m requested (pm_factoryOrder m) start_reconcile m = (Inr rs, m')"
    and rq: "collect_requested [] specs = Inr requested" and go: "\<not> cancelled"
      "\<not> list_ex (\<lambda>pid. \<not> has_key (pm_factories m) pid) (keys_of requested)"
  shows "op_ok m rt (Reconcile env cancelled specs m rt)"
proof -
  let ?order = "pm_factoryOrder m"
  note red = Reconcile_def rq loop [unfolded start_reconcile_def]
  have d: "distinct ?order" "wf_map (pm_effective m)" using ok by (auto simp: mgr_ok_def)
  have m': "mgr_ok m'" "wf_map (rs_nextEffective rs)" using ok lo by (auto simp: mgr_ok_def loop_ok_def)
  obtain pr rt' where pub: "publish_effective (rs_nextEffective rs) ?order rt = (pr, rt')"
    by (cases "publish_effective (rs_nextEffective rs) ?order rt")
  show ?thesis
  proof (cases "rs_changed rs")
    case False
    then have "built_refs (pm_built m') = built_refs (pm_built m)" using lo by (auto simp: loop_ok_def)
    then show ?thesis using False go lo m' by (auto simp: red loop_ok_def mgr_ok_def intro!: op_ok_keptI)
  next
    case True
    show ?thesis
    proof (cases pr)
      case (Inl e)
      then have "rt' = rt" using pub PublishProviders_error by (auto simp: publish_effective_def)
      then show ?thesis using True go Inl pub lo m'(1)
        by (auto simp: red loop_ok_def mgr_ok_def emit_def closeProviders_def ac_simps intro!: op_ok_keptI)
    next
      case (Inr q)
      obtain old prior where q: "q = (old, prior)" by (cases q)
      let ?eff = "with_generation (rm_generation rt') (rs_nextEffective rs)"
      let ?m1 = "m'\<lparr>pm_effective := ?eff, pm_desired := next_desired env requested\<rparr>"
      let ?m2 = "fold (\<lambda>pid m. if has_key ?eff pid then emit env (event EventPublished pid (rm_generation rt') '''' 0) m else m) ?order
        (updateHealth env (rm_generation rt') ?m1)"
      let ?gone = "filter (\<lambda>(pid, r). pid \<notin> set (rs_reused rs)) (pm_effective m)"
      have books: "same_books ?m1 ?m2" using same_books_trans [OF same_books_updateHealth same_books_published] .
      note m2 = publish_books [OF books _ _ ok]
      have lo': "pm_factories m' = pm_factories m" "pm_factoryOrder m' = pm_factoryOrder m" "pm_closed m' = pm_closed m"
        using lo by (auto simp: loop_ok_def)
      have "mset (refs (rs_nextEffective rs)) + mset (refs ?gone) + built_refs (pm_built m) = mset (eff_refs m) + built_refs (pm_built m')"
        using lo refs_partition [of "rs_reused rs" "pm_effective m"] unfolding loop_ok_def by (auto simp: ac_simps)
      moreover have "pm_built m \<le> pm_built m'"
        using lo [unfolded loop_ok_def] by (metis le_add2 size_built_refs size_union)
      ultimately have "op_ok m rt (Inr (Some \<lparr>pb_old = old, pb_prior = prior, pb_generation = rm_generation rt',
          pb_instances = providersFromEffective ?eff ?order, pb_retired = providersFromEffective ?gone ?order\<rparr>), ?m2, rt')"
        using pub q Inr m'(2) d m2 lo' providersFromEffective_refs [of ?eff ?order] providersFromEffective_refs [of ?gone ?order]
        by (intro op_ok_publishedI) (auto simp: publish_effective_def wf_map_filter)
      then show ?thesis using True go q Inr pub by (simp add: red Let_def)
    qed
  qed
qed

lemma Reconcile_op:
  assumes ok: "mgr_ok m"
  shows "op_ok m rt (Reconcile env cancelled specs m rt)"
proof (cases "cancelled \<or> \<not> is_ok (collect_requested [] specs)
    \<or> list_ex (\<lambda>pid. \<not> has_key (pm_factories m) pid) (keys_of (case collect_requested [] specs of Inr q \<Rightarrow> q))")
  case True
  then show ?thesis using ok by (auto simp: Reconcile_def is_ok_def split: sum.splits intro!: op_ok_keptI)
next
  case False
  then obtain requested where rq: "collect_requested [] specs = Inr requested" by (auto elim: is_okE)
  let ?order = "pm_factoryOrder m"
  obtain res m' where loop: "reconcile_loop env m requested ?order start_reconcile m = (res, m')"
    by (cases "reconcile_loop env m requested ?order start_reconcile m")
  have "loop_ok m ?order start_reconcile m" by (simp add: loop_ok_def refs_def has_key_def start_reconcile_def)
  then have lr: "loop_result m (res, m')" using reconcile_loop_ok [of m ?order start_reconcile m env requested] ok loop by (simp add: mgr_ok_def)
  show ?thesis
  proof (cases res)
    case (Inl e)
    then show ?thesis using False rq loop lr ok
      by (auto simp: Reconcile_def loop_result_def mgr_ok_def start_reconcile_def intro!: op_ok_keptI)
  next
    case (Inr rs)
    then show ?thesis using Reconcile_built [OF ok _ _ rq] lr loop False rq by (auto simp: loop_result_def)
  qed
qed

lemma refs_delete:
  assumes "wf_map eff" and "map_of eff pid = Some r"
  shows "add_mset (in_ref (er_provider r)) (mset (refs (AList.delete pid eff))) = mset (refs eff)"
proof -
  obtain a b where ab: "eff = a @ (pid, r) # b" using map_of_SomeD [OF assms(2)] split_list by metis
  have "pid \<notin> fst ` set a" "pid \<notin> fst ` set b" using assms(1) by (auto simp: ab wf_map_def keys_of_def)
  then have "AList.delete pid a = a" "AList.delete pid b = b" by (force simp: AList.delete_eq filter_id_conv image_iff)+
  then show ?thesis by (simp add: ab AList.delete_eq refs_def)
qed

lemma refs_update:
  assumes "wf_map eff"
  shows "mset (refs (AList.update pid \<lparr>er_provider = p, er_generation = g\<rparr> eff))
    + mset (map in_ref (case map_of eff pid of None \<Rightarrow> [] | Some r \<Rightarrow> [er_provider r])) = add_mset (in_ref p) (mset (refs eff))"
  using assms
proof (induction eff)
  case (Cons e eff)
  then show ?case by (cases e) (auto simp: refs_def wf_map_def keys_of_def)
qed (simp add: refs_def)

lemma Replace_op:
  assumes ok: "mgr_ok m"
  shows "op_ok m rt (Replace env cancelled pid cfg m rt)"
proof (cases "cancelled \<or> map_of (pm_factories m) pid = None")
  case True
  then show ?thesis using ok by (auto simp: Replace_def intro!: op_ok_keptI)
next
  case False
  then obtain factory where go: "\<not> cancelled" "map_of (pm_factories m) pid = Some factory" by auto
  obtain b m' where b: "build env factory cfg m = (b, m')" by (cases "build env factory cfg m")
  note books = build_books [OF b]
  have d: "distinct (pm_factoryOrder m)" "wf_map (pm_effective m)" using ok by (auto simp: mgr_ok_def)
  show ?thesis
  proof (cases b)
    case (Inl e)
    then show ?thesis using go b books ok by (auto simp: Replace_def mgr_ok_def emit_def intro!: op_ok_keptI)
  next
    case (Inr p)
    let ?order = "pm_factoryOrder m" and ?nxt = "AList.update pid \<lparr>er_provider = p, er_generation = 0\<rparr> (pm_effective m)"
    obtain pr rt' where pub: "publish_effective ?nxt ?order rt = (pr, rt')" by (cases "publish_effective ?nxt ?order rt")
    show ?thesis
    proof (cases pr)
      case pr: (Inl e)
      then have "rt' = rt" using pub PublishProviders_error by (auto simp: publish_effective_def)
      then show ?thesis using go b Inr pr pub books ok
        by (auto simp: Replace_def mgr_ok_def closeProviders_def intro!: op_ok_keptI)
    next
      case pr: (Inr q)
      obtain old prior where q: "q = (old, prior)" by (cases q)
      let ?eff = "with_generation (rm_generation rt') ?nxt"
      let ?rec = "(desired_of m pid)\<lparr>dr_enabled := True, dr_fingerprint := stored_fingerprint (pe_fingerprint env cfg)\<rparr>"
      let ?m1 = "m'\<lparr>pm_effective := ?eff, pm_desired := AList.update pid ?rec (pm_desired m')\<rparr>"
      let ?m2 = "emit env (event EventPublished pid (rm_generation rt') '''' 0) (updateHealth env (rm_generation rt') ?m1)"
      let ?gone = "case map_of (pm_effective m) pid of None \<Rightarrow> [] | Some r \<Rightarrow> [er_provider r]"
      have "same_books ?m1 ?m2" using same_books_trans [OF same_books_updateHealth same_books_emit] .
      note m2 = publish_books [OF this _ _ ok]
      have bal: "mset (refs ?nxt) + mset (map in_ref ?gone) = add_mset (in_ref p) (mset (eff_refs m))"
        using d(2) by (rule refs_update)
      have "op_ok m rt (Inr (Some \<lparr>pb_old = old, pb_prior = prior, pb_generation = rm_generation rt',
          pb_instances = providersFromEffective ?eff ?order, pb_retired = ?gone\<rparr>), ?m2, rt')"
        using pub q pr d m2 books Inr bal providersFromEffective_refs [of ?eff ?order]
        by (intro op_ok_publishedI) (auto simp: publish_effective_def wf_map_update)
      then show ?thesis using go b Inr q pr pub by (simp add: Replace_def Let_def)
    qed
  qed
qed

lemma prepareRemove_op:
  assumes ok: "mgr_ok m"
  shows "op_ok m rt (prepareRemoveLocked env pid m rt)"
proof (cases "has_key (pm_factories m) pid")
  case False
  then show ?thesis using ok by (auto simp: prepareRemoveLocked_def intro!: op_ok_keptI)
next
  case f: True
  let ?rec = "(desired_of m pid)\<lparr>dr_enabled := False\<rparr>" and ?order = "pm_factoryOrder m"
  show ?thesis
  proof (cases "map_of (pm_effective m) pid")
    case None
    then show ?thesis using f ok
      by (auto simp: prepareRemoveLocked_def Let_def set_health_def mgr_ok_def intro!: op_ok_keptI)
  next
    case (Some r)
    let ?rest = "AList.delete pid (pm_effective m)"
    have d: "distinct ?order" "wf_map (pm_effective m)" using ok by (auto simp: mgr_ok_def)
    obtain pr rt' where pub: "publish_effective ?rest ?order rt = (pr, rt')" by (cases "publish_effective ?rest ?order rt")
    show ?thesis
    proof (cases pr)
      case (Inl e)
      then have "rt' = rt" using pub PublishProviders_error by (auto simp: publish_effective_def)
      then show ?thesis using f Some Inl pub ok by (auto simp: prepareRemoveLocked_def Let_def intro!: op_ok_keptI)
    next
      case (Inr q)
      obtain old prior where q: "q = (old, prior)" by (cases q)
      let ?eff = "with_generation (rm_generation rt') ?rest"
      let ?m1 = "m\<lparr>pm_effective := ?eff, pm_desired := AList.update pid ?rec (pm_desired m)\<rparr>"
      let ?m2 = "emit env (event EventRemoved pid (rm_generation rt') '''' 0)
        (set_health env (health_entry pid StateDisabled zero_health (rm_generation rt')) ?m1)"
      have "same_books ?m1 ?m2" using same_books_trans [OF same_books_health same_books_emit] .
      note m2 = publish_books [OF this _ _ ok]
      have bal: "add_mset (in_ref (er_provider r)) (mset (refs ?rest)) = mset (eff_refs m)"
        using d(2) Some by (rule refs_delete)
      have "op_ok m rt (Inr (Some \<lparr>pb_old = old, pb_prior = prior, pb_generation = rm_generation rt',
          pb_instances = providersFromEffective ?eff ?order, pb_retired = [er_provider r]\<rparr>), ?m2, rt')"
        using pub q Inr d m2 bal providersFromEffective_refs [of ?eff ?order]
        by (intro op_ok_publishedI) (auto simp: publish_effective_def wf_map_delete)
      then show ?thesis using f Some q Inr pub by (simp add: prepareRemoveLocked_def Let_def)
    qed
  qed
qed

lemma Remove_op: "mgr_ok m \<Longrightarrow> op_ok m rt (Remove env cancelled pid m rt)"
  by (auto simp: Remove_def prepareRemove_op intro!: op_ok_keptI)

lemma unregister_books:
  assumes "mgr_ok m"
  shows "mgr_ok (m\<lparr>pm_factories := AList.delete pid (pm_factories m), pm_desired := des,
    pm_factoryOrder := remove1 pid (pm_factoryOrder m), pm_health := h\<rparr>)"
  using assms by (auto simp: mgr_ok_def keys_of_def AList.delete_eq)

lemma op_ok_same:
  assumes "op_ok m rt (r, m', rt')" and "mgr_ok m2" and "pm_effective m2 = pm_effective m'" "pm_closed m2 = pm_closed m'"
    "pm_built m2 = pm_built m'"
  shows "op_ok m rt (r, m2, rt')"
proof -
  have "mgr_ok m' = True" "mgr_ok m2 = True" using assms by (simp_all add: op_ok_def)
  then have "op_ok m rt (r, m2, rt') = op_ok m rt (r, m', rt')"
    unfolding op_ok_def balanced_def prod.case by (simp only: assms(3-5))
  then show ?thesis using assms(1) by simp
qed

lemma Unregister_op:
  assumes ok: "mgr_ok m"
  shows "op_ok m rt (UnregisterFactory env cancelled pid m rt)"
proof (cases "cancelled \<or> \<not> has_key (pm_factories m) pid")
  case True
  then show ?thesis using ok by (auto simp: UnregisterFactory_def intro!: op_ok_keptI)
next
  case False
  obtain r m' rt' where p: "prepareRemoveLocked env pid m rt = (r, m', rt')" by (cases "prepareRemoveLocked env pid m rt")
  have o: "op_ok m rt (r, m', rt')" using prepareRemove_op [OF ok] p by metis
  show ?thesis
  proof (cases r)
    case (Inl e)
    then show ?thesis using False p o by (simp add: UnregisterFactory_def)
  next
    case (Inr plan)
    let ?m2 = "emit env (event EventFactoryUnregistered pid 0 '''' 0) (m'\<lparr>pm_factories := AList.delete pid (pm_factories m'),
      pm_desired := AList.delete pid (pm_desired m'), pm_factoryOrder := remove1 pid (pm_factoryOrder m'),
      pm_health := health_Remove pid (pm_health m')\<rparr>)"
    have "mgr_ok m'" using o by (simp add: op_ok_def)
    then have "mgr_ok ?m2" using unregister_books same_books_mgr_ok [OF same_books_emit] by blast
    moreover have "pm_effective ?m2 = pm_effective m'" "pm_closed ?m2 = pm_closed m'" "pm_built ?m2 = pm_built m'"
      by (simp_all add: emit_def)
    ultimately have "op_ok m rt (Inr plan, ?m2, rt')" using op_ok_same [OF o [unfolded Inr]] by blast
    then show ?thesis using False p Inr by (simp add: UnregisterFactory_def Let_def)
  qed
qed

lemma Register_books:
  assumes "mgr_ok m" and "RegisterFactory env f m = (e, m')"
  shows "mgr_ok m' \<and> pm_effective m' = pm_effective m \<and> pm_built m' = pm_built m \<and> pm_closed m' = pm_closed m"
proof (cases e)
  case (Some err)
  then show ?thesis using assms by (auto simp: RegisterFactory_def Let_def split: option.splits if_splits)
next
  case None
  then obtain factory where f: "f = Some factory" "\<not> has_key (pm_factories m) (ds_ID (fc_descriptor factory))"
      "m' = emit env (event EventFactoryRegistered (ds_ID (fc_descriptor factory)) 0 '''' 0)
         (set_health env (health_entry (ds_ID (fc_descriptor factory)) StateDisabled zero_health 0)
           (m\<lparr>pm_factories := AList.update (ds_ID (fc_descriptor factory)) factory (pm_factories m),
              pm_factoryOrder := pm_factoryOrder m @ [ds_ID (fc_descriptor factory)]\<rparr>))"
    using assms(2) by (auto simp: RegisterFactory_def Let_def split: option.splits if_splits)
  have "set (keys_of (AList.update k v xs)) = insert k (set (keys_of xs))" for k v and xs :: "(provider_id, 'a factory) gomap"
    by (simp add: keys_of_def dom_map_of_conv_image_fst [symmetric] update_conv')
  then show ?thesis using f assms(1) by (auto simp: mgr_ok_def emit_def set_health_def has_key_iff)
qed

section \<open>The composed system\<close>

datatype 'c manager_op =
    OpRegister "'c factory option" | OpUnregister bool provider_id | OpReconcile bool "'c desired_provider list"
  | OpReplace bool provider_id 'c | OpRemove bool provider_id | OpRefresh

fun run_op :: "'c provider_env \<Rightarrow> 'c manager_op \<Rightarrow> 'c provider_manager \<Rightarrow> rt_manager \<Rightarrow> 'c mutation_return" where
  "run_op env (OpRegister f) m rt =
     (case RegisterFactory env f m of (Some e, m) \<Rightarrow> (Inl e, m, rt) | (None, m) \<Rightarrow> (Inr None, m, rt))"
| "run_op env (OpUnregister c pid) m rt = UnregisterFactory env c pid m rt"
| "run_op env (OpReconcile c specs) m rt = Reconcile env c specs m rt"
| "run_op env (OpReplace c pid cfg) m rt = Replace env c pid cfg m rt"
| "run_op env (OpRemove c pid) m rt = Remove env c pid m rt"
| "run_op env OpRefresh m rt = (Inr None, RefreshHealth env m, rt)"

lemma run_op_ok:
  assumes "mgr_ok m"
  shows "op_ok m rt (run_op env op m rt)"
proof (cases op)
  case (OpRegister f)
  obtain e m' where r: "RegisterFactory env f m = (e, m')" by (cases "RegisterFactory env f m")
  show ?thesis using Register_books [OF assms r] OpRegister r by (cases e) (auto intro!: op_ok_keptI)
next
  case OpRefresh
  have "same_books m (RefreshHealth env m)" by (rule same_books_RefreshHealth)
  then show ?thesis using OpRefresh assms same_books_mgr_ok by (auto simp: same_books_def mgr_ok_def intro!: op_ok_keptI)
qed (simp_all add: assms Unregister_op Reconcile_op Replace_op Remove_op)

text \<open>
  Beside the runtime and the manager, the references in each snapshot and the drains under way:
  the snapshots each of them waits for, its generation and the instances it will close.
\<close>

record 'c px_system =
  px_rt :: rt_system
  px_pm :: "'c provider_manager"
  px_refs :: "nat list list"
  px_drains :: "(nat list \<times> nat \<times> provider_instance list) list"

definition publish_op :: "provider_publication \<Rightarrow> 'c provider_manager \<Rightarrow> rt_manager \<Rightarrow> 'c px_system \<Rightarrow> 'c px_system" where
  "publish_op p m rt x =
     x\<lparr>px_rt := (px_rt x)\<lparr>ry_manager := rt, ry_retiring := (case pb_old p of None \<Rightarrow> [] | Some s \<Rightarrow> [s])\<rparr>,
       px_refs := px_refs x @ [map in_ref (pb_instances p)], px_pm := m,
       px_drains := (if pb_retired p = [] then px_drains x else px_drains x @ [(newRetirement rt (pb_prior p), pb_generation p, pb_retired p)])\<rparr>"

definition apply_op :: "'c provider_env \<Rightarrow> 'c manager_op \<Rightarrow> 'c px_system \<Rightarrow> 'c px_system" where
  "apply_op env op x =
     (case run_op env op (px_pm x) (ry_manager (px_rt x)) of
        (Inr (Some p), m, rt) \<Rightarrow>
          (publish_op p m rt x)\<lparr>px_pm :=
             drain_started env (pb_generation p) (length (newRetirement rt (pb_prior p))) (pb_retired p) m\<rparr>
      | (_, m, rt) \<Rightarrow> x\<lparr>px_pm := m\<rparr>)"

inductive px_step :: "'c px_system \<Rightarrow> 'c px_system \<Rightarrow> bool" where
  px_runtime: "rt_step (px_rt x) z \<Longrightarrow> snap_count z = snap_count (px_rt x) \<Longrightarrow> px_step x (x\<lparr>px_rt := z\<rparr>)"
| px_op: "ry_retiring (px_rt x) = [] \<Longrightarrow> px_step x (apply_op env op x)"
| px_timeout: "(waiting, g, ps) \<in> set (px_drains x) \<Longrightarrow>
    px_step x (x\<lparr>px_pm := drain_timed_out env g (Pending (ry_manager (px_rt x)) waiting) ps (px_pm x)\<rparr>)"
| px_drained: "(waiting, g, ps) \<in> set (px_drains x) \<Longrightarrow> Pending (ry_manager (px_rt x)) waiting = 0 \<Longrightarrow>
    px_step x (x\<lparr>px_drains := remove1 (waiting, g, ps) (px_drains x), px_pm := drain_finished env g ps close_failed (px_pm x)\<rparr>)"

definition px_init :: "config \<Rightarrow> 'c px_system \<Rightarrow> bool" where
  "px_init cfg x \<longleftrightarrow> (\<exists>cooldowns. NewManager (Some cfg) [] cooldowns = Inr (ry_manager (px_rt x)))
     \<and> ry_loaded (px_rt x) = [] \<and> ry_leases (px_rt x) = [] \<and> ry_retiring (px_rt x) = [] \<and> ry_draining (px_rt x) = []
     \<and> (\<exists>h events. px_pm x = NewProviderManager h events) \<and> px_refs x = [[]] \<and> px_drains x = []"

abbreviation waiting_refs :: "'c px_system \<Rightarrow> nat list" where
  "waiting_refs x \<equiv> concat (map (\<lambda>(w, g, ps). map in_ref ps) (px_drains x))"

definition books_ok :: "'c px_system \<Rightarrow> bool" where
  "books_ok x \<longleftrightarrow> mgr_ok (px_pm x)
     \<and> mset (eff_refs (px_pm x)) + mset (waiting_refs x) + mset (pm_closed (px_pm x)) = built_refs (pm_built (px_pm x))"

definition held_ok :: "'c px_system \<Rightarrow> bool" where
  "held_ok x \<longleftrightarrow> length (px_refs x) = snap_count (px_rt x)
     \<and> (\<forall>s < snap_count (px_rt x). \<not> sp_drained (snap (px_rt x) s) \<longrightarrow>
         (\<forall>r \<in> set (px_refs x ! s). r \<in> set (eff_refs (px_pm x))
            \<or> (\<exists>(w, g, ps) \<in> set (px_drains x). r \<in> in_ref ` set ps \<and> s \<in> set w)))"

definition current_ok :: "'c px_system \<Rightarrow> bool" where
  "current_ok x \<longleftrightarrow> (\<forall>s. rm_current (ry_manager (px_rt x)) = Some s \<longrightarrow> mset (px_refs x ! s) = mset (eff_refs (px_pm x)))"

definition px_inv :: "'c px_system \<Rightarrow> bool" where
  "px_inv x \<longleftrightarrow> rt_inv (px_rt x) \<and> books_ok x \<and> held_ok x \<and> current_ok x"

section \<open>The invariant is kept\<close>

lemma rt_step_current:
  "rt_step y z \<Longrightarrow> snap_count z = snap_count y \<Longrightarrow> rm_current (ry_manager z) \<in> {rm_current (ry_manager y), None}"
  by (erule rt_step.cases)
    (auto simp: acquire_load_def acquire_try_def tryAcquire_def Lease_Release_def release_def retire_next_def retire_def
      close_drained_def begin_publish_def Publish_def publishLocked_def begin_close_def Manager_Close_def untrack_def Let_def
      split: option.splits sum.splits prod.splits if_splits)

lemma publish_providers_step:
  assumes "rt_inv y" and "PublishProviders ps (ry_manager y) = (Inr (old, prior), rt)"
  obtains s sn where "rm_current (ry_manager y) = Some s" "s < snap_count y" "old = Some s" "prior = rm_live (ry_manager y)"
    "y\<lparr>ry_manager := rt, ry_retiring := [s]\<rparr> = begin_publish (Some (sp_config (snap y s))) ps y"
    "rm_snapshots rt = rm_snapshots (ry_manager y) @ [sn]" "\<not> sp_drained sn" "rm_current rt = Some (snap_count y)"
    "sp_config sn = Clone (sp_config (snap y s))"
proof -
  obtain s where s: "rm_current (ry_manager y) = Some s" "\<not> rm_closed (ry_manager y)"
    using assms(2) by (auto simp: PublishProviders_def split: if_splits option.splits)
  then have lt: "s < snap_count y" using assms(1) by (auto simp: rt_inv_def pointers_ok_def)
  obtain providers where v: "validateProviders ps = Inr providers"
    using assms(2) s by (auto simp: PublishProviders_def publishLocked_def split: sum.splits)
  let ?sn = "newSnapshotWithRegistries (rm_generation (ry_manager y) + 1) (sp_config (snap y s)) providers
    (rm_cooldowns (ry_manager y)) (rm_preferred (ry_manager y))"
  have "rm_snapshots rt = rm_snapshots (ry_manager y) @ [?sn]" "rm_current rt = Some (snap_count y)" "old = Some s" "prior = rm_live (ry_manager y)"
    using assms(2) s v by (auto simp: PublishProviders_def publishLocked_def Let_def)
  moreover have "y\<lparr>ry_manager := rt, ry_retiring := [s]\<rparr> = begin_publish (Some (sp_config (snap y s))) ps y"
    using assms(2) v by (auto simp: s PublishProviders_def publishLocked_def Let_def begin_publish_def Publish_def)
  moreover have "\<not> sp_drained ?sn" "sp_config ?sn = Clone (sp_config (snap y s))"
    by (simp_all add: newSnapshotWithRegistries_def Let_def)
  ultimately show thesis using that s lt by blast
qed

lemma inv_runtime:
  assumes inv: "px_inv x" and st: "rt_step (px_rt x) z" and count: "snap_count z = snap_count (px_rt x)"
  shows "px_inv (x\<lparr>px_rt := z\<rparr>)"
proof -
  have rt: "rt_inv (px_rt x)" using inv by (simp add: px_inv_def)
  have "held_ok (x\<lparr>px_rt := z\<rparr>)"
    using inv count rt_step_drained [OF st rt] unfolding px_inv_def held_ok_def by (simp, metis)
  moreover have "current_ok (x\<lparr>px_rt := z\<rparr>)"
    using inv rt_step_current [OF st count] unfolding px_inv_def current_ok_def by auto
  moreover have "books_ok (x\<lparr>px_rt := z\<rparr>)" using inv by (simp add: px_inv_def books_ok_def)
  ultimately show ?thesis using rt_step_inv [OF rt st] by (simp add: px_inv_def)
qed

lemma mset_exchange:
  fixes A B C D E :: "'a multiset"
  assumes "A + B = C + D" and "E + C = B"
  shows "E + A = D"
proof (rule multiset_eqI)
  fix a
  have "count A a + count B a = count C a + count D a" "count E a + count C a = count B a"
    using arg_cong [OF assms(1), of "\<lambda>M. count M a"] arg_cong [OF assms(2), of "\<lambda>M. count M a"] by simp_all
  then show "count (E + A) a = count D a" by simp
qed

lemma inv_kept:
  assumes inv: "px_inv x" and "mgr_ok m" and "pm_effective m = pm_effective (px_pm x)" and "balanced (px_pm x) m []"
  shows "px_inv (x\<lparr>px_pm := m\<rparr>)"
proof -
  let ?rest = "mset (eff_refs (px_pm x)) + mset (waiting_refs x)"
  have "mset (pm_closed m) + built_refs (pm_built (px_pm x)) = mset (pm_closed (px_pm x)) + built_refs (pm_built m)"
    using assms(4) by (simp add: balanced_def assms(3))
  moreover have "?rest + mset (pm_closed (px_pm x)) = built_refs (pm_built (px_pm x))"
    using inv by (simp only: px_inv_def books_ok_def)
  ultimately have "mset (eff_refs m) + mset (waiting_refs x) + mset (pm_closed m) = built_refs (pm_built m)"
    unfolding assms(3) by (rule mset_exchange)
  then show ?thesis using inv assms(2,3) by (simp add: px_inv_def books_ok_def held_ok_def current_ok_def)
qed

lemma inv_same_books:
  assumes "px_inv x" and "same_books (px_pm x) m"
  shows "px_inv (x\<lparr>px_pm := m\<rparr>)"
  using assms(1) by (rule inv_kept) (use assms in \<open>auto simp: px_inv_def books_ok_def same_books_mgr_ok, auto simp: same_books_def balanced_def\<close>)

text \<open>No reference is in two places at once.\<close>

lemma books_disjoint:
  assumes "books_ok x"
  shows "set (eff_refs (px_pm x)) \<inter> set (pm_closed (px_pm x)) = {}" "set (waiting_refs x) \<inter> set (pm_closed (px_pm x)) = {}"
    "distinct (pm_closed (px_pm x))"
proof -
  have eq: "mset (eff_refs (px_pm x)) + mset (waiting_refs x) + mset (pm_closed (px_pm x)) = built_refs (pm_built (px_pm x))"
    using assms by (simp add: books_ok_def)
  have le: "count (mset (eff_refs (px_pm x))) r + count (mset (waiting_refs x)) r + count (mset (pm_closed (px_pm x))) r \<le> 1" for r
    using arg_cong [OF eq, of "\<lambda>M. count M r"] count_built_refs [of "pm_built (px_pm x)" r] unfolding count_union by (simp split: if_splits)
  have pos: "r \<in> set xs \<longleftrightarrow> 0 < count (mset xs) r" for r :: nat and xs
    by (simp add: count_greater_zero_iff)
  show "set (eff_refs (px_pm x)) \<inter> set (pm_closed (px_pm x)) = {}" unfolding disjoint_iff pos
  proof (intro allI impI)
    fix r
    assume "0 < count (mset (eff_refs (px_pm x))) r"
    then show "\<not> 0 < count (mset (pm_closed (px_pm x))) r" using le [of r] by linarith
  qed
  show "set (waiting_refs x) \<inter> set (pm_closed (px_pm x)) = {}" unfolding disjoint_iff pos
  proof (intro allI impI)
    fix r
    assume "0 < count (mset (waiting_refs x)) r"
    then show "\<not> 0 < count (mset (pm_closed (px_pm x))) r" using le [of r] by linarith
  qed
  have "count (mset (pm_closed (px_pm x))) r \<le> 1" for r using le [of r] by linarith
  then show "distinct (pm_closed (px_pm x))" by (metis count_mset count_list_0_iff distinct_count_atmost_1 le_0_eq le_Suc_eq One_nat_def mset_eq_setD)
qed

lemma publish_op_waiting: "mset (waiting_refs (publish_op p m rt x)) = mset (waiting_refs x) + mset (map in_ref (pb_retired p))"
  by (simp add: publish_op_def)

lemma inv_published:
  assumes inv: "px_inv x" and idle: "ry_retiring (px_rt x) = []"
    and op: "op_ok (px_pm x) (ry_manager (px_rt x)) (Inr (Some p), m, rt)"
  shows "px_inv (publish_op p m rt x)"
proof -
  let ?y = "px_rt x" and ?z = "publish_op p m rt x"
  have rti: "rt_inv ?y" and bk: "books_ok x" and hd: "held_ok x" using inv by (auto simp: px_inv_def)
  from op obtain ps where o: "mgr_ok m" "balanced (px_pm x) m (map in_ref (pb_retired p))" "pm_closed m = pm_closed (px_pm x)"
      "mset (map in_ref (pb_instances p)) = mset (eff_refs m)"
      "PublishProviders ps (ry_manager ?y) = (Inr (pb_old p, pb_prior p), rt)" "pm_built (px_pm x) \<le> pm_built m"
    by (auto simp: op_ok_def)
  from rti o(5) obtain s sn where s: "pb_old p = Some s" "pb_prior p = rm_live (ry_manager ?y)"
      "?y\<lparr>ry_manager := rt, ry_retiring := [s]\<rparr> = begin_publish (Some (sp_config (snap ?y s))) ps ?y"
      "rm_snapshots rt = rm_snapshots (ry_manager ?y) @ [sn]" "rm_current rt = Some (snap_count ?y)"
    by (rule publish_providers_step) blast
  have rt: "rt_inv (px_rt ?z)" using rt_publish_inv [OF rti idle] s by (simp add: publish_op_def)
  have eq: "mset (eff_refs m) + mset (map in_ref (pb_retired p)) + built_refs (pm_built (px_pm x))
      = mset (eff_refs (px_pm x)) + built_refs (pm_built m)"
    using o(2,3) by (simp add: balanced_def) (metis (no_types, lifting) add.assoc add.commute add_right_cancel)
  have "mset (waiting_refs x) + mset (pm_closed (px_pm x)) + mset (eff_refs (px_pm x)) = built_refs (pm_built (px_pm x))"
    using bk by (simp add: books_ok_def ac_simps)
  from mset_exchange [OF eq this] have "books_ok ?z"
    using o(1,3) publish_op_waiting [of p m rt x] unfolding books_ok_def by (simp add: publish_op_def ac_simps)
  moreover have "held_ok ?z"
  proof -
    have old: "r \<in> set (eff_refs m) \<or> r \<in> in_ref ` set (pb_retired p)" if r: "r \<in> set (eff_refs (px_pm x))" for r
    proof -
      have "r \<in># mset (eff_refs (px_pm x)) + mset (waiting_refs x) + mset (pm_closed (px_pm x))" using r by simp
      then have "r \<in># built_refs (pm_built (px_pm x))" using bk by (simp only: books_ok_def)
      then have "r < pm_built (px_pm x)" using count_built_refs by (metis count_eq_zero_iff)
      then have "count (mset (eff_refs m) + mset (map in_ref (pb_retired p))) r = count (mset (eff_refs (px_pm x))) r"
        using arg_cong [OF eq, of "\<lambda>M. count M r"] o(6) by (simp add: count_built_refs)
      then have "r \<in># mset (eff_refs m) + mset (map in_ref (pb_retired p))"
        using r by (metis count_greater_zero_iff set_mset_mset)
      then show ?thesis by auto
    qed
    show ?thesis unfolding held_ok_def
    proof (intro conjI allI impI ballI)
      show "length (px_refs ?z) = snap_count (px_rt ?z)" using hd s(1,2,4,5) by (simp add: held_ok_def publish_op_def)
      fix t r
      assume t: "t < snap_count (px_rt ?z)" "\<not> sp_drained (snap (px_rt ?z) t)" "r \<in> set (px_refs ?z ! t)"
      show "r \<in> set (eff_refs (px_pm ?z)) \<or> (\<exists>(w, g, ps) \<in> set (px_drains ?z). r \<in> in_ref ` set ps \<and> t \<in> set w)"
      proof (cases "t < snap_count ?y")
        case False
        then have "r \<in> set (map in_ref (pb_instances p))" using t s(1,2,4,5) hd by (auto simp: publish_op_def held_ok_def nth_append)
        then have "r \<in> set (eff_refs m)" using mset_eq_setD [OF o(4)] by simp
        then show ?thesis by (simp add: publish_op_def)
      next
        case True
        then have live: "\<not> sp_drained (snap ?y t)" and rr: "r \<in> set (px_refs x ! t)"
          using t s(1,2,4,5) hd by (auto simp: publish_op_def held_ok_def nth_append)
        have wait: "t \<in> set (newRetirement rt (pb_prior p))"
          using rt_invD [OF rti True] live True s(1,2,4,5) by (auto simp: newRetirement_def snap_ok_def nth_append)
        from hd live rr True have "r \<in> set (eff_refs (px_pm x)) \<or> (\<exists>(w, g, ps) \<in> set (px_drains x). r \<in> in_ref ` set ps \<and> t \<in> set w)"
          by (simp add: held_ok_def)
        then show ?thesis
        proof
          assume "r \<in> set (eff_refs (px_pm x))"
          then show ?thesis using old [of r] wait by (auto simp: publish_op_def)
        next
          have "set (px_drains x) \<subseteq> set (px_drains ?z)" by (auto simp: publish_op_def)
          then show "\<exists>(w, g, ps) \<in> set (px_drains x). r \<in> in_ref ` set ps \<and> t \<in> set w \<Longrightarrow> ?thesis" by blast
        qed
      qed
    qed
  qed
  moreover have "current_ok ?z"
    using s(1,2,4,5) o(4) hd by (simp add: current_ok_def publish_op_def held_ok_def nth_append)
  ultimately show ?thesis using rt by (simp add: px_inv_def)
qed

lemma inv_op:
  assumes inv: "px_inv x" and idle: "ry_retiring (px_rt x) = []"
  shows "px_inv (apply_op env op x)"
proof -
  obtain r m rt where o: "run_op env op (px_pm x) (ry_manager (px_rt x)) = (r, m, rt)"
    by (cases "run_op env op (px_pm x) (ry_manager (px_rt x))")
  have "mgr_ok (px_pm x)" using inv by (simp add: px_inv_def books_ok_def)
  then have ok: "op_ok (px_pm x) (ry_manager (px_rt x)) (r, m, rt)" using run_op_ok o by metis
  show ?thesis
  proof (cases "\<exists>p. r = Inr (Some p)")
    case True
    then obtain p where p: "r = Inr (Some p)" by blast
    let ?n = "length (newRetirement rt (pb_prior p))"
    have "px_inv (publish_op p m rt x)" using inv_published [OF inv idle ok [unfolded p]] .
    moreover have "same_books (px_pm (publish_op p m rt x)) (drain_started env (pb_generation p) ?n (pb_retired p) m)"
      by (simp add: publish_op_def same_books_drain_started)
    ultimately have "px_inv ((publish_op p m rt x)\<lparr>px_pm := drain_started env (pb_generation p) ?n (pb_retired p) m\<rparr>)"
      by (rule inv_same_books)
    then show ?thesis using o p by (simp add: apply_op_def)
  next
    case False
    then have "apply_op env op x = x\<lparr>px_pm := m\<rparr>"
      using o by (auto simp: apply_op_def split: sum.splits option.splits)
    moreover have "mgr_ok m" "pm_effective m = pm_effective (px_pm x)" "balanced (px_pm x) m []"
      using ok False by (auto simp: op_ok_def split: sum.splits option.splits)
    ultimately show ?thesis using inv_kept [OF inv] by simp
  qed
qed

lemma inv_drained:
  assumes inv: "px_inv x" and d: "(w, g, ps) \<in> set (px_drains x)" and none: "Pending (ry_manager (px_rt x)) w = 0"
  shows "px_inv (x\<lparr>px_drains := remove1 (w, g, ps) (px_drains x), px_pm := drain_finished env g ps b (px_pm x)\<rparr>)"
proof -
  let ?c = "closeProviders ps (px_pm x)" and ?ds = "remove1 (w, g, ps) (px_drains x)"
  let ?z = "x\<lparr>px_drains := ?ds, px_pm := ?c\<rparr>"
  obtain a b' where ab: "px_drains x = a @ (w, g, ps) # b'" "?ds = a @ b'"
    using split_list_first [OF d] by (metis remove1_append remove1.simps(2))
  have z: "px_drains ?z = a @ b'" using ab(2) by simp
  have wr: "mset (waiting_refs x) = mset (waiting_refs ?z) + mset (map in_ref ps)" unfolding z unfolding ab(1) by simp
  have b: "mset (eff_refs (px_pm x)) + mset (waiting_refs x) + mset (pm_closed (px_pm x)) = built_refs (pm_built (px_pm x))"
    "mgr_ok (px_pm x)" using inv by (simp_all only: px_inv_def books_ok_def)
  have "mset (eff_refs ?c) + mset (waiting_refs ?z) + mset (pm_closed ?c) = built_refs (pm_built ?c)"
    using b(1) unfolding wr by (simp add: closeProviders_def ac_simps)
  then have "books_ok ?z" using b(2) by (simp add: books_ok_def closeProviders_def mgr_ok_def)
  moreover have "held_ok ?z" unfolding held_ok_def
  proof (intro conjI allI impI ballI)
    show "length (px_refs ?z) = snap_count (px_rt ?z)" using inv by (simp add: px_inv_def held_ok_def)
    fix t r
    assume t: "t < snap_count (px_rt ?z)" "\<not> sp_drained (snap (px_rt ?z) t)" "r \<in> set (px_refs ?z ! t)"
    have "t \<notin> set w" using none t(2) by (auto simp: Pending_def filter_empty_conv)
    moreover have "r \<in> set (eff_refs (px_pm x)) \<or> (\<exists>(w, g, ps) \<in> set (px_drains x). r \<in> in_ref ` set ps \<and> t \<in> set w)"
      using inv t by (simp add: px_inv_def held_ok_def)
    ultimately show "r \<in> set (eff_refs (px_pm ?z)) \<or> (\<exists>(w, g, ps) \<in> set (px_drains ?z). r \<in> in_ref ` set ps \<and> t \<in> set w)"
      unfolding z unfolding ab(1) by (auto simp: closeProviders_def)
  qed
  moreover have "current_ok ?z" "rt_inv (px_rt ?z)" using inv by (simp_all add: px_inv_def current_ok_def closeProviders_def)
  ultimately have "px_inv ?z" by (simp add: px_inv_def)
  then have "px_inv (?z\<lparr>px_pm := publishDrained env g ps b (px_pm ?z)\<rparr>)" by (rule inv_same_books) (rule same_books_publishDrained)
  then show ?thesis by (simp add: drain_finished_def)
qed

lemma px_init_inv: "px_init cfg x \<Longrightarrow> px_inv x"
proof -
  assume i: "px_init cfg x"
  then have rt: "rt_init (px_rt x)" by (auto simp: px_init_def rt_init_def)
  from i obtain cooldowns where "NewManager (Some cfg) [] cooldowns = Inr (ry_manager (px_rt x))" by (auto simp: px_init_def)
  then obtain sn where "rm_snapshots (ry_manager (px_rt x)) = [sn]" "rm_current (ry_manager (px_rt x)) = Some 0" by (rule NewManager_sel)
  moreover obtain h events where "px_pm x = NewProviderManager h events" using i by (auto simp: px_init_def)
  ultimately show ?thesis using rt_init_inv [OF rt] i
    by (auto simp: px_init_def px_inv_def books_ok_def held_ok_def current_ok_def NewProviderManager_def mgr_ok_def refs_def keys_of_def)
qed

lemma px_step_inv: "px_inv x \<Longrightarrow> px_step x y \<Longrightarrow> px_inv y"
  by (erule px_step.cases)
    (auto intro: inv_runtime inv_op inv_drained inv_same_books same_books_drain_timed_out)

interpretation providers: invariant_system "px_init cfg" px_step px_inv for cfg
  by unfold_locales (auto intro: px_init_inv px_step_inv)

text \<open>C14: no request ever runs on a closed provider. In every interleaving of requests,
  releases, reconciliations, replacements, removals, drains and closings, a provider instance in
  a snapshot that a request holds is not closed; every instance that was ever built is exactly
  one of effective, waiting for its drain, or closed (so none leaks and none is closed twice);
  and the snapshot new requests get consists of the effective instances.\<close>

theorem closed_provider_unused:
  assumes "px_init cfg x0" and "reach px_step x0 x"
  shows "(\<forall>s r. (s, False) \<in> set (ry_leases (px_rt x)) \<and> r \<in> set (px_refs x ! s) \<longrightarrow> r \<notin> set (pm_closed (px_pm x)))
    \<and> mset (eff_refs (px_pm x)) + mset (waiting_refs x) + mset (pm_closed (px_pm x)) = mset [0..<pm_built (px_pm x)]
    \<and> (\<forall>s. rm_current (ry_manager (px_rt x)) = Some s \<longrightarrow> mset (px_refs x ! s) = mset (eff_refs (px_pm x)))"
proof -
  have inv: "px_inv x" using providers.reachable_invar [OF assms(2,1)] .
  then have rt: "rt_inv (px_rt x)" and bk: "books_ok x" and hd: "held_ok x" by (auto simp: px_inv_def)
  have "r \<notin> set (pm_closed (px_pm x))" if l: "(s, False) \<in> set (ry_leases (px_rt x))" and r: "r \<in> set (px_refs x ! s)" for s r
  proof -
    have s: "s < snap_count (px_rt x)" using rt l by (force simp: rt_inv_def pointers_ok_def)
    have "0 < open_leases (ry_leases (px_rt x)) s" using l by (auto simp: open_leases_def filter_empty_conv length_greater_0_conv)
    then have "\<not> sp_drained (snap (px_rt x) s)" using rt_invD [OF rt s] by (auto simp: snap_ok_def)
    then have "r \<in> set (eff_refs (px_pm x)) \<or> r \<in> set (waiting_refs x)" using hd s r by (fastforce simp: held_ok_def)
    then show ?thesis using books_disjoint [OF bk] by blast
  qed
  then show ?thesis using inv bk unfolding px_inv_def books_ok_def current_ok_def built_refs_def by blast
qed

text \<open>A run: a provider is published, a request takes a lease, the provider is replaced.\<close>

definition sample_factory :: "nat factory" where
  "sample_factory = \<lparr>fc_descriptor = \<lparr>ds_ID = ''kilo'', ds_Name = ''Kilo'', ds_Capabilities = [CapabilityChat], ds_AuthMethods = [],
       ds_MultiAccount = False, ds_ConfigSchema = [], ds_SchemaVersion = 1\<rparr>,
     fc_validate_config = (\<lambda>c. True),
     fc_build = (\<lambda>c. Built \<lparr>pr_id = ''kilo'', pr_capabilities = [CapabilityChat], pr_authenticated = True, pr_allowed_models = [],
       pr_last_known = None, pr_list_models = None\<rparr>),
     fc_validate_provider = (\<lambda>p. True)\<rparr>"

definition sample_penv :: "nat provider_env" where
  "sample_penv = \<lparr>pe_now = 1, pe_health = (\<lambda>r. zero_health), pe_fingerprint = (\<lambda>c. None)\<rparr>"

definition sample_spec :: "nat desired_provider" where
  "sample_spec = \<lparr>dp_ID = ''kilo'', dp_Enabled = True, dp_Config = 0, dp_ConfigFingerprint = ''a'', dp_Accounts = []\<rparr>"

definition sample_x0 :: "nat px_system" where
  "sample_x0 = \<lparr>px_rt = sample_y0, px_pm = NewProviderManager None None, px_refs = [[]], px_drains = []\<rparr>"
definition sample_x1 :: "nat px_system" where "sample_x1 = apply_op sample_penv (OpRegister (Some sample_factory)) sample_x0"
definition sample_x2 :: "nat px_system" where "sample_x2 = apply_op sample_penv (OpReconcile False [sample_spec]) sample_x1"
definition sample_x3 :: "nat px_system" where "sample_x3 = sample_x2\<lparr>px_rt := retire_next 0 (px_rt sample_x2)\<rparr>"
definition sample_x4 :: "nat px_system" where "sample_x4 = sample_x3\<lparr>px_rt := acquire_load 1 (px_rt sample_x3)\<rparr>"
definition sample_x5 :: "nat px_system" where "sample_x5 = sample_x4\<lparr>px_rt := acquire_try 1 (px_rt sample_x4)\<rparr>"
definition sample_x6 :: "nat px_system" where "sample_x6 = apply_op sample_penv (OpReplace False ''kilo'' 7) sample_x5"

lemma sample_px_reach: "px_init zero_config sample_x0 \<and> reach px_step sample_x0 sample_x6"
proof -
  have "NewManager (Some zero_config) [] NewCooldownRegistry = Inr (ry_manager (px_rt sample_x0))"
    by (simp add: sample_x0_def sample_y0_def sample_manager_def NewManager_def validateProviders_def)
  then have i: "px_init zero_config sample_x0"
    unfolding px_init_def by (auto simp: sample_x0_def sample_y0_def)
  have "px_step sample_x0 sample_x1" unfolding sample_x1_def by (rule px_op) code_simp
  moreover have "px_step sample_x1 sample_x2" unfolding sample_x2_def by (rule px_op) code_simp
  moreover have "px_step sample_x2 sample_x3" unfolding sample_x3_def by (rule px_runtime, rule rt_retire; code_simp)
  moreover have "px_step sample_x3 sample_x4" unfolding sample_x4_def by (rule px_runtime, rule rt_load; code_simp)
  moreover have "px_step sample_x4 sample_x5" unfolding sample_x5_def by (rule px_runtime, rule rt_try; code_simp)
  moreover have "px_step sample_x5 sample_x6" unfolding sample_x6_def by (rule px_op) code_simp
  ultimately show ?thesis using i by (meson reach_start reach_step)
qed

theorem closed_provider_unused_witness:
  "(1, False) \<in> set (ry_leases (px_rt sample_x6)) \<and> px_refs sample_x6 ! 1 = [0] \<and> waiting_refs sample_x6 = [0]
   \<and> 0 \<notin> set (pm_closed (px_pm sample_x6))"
proof -
  have e: "(1, False) \<in> set (ry_leases (px_rt sample_x6))" "px_refs sample_x6 ! 1 = [0]" "waiting_refs sample_x6 = [0]" by code_simp+
  then have "0 \<notin> set (pm_closed (px_pm sample_x6))"
    using closed_provider_unused [of zero_config sample_x0 sample_x6] sample_px_reach by force
  with e show ?thesis by blast
qed

section \<open>The configuration of the runtime\<close>

lemma rt_step_config:
  assumes "rt_step y z" and "rt_inv y" and "snap_count z = snap_count y" and s: "s < snap_count y"
  shows "sp_config (snap z s) = sp_config (snap y s)"
  using assms(1)
proof cases
  case (rt_try t)
  then have "t < snap_count y" using assms(2) by (auto simp: rt_inv_def pointers_ok_def)
  then show ?thesis using rt_try s by (auto simp: acquire_try_def tryAcquire_def Let_def snap_on_snapshot)
next
  case (rt_release i)
  have "fst (ry_leases y ! i) < snap_count y"
    using assms(2) nth_mem [OF rt_release(2)] by (force simp: rt_inv_def pointers_ok_def)
  then show ?thesis using rt_release s
    by (cases "ry_leases y ! i") (auto simp: Lease_Release_def release_def Let_def snap_on_snapshot)
next
  case (rt_retire t)
  then have "t < snap_count y" using assms(2) by (auto simp: rt_inv_def pointers_ok_def)
  then show ?thesis using rt_retire s by (auto simp: retire_next_def retire_def snap_on_snapshot)
next
  case (rt_drain t)
  then have "t < snap_count y" using assms(2) by (auto simp: rt_inv_def pointers_ok_def)
  then show ?thesis using rt_drain s by (auto simp: close_drained_def drain_def snap_on_snapshot)
next
  case (rt_publish cfg ps)
  then show ?thesis using s
    by (auto simp: begin_publish_def Publish_def publishLocked_def Let_def nth_append split: option.split sum.split)
qed (use s in \<open>auto simp: acquire_load_def begin_close_def Manager_Close_def untrack_def\<close>)

definition config_frozen :: "config \<Rightarrow> 'c px_system \<Rightarrow> bool" where
  "config_frozen cfg x \<longleftrightarrow> (\<forall>s < snap_count (px_rt x). sp_config (snap (px_rt x) s) = Clone cfg)"

lemma frozen_op:
  assumes "px_inv x" and "config_frozen cfg x"
  shows "config_frozen cfg (apply_op env op x)"
proof -
  obtain r m rt where o: "run_op env op (px_pm x) (ry_manager (px_rt x)) = (r, m, rt)"
    by (cases "run_op env op (px_pm x) (ry_manager (px_rt x))")
  have rti: "rt_inv (px_rt x)" using assms(1) by (simp add: px_inv_def)
  have "op_ok (px_pm x) (ry_manager (px_rt x)) (r, m, rt)"
    using assms(1) run_op_ok o by (metis px_inv_def books_ok_def)
  show ?thesis
  proof (cases "\<exists>p. r = Inr (Some p)")
    case True
    then obtain p ps where p: "r = Inr (Some p)" "PublishProviders ps (ry_manager (px_rt x)) = (Inr (pb_old p, pb_prior p), rt)"
      using \<open>op_ok _ _ _\<close> by (auto simp: op_ok_def)
    from rti p(2) obtain s sn where s: "rm_snapshots rt = rm_snapshots (ry_manager (px_rt x)) @ [sn]" "s < snap_count (px_rt x)"
        "sp_config sn = Clone (sp_config (snap (px_rt x) s))" by (rule publish_providers_step) blast
    then have "sp_config sn = Clone cfg" using assms(2) by (simp add: config_frozen_def)
    then show ?thesis using assms(2) o p(1) s(1)
      by (auto simp: apply_op_def publish_op_def config_frozen_def nth_append less_Suc_eq)
  next
    case False
    then have "px_rt (apply_op env op x) = px_rt x" using o by (auto simp: apply_op_def split: sum.splits option.splits)
    then show ?thesis using assms(2) by (simp add: config_frozen_def)
  qed
qed

lemma frozen_step: "px_step x y \<Longrightarrow> px_inv x \<Longrightarrow> config_frozen cfg x \<Longrightarrow> config_frozen cfg y"
  by (erule px_step.cases) (auto simp: frozen_op, auto simp: config_frozen_def px_inv_def rt_step_config)

text \<open>C15: whatever providers are reconciled, replaced or removed, every runtime generation
  keeps the configuration the daemon was started with: reconciling providers never brings a
  changed routing section (default model, default provider, model map) into effect.\<close>

theorem runtime_config_frozen:
  assumes "px_init cfg x0" and "reach px_step x0 x" and "s < snap_count (px_rt x)"
  shows "sp_config (snap (px_rt x) s) = Clone cfg"
proof -
  from assms(1) obtain cooldowns where "NewManager (Some cfg) [] cooldowns = Inr (ry_manager (px_rt x0))" by (auto simp: px_init_def)
  then have "Inr (ry_manager (px_rt x0)) = NewManager (Some cfg) [] cooldowns" by simp
  then have start: "config_frozen cfg x0"
    by (simp add: config_frozen_def NewManager_def validateProviders_def newSnapshotWithRegistries_def Let_def)
  have "config_frozen cfg x" using assms(2)
  proof (induction rule: reach.induct)
    case (reach_step u v)
    then show ?case using frozen_step providers.reachable_invar [OF reach_step(1) assms(1)] by blast
  qed (rule start)
  then show ?thesis using assms(3) by (simp add: config_frozen_def)
qed

theorem runtime_config_frozen_witness: "snap_count (px_rt sample_x6) = 3 \<and> sp_config (snap (px_rt sample_x6) 2) = Clone zero_config"
proof -
  have "snap_count (px_rt sample_x6) = 3" by code_simp
  then show ?thesis using runtime_config_frozen [of zero_config sample_x0 sample_x6 2] sample_px_reach by simp
qed

end
