(* ===== verification/Idempotency.thy ===== *)
theory Idempotency
  imports Go_Prelude
begin

text \<open>
  Idempotent control requests (\<open>internal/control/idempotency.go\<close>): requests that carry the same
  key and the same content are executed once, and every other one is answered with the result of
  that execution. An entry is a pointer; the channel \<open>ready\<close> is closed exactly when the
  response is there. SHA-256 over the request is a parameter, and so are the clock and the
  answer of the wrapped handler (a panic of the handler is answered like any other request).
\<close>

section \<open>Buffered responses\<close>

record stored_response =
  rp_status :: int
  rp_header :: "(string, string list) gomap"
  rp_body :: string

definition newBufferedResponse :: stored_response where
  "newBufferedResponse = \<lparr>rp_status = 0, rp_header = [], rp_body = ''''\<rparr>"

definition buffered_WriteHeader :: "int \<Rightarrow> stored_response \<Rightarrow> stored_response" where
  "buffered_WriteHeader status r = (if rp_status r = 0 then r\<lparr>rp_status := status\<rparr> else r)"

definition buffered_Write :: "string \<Rightarrow> stored_response \<Rightarrow> stored_response" where
  "buffered_Write payload r =
     (let r = (if rp_status r = 0 then r\<lparr>rp_status := 200\<rparr> else r) in r\<lparr>rp_body := rp_body r @ payload\<rparr>)"

definition buffered_snapshot :: "stored_response \<Rightarrow> stored_response" where
  "buffered_snapshot r = (if rp_status r = 0 then r\<lparr>rp_status := 200\<rparr> else r)"

section \<open>The store\<close>

record idempotency_entry =
  ie_digest :: string
  ie_createdAt :: gotime
  ie_response :: "stored_response option"

abbreviation entry_ready :: "idempotency_entry \<Rightarrow> bool" where
  "entry_ready e \<equiv> ie_response e \<noteq> None"

record idempotency_store =
  is_entries :: "(string, nat) gomap"
  is_heap :: "idempotency_entry list"
  is_maxEntries :: nat
  is_ttl :: duration

definition NewIdempotencyStore :: "int \<Rightarrow> duration \<Rightarrow> idempotency_store" where
  "NewIdempotencyStore maxEntries ttl =
     \<lparr>is_entries = [], is_heap = [], is_maxEntries = (if maxEntries < 1 then 2048 else nat maxEntries),
      is_ttl = (if ttl \<le> 0 then 24 * hour else ttl)\<rparr>"

definition cleanupLocked :: "gotime \<Rightarrow> idempotency_store \<Rightarrow> idempotency_store" where
  "cleanupLocked now st =
     st\<lparr>is_entries := filter (\<lambda>(key, p). \<not> (ie_createdAt (is_heap st ! p) < now - is_ttl st \<and> entry_ready (is_heap st ! p)))
          (is_entries st)\<rparr>"

text \<open>The key of the oldest finished entry so far (empty when there is none), over the entries in the order
  of the iteration.\<close>

fun oldest_ready :: "idempotency_entry list \<Rightarrow> string \<Rightarrow> gotime \<Rightarrow> (string, nat) gomap \<Rightarrow> string" where
  "oldest_ready heap oldestKey oldest [] = oldestKey"
| "oldest_ready heap oldestKey oldest ((key, p) # rest) =
     (if entry_ready (heap ! p) \<and> (oldestKey = '''' \<or> ie_createdAt (heap ! p) < oldest)
      then oldest_ready heap key (ie_createdAt (heap ! p)) rest
      else oldest_ready heap oldestKey oldest rest)"

definition evictOldestLocked :: "idempotency_store \<Rightarrow> idempotency_store" where
  "evictOldestLocked st =
     (let oldestKey = oldest_ready (is_heap st) '''' 0 (is_entries st) in
      if oldestKey \<noteq> '''' then st\<lparr>is_entries := AList.delete oldestKey (is_entries st)\<rparr> else st)"

text \<open>The entry, whether the caller owns it, and whether the key is taken by another request.\<close>

definition begin_request :: "gotime \<Rightarrow> string \<Rightarrow> string \<Rightarrow> idempotency_store \<Rightarrow> (nat \<times> bool \<times> bool) \<times> idempotency_store" where
  "begin_request now key digest st =
     (let st = cleanupLocked now st in
      case map_of (is_entries st) key of
        Some p \<Rightarrow> ((p, False, ie_digest (is_heap st ! p) \<noteq> digest), st)
      | None \<Rightarrow>
          let st = (if length (is_entries st) \<ge> is_maxEntries st then evictOldestLocked st else st);
              p = length (is_heap st)
          in ((p, True, False),
              st\<lparr>is_heap := is_heap st @ [\<lparr>ie_digest = digest, ie_createdAt = now, ie_response = None\<rparr>],
                 is_entries := AList.update key p (is_entries st)\<rparr>))"

definition complete_request :: "string \<Rightarrow> nat \<Rightarrow> stored_response \<Rightarrow> idempotency_store \<Rightarrow> idempotency_store" where
  "complete_request key p response st =
     (if map_of (is_entries st) key \<noteq> Some p then st
      else st\<lparr>is_heap := (is_heap st)[p := (is_heap st ! p)\<lparr>ie_response := Some response\<rparr>]\<rparr>)"

section \<open>The middleware\<close>

datatype precheck = KeyRequired | KeyTooLong | BodyTooLarge | Accepted string

definition idempotency_precheck :: "string \<Rightarrow> string \<Rightarrow> precheck" where
  "idempotency_precheck header body =
     (let key = trim_space header in
      if key = '''' then KeyRequired
      else if int (length key) > 200 then KeyTooLong
      else if int (length body) > 4194304 then BodyTooLarge
      else Accepted key)"

definition entry_key :: "string \<Rightarrow> string \<Rightarrow> string \<Rightarrow> string \<Rightarrow> string" where
  "entry_key subject httpmethod path key = subject @ nul @ httpmethod @ nul @ path @ nul @ key"

definition requestDigest :: "(string \<Rightarrow> string) \<Rightarrow> string \<Rightarrow> string \<Rightarrow> string \<Rightarrow> string" where
  "requestDigest sha httpmethod path body = sha (httpmethod @ nul @ path @ nul @ body)"

text \<open>Requests of one user on different routes or with different keys never share an entry, and the
  text that is digested determines the request.\<close>

lemma entry_key_inject:
  assumes "CHR 0x00 \<notin> set (subject @ httpmethod @ path)" and "CHR 0x00 \<notin> set (subject' @ httpmethod' @ path')"
    and "entry_key subject httpmethod path key = entry_key subject' httpmethod' path' key'"
  shows "(subject, httpmethod, path, key) = (subject', httpmethod', path', key')"
proof -
  have "subject = subject' \<and> httpmethod @ nul @ path @ nul @ key = httpmethod' @ nul @ path' @ nul @ key'"
    using assms by (intro nul_split) (auto simp: entry_key_def)
  moreover from this have "httpmethod = httpmethod' \<and> path @ nul @ key = path' @ nul @ key'"
    using assms by (intro nul_split) auto
  moreover from this have "path = path' \<and> key = key'" using assms by (intro nul_split) auto
  ultimately show ?thesis by simp
qed

section \<open>Runs\<close>

text \<open>
  The owners whose handler runs, the callers that wait for one, the responses owners have
  produced and the ones callers have been given.
\<close>

record idempotency_system =
  iy_store :: idempotency_store
  iy_running :: "(string \<times> nat) list"
  iy_waiting :: "(string \<times> string \<times> nat) list"
  iy_executed :: "(string \<times> string \<times> nat \<times> stored_response) list"
  iy_replied :: "(string \<times> string \<times> stored_response) list"

definition arrive :: "gotime \<Rightarrow> string \<Rightarrow> string \<Rightarrow> idempotency_system \<Rightarrow> idempotency_system" where
  "arrive now key digest y =
     (case begin_request now key digest (iy_store y) of ((p, owner, conflict), st) \<Rightarrow>
        if conflict then y\<lparr>iy_store := st\<rparr>
        else if owner then y\<lparr>iy_store := st, iy_running := (key, p) # iy_running y\<rparr>
        else y\<lparr>iy_store := st, iy_waiting := (key, digest, p) # iy_waiting y\<rparr>)"

definition idempotencyMiddleware :: "(string \<Rightarrow> string) \<Rightarrow> gotime \<Rightarrow> string \<Rightarrow> string \<Rightarrow> string \<Rightarrow> string \<Rightarrow> string \<Rightarrow>
    idempotency_system \<Rightarrow> idempotency_system" where
  "idempotencyMiddleware sha now subject httpmethod path header body y =
     (case idempotency_precheck header body of
        Accepted key \<Rightarrow> arrive now (entry_key subject httpmethod path key) (requestDigest sha httpmethod path body) y
      | _ \<Rightarrow> y)"

definition finish :: "string \<Rightarrow> nat \<Rightarrow> stored_response \<Rightarrow> idempotency_system \<Rightarrow> idempotency_system" where
  "finish key p response y =
     (let digest = ie_digest (is_heap (iy_store y) ! p) in
      y\<lparr>iy_store := complete_request key p response (iy_store y), iy_running := remove1 (key, p) (iy_running y),
        iy_executed := (key, digest, p, response) # iy_executed y, iy_replied := (key, digest, response) # iy_replied y\<rparr>)"

definition wake :: "string \<Rightarrow> string \<Rightarrow> nat \<Rightarrow> stored_response \<Rightarrow> idempotency_system \<Rightarrow> idempotency_system" where
  "wake key digest p response y =
     y\<lparr>iy_waiting := remove1 (key, digest, p) (iy_waiting y), iy_replied := (key, digest, response) # iy_replied y\<rparr>"

inductive idem_step :: "(string \<Rightarrow> string) \<Rightarrow> idempotency_system \<Rightarrow> idempotency_system \<Rightarrow> bool" for sha where
  id_arrive: "idem_step sha y (idempotencyMiddleware sha now subject httpmethod path header body y)"
| id_finish: "(key, p) \<in> set (iy_running y) \<Longrightarrow> idem_step sha y (finish key p (buffered_snapshot recorder) y)"
| id_wake: "(key, digest, p) \<in> set (iy_waiting y) \<Longrightarrow> ie_response (is_heap (iy_store y) ! p) = Some response \<Longrightarrow>
    idem_step sha y (wake key digest p response y)"
| id_leave: "(key, digest, p) \<in> set (iy_waiting y) \<Longrightarrow>
    idem_step sha y (y\<lparr>iy_waiting := remove1 (key, digest, p) (iy_waiting y)\<rparr>)"

definition fresh_idempotency :: "idempotency_system \<Rightarrow> bool" where
  "fresh_idempotency y \<longleftrightarrow> (\<exists>n ttl. iy_store y = NewIdempotencyStore n ttl) \<and> iy_running y = [] \<and> iy_waiting y = []
     \<and> iy_executed y = [] \<and> iy_replied y = []"

section \<open>The invariant\<close>

definition entries_ok :: "idempotency_store \<Rightarrow> bool" where
  "entries_ok st \<longleftrightarrow> wf_map (is_entries st) \<and> (\<forall>(k, p) \<in> set (is_entries st). p < length (is_heap st))
     \<and> distinct (map snd (is_entries st))"

text \<open>An owner that runs has its entry in the table, unfinished.\<close>

definition owners_ok :: "idempotency_system \<Rightarrow> bool" where
  "owners_ok y \<longleftrightarrow> distinct (iy_running y) \<and>
     (\<forall>(k, p) \<in> set (iy_running y). map_of (is_entries (iy_store y)) k = Some p \<and> p < length (is_heap (iy_store y))
        \<and> ie_response (is_heap (iy_store y) ! p) = None)"

text \<open>A pointer somebody holds is unfinished only while its owner runs, and holds the response of an
  execution of the same request once finished.\<close>

definition pointer_ok :: "idempotency_system \<Rightarrow> string \<Rightarrow> nat \<Rightarrow> bool" where
  "pointer_ok y key p \<longleftrightarrow> p < length (is_heap (iy_store y)) \<and>
     (case ie_response (is_heap (iy_store y) ! p) of
        None \<Rightarrow> (key, p) \<in> set (iy_running y)
      | Some response \<Rightarrow> (key, ie_digest (is_heap (iy_store y) ! p), p, response) \<in> set (iy_executed y))"

definition idem_inv :: "idempotency_system \<Rightarrow> bool" where
  "idem_inv y \<longleftrightarrow> entries_ok (iy_store y) \<and> owners_ok y
     \<and> (\<forall>(k, p) \<in> set (is_entries (iy_store y)). pointer_ok y k p)
     \<and> (\<forall>(k, d, p) \<in> set (iy_waiting y). pointer_ok y k p \<and> ie_digest (is_heap (iy_store y) ! p) = d)
     \<and> (\<forall>(k, d, r) \<in> set (iy_replied y). \<exists>p. (k, d, p, r) \<in> set (iy_executed y))
     \<and> (\<forall>(k, d, p, r) \<in> set (iy_executed y). p < length (is_heap (iy_store y)) \<and> ie_response (is_heap (iy_store y) ! p) = Some r)
     \<and> distinct (map (\<lambda>(k, d, p, r). p) (iy_executed y))"

text \<open>Cleaning up and evicting remove finished entries only.\<close>

definition shrinks :: "idempotency_store \<Rightarrow> idempotency_store \<Rightarrow> bool" where
  "shrinks st st' \<longleftrightarrow> is_heap st' = is_heap st \<and> set (is_entries st') \<subseteq> set (is_entries st) \<and> entries_ok st'
     \<and> (\<forall>(k, p) \<in> set (is_entries st). \<not> entry_ready (is_heap st ! p) \<longrightarrow> (k, p) \<in> set (is_entries st'))"

lemma shrinks_refl: "entries_ok st \<Longrightarrow> shrinks st st"
  by (simp add: shrinks_def case_prod_unfold)

lemma shrinks_trans: "shrinks a b \<Longrightarrow> shrinks b c \<Longrightarrow> shrinks a c"
  unfolding shrinks_def by auto

lemma entries_ok_filter: "entries_ok st \<Longrightarrow> entries_ok (st\<lparr>is_entries := filter P (is_entries st)\<rparr>)"
  by (auto simp: entries_ok_def distinct_map_filter)

lemma shrinks_cleanup: "entries_ok st \<Longrightarrow> shrinks st (cleanupLocked now st)"
  using entries_ok_filter [of st "\<lambda>(key, p). \<not> (ie_createdAt (is_heap st ! p) < now - is_ttl st \<and> entry_ready (is_heap st ! p))"]
  by (auto simp: shrinks_def cleanupLocked_def)

lemma oldest_ready_finished:
  "oldest_ready heap k0 t es = k \<Longrightarrow> k = k0 \<or> (\<exists>p. (k, p) \<in> set es \<and> entry_ready (heap ! p))"
  by (induction heap k0 t es rule: oldest_ready.induct) (auto split: if_splits)

lemma shrinks_evict:
  assumes "entries_ok st"
  shows "shrinks st (evictOldestLocked st)"
proof (cases "oldest_ready (is_heap st) '''' 0 (is_entries st) = ''''")
  case True
  then show ?thesis using assms by (simp add: evictOldestLocked_def shrinks_refl)
next
  case False
  let ?key = "oldest_ready (is_heap st) '''' 0 (is_entries st)"
  obtain p where p: "(?key, p) \<in> set (is_entries st)" "entry_ready (is_heap st ! p)"
    using oldest_ready_finished [OF refl, of "is_heap st" "''''" 0 "is_entries st"] False by blast
  have "entries_ok (st\<lparr>is_entries := AList.delete ?key (is_entries st)\<rparr>)"
    unfolding AList.delete_eq using assms by (rule entries_ok_filter)
  moreover have "q = p" if "(?key, q) \<in> set (is_entries st)" for q
    using that p(1) assms wf_map_Some_iff by (metis entries_ok_def option.inject)
  ultimately show ?thesis using False p(2) by (auto simp: shrinks_def evictOldestLocked_def AList.delete_eq)
qed

lemma begin_cases:
  assumes "entries_ok st" and "begin_request now key digest st = ((p, owner, conflict), st')"
  shows "(\<exists>st0. shrinks st st0 \<and> owner = True \<and> conflict = False \<and> p = length (is_heap st) \<and> map_of (is_entries st0) key = None
      \<and> st' = st0\<lparr>is_heap := is_heap st @ [\<lparr>ie_digest = digest, ie_createdAt = now, ie_response = None\<rparr>],
                   is_entries := AList.update key p (is_entries st0)\<rparr>)
    \<or> (shrinks st st' \<and> owner = False \<and> (key, p) \<in> set (is_entries st') \<and> (conflict \<longleftrightarrow> ie_digest (is_heap st ! p) \<noteq> digest))"
proof -
  let ?c = "cleanupLocked now st"
  let ?e = "if length (is_entries ?c) \<ge> is_maxEntries ?c then evictOldestLocked ?c else ?c"
  have c: "shrinks st ?c" using assms(1) by (rule shrinks_cleanup)
  then have "shrinks ?c ?e" by (auto simp: shrinks_def [of st] intro: shrinks_evict shrinks_refl)
  then have e: "shrinks st ?e" using c shrinks_trans by blast
  show ?thesis
  proof (cases "map_of (is_entries ?c) key")
    case None
    then have "map_of (is_entries ?e) key = None"
      using \<open>shrinks ?c ?e\<close> by (auto simp: shrinks_def map_of_eq_None_iff)
    then show ?thesis using None assms(2) e
      by (intro disjI1 exI [of _ ?e]) (auto simp: begin_request_def Let_def shrinks_def split: if_splits)
  next
    case (Some q)
    then have "(key, q) \<in> set (is_entries ?c)" by (rule map_of_SomeD)
    then show ?thesis using Some assms(2) c by (intro disjI2) (auto simp: begin_request_def Let_def shrinks_def)
  qed
qed

lemma inv_shrink:
  assumes inv: "idem_inv y" and sh: "shrinks (iy_store y) st"
  shows "idem_inv (y\<lparr>iy_store := st\<rparr>)"
proof -
  have h: "is_heap st = is_heap (iy_store y)" "entries_ok st" using sh by (auto simp: shrinks_def)
  have ptr: "pointer_ok (y\<lparr>iy_store := st\<rparr>) k p = pointer_ok y k p" for k p
    by (simp add: pointer_ok_def h split: option.split)
  have "map_of (is_entries st) k = Some p" if kp: "(k, p) \<in> set (iy_running y)" for k p
  proof -
    have "(k, p) \<in> set (is_entries (iy_store y))" "\<not> entry_ready (is_heap (iy_store y) ! p)"
      using inv kp by (auto simp: idem_inv_def owners_ok_def dest: map_of_SomeD)
    then have "(k, p) \<in> set (is_entries st)" using sh by (auto simp: shrinks_def)
    then show ?thesis using h(2) by (simp add: entries_ok_def wf_map_Some_iff)
  qed
  then have "owners_ok (y\<lparr>iy_store := st\<rparr>)" using inv by (auto simp: idem_inv_def owners_ok_def h)
  then show ?thesis using inv sh h unfolding idem_inv_def ptr by (auto simp: shrinks_def)
qed

lemma update_absent: "map_of m k = None \<Longrightarrow> AList.update k v m = m @ [(k, v)]"
  by (induction m) (auto split: if_splits)

lemma inv_owner:
  assumes inv: "idem_inv y" and new: "map_of (is_entries (iy_store y)) key = None" and e: "ie_response e = None"
  shows "idem_inv (y\<lparr>iy_store := (iy_store y)\<lparr>is_heap := is_heap (iy_store y) @ [e],
      is_entries := AList.update key (length (is_heap (iy_store y))) (is_entries (iy_store y))\<rparr>,
      iy_running := (key, length (is_heap (iy_store y))) # iy_running y\<rparr>)"
    (is "idem_inv ?y")
proof -
  let ?st = "iy_store y"
  let ?n = "length (is_heap ?st)"
  have ents: "entries_ok ?st" and own: "owners_ok y" using inv by (auto simp: idem_inv_def)
  have below: "p < ?n" if "(k, p) \<in> set (is_entries ?st)" for k p using ents that by (auto simp: entries_ok_def)
  have upd: "set (AList.update key ?n (is_entries ?st)) = insert (key, ?n) (set (is_entries ?st))"
    and snd: "map snd (AList.update key ?n (is_entries ?st)) = map snd (is_entries ?st) @ [?n]"
    using new by (auto simp: update_absent)
  have wf: "wf_map (AList.update key ?n (is_entries ?st))" using ents by (auto simp: entries_ok_def)
  have "entries_ok (iy_store ?y)" using ents wf unfolding entries_ok_def by (auto simp: upd snd)
  moreover have "owners_ok ?y" using own e new by (auto simp: owners_ok_def nth_append update_conv)
  moreover have ptr: "pointer_ok ?y k p" if "pointer_ok y k p" for k p
    using that by (auto simp: pointer_ok_def nth_append split: option.splits)
  moreover have "pointer_ok ?y key ?n" using e by (simp add: pointer_ok_def)
  moreover have "p < ?n" if "pointer_ok y k p" for k p using that by (simp add: pointer_ok_def)
  ultimately show ?thesis using inv unfolding idem_inv_def by (fastforce simp: upd nth_append)
qed

lemma inv_waiting:
  assumes "idem_inv y" and "\<And>k d p. (k, d, p) \<in> set w \<Longrightarrow> pointer_ok y k p \<and> ie_digest (is_heap (iy_store y) ! p) = d"
  shows "idem_inv (y\<lparr>iy_waiting := w\<rparr>)"
proof -
  have "pointer_ok (y\<lparr>iy_waiting := w\<rparr>) k p = pointer_ok y k p" for k p
    by (simp add: pointer_ok_def split: option.split)
  moreover have "owners_ok (y\<lparr>iy_waiting := w\<rparr>)" using assms(1) by (auto simp: idem_inv_def owners_ok_def)
  ultimately show ?thesis using assms unfolding idem_inv_def by auto
qed

lemma inv_arrive:
  assumes inv: "idem_inv y"
  shows "idem_inv (arrive now key digest y)"
proof -
  obtain p owner conflict st where b: "begin_request now key digest (iy_store y) = ((p, owner, conflict), st)"
    by (metis prod.collapse)
  have "entries_ok (iy_store y)" using inv by (simp add: idem_inv_def)
  from begin_cases [OF this b] show ?thesis
  proof (elim disjE exE conjE)
    fix st0
    assume sh: "shrinks (iy_store y) st0" and o: "owner = True" "conflict = False" and p: "p = length (is_heap (iy_store y))"
      and n: "map_of (is_entries st0) key = None"
      and st: "st = st0\<lparr>is_heap := is_heap (iy_store y) @ [\<lparr>ie_digest = digest, ie_createdAt = now, ie_response = None\<rparr>],
                   is_entries := AList.update key p (is_entries st0)\<rparr>"
    have "is_heap st0 = is_heap (iy_store y)" using sh by (simp add: shrinks_def)
    then show ?thesis using inv_owner [OF inv_shrink [OF inv sh], of key "\<lparr>ie_digest = digest, ie_createdAt = now, ie_response = None\<rparr>"] n
      by (simp add: arrive_def b o p st)
  next
    assume sh: "shrinks (iy_store y) st" and o: "owner = False" and k: "(key, p) \<in> set (is_entries st)"
      and c: "conflict = (ie_digest (is_heap (iy_store y) ! p) \<noteq> digest)"
    have i: "idem_inv (y\<lparr>iy_store := st\<rparr>)" using inv sh by (rule inv_shrink)
    then have "pointer_ok (y\<lparr>iy_store := st\<rparr>) key p" using k by (auto simp: idem_inv_def)
    moreover have "ie_digest (is_heap st ! p) = digest" if "\<not> conflict" using that c sh by (simp add: shrinks_def)
    ultimately have "idem_inv (y\<lparr>iy_store := st, iy_waiting := (key, digest, p) # iy_waiting y\<rparr>)" if "\<not> conflict"
      using i that by (intro inv_waiting) (auto simp: idem_inv_def)
    then show ?thesis using i by (simp add: arrive_def b o)
  qed
qed

lemma inv_finish:
  assumes inv: "idem_inv y" and run: "(key, p) \<in> set (iy_running y)"
  shows "idem_inv (finish key p response y)"
proof -
  let ?st = "iy_store y" and ?y = "finish key p response y"
  let ?e = "is_heap ?st ! p"
  have ents: "entries_ok ?st" and own: "owners_ok y" using inv by (auto simp: idem_inv_def)
  have p: "map_of (is_entries ?st) key = Some p" "p < length (is_heap ?st)" "ie_response ?e = None" and d: "distinct (iy_running y)"
    using own run by (auto simp: owners_ok_def)
  have st: "iy_store ?y = ?st\<lparr>is_heap := (is_heap ?st)[p := ?e\<lparr>ie_response := Some response\<rparr>]\<rparr>"
    and rest: "iy_running ?y = remove1 (key, p) (iy_running y)" "iy_waiting ?y = iy_waiting y"
      "iy_executed ?y = (key, ie_digest ?e, p, response) # iy_executed y"
      "iy_replied ?y = (key, ie_digest ?e, response) # iy_replied y"
    using p by (simp_all add: finish_def complete_request_def Let_def)
  have single: "k = key" if "(k, p) \<in> set (is_entries ?st)" for k
  proof -
    have "(key, p) \<in> set (is_entries ?st)" using p(1) by (rule map_of_SomeD)
    then show ?thesis using that ents inj_onD [of snd "set (is_entries ?st)" "(k, p)" "(key, p)"]
      by (auto simp: entries_ok_def distinct_map)
  qed
  have "entries_ok (iy_store ?y)" using ents by (auto simp: st entries_ok_def)
  moreover have "owners_ok ?y"
  proof -
    have "k = key" if "(k, p) \<in> set (iy_running y)" for k
      using that own single by (fastforce simp: owners_ok_def dest: map_of_SomeD)
    then have "q \<noteq> p" if "(k, q) \<in> set (iy_running y)" "(k, q) \<noteq> (key, p)" for k q using that by blast
    then show ?thesis using own d by (fastforce simp: owners_ok_def st rest)
  qed
  moreover have ptr: "pointer_ok ?y k q" if "pointer_ok y k q" for k q
  proof (cases "q = p")
    case True
    then have "(k, p) \<in> set (iy_running y)" using that p by (simp add: pointer_ok_def)
    then have "k = key" using own single by (fastforce simp: owners_ok_def dest: map_of_SomeD)
    then show ?thesis using True p by (simp add: pointer_ok_def st rest)
  next
    case False
    then show ?thesis using that by (auto simp: pointer_ok_def st rest split: option.splits)
  qed
  moreover have "\<forall>q. ie_digest (is_heap (iy_store ?y) ! q) = ie_digest (is_heap ?st ! q)"
    using p(2) by (auto simp: st nth_list_update)
  moreover have "q \<noteq> p" if "(k, dg, q, r) \<in> set (iy_executed y)" for k dg q r
    using inv that p(3) by (auto simp: idem_inv_def)
  ultimately show ?thesis using inv p(2) unfolding idem_inv_def
    by (fastforce simp: rest st)
qed

lemma inv_wake:
  assumes inv: "idem_inv y" and w: "(key, digest, p) \<in> set (iy_waiting y)" and r: "ie_response (is_heap (iy_store y) ! p) = Some response"
  shows "idem_inv (wake key digest p response y)"
proof -
  have "(key, digest, p, response) \<in> set (iy_executed y)" using inv w r by (fastforce simp: idem_inv_def pointer_ok_def)
  moreover have "pointer_ok (wake key digest p response y) k q = pointer_ok y k q" for k q
    by (simp add: pointer_ok_def wake_def split: option.split)
  moreover have "owners_ok (wake key digest p response y)" using inv by (auto simp: idem_inv_def owners_ok_def wake_def)
  ultimately show ?thesis using inv unfolding idem_inv_def by (auto simp: wake_def dest: set_mp [OF set_remove1_subset])
qed

lemma inv_leave:
  assumes "idem_inv y"
  shows "idem_inv (y\<lparr>iy_waiting := remove1 w (iy_waiting y)\<rparr>)"
  using assms by (intro inv_waiting) (auto simp: idem_inv_def dest: set_mp [OF set_remove1_subset])

lemma idem_step_inv: "idem_inv y \<Longrightarrow> idem_step sha y z \<Longrightarrow> idem_inv z"
  by (erule idem_step.cases)
    (auto simp: idempotencyMiddleware_def split: precheck.split intro: inv_arrive inv_finish inv_wake inv_leave)

lemma fresh_idempotency_inv: "fresh_idempotency y \<Longrightarrow> idem_inv y"
  by (auto simp: fresh_idempotency_def idem_inv_def NewIdempotencyStore_def entries_ok_def owners_ok_def)

interpretation idempotent: invariant_system fresh_idempotency "idem_step sha" idem_inv for sha
  by unfold_locales (fact fresh_idempotency_inv, fact idem_step_inv)

lemma one_owner_per_key:
  assumes "owners_ok y"
  shows "distinct (map fst (iy_running y))"
proof -
  have "map_of (is_entries (iy_store y)) (fst w) = Some (snd w)" if "w \<in> set (iy_running y)" for w
    using assms that by (auto simp: owners_ok_def)
  then have "inj_on fst (set (iy_running y))" by (metis inj_onI option.inject prod_eqI)
  then show ?thesis using assms by (simp add: distinct_map owners_ok_def)
qed


text \<open>A run: two equal requests and one with another body arrive, the first is executed, the second
  is answered with its response.\<close>

definition sample_arrival :: "string \<Rightarrow> idempotency_system \<Rightarrow> idempotency_system" where
  "sample_arrival body = idempotencyMiddleware id 5 ''uid'' ''POST'' ''/v1'' '' k '' body"

definition sample_idem0 :: idempotency_system where
  "sample_idem0 = \<lparr>iy_store = NewIdempotencyStore 0 0, iy_running = [], iy_waiting = [], iy_executed = [], iy_replied = []\<rparr>"

definition sample_idem1 :: idempotency_system where
  "sample_idem1 = sample_arrival ''b'' (sample_arrival ''a'' (sample_arrival ''a'' sample_idem0))"

definition sample_key :: string where
  "sample_key = entry_key ''uid'' ''POST'' ''/v1'' ''k''"

definition sample_recorder :: stored_response where
  "sample_recorder = buffered_Write ''ok'' newBufferedResponse"

definition sample_idem2 :: idempotency_system where
  "sample_idem2 = finish sample_key 0 (buffered_snapshot sample_recorder) sample_idem1"

definition sample_idem3 :: idempotency_system where
  "sample_idem3 = wake sample_key (requestDigest id ''POST'' ''/v1'' ''a'') 0 sample_recorder sample_idem2"

lemma sample_idem_reach: "fresh_idempotency sample_idem0" "reach (idem_step id) sample_idem0 sample_idem3"
proof -
  show "fresh_idempotency sample_idem0" unfolding fresh_idempotency_def by (auto simp: sample_idem0_def)
  have arr: "idem_step id y (sample_arrival b y)" for y b unfolding sample_arrival_def by (rule id_arrive)
  have "reach (idem_step id) sample_idem0 sample_idem1"
    unfolding sample_idem1_def by (meson reach_step reach_start arr)
  moreover have "idem_step id sample_idem1 sample_idem2" unfolding sample_idem2_def by (rule id_finish) code_simp
  moreover have "idem_step id sample_idem2 sample_idem3" unfolding sample_idem3_def by (rule id_wake; code_simp)
  ultimately show "reach (idem_step id) sample_idem0 sample_idem3" by (meson reach_step)
qed


end
