(* ===== verification/Model_Catalog.thy ===== *)
theory Model_Catalog
  imports Router
begin

text \<open>
  Model lists: the cache each provider keeps (\<open>src/model_cache.go\<close>), the allow list and the
  catalog of \<open>/v1/models\<close> (\<open>src/models.go\<close>), the
  models of the Codex provider (\<open>src/codex_provider.go\<close>). What the providers answer to the catalog
  (authentication, health, list) is its environment; the JSON text of the response is left aside.
\<close>

section \<open>Models and their cache\<close>

record model =
  mo_ID :: string
  mo_Object :: string
  mo_Created :: int
  mo_OwnedBy :: string
  mo_Name :: string
  mo_Vendor :: string
  mo_Version :: string
  mo_PickerEnabled :: bool
  mo_PickerCategory :: string
  mo_Preview :: bool
  mo_Endpoints :: "string list"

record model_list =
  ml_Object :: string
  ml_Data :: "model list"

definition plain_model :: "string \<Rightarrow> string \<Rightarrow> int \<Rightarrow> string \<Rightarrow> model" where
  "plain_model i object created owner = \<lparr>mo_ID = i, mo_Object = object, mo_Created = created, mo_OwnedBy = owner, mo_Name = '''',
     mo_Vendor = '''', mo_Version = '''', mo_PickerEnabled = False, mo_PickerCategory = '''', mo_Preview = False, mo_Endpoints = []\<rparr>"

record model_cache =
  mc_data :: "model_list option"
  mc_fetched :: gotime
  mc_ttl :: duration

definition defaultModelCacheTTL :: duration where "defaultModelCacheTTL = 600 * second"

definition NewModelCache :: "duration \<Rightarrow> model_cache" where
  "NewModelCache ttl = \<lparr>mc_data = None, mc_fetched = zero_time, mc_ttl = (if ttl \<le> 0 then defaultModelCacheTTL else ttl)\<rparr>"

definition mc_Get :: "gotime \<Rightarrow> model_cache \<Rightarrow> model_list option" where
  "mc_Get now c = (if now - mc_fetched c < mc_ttl c then mc_data c else None)"

definition mc_Set :: "gotime \<Rightarrow> model_list \<Rightarrow> model_cache \<Rightarrow> model_cache" where
  "mc_Set now ml c = c\<lparr>mc_data := Some ml, mc_fetched := now\<rparr>"

definition mc_Invalidate :: "model_cache \<Rightarrow> model_cache" where
  "mc_Invalidate c = c\<lparr>mc_data := None, mc_fetched := zero_time\<rparr>"

text \<open>The region under the fetch lock, on a provider state that holds the cache: look again, fetch,
  store. The clock is read before the fetch and after it.\<close>

definition fetch_locked ::
    "('s \<Rightarrow> model_cache) \<Rightarrow> (model_cache \<Rightarrow> 's \<Rightarrow> 's) \<Rightarrow> gotime \<Rightarrow> gotime \<Rightarrow> ('s \<Rightarrow> ('e + model_list) \<times> 's) \<Rightarrow> 's \<Rightarrow> ('e + model_list) \<times> 's" where
  "fetch_locked get put before after fetchFn s =
     (case mc_Get before (get s) of
        Some cached \<Rightarrow> (Inr cached, s)
      | None \<Rightarrow>
          (case fetchFn s of
             (Inl e, s) \<Rightarrow> (Inl e, s)
           | (Inr ml, s) \<Rightarrow> (Inr ml, put (mc_Set after ml (get s)) s)))"

definition GetOrFetch ::
    "('s \<Rightarrow> model_cache) \<Rightarrow> (model_cache \<Rightarrow> 's \<Rightarrow> 's) \<Rightarrow> gotime \<Rightarrow> gotime \<Rightarrow> gotime \<Rightarrow> ('s \<Rightarrow> ('e + model_list) \<times> 's) \<Rightarrow> 's \<Rightarrow> ('e + model_list) \<times> 's" where
  "GetOrFetch get put first before after fetchFn s =
     (case mc_Get first (get s) of
        Some cached \<Rightarrow> (Inr cached, s)
      | None \<Rightarrow> fetch_locked get put before after fetchFn s)"

definition LastKnownGood :: "gotime \<Rightarrow> model_cache \<Rightarrow> (model_list \<times> gotime \<times> bool) option" where
  "LastKnownGood now c = map_option (\<lambda>ml. (ml, mc_fetched c, now - mc_fetched c \<ge> mc_ttl c)) (mc_data c)"

definition Age :: "gotime \<Rightarrow> model_cache \<Rightarrow> duration" where
  "Age now c = (if mc_data c = None then - 1 else now - mc_fetched c)"

section \<open>Allow lists\<close>

definition isModelAllowedWithPrefix :: "string \<Rightarrow> string list \<Rightarrow> bool" where
  "isModelAllowedWithPrefix modelID allowedModels \<longleftrightarrow>
     (if allowedModels = [] then True
      else
        (let bareID = fst (StripModelPrefix modelID) in
         list_ex (\<lambda>allowed.
           let bareAllowed = fst (StripModelPrefix allowed)
           in equal_fold modelID allowed \<or> equal_fold bareID allowed \<or> equal_fold modelID bareAllowed \<or> equal_fold bareID bareAllowed)
           allowedModels))"

definition filterAllowedModels :: "int \<Rightarrow> model_list \<Rightarrow> string list \<Rightarrow> model_list" where
  "filterAllowedModels now modelList allowedModels =
     (if allowedModels = [] then modelList
      else
        (let filtered = filter (\<lambda>m. isModelAllowedWithPrefix (mo_ID m) allowedModels) (ml_Data modelList)
         in \<lparr>ml_Object = ''list'',
             ml_Data = (if filtered = [] then map (\<lambda>i. plain_model i ''model'' now ''openai'') allowedModels else filtered)\<rparr>))"

section \<open>The Codex catalog\<close>

definition codexKnownModels :: "string list" where
  "codexKnownModels = [''gpt-5.4-mini'', ''gpt-5.3-codex'', ''gpt-5.4'', ''gpt-5.2-codex'', ''gpt-5.1-codex-max'', ''gpt-5.1-codex'',
     ''gpt-5.2'', ''gpt-5.1'', ''gpt-5-codex'', ''gpt-5'', ''gpt-oss-120b'', ''gpt-oss-20b'', ''gpt-5.1-codex-mini'', ''gpt-5-codex-mini'']"

definition add_mapped :: "int \<Rightarrow> string \<times> model_map_entry \<Rightarrow> string list \<times> model list \<Rightarrow> string list \<times> model list" where
  "add_mapped now = (\<lambda>(modelID, entry) (seen, models).
     case StripModelPrefix modelID of
       (bareModel, prefixProvider, hasPrefix) \<Rightarrow>
         if mm_provider entry \<noteq> Codex \<and> (\<not> hasPrefix \<or> prefixProvider \<noteq> Codex) then (seen, models)
         else if bareModel \<in> set seen then (seen, models)
         else (bareModel # seen, models @ [plain_model bareModel ''model'' now ''openai'']))"

definition knownModelList :: "int \<Rightarrow> routing \<Rightarrow> model_list" where
  "knownModelList now rt =
     \<lparr>ml_Object = ''list'',
      ml_Data = snd (fold (add_mapped now) (items (rt_model_map rt))
        (codexKnownModels, map (\<lambda>i. plain_model i ''model'' now ''openai'') codexKnownModels))\<rparr>"

section \<open>The catalog\<close>

text \<open>What the providers answer to one request: authentication and health after
  \<open>EnsureAuthenticated\<close>, and the list (\<open>None\<close> for an error or a \<open>nil\<close> list).\<close>

record catalog_env =
  ca_authenticated :: "provider_id \<Rightarrow> bool"
  ca_canRefresh :: "provider_id \<Rightarrow> bool"
  ca_list :: "provider_id \<Rightarrow> model_list option"
  ca_now :: int

definition shouldRefreshModels :: "string \<Rightarrow> bool" where
  "shouldRefreshModels refresh =
     (let val = trim_space refresh in val = ''1'' \<or> equal_fold val ''true'' \<or> equal_fold val ''yes'' \<or> equal_fold val ''on'')"

definition isClaudeDiscoveryID :: "string \<Rightarrow> bool" where
  "isClaudeDiscoveryID m = (let m = to_lower (trim_space m) in has_prefix m ''claude'' \<or> has_prefix m ''anthropic'')"

definition providerSupportsResponses :: "provider_info \<Rightarrow> bool" where
  "providerSupportsResponses p \<longleftrightarrow> CapabilityResponses \<in> set (pr_capabilities p)"

text \<open>The condition of the loop body, for one entry of the alias map.\<close>

definition alias_discovered :: "registry \<Rightarrow> string set \<Rightarrow> string \<times> string \<Rightarrow> bool" where
  "alias_discovered registry known = (\<lambda>(alias, target).
     if alias \<in> known \<or> target \<notin> known \<or> \<not> isClaudeDiscoveryID alias then False
     else case StripModelPrefix target of
       (_, providerID, prefixed) \<Rightarrow>
         prefixed \<and> (case registry_Get registry providerID of Inl _ \<Rightarrow> False | Inr p \<Rightarrow> providerSupportsResponses p))"

definition discoverClaudeAliases :: "int \<Rightarrow> registry \<Rightarrow> (string, string) gomap \<Rightarrow> string list \<Rightarrow> model list" where
  "discoverClaudeAliases now registry aliases known =
     map (\<lambda>(alias, target). plain_model alias ''model'' now ''ya-router'') (filter (alias_discovered registry (set known)) aliases)"

text \<open>A model is added unless its ID was seen; the state is the IDs seen and the models so far.\<close>

definition add_unseen :: "model \<Rightarrow> string list \<times> model list \<Rightarrow> string list \<times> model list" where
  "add_unseen m = (\<lambda>(seen, ms). if mo_ID m \<in> set seen then (seen, ms) else (mo_ID m # seen, ms @ [m]))"

definition provider_models :: "catalog_env \<Rightarrow> routing \<Rightarrow> provider_info \<Rightarrow> model list" where
  "provider_models env rt p =
     (if \<not> ca_authenticated env (pr_id p) \<and> \<not> ca_canRefresh env (pr_id p) \<and> \<not> rt_show_unavailable rt then []
      else case ca_list env (pr_id p) of
        None \<Rightarrow> []
      | Some ml \<Rightarrow> map (\<lambda>m. plain_model (AddModelPrefix (pr_id p) (mo_ID m)) (mo_Object m) (mo_Created m) (ProviderOwnedBy (pr_id p))) (ml_Data ml))"

definition map_models :: "catalog_env \<Rightarrow> routing \<Rightarrow> model list" where
  "map_models env rt =
     map (\<lambda>(modelID, entry). plain_model modelID ''model'' (ca_now env) (ProviderOwnedBy (mm_provider entry))) (items (rt_model_map rt))"

definition umbrella_models :: "catalog_env \<Rightarrow> routing \<Rightarrow> model list" where
  "umbrella_models env rt = map (\<lambda>(modelID, vm). plain_model modelID ''model'' (ca_now env) ''ya-router'') (items (rt_virtual_models rt))"

definition modelsHandler :: "catalog_env \<Rightarrow> registry \<Rightarrow> routing \<Rightarrow> model_list" where
  "modelsHandler env registry rt =
     (let (seen, internalModels) = fold add_unseen (concat (map (provider_models env rt) (registry_All registry)) @ map_models env rt) ([], []);
          (seen, publicModels) = fold add_unseen (umbrella_models env rt) (seen, []);
          publicModels = publicModels @ discoverClaudeAliases (ca_now env) registry (items (rt_claude_aliases rt)) seen
      in \<lparr>ml_Object = ''list'', ml_Data = (if rt_expose_internal rt then internalModels @ publicModels else publicModels)\<rparr>)"

section \<open>Facts\<close>

lemma plain_model_simps [simp]: "mo_ID (plain_model i ob c ow) = i" "mo_OwnedBy (plain_model i ob c ow) = ow"
  by (simp_all add: plain_model_def)

lemma add_unseen_simp: "add_unseen m (seen, ms) = (if mo_ID m \<in> set seen then (seen, ms) else (mo_ID m # seen, ms @ [m]))"
  by (simp add: add_unseen_def)

lemma fold_unseen:
  "\<exists>new. snd (fold add_unseen ms (seen, out)) = out @ new \<and> set (fst (fold add_unseen ms (seen, out))) = set seen \<union> mo_ID ` set ms
     \<and> distinct (map mo_ID new) \<and> mo_ID ` set new = mo_ID ` set ms - set seen \<and> set new \<subseteq> set ms"
proof (induction ms arbitrary: seen out)
  case (Cons m ms)
  show ?case
  proof (cases "mo_ID m \<in> set seen")
    case True
    then show ?thesis using Cons.IH [of seen out] by (auto simp: add_unseen_simp)
  next
    case False
    obtain new where new: "snd (fold add_unseen ms (mo_ID m # seen, out @ [m])) = (out @ [m]) @ new"
        "set (fst (fold add_unseen ms (mo_ID m # seen, out @ [m]))) = set (mo_ID m # seen) \<union> mo_ID ` set ms"
        "distinct (map mo_ID new)" "mo_ID ` set new = mo_ID ` set ms - set (mo_ID m # seen)" "set new \<subseteq> set ms"
      using Cons.IH [of "mo_ID m # seen" "out @ [m]"] by blast
    have "mo_ID m \<notin> mo_ID ` set new" using new(4) by simp
    then show ?thesis using False new by (intro exI [of _ "m # new"]) (auto simp: add_unseen_simp)
  qed
qed simp

lemma alias_ids:
  "map mo_ID (discoverClaudeAliases now registry aliases known) = map fst (filter (alias_discovered registry (set known)) aliases)"
  by (simp add: discoverClaudeAliases_def case_prod_unfold)

text \<open>The IDs of the providers' lists and of the model map.\<close>

definition internal_ids :: "catalog_env \<Rightarrow> registry \<Rightarrow> routing \<Rightarrow> string set" where
  "internal_ids env registry rt =
     (\<Union>p \<in> set (registry_All registry). mo_ID ` set (provider_models env rt p)) \<union> set (keys_of (items (rt_model_map rt)))"

definition umbrella_ids :: "routing \<Rightarrow> string set" where
  "umbrella_ids rt = set (keys_of (items (rt_virtual_models rt)))"

lemma map_model_ids: "mo_ID ` set (map_models env rt) = set (keys_of (items (rt_model_map rt)))"
  by (force simp: map_models_def keys_of_def)

lemma umbrella_model_ids: "mo_ID ` set (umbrella_models env rt) = umbrella_ids rt"
  by (force simp: umbrella_models_def umbrella_ids_def keys_of_def)

lemma provider_model_id: "m \<in> set (provider_models env rt p) \<Longrightarrow> \<exists>i. mo_ID m = AddModelPrefix (pr_id p) i"
  by (auto simp: provider_models_def split: if_splits option.splits)

lemma umbrella_not_internal:
  assumes "ValidateVirtualModels rt KnownPrefixes = None" and "wf_map (items (rt_virtual_models rt))"
    and "\<forall>p \<in> set (registry_All registry). pr_id p \<in> {Copilot, Codex, Kilo}"
  shows "umbrella_ids rt \<inter> internal_ids env registry rt = {}"
proof -
  have "vid \<notin> internal_ids env registry rt" if vid: "vid \<in> umbrella_ids rt" for vid
  proof -
    from vid obtain vm where "(vid, vm) \<in> set (items (rt_virtual_models rt))" by (auto simp: umbrella_ids_def keys_of_def)
    then have ok: "virtual_model_ok rt KnownPrefixes vid vm" using assms(1) ValidateVirtualModels_None [OF assms(2), of KnownPrefixes] by auto
    then have pre: "\<not> has_prefix vid q" if "q \<in> {CopilotModelPrefix, CodexModelPrefix, KiloModelPrefix}" for q
      using that by (auto simp: virtual_model_ok_def KnownPrefixes_def prefix_defs)
    have ne: "vid \<noteq> AddModelPrefix (pr_id p) i" if "p \<in> set (registry_All registry)" for p i
    proof -
      have "has_prefix (AddModelPrefix (pr_id p) i) (ProviderPrefix (pr_id p))" by (simp add: AddModelPrefix_def Let_def has_prefix_def)
      moreover have "ProviderPrefix (pr_id p) \<in> {CopilotModelPrefix, CodexModelPrefix, KiloModelPrefix}"
        using assms(3) that by (auto simp: ProviderPrefix_def provider_id_defs)
      ultimately show ?thesis using pre by metis
    qed
    have "vid \<notin> mo_ID ` set (provider_models env rt p)" if "p \<in> set (registry_All registry)" for p
      using ne [OF that] provider_model_id by blast
    then show ?thesis using ok by (auto simp: internal_ids_def virtual_model_ok_def has_key_iff)
  qed
  then show ?thesis by blast
qed

text \<open>C25: the catalog lists exactly what it should, each ID once. For a validated configuration
  every umbrella model is in it, owned by the router; the providers' models under their prefixes
  and the entries of the model map are in it exactly when internal models are exposed; a Claude
  alias is in it exactly when its target is known, belongs to a provider with the Responses
  capability and the alias hides no other model, also when internal models are hidden. The order
  in which the maps are visited does not matter.\<close>

theorem models_catalog_correct:
  assumes "ValidateVirtualModels rt KnownPrefixes = None" and "wf_map (items (rt_virtual_models rt))"
    and "wf_map (items (rt_claude_aliases rt))"
    and "\<forall>p \<in> set (registry_All registry). pr_id p \<in> {Copilot, Codex, Kilo}"
  shows "let ms = ml_Data (modelsHandler env registry rt); known = internal_ids env registry rt \<union> umbrella_ids rt in
    distinct (map mo_ID ms)
    \<and> mo_ID ` set ms = (if rt_expose_internal rt then internal_ids env registry rt else {}) \<union> umbrella_ids rt
        \<union> {alias. \<exists>target. (alias, target) \<in> set (items (rt_claude_aliases rt)) \<and> alias_discovered registry known (alias, target)}
    \<and> (\<forall>m \<in> set ms. mo_ID m \<in> umbrella_ids rt \<longrightarrow> mo_OwnedBy m = ''ya-router'')"
proof -
  let ?pm = "concat (map (provider_models env rt) (registry_All registry)) @ map_models env rt"
  define seen internal where "seen = fst (fold add_unseen ?pm ([], []))" and "internal = snd (fold add_unseen ?pm ([], []))"
  define seen2 public where "seen2 = fst (fold add_unseen (umbrella_models env rt) (seen, []))"
    and "public = snd (fold add_unseen (umbrella_models env rt) (seen, []))"
  let ?aliases = "discoverClaudeAliases (ca_now env) registry (items (rt_claude_aliases rt)) seen2"
  have run: "ml_Data (modelsHandler env registry rt) = (if rt_expose_internal rt then internal else []) @ public @ ?aliases"
    by (simp add: modelsHandler_def Let_def case_prod_unfold seen_def internal_def seen2_def public_def)
  have ids: "mo_ID ` set ?pm = internal_ids env registry rt"
    by (simp add: internal_ids_def image_Un map_model_ids image_UN)
  have int: "set seen = internal_ids env registry rt" "distinct (map mo_ID internal)" "mo_ID ` set internal = internal_ids env registry rt"
    using fold_unseen [of ?pm "[]" "[]"] unfolding seen_def internal_def ids by auto
  have disj: "umbrella_ids rt \<inter> internal_ids env registry rt = {}" using umbrella_not_internal [OF assms(1,2,4)] .
  then have pub: "set seen2 = internal_ids env registry rt \<union> umbrella_ids rt" "distinct (map mo_ID public)" "mo_ID ` set public = umbrella_ids rt"
      "set public \<subseteq> set (umbrella_models env rt)"
    using fold_unseen [of "umbrella_models env rt" seen "[]"] unfolding seen2_def public_def umbrella_model_ids int(1) by auto
  let ?found = "{alias. \<exists>target. (alias, target) \<in> set (items (rt_claude_aliases rt)) \<and> alias_discovered registry (set seen2) (alias, target)}"
  have al: "mo_ID ` set ?aliases = ?found"
    unfolding set_map [symmetric] alias_ids by force
  have "distinct (map fst (filter (alias_discovered registry (set seen2)) (items (rt_claude_aliases rt))))"
    using assms(3) by (simp add: wf_map_def keys_of_def distinct_map_filter)
  then have ald: "distinct (map mo_ID ?aliases)" by (simp add: alias_ids)
  have fresh: "?found \<inter> set seen2 = {}" by (auto simp: alias_discovered_def)
  have own: "mo_OwnedBy m = ''ya-router''" if "m \<in> set public \<or> m \<in> set ?aliases" for m
    using that pub(4) by (auto simp: umbrella_models_def discoverClaudeAliases_def)
  show ?thesis
    unfolding Let_def run
    using int pub al ald fresh own disj by (auto simp: image_Un distinct_map)
qed

definition sample_catalog :: catalog_env where
  "sample_catalog = \<lparr>ca_authenticated = (\<lambda>pid. True), ca_canRefresh = (\<lambda>pid. False),
     ca_list = (\<lambda>pid. Some \<lparr>ml_Object = ''list'', ml_Data = [plain_model ''gpt-5'' ''model'' 1 '''']\<rparr>), ca_now = 7\<rparr>"

definition sample_alias_routing :: routing where
  "sample_alias_routing = sample_routing\<lparr>rt_claude_aliases := Some [(''claude-x'', ''codex/gpt-5''), (''claude-y'', ''kilo/none'')]\<rparr>"

definition sample_catalog_registry :: registry where
  "sample_catalog_registry = NewRegistry [Some ((sample_provider Codex)\<lparr>pr_capabilities := [CapabilityChat, CapabilityResponses]\<rparr>)]"

theorem models_catalog_correct_witness:
  "mo_ID ` set (ml_Data (modelsHandler sample_catalog sample_catalog_registry sample_alias_routing)) = {''thiendu'', ''claude-x''}"
proof -
  have v: "ValidateVirtualModels sample_alias_routing KnownPrefixes = None" by code_simp
  have wf: "wf_map (items (rt_virtual_models sample_alias_routing))" "wf_map (items (rt_claude_aliases sample_alias_routing))" by code_simp+
  have p: "\<forall>p \<in> set (registry_All sample_catalog_registry). pr_id p \<in> {Copilot, Codex, Kilo}" by code_simp
  have e: "rt_expose_internal sample_alias_routing = False" "umbrella_ids sample_alias_routing = {''thiendu''}" by code_simp+
  have i: "internal_ids sample_catalog sample_catalog_registry sample_alias_routing = {''codex/gpt-5''}" by code_simp
  have a: "items (rt_claude_aliases sample_alias_routing) = [(''claude-x'', ''codex/gpt-5''), (''claude-y'', ''kilo/none'')]" by code_simp
  have d: "alias_discovered sample_catalog_registry {''codex/gpt-5'', ''thiendu''} (''claude-x'', ''codex/gpt-5'')"
      "\<not> alias_discovered sample_catalog_registry {''codex/gpt-5'', ''thiendu''} (''claude-y'', ''kilo/none'')" by code_simp+
  define ok where "ok = alias_discovered sample_catalog_registry ({''codex/gpt-5''} \<union> {''thiendu''})"
  have ok: "ok (''claude-x'', ''codex/gpt-5'')" "\<not> ok (''claude-y'', ''kilo/none'')" unfolding ok_def Un_insert_left sup_bot_left by (fact d)+
  have "{alias. \<exists>target. (alias, target) \<in> set [(x, t), (y, u)] \<and> ok (alias, target)} = {x}" if "ok (x, t)" "\<not> ok (y, u)" for x t y u
    using that by auto
  note found = this [OF ok]
  have "mo_ID ` set (ml_Data (modelsHandler sample_catalog sample_catalog_registry sample_alias_routing)) = {} \<union> {''thiendu''} \<union> {''claude-x''}"
    using models_catalog_correct [OF v wf p, of sample_catalog, unfolded Let_def, THEN conjunct2, THEN conjunct1]
    unfolding e i a if_False ok_def [symmetric] found .
  then show ?thesis by (simp only: Un_insert_left sup_bot_left)
qed

end
