(* ===== verification/Json_Decode.thy ===== *)
theory Json_Decode
  imports Usage_Sniffer
begin

text \<open>
  Decoding JSON values into Go structs, as \<open>encoding/json\<close> does it, for the adapters between the
  public APIs. A struct is decoded member by member in document order: a member is stored in the
  field whose name it matches without regard to case, members that match no field are ignored,
  \<open>null\<close> leaves a string, number, boolean or struct unchanged, and a value of another type makes
  the whole decoding fail (all callers discard what a failed decoding has produced). A
  \<open>json.RawMessage\<close> is the value of its member, \<open>null\<close> included, or nothing when the member is
  absent. Documents that repeat a member holding an array of structs are outside the model: Go
  decodes the second array over the elements of the first.
\<close>

text \<open>What the adapters take from the library as given: the codec, the check and the text of a
  \<open>float64\<close>, its conversion to \<open>int64\<close>, and the source text of a raw value. The order of the
  members of an object that encodes a map is not represented.\<close>

record adapter_env =
  ae_codec :: json_codec
  ae_float64 :: "string \<Rightarrow> string option"
  ae_int64 :: "string \<Rightarrow> int"
  ae_raw_text :: "json \<Rightarrow> string"

section \<open>Struct decoding\<close>

type_synonym 's setter = "json \<Rightarrow> 's \<Rightarrow> 's option"

fun decode_members :: "(string \<times> 's setter) list \<Rightarrow> (string \<times> json) list \<Rightarrow> 's \<Rightarrow> 's option" where
  "decode_members flds [] s = Some s"
| "decode_members flds ((k, v) # kvs) s =
     (case find (\<lambda>(name, put). equal_fold k name) flds of
        None \<Rightarrow> decode_members flds kvs s
      | Some (name, put) \<Rightarrow> (case put v s of None \<Rightarrow> None | Some s \<Rightarrow> decode_members flds kvs s))"

definition struct_value :: "(string \<times> 's setter) list \<Rightarrow> 's setter" where
  "struct_value flds j s = (case j of JObj kvs \<Rightarrow> decode_members flds kvs s | JNull \<Rightarrow> Some s | _ \<Rightarrow> None)"

definition string_value :: "(string \<Rightarrow> 's \<Rightarrow> 's) \<Rightarrow> 's setter" where
  "string_value put j s = (case j of JStr t \<Rightarrow> Some (put t s) | JNull \<Rightarrow> Some s | _ \<Rightarrow> None)"

definition bool_value :: "(bool \<Rightarrow> 's \<Rightarrow> 's) \<Rightarrow> 's setter" where
  "bool_value put j s = (case j of JBool b \<Rightarrow> Some (put b s) | JNull \<Rightarrow> Some s | _ \<Rightarrow> None)"

definition int_value :: "(int \<Rightarrow> 's \<Rightarrow> 's) \<Rightarrow> 's setter" where
  "int_value put j s = (case j of JNum t \<Rightarrow> map_option (\<lambda>n. put n s) (Atoi t) | JNull \<Rightarrow> Some s | _ \<Rightarrow> None)"

definition raw_value :: "(json \<Rightarrow> 's \<Rightarrow> 's) \<Rightarrow> 's setter" where
  "raw_value put j s = Some (put j s)"

text \<open>A pointer to a number: the text of the number, after the checks of \<open>float64\<close>.\<close>

definition number_pointer :: "(string \<Rightarrow> string option) \<Rightarrow> (string option \<Rightarrow> 's \<Rightarrow> 's) \<Rightarrow> 's setter" where
  "number_pointer float64 put j s =
     (case j of JNum t \<Rightarrow> map_option (\<lambda>x. put (Some x) s) (float64 t) | JNull \<Rightarrow> Some (put None s) | _ \<Rightarrow> None)"

definition number_value :: "(string \<Rightarrow> string option) \<Rightarrow> (string \<Rightarrow> 's \<Rightarrow> 's) \<Rightarrow> 's setter" where
  "number_value float64 put j s =
     (case j of JNum t \<Rightarrow> map_option (\<lambda>x. put x s) (float64 t) | JNull \<Rightarrow> Some s | _ \<Rightarrow> None)"

definition bool_pointer :: "(bool option \<Rightarrow> 's \<Rightarrow> 's) \<Rightarrow> 's setter" where
  "bool_pointer put j s = (case j of JBool b \<Rightarrow> Some (put (Some b) s) | JNull \<Rightarrow> Some (put None s) | _ \<Rightarrow> None)"

definition nested_value :: "('s \<Rightarrow> 't) \<Rightarrow> ('t \<Rightarrow> 's \<Rightarrow> 's) \<Rightarrow> 't setter \<Rightarrow> 's setter" where
  "nested_value get put inner j s = map_option (\<lambda>t. put t s) (inner j (get s))"

definition pointer_value :: "('s \<Rightarrow> 't option) \<Rightarrow> ('t option \<Rightarrow> 's \<Rightarrow> 's) \<Rightarrow> 't \<Rightarrow> 't setter \<Rightarrow> 's setter" where
  "pointer_value get put zero inner j s =
     (if j = JNull then Some (put None s)
      else map_option (\<lambda>t. put (Some t) s) (inner j (case get s of Some t \<Rightarrow> t | None \<Rightarrow> zero)))"

text \<open>A slice: every element is decoded into the zero value.\<close>

definition decode_list :: "'t \<Rightarrow> 't setter \<Rightarrow> json \<Rightarrow> 't list option" where
  "decode_list zero inner j =
     (case j of JArr js \<Rightarrow> those (map (\<lambda>e. inner e zero) js) | JNull \<Rightarrow> Some [] | _ \<Rightarrow> None)"

definition list_value :: "('t list \<Rightarrow> 's \<Rightarrow> 's) \<Rightarrow> 't \<Rightarrow> 't setter \<Rightarrow> 's setter" where
  "list_value put zero inner j s = map_option (\<lambda>ts. put ts s) (decode_list zero inner j)"

section \<open>Top-level values\<close>

definition unmarshal_string :: "json \<Rightarrow> string option" where
  "unmarshal_string j = string_value (\<lambda>t s. t) j ''''"

definition unmarshal_bool :: "json \<Rightarrow> bool option" where
  "unmarshal_bool j = bool_value (\<lambda>t s. t) j False"

text \<open>A raw value that may be absent: decoding no bytes at all is an error.\<close>

definition raw_string :: "json option \<Rightarrow> string option" where
  "raw_string r = Option.bind r unmarshal_string"

abbreviation raw_given :: "json option \<Rightarrow> bool" where
  "raw_given r \<equiv> r \<noteq> None \<and> r \<noteq> Some JNull"

text \<open>\<open>map[string]json.RawMessage\<close>: \<open>null\<close> gives the nil map, which reads as empty.\<close>

definition unmarshal_object :: "json \<Rightarrow> (string, json) gomap option" where
  "unmarshal_object j = (case j of JObj kvs \<Rightarrow> Some (dedup kvs) | JNull \<Rightarrow> Some [] | _ \<Rightarrow> None)"

text \<open>A \<open>json.RawMessage\<close> that was never set is encoded as \<open>null\<close>.\<close>

definition raw_json :: "json option \<Rightarrow> json" where
  "raw_json r = (case r of None \<Rightarrow> JNull | Some j \<Rightarrow> j)"

text \<open>A member that is a string, for readers of what is sent.\<close>

definition string_member :: "(string \<times> json) list \<Rightarrow> string \<Rightarrow> string option" where
  "string_member kvs name = (case map_of kvs name of Some (JStr t) \<Rightarrow> Some t | _ \<Rightarrow> None)"

section \<open>Decimal text\<close>

definition digit_char :: "nat \<Rightarrow> char" where
  "digit_char d = char_of (48 + d)"

fun nat_text :: "nat \<Rightarrow> string" where
  "nat_text n = (if n < 10 then [digit_char n] else nat_text (n div 10) @ [digit_char (n mod 10)])"

declare nat_text.simps [simp del]

definition int_text :: "int \<Rightarrow> string" where
  "int_text i = (if i < 0 then CHR ''-'' # nat_text (nat (- i)) else nat_text (nat i))"

section \<open>Fallible steps\<close>

definition sum_bind :: "'e + 'a \<Rightarrow> ('a \<Rightarrow> 'e + 'b) \<Rightarrow> 'e + 'b" where
  "sum_bind r f = (case r of Inl e \<Rightarrow> Inl e | Inr x \<Rightarrow> f x)"

text \<open>A loop that stops at the first error.\<close>

fun map_result :: "('a \<Rightarrow> 'e + 'b) \<Rightarrow> 'a list \<Rightarrow> 'e + 'b list" where
  "map_result f [] = Inr []"
| "map_result f (x # xs) = sum_bind (f x) (\<lambda>y. sum_bind (map_result f xs) (\<lambda>ys. Inr (y # ys)))"

named_theorems return_iff \<open>when a chain of fallible steps succeeds, and with what\<close>

lemma sum_bind_return [return_iff]: "sum_bind r f = Inr y \<longleftrightarrow> (\<exists>x. r = Inr x \<and> f x = Inr y)"
  by (auto simp: sum_bind_def split: sum.splits)

lemma if_return [return_iff]: "(if b then Inl e else r) = Inr y \<longleftrightarrow> \<not> b \<and> r = Inr y"
  by simp

lemma option_return [return_iff]: "(case r of None \<Rightarrow> Inl e | Some x \<Rightarrow> f x) = Inr y \<longleftrightarrow> (\<exists>x. r = Some x \<and> f x = Inr y)"
  by (cases r) auto

lemma map_result_return [return_iff]: "map_result f xs = Inr ys \<longleftrightarrow> list_all2 (\<lambda>x y. f x = Inr y) xs ys"
  by (induction xs arbitrary: ys) (auto simp: return_iff list_all2_Cons1)

section \<open>strings.Join\<close>

fun join :: "string \<Rightarrow> string list \<Rightarrow> string" where
  "join sep [] = ''''"
| "join sep [x] = x"
| "join sep (x # y # ys) = x @ sep @ join sep (y # ys)"

section \<open>Facts\<close>

lemma of_char_digit [simp]: "d < 10 \<Longrightarrow> (of_char (digit_char d) :: nat) = 48 + d"
  by (simp add: digit_char_def of_char_of)

lemma digits_value_append: "digits_value acc (xs @ ys) = Option.bind (digits_value acc xs) (\<lambda>a. digits_value a ys)"
  by (induction xs arbitrary: acc) (auto simp: Let_def)

lemma digits_value_nat_text: "digits_value 0 (nat_text n) = Some (int n)"
proof (induction n rule: nat_text.induct)
  case (1 n)
  show ?case
  proof (cases "n < 10")
    case True
    then show ?thesis by (simp add: nat_text.simps)
  next
    case False
    have digit: "10 * int (n div 10) + int (n mod 10) = int n" "n mod 10 \<le> 9" by presburger+
    have "digits_value 0 (nat_text n) = digits_value (int (n div 10)) [digit_char (n mod 10)]"
      using 1 False by (subst nat_text.simps) (simp add: digits_value_append)
    also have "\<dots> = Some (int n)" using digit by simp
    finally show ?thesis .
  qed
qed

lemma nat_text_head: "\<exists>d cs. d < 10 \<and> nat_text n = digit_char d # cs"
proof (induction n rule: nat_text.induct)
  case (1 n)
  then show ?case by (subst nat_text.simps) (cases "n < 10"; fastforce)
qed

lemma digit_not_sign [simp]: "d < 10 \<Longrightarrow> digit_char d \<noteq> CHR ''-''" "d < 10 \<Longrightarrow> digit_char d \<noteq> CHR ''+''"
  by (auto dest: arg_cong [where f = "of_char :: char \<Rightarrow> nat"])

text \<open>A number that was printed is read back.\<close>

lemma Atoi_int_text:
  assumes "- (2 ^ 63) \<le> i" and "i < 2 ^ 63"
  shows "Atoi (int_text i) = Some i"
proof -
  obtain d cs where "d < 10" "nat_text (nat (abs i)) = digit_char d # cs" using nat_text_head by blast
  moreover from this have "digits_value 0 (digit_char d # cs) = Some (abs i)"
    using digits_value_nat_text [of "nat (abs i)"] by simp
  ultimately show ?thesis using assms
    by (cases "i < 0") (auto simp: Atoi_def int_text_def int64_range_def Let_def)
qed

lemma those_Some_iff: "those xs = Some ys \<longleftrightarrow> xs = map Some ys"
  by (induction xs arbitrary: ys) (auto split: option.splits)

text \<open>What every setter of a struct keeps, decoding keeps.\<close>

lemma decode_members_keeps:
  assumes "\<And>name put v s s'. (name, put) \<in> set flds \<Longrightarrow> P s \<Longrightarrow> put v s = Some s' \<Longrightarrow> P s'"
    and "P s" and "decode_members flds kvs s = Some s'"
  shows "P s'"
  using assms(2,3)
proof (induction kvs arbitrary: s)
  case (Cons kv kvs)
  obtain k v where kv: "kv = (k, v)" by fastforce
  show ?case
  proof (cases "find (\<lambda>(name, put). equal_fold k name) flds")
    case None
    then show ?thesis using Cons kv by simp
  next
    case (Some f)
    obtain name put where f: "f = (name, put)" by fastforce
    then have "(name, put) \<in> set flds" using Some by (metis find_Some_iff nth_mem)
    moreover obtain s1 where "put v s = Some s1" and d: "decode_members flds kvs s1 = Some s'"
      using Cons.prems(2) kv Some f by (auto split: option.splits)
    ultimately have "P s1" using assms(1) Cons.prems(1) by blast
    then show ?thesis using d by (rule Cons.IH)
  qed
qed simp

lemma Atoi_range: "Atoi t = Some n \<Longrightarrow> - (2 ^ 63) \<le> n \<and> n < 2 ^ 63"
  by (auto simp: Atoi_def int64_range_def Let_def split: option.splits if_splits)

lemmas setter_defs = struct_value_def string_value_def bool_value_def int_value_def raw_value_def number_pointer_def number_value_def
  bool_pointer_def nested_value_def pointer_value_def list_value_def

end
