(* ===== verification/Responses_Adapter.thy ===== *)
theory Responses_Adapter
  imports Json_Decode
begin

text \<open>
  Chat Completions requests as Responses requests, and Responses results as chat completions
  (\<open>src/responses_adapter.go\<close>, without its streams). ChatGPT's Codex backend and the OpenAI
  Platform take different requests; native Responses requests are adapted to either.
\<close>

datatype adapt_error =
    BodyUnparsed
  | MessagesUnparsed
  | ToolCallsUnparsed
  | ResponseFormatUnparsed
  | SchemaRequired
  | SchemaUnparsed
  | ResponseFormatUnsupported string
  | FieldUnsupported string
  | BodyUnencoded

section \<open>Parts of a request\<close>

definition streamOptionsIncludeUsage :: "(string, json) gomap \<Rightarrow> bool" where
  "streamOptionsIncludeUsage raw =
     (case map_of raw ''stream_options'' of None \<Rightarrow> False
      | Some value \<Rightarrow> struct_value [(''include_usage'', bool_value (\<lambda>v s. v))] value False = Some True)"

text \<open>A content part as a map; a part that is \<open>null\<close> stays \<open>null\<close>.\<close>

fun normalize_part :: "json \<Rightarrow> json option" where
  "normalize_part (JObj kvs) =
     (let part = dedup kvs in
      case Option.bind (map_of part ''type'') unmarshal_string of
        None \<Rightarrow> Some (JObj part)
      | Some ty \<Rightarrow>
          if ty = ''text'' then Some (JObj (AList.update ''type'' (JStr ''input_text'') part))
          else if ty = ''image_url'' then Some (JObj (AList.update ''type'' (JStr ''input_image'') part))
          else Some (JObj part))"
| "normalize_part JNull = Some JNull"
| "normalize_part _ = None"

definition normalizeContentParts :: "json option \<Rightarrow> json option" where
  "normalizeContentParts content =
     (case content of
        Some (JArr js) \<Rightarrow> (case those (map normalize_part js) of None \<Rightarrow> content | Some parts \<Rightarrow> Some (JArr parts))
      | _ \<Rightarrow> content)"

record chat_tool =
  ct_Type :: string
  ct_Name :: string
  ct_Description :: string
  ct_Parameters :: "json option"
  ct_Strict :: "bool option"

definition chat_tool_value :: "chat_tool setter" where
  "chat_tool_value = struct_value
     [(''type'', string_value (\<lambda>v s. s\<lparr>ct_Type := v\<rparr>)),
      (''function'', struct_value
         [(''name'', string_value (\<lambda>v s. s\<lparr>ct_Name := v\<rparr>)), (''description'', string_value (\<lambda>v s. s\<lparr>ct_Description := v\<rparr>)),
          (''parameters'', raw_value (\<lambda>v s. s\<lparr>ct_Parameters := Some v\<rparr>)), (''strict'', bool_pointer (\<lambda>v s. s\<lparr>ct_Strict := v\<rparr>))])]"

definition chat_tool_item :: "chat_tool \<Rightarrow> json" where
  "chat_tool_item tool =
     JObj ([(''type'', JStr ''function''), (''name'', JStr (ct_Name tool))]
       @ (if ct_Description tool \<noteq> '''' then [(''description'', JStr (ct_Description tool))] else [])
       @ (case ct_Parameters tool of None \<Rightarrow> [] | Some p \<Rightarrow> [(''parameters'', p)])
       @ (case ct_Strict tool of None \<Rightarrow> [] | Some b \<Rightarrow> [(''strict'', JBool b)]))"

definition convertToolsForResponses :: "json \<Rightarrow> json" where
  "convertToolsForResponses raw =
     (case decode_list \<lparr>ct_Type = '''', ct_Name = '''', ct_Description = '''', ct_Parameters = None, ct_Strict = None\<rparr> chat_tool_value raw of
        None \<Rightarrow> raw
      | Some tools \<Rightarrow> JArr (map chat_tool_item (filter (\<lambda>tool. ct_Type tool = '''' \<or> ct_Type tool = ''function'') tools)))"

section \<open>Messages\<close>

record chat_message =
  xm_Role :: string
  xm_Content :: "json option"
  xm_ToolCalls :: "json option"
  xm_ToolCallID :: string

definition chat_message_value :: "chat_message setter" where
  "chat_message_value = struct_value
     [(''role'', string_value (\<lambda>v s. s\<lparr>xm_Role := v\<rparr>)), (''content'', raw_value (\<lambda>v s. s\<lparr>xm_Content := Some v\<rparr>)),
      (''tool_calls'', raw_value (\<lambda>v s. s\<lparr>xm_ToolCalls := Some v\<rparr>)), (''tool_call_id'', string_value (\<lambda>v s. s\<lparr>xm_ToolCallID := v\<rparr>))]"

record chat_tool_call =
  tc_ID :: string
  tc_Name :: string
  tc_Arguments :: string

definition tool_call_value :: "chat_tool_call setter" where
  "tool_call_value = struct_value
     [(''id'', string_value (\<lambda>v s. s\<lparr>tc_ID := v\<rparr>)),
      (''function'', struct_value
         [(''name'', string_value (\<lambda>v s. s\<lparr>tc_Name := v\<rparr>)), (''arguments'', string_value (\<lambda>v s. s\<lparr>tc_Arguments := v\<rparr>))])]"

definition decode_tool_calls :: "json \<Rightarrow> chat_tool_call list option" where
  "decode_tool_calls j = decode_list \<lparr>tc_ID = '''', tc_Name = '''', tc_Arguments = ''''\<rparr> tool_call_value j"

definition function_call_item :: "chat_tool_call \<Rightarrow> json" where
  "function_call_item call =
     JObj [(''type'', JStr ''function_call''), (''call_id'', JStr (tc_ID call)), (''name'', JStr (tc_Name call)),
           (''arguments'', JStr (tc_Arguments call))]"

definition role_content_item :: "string \<Rightarrow> json option \<Rightarrow> json" where
  "role_content_item role content = JObj [(''role'', JStr role), (''content'', raw_json (normalizeContentParts content))]"

text \<open>The instructions a system message gives.\<close>

definition system_parts :: "json option \<Rightarrow> string list" where
  "system_parts content =
     (case raw_string content of
        Some text \<Rightarrow> [text]
      | None \<Rightarrow>
          (case Option.bind content (decode_list '''' (struct_value [(''text'', string_value (\<lambda>v s. v))])) of
             None \<Rightarrow> [] | Some parts \<Rightarrow> filter (\<lambda>text. text \<noteq> '''') parts))"

definition tool_output :: "adapter_env \<Rightarrow> json option \<Rightarrow> string" where
  "tool_output env content =
     (case raw_string content of Some text \<Rightarrow> text
      | None \<Rightarrow> (case content of None \<Rightarrow> '''' | Some j \<Rightarrow> ae_raw_text env j))"

text \<open>One message: the instructions and the items it contributes.\<close>

definition extract_message :: "adapter_env \<Rightarrow> chat_message \<Rightarrow> adapt_error + string list \<times> json list" where
  "extract_message env m =
     (if xm_Role m = ''system'' then Inr (system_parts (xm_Content m), [])
      else if xm_Role m = ''tool'' then
        Inr ([], [JObj [(''type'', JStr ''function_call_output''), (''call_id'', JStr (xm_ToolCallID m)),
                  (''output'', JStr (tool_output env (xm_Content m)))]])
      else if xm_Role m = ''assistant'' \<and> raw_given (xm_ToolCalls m) then
        (case decode_tool_calls (raw_json (xm_ToolCalls m)) of None \<Rightarrow> Inl ToolCallsUnparsed
         | Some calls \<Rightarrow>
             Inr ([], (if raw_given (xm_Content m) \<and> xm_Content m \<noteq> Some (JStr '''')
                       then [role_content_item ''assistant'' (xm_Content m)] else [])
                    @ map function_call_item calls))
      else Inr ([], [role_content_item (xm_Role m) (xm_Content m)]))"

definition decode_messages :: "json \<Rightarrow> chat_message list option" where
  "decode_messages value =
     decode_list \<lparr>xm_Role = '''', xm_Content = None, xm_ToolCalls = None, xm_ToolCallID = ''''\<rparr> chat_message_value value"

definition extractMessages :: "adapter_env \<Rightarrow> json \<Rightarrow> adapt_error + string \<times> json" where
  "extractMessages env value =
     (case decode_messages value of None \<Rightarrow> Inl MessagesUnparsed
      | Some messages \<Rightarrow>
          sum_bind (map_result (extract_message env) messages) (\<lambda>rs.
            Inr (join [newline] (concat (map fst rs)), JArr (concat (map snd rs)))))"

section \<open>Response format\<close>

definition format_envelope :: "json \<Rightarrow> (string \<times> json option) option" where
  "format_envelope raw =
     struct_value [(''type'', string_value (\<lambda>v (t, sc). (v, sc))), (''json_schema'', raw_value (\<lambda>v (t, sc). (t, Some v)))] raw ('''', None)"

definition responseFormatToResponsesText :: "json \<Rightarrow> adapt_error + json" where
  "responseFormatToResponsesText raw =
     (case format_envelope raw of None \<Rightarrow> Inl ResponseFormatUnparsed
      | Some (ty, schema) \<Rightarrow>
          sum_bind
            (if ty = ''json_schema'' then
               (if \<not> raw_given schema then Inl SchemaRequired
                else case unmarshal_object (raw_json schema) of None \<Rightarrow> Inl SchemaUnparsed
                | Some format \<Rightarrow> Inr (AList.update ''type'' (JStr ''json_schema'') format))
             else if ty = ''json_object'' then Inr [(''type'', JStr ''json_object'')]
             else if ty = ''text'' \<or> ty = '''' then Inr [(''type'', JStr ''text'')]
             else Inl (ResponseFormatUnsupported ty))
            (\<lambda>format. Inr (JObj [(''format'', JObj format)])))"

section \<open>Requests\<close>

definition chatGPTCodexAllowedKeys :: "string list" where
  "chatGPTCodexAllowedKeys = [''model'', ''input'', ''instructions'', ''tools'', ''tool_choice'', ''parallel_tool_calls'', ''text'',
     ''reasoning'', ''metadata'', ''stream'', ''store'', ''temperature'', ''top_p'', ''user'']"

definition copied_keys :: "string list" where
  "copied_keys = [''model'', ''temperature'', ''top_p'', ''user'', ''tool_choice'', ''parallel_tool_calls'', ''reasoning'', ''metadata'']"

definition unsupported_keys :: "string list" where
  "unsupported_keys = [''n'', ''stop'', ''logprobs'', ''top_logprobs'', ''logit_bias'', ''frequency_penalty'', ''presence_penalty'',
     ''seed'', ''function_call'', ''functions'']"

definition unmarshal_body :: "adapter_env \<Rightarrow> string \<Rightarrow> (string, json) gomap option" where
  "unmarshal_body env body = Option.bind (jc_decode (ae_codec env) body) unmarshal_object"

definition encode_body :: "adapter_env \<Rightarrow> (string, json) gomap \<Rightarrow> bool \<Rightarrow> adapt_error + string \<times> bool" where
  "encode_body env out flag = (case jc_encode (ae_codec env) (JObj out) of None \<Rightarrow> Inl BodyUnencoded | Some encoded \<Rightarrow> Inr (encoded, flag))"

definition codex_conversation :: "adapter_env \<Rightarrow> (string, json) gomap \<Rightarrow> adapt_error + (string \<times> json) list" where
  "codex_conversation env raw =
     (case map_of raw ''messages'' of None \<Rightarrow> Inr [(''instructions'', JStr '''')]
      | Some messages \<Rightarrow> sum_bind (extractMessages env messages) (\<lambda>(instructions, input).
          Inr [(''instructions'', JStr instructions), (''input'', input)]))"

definition codex_format :: "(string, json) gomap \<Rightarrow> adapt_error + (string \<times> json) list" where
  "codex_format raw =
     (case map_of raw ''response_format'' of None \<Rightarrow> Inr []
      | Some f \<Rightarrow> sum_bind (responseFormatToResponsesText f) (\<lambda>text. Inr [(''text'', text)]))"

definition codex_members :: "adapter_env \<Rightarrow> (string, json) gomap \<Rightarrow> adapt_error + (string, json) gomap" where
  "codex_members env raw =
     sum_bind (codex_conversation env raw) (\<lambda>conversation. sum_bind (codex_format raw) (\<lambda>format.
     case find (\<lambda>key. has_key raw key) unsupported_keys of
       Some key \<Rightarrow> Inl (FieldUnsupported key)
     | None \<Rightarrow>
         Inr (conversation @ List.map_filter (\<lambda>key. map_option (Pair key) (map_of raw key)) copied_keys
              @ (case map_of raw ''tools'' of None \<Rightarrow> [] | Some tools \<Rightarrow> [(''tools'', convertToolsForResponses tools)])
              @ format @ [(''stream'', JBool True), (''store'', JBool False)])))"

definition buildChatGPTCodexRequest :: "adapter_env \<Rightarrow> string \<Rightarrow> adapt_error + string \<times> bool" where
  "buildChatGPTCodexRequest env chatBody =
     (case unmarshal_body env chatBody of None \<Rightarrow> Inl BodyUnparsed
      | Some raw \<Rightarrow> sum_bind (codex_members env raw) (\<lambda>out. encode_body env out (streamOptionsIncludeUsage raw)))"

text \<open>The members one member of a chat request becomes.\<close>

definition platform_member :: "adapter_env \<Rightarrow> string \<Rightarrow> json \<Rightarrow> adapt_error + (string \<times> json) list" where
  "platform_member env key value =
     (if key = ''messages'' then
        sum_bind (extractMessages env value) (\<lambda>(instructions, input). Inr [(''instructions'', JStr instructions), (''input'', input)])
      else if key = ''max_tokens'' \<or> key = ''max_completion_tokens'' then Inr [(''max_output_tokens'', value)]
      else if key = ''stream_options'' then Inr []
      else if key = ''tools'' then Inr [(''tools'', convertToolsForResponses value)]
      else if key = ''response_format'' then sum_bind (responseFormatToResponsesText value) (\<lambda>text. Inr [(''text'', text)])
      else if key \<in> set unsupported_keys then Inl (FieldUnsupported key)
      else Inr [(key, value)])"

text \<open>The loop over the request, in the order Go happens to visit the map.\<close>

fun platform_loop :: "adapter_env \<Rightarrow> (string, json) gomap \<Rightarrow> (string, json) gomap \<Rightarrow> adapt_error + (string, json) gomap" where
  "platform_loop env [] out = Inr out"
| "platform_loop env ((key, value) # raw) out =
     sum_bind (platform_member env key value) (\<lambda>ms. platform_loop env raw (fold (\<lambda>(k, v). AList.update k v) ms out))"

definition buildPlatformResponsesRequest :: "adapter_env \<Rightarrow> string \<Rightarrow> adapt_error + string \<times> bool" where
  "buildPlatformResponsesRequest env chatBody =
     (case unmarshal_body env chatBody of None \<Rightarrow> Inl BodyUnparsed
      | Some raw \<Rightarrow>
          sum_bind (platform_loop env raw []) (\<lambda>out.
            encode_body env (if has_key out ''instructions'' then out else AList.update ''instructions'' (JStr '''') out)
              (streamOptionsIncludeUsage raw)))"

definition wants_stream :: "(string, json) gomap \<Rightarrow> bool" where
  "wants_stream raw = (Option.bind (map_of raw ''stream'') unmarshal_bool = Some True)"

definition native_input :: "(string, json) gomap \<Rightarrow> (string, json) gomap" where
  "native_input out =
     (case Option.bind (map_of out ''input'') unmarshal_string of None \<Rightarrow> out
      | Some text \<Rightarrow> AList.update ''input'' (JArr [JObj [(''role'', JStr ''user''), (''content'', JStr text)]]) out)"

definition buildChatGPTNativeResponsesRequest :: "adapter_env \<Rightarrow> string \<Rightarrow> adapt_error + string \<times> bool" where
  "buildChatGPTNativeResponsesRequest env body =
     (case unmarshal_body env body of None \<Rightarrow> Inl BodyUnparsed
      | Some raw \<Rightarrow>
          (case find (\<lambda>(key, v). key \<notin> set chatGPTCodexAllowedKeys) raw of
             Some (key, v) \<Rightarrow> Inl (FieldUnsupported key)
           | None \<Rightarrow>
               encode_body env (AList.update ''store'' (JBool False) (AList.update ''stream'' (JBool True) (native_input raw)))
                 (wants_stream raw)))"

text \<open>A request that is \<open>null\<close> is the nil map and encoded as \<open>null\<close> again.\<close>

definition buildPlatformNativeResponsesRequest :: "adapter_env \<Rightarrow> string \<Rightarrow> adapt_error + string \<times> bool" where
  "buildPlatformNativeResponsesRequest env body =
     (if jc_decode (ae_codec env) body = Some JNull then
        (case jc_encode (ae_codec env) JNull of None \<Rightarrow> Inl BodyUnencoded | Some encoded \<Rightarrow> Inr (encoded, False))
      else case unmarshal_body env body of None \<Rightarrow> Inl BodyUnparsed
      | Some raw \<Rightarrow> encode_body env (AList.delete ''stream_options'' raw) (wants_stream raw))"

definition isStreamingRequest :: "adapter_env \<Rightarrow> string \<Rightarrow> bool" where
  "isStreamingRequest env body \<longleftrightarrow>
     Option.bind (jc_decode (ae_codec env) body) (\<lambda>j. struct_value [(''stream'', bool_value (\<lambda>v s. v))] j False) = Some True"

section \<open>Results\<close>

record responses_output =
  ro_Type :: string
  ro_ID :: string
  ro_Role :: string
  ro_CallID :: string
  ro_Name :: string
  ro_Arguments :: string
  ro_Content :: "(string \<times> string) list"

record responses_usage =
  ru_InputTokens :: int
  ru_OutputTokens :: int
  ru_TotalTokens :: int

record responses_error =
  re_Message :: string
  re_Type :: string
  re_Code :: string

record responses_result =
  rs_ID :: string
  rs_Object :: string
  rs_CreatedAt :: string
  rs_Model :: string
  rs_Output :: "responses_output list"
  rs_Usage :: "responses_usage option"
  rs_Error :: "responses_error option"

definition output_value :: "responses_output setter" where
  "output_value = struct_value
     [(''type'', string_value (\<lambda>v s. s\<lparr>ro_Type := v\<rparr>)), (''id'', string_value (\<lambda>v s. s\<lparr>ro_ID := v\<rparr>)),
      (''role'', string_value (\<lambda>v s. s\<lparr>ro_Role := v\<rparr>)), (''call_id'', string_value (\<lambda>v s. s\<lparr>ro_CallID := v\<rparr>)),
      (''name'', string_value (\<lambda>v s. s\<lparr>ro_Name := v\<rparr>)), (''arguments'', string_value (\<lambda>v s. s\<lparr>ro_Arguments := v\<rparr>)),
      (''content'', list_value (\<lambda>v s. s\<lparr>ro_Content := v\<rparr>) ('''', '''')
         (struct_value [(''type'', string_value (\<lambda>v (t, x). (v, x))), (''text'', string_value (\<lambda>v (t, x). (t, v)))]))]"

definition zero_output :: responses_output where
  "zero_output = \<lparr>ro_Type = '''', ro_ID = '''', ro_Role = '''', ro_CallID = '''', ro_Name = '''', ro_Arguments = '''', ro_Content = []\<rparr>"

definition usage_value :: "responses_usage setter" where
  "usage_value = struct_value
     [(''input_tokens'', int_value (\<lambda>v s. s\<lparr>ru_InputTokens := v\<rparr>)), (''output_tokens'', int_value (\<lambda>v s. s\<lparr>ru_OutputTokens := v\<rparr>)),
      (''total_tokens'', int_value (\<lambda>v s. s\<lparr>ru_TotalTokens := v\<rparr>))]"

definition zero_tokens :: responses_usage where
  "zero_tokens = \<lparr>ru_InputTokens = 0, ru_OutputTokens = 0, ru_TotalTokens = 0\<rparr>"

definition error_value :: "responses_error setter" where
  "error_value = struct_value
     [(''message'', string_value (\<lambda>v s. s\<lparr>re_Message := v\<rparr>)), (''type'', string_value (\<lambda>v s. s\<lparr>re_Type := v\<rparr>)),
      (''code'', string_value (\<lambda>v s. s\<lparr>re_Code := v\<rparr>))]"

definition result_value :: "(string \<Rightarrow> string option) \<Rightarrow> responses_result setter" where
  "result_value float64 = struct_value
     [(''id'', string_value (\<lambda>v s. s\<lparr>rs_ID := v\<rparr>)), (''object'', string_value (\<lambda>v s. s\<lparr>rs_Object := v\<rparr>)),
      (''created_at'', number_value float64 (\<lambda>v s. s\<lparr>rs_CreatedAt := v\<rparr>)), (''model'', string_value (\<lambda>v s. s\<lparr>rs_Model := v\<rparr>)),
      (''output'', list_value (\<lambda>v s. s\<lparr>rs_Output := v\<rparr>) zero_output output_value),
      (''usage'', pointer_value rs_Usage (\<lambda>v s. s\<lparr>rs_Usage := v\<rparr>) zero_tokens usage_value),
      (''error'', pointer_value rs_Error (\<lambda>v s. s\<lparr>rs_Error := v\<rparr>) \<lparr>re_Message = '''', re_Type = '''', re_Code = ''''\<rparr> error_value)]"

definition zero_responses :: responses_result where
  "zero_responses = \<lparr>rs_ID = '''', rs_Object = '''', rs_CreatedAt = ''0'', rs_Model = '''', rs_Output = [], rs_Usage = None, rs_Error = None\<rparr>"

definition decode_result :: "adapter_env \<Rightarrow> string \<Rightarrow> responses_result option" where
  "decode_result env body = Option.bind (jc_decode (ae_codec env) body) (\<lambda>j. result_value (ae_float64 env) j zero_responses)"

definition item_text :: "responses_output \<Rightarrow> string" where
  "item_text item = (if ro_Type item = ''message'' then concat (map snd (filter (\<lambda>(ty, text). ty = ''output_text'') (ro_Content item))) else '''')"

definition chat_tool_call_json :: "responses_output \<Rightarrow> json" where
  "chat_tool_call_json item =
     JObj [(''id'', JStr (ro_CallID item)), (''type'', JStr ''function''),
           (''function'', JObj [(''name'', JStr (ro_Name item)), (''arguments'', JStr (ro_Arguments item))])]"

definition chat_usage :: "responses_usage \<Rightarrow> json" where
  "chat_usage u = JObj [(''prompt_tokens'', JNum (int_text (ru_InputTokens u))), (''completion_tokens'', JNum (int_text (ru_OutputTokens u))),
     (''total_tokens'', JNum (int_text (ru_TotalTokens u)))]"

definition chat_completion :: "adapter_env \<Rightarrow> responses_result \<Rightarrow> json" where
  "chat_completion env r =
     (case rs_Error r of
        Some e \<Rightarrow> JObj [(''error'', JObj [(''message'', JStr (re_Message e)), (''type'', JStr (re_Type e)), (''code'', JStr (re_Code e))])]
      | None \<Rightarrow>
          (let calls = map chat_tool_call_json (filter (\<lambda>item. ro_Type item = ''function_call'') (rs_Output r));
               message = [(''role'', JStr ''assistant''), (''content'', JStr (concat (map item_text (rs_Output r))))]
                 @ (if calls \<noteq> [] then [(''tool_calls'', JArr calls)] else [])
           in JObj ([(''id'', JStr (rs_ID r)), (''object'', JStr ''chat.completion''), (''created'', JNum (int_text (ae_int64 env (rs_CreatedAt r)))),
                (''model'', JStr (rs_Model r)),
                (''choices'', JArr [JObj [(''index'', JNum ''0''), (''message'', JObj message),
                   (''finish_reason'', JStr (if calls \<noteq> [] then ''tool_calls'' else ''stop''))]])]
              @ (case rs_Usage r of None \<Rightarrow> [] | Some u \<Rightarrow> [(''usage'', chat_usage u)]))))"

definition responsesToChatCompletion :: "adapter_env \<Rightarrow> string \<Rightarrow> string option" where
  "responsesToChatCompletion env respBody = Option.bind (decode_result env respBody) (\<lambda>r. jc_encode (ae_codec env) (chat_completion env r))"

section \<open>What ChatGPT's backend is sent\<close>

lemma copied_members:
  "set (List.map_filter (\<lambda>key. map_option (Pair key) (map_of raw key)) keys) \<subseteq> {(k, v). k \<in> set keys}"
  by (auto simp: List.map_filter_def)

lemma map_of_copied:
  "k \<notin> set keys \<Longrightarrow> map_of (List.map_filter (\<lambda>key. map_option (Pair key) (map_of raw key)) keys) k = None"
  using copied_members [of raw keys] by (auto simp: map_of_eq_None_iff)

definition restricted :: "(string, json) gomap \<Rightarrow> bool" where
  "restricted kvs \<longleftrightarrow> fst ` set kvs \<subseteq> set chatGPTCodexAllowedKeys \<and> map_of kvs ''stream'' = Some (JBool True)
     \<and> map_of kvs ''store'' = Some (JBool False)"

lemma copied_names:
  "fst ` set (List.map_filter (\<lambda>key. map_option (Pair key) (map_of raw key)) keys) \<subseteq> set keys"
  using copied_members [of raw keys] by auto

lemma tools_name:
  "fst ` set (case map_of raw ''tools'' of None \<Rightarrow> [] | Some tools \<Rightarrow> [(''tools'', convertToolsForResponses tools)]) \<subseteq> {''tools''}"
  by (cases "map_of raw ''tools''") simp_all

lemma allowed_names:
  "{''instructions'', ''input''} \<subseteq> set chatGPTCodexAllowedKeys" "set copied_keys \<subseteq> set chatGPTCodexAllowedKeys"
  "{''tools''} \<subseteq> set chatGPTCodexAllowedKeys" "{''text''} \<subseteq> set chatGPTCodexAllowedKeys"
  "fst ` set [(''stream'', JBool True), (''store'', JBool False)] \<subseteq> set chatGPTCodexAllowedKeys"
  by code_simp+

lemma codex_members_restricted:
  assumes "codex_members env raw = Inr out"
  shows "restricted out"
proof -
  obtain c f where cf: "codex_conversation env raw = Inr c" "codex_format raw = Inr f"
    and out: "out = c @ List.map_filter (\<lambda>key. map_option (Pair key) (map_of raw key)) copied_keys
              @ (case map_of raw ''tools'' of None \<Rightarrow> [] | Some tools \<Rightarrow> [(''tools'', convertToolsForResponses tools)])
              @ f @ [(''stream'', JBool True), (''store'', JBool False)]"
    using assms by (auto simp: codex_members_def return_iff split: option.splits)
  have c: "fst ` set c \<subseteq> {''instructions'', ''input''}" and f: "fst ` set f \<subseteq> {''text''}"
    using cf by (auto simp: codex_conversation_def codex_format_def return_iff split: option.splits)
  have "map_of c ''stream'' = None" "map_of f ''stream'' = None" "map_of c ''store'' = None" "map_of f ''store'' = None"
    using c f by (auto simp: map_of_eq_None_iff)
  moreover have "''stream'' \<notin> set copied_keys" "''store'' \<notin> set copied_keys" by (simp_all add: copied_keys_def)
  ultimately have "map_of out ''stream'' = Some (JBool True)" "map_of out ''store'' = Some (JBool False)"
    by (simp_all add: out map_of_copied map_add_def split: option.split)
  moreover have "fst ` set out \<subseteq> set chatGPTCodexAllowedKeys"
    unfolding out set_append image_Un
    by (intro Un_least subset_trans [OF c allowed_names(1)] subset_trans [OF copied_names allowed_names(2)]
        subset_trans [OF tools_name allowed_names(3)] subset_trans [OF f allowed_names(4)] allowed_names(5))
  ultimately show ?thesis by (simp add: restricted_def)
qed

lemma fst_set_update: "fst ` set (AList.update k v m) = insert k (fst ` set m)"
  by (simp flip: dom_map_of_conv_image_fst add: update_conv')

lemma native_members_restricted:
  assumes "find (\<lambda>(key, v). key \<notin> set chatGPTCodexAllowedKeys) raw = None"
  shows "restricted (AList.update ''store'' (JBool False) (AList.update ''stream'' (JBool True) (native_input raw)))"
proof -
  have "fst ` set raw \<subseteq> set chatGPTCodexAllowedKeys" using assms by (auto simp: find_None_iff)
  then have "fst ` set (native_input raw) \<subseteq> set chatGPTCodexAllowedKeys"
    using allowed_names(1) by (auto simp: native_input_def fst_set_update split: option.splits)
  then show ?thesis using allowed_names(5) by (simp add: restricted_def fst_set_update)
qed

lemma codex_built:
  "buildChatGPTCodexRequest env body = Inr (out, flag) \<Longrightarrow> \<exists>kvs. restricted kvs \<and> jc_encode (ae_codec env) (JObj kvs) = Some out"
  using codex_members_restricted
  by (fastforce simp: buildChatGPTCodexRequest_def encode_body_def return_iff)

lemma native_built:
  assumes "buildChatGPTNativeResponsesRequest env body = Inr (out, flag)"
  shows "\<exists>kvs. restricted kvs \<and> jc_encode (ae_codec env) (JObj kvs) = Some out"
proof -
  obtain raw where raw: "unmarshal_body env body = Some raw"
    using assms by (auto simp: buildChatGPTNativeResponsesRequest_def return_iff)
  show ?thesis
  proof (cases "find (\<lambda>(key, v). key \<notin> set chatGPTCodexAllowedKeys) raw")
    case None
    then show ?thesis using assms raw native_members_restricted [OF None]
      by (auto simp: buildChatGPTNativeResponsesRequest_def encode_body_def return_iff)
  next
    case (Some kv)
    then show ?thesis using assms raw by (simp add: buildChatGPTNativeResponsesRequest_def case_prod_unfold)
  qed
qed

lemma native_refused:
  assumes raw: "unmarshal_body env body = Some raw" and k: "has_key raw k" "k \<notin> set chatGPTCodexAllowedKeys"
  shows "\<exists>k'. buildChatGPTNativeResponsesRequest env body = Inl (FieldUnsupported k') \<and> has_key raw k' \<and> k' \<notin> set chatGPTCodexAllowedKeys"
proof (cases "find (\<lambda>(key, v). key \<notin> set chatGPTCodexAllowedKeys) raw")
  case None
  then show ?thesis using k by (fastforce simp: find_None_iff has_key_iff keys_of_def)
next
  case (Some kv)
  then have "kv \<in> set raw" "fst kv \<notin> set chatGPTCodexAllowedKeys" by (metis (no_types, lifting) find_Some_iff nth_mem case_prod_unfold)+
  then show ?thesis using Some raw
    by (intro exI [of _ "fst kv"]) (auto simp: buildChatGPTNativeResponsesRequest_def has_key_iff keys_of_def case_prod_unfold)
qed


definition sample_native :: json where
  "sample_native = JObj [(''model'', JStr ''gpt-5''), (''input'', JStr ''hi'')]"

definition sample_native_out :: json where
  "sample_native_out = JObj [(''model'', JStr ''gpt-5''),
     (''input'', JArr [JObj [(''role'', JStr ''user''), (''content'', JStr ''hi'')]]), (''stream'', JBool True), (''store'', JBool False)]"

definition sample_responses_env :: adapter_env where
  "sample_responses_env = \<lparr>ae_codec = \<lparr>jc_decode = (\<lambda>s. if s = ''in'' then Some sample_native else if s = ''out'' then Some sample_native_out else None),
     jc_encode = (\<lambda>j. if j = sample_native_out then Some ''out'' else None)\<rparr>, ae_float64 = Some, ae_int64 = (\<lambda>t. 0), ae_raw_text = (\<lambda>j. ''{}'')\<rparr>"


section \<open>The order of a map\<close>

text \<open>Two members of a chat request that would both set one member of the Platform request.\<close>

definition produced :: "string \<Rightarrow> string set" where
  "produced key =
     (if key = ''messages'' then {''instructions'', ''input''}
      else if key = ''max_tokens'' \<or> key = ''max_completion_tokens'' then {''max_output_tokens''}
      else if key = ''stream_options'' then {}
      else if key = ''response_format'' then {''text''}
      else {key})"

definition collision_free :: "(string, json) gomap \<Rightarrow> bool" where
  "collision_free raw \<longleftrightarrow> (\<forall>k \<in> set (keys_of raw). \<forall>k' \<in> set (keys_of raw). k \<noteq> k' \<longrightarrow> produced k \<inter> produced k' = {})"

lemma member_produced:
  assumes "platform_member env key value = Inr ms"
  shows "fst ` set ms \<subseteq> produced key" and "distinct (map fst ms)"
proof -
  consider "key = ''messages''" | "key = ''max_tokens'' \<or> key = ''max_completion_tokens''" | "key = ''stream_options''" | "key = ''tools''"
    | "key = ''response_format''" | "key \<noteq> ''messages''" "\<not> (key = ''max_tokens'' \<or> key = ''max_completion_tokens'')"
      "key \<noteq> ''stream_options''" "key \<noteq> ''tools''" "key \<noteq> ''response_format''" by argo
  then have "fst ` set ms \<subseteq> produced key \<and> distinct (map fst ms)"
  proof cases
    case 6
    then have "ms = [(key, value)]" using assms by (auto simp: platform_member_def split: if_splits)
    then show ?thesis using 6 by (simp add: produced_def)
  qed (use assms in \<open>auto simp: platform_member_def produced_def return_iff\<close>)
  then show "fst ` set ms \<subseteq> produced key" and "distinct (map fst ms)" by auto
qed

definition contributed :: "adapter_env \<Rightarrow> (string, json) gomap \<Rightarrow> string \<Rightarrow> json \<Rightarrow> bool" where
  "contributed env raw k v \<longleftrightarrow> (\<exists>(key, value) \<in> set raw. \<exists>ms. platform_member env key value = Inr ms \<and> (k, v) \<in> set ms)"

lemma map_of_fold_update:
  assumes "distinct (map fst ms)"
  shows "map_of (fold (\<lambda>(k, v). AList.update k v) ms out) k = (case map_of ms k of Some v \<Rightarrow> Some v | None \<Rightarrow> map_of out k)"
  using assms
proof (induction ms arbitrary: out)
  case (Cons kv ms)
  then have "map_of ms (fst kv) = None" by (simp add: map_of_eq_None_iff)
  then show ?case using Cons by (cases kv) (auto split: option.split)
qed simp

lemma platform_loop_members:
  assumes "platform_loop env raw out = Inr out'" and "wf_map raw" and "collision_free raw"
  shows "map_of out' k = Some v \<longleftrightarrow> contributed env raw k v \<or> (map_of out k = Some v \<and> \<not> (\<exists>w. contributed env raw k w))"
  using assms
proof (induction raw arbitrary: out)
  case Nil
  then show ?case by (simp add: contributed_def)
next
  case (Cons kv raw)
  obtain key val where kv: "kv = (key, val)" by fastforce
  obtain ms where ms: "platform_member env key val = Inr ms"
    and l: "platform_loop env raw (fold (\<lambda>(k, v). AList.update k v) ms out) = Inr out'"
    using Cons.prems(1) by (auto simp: kv return_iff)
  have split: "contributed env (kv # raw) k v \<longleftrightarrow> (k, v) \<in> set ms \<or> contributed env raw k v" for v
    using ms by (auto simp: contributed_def kv)
  have "wf_map raw" "collision_free raw" "key \<notin> set (keys_of raw)"
    using Cons.prems(2,3) by (auto simp: kv wf_map_def collision_free_def keys_of_def)
  note ih = Cons.IH [OF l this(1,2)]
  have disj: "\<not> contributed env raw k w" if "(k, v) \<in> set ms" for v w
  proof
    assume "contributed env raw k w"
    then obtain key' val' ms' where m': "(key', val') \<in> set raw" "platform_member env key' val' = Inr ms'" "(k, w) \<in> set ms'"
      by (auto simp: contributed_def)
    then have "key' \<in> set (keys_of raw)" by (force simp: keys_of_def)
    then have "produced key \<inter> produced key' = {}"
      using Cons.prems(3) \<open>key \<notin> set (keys_of raw)\<close> unfolding collision_free_def kv by (auto simp: keys_of_def)
    then show False using member_produced(1) [OF ms] member_produced(1) [OF m'(2)] that m'(3) by force
  qed
  have "map_of (fold (\<lambda>(k, v). AList.update k v) ms out) k = Some v
      \<longleftrightarrow> (k, v) \<in> set ms \<or> (map_of out k = Some v \<and> \<not> (\<exists>w. (k, w) \<in> set ms))" for v
    using member_produced(2) [OF ms] map_of_eq_Some_iff [OF member_produced(2) [OF ms], of k]
    by (cases "map_of ms k") (auto simp: map_of_fold_update)
  then show ?case using ih split disj by blast
qed

lemma platform_loop_returns_iff:
  "(\<exists>out'. platform_loop env raw out = Inr out') \<longleftrightarrow> (\<forall>(key, val) \<in> set raw. \<exists>ms. platform_member env key val = Inr ms)"
proof (induction raw arbitrary: out)
  case (Cons kv raw)
  obtain key val where kv: "kv = (key, val)" by fastforce
  show ?case
    by (cases "platform_member env key val") (use Cons.IH in \<open>auto simp: kv sum_bind_def\<close>)
qed simp

text \<open>A chat request becomes one Platform request, whatever order Go visits its members in. When
  no two members of the request set the same member of the result, any two orders both fail or
  both succeed, with the same members.\<close>

theorem platform_request_deterministic:
  assumes "wf_map raw" and "wf_map raw'" and "set raw' = set raw" and "collision_free raw"
  shows "(\<exists>out. platform_loop env raw [] = Inr out) = (\<exists>out. platform_loop env raw' [] = Inr out)
    \<and> (\<forall>out out'. platform_loop env raw [] = Inr out \<and> platform_loop env raw' [] = Inr out' \<longrightarrow> map_of out = map_of out')"
proof (intro conjI allI impI)
  show "(\<exists>out. platform_loop env raw [] = Inr out) = (\<exists>out. platform_loop env raw' [] = Inr out)"
    unfolding platform_loop_returns_iff assms(3) ..
next
  fix out out'
  assume o: "platform_loop env raw [] = Inr out \<and> platform_loop env raw' [] = Inr out'"
  have "collision_free raw'" using assms(3,4) by (simp add: collision_free_def keys_of_def)
  moreover have "contributed env raw = contributed env raw'" using assms(3) by (simp add: contributed_def fun_eq_iff)
  ultimately have "map_of out k = Some v \<longleftrightarrow> map_of out' k = Some v" for k v
    using o platform_loop_members [of env raw "[]" out k v] platform_loop_members [of env raw' "[]" out' k v] assms by simp
  then show "map_of out = map_of out'" by (intro ext) (metis option.exhaust)
qed

definition sample_chat :: "(string, json) gomap" where
  "sample_chat = [(''model'', JStr ''gpt-5''), (''max_tokens'', JNum ''7'')]"

theorem platform_request_deterministic_witness:
  "platform_loop sample_responses_env sample_chat [] = Inr [(''model'', JStr ''gpt-5''), (''max_output_tokens'', JNum ''7'')]
   \<and> (\<exists>out. platform_loop sample_responses_env (rev sample_chat) [] = Inr out
        \<and> map_of out = map_of [(''model'', JStr ''gpt-5''), (''max_output_tokens'', JNum ''7'')])"
proof -
  have l: "platform_loop sample_responses_env sample_chat [] = Inr [(''model'', JStr ''gpt-5''), (''max_output_tokens'', JNum ''7'')]"
    by code_simp
  have "wf_map sample_chat" "wf_map (rev sample_chat)" "collision_free sample_chat"
    by (auto simp: sample_chat_def wf_map_def keys_of_def collision_free_def produced_def)
  then show ?thesis using platform_request_deterministic [of sample_chat "rev sample_chat" sample_responses_env] l by auto
qed

text \<open>With both token limits given, which one is sent depends on the order.\<close>

lemma platform_limit_ambiguous:
  "platform_loop env [(''max_tokens'', a), (''max_completion_tokens'', b)] [] = Inr [(''max_output_tokens'', b)]"
  "platform_loop env [(''max_completion_tokens'', b), (''max_tokens'', a)] [] = Inr [(''max_output_tokens'', a)]"
  by (simp_all add: platform_member_def sum_bind_def)

end
