(* ===== verification/Responses_Stream.thy ===== *)
theory Responses_Stream
  imports Responses_Adapter
begin

text \<open>
  Responses event streams (\<open>src/responses_adapter.go\<close>): as chat completion chunks for a client that
  streams, and folded into one result for a client that does not. The upstream body is the text
  that was read and whether reading then failed; what is written for the client is a list of
  writer actions, as for every provider.
\<close>

section \<open>Lines\<close>

definition carriage_return :: char where
  "carriage_return = CHR 0x0D"

text \<open>\<open>bufio.ScanLines\<close>: the text before each newline, and what follows the last one if it is not
  empty.\<close>

function split_lines :: "string \<Rightarrow> string list" where
  "split_lines s =
     (if s = [] then []
      else case dropWhile (\<lambda>c. c \<noteq> newline) s of
        [] \<Rightarrow> [s]
      | nl # rest \<Rightarrow> takeWhile (\<lambda>c. c \<noteq> newline) s # split_lines rest)"
  by pat_completeness auto
termination
  by (relation "measure length") (auto dest: length_after_dropWhile)

declare split_lines.simps [simp del]

definition drop_cr :: "string \<Rightarrow> string" where
  "drop_cr line = (if line \<noteq> [] \<and> last line = carriage_return then butlast line else line)"

definition max_line :: int where
  "max_line = 4 * 1024 * 1024"

definition event_prefix :: string where
  "event_prefix = ''event: ''"

definition trim_prefix :: "string \<Rightarrow> string \<Rightarrow> string" where
  "trim_prefix s p = (if has_prefix s p then drop (length p) s else s)"

datatype stream_error =
    ReadingStream
  | StreamFailure string
  | StreamIncomplete
  | CompletedUnparsed

section \<open>Chat chunks\<close>

record chat_stream =
  cs_chatID :: string
  cs_model :: string
  cs_created :: int
  cs_sentRole :: bool
  cs_eventType :: string
  cs_hadToolCalls :: bool
  cs_toolCallCount :: nat
  cs_indices :: "(string, nat) gomap"
  cs_written :: "rw_action list"

definition chunk_json :: "string \<Rightarrow> string \<Rightarrow> int \<Rightarrow> (string \<times> json) list \<Rightarrow> string option \<Rightarrow> (string \<times> json) list \<Rightarrow> json" where
  "chunk_json ident model created delta finishReason extra =
     JObj ([(''id'', JStr ident), (''object'', JStr ''chat.completion.chunk''), (''created'', JNum (int_text created)), (''model'', JStr model),
        (''choices'', JArr [JObj [(''index'', JNum ''0''), (''delta'', JObj delta),
           (''finish_reason'', (case finishReason of None \<Rightarrow> JNull | Some r \<Rightarrow> JStr r))]])] @ extra)"

definition encoded :: "adapter_env \<Rightarrow> json \<Rightarrow> string" where
  "encoded env j = (case jc_encode (ae_codec env) j of None \<Rightarrow> '''' | Some t \<Rightarrow> t)"

definition data_line :: "string \<Rightarrow> string" where
  "data_line data = data_prefix @ data @ [newline, newline]"

definition write_chunk :: "adapter_env \<Rightarrow> (string \<times> json) list \<Rightarrow> chat_stream \<Rightarrow> chat_stream" where
  "write_chunk env delta st =
     st\<lparr>cs_written := cs_written st @ [WriteBody (data_line (encoded env (chunk_json (cs_chatID st) (cs_model st) (cs_created st) delta None []))), DoFlush]\<rparr>"

definition done_line :: string where
  "done_line = data_line ''[DONE]''"

datatype line_result = NextLine chat_stream | StopStream chat_stream "stream_error option"

definition decode_data :: "adapter_env \<Rightarrow> 's setter \<Rightarrow> 's \<Rightarrow> string \<Rightarrow> 's option" where
  "decode_data env inner zero data = Option.bind (jc_decode (ae_codec env) data) (\<lambda>j. inner j zero)"

definition nested_struct :: "string \<Rightarrow> 's setter \<Rightarrow> 's setter" where
  "nested_struct name inner = struct_value [(name, inner)]"

record stream_item =
  si_ID :: string
  si_Type :: string
  si_CallID :: string
  si_Name :: string

definition zero_item :: stream_item where
  "zero_item = \<lparr>si_ID = '''', si_Type = '''', si_CallID = '''', si_Name = ''''\<rparr>"

definition item_value :: "stream_item setter" where
  "item_value = struct_value
     [(''id'', string_value (\<lambda>v s. s\<lparr>si_ID := v\<rparr>)), (''type'', string_value (\<lambda>v s. s\<lparr>si_Type := v\<rparr>)),
      (''call_id'', string_value (\<lambda>v s. s\<lparr>si_CallID := v\<rparr>)), (''name'', string_value (\<lambda>v s. s\<lparr>si_Name := v\<rparr>))]"

record stream_delta =
  sd_Delta :: string
  sd_ItemID :: string
  sd_CallID :: string

definition delta_value :: "stream_delta setter" where
  "delta_value = struct_value
     [(''delta'', string_value (\<lambda>v s. s\<lparr>sd_Delta := v\<rparr>)), (''item_id'', string_value (\<lambda>v s. s\<lparr>sd_ItemID := v\<rparr>)),
      (''call_id'', string_value (\<lambda>v s. s\<lparr>sd_CallID := v\<rparr>))]"

definition zero_delta :: stream_delta where
  "zero_delta = \<lparr>sd_Delta = '''', sd_ItemID = '''', sd_CallID = ''''\<rparr>"

definition on_created :: "adapter_env \<Rightarrow> string \<Rightarrow> chat_stream \<Rightarrow> chat_stream" where
  "on_created env data st =
     (case decode_data env (nested_struct ''response''
         (struct_value [(''id'', string_value (\<lambda>v (i, m). (v, m))), (''model'', string_value (\<lambda>v (i, m). (i, v)))])) ('''', '''') data of
        None \<Rightarrow> st
      | Some (ident, model) \<Rightarrow>
          st\<lparr>cs_model := (if model \<noteq> '''' then model else cs_model st), cs_chatID := (if ident \<noteq> '''' then ident else cs_chatID st)\<rparr>)"

definition on_text :: "adapter_env \<Rightarrow> string \<Rightarrow> chat_stream \<Rightarrow> chat_stream" where
  "on_text env data st =
     (case decode_data env (struct_value [(''delta'', string_value (\<lambda>v s. v))]) '''' data of
        None \<Rightarrow> st
      | Some delta \<Rightarrow>
          (let st = (if cs_sentRole st then st else write_chunk env [(''role'', JStr ''assistant'')] (st\<lparr>cs_sentRole := True\<rparr>))
           in write_chunk env [(''content'', JStr delta)] st))"

definition on_item :: "adapter_env \<Rightarrow> string \<Rightarrow> chat_stream \<Rightarrow> chat_stream" where
  "on_item env data st =
     (case decode_data env (nested_struct ''item'' item_value) zero_item data of
        None \<Rightarrow> st
      | Some item \<Rightarrow>
          if si_Type item \<noteq> ''function_call'' then st
          else
            (let index = cs_toolCallCount st;
                 indices = (if si_CallID item \<noteq> '''' then AList.update (si_CallID item) index (cs_indices st) else cs_indices st);
                 indices = (if si_ID item \<noteq> '''' then AList.update (si_ID item) index indices else indices);
                 delta = [(''tool_calls'', JArr [JObj [(''index'', JNum (nat_text index)), (''id'', JStr (si_CallID item)), (''type'', JStr ''function''),
                            (''function'', JObj [(''name'', JStr (si_Name item)), (''arguments'', JStr '''')])]])]
                   @ (if cs_sentRole st then [] else [(''role'', JStr ''assistant'')])
             in write_chunk env delta (st\<lparr>cs_hadToolCalls := True, cs_toolCallCount := index + 1, cs_indices := indices, cs_sentRole := True\<rparr>)))"

definition on_arguments :: "adapter_env \<Rightarrow> string \<Rightarrow> chat_stream \<Rightarrow> chat_stream" where
  "on_arguments env data st =
     (case decode_data env delta_value zero_delta data of
        None \<Rightarrow> st
      | Some event \<Rightarrow>
          (case map_of (cs_indices st) (if sd_ItemID event = '''' then sd_CallID event else sd_ItemID event) of
             None \<Rightarrow> st
           | Some index \<Rightarrow>
               write_chunk env [(''tool_calls'', JArr [JObj [(''index'', JNum (nat_text index)),
                 (''function'', JObj [(''arguments'', JStr (sd_Delta event))])]])] st))"

definition completed_usage :: "adapter_env \<Rightarrow> string \<Rightarrow> responses_usage option" where
  "completed_usage env data =
     (case decode_data env (nested_struct ''response'' (struct_value [(''usage'', pointer_value id (\<lambda>v s. v) zero_tokens usage_value)])) None data of
        None \<Rightarrow> None | Some usage \<Rightarrow> usage)"

definition on_completed :: "adapter_env \<Rightarrow> bool \<Rightarrow> string \<Rightarrow> chat_stream \<Rightarrow> chat_stream" where
  "on_completed env includeUsage data st =
     (let usage = (if includeUsage then completed_usage env data else None);
          finish = (if cs_hadToolCalls st then ''tool_calls'' else ''stop'');
          chunk = chunk_json (cs_chatID st) (cs_model st) (cs_created st) [] (Some finish)
            (case usage of None \<Rightarrow> [] | Some u \<Rightarrow> [(''usage'', chat_usage u)])
      in st\<lparr>cs_written := cs_written st @ [WriteBody (data_line (encoded env chunk)), WriteBody done_line, DoFlush]\<rparr>)"

definition failure_events :: "string list" where
  "failure_events = [''response.failed'', ''response.incomplete'', ''error'']"

definition chat_event :: "adapter_env \<Rightarrow> bool \<Rightarrow> string \<Rightarrow> chat_stream \<Rightarrow> line_result" where
  "chat_event env includeUsage data st =
     (let ty = cs_eventType st in
      if ty = ''response.created'' then NextLine (on_created env data st)
      else if ty = ''response.output_text.delta'' then NextLine (on_text env data st)
      else if ty = ''response.output_item.added'' then NextLine (on_item env data st)
      else if ty = ''response.function_call_arguments.delta'' then NextLine (on_arguments env data st)
      else if ty = ''response.completed'' then StopStream (on_completed env includeUsage data st) None
      else if ty \<in> set failure_events
      then StopStream (st\<lparr>cs_written := cs_written st @ [WriteBody (data_line data), WriteBody done_line, DoFlush]\<rparr>) (Some (StreamFailure ty))
      else NextLine st)"

definition chat_line :: "adapter_env \<Rightarrow> bool \<Rightarrow> string \<Rightarrow> chat_stream \<Rightarrow> line_result" where
  "chat_line env includeUsage line st =
     (if has_prefix line event_prefix then NextLine (st\<lparr>cs_eventType := trim_prefix line event_prefix\<rparr>)
      else if \<not> has_prefix line data_prefix then NextLine st
      else chat_event env includeUsage (trim_prefix line data_prefix) st)"

text \<open>The scanner's loop: a line that does not fit the buffer ends it with an error.\<close>

fun chat_lines :: "adapter_env \<Rightarrow> bool \<Rightarrow> bool \<Rightarrow> string list \<Rightarrow> chat_stream \<Rightarrow> chat_stream \<times> stream_error option" where
  "chat_lines env includeUsage readFailed [] st = (st, Some (if readFailed then ReadingStream else StreamIncomplete))"
| "chat_lines env includeUsage readFailed (line # rest) st =
     (if int (length line) \<ge> max_line then (st, Some ReadingStream)
      else case chat_line env includeUsage (drop_cr line) st of
        NextLine st \<Rightarrow> chat_lines env includeUsage readFailed rest st
      | StopStream st err \<Rightarrow> (st, err))"

definition new_chat_stream :: "string \<Rightarrow> int \<Rightarrow> chat_stream" where
  "new_chat_stream chatID created =
     \<lparr>cs_chatID = chatID, cs_model = '''', cs_created = created, cs_sentRole = False, cs_eventType = '''', cs_hadToolCalls = False,
      cs_toolCallCount = 0, cs_indices = [],
      cs_written = [SetHeader ''Content-Type'' ''text/event-stream'', SetHeader ''Cache-Control'' ''no-cache'',
        SetHeader ''Connection'' ''keep-alive'', WriteStatus 200]\<rparr>"

text \<open>The current time in milliseconds names the completion until the upstream names it.\<close>

definition streamResponsesAsChat ::
    "adapter_env \<Rightarrow> int \<Rightarrow> int \<Rightarrow> bool \<Rightarrow> string \<Rightarrow> bool \<Rightarrow> rw_action list \<times> stream_error option" where
  "streamResponsesAsChat env millis created includeUsage body readFailed =
     (case chat_lines env includeUsage readFailed (split_lines body) (new_chat_stream (''chatcmpl-'' @ int_text millis) created) of
        (st, err) \<Rightarrow> (cs_written st, err))"

section \<open>One result\<close>

definition accumulated_message :: "string \<Rightarrow> json" where
  "accumulated_message text =
     JArr [JObj [(''type'', JStr ''message''), (''role'', JStr ''assistant''),
        (''content'', JArr [JObj [(''type'', JStr ''output_text''), (''text'', JStr text)]])]]"

datatype merged = Merged "json option" | MergePanic

text \<open>The response object, absent when \<open>response.completed\<close> has none. Storing into the nil map that
  \<open>null\<close> decodes to panics.\<close>

definition mergeAccumulatedText :: "json option \<Rightarrow> string \<Rightarrow> merged" where
  "mergeAccumulatedText response text =
     (if text = '''' then Merged response
      else case response of
        Some (JObj kvs) \<Rightarrow>
          (case map_of (dedup kvs) ''output'' of
             Some (JArr (x # xs)) \<Rightarrow> Merged response
           | _ \<Rightarrow> Merged (Some (JObj (AList.update ''output'' (accumulated_message text) (dedup kvs)))))
      | Some JNull \<Rightarrow> MergePanic
      | _ \<Rightarrow> Merged response)"

datatype aggregate = Aggregated merged | AggregateFailed stream_error

text \<open>The event type and the text so far.\<close>

fun aggregate_lines :: "adapter_env \<Rightarrow> bool \<Rightarrow> string list \<Rightarrow> string \<Rightarrow> string \<Rightarrow> aggregate" where
  "aggregate_lines env readFailed [] ty text = AggregateFailed (if readFailed then ReadingStream else StreamIncomplete)"
| "aggregate_lines env readFailed (raw # rest) ty text =
     (if int (length raw) \<ge> max_line then AggregateFailed ReadingStream
      else
        (let line = drop_cr raw in
         if has_prefix line event_prefix then aggregate_lines env readFailed rest (trim_prefix line event_prefix) text
         else if \<not> has_prefix line data_prefix then aggregate_lines env readFailed rest ty text
         else
           (let data = trim_prefix line data_prefix in
            if ty = ''response.output_text.delta'' then
              aggregate_lines env readFailed rest ty
                (case decode_data env (struct_value [(''delta'', string_value (\<lambda>v s. v))]) '''' data of None \<Rightarrow> text | Some delta \<Rightarrow> text @ delta)
            else if ty = ''response.completed'' then
              (case decode_data env (struct_value [(''response'', raw_value (\<lambda>v s. Some v))]) None data of
                 None \<Rightarrow> AggregateFailed CompletedUnparsed
               | Some response \<Rightarrow> Aggregated (mergeAccumulatedText response text))
            else if ty \<in> set failure_events then AggregateFailed (StreamFailure ty)
            else aggregate_lines env readFailed rest ty text)))"

definition aggregateSSEToCompletion :: "adapter_env \<Rightarrow> string \<Rightarrow> bool \<Rightarrow> aggregate" where
  "aggregateSSEToCompletion env body readFailed = aggregate_lines env readFailed (split_lines body) '''' ''''"

end
