(* ===== verification/Upstream_Handlers.thy ===== *)
theory Upstream_Handlers
  imports Proxy Responses_Stream
begin

text \<open>
  What a provider does with the response of an upstream service: the copies of
  \<open>src/proxy.go\<close>, the account-limit signal of \<open>src/copilot_provider.go\<close>, and the two handlers of
  \<open>src/responses_adapter.go\<close>. They run on any response writer: \<open>writer_ops\<close> is the interface
  \<open>http.ResponseWriter\<close> with \<open>http.Flusher\<close>, which every writer of the program implements. A body
  comes in the pieces its reads return, and may end in an error.
\<close>

section \<open>Writers\<close>

record 'w writer_ops =
  wo_Header :: "'w \<Rightarrow> header"
  wo_SetHeader :: "header \<Rightarrow> 'w \<Rightarrow> 'w"
  wo_WriteHeader :: "int \<Rightarrow> 'w \<Rightarrow> 'w"
  wo_Write :: "string \<Rightarrow> 'w \<Rightarrow> bool \<times> 'w"
  wo_Flush :: "'w \<Rightarrow> 'w"

definition put_header :: "'w writer_ops \<Rightarrow> string \<Rightarrow> string \<Rightarrow> 'w \<Rightarrow> 'w" where
  "put_header ops k v w = wo_SetHeader ops (AList.update k [v] (wo_Header ops w)) w"

definition append_header :: "'w writer_ops \<Rightarrow> string \<Rightarrow> string \<Rightarrow> 'w \<Rightarrow> 'w" where
  "append_header ops k v w = wo_SetHeader ops (header_add k v (wo_Header ops w)) w"

fun perform :: "'w writer_ops \<Rightarrow> rw_action \<Rightarrow> 'w \<Rightarrow> 'w" where
  "perform ops (AddHeader k v) w = append_header ops k v w"
| "perform ops (SetHeader k v) w = put_header ops k v w"
| "perform ops (WriteStatus code) w = wo_WriteHeader ops code w"
| "perform ops (WriteBody data) w = snd (wo_Write ops data w)"
| "perform ops DoFlush w = wo_Flush ops w"

section \<open>Upstream responses\<close>

record http_response =
  hr_StatusCode :: int
  hr_Header :: header
  hr_Pieces :: "string list"
  hr_ReadErr :: "proxy_error option"

definition hr_Body :: "http_response \<Rightarrow> string" where
  "hr_Body r = concat (hr_Pieces r)"

definition plain_error :: "string \<Rightarrow> proxy_error" where
  "plain_error message = \<lparr>er_message = message, er_provider = None, er_canceled = False, er_deadline = False\<rparr>"

text \<open>A copy loop: stop at the first failed write; at the end, the error of reading.\<close>

fun copy_pieces :: "'w writer_ops \<Rightarrow> bool \<Rightarrow> string list \<Rightarrow> proxy_error option \<Rightarrow> 'w \<Rightarrow> proxy_error option \<times> 'w" where
  "copy_pieces ops flush [] readErr w = (readErr, w)"
| "copy_pieces ops flush (p # ps) readErr w =
     (if p = '''' then copy_pieces ops flush ps readErr w
      else case wo_Write ops p w of
        (ok, w) \<Rightarrow> if \<not> ok then (Some write_error, w)
                  else copy_pieces ops flush ps readErr (if flush then wo_Flush ops w else w))"

definition copyHeaders :: "'w writer_ops \<Rightarrow> header \<Rightarrow> string list \<Rightarrow> 'w \<Rightarrow> 'w" where
  "copyHeaders ops src skip w =
     fold (\<lambda>(key, vs) w. if to_lower key \<in> set (map to_lower skip) then w else fold (append_header ops key) vs w) src w"

definition is_event_stream :: "http_response \<Rightarrow> bool" where
  "is_event_stream r \<longleftrightarrow> contains (header_get ''Content-Type'' (hr_Header r)) ''text/event-stream''"

definition streamResponse :: "'w writer_ops \<Rightarrow> http_response \<Rightarrow> 'w \<Rightarrow> proxy_error option \<times> 'w" where
  "streamResponse ops r w =
     copy_pieces ops (is_event_stream r) (hr_Pieces r) (hr_ReadErr r)
       (wo_WriteHeader ops (hr_StatusCode r) (copyHeaders ops (hr_Header r) [] w))"

text \<open>The preview of a forbidden response leaves the response to be read again; a read that fails
  within the preview gives the empty preview.\<close>

definition previewLimit :: nat where "previewLimit = 4096"

definition readAndResetResponseBody :: "http_response \<Rightarrow> string" where
  "readAndResetResponseBody r =
     (if length (hr_Body r) \<le> previewLimit \<and> hr_ReadErr r \<noteq> None then '''' else take previewLimit (hr_Body r))"

definition isAccountLimitSignal :: "http_response \<Rightarrow> bool \<times> string" where
  "isAccountLimitSignal r =
     (if hr_StatusCode r = 429 then (True, ''rate_limited'')
      else if hr_StatusCode r = 403 then
        (let preview = to_lower (readAndResetResponseBody r) in
         if contains preview ''rate limit'' \<or> contains preview ''exceeded'' \<or> contains preview ''quota''
         then (True, ''quota_exhausted'') else (False, ''''))
      else (False, ''''))"

section \<open>Responses handlers\<close>

definition classifyUpstreamStatus :: "int \<Rightarrow> string" where
  "classifyUpstreamStatus status =
     (if status = 401 then ProviderErrorAuthRequired
      else if status = 403 then ProviderErrorEntitlement
      else if status = 429 then ProviderErrorRateLimit
      else if status \<ge> 500 then ProviderErrorUnavailable
      else ProviderErrorInvalidRequest)"

text \<open>A scanner that stops on a line that is too long reports that, otherwise the read error.\<close>

definition stream_failure :: "http_response \<Rightarrow> stream_error \<Rightarrow> proxy_error" where
  "stream_failure r e =
     (if e = ReadingStream \<and> \<not> list_ex (\<lambda>line. int (length line) \<ge> max_line) (split_lines (hr_Body r))
      then case hr_ReadErr r of Some re \<Rightarrow> re\<lparr>er_provider := None\<rparr> | None \<Rightarrow> plain_error ''stream''
      else plain_error ''stream'')"

definition upstream_rejected :: "'w writer_ops \<Rightarrow> http_response \<Rightarrow> 'w \<Rightarrow> proxy_result \<times> 'w" where
  "upstream_rejected ops r w =
     (let w = put_header ops ''Content-Type'' ''application/json'' w;
          w = wo_WriteHeader ops (hr_StatusCode r) w;
          w = snd (wo_Write ops (take 4096 (hr_Body r)) w)
      in (Returned (Some (newProviderError (classifyUpstreamStatus (hr_StatusCode r)) (hr_StatusCode r) ''upstream HTTP'')), w))"

text \<open>A JSON body with its status: the result is that of the write.\<close>

definition send_json :: "'w writer_ops \<Rightarrow> int \<Rightarrow> string \<Rightarrow> 'w \<Rightarrow> proxy_result \<times> 'w" where
  "send_json ops status body w =
     (let w = put_header ops ''Content-Type'' ''application/json'' w;
          w = wo_WriteHeader ops status w
      in case wo_Write ops body w of (ok, w) \<Rightarrow> (Returned (if ok then None else Some write_error), w))"

definition merged_text :: "adapter_env \<Rightarrow> json option \<Rightarrow> string" where
  "merged_text env j = (case j of None \<Rightarrow> '''' | Some j \<Rightarrow> ae_raw_text env j)"

text \<open>Folding a stream: its one result, as the text of the response object.\<close>

definition folded :: "adapter_env \<Rightarrow> http_response \<Rightarrow> (proxy_error + string) option" where
  "folded env r =
     (case aggregateSSEToCompletion env (hr_Body r) (hr_ReadErr r \<noteq> None) of
        AggregateFailed e \<Rightarrow> Some (Inl (stream_failure r e))
      | Aggregated MergePanic \<Rightarrow> None
      | Aggregated (Merged j) \<Rightarrow> Some (Inr (merged_text env j)))"

definition handleResponsesAPIResponse ::
    "adapter_env \<Rightarrow> int \<Rightarrow> int \<Rightarrow> 'w writer_ops \<Rightarrow> http_response \<Rightarrow> bool \<Rightarrow> bool \<Rightarrow> bool \<Rightarrow> 'w \<Rightarrow> proxy_result \<times> 'w" where
  "handleResponsesAPIResponse env millis created ops r clientWantsStream upstreamSSE includeUsage w =
     (if hr_StatusCode r \<ge> 400 then upstream_rejected ops r w
      else if is_event_stream r \<or> upstreamSSE then
        (if \<not> clientWantsStream then
           (case folded env r of
              None \<Rightarrow> (Panicked, w)
            | Some (Inl e) \<Rightarrow> (Returned (Some e), w)
            | Some (Inr body) \<Rightarrow>
                (case responsesToChatCompletion env body of
                   None \<Rightarrow> (Returned (Some (plain_error ''unmarshal Responses body'')), w)
                 | Some chatBody \<Rightarrow> send_json ops 200 chatBody w))
         else
           (case streamResponsesAsChat env millis created includeUsage (hr_Body r) (hr_ReadErr r \<noteq> None) of
              (acts, err) \<Rightarrow> (Returned (map_option (stream_failure r) err), fold (perform ops) acts w)))
      else
        (case hr_ReadErr r of
           Some e \<Rightarrow> (Returned (Some e), w)
         | None \<Rightarrow>
             (case responsesToChatCompletion env (hr_Body r) of
                None \<Rightarrow> (Returned (Some (plain_error ''unmarshal Responses body'')), w)
              | Some chatBody \<Rightarrow> send_json ops (hr_StatusCode r) chatBody w)))"

definition handleNativeResponsesAPIResponse ::
    "adapter_env \<Rightarrow> 'w writer_ops \<Rightarrow> http_response \<Rightarrow> bool \<Rightarrow> bool \<Rightarrow> 'w \<Rightarrow> proxy_result \<times> 'w" where
  "handleNativeResponsesAPIResponse env ops r clientWantsStream upstreamSSE w =
     (if hr_StatusCode r \<ge> 400 then upstream_rejected ops r w
      else
        (let isSSE = (is_event_stream r \<or> upstreamSSE) in
         if isSSE \<and> \<not> clientWantsStream then
           (case folded env r of
              None \<Rightarrow> (Panicked, w)
            | Some (Inl e) \<Rightarrow> (Returned (Some e), w)
            | Some (Inr body) \<Rightarrow> send_json ops 200 body w)
         else if isSSE then
           (let w = put_header ops ''Content-Type'' ''text/event-stream'' w;
                w = put_header ops ''Cache-Control'' ''no-cache'' w;
                w = wo_WriteHeader ops 200 w
            in case copy_pieces ops True (hr_Pieces r) (hr_ReadErr r) w of (err, w) \<Rightarrow> (Returned err, w))
         else
           (let w = copyHeaders ops (hr_Header r) [''Content-Length''] w;
                w = wo_WriteHeader ops (hr_StatusCode r) w
            in case copy_pieces ops False (hr_Pieces r) (hr_ReadErr r) w of (err, w) \<Rightarrow> (Returned err, w))))"

section \<open>The writers of the program\<close>

definition wrapper_ops :: "response_wrapper writer_ops" where
  "wrapper_ops = \<lparr>wo_Header = rw_header, wo_SetHeader = rw_set_header, wo_WriteHeader = rw_WriteHeader,
     wo_Write = rw_Write, wo_Flush = rw_Flush\<rparr>"

text \<open>The usage tee around another writer: the copy is taken whether or not the write succeeds.\<close>

definition sniff_ops :: "'w writer_ops \<Rightarrow> (usage_writer \<times> 'w) writer_ops" where
  "sniff_ops ops = \<lparr>wo_Header = (\<lambda>(u, w). wo_Header ops w), wo_SetHeader = (\<lambda>h (u, w). (u, wo_SetHeader ops h w)),
     wo_WriteHeader = (\<lambda>code (u, w). (u, wo_WriteHeader ops code w)),
     wo_Write = (\<lambda>data (u, w). case wo_Write ops data w of (ok, w) \<Rightarrow> (ok, uw_Write data u, w)),
     wo_Flush = (\<lambda>(u, w). (u, wo_Flush ops w))\<rparr>"

lemma sniff_ops_simps [simp]:
  "wo_Header (sniff_ops ops) (u, w) = wo_Header ops w"
  "wo_SetHeader (sniff_ops ops) h (u, w) = (u, wo_SetHeader ops h w)"
  "wo_WriteHeader (sniff_ops ops) code (u, w) = (u, wo_WriteHeader ops code w)"
  "wo_Write (sniff_ops ops) data (u, w) = (fst (wo_Write ops data w), uw_Write data u, snd (wo_Write ops data w))"
  "wo_Flush (sniff_ops ops) (u, w) = (u, wo_Flush ops w)"
  by (simp_all add: sniff_ops_def case_prod_unfold)

text \<open>What the earlier model of the dispatch runs directly on the wrapper is what these writers do.\<close>

lemma perform_direct: "perform (sniff_ops wrapper_ops) act (u, rw) = run_direct act (u, rw)"
  by (cases act) (simp_all add: append_header_def put_header_def wrapper_ops_def)

lemma sniff_put [simp]: "put_header (sniff_ops ops) k v (u, w) = (u, put_header ops k v w)"
  "append_header (sniff_ops ops) k v (u, w) = (u, append_header ops k v w)"
  by (simp_all add: put_header_def append_header_def)

end
