(* ===== verification/Codex_Auth.thy ===== *)
theory Codex_Auth
  imports Upstream_Handlers Resilience
begin

text \<open>
  The credentials of the Codex provider: JWT claims, the read-only import of the official store,
  the refresh of OAuth tokens (\<open>src/codex_auth.go\<close>), and the account pool with its selection and
  authentication (\<open>src/codex_provider.go\<close>). The environment gives, for one authentication, what
  the process reads: the secret store, the environment variable, the files, the clock, and the
  answers of the token endpoint, attempt by attempt. Log output is left aside.
\<close>

section \<open>JWT claims\<close>

definition base64url_digit :: "char \<Rightarrow> nat option" where
  "base64url_digit c =
     (let n = of_char c :: nat in
      if 65 \<le> n \<and> n \<le> 90 then Some (n - 65)
      else if 97 \<le> n \<and> n \<le> 122 then Some (n - 97 + 26)
      else if 48 \<le> n \<and> n \<le> 57 then Some (n - 48 + 52)
      else if c = CHR ''-'' then Some 62
      else if c = CHR ''_'' then Some 63
      else None)"

text \<open>Groups of four digits, the last one padded.\<close>

fun base64url_groups :: "string \<Rightarrow> string option" where
  "base64url_groups [] = Some []"
| "base64url_groups [a, b, c, d] =
     (case (base64url_digit a, base64url_digit b) of
        (Some x, Some y) \<Rightarrow>
          (let first = char_of (x * 4 + y div 16) in
           if d = CHR ''='' then
             (if c = CHR ''='' then Some [first]
              else map_option (\<lambda>z. [first, char_of ((y mod 16) * 16 + z div 4)]) (base64url_digit c))
           else
             (case (base64url_digit c, base64url_digit d) of
                (Some z, Some u) \<Rightarrow> Some [first, char_of ((y mod 16) * 16 + z div 4), char_of ((z mod 4) * 64 + u)]
              | _ \<Rightarrow> None))
      | _ \<Rightarrow> None)"
| "base64url_groups (a # b # c # d # rest) =
     (case (base64url_digit a, base64url_digit b, base64url_digit c, base64url_digit d) of
        (Some x, Some y, Some z, Some u) \<Rightarrow>
          map_option (\<lambda>t. [char_of (x * 4 + y div 16), char_of ((y mod 16) * 16 + z div 4), char_of ((z mod 4) * 64 + u)] @ t)
            (base64url_groups rest)
      | _ \<Rightarrow> None)"
| "base64url_groups _ = None"

text \<open>Line breaks between digits are ignored.\<close>

definition base64url_decode :: "string \<Rightarrow> string option" where
  "base64url_decode s = base64url_groups (filter (\<lambda>c. c \<noteq> newline \<and> c \<noteq> carriage_return) s)"

text \<open>\<open>strings.SplitN(token, ".", 3)\<close>: the middle part of three.\<close>

definition jwt_payload :: "string \<Rightarrow> string option" where
  "jwt_payload token =
     (case dropWhile (\<lambda>c. c \<noteq> CHR ''.'') token of
        [] \<Rightarrow> None
      | _ # rest \<Rightarrow>
          if CHR ''.'' \<in> set rest \<and> takeWhile (\<lambda>c. c \<noteq> CHR ''.'') rest \<noteq> '''' then Some (takeWhile (\<lambda>c. c \<noteq> CHR ''.'') rest) else None)"

definition decodeJWTPayload :: "string \<Rightarrow> string option" where
  "decodeJWTPayload token =
     Option.bind (jwt_payload token) (\<lambda>payload.
       let remainder = length payload mod 4
       in base64url_decode (if remainder \<noteq> 0 then payload @ replicate (4 - remainder) (CHR ''='') else payload))"

definition extractAccountIDFromJWT :: "adapter_env \<Rightarrow> string \<Rightarrow> string" where
  "extractAccountIDFromJWT env token =
     (case decodeJWTPayload token of
        None \<Rightarrow> ''''
      | Some payload \<Rightarrow>
          (case decode_data env (struct_value [
               (''chatgpt_account_id'', string_value (\<lambda>v (a, b). (v, b))),
               (''https://api.openai.com/auth'', pointer_value snd (\<lambda>v (a, b). (a, v)) ''''
                  (struct_value [(''chatgpt_account_id'', string_value (\<lambda>v s. v))]))]) ('''', None) payload of
             None \<Rightarrow> ''''
           | Some (account, auth) \<Rightarrow> if account \<noteq> '''' then account else (case auth of Some a \<Rightarrow> a | None \<Rightarrow> '''')))"

definition extractJWTExpiry :: "adapter_env \<Rightarrow> string \<Rightarrow> int" where
  "extractJWTExpiry env token =
     (case decodeJWTPayload token of
        None \<Rightarrow> 0
      | Some payload \<Rightarrow>
          (case decode_data env (struct_value [(''exp'', int_value (\<lambda>v s. v))]) 0 payload of None \<Rightarrow> 0 | Some exp \<Rightarrow> exp))"

section \<open>Environment\<close>

datatype auth_file = FileUnreadable | FileMissing | FileContents string

text \<open>One exchange with the token endpoint; a response that cannot be read keeps its status.\<close>

datatype token_answer = TokenNetworkError | TokenUnreadable | TokenAnswer int string

record auth_env =
  ve_adapter :: adapter_env
  ve_controller :: "(string \<Rightarrow> string option) option"
  ve_api_key :: string
  ve_official :: auth_file
  ve_disk :: "codex_provider option"
  ve_now :: int
  ve_token :: "nat \<Rightarrow> token_answer"
  ve_token_now :: int
  ve_save :: "string option"

section \<open>The official store\<close>

record official_tokens =
  ot_IDToken :: string
  ot_AccessToken :: string
  ot_RefreshToken :: string
  ot_ExpiresAt :: int
  ot_AccountID :: "string option"

definition zero_tokens_data :: official_tokens where
  "zero_tokens_data = \<lparr>ot_IDToken = '''', ot_AccessToken = '''', ot_RefreshToken = '''', ot_ExpiresAt = 0, ot_AccountID = None\<rparr>"

definition string_pointer :: "(string option \<Rightarrow> 's \<Rightarrow> 's) \<Rightarrow> 's setter" where
  "string_pointer put j s = (case j of JStr t \<Rightarrow> Some (put (Some t) s) | JNull \<Rightarrow> Some (put None s) | _ \<Rightarrow> None)"

definition official_tokens_value :: "official_tokens setter" where
  "official_tokens_value = struct_value [
     (''id_token'', string_value (\<lambda>v s. s\<lparr>ot_IDToken := v\<rparr>)), (''access_token'', string_value (\<lambda>v s. s\<lparr>ot_AccessToken := v\<rparr>)),
     (''refresh_token'', string_value (\<lambda>v s. s\<lparr>ot_RefreshToken := v\<rparr>)), (''expires_at'', int_value (\<lambda>v s. s\<lparr>ot_ExpiresAt := v\<rparr>)),
     (''account_id'', string_pointer (\<lambda>v s. s\<lparr>ot_AccountID := v\<rparr>))]"

record official_document =
  od_APIKey :: "string option"
  od_Tokens :: "official_tokens option"
  od_LastRefresh :: "string option"

definition official_document_value :: "official_document setter" where
  "official_document_value = struct_value [
     (''OPENAI_API_KEY'', string_pointer (\<lambda>v s. s\<lparr>od_APIKey := v\<rparr>)),
     (''tokens'', pointer_value od_Tokens (\<lambda>v s. s\<lparr>od_Tokens := v\<rparr>) zero_tokens_data official_tokens_value),
     (''last_refresh'', string_pointer (\<lambda>v s. s\<lparr>od_LastRefresh := v\<rparr>))]"

definition zero_auth :: codex_auth_state where
  "zero_auth = \<lparr>xa_mode = '''', xa_api_key = '''', xa_api_key_ref = None, xa_access_token = '''', xa_access_token_ref = None,
     xa_refresh_token = '''', xa_refresh_token_ref = None, xa_expires_at = 0, xa_account_id = ''''\<rparr>"

definition nonempty_else :: "string \<Rightarrow> string \<Rightarrow> string" where
  "nonempty_else a b = (if a = '''' then b else a)"

definition imported_auth :: "adapter_env \<Rightarrow> official_tokens \<Rightarrow> codex_auth_state" where
  "imported_auth env t =
     (let expires = (if ot_ExpiresAt t = 0 then extractJWTExpiry env (ot_AccessToken t) else ot_ExpiresAt t);
          account = (case ot_AccountID t of Some a \<Rightarrow> trim_space a | None \<Rightarrow> '''');
          account = (if account = '''' \<and> ot_IDToken t \<noteq> '''' then extractAccountIDFromJWT env (ot_IDToken t) else account);
          account = nonempty_else account (extractAccountIDFromJWT env (ot_AccessToken t))
      in zero_auth\<lparr>xa_mode := ''chatgpt'', xa_access_token := ot_AccessToken t, xa_refresh_token := ot_RefreshToken t,
           xa_expires_at := expires, xa_account_id := account\<rparr>)"

definition loadOfficialCodexAuth :: "adapter_env \<Rightarrow> auth_file \<Rightarrow> string + codex_auth_state option" where
  "loadOfficialCodexAuth env file =
     (case file of
        FileUnreadable \<Rightarrow> Inl ''read''
      | FileMissing \<Rightarrow> Inr None
      | FileContents text \<Rightarrow>
          (case decode_data env official_document_value \<lparr>od_APIKey = None, od_Tokens = None, od_LastRefresh = None\<rparr> text of
             None \<Rightarrow> Inl ''parse''
           | Some document \<Rightarrow>
               (case od_APIKey document of
                  Some key \<Rightarrow> if trim_space key \<noteq> '''' then Inr (Some (zero_auth\<lparr>xa_mode := ''api_key'', xa_api_key := key\<rparr>))
                    else Inr (case od_Tokens document of None \<Rightarrow> None
                      | Some t \<Rightarrow> if ot_AccessToken t = '''' then None else Some (imported_auth env t))
                | None \<Rightarrow> Inr (case od_Tokens document of None \<Rightarrow> None
                      | Some t \<Rightarrow> if ot_AccessToken t = '''' then None else Some (imported_auth env t)))))"

definition isAPIKeyMode :: "string \<Rightarrow> bool" where
  "isAPIKeyMode mode \<longleftrightarrow> mode = ''api_key''"

definition resolveCodexAPIKey :: "auth_env \<Rightarrow> codex_auth_state \<Rightarrow> string + string" where
  "resolveCodexAPIKey env auth =
     (if trim_space (ve_api_key env) \<noteq> '''' then Inr (trim_space (ve_api_key env))
      else if trim_space (xa_api_key auth) \<noteq> '''' then Inr (xa_api_key auth)
      else case loadOfficialCodexAuth (ve_adapter env) (ve_official env) of
        Inl e \<Rightarrow> Inl e
      | Inr (Some official) \<Rightarrow> if trim_space (xa_api_key official) \<noteq> '''' then Inr (xa_api_key official) else Inr ''''
      | Inr None \<Rightarrow> Inr '''')"

section \<open>Reasons of the token endpoint\<close>

definition reason_char :: "char \<Rightarrow> bool" where
  "reason_char c \<longleftrightarrow>
     (let n = of_char c :: nat in
      97 \<le> n \<and> n \<le> 122 \<or> 65 \<le> n \<and> n \<le> 90 \<or> 48 \<le> n \<and> n \<le> 57 \<or> c = CHR ''_'' \<or> c = CHR ''-'' \<or> c = CHR ''.'')"

definition sanitizeReasonCode :: "string \<Rightarrow> string" where
  "sanitizeReasonCode text =
     (let text = trim_space text in
      if text = '''' \<or> length text > 64 then ''upstream_error''
      else if list_all reason_char text then text else ''upstream_error'')"

definition any_member :: "(string \<times> json) list \<Rightarrow> string \<Rightarrow> json" where
  "any_member kvs key = (case map_of (rev kvs) key of Some j \<Rightarrow> j | None \<Rightarrow> JNull)"

lemma any_member_size: "size (any_member kvs key) < size (JObj kvs)"
proof (cases "map_of (rev kvs) key")
  case (Some j)
  then have "(key, j) \<in> set kvs" using map_of_SomeD by fastforce
  then have "size_prod (\<lambda>x. 0) size (key, j) \<le> size_list (size_prod (\<lambda>x. 0) size) kvs" by (rule size_list_estimation') simp
  then show ?thesis using Some by (simp add: any_member_def)
qed (simp add: any_member_def)

function authErrorReason :: "json \<Rightarrow> string" where
  "authErrorReason (JStr t) = sanitizeReasonCode t"
| "authErrorReason (JObj kvs) =
     (let code = authErrorReason (any_member kvs ''code''); ty = authErrorReason (any_member kvs ''type'')
      in if code \<noteq> '''' then code else if ty \<noteq> '''' then ty else authErrorReason (any_member kvs ''error''))"
| "authErrorReason JNull = ''''"
| "authErrorReason (JBool b) = ''''"
| "authErrorReason (JNum t) = ''''"
| "authErrorReason (JArr js) = ''''"
  by pat_completeness auto
termination
  by (relation "measure size") (simp_all only: in_measure wf_measure any_member_size)

definition redactAuthError :: "adapter_env \<Rightarrow> string \<Rightarrow> string" where
  "redactAuthError env body =
     (let (error, code) = (case jc_decode (ae_codec env) body of
          Some (JObj kvs) \<Rightarrow> (authErrorReason (any_member kvs ''error''), authErrorReason (any_member kvs ''code''))
        | _ \<Rightarrow> ('''', ''''))
      in if error \<noteq> '''' then error else if code \<noteq> '''' then code else ''upstream_authentication_rejected'')"

text \<open>Whatever the endpoint answers, what is reported of it is a short word.\<close>

lemma sanitize_reason: "list_all reason_char (sanitizeReasonCode t) \<and> length (sanitizeReasonCode t) \<le> 64"
  by (simp add: sanitizeReasonCode_def Let_def reason_char_def)

lemma auth_reason: "list_all reason_char (authErrorReason j) \<and> length (authErrorReason j) \<le> 64"
  by (induction j rule: authErrorReason.induct) (simp_all add: sanitize_reason Let_def)

lemma redacted_error: "list_all reason_char (redactAuthError env body) \<and> length (redactAuthError env body) \<le> 64"
  using auth_reason by (auto simp: redactAuthError_def Let_def reason_char_def split: option.split json.split)

section \<open>Refreshing\<close>

record refresh_response =
  rf_IDToken :: string
  rf_AccessToken :: string
  rf_RefreshToken :: string
  rf_ExpiresIn :: int

definition refresh_value :: "refresh_response setter" where
  "refresh_value = struct_value [
     (''id_token'', string_value (\<lambda>v s. s\<lparr>rf_IDToken := v\<rparr>)), (''access_token'', string_value (\<lambda>v s. s\<lparr>rf_AccessToken := v\<rparr>)),
     (''refresh_token'', string_value (\<lambda>v s. s\<lparr>rf_RefreshToken := v\<rparr>)), (''expires_in'', int_value (\<lambda>v s. s\<lparr>rf_ExpiresIn := v\<rparr>))]"

definition maxRefreshRetries :: nat where "maxRefreshRetries = 3"

datatype refresh_error =
    NoRefreshToken
  | RefreshNetwork
  | RefreshUnreadable
  | RefreshStatus int string
  | RefreshUndecoded
  | RefreshEmpty
  | RefreshNotSaved string
  | RefreshAttemptsExceeded
  | RefreshInvalidIndex int
  | RefreshAPIKey

definition apply_refresh :: "auth_env \<Rightarrow> refresh_response \<Rightarrow> codex_auth_state \<Rightarrow> codex_auth_state" where
  "apply_refresh env r auth =
     (let auth = auth\<lparr>xa_access_token := rf_AccessToken r\<rparr>;
          auth = (if rf_RefreshToken r \<noteq> '''' then auth\<lparr>xa_refresh_token := rf_RefreshToken r\<rparr> else auth);
          auth = (if rf_IDToken r \<noteq> '''' then auth\<lparr>xa_account_id := extractAccountIDFromJWT (ve_adapter env) (rf_IDToken r)\<rparr> else auth);
          auth = (if xa_account_id auth = '''' then auth\<lparr>xa_account_id := extractAccountIDFromJWT (ve_adapter env) (rf_AccessToken r)\<rparr> else auth)
      in auth\<lparr>xa_expires_at := (if rf_ExpiresIn r > 0 then wrap64 (ve_token_now env + rf_ExpiresIn r) else extractJWTExpiry (ve_adapter env) (rf_AccessToken r))\<rparr>)"

text \<open>The attempts against the token endpoint; the save callback runs once, after the new token is
  in place. The last component is whether it ran.\<close>

function refresh_loop :: "auth_env \<Rightarrow> nat \<Rightarrow> codex_auth_state \<Rightarrow> refresh_error option \<times> codex_auth_state \<times> bool" where
  "refresh_loop env attempt auth =
     (if attempt > maxRefreshRetries then (Some RefreshAttemptsExceeded, auth, False)
      else case ve_token env attempt of
        TokenNetworkError \<Rightarrow>
          if attempt = maxRefreshRetries then (Some RefreshNetwork, auth, False) else refresh_loop env (attempt + 1) auth
      | TokenUnreadable \<Rightarrow> (Some RefreshUnreadable, auth, False)
      | TokenAnswer status body \<Rightarrow>
          if status \<noteq> 200 then
            (if \<not> (status = 429 \<or> status \<ge> 500) \<or> attempt = maxRefreshRetries then (Some (RefreshStatus status (redactAuthError (ve_adapter env) body)), auth, False)
             else refresh_loop env (attempt + 1) auth)
          else
            (case decode_data (ve_adapter env) refresh_value \<lparr>rf_IDToken = '''', rf_AccessToken = '''', rf_RefreshToken = '''', rf_ExpiresIn = 0\<rparr> body of
               None \<Rightarrow> (Some RefreshUndecoded, auth, False)
             | Some r \<Rightarrow>
                 if rf_AccessToken r = '''' then (Some RefreshEmpty, auth, False)
                 else (map_option RefreshNotSaved (ve_save env), apply_refresh env r auth, True)))"
  by pat_completeness auto
termination
  by (relation "measure (\<lambda>(env, attempt, auth). Suc maxRefreshRetries - attempt)") (auto simp: maxRefreshRetries_def)

declare refresh_loop.simps [simp del]

definition codexRefreshToken :: "auth_env \<Rightarrow> codex_auth_state \<Rightarrow> refresh_error option \<times> codex_auth_state \<times> bool" where
  "codexRefreshToken env auth =
     (if xa_refresh_token auth = '''' then (Some NoRefreshToken, auth, False) else refresh_loop env 1 auth)"

section \<open>The account pool\<close>

record codex_credential =
  xc_index :: int
  xc_token :: string
  xc_accountID :: string
  xc_chatgpt :: bool

definition pool :: "codex_provider \<Rightarrow> codex_account list" where
  "pool cfg = items (xp_accounts cfg)"

definition pooled :: "codex_provider \<Rightarrow> int \<Rightarrow> bool" where
  "pooled cfg index \<longleftrightarrow> 0 \<le> index \<and> index < int (length (pool cfg))"

text \<open>The authentication state an index points to, and writing through that pointer.\<close>

definition auth_at :: "codex_provider \<Rightarrow> int \<Rightarrow> codex_auth_state" where
  "auth_at cfg index = (if pooled cfg index then xacc_auth (pool cfg ! nat index) else xp_auth cfg)"

definition put_auth :: "int \<Rightarrow> codex_auth_state \<Rightarrow> codex_provider \<Rightarrow> codex_provider" where
  "put_auth index auth cfg =
     (if pooled cfg index
      then cfg\<lparr>xp_accounts := Some ((pool cfg)[nat index := (pool cfg ! nat index)\<lparr>xacc_auth := auth\<rparr>])\<rparr>
      else cfg\<lparr>xp_auth := auth\<rparr>)"

definition controller_credential :: "auth_env \<Rightarrow> string \<Rightarrow> string option" where
  "controller_credential env slot = Option.bind (ve_controller env) (\<lambda>resolve. resolve slot)"

definition credentialAtLocked :: "auth_env \<Rightarrow> codex_provider \<Rightarrow> int \<Rightarrow> codex_credential" where
  "credentialAtLocked env cfg index =
     (let auth = auth_at cfg index in
      if isAPIKeyMode (xa_mode auth) then
        \<lparr>xc_index = index,
         xc_token = (case controller_credential env ''codex/api_key'' of
             Some v \<Rightarrow> v
           | None \<Rightarrow> (case resolveCodexAPIKey env auth of Inl e \<Rightarrow> '''' | Inr key \<Rightarrow> key)),
         xc_accountID = '''', xc_chatgpt = False\<rparr>
      else
        \<lparr>xc_index = index,
         xc_token = (case controller_credential env ''codex/access_token'' of Some v \<Rightarrow> v | None \<Rightarrow> xa_access_token auth),
         xc_accountID = xa_account_id auth, xc_chatgpt = True\<rparr>)"

record codex_pool =
  kx_config :: codex_provider
  kx_cursor :: int
  kx_saved :: "(codex_provider \<times> int) list"

definition activeAccount :: "codex_pool \<Rightarrow> codex_pool" where
  "activeAccount st =
     (if pool (kx_config st) \<noteq> [] \<and> (kx_cursor st < 0 \<or> kx_cursor st \<ge> int (length (pool (kx_config st))))
      then st\<lparr>kx_cursor := 0\<rparr> else st)"

text \<open>The state after \<open>activeAccount\<close>: without accounts the cursor points to the single
  authentication state.\<close>

definition authState :: "codex_pool \<Rightarrow> codex_auth_state" where
  "authState st = auth_at (kx_config st) (kx_cursor st)"

definition put_authState :: "codex_auth_state \<Rightarrow> codex_pool \<Rightarrow> codex_pool" where
  "put_authState auth st = st\<lparr>kx_config := put_auth (kx_cursor st) auth (kx_config st)\<rparr>"

definition codexCooldownSeconds :: "codex_provider \<Rightarrow> int" where
  "codexCooldownSeconds cfg = (if xp_account_cooldown_seconds cfg > 0 then xp_account_cooldown_seconds cfg else 300)"

definition isCodexAccountInCooldown :: "codex_provider \<Rightarrow> int \<Rightarrow> codex_account \<Rightarrow> bool" where
  "isCodexAccountInCooldown cfg now account \<longleftrightarrow>
     xacc_last_limited_at account \<noteq> 0 \<and> now - xacc_last_limited_at account < codexCooldownSeconds cfg"

text \<open>The search for a healthy account from \<open>start\<close> on, reading the clock at every step.\<close>

fun healthy_from :: "codex_provider \<Rightarrow> int \<Rightarrow> (nat \<Rightarrow> int) \<Rightarrow> nat \<Rightarrow> nat list \<Rightarrow> nat option" where
  "healthy_from cfg failedIndex now start [] = None"
| "healthy_from cfg failedIndex now start (i # is') =
     (let index = (start + i) mod length (pool cfg) in
      if int index = failedIndex then healthy_from cfg failedIndex now start is'
      else if \<not> isCodexAccountInCooldown cfg (now (Suc i)) (pool cfg ! index) then Some index
      else healthy_from cfg failedIndex now start is')"

definition mark_limited :: "int \<Rightarrow> int \<Rightarrow> codex_provider \<Rightarrow> codex_provider" where
  "mark_limited index now cfg =
     cfg\<lparr>xp_accounts := Some ((pool cfg)[nat index := (pool cfg ! nat index)\<lparr>xacc_last_limited_at := now\<rparr>])\<rparr>"

definition advanceCodexAccountFrom :: "(nat \<Rightarrow> int) \<Rightarrow> int \<Rightarrow> codex_pool \<Rightarrow> bool \<times> codex_pool" where
  "advanceCodexAccountFrom now failedIndex st =
     (if \<not> pooled (kx_config st) failedIndex then (False, st)
      else
        (let cfg = mark_limited failedIndex (now 0) (kx_config st); st = st\<lparr>kx_config := cfg\<rparr>; n = length (pool cfg) in
         if n \<le> 1 then (False, st)
         else
           (let start = (if kx_cursor st = failedIndex then (failedIndex + 1) mod int n else kx_cursor st) in
            case healthy_from cfg failedIndex now (nat start) [0..<n] of
              Some index \<Rightarrow> (True, st\<lparr>kx_cursor := int index\<rparr>)
            | None \<Rightarrow> (False, st))))"

section \<open>Authentication\<close>

definition reloadTokenFromDisk :: "auth_env \<Rightarrow> codex_pool \<Rightarrow> codex_pool" where
  "reloadTokenFromDisk env st =
     (case ve_disk env of
        None \<Rightarrow> st
      | Some fresh \<Rightarrow>
          if pool (kx_config st) \<noteq> [] then
            (case find (\<lambda>c. xacc_label c = xacc_label (pool (kx_config st) ! nat (kx_cursor st)) \<and> xa_access_token (xacc_auth c) \<noteq> '''')
                (pool fresh) of
               None \<Rightarrow> st
             | Some candidate \<Rightarrow> put_authState (xacc_auth candidate) st)
          else if xa_access_token (xp_auth fresh) \<noteq> '''' then put_authState (xp_auth fresh) st
          else st)"

definition reloadFromOfficialStore :: "auth_env \<Rightarrow> codex_pool \<Rightarrow> codex_pool" where
  "reloadFromOfficialStore env st =
     (case loadOfficialCodexAuth (ve_adapter env) (ve_official env) of
        Inr (Some official) \<Rightarrow>
          if xa_access_token official = '''' then st
          else put_authState ((authState st)\<lparr>xa_mode := ''chatgpt'', xa_access_token := xa_access_token official,
                 xa_refresh_token := xa_refresh_token official, xa_expires_at := xa_expires_at official,
                 xa_account_id := xa_account_id official\<rparr>) st
      | _ \<Rightarrow> st)"

definition auth_required :: "string \<Rightarrow> proxy_error" where
  "auth_required message = newProviderError ProviderErrorAuthRequired 401 message"

text \<open>Fill in what the token says of itself.\<close>

definition with_claims :: "adapter_env \<Rightarrow> codex_auth_state \<Rightarrow> codex_auth_state" where
  "with_claims env auth =
     (let auth = (if xa_account_id auth = '''' then auth\<lparr>xa_account_id := extractAccountIDFromJWT env (xa_access_token auth)\<rparr> else auth)
      in if xa_expires_at auth = 0 then auth\<lparr>xa_expires_at := extractJWTExpiry env (xa_access_token auth)\<rparr> else auth)"

text \<open>A refresh writes the new token in place and then saves the account it belongs to.\<close>

definition refresh_at :: "auth_env \<Rightarrow> int \<Rightarrow> codex_pool \<Rightarrow> refresh_error option \<times> codex_pool" where
  "refresh_at env index st =
     (case codexRefreshToken env (auth_at (kx_config st) index) of
        (err, auth, saved) \<Rightarrow>
          (let cfg = put_auth index auth (kx_config st)
           in (err, st\<lparr>kx_config := cfg, kx_saved := (if saved then kx_saved st @ [(cfg, index)] else kx_saved st)\<rparr>)))"

definition refresh_if_due :: "auth_env \<Rightarrow> codex_pool \<Rightarrow> proxy_error option \<times> codex_pool" where
  "refresh_if_due env st =
     (if xa_expires_at (authState st) > 0 \<and> xa_expires_at (authState st) - ve_now env \<le> 300 then
        (case refresh_at env (kx_cursor st) st of
           (err, st) \<Rightarrow>
             (if err \<noteq> None \<and> xa_expires_at (authState st) \<le> ve_now env
              then Some (auth_required ''Codex token expired and refresh failed'') else None, st))
      else (None, st))"

definition stored_authenticated :: "auth_env \<Rightarrow> codex_pool \<Rightarrow> proxy_error option \<times> codex_pool" where
  "stored_authenticated env st =
     (let st = (if xa_access_token (authState st) = '''' then reloadTokenFromDisk env st else st);
          st = (if xa_access_token (authState st) = '''' \<and> length (pool (kx_config st)) \<le> 1 then reloadFromOfficialStore env st else st)
      in if xa_access_token (authState st) = '''' then (Some (auth_required ''no Codex token''), st)
         else refresh_if_due env (put_authState (with_claims (ve_adapter env) (authState st)) st))"

definition EnsureAuthenticated :: "auth_env \<Rightarrow> codex_pool \<Rightarrow> proxy_error option \<times> codex_pool" where
  "EnsureAuthenticated env st =
     (let st = activeAccount st in
      if isAPIKeyMode (xa_mode (authState st)) then
        (if xc_token (credentialAtLocked env (kx_config st) (kx_cursor st)) \<noteq> '''' then None
         else Some (auth_required ''no Codex API key configured''), st)
      else case controller_credential env ''codex/access_token'' of
        Some v \<Rightarrow>
          (let expiresAt = extractJWTExpiry (ve_adapter env) v in
           (if expiresAt > 0 \<and> expiresAt - ve_now env \<le> 300
            then Some (auth_required ''Codex authentication requires reconnection'') else None, st))
      | None \<Rightarrow> stored_authenticated env st)"

definition forceRefreshAccount :: "auth_env \<Rightarrow> int \<Rightarrow> codex_pool \<Rightarrow> refresh_error option \<times> codex_pool" where
  "forceRefreshAccount env index st =
     (if pool (kx_config st) \<noteq> [] \<and> \<not> pooled (kx_config st) index then (Some (RefreshInvalidIndex index), st)
      else if isAPIKeyMode (xa_mode (auth_at (kx_config st) index)) then (Some RefreshAPIKey, st)
      else refresh_at env index st)"

record provider_health =
  hl_Authenticated :: bool
  hl_CanRefresh :: bool

definition Codex_Health :: "auth_env \<Rightarrow> codex_pool \<Rightarrow> provider_health" where
  "Codex_Health env st =
     (let auth = authState (activeAccount st) in
      if isAPIKeyMode (xa_mode auth) then
        \<lparr>hl_Authenticated = (case resolveCodexAPIKey env auth of Inl e \<Rightarrow> False | Inr key \<Rightarrow> key \<noteq> ''''), hl_CanRefresh = False\<rparr>
      else
        \<lparr>hl_Authenticated = (xa_access_token auth \<noteq> '''' \<and> (xa_expires_at auth > 0 \<longrightarrow> xa_expires_at auth > ve_now env)),
         hl_CanRefresh = (xa_refresh_token auth \<noteq> '''')\<rparr>)"

definition Codex_Capabilities :: "codex_pool \<Rightarrow> capability list" where
  "Codex_Capabilities st =
     (if isAPIKeyMode (xa_mode (authState (activeAccount st)))
      then [CapabilityChat, CapabilityResponses, CapabilityEmbeddings] else [CapabilityChat, CapabilityResponses])"

end
