(* ===== verification/Codex_Provider.thy ===== *)
theory Codex_Provider
  imports Codex_Auth
begin

text \<open>
  \<open>CodexProvider.ProxyRequest\<close> (\<open>src/codex_provider.go\<close>): the loop over the accounts of the pool,
  with authentication, circuit breaker, request building, one forced refresh per account and the
  handling of the response. One iteration of the loop reads its environment from \<open>codex_env\<close>;
  a request has one such environment per iteration. What was sent upstream is recorded in
  \<open>kx_sent\<close>. The state is that of the provider while no other request runs on it.
\<close>

section \<open>State and environment\<close>

record sent_request =
  sr_URL :: string
  sr_Header :: header
  sr_Body :: string

record codex_state =
  kx_pool :: codex_pool
  kx_breaker :: circuit_breaker
  kx_sent :: "sent_request list"

record codex_env =
  ce_auth :: auth_env
  ce_refresh :: auth_env
  ce_breaker_now :: gotime
  ce_outcome_now :: gotime
  ce_bad_url :: "string \<Rightarrow> proxy_error option"
  ce_upstream :: "nat \<Rightarrow> upstream"
  ce_response :: "nat \<Rightarrow> http_response"
  ce_limit_now :: "nat \<Rightarrow> int"
  ce_millis :: int
  ce_created :: int

abbreviation ce_adapter :: "codex_env \<Rightarrow> adapter_env" where
  "ce_adapter env \<equiv> ve_adapter (ce_auth env)"

definition defaultChatGPTBaseURL :: string where "defaultChatGPTBaseURL = ''https://chatgpt.com/backend-api/codex/''"
definition defaultPlatformBaseURL :: string where "defaultPlatformBaseURL = ''https://api.openai.com/v1''"
definition codexUserAgent :: string where "codexUserAgent = ''ya-router/1.0''"

definition chatGPTBaseURL :: "codex_provider \<Rightarrow> string" where
  "chatGPTBaseURL cfg =
     (let base = trim_space (xp_chatgpt_base_url cfg);
          base = (if base = '''' then defaultChatGPTBaseURL else base)
      in if last base = CHR ''/'' then base else base @ ''/'')"

definition setPlatformHeaders :: "string \<Rightarrow> header" where
  "setPlatformHeaders token =
     [(''Authorization'', [''Bearer '' @ token]), (''Content-Type'', [''application/json'']),
      (''Accept'', [''application/json, text/event-stream'']), (''User-Agent'', [codexUserAgent])]"

definition setChatGPTHeaders :: "string \<Rightarrow> string \<Rightarrow> header" where
  "setChatGPTHeaders token accountID =
     setPlatformHeaders token @ (if accountID \<noteq> '''' then [(''Chatgpt-Account-Id'', [accountID])] else [])"

section \<open>Building the upstream request\<close>

record built_request =
  bq_Body :: string
  bq_WantsStream :: bool
  bq_IncludeUsage :: bool

definition build_upstream :: "adapter_env \<Rightarrow> bool \<Rightarrow> bool \<Rightarrow> string \<Rightarrow> adapt_error + built_request" where
  "build_upstream env chatgpt nativeResponses body =
     (if nativeResponses then
        sum_bind (if chatgpt then buildChatGPTNativeResponsesRequest env body else buildPlatformNativeResponsesRequest env body)
          (\<lambda>(b, stream). Inr \<lparr>bq_Body = b, bq_WantsStream = stream, bq_IncludeUsage = False\<rparr>)
      else
        sum_bind (if chatgpt then buildChatGPTCodexRequest env body else buildPlatformResponsesRequest env body)
          (\<lambda>(b, usage). Inr \<lparr>bq_Body = b, bq_WantsStream = isStreamingRequest env body, bq_IncludeUsage = usage\<rparr>))"

definition upstream_url :: "codex_provider \<Rightarrow> bool \<Rightarrow> string" where
  "upstream_url cfg chatgpt = (if chatgpt then chatGPTBaseURL cfg @ ''responses'' else defaultPlatformBaseURL @ ''/responses'')"

section \<open>Sending\<close>

definition record_failure :: "gotime \<Rightarrow> codex_state \<Rightarrow> codex_state" where
  "record_failure now st = st\<lparr>kx_breaker := onFailure now (kx_breaker st)\<rparr>"

definition record_status :: "gotime \<Rightarrow> int \<Rightarrow> codex_state \<Rightarrow> codex_state" where
  "record_status now status st =
     (if status \<ge> 500 then record_failure now st else st\<lparr>kx_breaker := onSuccess (kx_breaker st)\<rparr>)"

text \<open>One exchange: a new request is a \<open>POST\<close> without an idempotency key.\<close>

definition exchange :: "codex_env \<Rightarrow> nat \<Rightarrow> string + http_response" where
  "exchange env n =
     (case fst (makeRequestWithRetry (ce_upstream env n) \<lparr>ur_Method = ''POST'', ur_IdempotencyKey = ''''\<rparr>) of
        RetryResponse k status \<Rightarrow> Inr ((ce_response env n)\<lparr>hr_StatusCode := status\<rparr>)
      | RetryError e \<Rightarrow> Inl e
      | NoResponse \<Rightarrow> Inl ''no response'')"

definition sent_headers :: "codex_credential \<Rightarrow> header" where
  "sent_headers c = (if xc_chatgpt c then setChatGPTHeaders (xc_token c) (xc_accountID c) else setPlatformHeaders (xc_token c))"

definition log_request :: "string \<Rightarrow> codex_credential \<Rightarrow> string \<Rightarrow> codex_state \<Rightarrow> codex_state" where
  "log_request url c body st = st\<lparr>kx_sent := kx_sent st @ [\<lparr>sr_URL = url, sr_Header = sent_headers c, sr_Body = body\<rparr>]\<rparr>"

definition transport_error :: proxy_error where
  "transport_error = newProviderError ProviderErrorTransport 502 ''Codex upstream request failed''"

text \<open>One authentication attempt: the answer, or the error the whole call returns.\<close>

definition send_once :: "codex_env \<Rightarrow> nat \<Rightarrow> string \<Rightarrow> codex_credential \<Rightarrow> string \<Rightarrow> codex_state \<Rightarrow> (proxy_error + http_response) \<times> codex_state" where
  "send_once env n url c body st =
     (case ce_bad_url env url of
        Some e \<Rightarrow> (Inl e, st)
      | None \<Rightarrow>
          (let st = log_request url c body st in
           case exchange env n of
             Inl e \<Rightarrow> (Inl transport_error, record_failure (ce_outcome_now env) st)
           | Inr r \<Rightarrow> (Inr r, st)))"

text \<open>A ChatGPT credential that is refused is refreshed once and tried again with what the account
  then holds; the transport stays the same.\<close>

definition send_authenticated ::
    "codex_env \<Rightarrow> string \<Rightarrow> codex_credential \<Rightarrow> string \<Rightarrow> codex_state \<Rightarrow> (proxy_error + http_response) \<times> codex_state" where
  "send_authenticated env url c body st =
     (case send_once env 0 url c body st of
        (Inl e, st) \<Rightarrow> (Inl e, st)
      | (Inr r, st) \<Rightarrow>
          if hr_StatusCode r = 401 \<and> xc_chatgpt c then
            (case forceRefreshAccount (ce_refresh env) (xc_index c) (kx_pool st) of
               (err, p) \<Rightarrow>
                 (let st = st\<lparr>kx_pool := p\<rparr> in
                  if err \<noteq> None then (Inl (auth_required ''Codex authentication expired''), st)
                  else
                    (let refreshed = credentialAtLocked (ce_refresh env) (kx_config p) (xc_index c)
                     in send_once env 1 url (c\<lparr>xc_token := xc_token refreshed, xc_accountID := xc_accountID refreshed\<rparr>) body st)))
          else (Inr r, st))"

definition proxyClassic ::
    "codex_env \<Rightarrow> 'w writer_ops \<Rightarrow> string \<Rightarrow> string \<Rightarrow> codex_credential \<Rightarrow> codex_state \<Rightarrow> 'w \<Rightarrow> proxy_result \<times> codex_state \<times> 'w" where
  "proxyClassic env ops body path c st w =
     (case send_once env 0 (defaultPlatformBaseURL @ path) c body st of
        (Inl e, st) \<Rightarrow> (Returned (Some e), st, w)
      | (Inr r, st) \<Rightarrow>
          (let st = record_status (ce_outcome_now env) (hr_StatusCode r) st in
           case streamResponse ops r w of (err, w) \<Rightarrow> (Returned err, st, w)))"

section \<open>The loop over the accounts\<close>

datatype 'w codex_step = Returns proxy_result codex_state 'w | NextAccount codex_state

definition breaker_open :: proxy_error where
  "breaker_open = newProviderError ProviderErrorUnavailable 503 ''Codex circuit breaker is open''"

definition invalid_request :: proxy_error where
  "invalid_request = newProviderError ProviderErrorInvalidRequest 400 ''build upstream request''"

definition unsupported :: "string \<Rightarrow> proxy_error" where
  "unsupported message = newProviderError ProviderErrorUnsupported 400 message"

text \<open>After the exchange: on an account-limit signal advance to another account if there is one,
  otherwise report the outcome to the breaker and answer the client.\<close>

definition answer_client ::
    "codex_env \<Rightarrow> 'w writer_ops \<Rightarrow> bool \<Rightarrow> bool \<Rightarrow> built_request \<Rightarrow> http_response \<Rightarrow> codex_state \<Rightarrow> 'w \<Rightarrow> 'w codex_step" where
  "answer_client env ops chatgpt nativeResponses built r st w =
     (let st = record_status (ce_outcome_now env) (hr_StatusCode r) st;
          (res, w) = (if nativeResponses
             then handleNativeResponsesAPIResponse (ce_adapter env) ops r (bq_WantsStream built) chatgpt w
             else handleResponsesAPIResponse (ce_adapter env) (ce_millis env) (ce_created env) ops r (bq_WantsStream built) chatgpt
               (bq_IncludeUsage built) w)
      in Returns res st w)"

definition after_exchange ::
    "codex_env \<Rightarrow> 'w writer_ops \<Rightarrow> nat \<Rightarrow> codex_credential \<Rightarrow> bool \<Rightarrow> built_request \<Rightarrow> http_response \<Rightarrow> codex_state \<Rightarrow> 'w \<Rightarrow> 'w codex_step" where
  "after_exchange env ops maxAttempts c nativeResponses built r st w =
     (if fst (isAccountLimitSignal r) \<and> maxAttempts > 1 then
        (case advanceCodexAccountFrom (ce_limit_now env) (xc_index c) (kx_pool st) of
           (advanced, p) \<Rightarrow>
             (let st = st\<lparr>kx_pool := p\<rparr> in
              if advanced then NextAccount st else answer_client env ops (xc_chatgpt c) nativeResponses built r st w))
      else answer_client env ops (xc_chatgpt c) nativeResponses built r st w)"

definition with_credential ::
    "codex_env \<Rightarrow> 'w writer_ops \<Rightarrow> nat \<Rightarrow> codex_credential \<Rightarrow> string \<Rightarrow> capability \<Rightarrow> codex_state \<Rightarrow> 'w \<Rightarrow> 'w codex_step" where
  "with_credential env ops maxAttempts c body cap st w =
     (if xc_token c = '''' then Returns (Returned (Some (auth_required ''Codex credential is empty''))) st w
      else if cap = CapabilityEmbeddings then
        (if xc_chatgpt c then Returns (Returned (Some (unsupported ''embeddings require OpenAI Platform API-key mode''))) st w
         else case proxyClassic env ops body ''/embeddings'' c st w of (res, st, w) \<Rightarrow> Returns res st w)
      else if cap \<noteq> CapabilityChat \<and> cap \<noteq> CapabilityResponses
      then Returns (Returned (Some (unsupported ''unsupported Codex capability''))) st w
      else
        (case build_upstream (ce_adapter env) (xc_chatgpt c) (cap = CapabilityResponses) body of
           Inl e \<Rightarrow> Returns (Returned (Some invalid_request)) st w
         | Inr built \<Rightarrow>
             (case send_authenticated env (upstream_url (kx_config (kx_pool st)) (xc_chatgpt c)) c (bq_Body built) st of
                (Inl e, st) \<Rightarrow> Returns (Returned (Some e)) st w
              | (Inr r, st) \<Rightarrow> after_exchange env ops maxAttempts c (cap = CapabilityResponses) built r st w)))"

definition account_attempt ::
    "codex_env \<Rightarrow> 'w writer_ops \<Rightarrow> nat \<Rightarrow> string \<Rightarrow> capability \<Rightarrow> codex_state \<Rightarrow> 'w \<Rightarrow> 'w codex_step" where
  "account_attempt env ops maxAttempts body cap st w =
     (case EnsureAuthenticated (ce_auth env) (kx_pool st) of
        (Some e, p) \<Rightarrow> Returns (Returned (Some e)) (st\<lparr>kx_pool := p\<rparr>) w
      | (None, p) \<Rightarrow>
          (case canExecute (ce_breaker_now env) (kx_breaker st) of
             (False, cb) \<Rightarrow> Returns (Returned (Some breaker_open)) (st\<lparr>kx_pool := p, kx_breaker := cb\<rparr>) w
           | (True, cb) \<Rightarrow>
               with_credential env ops maxAttempts (credentialAtLocked (ce_auth env) (kx_config p) (kx_cursor p)) body cap
                 (st\<lparr>kx_pool := p, kx_breaker := cb\<rparr>) w))"

definition accounts_limited :: proxy_error where
  "accounts_limited = newProviderError ProviderErrorRateLimit 429 ''all Codex accounts are rate limited''"

fun account_loop ::
    "(nat \<Rightarrow> codex_env) \<Rightarrow> 'w writer_ops \<Rightarrow> nat \<Rightarrow> nat \<Rightarrow> nat \<Rightarrow> string \<Rightarrow> capability \<Rightarrow> codex_state \<Rightarrow> 'w \<Rightarrow> proxy_result \<times> codex_state \<times> 'w" where
  "account_loop env ops maxAttempts n 0 body cap st w = (Returned (Some accounts_limited), st, w)"
| "account_loop env ops maxAttempts n (Suc left) body cap st w =
     (case account_attempt (env n) ops maxAttempts body cap st w of
        Returns res st w \<Rightarrow> (res, st, w)
      | NextAccount st \<Rightarrow> account_loop env ops maxAttempts (Suc n) left body cap st w)"

definition Codex_ProxyRequest ::
    "(nat \<Rightarrow> codex_env) \<Rightarrow> 'w writer_ops \<Rightarrow> string \<Rightarrow> capability \<Rightarrow> codex_state \<Rightarrow> 'w \<Rightarrow> proxy_result \<times> codex_state \<times> 'w" where
  "Codex_ProxyRequest env ops body cap st w =
     (let maxAttempts = max 1 (length (pool (kx_config (kx_pool st))))
      in account_loop env ops maxAttempts 0 maxAttempts body cap st w)"

section \<open>A probe whose outcome is never reported\<close>

definition probing :: "codex_state \<Rightarrow> bool" where
  "probing st \<longleftrightarrow> cb_state (kx_breaker st) = CircuitHalfOpen \<and> cb_probeInFlight (kx_breaker st)"

text \<open>The calls one provider serves, one after the other.\<close>

type_synonym codex_call = "(nat \<Rightarrow> codex_env) \<times> string \<times> capability"

fun serve :: "'w writer_ops \<Rightarrow> codex_call list \<Rightarrow> codex_state \<Rightarrow> 'w \<Rightarrow> proxy_result list \<times> codex_state \<times> 'w" where
  "serve ops [] st w = ([], st, w)"
| "serve ops ((env, body, cap) # calls) st w =
     (case Codex_ProxyRequest env ops body cap st w of
        (res, st, w) \<Rightarrow> (case serve ops calls st w of (rs, st, w) \<Rightarrow> (res # rs, st, w)))"

definition failed_result :: "proxy_result \<Rightarrow> bool" where
  "failed_result res \<longleftrightarrow> (case res of Returned (Some e) \<Rightarrow> True | _ \<Rightarrow> False)"

lemma attempts_left: obtains n where "max (Suc 0) k = Suc n" "max 1 k = Suc n"
  by (metis One_nat_def Suc_pred max.cobounded1 less_le_trans zero_less_one)

lemma probing_request:
  assumes "probing st"
  shows "\<exists>res st'. Codex_ProxyRequest env ops body cap st w = (res, st', w) \<and> failed_result res
    \<and> kx_breaker st' = kx_breaker st \<and> kx_sent st' = kx_sent st"
proof -
  obtain n where n: "max (Suc 0) (length (pool (kx_config (kx_pool st)))) = Suc n" by (rule attempts_left)
  have c: "canExecute now (kx_breaker st) = (False, kx_breaker st)" for now
    using assms by (simp add: probing_def canExecute_def)
  show ?thesis
    by (cases "EnsureAuthenticated (ce_auth (env 0)) (kx_pool st)")
      (auto simp: Codex_ProxyRequest_def Let_def n account_attempt_def c failed_result_def split: option.splits)
qed

lemma probing_serve:
  "probing st \<Longrightarrow> \<exists>rs st'. serve ops calls st w = (rs, st', w) \<and> list_all failed_result rs
    \<and> kx_breaker st' = kx_breaker st \<and> kx_sent st' = kx_sent st"
proof (induction calls arbitrary: st)
  case (Cons call calls)
  obtain env body cap where call: "call = (env, body, cap)" by (metis prod_cases3)
  obtain res st1 where one: "Codex_ProxyRequest env ops body cap st w = (res, st1, w)" "failed_result res"
      "kx_breaker st1 = kx_breaker st" "kx_sent st1 = kx_sent st"
    using probing_request [OF Cons.prems, of env ops body cap w] by blast
  then have "probing st1" using Cons.prems by (simp add: probing_def)
  with Cons.IH one call show ?case by fastforce
qed simp

definition unreported :: "codex_env \<Rightarrow> string \<Rightarrow> capability \<Rightarrow> codex_pool \<Rightarrow> bool" where
  "unreported env body cap p \<longleftrightarrow>
     (let c = credentialAtLocked (ce_auth env) (kx_config p) (kx_cursor p) in
      xc_token c = '''' \<or> cap = CapabilityEmbeddings \<and> xc_chatgpt c
      \<or> cap \<in> {CapabilityChat, CapabilityResponses} \<and> (\<exists>e. build_upstream (ce_adapter env) (xc_chatgpt c) (cap = CapabilityResponses) body = Inl e))"

lemma unreported_returns:
  assumes "unreported env body cap p" and "kx_pool st = p"
  shows "\<exists>e. with_credential env ops m (credentialAtLocked (ce_auth env) (kx_config p) (kx_cursor p)) body cap st w
    = Returns (Returned (Some e)) st w"
proof -
  let ?c = "credentialAtLocked (ce_auth env) (kx_config p) (kx_cursor p)"
  consider "xc_token ?c = ''''" | "xc_token ?c \<noteq> ''''" "cap = CapabilityEmbeddings" "xc_chatgpt ?c"
    | e where "xc_token ?c \<noteq> ''''" "cap \<noteq> CapabilityEmbeddings" "cap \<in> {CapabilityChat, CapabilityResponses}"
        "build_upstream (ce_adapter env) (xc_chatgpt ?c) (cap = CapabilityResponses) body = Inl e"
    using assms(1) by (auto simp: unreported_def Let_def capability_defs)
  then show ?thesis by cases (auto simp: with_credential_def)
qed

text \<open>C37: one refused request can disable the provider for good. When the open breaker has waited
  long enough, the next request is its probe; if that request has an empty credential, asks for
  embeddings with a ChatGPT account or cannot be translated, the call returns without reporting
  an outcome. From then on every call fails and nothing is sent upstream, whatever the requests,
  the clock and the upstream do.\<close>

theorem codex_probe_leak:
  assumes "cb_state (kx_breaker st) = CircuitOpen" and "ce_breaker_now (env 0) - cb_lastFailureTime (kx_breaker st) > cb_timeout (kx_breaker st)"
    and "EnsureAuthenticated (ce_auth (env 0)) (kx_pool st) = (None, p)" and "unreported (env 0) body cap p"
  shows "\<exists>res st1. Codex_ProxyRequest env ops body cap st w = (res, st1, w) \<and> failed_result res
    \<and> (\<forall>calls. \<exists>rs st'. serve ops calls st1 w = (rs, st', w) \<and> list_all failed_result rs \<and> kx_sent st' = kx_sent st)"
proof -
  let ?st = "st\<lparr>kx_pool := p, kx_breaker := (kx_breaker st)\<lparr>cb_state := CircuitHalfOpen, cb_probeInFlight := True\<rparr>\<rparr>"
  obtain n where n: "max 1 (length (pool (kx_config (kx_pool st)))) = Suc n" by (rule attempts_left)
  have c: "canExecute (ce_breaker_now (env 0)) (kx_breaker st) = (True, kx_breaker ?st)"
    using assms(1,2) by (simp add: canExecute_def)
  obtain e where "account_attempt (env 0) ops (Suc n) body cap st w = Returns (Returned (Some e)) ?st w"
    using unreported_returns [OF assms(4), of ?st ops "Suc n" w] by (auto simp: account_attempt_def assms(3) c)
  then have "Codex_ProxyRequest env ops body cap st w = (Returned (Some e), ?st, w)"
    unfolding Codex_ProxyRequest_def Let_def n by simp
  moreover have "probing ?st" by (simp add: probing_def)
  from probing_serve [OF this] have "\<exists>rs st'. serve ops calls ?st w = (rs, st', w) \<and> list_all failed_result rs \<and> kx_sent st' = kx_sent st" for calls
    by fastforce
  ultimately show ?thesis by (fastforce simp: failed_result_def)
qed

section \<open>Rotation of accounts\<close>

text \<open>The account each iteration uses, and whether the loop ran out of iterations.\<close>

definition used_account :: "codex_env \<Rightarrow> codex_state \<Rightarrow> int" where
  "used_account env st = kx_cursor (snd (EnsureAuthenticated (ce_auth env) (kx_pool st)))"

fun account_trace ::
    "(nat \<Rightarrow> codex_env) \<Rightarrow> 'w writer_ops \<Rightarrow> nat \<Rightarrow> nat \<Rightarrow> nat \<Rightarrow> string \<Rightarrow> capability \<Rightarrow> codex_state \<Rightarrow> 'w \<Rightarrow> int list \<times> bool" where
  "account_trace env ops maxAttempts n 0 body cap st w = ([], True)"
| "account_trace env ops maxAttempts n (Suc left) body cap st w =
     (case account_attempt (env n) ops maxAttempts body cap st w of
        Returns res st' w \<Rightarrow> ([used_account (env n) st], False)
      | NextAccount st' \<Rightarrow>
          (case account_trace env ops maxAttempts (Suc n) left body cap st' w of
             (is', out) \<Rightarrow> (used_account (env n) st # is', out)))"

text \<open>The limits of the accounts: authentication writes credentials only.\<close>

definition limits :: "codex_pool \<Rightarrow> int list \<times> int" where
  "limits p = (map xacc_last_limited_at (pool (kx_config p)), codexCooldownSeconds (kx_config p))"

lemma pool_put [simp]: "pool (put_auth i a cfg) = (if pooled cfg i then (pool cfg)[nat i := (pool cfg ! nat i)\<lparr>xacc_auth := a\<rparr>] else pool cfg)"
  "codexCooldownSeconds (put_auth i a cfg) = codexCooldownSeconds cfg" "pooled (put_auth i a cfg) = pooled cfg"
  "xp_chatgpt_base_url (put_auth i a cfg) = xp_chatgpt_base_url cfg"
  by (auto simp: put_auth_def pool_def codexCooldownSeconds_def pooled_def fun_eq_iff)

lemma limits_put [simp]: "map xacc_last_limited_at (pool (put_auth i a cfg)) = map xacc_last_limited_at (pool cfg)"
  by (auto simp: pooled_def map_update intro!: nth_equalityI simp: nth_list_update)

lemma put_authState_frame [simp]: "limits (put_authState a p) = limits p" "kx_cursor (put_authState a p) = kx_cursor p"
  by (simp_all add: put_authState_def limits_def del: pool_put(1))

lemma limits_simps [simp]:
  "limits (reloadTokenFromDisk env p) = limits p" "limits (reloadFromOfficialStore env p) = limits p"
  "limits (snd (refresh_at env i p)) = limits p" "limits (activeAccount p) = limits p" "limits (p\<lparr>kx_cursor := c\<rparr>) = limits p"
  "kx_cursor (reloadTokenFromDisk env p) = kx_cursor p" "kx_cursor (reloadFromOfficialStore env p) = kx_cursor p"
  "kx_cursor (snd (refresh_at env i p)) = kx_cursor p"
proof -
  show "limits (p\<lparr>kx_cursor := c\<rparr>) = limits p" for c by (simp add: limits_def)
  then show "limits (activeAccount p) = limits p" by (simp add: activeAccount_def)
  show "limits (snd (refresh_at env i p)) = limits p" "kx_cursor (snd (refresh_at env i p)) = kx_cursor p"
    by (simp_all add: refresh_at_def limits_def Let_def case_prod_unfold del: pool_put(1))
qed (simp_all add: reloadTokenFromDisk_def reloadFromOfficialStore_def split: option.splits sum.splits)

lemma EnsureAuthenticated_frame:
  "limits (snd (EnsureAuthenticated env p)) = limits p" "kx_cursor (snd (EnsureAuthenticated env p)) = kx_cursor (activeAccount p)"
  by (auto simp: EnsureAuthenticated_def stored_authenticated_def refresh_if_due_def Let_def case_prod_unfold split: option.splits)

lemma forceRefresh_frame:
  "limits (snd (forceRefreshAccount env i p)) = limits p" "kx_cursor (snd (forceRefreshAccount env i p)) = kx_cursor p"
  by (auto simp: forceRefreshAccount_def)

lemma send_frame:
  "limits (kx_pool (snd (send_authenticated env url c body st))) = limits (kx_pool st)"
  "kx_cursor (kx_pool (snd (send_authenticated env url c body st))) = kx_cursor (kx_pool st)"
  using forceRefresh_frame [of "ce_refresh env" "xc_index c" "kx_pool st"]
  by (auto simp: send_authenticated_def send_once_def log_request_def record_failure_def Let_def
      split: option.splits sum.splits prod.splits)

text \<open>An iteration that goes on has marked the account it used and moved to one out of cooldown.\<close>

lemma healthy_from_Some:
  "healthy_from cfg failed now start is' = Some index \<Longrightarrow> pool cfg \<noteq> [] \<Longrightarrow>
     index < length (pool cfg) \<and> int index \<noteq> failed \<and> (\<exists>k. \<not> isCodexAccountInCooldown cfg (now k) (pool cfg ! index))"
  by (induction cfg failed now start is' rule: healthy_from.induct) (auto simp: Let_def split: if_splits)

lemma advance_next:
  assumes "advanceCodexAccountFrom now failed p = (True, p')"
  shows "pooled (kx_config p) failed" "snd (limits p') = snd (limits p)"
    and "fst (limits p') = (fst (limits p))[nat failed := now 0]"
    and "pooled (kx_config p') (kx_cursor p')" "kx_cursor p' \<noteq> failed"
    and "\<exists>k. \<not> (fst (limits p) ! nat (kx_cursor p') \<noteq> 0 \<and> now k - fst (limits p) ! nat (kx_cursor p') < snd (limits p))"
proof -
  let ?cfg = "mark_limited failed (now 0) (kx_config p)"
  have m: "pool ?cfg = (pool (kx_config p))[nat failed := (pool (kx_config p) ! nat failed)\<lparr>xacc_last_limited_at := now 0\<rparr>]"
    "codexCooldownSeconds ?cfg = codexCooldownSeconds (kx_config p)"
    by (simp_all add: mark_limited_def pool_def codexCooldownSeconds_def)
  obtain start index where f: "pooled (kx_config p) failed" "healthy_from ?cfg failed now start [0..<length (pool ?cfg)] = Some index"
    "p' = p\<lparr>kx_config := ?cfg, kx_cursor := int index\<rparr>"
    using assms by (auto simp: advanceCodexAccountFrom_def Let_def split: if_splits option.splits)
  have "pool ?cfg \<noteq> []" using f(1) m(1) by (auto simp: pooled_def)
  from healthy_from_Some [OF f(2) this] obtain k where k: "index < length (pool ?cfg)" "int index \<noteq> failed"
    "\<not> isCodexAccountInCooldown ?cfg (now k) (pool ?cfg ! index)" by blast
  show "pooled (kx_config p) failed" "snd (limits p') = snd (limits p)" "fst (limits p') = (fst (limits p))[nat failed := now 0]"
    "pooled (kx_config p') (kx_cursor p')" "kx_cursor p' \<noteq> failed"
    using f k m by (simp_all add: limits_def map_update pooled_def)
  have "pool ?cfg ! index = pool (kx_config p) ! index" using k(2) f(1) by (auto simp: m(1) pooled_def nth_list_update)
  then show "\<exists>k. \<not> (fst (limits p) ! nat (kx_cursor p') \<noteq> 0 \<and> now k - fst (limits p) ! nat (kx_cursor p') < snd (limits p))"
    using k m f(3) by (intro exI [of _ k]) (simp add: limits_def isCodexAccountInCooldown_def)
qed

lemma answer_client_returns [simp]: "answer_client env ops chatgpt native built r st w \<noteq> NextAccount st'"
  by (simp add: answer_client_def Let_def case_prod_unfold)

lemma after_exchange_next:
  assumes "after_exchange env ops m c native built r st w = NextAccount st'"
  shows "1 < m \<and> advanceCodexAccountFrom (ce_limit_now env) (xc_index c) (kx_pool st) = (True, kx_pool st')"
  using assms by (auto simp: after_exchange_def Let_def split: if_splits prod.splits)

lemma attempt_next:
  assumes "account_attempt env ops m body cap st w = NextAccount st'"
  shows "1 < m \<and> (\<exists>p. limits p = limits (kx_pool st) \<and> advanceCodexAccountFrom (ce_limit_now env) (used_account env st) p = (True, kx_pool st'))"
proof -
  obtain p cb where e: "EnsureAuthenticated (ce_auth env) (kx_pool st) = (None, p)"
    and w: "with_credential env ops m (credentialAtLocked (ce_auth env) (kx_config p) (kx_cursor p)) body cap (st\<lparr>kx_pool := p, kx_breaker := cb\<rparr>) w = NextAccount st'"
    using assms by (auto simp: account_attempt_def split: prod.splits option.splits bool.splits)
  let ?c = "credentialAtLocked (ce_auth env) (kx_config p) (kx_cursor p)"
  obtain url b st1 built r where sa: "send_authenticated env url ?c b (st\<lparr>kx_pool := p, kx_breaker := cb\<rparr>) = (Inr r, st1)"
    and ax: "after_exchange env ops m ?c (cap = CapabilityResponses) built r st1 w = NextAccount st'"
    using w by (auto simp: with_credential_def split: if_splits sum.splits prod.splits)
  have "xc_index ?c = used_account env st" by (simp add: used_account_def e credentialAtLocked_def Let_def)
  moreover have "limits (kx_pool st1) = limits (kx_pool st)"
    using send_frame(1) [of env url ?c b "st\<lparr>kx_pool := p, kx_breaker := cb\<rparr>"] EnsureAuthenticated_frame(1) [of "ce_auth env" "kx_pool st"]
    by (simp add: sa e)
  ultimately show ?thesis using after_exchange_next [OF ax] by auto
qed

definition marked_ok :: "int \<Rightarrow> codex_pool \<Rightarrow> int set \<Rightarrow> bool" where
  "marked_ok T p M \<longleftrightarrow> M \<subseteq> {0..<int (length (fst (limits p)))}
     \<and> (\<forall>i\<in>M. T \<le> fst (limits p) ! nat i \<and> fst (limits p) ! nat i < T + snd (limits p))
     \<and> (M \<noteq> {} \<longrightarrow> pooled (kx_config p) (kx_cursor p) \<and> kx_cursor p \<notin> M)"

lemma limits_length: "length (fst (limits p)) = length (pool (kx_config p))"
  by (simp add: limits_def)

lemma pooled_limits: "pooled (kx_config p) i \<longleftrightarrow> i \<in> {0..<int (length (fst (limits p)))}"
  by (auto simp: pooled_def limits_length)

lemma used_account_eq: "used_account env st = kx_cursor (activeAccount (kx_pool st))"
  by (simp add: used_account_def EnsureAuthenticated_frame)

lemma marked_step:
  assumes inv: "marked_ok T (kx_pool st) M" and window: "0 < T" "\<And>k. T \<le> ce_limit_now env k \<and> ce_limit_now env k < T + snd (limits (kx_pool st))"
    and step: "account_attempt env ops m body cap st w = NextAccount st'"
  shows "marked_ok T (kx_pool st') (insert (used_account env st) M)" "used_account env st \<notin> M"
    and "length (fst (limits (kx_pool st'))) = length (fst (limits (kx_pool st)))" "snd (limits (kx_pool st')) = snd (limits (kx_pool st))"
proof -
  let ?i = "used_account env st" and ?p = "kx_pool st" and ?p' = "kx_pool st'" and ?now = "ce_limit_now env"
  obtain p where p: "limits p = limits ?p" and adv: "advanceCodexAccountFrom ?now ?i p = (True, ?p')"
    using attempt_next [OF step] by blast
  note a = advance_next [OF adv, unfolded pooled_limits p]
  show len: "length (fst (limits ?p')) = length (fst (limits ?p))" and cd: "snd (limits ?p') = snd (limits ?p)" using a by simp_all
  show fresh: "?i \<notin> M"
    using inv by (auto simp: marked_ok_def used_account_eq activeAccount_def pooled_def split: if_splits)
  obtain k where k: "\<not> (fst (limits ?p) ! nat (kx_cursor ?p') \<noteq> 0 \<and> ?now k - fst (limits ?p) ! nat (kx_cursor ?p') < snd (limits ?p))"
    using a(6) by blast
  have "kx_cursor ?p' \<notin> M"
  proof
    assume "kx_cursor ?p' \<in> M"
    then have "T \<le> fst (limits ?p) ! nat (kx_cursor ?p')" using inv by (simp add: marked_ok_def)
    with k window(1) window(2) [of k] show False by linarith
  qed
  moreover have "T \<le> fst (limits ?p') ! nat j \<and> fst (limits ?p') ! nat j < T + snd (limits ?p')" if "j \<in> insert ?i M" for j
  proof (cases "j = ?i")
    case True
    moreover have "nat ?i < length (fst (limits ?p))" using a(1) by auto
    ultimately show ?thesis using a(3) window(2) [of 0] cd by simp
  next
    case False
    then have "j \<in> M" "0 \<le> j" "0 \<le> ?i" using that inv a(1) by (auto simp: marked_ok_def)
    then have "nat j \<noteq> nat ?i" using False by simp
    then show ?thesis using inv \<open>j \<in> M\<close> by (simp add: marked_ok_def a(3) cd)
  qed
  moreover have "insert ?i M \<subseteq> {0..<int (length (fst (limits ?p')))}" using inv a(1) len by (simp add: marked_ok_def)
  moreover have "pooled (kx_config ?p') (kx_cursor ?p')" using advance_next(4) [OF adv] .
  ultimately show "marked_ok T ?p' (insert ?i M)" using a(5) by (simp add: marked_ok_def)
qed

lemma account_trace_distinct:
  assumes "marked_ok T (kx_pool st) M" and "0 < T" and "finite M"
    and "\<And>i k. T \<le> ce_limit_now (env i) k \<and> ce_limit_now (env i) k < T + snd (limits (kx_pool st))"
    and "left + card M = max 1 (length (fst (limits (kx_pool st))))"
    and "account_trace env ops m n left body cap st w = (is', out)"
  shows "distinct is' \<and> set is' \<inter> M = {} \<and> \<not> out"
  using assms
proof (induction left arbitrary: n st M is' out)
  case 0
  let ?n = "length (fst (limits (kx_pool st)))"
  have "M \<noteq> {}" using 0 by auto
  then have c: "kx_cursor (kx_pool st) \<in> {0..<int ?n} - M" and sub: "M \<subseteq> {0..<int ?n}" using 0 by (auto simp: marked_ok_def pooled_limits)
  then have "M \<subset> {0..<int ?n}" by blast
  from psubset_card_mono [OF _ this] have "card M < ?n" by simp
  with 0 show ?case by simp
next
  case (Suc left)
  let ?i = "used_account (env n) st"
  have first: "?i \<notin> M" using Suc.prems(1) by (auto simp: marked_ok_def used_account_eq activeAccount_def pooled_def split: if_splits)
  show ?case
  proof (cases "account_attempt (env n) ops m body cap st w")
    case (Returns res st' w')
    then show ?thesis using Suc.prems(6) first by auto
  next
    case (NextAccount st')
    obtain js out' where js: "account_trace env ops m (Suc n) left body cap st' w = (js, out')" by fastforce
    note step = marked_step [OF Suc.prems(1,2,4) NextAccount]
    have "finite (insert ?i M)" "T \<le> ce_limit_now (env i) k \<and> ce_limit_now (env i) k < T + snd (limits (kx_pool st'))"
      "left + card (insert ?i M) = max 1 (length (fst (limits (kx_pool st'))))" for i k
      using Suc.prems(3-5) step(2-4) by simp_all
    from Suc.IH [OF step(1) Suc.prems(2) this js] have "distinct js \<and> set js \<inter> insert ?i M = {} \<and> \<not> out'" .
    then show ?thesis using Suc.prems(6) NextAccount js first by auto
  qed
qed

lemma account_trace_loop:
  "\<not> snd (account_trace env ops m n left body cap st w) \<Longrightarrow>
     \<exists>k s res st' w'. account_attempt (env k) ops m body cap s w = Returns res st' w' \<and> account_loop env ops m n left body cap st w = (res, st', w')"
proof (induction left arbitrary: n st)
  case (Suc left)
  then show ?case
  proof (cases "account_attempt (env n) ops m body cap st w")
    case (Returns res st' w')
    then show ?thesis by (intro exI [of _ n] exI [of _ st]) simp
  next
    case (NextAccount st')
    then show ?thesis using Suc by (auto simp: case_prod_unfold)
  qed
qed simp

lemma account_trace_length: "length (fst (account_trace env ops m n left body cap st w)) \<le> left"
  by (induction left arbitrary: n st) (auto split: codex_step.splits simp: case_prod_unfold)

text \<open>C17: one request uses every account of the pool at most once. As long as the request takes
  less than the cooldown of an account, no account is tried twice after a limit signal, and the
  loop never runs out: the client always gets the answer of the last account tried, never the
  error that all accounts are limited.\<close>

theorem codex_accounts_once:
  assumes "0 < T" and "\<forall>i k. T \<le> ce_limit_now (env i) k \<and> ce_limit_now (env i) k < T + codexCooldownSeconds (kx_config (kx_pool st))"
    and "m = max 1 (length (pool (kx_config (kx_pool st))))"
  shows "distinct (fst (account_trace env ops m 0 m body cap st w)) \<and> length (fst (account_trace env ops m 0 m body cap st w)) \<le> m
    \<and> (\<exists>k s res st' w'. account_attempt (env k) ops m body cap s w = Returns res st' w' \<and> Codex_ProxyRequest env ops body cap st w = (res, st', w'))"
proof -
  obtain is' out where t: "account_trace env ops m 0 m body cap st w = (is', out)" by fastforce
  have "marked_ok T (kx_pool st) {}" by (simp add: marked_ok_def)
  moreover have "m + card ({} :: int set) = max 1 (length (fst (limits (kx_pool st))))" by (simp add: limits_length assms(3))
  ultimately have "distinct is' \<and> \<not> out"
    using account_trace_distinct [of T st "{}" env, OF _ assms(1) _ _ _ t] assms(2) by (simp add: limits_def)
  moreover have "Codex_ProxyRequest env ops body cap st w = account_loop env ops m 0 m body cap st w"
    by (simp only: Codex_ProxyRequest_def Let_def assms(3))
  ultimately show ?thesis
    using account_trace_length [of env ops m 0 m body cap st w] account_trace_loop [of env ops m 0 m body cap st w] t by simp
qed

section \<open>Credentials and transports\<close>

text \<open>\<open>keys\<close> are the API keys and \<open>tokens\<close> the ChatGPT access tokens the process can come by: in its
  configuration, its secret store, its environment, the files it imports and the answers of the
  token endpoint.\<close>

definition auth_from :: "string set \<Rightarrow> string set \<Rightarrow> codex_auth_state \<Rightarrow> bool" where
  "auth_from keys tokens a \<longleftrightarrow> xa_access_token a \<in> insert '''' tokens \<and> (trim_space (xa_api_key a) \<noteq> '''' \<longrightarrow> xa_api_key a \<in> keys)"

definition config_from :: "string set \<Rightarrow> string set \<Rightarrow> codex_provider \<Rightarrow> bool" where
  "config_from keys tokens cfg \<longleftrightarrow> auth_from keys tokens (xp_auth cfg) \<and> (\<forall>a\<in>set (pool cfg). auth_from keys tokens (xacc_auth a))"

definition zero_refresh :: refresh_response where
  "zero_refresh = \<lparr>rf_IDToken = '''', rf_AccessToken = '''', rf_RefreshToken = '''', rf_ExpiresIn = 0\<rparr>"

definition env_from :: "string set \<Rightarrow> string set \<Rightarrow> auth_env \<Rightarrow> bool" where
  "env_from keys tokens env \<longleftrightarrow>
     (\<forall>v. controller_credential env ''codex/api_key'' = Some v \<longrightarrow> v \<in> keys)
     \<and> (\<forall>v. controller_credential env ''codex/access_token'' = Some v \<longrightarrow> v \<in> tokens)
     \<and> (trim_space (ve_api_key env) \<noteq> '''' \<longrightarrow> trim_space (ve_api_key env) \<in> keys)
     \<and> (\<forall>cfg. ve_disk env = Some cfg \<longrightarrow> config_from keys tokens cfg)
     \<and> (\<forall>a. loadOfficialCodexAuth (ve_adapter env) (ve_official env) = Inr (Some a) \<longrightarrow> auth_from keys tokens a)
     \<and> (\<forall>n status body r. ve_token env n = TokenAnswer status body \<longrightarrow>
          decode_data (ve_adapter env) refresh_value zero_refresh body = Some r \<longrightarrow> rf_AccessToken r \<in> insert '''' tokens)"

definition sent_ok :: "string set \<Rightarrow> string set \<Rightarrow> codex_provider \<Rightarrow> sent_request \<Rightarrow> bool" where
  "sent_ok keys tokens cfg r \<longleftrightarrow>
     (\<exists>k\<in>keys. sr_Header r = setPlatformHeaders k \<and> sr_URL r \<in> {defaultPlatformBaseURL @ ''/responses'', defaultPlatformBaseURL @ ''/embeddings''})
     \<or> (\<exists>t\<in>tokens. \<exists>account. sr_Header r = setChatGPTHeaders t account \<and> sr_URL r = chatGPTBaseURL cfg @ ''responses'')"

lemma auth_at_from: "config_from K T cfg \<Longrightarrow> auth_from K T (auth_at cfg i)"
  by (auto simp: config_from_def auth_at_def pooled_def)

lemma put_auth_from: "config_from K T cfg \<Longrightarrow> auth_from K T a \<Longrightarrow> config_from K T (put_auth i a cfg)"
  by (auto simp: config_from_def put_auth_def pool_def dest!: set_update_subset_insert [THEN subsetD])

text \<open>What a refresh keeps, and that a successful one installs a token of the endpoint.\<close>

lemma apply_refresh_fields [simp]:
  "xa_access_token (apply_refresh env r a) = rf_AccessToken r" "xa_api_key (apply_refresh env r a) = xa_api_key a"
  "xa_mode (apply_refresh env r a) = xa_mode a"
  by (simp_all add: apply_refresh_def Let_def)

lemma endpoint_token:
  "env_from K T env \<Longrightarrow> ve_token env n = TokenAnswer status body \<Longrightarrow> decode_data (ve_adapter env) refresh_value zero_refresh body = Some r \<Longrightarrow>
     rf_AccessToken r \<in> insert '''' T"
  unfolding env_from_def by blast

lemma refresh_loop_from:
  assumes "env_from K T env" and "auth_from K T a" and "refresh_loop env n a = (err, a', saved)"
  shows "auth_from K T a' \<and> xa_mode a' = xa_mode a \<and> (err = None \<longrightarrow> xa_access_token a' \<in> T \<and> xa_access_token a' \<noteq> '''')"
  using assms
proof (induction env n a rule: refresh_loop.induct)
  case (1 env n a)
  show ?case
  proof (cases "n > maxRefreshRetries")
    case True
    then show ?thesis using "1.prems" by (auto simp: refresh_loop.simps [of env n a])
  next
    case less: False
    show ?thesis
    proof (cases "ve_token env n")
      case TokenNetworkError
      then show ?thesis using "1.IH"(1) "1.prems" less
        by (cases "n = maxRefreshRetries") (auto simp: refresh_loop.simps [of env n a] refresh_loop.simps [of env maxRefreshRetries a])
    next
      case TokenUnreadable
      then show ?thesis using "1.prems" less by (auto simp: refresh_loop.simps [of env n a])
    next
      case (TokenAnswer status body)
      consider "status \<noteq> 200" "\<not> (status = 429 \<or> status \<ge> 500) \<or> n = maxRefreshRetries"
        | "status \<noteq> 200" "status = 429 \<or> status \<ge> 500" "n \<noteq> maxRefreshRetries" | "status = 200" by blast
      then show ?thesis
      proof cases
        case 1
        then show ?thesis using "1.prems" less TokenAnswer by (auto simp: refresh_loop.simps [of env n a])
      next
        case 2
        then show ?thesis using "1.IH"(2) "1.prems" less TokenAnswer by (auto simp: refresh_loop.simps [of env n a])
      next
        case 3
        then show ?thesis using "1.prems" less TokenAnswer
          by (cases "decode_data (ve_adapter env) refresh_value zero_refresh body")
            (auto simp: refresh_loop.simps [of env n a] auth_from_def simp flip: zero_refresh_def dest: endpoint_token split: if_splits)
      qed
    qed
  qed
qed

lemma refresh_at_from:
  assumes "env_from K T env" and "config_from K T (kx_config p)"
  shows "config_from K T (kx_config (snd (refresh_at env i p)))"
    and "fst (refresh_at env i p) = None \<Longrightarrow>
      xa_mode (auth_at (kx_config (snd (refresh_at env i p))) i) = xa_mode (auth_at (kx_config p) i)
      \<and> xa_access_token (auth_at (kx_config (snd (refresh_at env i p))) i) \<in> T"
    and "xp_chatgpt_base_url (kx_config (snd (refresh_at env i p))) = xp_chatgpt_base_url (kx_config p)"
proof -
  obtain err a saved where c: "codexRefreshToken env (auth_at (kx_config p) i) = (err, a, saved)" by (metis prod_cases3)
  have a: "auth_from K T a \<and> xa_mode a = xa_mode (auth_at (kx_config p) i) \<and> (err = None \<longrightarrow> xa_access_token a \<in> T)"
    using c refresh_loop_from [OF assms(1) auth_at_from [OF assms(2)], where n = 1 and err = err and a' = a and saved = saved] auth_at_from [OF assms(2), of i]
    by (auto simp: codexRefreshToken_def split: if_splits)
  have "auth_at (put_auth i a (kx_config p)) i = a" by (auto simp: auth_at_def put_auth_def pool_def pooled_def)
  then show "config_from K T (kx_config (snd (refresh_at env i p)))"
    "fst (refresh_at env i p) = None \<Longrightarrow>
      xa_mode (auth_at (kx_config (snd (refresh_at env i p))) i) = xa_mode (auth_at (kx_config p) i)
      \<and> xa_access_token (auth_at (kx_config (snd (refresh_at env i p))) i) \<in> T"
    "xp_chatgpt_base_url (kx_config (snd (refresh_at env i p))) = xp_chatgpt_base_url (kx_config p)"
    using a put_auth_from [OF assms(2)] by (simp_all add: refresh_at_def c Let_def)
qed

definition pool_from :: "string set \<Rightarrow> string set \<Rightarrow> string \<Rightarrow> codex_pool \<Rightarrow> bool" where
  "pool_from keys tokens url p \<longleftrightarrow> config_from keys tokens (kx_config p) \<and> xp_chatgpt_base_url (kx_config p) = url"

lemma put_authState_from: "pool_from K T url p \<Longrightarrow> auth_from K T a \<Longrightarrow> pool_from K T url (put_authState a p)"
  by (simp add: pool_from_def put_authState_def put_auth_from)

lemma authState_from: "pool_from K T url p \<Longrightarrow> auth_from K T (authState p)"
  by (simp add: pool_from_def authState_def auth_at_from)

lemma activeAccount_from: "pool_from K T url (activeAccount p) = pool_from K T url p"
  by (simp add: activeAccount_def pool_from_def)

lemma reload_from:
  assumes "env_from K T env" and "pool_from K T url p"
  shows "pool_from K T url (reloadTokenFromDisk env p)" "pool_from K T url (reloadFromOfficialStore env p)"
proof -
  have disk: "auth_from K T (xp_auth c)" "\<And>a. a \<in> set (pool c) \<Longrightarrow> auth_from K T (xacc_auth a)" if "ve_disk env = Some c" for c
    using assms(1) that by (auto simp: env_from_def config_from_def)
  show "pool_from K T url (reloadTokenFromDisk env p)"
    using assms(2) disk put_authState_from [OF assms(2)]
    by (auto simp: reloadTokenFromDisk_def dest: find_Some_in split: option.splits)
  have "auth_from K T ((authState p)\<lparr>xa_mode := m, xa_access_token := xa_access_token a, xa_refresh_token := r, xa_expires_at := x, xa_account_id := c\<rparr>)"
    if "loadOfficialCodexAuth (ve_adapter env) (ve_official env) = Inr (Some a)" for a m r x c
    using assms(1) that authState_from [OF assms(2)] by (simp add: env_from_def auth_from_def)
  then show "pool_from K T url (reloadFromOfficialStore env p)"
    using assms(2) put_authState_from [OF assms(2)] by (auto simp: reloadFromOfficialStore_def split: sum.splits option.splits)
qed

lemma with_claims_from: "auth_from K T (with_claims env a) = auth_from K T a"
  by (simp add: with_claims_def auth_from_def Let_def)

lemma refresh_pool_from: "env_from K T env \<Longrightarrow> pool_from K T url p \<Longrightarrow> pool_from K T url (snd (refresh_at env i p))"
  by (simp add: pool_from_def refresh_at_from)

lemma EnsureAuthenticated_from:
  assumes "env_from K T env" and "pool_from K T url p"
  shows "pool_from K T url (snd (EnsureAuthenticated env p))"
proof -
  have due: "pool_from K T url (snd (refresh_if_due env q))" if "pool_from K T url q" for q
    using that refresh_pool_from [OF assms(1) that] by (auto simp: refresh_if_due_def case_prod_unfold)
  have "pool_from K T url (snd (stored_authenticated env q))" if q: "pool_from K T url q" for q
  proof -
    let ?r = "if xa_access_token (authState q) = '''' then reloadTokenFromDisk env q else q"
    let ?s = "if xa_access_token (authState ?r) = '''' \<and> length (pool (kx_config ?r)) \<le> 1 then reloadFromOfficialStore env ?r else ?r"
    have "pool_from K T url ?r" using q reload_from [OF assms(1)] by simp
    then have s: "pool_from K T url ?s" using reload_from [OF assms(1)] by simp
    then have "pool_from K T url (put_authState (with_claims (ve_adapter env) (authState ?s)) ?s)"
      by (intro put_authState_from) (simp_all add: with_claims_from authState_from)
    from due [OF this] s show ?thesis unfolding stored_authenticated_def Let_def by simp
  qed
  then show ?thesis using assms(2) by (auto simp: EnsureAuthenticated_def Let_def activeAccount_from split: option.splits)
qed

lemma forceRefresh_from:
  assumes "env_from K T env" and "pool_from K T url p"
  shows "pool_from K T url (snd (forceRefreshAccount env i p))"
    and "fst (forceRefreshAccount env i p) = None \<Longrightarrow>
      xc_token (credentialAtLocked env (kx_config (snd (forceRefreshAccount env i p))) i) \<in> T"
proof -
  show "pool_from K T url (snd (forceRefreshAccount env i p))"
    using assms refresh_pool_from by (simp add: forceRefreshAccount_def)
  assume ok: "fst (forceRefreshAccount env i p) = None"
  then have f: "forceRefreshAccount env i p = refresh_at env i p" "\<not> isAPIKeyMode (xa_mode (auth_at (kx_config p) i))"
    by (auto simp: forceRefreshAccount_def split: if_splits)
  have cfg: "config_from K T (kx_config p)" using assms(2) by (simp add: pool_from_def)
  show "xc_token (credentialAtLocked env (kx_config (snd (forceRefreshAccount env i p))) i) \<in> T"
    using refresh_at_from(2) [OF assms(1) cfg, of i] ok f assms(1)
    by (auto simp: credentialAtLocked_def Let_def env_from_def split: option.splits)
qed

lemma credential_from:
  assumes "env_from K T env" and "config_from K T cfg" and "xc_token (credentialAtLocked env cfg i) \<noteq> ''''"
  shows "xc_token (credentialAtLocked env cfg i) \<in> (if xc_chatgpt (credentialAtLocked env cfg i) then T else K)"
  using assms auth_at_from [OF assms(2), of i]
  by (auto simp: credentialAtLocked_def Let_def env_from_def auth_from_def resolveCodexAPIKey_def split: option.splits sum.splits if_splits)

lemma sent_platform: "k \<in> K \<Longrightarrow> \<not> xc_chatgpt c \<Longrightarrow> xc_token c = k \<Longrightarrow> path \<in> {''/responses'', ''/embeddings''} \<Longrightarrow>
    sent_ok K T cfg \<lparr>sr_URL = defaultPlatformBaseURL @ path, sr_Header = sent_headers c, sr_Body = body\<rparr>"
  by (auto simp: sent_ok_def sent_headers_def)

lemma sent_chatgpt: "xc_token c \<in> T \<Longrightarrow> xc_chatgpt c \<Longrightarrow>
    sent_ok K T cfg \<lparr>sr_URL = chatGPTBaseURL cfg @ ''responses'', sr_Header = sent_headers c, sr_Body = body\<rparr>"
  by (auto simp: sent_ok_def sent_headers_def)

lemma chatGPTBaseURL_cong: "xp_chatgpt_base_url cfg = xp_chatgpt_base_url cfg' \<Longrightarrow> chatGPTBaseURL cfg = chatGPTBaseURL cfg'"
  by (simp add: chatGPTBaseURL_def)

text \<open>What an operation adds to the log is in order, and the pool stays in order.\<close>

definition sends :: "string set \<Rightarrow> string set \<Rightarrow> codex_provider \<Rightarrow> codex_state \<Rightarrow> codex_state \<Rightarrow> bool" where
  "sends keys tokens cfg st st' \<longleftrightarrow> (\<exists>new. kx_sent st' = kx_sent st @ new \<and> list_all (sent_ok keys tokens cfg) new)
     \<and> pool_from keys tokens (xp_chatgpt_base_url cfg) (kx_pool st')"

lemma sends_trans: "sends K T cfg st st1 \<Longrightarrow> sends K T cfg st1 st2 \<Longrightarrow> sends K T cfg st st2"
  by (fastforce simp: sends_def)

lemma sends_none: "kx_sent st' = kx_sent st \<Longrightarrow> pool_from K T (xp_chatgpt_base_url cfg) (kx_pool st') \<Longrightarrow> sends K T cfg st st'"
  by (simp add: sends_def)

lemma send_once_sends:
  assumes "pool_from K T (xp_chatgpt_base_url cfg) (kx_pool st)" and "sent_ok K T cfg \<lparr>sr_URL = url, sr_Header = sent_headers c, sr_Body = body\<rparr>"
  shows "sends K T cfg st (snd (send_once env n url c body st))" and "kx_pool (snd (send_once env n url c body st)) = kx_pool st"
  using assms by (auto simp: sends_def send_once_def log_request_def record_failure_def Let_def split: option.split sum.split)

lemma send_authenticated_sends:
  assumes env: "env_from K T (ce_refresh env)" and p: "pool_from K T (xp_chatgpt_base_url cfg) (kx_pool st)"
    and tok: "xc_token c \<in> (if xc_chatgpt c then T else K)" and cfg': "xp_chatgpt_base_url cfg' = xp_chatgpt_base_url cfg"
  shows "sends K T cfg st (snd (send_authenticated env (upstream_url cfg' (xc_chatgpt c)) c body st))"
proof -
  let ?url = "upstream_url cfg' (xc_chatgpt c)"
  have ok: "sent_ok K T cfg \<lparr>sr_URL = ?url, sr_Header = sent_headers d, sr_Body = body\<rparr>"
    if "xc_token d \<in> (if xc_chatgpt c then T else K)" "xc_chatgpt d = xc_chatgpt c" for d
    using that sent_platform [of "xc_token d" K d "''/responses''"] sent_chatgpt [of d T K cfg body] chatGPTBaseURL_cong [OF cfg']
    by (simp add: upstream_url_def split: if_splits)
  note first = send_once_sends [OF p ok [OF tok refl], of env 0]
  obtain x st1 where one: "send_once env 0 ?url c body st = (x, st1)" by fastforce
  show ?thesis
  proof (cases "\<exists>r. x = Inr r \<and> hr_StatusCode r = 401 \<and> xc_chatgpt c")
    case False
    then have "send_authenticated env ?url c body st = (x, st1)" by (cases x) (auto simp: send_authenticated_def one)
    then show ?thesis using first(1) one by simp
  next
    case True
    then obtain r where r: "x = Inr r" "hr_StatusCode r = 401" "xc_chatgpt c" by blast
    obtain err q where q: "forceRefreshAccount (ce_refresh env) (xc_index c) (kx_pool st1) = (err, q)" by fastforce
    have p1: "pool_from K T (xp_chatgpt_base_url cfg) (kx_pool st1)" using first(2) one p by simp
    note fr = forceRefresh_from [OF env p1, of "xc_index c", unfolded q snd_conv fst_conv]
    have s1: "sends K T cfg st (st1\<lparr>kx_pool := q\<rparr>)" using first(1) fr(1) one by (simp add: sends_def)
    note eq = send_authenticated_def [of env ?url c body st, unfolded one r(1) prod.case sum.case]
    show ?thesis
    proof (cases err)
      case (Some e)
      then show ?thesis unfolding eq using s1 by (simp add: r q Let_def)
    next
      case None
      let ?d = "c\<lparr>xc_token := xc_token (credentialAtLocked (ce_refresh env) (kx_config q) (xc_index c)),
        xc_accountID := xc_accountID (credentialAtLocked (ce_refresh env) (kx_config q) (xc_index c))\<rparr>"
      have "sent_ok K T cfg \<lparr>sr_URL = ?url, sr_Header = sent_headers ?d, sr_Body = body\<rparr>"
        using ok [of ?d] fr(2) None r(3) by simp
      from sends_trans [OF s1 send_once_sends(1) [OF _ this]] fr(1) show ?thesis
        unfolding eq by (simp add: r q Let_def None)
    qed
  qed
qed

lemma record_status_frame [simp]: "kx_sent (record_status now s st) = kx_sent st" "kx_pool (record_status now s st) = kx_pool st"
  by (simp_all add: record_status_def record_failure_def)

lemma advance_from:
  assumes "pool_from K T url p"
  shows "pool_from K T url (snd (advanceCodexAccountFrom now i p))"
proof -
  have "config_from K T (mark_limited i t (kx_config p))" if "pooled (kx_config p) i" for t
    using assms that by (auto simp: pool_from_def config_from_def mark_limited_def pool_def pooled_def dest!: set_update_subset_insert [THEN subsetD])
  then show ?thesis using assms
    by (auto simp: advanceCodexAccountFrom_def Let_def pool_from_def mark_limited_def split: option.splits)
qed

fun step_state :: "'w codex_step \<Rightarrow> codex_state" where
  "step_state (Returns res st w) = st"
| "step_state (NextAccount st) = st"

lemma answer_client_frame [simp]: "kx_sent (step_state (answer_client env ops chatgpt native built r st w)) = kx_sent st"
  "kx_pool (step_state (answer_client env ops chatgpt native built r st w)) = kx_pool st"
  by (simp_all add: answer_client_def Let_def case_prod_unfold)

lemma after_exchange_sends:
  assumes "pool_from K T (xp_chatgpt_base_url cfg) (kx_pool st)"
  shows "sends K T cfg st (step_state (after_exchange env ops m c native built r st w))"
  using assms advance_from [OF assms, of "ce_limit_now env" "xc_index c"]
  by (auto simp: after_exchange_def Let_def case_prod_unfold intro!: sends_none)

lemma classic_sends:
  assumes "pool_from K T (xp_chatgpt_base_url cfg) (kx_pool st)" and "xc_token c \<in> K" and "\<not> xc_chatgpt c"
  shows "sends K T cfg st (fst (snd (proxyClassic env ops body ''/embeddings'' c st w)))"
proof -
  obtain x st1 where o: "send_once env 0 (defaultPlatformBaseURL @ ''/embeddings'') c body st = (x, st1)" by fastforce
  have "sends K T cfg st st1"
    using send_once_sends(1) [OF assms(1) sent_platform [OF assms(2,3) refl, of "''/embeddings''" T cfg body], of env 0] o by simp
  then show ?thesis by (auto simp: proxyClassic_def o sends_def Let_def case_prod_unfold split: sum.splits)
qed

lemma with_credential_sends:
  assumes env: "env_from K T (ce_refresh env)" and p: "pool_from K T (xp_chatgpt_base_url cfg) (kx_pool st)"
    and tok: "xc_token c \<noteq> '''' \<Longrightarrow> xc_token c \<in> (if xc_chatgpt c then T else K)"
  shows "sends K T cfg st (step_state (with_credential env ops m c body cap st w))"
proof -
  have none: "sends K T cfg st st" using p by (simp add: sends_none)
  consider "xc_token c = ''''" | "xc_token c \<noteq> ''''" "cap = CapabilityEmbeddings" | "xc_token c \<noteq> ''''" "cap \<noteq> CapabilityEmbeddings" by blast
  then show ?thesis
  proof cases
    case 2
    then show ?thesis using none classic_sends [OF p, of c env ops body w] tok by (auto simp: with_credential_def case_prod_unfold)
  next
    case 3
    have "sends K T cfg st (step_state (case send_authenticated env (upstream_url (kx_config (kx_pool st)) (xc_chatgpt c)) c b st of
        (Inl e, st) \<Rightarrow> Returns (Returned (Some e)) st w | (Inr r, st) \<Rightarrow> after_exchange env ops m c native built r st w))" for b native built
    proof -
      obtain x st1 where sa: "send_authenticated env (upstream_url (kx_config (kx_pool st)) (xc_chatgpt c)) c b st = (x, st1)" by fastforce
      have s1: "sends K T cfg st st1"
        using send_authenticated_sends [OF env p tok [OF 3(1)], of "kx_config (kx_pool st)" b] p sa by (simp add: pool_from_def)
      then have "pool_from K T (xp_chatgpt_base_url cfg) (kx_pool st1)" by (simp add: sends_def)
      from sends_trans [OF s1 after_exchange_sends [OF this, of env ops m c native built _ w]] s1 show ?thesis
        by (simp add: sa split: sum.split)
    qed
    with 3 none show ?thesis by (simp add: with_credential_def split: sum.split)
  qed (simp add: with_credential_def none)
qed

lemma attempt_sends:
  assumes "env_from K T (ce_auth env)" and "env_from K T (ce_refresh env)" and "pool_from K T (xp_chatgpt_base_url cfg) (kx_pool st)"
  shows "sends K T cfg st (step_state (account_attempt env ops m body cap st w))"
proof -
  obtain err p where e: "EnsureAuthenticated (ce_auth env) (kx_pool st) = (err, p)" by fastforce
  have p: "pool_from K T (xp_chatgpt_base_url cfg) p" using EnsureAuthenticated_from [OF assms(1,3)] e by simp
  obtain ok cb where c: "canExecute (ce_breaker_now env) (kx_breaker st) = (ok, cb)" by fastforce
  let ?st = "st\<lparr>kx_pool := p, kx_breaker := cb\<rparr>" and ?c = "credentialAtLocked (ce_auth env) (kx_config p) (kx_cursor p)"
  have "sends K T cfg ?st (step_state (with_credential env ops m ?c body cap ?st w))"
    using with_credential_sends [OF assms(2), of cfg ?st ?c] p credential_from [OF assms(1), of "kx_config p"] by (simp add: pool_from_def)
  then have "sends K T cfg st (step_state (with_credential env ops m ?c body cap ?st w))" by (simp add: sends_def)
  moreover have "sends K T cfg st (st\<lparr>kx_pool := p\<rparr>)" "sends K T cfg st ?st" using p by (simp_all add: sends_none)
  ultimately show ?thesis by (cases err; cases ok) (simp_all add: account_attempt_def e c)
qed

lemma account_loop_sends:
  assumes "\<And>i. env_from K T (ce_auth (env i)) \<and> env_from K T (ce_refresh (env i))"
    and "pool_from K T (xp_chatgpt_base_url cfg) (kx_pool st)"
  shows "sends K T cfg st (fst (snd (account_loop env ops m n left body cap st w)))"
  using assms(2)
proof (induction left arbitrary: n st)
  case (Suc left)
  have a: "sends K T cfg st (step_state (account_attempt (env n) ops m body cap st w))"
    using assms(1) Suc.prems by (intro attempt_sends) simp_all
  then have p: "pool_from K T (xp_chatgpt_base_url cfg) (kx_pool (step_state (account_attempt (env n) ops m body cap st w)))" by (simp add: sends_def)
  show ?case
    using a Suc.IH [OF p, of "Suc n"] by (cases "account_attempt (env n) ops m body cap st w") (auto intro: sends_trans)
qed (simp add: sends_none)

text \<open>C16: credentials never cross transports. Every request sent upstream either goes to the
  OpenAI Platform with an API key or to the ChatGPT backend with a ChatGPT access token, also
  after a refresh and after a change of account, and the configuration the provider is left with
  again holds only such credentials in their places.\<close>

theorem codex_credentials_separated:
  assumes "config_from keys tokens (kx_config (kx_pool st))"
    and "\<forall>i. env_from keys tokens (ce_auth (env i)) \<and> env_from keys tokens (ce_refresh (env i))"
    and "Codex_ProxyRequest env ops body cap st w = (res, st', w')"
  shows "\<exists>new. kx_sent st' = kx_sent st @ new \<and> list_all (sent_ok keys tokens (kx_config (kx_pool st))) new
    \<and> config_from keys tokens (kx_config (kx_pool st'))"
proof -
  let ?m = "max 1 (length (pool (kx_config (kx_pool st))))"
  have "pool_from keys tokens (xp_chatgpt_base_url (kx_config (kx_pool st))) (kx_pool st)" using assms(1) by (simp add: pool_from_def)
  moreover have "env_from keys tokens (ce_auth (env i)) \<and> env_from keys tokens (ce_refresh (env i))" for i using assms(2) by blast
  ultimately have "sends keys tokens (kx_config (kx_pool st)) st (fst (snd (account_loop env ops ?m 0 ?m body cap st w)))"
    by (intro account_loop_sends)
  then show ?thesis using assms(3) by (auto simp: Codex_ProxyRequest_def Let_def sends_def pool_from_def)
qed

section \<open>A sample pool\<close>

text \<open>Two ChatGPT accounts; the upstream limits the first and answers the second.\<close>

definition sample_account :: "string \<Rightarrow> codex_account" where
  "sample_account token = \<lparr>xacc_id = token, xacc_label = token, xacc_auth = zero_auth\<lparr>xa_mode := ''chatgpt'', xa_access_token := token\<rparr>,
     xacc_last_limited_at = 0\<rparr>"

definition sample_codex :: codex_state where
  "sample_codex = \<lparr>kx_pool = \<lparr>kx_config = \<lparr>xp_enabled = True, xp_auth = zero_auth, xp_accounts = Some [sample_account ''t1'', sample_account ''t2''],
       xp_account_cooldown_seconds = 0, xp_allowed_models = None, xp_chatgpt_base_url = ''''\<rparr>, kx_cursor = 0, kx_saved = []\<rparr>,
     kx_breaker = new_breaker 30, kx_sent = []\<rparr>"

definition sample_auth_env :: auth_env where
  "sample_auth_env = \<lparr>ve_adapter = sample_responses_env, ve_controller = None, ve_api_key = '''', ve_official = FileMissing, ve_disk = None,
     ve_now = 1000, ve_token = (\<lambda>n. TokenNetworkError), ve_token_now = 1000, ve_save = None\<rparr>"

definition sample_codex_env :: "nat \<Rightarrow> codex_env" where
  "sample_codex_env n = \<lparr>ce_auth = sample_auth_env, ce_refresh = sample_auth_env, ce_breaker_now = 1000, ce_outcome_now = 1000, ce_bad_url = (\<lambda>u. None),
     ce_upstream = (\<lambda>k. \<lparr>up_new_request = (\<lambda>_. None), up_send = (\<lambda>_. Inr (if n = 0 then 429 else 200)), up_cancelled = (\<lambda>_. None)\<rparr>),
     ce_response = (\<lambda>k. \<lparr>hr_StatusCode = 200, hr_Header = [], hr_Pieces = [], hr_ReadErr = None\<rparr>), ce_limit_now = (\<lambda>k. 1000), ce_millis = 0, ce_created = 0\<rparr>"

theorem codex_accounts_once_witness:
  "fst (account_trace sample_codex_env wrapper_ops 2 0 2 ''in'' CapabilityResponses sample_codex fresh_wrapper) = [0, 1]
   \<and> (\<exists>k s res st' w'. account_attempt (sample_codex_env k) wrapper_ops 2 ''in'' CapabilityResponses s fresh_wrapper = Returns res st' w'
        \<and> Codex_ProxyRequest sample_codex_env wrapper_ops ''in'' CapabilityResponses sample_codex fresh_wrapper = (res, st', w'))"
proof -
  have t: "fst (account_trace sample_codex_env wrapper_ops 2 0 2 ''in'' CapabilityResponses sample_codex fresh_wrapper) = [0, 1]" by code_simp
  have m: "(2 :: nat) = max 1 (length (pool (kx_config (kx_pool sample_codex))))" by code_simp
  have "codexCooldownSeconds (kx_config (kx_pool sample_codex)) = 300" by code_simp
  then have "\<forall>i k. 1000 \<le> ce_limit_now (sample_codex_env i) k
      \<and> ce_limit_now (sample_codex_env i) k < 1000 + codexCooldownSeconds (kx_config (kx_pool sample_codex))"
    by (simp add: sample_codex_env_def)
  from codex_accounts_once [OF zero_less_numeral this m, of wrapper_ops "''in''" CapabilityResponses fresh_wrapper] t show ?thesis by blast
qed

theorem codex_probe_leak_witness:
  "let st = sample_codex\<lparr>kx_breaker := (new_breaker 30)\<lparr>cb_state := CircuitOpen, cb_failureCount := 5\<rparr>\<rparr> in
   \<exists>res st1. Codex_ProxyRequest sample_codex_env wrapper_ops ''bad'' CapabilityResponses st fresh_wrapper = (res, st1, fresh_wrapper) \<and> failed_result res
    \<and> (\<forall>calls. \<exists>rs st'. serve wrapper_ops calls st1 fresh_wrapper = (rs, st', fresh_wrapper) \<and> list_all failed_result rs \<and> kx_sent st' = [])"
proof -
  let ?st = "sample_codex\<lparr>kx_breaker := (new_breaker 30)\<lparr>cb_state := CircuitOpen, cb_failureCount := 5\<rparr>\<rparr>"
  have e: "EnsureAuthenticated (ce_auth (sample_codex_env 0)) (kx_pool ?st) = (None, kx_pool ?st)" by code_simp
  have "build_upstream sample_responses_env True True ''bad'' = Inl BodyUnparsed" by code_simp
  moreover have "xc_chatgpt (credentialAtLocked sample_auth_env (kx_config (kx_pool ?st)) (kx_cursor (kx_pool ?st)))" by code_simp
  ultimately have "unreported (sample_codex_env 0) ''bad'' CapabilityResponses (kx_pool ?st)"
    by (auto simp: unreported_def Let_def sample_codex_env_def sample_auth_env_def)
  from codex_probe_leak [of ?st sample_codex_env, OF _ _ e this, of wrapper_ops fresh_wrapper] show ?thesis
    by (simp add: sample_codex_def sample_codex_env_def new_breaker_def zero_time_def Let_def)
qed

theorem codex_credentials_separated_witness:
  "\<exists>res st' w'. Codex_ProxyRequest sample_codex_env wrapper_ops ''in'' CapabilityResponses sample_codex fresh_wrapper = (res, st', w')
    \<and> list_all (sent_ok {} {''t1'', ''t2''} (kx_config (kx_pool sample_codex))) (kx_sent st') \<and> length (kx_sent st') = 2"
proof -
  obtain res st' w' where r: "Codex_ProxyRequest sample_codex_env wrapper_ops ''in'' CapabilityResponses sample_codex fresh_wrapper = (res, st', w')"
    by (metis prod_cases3)
  have "length (kx_sent (fst (snd (Codex_ProxyRequest sample_codex_env wrapper_ops ''in'' CapabilityResponses sample_codex fresh_wrapper)))) = 2"
    by code_simp
  moreover have "config_from {} {''t1'', ''t2''} (kx_config (kx_pool sample_codex))" by code_simp
  moreover have "env_from {} {''t1'', ''t2''} sample_auth_env"
    by (simp add: env_from_def sample_auth_env_def controller_credential_def loadOfficialCodexAuth_def trim_space_def)
  then have "\<forall>i. env_from {} {''t1'', ''t2''} (ce_auth (sample_codex_env i)) \<and> env_from {} {''t1'', ''t2''} (ce_refresh (sample_codex_env i))"
    by (simp add: sample_codex_env_def)
  ultimately show ?thesis using codex_credentials_separated [OF _ _ r, of "{}" "{''t1'', ''t2''}"] r by (force simp: sample_codex_def)
qed

end
