(* ===== verification/Kilo_Provider.thy ===== *)
theory Kilo_Provider
  imports Model_Catalog Codex_Provider
begin

text \<open>
  The Kilo Gateway provider (\<open>src/kilo_provider.go\<close>): base URL and credentials, model discovery,
  the free models of anonymous mode, requests. Parsing and printing of URLs and decimal numbers
  are parameters, like the environment variables, the secret store and the upstream's answers.
\<close>

section \<open>Configuration and credentials\<close>

record parsed_url =
  pu_Scheme :: string
  pu_User :: bool
  pu_Host :: string
  pu_Hostname :: string
  pu_Path :: string
  pu_RawQuery :: string
  pu_Fragment :: string

record kilo_env =
  ke_controller :: "(string \<Rightarrow> string option) option"
  ke_getenv :: "string \<Rightarrow> string"
  ke_parse :: "string \<Rightarrow> parsed_url option"
  ke_print :: "parsed_url \<Rightarrow> string"
  ke_parse_float_zero :: "string \<Rightarrow> bool"
  ke_adapter :: adapter_env
  ke_version :: string

definition defaultKiloGatewayBaseURL :: string where "defaultKiloGatewayBaseURL = ''https://api.kilo.ai/api/gateway''"
definition kiloAutoFreeModel :: string where "kiloAutoFreeModel = ''kilo-auto/free''"

definition kilo_credential :: "kilo_env \<Rightarrow> string \<Rightarrow> string option" where
  "kilo_credential env slot = Option.bind (ke_controller env) (\<lambda>resolve. resolve slot)"

definition apiKey :: "kilo_env \<Rightarrow> kilo_provider \<Rightarrow> string" where
  "apiKey env cfg =
     (case kilo_credential env ''kilo/api_key'' of
        Some v \<Rightarrow> v
      | None \<Rightarrow>
          (let key = trim_space (ke_getenv env ''KILO_API_KEY'') in
           if key \<noteq> '''' then key else trim_space (kp_api_key cfg)))"

definition organizationID :: "kilo_env \<Rightarrow> kilo_provider \<Rightarrow> string" where
  "organizationID env cfg =
     (case kilo_credential env ''kilo/organization_id'' of
        Some v \<Rightarrow> v
      | None \<Rightarrow>
          (let organizationID = trim_space (ke_getenv env ''KILO_ORG_ID'') in
           if organizationID \<noteq> '''' then organizationID else trim_space (kp_organization_id cfg)))"

definition isLoopbackHostname :: "string \<Rightarrow> bool" where
  "isLoopbackHostname host = (let h = to_lower (trim_space host) in h = ''localhost'' \<or> h = ''127.0.0.1'' \<or> h = ''::1'')"

definition trim_right_slash :: "string \<Rightarrow> string" where
  "trim_right_slash s = rev (dropWhile (\<lambda>c. c = CHR ''/'') (rev s))"

definition raw_base_url :: "kilo_env \<Rightarrow> kilo_provider \<Rightarrow> string" where
  "raw_base_url env cfg =
     (let raw = trim_space (ke_getenv env ''KILO_GATEWAY_BASE_URL'');
          raw = (if raw = '''' then trim_space (kp_base_url cfg) else raw)
      in if raw = '''' then defaultKiloGatewayBaseURL else raw)"

definition baseURL :: "kilo_env \<Rightarrow> kilo_provider \<Rightarrow> string + string" where
  "baseURL env cfg =
     (case ke_parse env (raw_base_url env cfg) of
        None \<Rightarrow> Inl ''invalid Kilo Gateway base URL''
      | Some u \<Rightarrow>
          if pu_Host u = '''' \<or> (pu_Scheme u \<noteq> ''https'' \<and> pu_Scheme u \<noteq> ''http'') then Inl ''invalid Kilo Gateway base URL''
          else if pu_User u \<or> pu_RawQuery u \<noteq> '''' \<or> pu_Fragment u \<noteq> ''''
          then Inl ''Kilo Gateway base URL must not contain credentials, query, or fragment''
          else if pu_Scheme u = ''http'' \<and> \<not> isLoopbackHostname (pu_Hostname u)
          then Inl ''Kilo Gateway base URL must use HTTPS unless it is loopback''
          else Inr (ke_print env (u\<lparr>pu_Path := trim_right_slash (pu_Path u)\<rparr>)))"

definition Kilo_EnsureAuthenticated :: "kilo_env \<Rightarrow> kilo_provider \<Rightarrow> proxy_error option" where
  "Kilo_EnsureAuthenticated env cfg =
     (case baseURL env cfg of
        Inl e \<Rightarrow> Some (newProviderError ProviderErrorInvalidRequest 500 e)
      | Inr url \<Rightarrow>
          if apiKey env cfg \<noteq> '''' \<or> kp_allow_anonymous cfg then None
          else Some (newProviderError ProviderErrorAuthRequired 401 ''no Kilo API key configured and anonymous access is disabled''))"

definition Kilo_Health :: "kilo_env \<Rightarrow> kilo_provider \<Rightarrow> provider_health \<times> string" where
  "Kilo_Health env cfg =
     (let ready = (\<not> isl (baseURL env cfg) \<and> (apiKey env cfg \<noteq> '''' \<or> kp_allow_anonymous cfg))
      in (\<lparr>hl_Authenticated = ready, hl_CanRefresh = False\<rparr>, case baseURL env cfg of Inl e \<Rightarrow> e | Inr _ \<Rightarrow> ''''))"

section \<open>Headers\<close>

text \<open>\<open>Header.Set\<close> with the canonical form of the name.\<close>

definition hput :: "string \<Rightarrow> string \<Rightarrow> header \<Rightarrow> header" where
  "hput k v h = AList.update k [v] h"

definition hput_nonempty :: "string \<Rightarrow> string \<Rightarrow> header \<Rightarrow> header" where
  "hput_nonempty k v h = (if v \<noteq> '''' then hput k v h else h)"

definition kilo_forwarded :: "string list" where
  "kilo_forwarded = [''Idempotency-Key'', ''X-Kilocode-Mode'', ''X-Kilocode-Taskid'', ''X-Kilocode-Parent-Taskid'']"

definition own_headers :: "kilo_env \<Rightarrow> kilo_provider \<Rightarrow> header" where
  "own_headers env cfg =
     (let h = [(''Accept'', [''application/json, text/event-stream'']), (''Content-Type'', [''application/json'']),
            (''User-Agent'', [''ya-router/'' @ ke_version env]), (''Http-Referer'', [''https://github.com/duvu/ya-router'']),
            (''X-Title'', [''ya-router'']), (''X-Kilocode-Editorname'', [''ya-router '' @ ke_version env])];
          h = (if apiKey env cfg \<noteq> '''' then hput ''Authorization'' (''Bearer '' @ apiKey env cfg) h else h)
      in hput_nonempty ''X-Kilocode-Organizationid'' (organizationID env cfg) h)"

definition setHeaders :: "kilo_env \<Rightarrow> kilo_provider \<Rightarrow> header option \<Rightarrow> header" where
  "setHeaders env cfg clientRequest =
     (case clientRequest of
        None \<Rightarrow> own_headers env cfg
      | Some hdr \<Rightarrow>
          (let h = fold (\<lambda>k. hput_nonempty k (trim_space (header_get k hdr))) kilo_forwarded (own_headers env cfg)
           in if organizationID env cfg = '''' then h
              else hput_nonempty ''X-Kilocode-Projectid'' (trim_space (header_get ''X-Kilocode-Projectid'' hdr))
                (hput ''X-Kilocode-Organizationid'' (organizationID env cfg) h)))"

section \<open>Free models\<close>

definition has_suffix :: "string \<Rightarrow> string \<Rightarrow> bool" where
  "has_suffix s t \<longleftrightarrow> drop (length s - length t) s = t"

definition isAnonymousKiloModel :: "string \<Rightarrow> bool" where
  "isAnonymousKiloModel m =
     (let m = to_lower (trim_space m) in m = kiloAutoFreeModel \<or> m = ''openrouter/free'' \<or> has_suffix m '':free'')"

record kilo_model =
  km_ID :: string
  km_Object :: string
  km_Created :: int
  km_OwnedBy :: string
  km_Name :: string
  km_IsFree :: bool
  km_IsFreeAlt :: bool
  km_Prompt :: string
  km_Completion :: string

definition zero_kilo_model :: kilo_model where
  "zero_kilo_model = \<lparr>km_ID = '''', km_Object = '''', km_Created = 0, km_OwnedBy = '''', km_Name = '''', km_IsFree = False,
     km_IsFreeAlt = False, km_Prompt = '''', km_Completion = ''''\<rparr>"

definition kilo_model_value :: "kilo_model setter" where
  "kilo_model_value = struct_value [
     (''id'', string_value (\<lambda>v s. s\<lparr>km_ID := v\<rparr>)), (''object'', string_value (\<lambda>v s. s\<lparr>km_Object := v\<rparr>)),
     (''created'', int_value (\<lambda>v s. s\<lparr>km_Created := v\<rparr>)), (''owned_by'', string_value (\<lambda>v s. s\<lparr>km_OwnedBy := v\<rparr>)),
     (''name'', string_value (\<lambda>v s. s\<lparr>km_Name := v\<rparr>)), (''isFree'', bool_value (\<lambda>v s. s\<lparr>km_IsFree := v\<rparr>)),
     (''is_free'', bool_value (\<lambda>v s. s\<lparr>km_IsFreeAlt := v\<rparr>)),
     (''pricing'', struct_value [(''prompt'', string_value (\<lambda>v s. s\<lparr>km_Prompt := v\<rparr>)),
        (''completion'', string_value (\<lambda>v s. s\<lparr>km_Completion := v\<rparr>))])]"

definition kilo_response_value :: "kilo_model list setter" where
  "kilo_response_value = struct_value [(''data'', list_value (\<lambda>v s. v) zero_kilo_model kilo_model_value)]"

definition isFreeKiloCatalogModel :: "kilo_env \<Rightarrow> kilo_model \<Rightarrow> bool" where
  "isFreeKiloCatalogModel env m \<longleftrightarrow>
     km_IsFree m \<or> km_IsFreeAlt m \<or> isAnonymousKiloModel (km_ID m)
     \<or> (ke_parse_float_zero env (km_Prompt m) \<and> ke_parse_float_zero env (km_Completion m))"

record kilo_state =
  kl_cache :: model_cache
  kl_free :: "string list"
  kl_breaker :: circuit_breaker
  kl_sent :: "sent_request list"

definition NewKiloProvider :: "duration \<Rightarrow> kilo_state" where
  "NewKiloProvider timeout =
     \<lparr>kl_cache = NewModelCache defaultModelCacheTTL, kl_free = [kiloAutoFreeModel], kl_breaker = new_breaker timeout, kl_sent = []\<rparr>"

definition replaceFreeModels :: "string list \<Rightarrow> kilo_state \<Rightarrow> kilo_state" where
  "replaceFreeModels models st = st\<lparr>kl_free := models\<rparr>"

definition allowsAnonymousModel :: "kilo_state \<Rightarrow> string \<Rightarrow> bool" where
  "allowsAnonymousModel st m \<longleftrightarrow> isAnonymousKiloModel m \<or> to_lower (trim_space m) \<in> set (kl_free st)"

definition kiloErrorKind :: "int \<Rightarrow> string" where
  "kiloErrorKind status =
     (if status = 400 then ProviderErrorInvalidRequest
      else if status = 401 then ProviderErrorAuthRequired
      else if status = 402 \<or> status = 403 then ProviderErrorEntitlement
      else if status = 429 then ProviderErrorRateLimit
      else if status \<ge> 500 then ProviderErrorUnavailable
      else ProviderErrorTransport)"

section \<open>Model discovery\<close>

text \<open>What one call meets outside: the URL check of \<open>http.NewRequest\<close>, the answers of the upstream,
  and the clock.\<close>

record kilo_io =
  kq_bad_url :: "string \<Rightarrow> proxy_error option"
  kq_discovery :: "string + http_response"
  kq_upstream :: upstream
  kq_response :: http_response
  kq_unix :: int
  kq_cache_times :: "gotime \<times> gotime \<times> gotime"
  kq_breaker_now :: gotime
  kq_outcome_now :: gotime

definition log_sent :: "string \<Rightarrow> header \<Rightarrow> string \<Rightarrow> kilo_state \<Rightarrow> kilo_state" where
  "log_sent url hdr body st = st\<lparr>kl_sent := kl_sent st @ [\<lparr>sr_URL = url, sr_Header = hdr, sr_Body = body\<rparr>]\<rparr>"

definition catalogLimit :: int where "catalogLimit = 16 * 1024 * 1024"

definition limited_body :: "http_response \<Rightarrow> string" where
  "limited_body r = (if int (length (hr_Body r)) \<le> catalogLimit then hr_Body r else take (nat catalogLimit) (hr_Body r))"

definition filterDiscoveredModels :: "model_list \<Rightarrow> string list \<Rightarrow> model_list" where
  "filterDiscoveredModels modelList allowedModels =
     (if allowedModels = [] then modelList
      else \<lparr>ml_Object = ''list'', ml_Data = filter (\<lambda>m. isModelAllowedWithPrefix (mo_ID m) allowedModels) (ml_Data modelList)\<rparr>)"

text \<open>The entries that are kept: with a trimmed ID, and free ones only without a key.\<close>

definition kept_items :: "kilo_env \<Rightarrow> string \<Rightarrow> kilo_model list \<Rightarrow> kilo_model list" where
  "kept_items env key payload =
     filter (\<lambda>item. km_ID item \<noteq> '''' \<and> (key \<noteq> '''' \<or> isFreeKiloCatalogModel env item))
       (map (\<lambda>item. item\<lparr>km_ID := trim_space (km_ID item)\<rparr>) payload)"

definition discovered_model :: "int \<Rightarrow> kilo_model \<Rightarrow> model" where
  "discovered_model now item =
     (plain_model (km_ID item) (nonempty_else (km_Object item) ''model'') (if km_Created item = 0 then now else km_Created item) ''kilo'')
       \<lparr>mo_Name := km_Name item\<rparr>"

definition discovered_list :: "kilo_env \<Rightarrow> kilo_provider \<Rightarrow> int \<Rightarrow> kilo_model list \<Rightarrow> model list" where
  "discovered_list env cfg now kept =
     (let models = map (discovered_model now) kept in
      if apiKey env cfg = '''' \<and> kp_allow_anonymous cfg \<and> kiloAutoFreeModel \<notin> set (map km_ID kept)
      then models @ [(plain_model kiloAutoFreeModel ''model'' now ''kilo'')\<lparr>mo_Name := ''Kilo Auto Free''\<rparr>] else models)"

definition free_ids :: "kilo_env \<Rightarrow> kilo_model list \<Rightarrow> string list" where
  "free_ids env kept = kiloAutoFreeModel # map (\<lambda>item. to_lower (km_ID item)) (filter (isFreeKiloCatalogModel env) kept)"

definition fetchModels :: "kilo_env \<Rightarrow> kilo_provider \<Rightarrow> kilo_io \<Rightarrow> kilo_state \<Rightarrow> (proxy_error + model_list) \<times> kilo_state" where
  "fetchModels env cfg io st =
     (case baseURL env cfg of
        Inl e \<Rightarrow> (Inl (plain_error e), st)
      | Inr base \<Rightarrow>
          (case kq_bad_url io (base @ ''/models'') of
             Some e \<Rightarrow> (Inl e, st)
           | None \<Rightarrow>
               (let st = log_sent (base @ ''/models'') (setHeaders env cfg None) '''' st in
                case kq_discovery io of
                  Inl e \<Rightarrow> (Inl (newProviderError ProviderErrorTransport 502 ''Kilo model discovery failed''), st)
                | Inr r \<Rightarrow>
                    if hr_StatusCode r < 200 \<or> hr_StatusCode r \<ge> 300
                    then (Inl (newProviderError (kiloErrorKind (hr_StatusCode r)) (hr_StatusCode r) ''Kilo model discovery returned HTTP''), st)
                    else if hr_ReadErr r \<noteq> None \<and> int (length (hr_Body r)) < catalogLimit
                    then (Inl (newProviderError ProviderErrorTransport 502 ''read Kilo model catalog''), st)
                    else
                      (case decode_data (ke_adapter env) kilo_response_value [] (limited_body r) of
                         None \<Rightarrow> (Inl (newProviderError ProviderErrorTransport 502 ''decode Kilo model catalog''), st)
                       | Some payload \<Rightarrow>
                           (let key = apiKey env cfg;
                                kept = kept_items env key payload;
                                ml = \<lparr>ml_Object = ''list'', ml_Data = discovered_list env cfg (kq_unix io) kept\<rparr>;
                                allowed = items (kp_allowed_models cfg)
                            in (Inr (if key = '''' then filterDiscoveredModels ml allowed else filterAllowedModels (kq_unix io) ml allowed),
                                replaceFreeModels (free_ids env kept) st))))))"

definition Kilo_ListModels :: "kilo_env \<Rightarrow> kilo_provider \<Rightarrow> kilo_io \<Rightarrow> kilo_state \<Rightarrow> (proxy_error + model_list) \<times> kilo_state" where
  "Kilo_ListModels env cfg io st =
     (case Kilo_EnsureAuthenticated env cfg of
        Some e \<Rightarrow> (Inl e, st)
      | None \<Rightarrow>
          (case kq_cache_times io of
             (first, before, after) \<Rightarrow>
               GetOrFetch kl_cache (\<lambda>c s. s\<lparr>kl_cache := c\<rparr>) first before after (fetchModels env cfg io) st))"

definition Kilo_InvalidateModelCache :: "kilo_state \<Rightarrow> kilo_state" where
  "Kilo_InvalidateModelCache st = replaceFreeModels [kiloAutoFreeModel] (st\<lparr>kl_cache := mc_Invalidate (kl_cache st)\<rparr>)"

section \<open>Requests\<close>

definition kilo_exchange :: "kilo_io \<Rightarrow> header \<Rightarrow> string + http_response" where
  "kilo_exchange io hdr =
     (case fst (makeRequestWithRetry (kq_upstream io) \<lparr>ur_Method = ''POST'', ur_IdempotencyKey = header_get ''Idempotency-Key'' hdr\<rparr>) of
        RetryResponse k status \<Rightarrow> Inr ((kq_response io)\<lparr>hr_StatusCode := status\<rparr>)
      | RetryError e \<Rightarrow> Inl e
      | NoResponse \<Rightarrow> Inl ''no response'')"

definition kilo_path :: "capability \<Rightarrow> string" where
  "kilo_path cap = (if cap = CapabilityResponses then ''/responses'' else ''/chat/completions'')"

definition kilo_send ::
    "kilo_env \<Rightarrow> kilo_provider \<Rightarrow> kilo_io \<Rightarrow> 'w writer_ops \<Rightarrow> header \<Rightarrow> string \<Rightarrow> capability \<Rightarrow> kilo_state \<Rightarrow> 'w \<Rightarrow> proxy_result \<times> kilo_state \<times> 'w" where
  "kilo_send env cfg io ops hdr body cap st w =
     (case baseURL env cfg of
        Inl e \<Rightarrow> (Returned (Some (plain_error e)), st, w)
      | Inr base \<Rightarrow>
          (case kq_bad_url io (base @ kilo_path cap) of
             Some e \<Rightarrow> (Returned (Some e), st, w)
           | None \<Rightarrow>
               (let h = setHeaders env cfg (Some hdr); st = log_sent (base @ kilo_path cap) h body st in
                case kilo_exchange io h of
                  Inl e \<Rightarrow> (Returned (Some (newProviderError ProviderErrorTransport 502 ''Kilo upstream request failed'')),
                            st\<lparr>kl_breaker := onFailure (kq_outcome_now io) (kl_breaker st)\<rparr>, w)
                | Inr r \<Rightarrow>
                    (let st = st\<lparr>kl_breaker := (if hr_StatusCode r \<ge> 500 then onFailure (kq_outcome_now io) (kl_breaker st) else onSuccess (kl_breaker st))\<rparr>
                     in case streamResponse ops r w of (err, w) \<Rightarrow> (Returned err, st, w)))))"

definition Kilo_ProxyRequest ::
    "kilo_env \<Rightarrow> kilo_provider \<Rightarrow> kilo_io \<Rightarrow> 'w writer_ops \<Rightarrow> header \<Rightarrow> string \<Rightarrow> capability \<Rightarrow> kilo_state \<Rightarrow> 'w \<Rightarrow> proxy_result \<times> kilo_state \<times> 'w" where
  "Kilo_ProxyRequest env cfg io ops hdr body cap st w =
     (case Kilo_EnsureAuthenticated env cfg of
        Some e \<Rightarrow> (Returned (Some e), st, w)
      | None \<Rightarrow>
          if cap \<noteq> CapabilityChat \<and> cap \<noteq> CapabilityResponses
          then (Returned (Some (newProviderError ProviderErrorUnsupported 400 ''unsupported Kilo capability'')), st, w)
          else
            (let model = ExtractModel (ae_codec (ke_adapter env)) body in
             if model = '''' then (Returned (Some (newProviderError ProviderErrorInvalidRequest 400 ''Kilo request requires a model'')), st, w)
             else if apiKey env cfg = '''' \<and> \<not> allowsAnonymousModel st model
             then (Returned (Some (newProviderError ProviderErrorAuthRequired 401 ''Kilo model requires KILO_API_KEY'')), st, w)
             else case canExecute (kq_breaker_now io) (kl_breaker st) of
               (False, cb) \<Rightarrow> (Returned (Some (newProviderError ProviderErrorUnavailable 503 ''Kilo circuit breaker is open'')), st\<lparr>kl_breaker := cb\<rparr>, w)
             | (True, cb) \<Rightarrow> kilo_send env cfg io ops hdr body cap (st\<lparr>kl_breaker := cb\<rparr>) w))"

section \<open>Runs\<close>

text \<open>The calls one provider receives, one after the other, with what each meets outside. The key
  and the configuration do not change in between.\<close>

datatype kilo_call = KiloList kilo_io | KiloProxy kilo_io header string capability | KiloInvalidate

fun kilo_step :: "kilo_env \<Rightarrow> kilo_provider \<Rightarrow> 'w writer_ops \<Rightarrow> kilo_call \<Rightarrow> kilo_state \<times> 'w \<Rightarrow> kilo_state \<times> 'w" where
  "kilo_step env cfg ops (KiloList io) (st, w) = (snd (Kilo_ListModels env cfg io st), w)"
| "kilo_step env cfg ops (KiloProxy io hdr body cap) (st, w) = snd (Kilo_ProxyRequest env cfg io ops hdr body cap st w)"
| "kilo_step env cfg ops KiloInvalidate (st, w) = (Kilo_InvalidateModelCache st, w)"

section \<open>Headers sent\<close>

lemma map_of_hput: "map_of (hput k v h) k' = (if k' = k then Some [v] else map_of h k')"
  by (simp add: hput_def update_conv)

lemma map_of_hput_nonempty: "map_of (hput_nonempty k v h) k' = (if k' = k \<and> v \<noteq> '''' then Some [v] else map_of h k')"
  by (simp add: hput_nonempty_def map_of_hput)

lemma fold_hput_nonempty:
  "k \<notin> set ks \<Longrightarrow> map_of (fold (\<lambda>k. hput_nonempty k (f k)) ks h) k = map_of h k"
  by (induction ks arbitrary: h) (auto simp: map_of_hput_nonempty)

definition owned_names :: "string list" where
  "owned_names = [''Authorization'', ''X-Kilocode-Organizationid'', ''Accept'', ''Content-Type'', ''User-Agent'', ''Http-Referer'', ''X-Title'',
     ''X-Kilocode-Editorname'']"

lemma owned_not_forwarded: "list_all (\<lambda>k. k \<notin> set kilo_forwarded \<and> k \<noteq> ''X-Kilocode-Projectid'') owned_names"
  by code_simp

text \<open>Whatever the client sends, the headers the router owns are its own.\<close>

lemma client_headers_ignored:
  assumes "k \<in> set owned_names"
  shows "map_of (setHeaders env cfg (Some hdr)) k = map_of (own_headers env cfg) k"
proof -
  have k: "k \<notin> set kilo_forwarded" "k \<noteq> ''X-Kilocode-Projectid''" using owned_not_forwarded assms unfolding list_all_iff by blast+
  have own: "map_of (own_headers env cfg) ''X-Kilocode-Organizationid'' = Some [organizationID env cfg]" if "organizationID env cfg \<noteq> ''''"
    using that by (simp only: own_headers_def Let_def map_of_hput_nonempty simp_thms if_True HOL.refl)
  show ?thesis
  proof (cases "organizationID env cfg = ''''")
    case True
    show ?thesis unfolding setHeaders_def option.case Let_def if_P [OF True] by (rule fold_hput_nonempty [OF k(1)])
  next
    case False
    have "map_of (setHeaders env cfg (Some hdr)) k
        = (if k = ''X-Kilocode-Organizationid'' then Some [organizationID env cfg] else map_of (own_headers env cfg) k)"
      unfolding setHeaders_def option.case Let_def if_not_P [OF False] map_of_hput_nonempty map_of_hput fold_hput_nonempty [OF k(1)]
      using k(2) by (simp only: simp_thms if_False)
    then show ?thesis using own [OF False] by (cases "k = ''X-Kilocode-Organizationid''") (simp_all only: if_True if_False simp_thms)
  qed
qed

lemma authorization_sent:
  "map_of (setHeaders env cfg client) ''Authorization'' = (if apiKey env cfg = '''' then None else Some [''Bearer '' @ apiKey env cfg])"
proof -
  have own: "map_of (own_headers env cfg) ''Authorization'' = (if apiKey env cfg = '''' then None else Some [''Bearer '' @ apiKey env cfg])"
    by (simp add: own_headers_def Let_def map_of_hput_nonempty map_of_hput)
  have name: "''Authorization'' \<in> set owned_names" by (simp add: owned_names_def)
  show ?thesis
  proof (cases client)
    case None
    show ?thesis unfolding None setHeaders_def option.case by (rule own)
  next
    case (Some hdr)
    show ?thesis unfolding Some client_headers_ignored [OF name] by (rule own)
  qed
qed

section \<open>Anonymous mode\<close>

text \<open>The models the upstream has named free in the discovery answers of a run.\<close>

definition discovery_payload :: "kilo_env \<Rightarrow> kilo_io \<Rightarrow> kilo_model list" where
  "discovery_payload env io =
     (case kq_discovery io of
        Inl _ \<Rightarrow> []
      | Inr r \<Rightarrow> (case decode_data (ke_adapter env) kilo_response_value [] (limited_body r) of None \<Rightarrow> [] | Some payload \<Rightarrow> payload))"

fun named_free :: "kilo_env \<Rightarrow> kilo_call \<Rightarrow> string set" where
  "named_free env (KiloList io) = set (free_ids env (kept_items env '''' (discovery_payload env io)))"
| "named_free env c = {}"

definition free_for :: "string set \<Rightarrow> string \<Rightarrow> bool" where
  "free_for named m \<longleftrightarrow> isAnonymousKiloModel m \<or> to_lower (trim_space m) \<in> insert kiloAutoFreeModel named"

definition anonymous_sent :: "kilo_env \<Rightarrow> kilo_provider \<Rightarrow> string set \<Rightarrow> sent_request \<Rightarrow> bool" where
  "anonymous_sent env cfg named r \<longleftrightarrow>
     map_of (sr_Header r) ''Authorization'' = None
     \<and> (\<exists>base. baseURL env cfg = Inr base
         \<and> (sr_URL r = base @ ''/models''
            \<or> sr_URL r \<in> {base @ ''/chat/completions'', base @ ''/responses''} \<and> free_for named (ExtractModel (ae_codec (ke_adapter env)) (sr_Body r))))"

definition listed_ok :: "kilo_state \<Rightarrow> model_list \<Rightarrow> bool" where
  "listed_ok st ml \<longleftrightarrow> (\<forall>m \<in> set (ml_Data ml). mo_ID m \<noteq> '''' \<and> allowsAnonymousModel st (mo_ID m))"

definition kilo_inv :: "kilo_env \<Rightarrow> kilo_provider \<Rightarrow> string set \<Rightarrow> kilo_state \<Rightarrow> bool" where
  "kilo_inv env cfg named st \<longleftrightarrow>
     set (kl_free st) \<subseteq> insert kiloAutoFreeModel named \<and> list_all (anonymous_sent env cfg named) (kl_sent st)
     \<and> (\<forall>ml. mc_data (kl_cache st) = Some ml \<longrightarrow> listed_ok st ml)"

lemma anonymous_sent_mono: "anonymous_sent env cfg named r \<Longrightarrow> named \<subseteq> named' \<Longrightarrow> anonymous_sent env cfg named' r"
  unfolding anonymous_sent_def free_for_def by blast

lemma kilo_inv_mono: "kilo_inv env cfg named st \<Longrightarrow> named \<subseteq> named' \<Longrightarrow> kilo_inv env cfg named' st"
  unfolding kilo_inv_def list_all_iff by (blast intro: anonymous_sent_mono)

lemma kilo_inv_new: "kilo_inv env cfg {} (NewKiloProvider timeout)"
  by (simp add: kilo_inv_def NewKiloProvider_def NewModelCache_def)

lemma auto_free: "to_lower (trim_space kiloAutoFreeModel) = kiloAutoFreeModel" "kiloAutoFreeModel \<noteq> ''''"
  by code_simp+

text \<open>What discovery lists without a key is allowed afterwards.\<close>

lemma discovered_listed:
  assumes "apiKey env cfg = ''''" and "kl_free st = free_ids env kept" and "kept = kept_items env '''' payload"
  shows "listed_ok st (filterDiscoveredModels \<lparr>ml_Object = ob, ml_Data = discovered_list env cfg now kept\<rparr> allowed)"
proof -
  have kept: "km_ID item \<noteq> '''' \<and> allowsAnonymousModel st (km_ID item)" if "item \<in> set kept" for item
  proof -
    from that obtain raw where item: "item = raw\<lparr>km_ID := trim_space (km_ID raw)\<rparr>" and ok: "km_ID item \<noteq> ''''" "isFreeKiloCatalogModel env item"
      unfolding assms(3) kept_items_def by auto
    then have "to_lower (trim_space (km_ID item)) \<in> set (kl_free st)"
      using that unfolding assms(2) free_ids_def by (force simp: item)
    then show ?thesis using ok unfolding allowsAnonymousModel_def by blast
  qed
  have auto: "allowsAnonymousModel st kiloAutoFreeModel" by (simp add: allowsAnonymousModel_def isAnonymousKiloModel_def Let_def auto_free)
  have "mo_ID m \<noteq> '''' \<and> allowsAnonymousModel st (mo_ID m)" if "m \<in> set (discovered_list env cfg now kept)" for m
    using that kept auto auto_free(2) by (auto simp: discovered_list_def discovered_model_def Let_def split: if_splits)
  then show ?thesis by (simp add: listed_ok_def filterDiscoveredModels_def)
qed

lemma fetch_models:
  assumes "apiKey env cfg = ''''" and "fetchModels env cfg io st = (out, st')"
  shows "kl_cache st' = kl_cache st \<and> (kl_sent st' = kl_sent st \<or> (\<exists>base. baseURL env cfg = Inr base
        \<and> kl_sent st' = kl_sent st @ [\<lparr>sr_URL = base @ ''/models'', sr_Header = setHeaders env cfg None, sr_Body = ''''\<rparr>]))
    \<and> (case out of Inl e \<Rightarrow> kl_free st' = kl_free st
       | Inr ml \<Rightarrow> kl_free st' = free_ids env (kept_items env '''' (discovery_payload env io)) \<and> listed_ok st' ml)"
proof (cases "baseURL env cfg")
  case (Inr base)
  show ?thesis
  proof (cases "kq_bad_url io (base @ ''/models'')")
    case None
    show ?thesis
    proof (cases "kq_discovery io")
      case d: (Inr r)
      let ?dec = "decode_data (ke_adapter env) kilo_response_value [] (limited_body r)"
      show ?thesis
      proof (cases "hr_StatusCode r < 200 \<or> hr_StatusCode r \<ge> 300 \<or> hr_ReadErr r \<noteq> None \<and> int (length (hr_Body r)) < catalogLimit \<or> ?dec = None")
        case True
        then show ?thesis using assms(2) Inr None d by (auto simp: fetchModels_def log_sent_def Let_def split: if_splits option.splits)
      next
        case False
        then obtain payload where p: "?dec = Some payload" and c: "\<not> (hr_StatusCode r < 200 \<or> hr_StatusCode r \<ge> 300)"
          "\<not> (hr_ReadErr r \<noteq> None \<and> int (length (hr_Body r)) < catalogLimit)" by blast
        have dp: "discovery_payload env io = payload" by (simp add: discovery_payload_def d p)
        show ?thesis using assms(2)
          unfolding fetchModels_def Inr d p sum.case None option.case Let_def if_not_P [OF c(1)] if_not_P [OF c(2)] assms(1) if_P [OF refl] dp
          by (auto simp: log_sent_def replaceFreeModels_def discovered_listed [OF assms(1) _ refl])
      qed
    qed (use assms(2) Inr None in \<open>auto simp: fetchModels_def log_sent_def Let_def\<close>)
  qed (use assms(2) Inr in \<open>auto simp: fetchModels_def\<close>)
qed (use assms(2) in \<open>auto simp: fetchModels_def\<close>)

lemma listed_ok_free: "kl_free st' = kl_free st \<Longrightarrow> listed_ok st' ml = listed_ok st ml"
  by (simp add: listed_ok_def allowsAnonymousModel_def)

lemma list_models_inv:
  assumes inv: "kilo_inv env cfg named st" and key: "apiKey env cfg = ''''" and run: "Kilo_ListModels env cfg io st = (out, st')"
  shows "kilo_inv env cfg (named \<union> named_free env (KiloList io)) st' \<and> (\<forall>ml. out = Inr ml \<longrightarrow> listed_ok st' ml)"
proof -
  let ?named = "named \<union> named_free env (KiloList io)"
  have inv': "kilo_inv env cfg ?named st" using inv kilo_inv_mono by blast
  obtain first before after where t: "kq_cache_times io = (first, before, after)" by (metis prod_cases3)
  obtain res s where f: "fetchModels env cfg io st = (res, s)" by fastforce
  have auth: "anonymous_sent env cfg ?named \<lparr>sr_URL = base @ ''/models'', sr_Header = setHeaders env cfg None, sr_Body = ''''\<rparr>"
    if "baseURL env cfg = Inr base" for base using that key unfolding anonymous_sent_def by (simp add: authorization_sent)
  have sent: "list_all (anonymous_sent env cfg ?named) (kl_sent s)"
    using fetch_models [OF key f] inv' auth by (auto simp: kilo_inv_def)
  have cached: "\<forall>ml. mc_data (kl_cache st) = Some ml \<longrightarrow> listed_ok st ml" using inv by (simp add: kilo_inv_def)
  have hit: ?thesis if "out = Inr ml" "st' = st" "mc_Get now (kl_cache st) = Some ml" for ml now
    using that inv' cached by (auto simp: mc_Get_def split: if_splits)
  have failed: ?thesis if "res = Inl e" "out = Inl e" "st' = s" for e
    using that fetch_models [OF key f] sent inv' listed_ok_free [of s st] by (auto simp: kilo_inv_def)
  have fetched: ?thesis if "res = Inr ml" "out = Inr ml" "st' = s\<lparr>kl_cache := mc_Set after ml (kl_cache s)\<rparr>" for ml
    using that fetch_models [OF key f] sent listed_ok_free [of st' s] by (auto simp: kilo_inv_def mc_Set_def)
  consider e where "out = Inl e" "st' = st" | ml now where "out = Inr ml" "st' = st" "mc_Get now (kl_cache st) = Some ml"
    | e where "res = Inl e" "out = Inl e" "st' = s" | ml where "res = Inr ml" "out = Inr ml" "st' = s\<lparr>kl_cache := mc_Set after ml (kl_cache s)\<rparr>"
    using run f by (auto simp: Kilo_ListModels_def t GetOrFetch_def fetch_locked_def split: option.splits sum.splits)
  then show ?thesis by cases (use inv' hit failed fetched in auto)
qed

lemma send_logged:
  "\<exists>new. kl_sent (fst (snd (kilo_send env cfg io ops hdr body cap st w))) = kl_sent st @ new
     \<and> (new = [] \<or> (\<exists>base. baseURL env cfg = Inr base
           \<and> new = [\<lparr>sr_URL = base @ kilo_path cap, sr_Header = setHeaders env cfg (Some hdr), sr_Body = body\<rparr>]))
     \<and> kl_cache (fst (snd (kilo_send env cfg io ops hdr body cap st w))) = kl_cache st
     \<and> kl_free (fst (snd (kilo_send env cfg io ops hdr body cap st w))) = kl_free st"
  by (auto simp: kilo_send_def log_sent_def Let_def split: sum.split option.split prod.split)

text \<open>A request either stays away from the upstream, or its model passed the check.\<close>

lemma proxy_logged:
  assumes "Kilo_ProxyRequest env cfg io ops hdr body cap st w = (res, st', w')"
  shows "\<exists>new. kl_sent st' = kl_sent st @ new \<and> kl_cache st' = kl_cache st \<and> kl_free st' = kl_free st
     \<and> (new = [] \<or> (apiKey env cfg = '''' \<longrightarrow> allowsAnonymousModel st (ExtractModel (ae_codec (ke_adapter env)) body))
         \<and> (\<exists>base. baseURL env cfg = Inr base
           \<and> new = [\<lparr>sr_URL = base @ kilo_path cap, sr_Header = setHeaders env cfg (Some hdr), sr_Body = body\<rparr>]))"
proof -
  have sent: "\<exists>new. kl_sent st' = kl_sent st @ new \<and> kl_cache st' = kl_cache st \<and> kl_free st' = kl_free st
     \<and> (new = [] \<or> (\<exists>base. baseURL env cfg = Inr base
           \<and> new = [\<lparr>sr_URL = base @ kilo_path cap, sr_Header = setHeaders env cfg (Some hdr), sr_Body = body\<rparr>]))"
    if "kilo_send env cfg io ops hdr body cap (st\<lparr>kl_breaker := cb\<rparr>) w = (res, st', w')" for cb
    using send_logged [of env cfg io ops hdr body cap "st\<lparr>kl_breaker := cb\<rparr>" w] unfolding that by auto
  from assms consider "\<exists>cb. st' = st \<or> st' = st\<lparr>kl_breaker := cb\<rparr>"
    | cb where "apiKey env cfg = '''' \<longrightarrow> allowsAnonymousModel st (ExtractModel (ae_codec (ke_adapter env)) body)"
        "kilo_send env cfg io ops hdr body cap (st\<lparr>kl_breaker := cb\<rparr>) w = (res, st', w')"
    by (auto simp: Kilo_ProxyRequest_def Let_def split: option.splits if_splits prod.splits bool.splits)
  then show ?thesis
  proof cases
    case 2
    from sent [OF 2(2)] 2(1) show ?thesis by blast
  qed auto
qed

lemma kilo_step_inv:
  assumes inv: "kilo_inv env cfg named st" and key: "apiKey env cfg = ''''" and run: "kilo_step env cfg ops c (st, w) = (st', w')"
  shows "kilo_inv env cfg (named \<union> named_free env c) st'"
proof (cases c)
  case (KiloList io)
  obtain out s where l: "Kilo_ListModels env cfg io st = (out, s)" by fastforce
  then show ?thesis using list_models_inv [OF inv key l] run KiloList by simp
next
  case (KiloProxy io hdr body cap)
  obtain res where p: "Kilo_ProxyRequest env cfg io ops hdr body cap st w = (res, st', w')"
    using run KiloProxy by (metis kilo_step.simps(2) prod.collapse)
  have free: "free_for named (ExtractModel (ae_codec (ke_adapter env)) body)"
    if "allowsAnonymousModel st (ExtractModel (ae_codec (ke_adapter env)) body)"
    using that inv unfolding allowsAnonymousModel_def free_for_def kilo_inv_def by blast
  have "kilo_path cap = ''/chat/completions'' \<or> kilo_path cap = ''/responses''" by (simp add: kilo_path_def)
  then have "anonymous_sent env cfg named \<lparr>sr_URL = base @ kilo_path cap, sr_Header = setHeaders env cfg (Some hdr), sr_Body = body\<rparr>"
    if "baseURL env cfg = Inr base" "allowsAnonymousModel st (ExtractModel (ae_codec (ke_adapter env)) body)" for base
    using that key free unfolding anonymous_sent_def by (auto simp: authorization_sent)
  then have "kilo_inv env cfg named st'"
    using proxy_logged [OF p] inv key listed_ok_free [of st' st] unfolding kilo_inv_def by auto
  then show ?thesis using KiloProxy by simp
next
  case KiloInvalidate
  then show ?thesis using run inv by (auto simp: kilo_inv_def Kilo_InvalidateModelCache_def replaceFreeModels_def mc_Invalidate_def)
qed

lemma kilo_run_inv:
  assumes "apiKey env cfg = ''''" and "kilo_inv env cfg named st" and "fold (kilo_step env cfg ops) calls (st, w) = (st', w')"
  shows "kilo_inv env cfg (named \<union> (\<Union>c \<in> set calls. named_free env c)) st'"
  using assms(2,3)
proof (induction calls arbitrary: named st w)
  case (Cons c calls)
  obtain s v where step: "kilo_step env cfg ops c (st, w) = (s, v)" by fastforce
  have "kilo_inv env cfg (named \<union> named_free env c) s" by (rule kilo_step_inv [OF Cons.prems(1) assms(1) step])
  from Cons.IH [OF this] show ?case using Cons.prems(2) step by (simp add: Un_assoc)
qed simp

text \<open>C22: without an API key only free models are requested. In every run of the provider, every
  request that left it went to the configured gateway without a credential, either for the model
  list or for a model that is free by its name or that the gateway itself had named free, whatever
  clients ask for and whatever the gateway answers.\<close>

theorem kilo_anonymous_free:
  assumes "apiKey env cfg = ''''" and "fold (kilo_step env cfg ops) calls (NewKiloProvider timeout, w) = (st, w')"
  shows "list_all (anonymous_sent env cfg (\<Union>c \<in> set calls. named_free env c)) (kl_sent st)"
  using kilo_run_inv [OF assms(1) kilo_inv_new assms(2)] by (simp add: kilo_inv_def)

lemma send_reported:
  assumes "\<forall>url. kq_bad_url io url = None" and "baseURL env cfg = Inr base"
  shows "\<not> cb_probeInFlight (kl_breaker (fst (snd (kilo_send env cfg io ops hdr body cap st w))))
    \<and> kl_sent (fst (snd (kilo_send env cfg io ops hdr body cap st w)))
        = kl_sent st @ [\<lparr>sr_URL = base @ kilo_path cap, sr_Header = setHeaders env cfg (Some hdr), sr_Body = body\<rparr>]"
proof -
  have "\<not> cb_probeInFlight (onFailure now cb)" "\<not> cb_probeInFlight (onSuccess cb)" for now cb
    by (simp_all add: onFailure_def onSuccess_def Let_def)
  then show ?thesis using assms by (auto simp: kilo_send_def log_sent_def Let_def split: sum.split prod.split)
qed

lemma authenticated_url: "Kilo_EnsureAuthenticated env cfg = None \<Longrightarrow> \<exists>base. baseURL env cfg = Inr base"
  by (auto simp: Kilo_EnsureAuthenticated_def split: sum.splits)


text \<open>Invalidation first clears the cache and then resets the free models. A listing in between
  leaves a cached catalog whose free models are refused until it expires.\<close>

definition listed_between :: "kilo_env \<Rightarrow> kilo_provider \<Rightarrow> kilo_io \<Rightarrow> kilo_state \<Rightarrow> kilo_state" where
  "listed_between env cfg io st =
     replaceFreeModels [kiloAutoFreeModel] (snd (Kilo_ListModels env cfg io (st\<lparr>kl_cache := mc_Invalidate (kl_cache st)\<rparr>)))"

section \<open>A sample gateway\<close>

definition sample_kilo_adapter :: adapter_env where
  "sample_kilo_adapter = \<lparr>ae_codec = \<lparr>jc_decode = (\<lambda>s. if s = ''models'' then Some (JObj [(''data'', JArr [
         JObj [(''id'', JStr '' Acme/Free ''), (''isFree'', JBool True)], JObj [(''id'', JStr ''acme/paid'')]])])
       else if s = ''req'' then Some (JObj [(''model'', JStr ''Acme/Free'')]) else None), jc_encode = (\<lambda>j. None)\<rparr>,
     ae_float64 = Some, ae_int64 = (\<lambda>t. 0), ae_raw_text = (\<lambda>j. ''{}'')\<rparr>"

definition sample_kilo :: kilo_env where
  "sample_kilo = \<lparr>ke_controller = None, ke_getenv = (\<lambda>name. ''''),
     ke_parse = (\<lambda>s. Some \<lparr>pu_Scheme = ''https'', pu_User = False, pu_Host = ''h'', pu_Hostname = ''h'', pu_Path = ''/p/'', pu_RawQuery = '''', pu_Fragment = ''''\<rparr>),
     ke_print = (\<lambda>u. pu_Scheme u @ ''://'' @ pu_Host u @ pu_Path u), ke_parse_float_zero = (\<lambda>s. False), ke_adapter = sample_kilo_adapter, ke_version = ''1''\<rparr>"

definition sample_kilo_config :: kilo_provider where
  "sample_kilo_config = \<lparr>kp_enabled = True, kp_allow_anonymous = True, kp_api_key = '''', kp_api_key_ref = None, kp_organization_id = '''',
     kp_organization_id_ref = None, kp_base_url = '''', kp_allowed_models = None\<rparr>"

definition sample_kilo_io :: kilo_io where
  "sample_kilo_io = \<lparr>kq_bad_url = (\<lambda>url. None),
     kq_discovery = Inr \<lparr>hr_StatusCode = 200, hr_Header = [], hr_Pieces = [''models''], hr_ReadErr = None\<rparr>,
     kq_upstream = \<lparr>up_new_request = (\<lambda>_. None), up_send = (\<lambda>n. Inr 200), up_cancelled = (\<lambda>_. None)\<rparr>,
     kq_response = \<lparr>hr_StatusCode = 200, hr_Header = [], hr_Pieces = [], hr_ReadErr = None\<rparr>,
     kq_unix = 5, kq_cache_times = (1000, 1000, 1000), kq_breaker_now = 1000, kq_outcome_now = 1000\<rparr>"

definition sample_kilo_run :: "kilo_state \<times> response_wrapper" where
  "sample_kilo_run = fold (kilo_step sample_kilo sample_kilo_config wrapper_ops) [KiloList sample_kilo_io, KiloProxy sample_kilo_io [] ''req'' CapabilityChat]
     (NewKiloProvider 1, fresh_wrapper)"

theorem kilo_anonymous_free_witness:
  "map sr_URL (kl_sent (fst sample_kilo_run)) = [''https://h/p/models'', ''https://h/p/chat/completions'']
   \<and> list_all (anonymous_sent sample_kilo sample_kilo_config
       (\<Union>c \<in> set [KiloList sample_kilo_io, KiloProxy sample_kilo_io [] ''req'' CapabilityChat]. named_free sample_kilo c)) (kl_sent (fst sample_kilo_run))"
proof -
  have key: "apiKey sample_kilo sample_kilo_config = ''''" by code_simp
  have run: "fold (kilo_step sample_kilo sample_kilo_config wrapper_ops) [KiloList sample_kilo_io, KiloProxy sample_kilo_io [] ''req'' CapabilityChat]
     (NewKiloProvider 1, fresh_wrapper) = (fst sample_kilo_run, snd sample_kilo_run)" by (simp only: sample_kilo_run_def prod.collapse)
  have "map sr_URL (kl_sent (fst sample_kilo_run)) = [''https://h/p/models'', ''https://h/p/chat/completions'']" by code_simp
  then show ?thesis using kilo_anonymous_free [OF key run] by (rule conjI)
qed


lemma invalidation_race:
  "let st = listed_between sample_kilo sample_kilo_config sample_kilo_io (NewKiloProvider 1) in
     map mo_ID (ml_Data (the (mc_data (kl_cache st)))) = [''Acme/Free'', ''kilo-auto/free'']
     \<and> fst (Kilo_ProxyRequest sample_kilo sample_kilo_config sample_kilo_io wrapper_ops [] ''req'' CapabilityChat st fresh_wrapper)
         = Returned (Some (newProviderError ProviderErrorAuthRequired 401 ''Kilo model requires KILO_API_KEY''))"
  by code_simp

end
