(* ===== verification/Anthropic_Translate.thy ===== *)
theory Anthropic_Translate
  imports Json_Decode
begin

text \<open>
  Requests of the Anthropic Messages API as requests of the Responses API
  (\<open>src/anthropic_types.go\<close>, \<open>src/anthropic_translate.go\<close>, \<open>src/anthropic_options.go\<close>). A raw value taken out
  of a parsed document is valid JSON, so the checks of \<open>json.Valid\<close> on raw values are the check
  that the member is there.
\<close>

section \<open>Types\<close>

definition anthropicRequestLimit :: int where
  "anthropicRequestLimit = 5 * 1024 * 1024"

definition anthropicToolSchemaLimit :: int where
  "anthropicToolSchemaLimit = 256 * 1024"

record anthropic_translated =
  tr_Model :: string
  tr_Body :: string
  tr_Stream :: bool

record anthropic_image =
  im_Type :: string
  im_MediaType :: string
  im_Data :: string

record anthropic_block =
  cb_Type :: string
  cb_Text :: string
  cb_ID :: string
  cb_Name :: string
  cb_Input :: "json option"
  cb_ToolUseID :: string
  cb_Content :: "json option"
  cb_IsError :: bool
  cb_Source :: "anthropic_image option"

record anthropic_message =
  am_Role :: string
  am_Content :: "json option"

record anthropic_tool =
  tl_Name :: string
  tl_Description :: string
  tl_InputSchema :: "json option"

record anthropic_output_config =
  oc_Effort :: string
  oc_Format :: "json option"

record anthropic_request =
  ar_Model :: string
  ar_System :: "json option"
  ar_Messages :: "anthropic_message list"
  ar_MaxTokens :: int
  ar_Tools :: "anthropic_tool list"
  ar_ToolChoice :: "json option"
  ar_OutputConfig :: anthropic_output_config
  ar_Thinking :: string
  ar_Metadata :: "json option"
  ar_Stream :: bool
  ar_Temperature :: "string option"
  ar_TopP :: "string option"

definition zero_image :: anthropic_image where
  "zero_image = \<lparr>im_Type = '''', im_MediaType = '''', im_Data = ''''\<rparr>"

definition image_value :: "anthropic_image setter" where
  "image_value = struct_value
     [(''type'', string_value (\<lambda>v s. s\<lparr>im_Type := v\<rparr>)), (''media_type'', string_value (\<lambda>v s. s\<lparr>im_MediaType := v\<rparr>)),
      (''data'', string_value (\<lambda>v s. s\<lparr>im_Data := v\<rparr>))]"

definition zero_block :: anthropic_block where
  "zero_block = \<lparr>cb_Type = '''', cb_Text = '''', cb_ID = '''', cb_Name = '''', cb_Input = None, cb_ToolUseID = '''',
     cb_Content = None, cb_IsError = False, cb_Source = None\<rparr>"

definition block_value :: "anthropic_block setter" where
  "block_value = struct_value
     [(''type'', string_value (\<lambda>v s. s\<lparr>cb_Type := v\<rparr>)), (''text'', string_value (\<lambda>v s. s\<lparr>cb_Text := v\<rparr>)),
      (''id'', string_value (\<lambda>v s. s\<lparr>cb_ID := v\<rparr>)), (''name'', string_value (\<lambda>v s. s\<lparr>cb_Name := v\<rparr>)),
      (''input'', raw_value (\<lambda>v s. s\<lparr>cb_Input := Some v\<rparr>)), (''tool_use_id'', string_value (\<lambda>v s. s\<lparr>cb_ToolUseID := v\<rparr>)),
      (''content'', raw_value (\<lambda>v s. s\<lparr>cb_Content := Some v\<rparr>)), (''is_error'', bool_value (\<lambda>v s. s\<lparr>cb_IsError := v\<rparr>)),
      (''source'', pointer_value cb_Source (\<lambda>v s. s\<lparr>cb_Source := v\<rparr>) zero_image image_value)]"

definition message_value :: "anthropic_message setter" where
  "message_value = struct_value
     [(''role'', string_value (\<lambda>v s. s\<lparr>am_Role := v\<rparr>)), (''content'', raw_value (\<lambda>v s. s\<lparr>am_Content := Some v\<rparr>))]"

definition tool_value :: "anthropic_tool setter" where
  "tool_value = struct_value
     [(''name'', string_value (\<lambda>v s. s\<lparr>tl_Name := v\<rparr>)), (''description'', string_value (\<lambda>v s. s\<lparr>tl_Description := v\<rparr>)),
      (''input_schema'', raw_value (\<lambda>v s. s\<lparr>tl_InputSchema := Some v\<rparr>))]"

definition output_config_value :: "anthropic_output_config setter" where
  "output_config_value = struct_value
     [(''effort'', string_value (\<lambda>v s. s\<lparr>oc_Effort := v\<rparr>)), (''format'', raw_value (\<lambda>v s. s\<lparr>oc_Format := Some v\<rparr>))]"

definition zero_request :: anthropic_request where
  "zero_request = \<lparr>ar_Model = '''', ar_System = None, ar_Messages = [], ar_MaxTokens = 0, ar_Tools = [], ar_ToolChoice = None,
     ar_OutputConfig = \<lparr>oc_Effort = '''', oc_Format = None\<rparr>, ar_Thinking = '''', ar_Metadata = None, ar_Stream = False,
     ar_Temperature = None, ar_TopP = None\<rparr>"

definition request_value :: "(string \<Rightarrow> string option) \<Rightarrow> anthropic_request setter" where
  "request_value float64 = struct_value
     [(''model'', string_value (\<lambda>v s. s\<lparr>ar_Model := v\<rparr>)), (''system'', raw_value (\<lambda>v s. s\<lparr>ar_System := Some v\<rparr>)),
      (''messages'', list_value (\<lambda>v s. s\<lparr>ar_Messages := v\<rparr>) \<lparr>am_Role = '''', am_Content = None\<rparr> message_value),
      (''max_tokens'', int_value (\<lambda>v s. s\<lparr>ar_MaxTokens := v\<rparr>)),
      (''tools'', list_value (\<lambda>v s. s\<lparr>ar_Tools := v\<rparr>) \<lparr>tl_Name = '''', tl_Description = '''', tl_InputSchema = None\<rparr> tool_value),
      (''tool_choice'', raw_value (\<lambda>v s. s\<lparr>ar_ToolChoice := Some v\<rparr>)),
      (''output_config'', nested_value ar_OutputConfig (\<lambda>v s. s\<lparr>ar_OutputConfig := v\<rparr>) output_config_value),
      (''thinking'', nested_value ar_Thinking (\<lambda>v s. s\<lparr>ar_Thinking := v\<rparr>) (struct_value [(''type'', string_value (\<lambda>v s. v))])),
      (''metadata'', raw_value (\<lambda>v s. s\<lparr>ar_Metadata := Some v\<rparr>)), (''stream'', bool_value (\<lambda>v s. s\<lparr>ar_Stream := v\<rparr>)),
      (''temperature'', number_pointer float64 (\<lambda>v s. s\<lparr>ar_Temperature := v\<rparr>)),
      (''top_p'', number_pointer float64 (\<lambda>v s. s\<lparr>ar_TopP := v\<rparr>))]"

section \<open>Errors\<close>

datatype translate_error =
    RequestUnparsed
  | UnsupportedField string
  | RequestUndecoded
  | ModelRequired
  | MaxTokensNotPositive
  | SystemNotText
  | SystemBlockType string
  | MessagesEmpty
  | RoleUnsupported string
  | ContentNotBlocks
  | ImageNotBase64Source
  | ImageDataInvalid
  | ToolUseIncomplete
  | ToolResultIncomplete
  | ToolResultIsError
  | ToolResultNotText
  | BlockUnsupported string
  | ToolInvalid
  | ToolChoiceUnparsed
  | ToolChoiceUnnamed
  | ToolChoiceUnsupported string
  | EffortUnsupported string
  | FormatUnparsed
  | FormatSchemaMissing
  | FormatUnsupported string
  | ThinkingUnsupported string
  | RequestUnencoded

section \<open>Content\<close>

definition anthropicAllowedFields :: "string list" where
  "anthropicAllowedFields = [''max_tokens'', ''messages'', ''metadata'', ''model'', ''output_config'', ''stream'', ''system'',
     ''temperature'', ''thinking'', ''tool_choice'', ''tools'', ''top_p'']"

text \<open>\<open>[]anthropicContentBlock\<close> out of a raw value.\<close>

definition decode_blocks :: "json option \<Rightarrow> anthropic_block list option" where
  "decode_blocks value = Option.bind value (decode_list zero_block block_value)"

definition text_blocks :: "(string \<Rightarrow> translate_error) \<Rightarrow> anthropic_block list \<Rightarrow> translate_error + string list" where
  "text_blocks err bs = map_result (\<lambda>b. if cb_Type b \<noteq> ''text'' then Inl (err (cb_Type b)) else Inr (cb_Text b)) bs"

definition newline_text :: string where
  "newline_text = [newline]"

definition translateAnthropicSystem :: "json option \<Rightarrow> translate_error + string" where
  "translateAnthropicSystem value =
     (if \<not> raw_given value then Inr ''''
      else case raw_string value of
        Some text \<Rightarrow> Inr text
      | None \<Rightarrow>
          (case decode_blocks value of None \<Rightarrow> Inl SystemNotText
           | Some bs \<Rightarrow> sum_bind (text_blocks SystemBlockType bs) (\<lambda>parts. Inr (join newline_text parts))))"

definition text_block :: "string \<Rightarrow> anthropic_block" where
  "text_block text = zero_block\<lparr>cb_Type := ''text'', cb_Text := text\<rparr>"

definition decodeAnthropicContent :: "json option \<Rightarrow> translate_error + anthropic_block list" where
  "decodeAnthropicContent value =
     (case raw_string value of
        Some text \<Rightarrow> Inr [text_block text]
      | None \<Rightarrow> (case decode_blocks value of None \<Rightarrow> Inl ContentNotBlocks | Some bs \<Rightarrow> Inr bs))"

definition anthropicTextContent :: "json option \<Rightarrow> translate_error + string" where
  "anthropicTextContent value =
     (case raw_string value of
        Some text \<Rightarrow> Inr text
      | None \<Rightarrow> sum_bind (decodeAnthropicContent value)
          (\<lambda>bs. sum_bind (text_blocks (\<lambda>_. ToolResultNotText) bs) (\<lambda>parts. Inr (join newline_text parts))))"

text \<open>Standard base64: the alphabet, up to two padding characters, groups of four; line breaks are
  skipped.\<close>

definition base64_char :: "char \<Rightarrow> bool" where
  "base64_char c \<longleftrightarrow> (let n = (of_char c :: nat) in
     (65 \<le> n \<and> n \<le> 90) \<or> (97 \<le> n \<and> n \<le> 122) \<or> (48 \<le> n \<and> n \<le> 57) \<or> c = CHR ''+'' \<or> c = CHR ''/'')"

definition base64_valid :: "string \<Rightarrow> bool" where
  "base64_valid s =
     (let t = filter (\<lambda>c. c \<noteq> CHR 0x0D \<and> c \<noteq> newline) s;
          body = takeWhile (\<lambda>c. c \<noteq> CHR ''='') t; pad = dropWhile (\<lambda>c. c \<noteq> CHR ''='') t
      in length t mod 4 = 0 \<and> list_all base64_char body \<and> list_all (\<lambda>c. c = CHR ''='') pad \<and> length pad \<le> 2)"

definition role_item :: "string \<Rightarrow> (string \<times> json) list \<Rightarrow> json" where
  "role_item role part = JObj [(''role'', JStr role), (''content'', JArr [JObj part])]"

definition translateAnthropicBlock :: "adapter_env \<Rightarrow> string \<Rightarrow> anthropic_block \<Rightarrow> translate_error + json" where
  "translateAnthropicBlock env role block =
     (if cb_Type block = ''text'' then Inr (role_item role [(''type'', JStr ''input_text''), (''text'', JStr (cb_Text block))])
      else if cb_Type block = ''image'' then
        (case cb_Source block of None \<Rightarrow> Inl ImageNotBase64Source
         | Some source \<Rightarrow>
             if im_Type source \<noteq> ''base64'' \<or> im_MediaType source = '''' \<or> im_Data source = '''' then Inl ImageNotBase64Source
             else if \<not> base64_valid (im_Data source) then Inl ImageDataInvalid
             else Inr (role_item role [(''type'', JStr ''input_image''),
                    (''image_url'', JStr (''data:'' @ im_MediaType source @ '';base64,'' @ im_Data source))]))
      else if cb_Type block = ''tool_use'' then
        (if role \<noteq> ''assistant'' \<or> cb_ID block = '''' \<or> cb_Name block = '''' then Inl ToolUseIncomplete
         else case cb_Input block of None \<Rightarrow> Inl ToolUseIncomplete
         | Some input \<Rightarrow> Inr (JObj [(''type'', JStr ''function_call''), (''call_id'', JStr (cb_ID block)),
              (''name'', JStr (cb_Name block)), (''arguments'', JStr (ae_raw_text env input))]))
      else if cb_Type block = ''tool_result'' then
        (if role \<noteq> ''user'' \<or> cb_ToolUseID block = '''' then Inl ToolResultIncomplete
         else if cb_IsError block then Inl ToolResultIsError
         else sum_bind (anthropicTextContent (cb_Content block))
           (\<lambda>output. Inr (JObj [(''type'', JStr ''function_call_output''), (''call_id'', JStr (cb_ToolUseID block)),
              (''output'', JStr output)])))
      else Inl (BlockUnsupported (cb_Type block)))"

definition translate_message :: "adapter_env \<Rightarrow> anthropic_message \<Rightarrow> translate_error + json list" where
  "translate_message env message =
     (if am_Role message \<noteq> ''user'' \<and> am_Role message \<noteq> ''assistant'' then Inl (RoleUnsupported (am_Role message))
      else sum_bind (decodeAnthropicContent (am_Content message)) (map_result (translateAnthropicBlock env (am_Role message))))"

definition translateAnthropicMessages :: "adapter_env \<Rightarrow> anthropic_message list \<Rightarrow> translate_error + json" where
  "translateAnthropicMessages env messages =
     (if messages = [] then Inl MessagesEmpty
      else sum_bind (map_result (translate_message env) messages) (\<lambda>items. Inr (JArr (concat items))))"

section \<open>Options\<close>

definition translate_tool :: "adapter_env \<Rightarrow> anthropic_tool \<Rightarrow> translate_error + json" where
  "translate_tool env tool =
     (case tl_InputSchema tool of None \<Rightarrow> Inl ToolInvalid
      | Some schema \<Rightarrow>
          if tl_Name tool = '''' \<or> int (length (ae_raw_text env schema)) > anthropicToolSchemaLimit then Inl ToolInvalid
          else Inr (JObj ([(''type'', JStr ''function''), (''name'', JStr (tl_Name tool)), (''parameters'', schema)]
                 @ (if tl_Description tool \<noteq> '''' then [(''description'', JStr (tl_Description tool))] else []))))"

definition translateAnthropicTools :: "adapter_env \<Rightarrow> anthropic_tool list \<Rightarrow> translate_error + json" where
  "translateAnthropicTools env tools = sum_bind (map_result (translate_tool env) tools) (\<lambda>items. Inr (JArr items))"

definition translateAnthropicToolChoice :: "json \<Rightarrow> translate_error + json" where
  "translateAnthropicToolChoice value =
     (case struct_value [(''type'', string_value (\<lambda>v (t, n). (v, n))), (''name'', string_value (\<lambda>v (t, n). (t, v)))] value ('''', '''') of
        None \<Rightarrow> Inl ToolChoiceUnparsed
      | Some (ty, name) \<Rightarrow>
          if ty = ''auto'' then Inr (JStr ''auto'')
          else if ty = ''any'' then Inr (JStr ''required'')
          else if ty = ''none'' then Inr (JStr ''none'')
          else if ty = ''tool'' then
            (if name = '''' then Inl ToolChoiceUnnamed
             else Inr (JObj [(''type'', JStr ''function''), (''name'', JStr name)]))
          else Inl (ToolChoiceUnsupported ty))"

definition supportsAnthropicEffort :: "string \<Rightarrow> string \<Rightarrow> bool" where
  "supportsAnthropicEffort model value \<longleftrightarrow>
     value \<in> {''low'', ''medium'', ''high''}
     \<or> (value \<in> {''xhigh'', ''max''} \<and> has_prefix (to_lower model) ''codex/gpt-5'')"

definition translateAnthropicOutputFormat :: "json \<Rightarrow> translate_error + json" where
  "translateAnthropicOutputFormat value =
     (case struct_value [(''type'', string_value (\<lambda>v (t, n). (v, n))), (''schema'', raw_value (\<lambda>v (t, n). (t, Some v)))] value ('''', None) of
        None \<Rightarrow> Inl FormatUnparsed
      | Some (ty, schema) \<Rightarrow>
          if ty = ''text'' then Inr (JObj [(''format'', JObj [(''type'', JStr ''text'')])])
          else if ty = ''json_schema'' then
            (case schema of None \<Rightarrow> Inl FormatSchemaMissing
             | Some sc \<Rightarrow> Inr (JObj [(''format'', JObj [(''type'', JStr ''json_schema''), (''name'', JStr ''anthropic_output''), (''schema'', sc)])]))
          else Inl (FormatUnsupported ty))"

section \<open>The request\<close>

definition optional :: "bool \<Rightarrow> string \<Rightarrow> 'e + json \<Rightarrow> 'e + (string \<times> json) list" where
  "optional given name r = (if given then sum_bind r (\<lambda>j. Inr [(name, j)]) else Inr [])"

definition number_member :: "string \<Rightarrow> string option \<Rightarrow> (string \<times> json) list" where
  "number_member name v = (case v of None \<Rightarrow> [] | Some t \<Rightarrow> [(name, JNum t)])"

text \<open>The decoded document: the fields that are allowed, then the struct.\<close>

definition decode_request :: "adapter_env \<Rightarrow> string \<Rightarrow> translate_error + anthropic_request" where
  "decode_request env body =
     (case Option.bind (jc_decode (ae_codec env) body) unmarshal_object of None \<Rightarrow> Inl RequestUnparsed
      | Some raw \<Rightarrow>
          (case find (\<lambda>(field, v). field \<notin> set anthropicAllowedFields) raw of
             Some (field, v) \<Rightarrow> Inl (UnsupportedField field)
           | None \<Rightarrow>
               (case Option.bind (jc_decode (ae_codec env) body) (\<lambda>j. request_value (ae_float64 env) j zero_request) of
                  None \<Rightarrow> Inl RequestUndecoded
                | Some request \<Rightarrow> Inr request)))"

definition request_model :: "(string, string) gomap \<Rightarrow> anthropic_request \<Rightarrow> string" where
  "request_model aliases request = (case map_of aliases (ar_Model request) of Some target \<Rightarrow> target | None \<Rightarrow> ar_Model request)"

definition translate_decoded :: "adapter_env \<Rightarrow> string \<Rightarrow> anthropic_request \<Rightarrow> translate_error + (string \<times> json) list" where
  "translate_decoded env model request =
     (if ar_Model request = '''' then Inl ModelRequired
      else if ar_MaxTokens request \<le> 0 then Inl MaxTokensNotPositive
      else sum_bind (translateAnthropicSystem (ar_System request)) (\<lambda>instructions.
        sum_bind (translateAnthropicMessages env (ar_Messages request)) (\<lambda>input.
        sum_bind (optional (ar_Tools request \<noteq> []) ''tools'' (translateAnthropicTools env (ar_Tools request))) (\<lambda>tools.
        sum_bind (optional (raw_given (ar_ToolChoice request)) ''tool_choice'' (translateAnthropicToolChoice (raw_json (ar_ToolChoice request)))) (\<lambda>choice.
        sum_bind (optional (oc_Effort (ar_OutputConfig request) \<noteq> '''') ''reasoning''
            (if \<not> supportsAnthropicEffort model (oc_Effort (ar_OutputConfig request))
             then Inl (EffortUnsupported (oc_Effort (ar_OutputConfig request)))
             else Inr (JObj [(''effort'', JStr (oc_Effort (ar_OutputConfig request)))]))) (\<lambda>reasoning.
        sum_bind (optional (raw_given (oc_Format (ar_OutputConfig request))) ''text''
            (translateAnthropicOutputFormat (raw_json (oc_Format (ar_OutputConfig request))))) (\<lambda>format.
        if ar_Thinking request \<noteq> '''' \<and> ar_Thinking request \<noteq> ''adaptive'' then Inl (ThinkingUnsupported (ar_Thinking request))
        else Inr ([(''model'', JStr model), (''instructions'', JStr instructions), (''input'', input),
            (''max_output_tokens'', JNum (int_text (ar_MaxTokens request))), (''stream'', JBool (ar_Stream request))]
          @ number_member ''temperature'' (ar_Temperature request) @ number_member ''top_p'' (ar_TopP request)
          @ (if raw_given (ar_Metadata request) then [(''metadata'', raw_json (ar_Metadata request))] else [])
          @ tools @ choice @ reasoning @ format))))))))"

definition translateAnthropicRequest :: "adapter_env \<Rightarrow> (string, string) gomap \<Rightarrow> string \<Rightarrow> translate_error + anthropic_translated" where
  "translateAnthropicRequest env aliases body =
     sum_bind (decode_request env body) (\<lambda>request.
       let model = request_model aliases request in
       sum_bind (translate_decoded env model request) (\<lambda>out.
         case jc_encode (ae_codec env) (JObj out) of None \<Rightarrow> Inl RequestUnencoded
         | Some encoded \<Rightarrow> Inr \<lparr>tr_Model = model, tr_Body = encoded, tr_Stream = ar_Stream request\<rparr>))"

section \<open>The conversation\<close>

text \<open>What a request says, item by item, independently of either format.\<close>

datatype part =
    TextPart string string
  | ImagePart string string
  | CallPart string string string
  | ResultPart string string

definition image_url :: "anthropic_image \<Rightarrow> string" where
  "image_url source = ''data:'' @ im_MediaType source @ '';base64,'' @ im_Data source"

definition block_part :: "adapter_env \<Rightarrow> string \<Rightarrow> anthropic_block \<Rightarrow> part" where
  "block_part env role block =
     (if cb_Type block = ''text'' then TextPart role (cb_Text block)
      else if cb_Type block = ''image'' then ImagePart role (image_url (the (cb_Source block)))
      else if cb_Type block = ''tool_use'' then CallPart (cb_ID block) (cb_Name block) (ae_raw_text env (the (cb_Input block)))
      else ResultPart (cb_ToolUseID block) (case anthropicTextContent (cb_Content block) of Inr t \<Rightarrow> t | Inl _ \<Rightarrow> ''''))"

definition conversation :: "adapter_env \<Rightarrow> anthropic_message list \<Rightarrow> part list" where
  "conversation env messages =
     concat (map (\<lambda>m. case decodeAnthropicContent (am_Content m) of Inr bs \<Rightarrow> map (block_part env (am_Role m)) bs | Inl _ \<Rightarrow> []) messages)"

text \<open>A reader of the items of a Responses request.\<close>

definition read_content :: "string \<Rightarrow> (string \<times> json) list \<Rightarrow> part option" where
  "read_content role kvs =
     (if string_member kvs ''type'' = Some ''input_text'' then map_option (TextPart role) (string_member kvs ''text'')
      else if string_member kvs ''type'' = Some ''input_image'' then map_option (ImagePart role) (string_member kvs ''image_url'')
      else None)"

fun read_part :: "json \<Rightarrow> part option" where
  "read_part (JObj kvs) =
     (if string_member kvs ''type'' = Some ''function_call'' then
        (case (string_member kvs ''call_id'', string_member kvs ''name'', string_member kvs ''arguments'') of
           (Some i, Some n, Some a) \<Rightarrow> Some (CallPart i n a) | _ \<Rightarrow> None)
      else if string_member kvs ''type'' = Some ''function_call_output'' then
        (case (string_member kvs ''call_id'', string_member kvs ''output'') of
           (Some i, Some t) \<Rightarrow> Some (ResultPart i t) | _ \<Rightarrow> None)
      else (case (string_member kvs ''role'', map_of kvs ''content'') of
           (Some role, Some (JArr [JObj content])) \<Rightarrow> read_content role content | _ \<Rightarrow> None))"
| "read_part _ = None"

lemmas read_simps = string_member_def read_content_def

lemma read_block:
  assumes "translateAnthropicBlock env role block = Inr item"
  shows "read_part item = Some (block_part env role block)"
proof -
  consider "cb_Type block = ''text''" | "cb_Type block = ''image''" | "cb_Type block = ''tool_use''" | "cb_Type block = ''tool_result''"
    using assms by (auto simp: translateAnthropicBlock_def split: if_splits)
  then show ?thesis
  proof cases
    case 1
    then have "item = role_item role [(''type'', JStr ''input_text''), (''text'', JStr (cb_Text block))]"
      using assms by (simp add: translateAnthropicBlock_def)
    then show ?thesis using 1 by (simp add: block_part_def role_item_def read_simps)
  next
    case 2
    then obtain source where "cb_Source block = Some source"
        "item = role_item role [(''type'', JStr ''input_image''), (''image_url'', JStr (image_url source))]"
      using assms by (auto simp: translateAnthropicBlock_def image_url_def split: option.splits if_splits)
    then show ?thesis using 2 by (simp add: block_part_def role_item_def read_simps)
  next
    case 3
    then obtain input where "cb_Input block = Some input"
        "item = JObj [(''type'', JStr ''function_call''), (''call_id'', JStr (cb_ID block)),
              (''name'', JStr (cb_Name block)), (''arguments'', JStr (ae_raw_text env input))]"
      using assms by (auto simp: translateAnthropicBlock_def split: option.splits if_splits)
    then show ?thesis using 3 by (simp add: block_part_def read_simps)
  next
    case 4
    then obtain text0 where "anthropicTextContent (cb_Content block) = Inr text0"
        "item = JObj [(''type'', JStr ''function_call_output''), (''call_id'', JStr (cb_ToolUseID block)), (''output'', JStr text0)]"
      using assms by (auto simp: translateAnthropicBlock_def return_iff split: if_splits)
    then show ?thesis using 4 by (simp add: block_part_def read_simps)
  qed
qed

lemma list_all2_map_eq: "list_all2 (\<lambda>x y. g y = h x) xs ys \<Longrightarrow> map g ys = map h xs"
  by (induction rule: list_all2_induct) auto

lemma read_message:
  assumes "translate_message env m = Inr items"
  shows "map read_part items = map Some (conversation env [m])"
proof -
  obtain bs where "decodeAnthropicContent (am_Content m) = Inr bs"
      "list_all2 (\<lambda>b item. translateAnthropicBlock env (am_Role m) b = Inr item) bs items"
    using assms by (auto simp: translate_message_def return_iff)
  moreover from this(2) have "list_all2 (\<lambda>b item. read_part item = Some (block_part env (am_Role m) b)) bs items"
    by (rule list_all2_mono) (rule read_block)
  then have "map read_part items = map (\<lambda>b. Some (block_part env (am_Role m) b)) bs" by (rule list_all2_map_eq)
  ultimately show ?thesis by (simp add: conversation_def)
qed

lemma conversation_Cons: "conversation env (m # ms) = conversation env [m] @ conversation env ms"
  by (simp add: conversation_def)

lemma read_messages:
  assumes "list_all2 (\<lambda>m items. translate_message env m = Inr items) ms itemss"
  shows "map read_part (concat itemss) = map Some (conversation env ms)"
  using assms
proof (induction rule: list_all2_induct)
  case Nil
  then show ?case by (simp add: conversation_def)
next
  case (Cons m ms items itemss)
  then show ?case unfolding conversation_Cons [of env m ms] by (simp add: read_message)
qed

fun read_tool :: "json \<Rightarrow> anthropic_tool option" where
  "read_tool (JObj kvs) =
     (case (string_member kvs ''name'', map_of kvs ''parameters'') of
        (Some n, Some sc) \<Rightarrow> Some \<lparr>tl_Name = n, tl_Description = (case string_member kvs ''description'' of Some d \<Rightarrow> d | None \<Rightarrow> ''''),
           tl_InputSchema = Some sc\<rparr>
      | _ \<Rightarrow> None)"
| "read_tool _ = None"

lemma read_translated_tool: "translate_tool env tool = Inr item \<Longrightarrow> read_tool item = Some tool"
  by (auto simp: translate_tool_def string_member_def split: option.splits if_splits)

definition read_list :: "(json \<Rightarrow> 'a option) \<Rightarrow> json option \<Rightarrow> 'a list option" where
  "read_list f j = (case j of None \<Rightarrow> Some [] | Some (JArr items) \<Rightarrow> those (map f items) | _ \<Rightarrow> None)"

lemma read_input:
  assumes "translateAnthropicMessages env ms = Inr input"
  shows "read_list read_part (Some input) = Some (conversation env ms)"
  using assms read_messages [of env ms]
  by (auto simp: translateAnthropicMessages_def return_iff read_list_def those_Some_iff)

lemma read_tools:
  assumes "optional (tools \<noteq> []) ''tools'' (translateAnthropicTools env tools) = Inr ms"
  shows "read_list read_tool (map_of ms ''tools'') = Some tools"
proof (cases "tools = []")
  case True
  then show ?thesis using assms by (auto simp: optional_def read_list_def)
next
  case False
  then obtain items where m: "ms = [(''tools'', JArr items)]"
      and t: "list_all2 (\<lambda>tool item. translate_tool env tool = Inr item) tools items"
    using assms by (auto simp: optional_def translateAnthropicTools_def return_iff)
  from t have "list_all2 (\<lambda>tool item. read_tool item = Some tool) tools items"
    by (rule list_all2_mono) (rule read_translated_tool)
  then have "map read_tool items = map Some tools" by (rule list_all2_map_eq)
  then show ?thesis by (simp add: m read_list_def those_Some_iff)
qed

lemma optional_keys: "optional b k r = Inr ms \<Longrightarrow> k' \<noteq> k \<Longrightarrow> map_of ms k' = None"
  by (auto simp: optional_def return_iff split: if_splits)

lemma number_keys: "k' \<noteq> k \<Longrightarrow> map_of (number_member k v) k' = None"
  by (simp add: number_member_def split: option.split)

text \<open>The members of the translated request.\<close>

lemma translated_members:
  assumes "translate_decoded env model request = Inr out"
  shows "ar_Model request \<noteq> ''''" and "0 < ar_MaxTokens request"
    and "map_of out ''model'' = Some (JStr model)" and "map_of out ''stream'' = Some (JBool (ar_Stream request))"
    and "map_of out ''max_output_tokens'' = Some (JNum (int_text (ar_MaxTokens request)))"
    and "read_list read_part (map_of out ''input'') = Some (conversation env (ar_Messages request))"
    and "read_list read_tool (map_of out ''tools'') = Some (ar_Tools request)"
proof -
  from assms obtain instructions input tools choice reasoning format where
    i: "translateAnthropicMessages env (ar_Messages request) = Inr input"
    and t: "optional (ar_Tools request \<noteq> []) ''tools'' (translateAnthropicTools env (ar_Tools request)) = Inr tools"
    and c: "optional (raw_given (ar_ToolChoice request)) ''tool_choice'' (translateAnthropicToolChoice (raw_json (ar_ToolChoice request))) = Inr choice"
    and r: "optional (oc_Effort (ar_OutputConfig request) \<noteq> '''') ''reasoning''
            (if \<not> supportsAnthropicEffort model (oc_Effort (ar_OutputConfig request))
             then Inl (EffortUnsupported (oc_Effort (ar_OutputConfig request)))
             else Inr (JObj [(''effort'', JStr (oc_Effort (ar_OutputConfig request)))])) = Inr reasoning"
    and f: "optional (raw_given (oc_Format (ar_OutputConfig request))) ''text''
            (translateAnthropicOutputFormat (raw_json (oc_Format (ar_OutputConfig request)))) = Inr format"
    and g: "ar_Model request \<noteq> ''''" "\<not> ar_MaxTokens request \<le> 0"
    and out: "out = [(''model'', JStr model), (''instructions'', JStr instructions), (''input'', input),
            (''max_output_tokens'', JNum (int_text (ar_MaxTokens request))), (''stream'', JBool (ar_Stream request))]
          @ number_member ''temperature'' (ar_Temperature request) @ number_member ''top_p'' (ar_TopP request)
          @ (if raw_given (ar_Metadata request) then [(''metadata'', raw_json (ar_Metadata request))] else [])
          @ tools @ choice @ reasoning @ format"
    unfolding translate_decoded_def return_iff sum.inject by (elim exE conjE) (rule that; (assumption | erule sym))
  show "ar_Model request \<noteq> ''''" "0 < ar_MaxTokens request" using g by auto
  show "map_of out ''model'' = Some (JStr model)" "map_of out ''stream'' = Some (JBool (ar_Stream request))"
    "map_of out ''max_output_tokens'' = Some (JNum (int_text (ar_MaxTokens request)))" by (simp_all add: out)
  show "read_list read_part (map_of out ''input'') = Some (conversation env (ar_Messages request))"
    using read_input [OF i] by (simp add: out)
  have "map_of out ''tools'' = map_of tools ''tools''"
    using optional_keys [OF c, of "''tools''"] optional_keys [OF r, of "''tools''"] optional_keys [OF f, of "''tools''"]
    by (simp add: out map_add_def number_keys split: option.split)
  then show "read_list read_tool (map_of out ''tools'') = Some (ar_Tools request)" using read_tools [OF t] by simp
qed

definition int64_tokens :: "anthropic_request \<Rightarrow> bool" where
  "int64_tokens r \<longleftrightarrow> - (2 ^ 63) \<le> ar_MaxTokens r \<and> ar_MaxTokens r < 2 ^ 63"

lemma request_value_int64:
  assumes "request_value float64 j zero_request = Some r"
  shows "int64_tokens r"
proof -
  have zero: "int64_tokens zero_request" by (simp add: int64_tokens_def zero_request_def)
  show ?thesis
  proof (cases j)
    case (JObj kvs)
    show ?thesis using zero assms [unfolded request_value_def struct_value_def JObj json.case]
      by (rule decode_members_keeps [rotated])
        (auto simp: int64_tokens_def setter_defs dest!: Atoi_range split: json.splits if_splits)
  qed (use assms zero in \<open>auto simp: request_value_def struct_value_def\<close>)
qed

lemma decoded_int64: "decode_request env body = Inr r \<Longrightarrow> int64_tokens r"
  by (auto simp: decode_request_def return_iff dest: request_value_int64 split: option.splits Option.bind_splits)


definition sample_anthropic :: json where
  "sample_anthropic = JObj [(''model'', JStr ''claude''), (''max_tokens'', JNum ''64''),
     (''tools'', JArr [JObj [(''name'', JStr ''f''), (''input_schema'', JObj [])]]),
     (''messages'', JArr [JObj [(''role'', JStr ''user''), (''content'', JStr ''hi'')],
        JObj [(''role'', JStr ''assistant''), (''content'', JArr [JObj [(''type'', JStr ''tool_use''), (''id'', JStr ''t1''),
           (''name'', JStr ''f''), (''input'', JObj [])]])],
        JObj [(''role'', JStr ''user''), (''content'', JArr [JObj [(''type'', JStr ''tool_result''), (''tool_use_id'', JStr ''t1''),
           (''content'', JStr ''42'')]])]])]"

definition sample_responses :: json where
  "sample_responses = JObj [(''model'', JStr ''codex/gpt-5''), (''instructions'', JStr ''''),
     (''input'', JArr [role_item ''user'' [(''type'', JStr ''input_text''), (''text'', JStr ''hi'')],
        JObj [(''type'', JStr ''function_call''), (''call_id'', JStr ''t1''), (''name'', JStr ''f''), (''arguments'', JStr ''{}'')],
        JObj [(''type'', JStr ''function_call_output''), (''call_id'', JStr ''t1''), (''output'', JStr ''42'')]]),
     (''max_output_tokens'', JNum ''64''), (''stream'', JBool False),
     (''tools'', JArr [JObj [(''type'', JStr ''function''), (''name'', JStr ''f''), (''parameters'', JObj [])]])]"

definition sample_adapter :: adapter_env where
  "sample_adapter = \<lparr>ae_codec = \<lparr>jc_decode = (\<lambda>s. if s = ''in'' then Some sample_anthropic else if s = ''out'' then Some sample_responses else None),
     jc_encode = (\<lambda>j. if j = sample_responses then Some ''out'' else None)\<rparr>, ae_float64 = Some, ae_int64 = (\<lambda>t. 0), ae_raw_text = (\<lambda>j. ''{}'')\<rparr>"


end
