(* ===== verification/Responses_Equivalence.thy ===== *)
theory Responses_Equivalence
  imports Responses_Stream
begin

text \<open>
  A client that streams and one that does not see the same answer: the events of a Responses
  stream, the result object with the same items, and what the two kinds of chat client make of
  them. The upstream is any text whose events carry the values below, whatever their encoding.
\<close>

section \<open>An upstream answer\<close>

text \<open>An output item with the deltas it is streamed in: a message, or a call of a function.\<close>

datatype up_item = UMessage string "string list" | UCall string string string "string list"

type_synonym up_event = "string \<times> json"

definition ev_created :: "string \<Rightarrow> string \<Rightarrow> up_event" where
  "ev_created ident model = (''response.created'', JObj [(''response'', JObj [(''id'', JStr ident), (''model'', JStr model)])])"

definition ev_text :: "string \<Rightarrow> string \<Rightarrow> up_event" where
  "ev_text ident delta = (''response.output_text.delta'', JObj [(''item_id'', JStr ident), (''delta'', JStr delta)])"

definition ev_arguments :: "string \<Rightarrow> string \<Rightarrow> up_event" where
  "ev_arguments ident delta = (''response.function_call_arguments.delta'', JObj [(''item_id'', JStr ident), (''delta'', JStr delta)])"

definition ev_done :: "string \<Rightarrow> up_event" where
  "ev_done ident = (''response.output_item.done'', JObj [(''item'', JObj [(''id'', JStr ident)])])"

definition ev_message :: "string \<Rightarrow> up_event" where
  "ev_message ident = (''response.output_item.added'', JObj [(''item'', JObj [(''id'', JStr ident), (''type'', JStr ''message'')])])"

definition ev_call :: "string \<Rightarrow> string \<Rightarrow> string \<Rightarrow> up_event" where
  "ev_call ident callid name =
     (''response.output_item.added'', JObj [(''item'', JObj [(''id'', JStr ident), (''type'', JStr ''function_call''), (''call_id'', JStr callid),
        (''name'', JStr name)])])"

definition ev_completed :: "json \<Rightarrow> up_event" where
  "ev_completed response = (''response.completed'', JObj [(''response'', response)])"

fun item_events :: "up_item \<Rightarrow> up_event list" where
  "item_events (UMessage ident deltas) = ev_message ident # map (ev_text ident) deltas @ [ev_done ident]"
| "item_events (UCall ident callid name deltas) = ev_call ident callid name # map (ev_arguments ident) deltas @ [ev_done ident]"

definition stream_events :: "string \<Rightarrow> string \<Rightarrow> up_item list \<Rightarrow> json \<Rightarrow> up_event list" where
  "stream_events ident model items response =
     ev_created ident model # concat (map item_events items) @ [ev_completed response]"

text \<open>The items as a result object has them.\<close>

fun up_output :: "up_item \<Rightarrow> responses_output" where
  "up_output (UMessage ident deltas) =
     zero_output\<lparr>ro_Type := ''message'', ro_ID := ident, ro_Role := ''assistant'', ro_Content := [(''output_text'', concat deltas)]\<rparr>"
| "up_output (UCall ident callid name deltas) =
     zero_output\<lparr>ro_Type := ''function_call'', ro_ID := ident, ro_CallID := callid, ro_Name := name, ro_Arguments := concat deltas\<rparr>"

fun item_named :: "up_item \<Rightarrow> bool" where
  "item_named (UMessage ident deltas) \<longleftrightarrow> ident \<noteq> ''''"
| "item_named (UCall ident callid name deltas) \<longleftrightarrow> ident \<noteq> '''' \<and> callid \<noteq> '''' \<and> name \<noteq> ''''"

text \<open>The text of a stream, from the types and the encoded data of its events.\<close>

definition event_text :: "string \<times> string \<Rightarrow> string" where
  "event_text e = event_prefix @ fst e @ newline # data_prefix @ snd e @ [newline, newline]"

definition line_safe :: "string \<Rightarrow> bool" where
  "line_safe s \<longleftrightarrow> newline \<notin> set s \<and> carriage_return \<notin> set s \<and> int (length s) + 7 < max_line"

definition carries :: "adapter_env \<Rightarrow> up_event list \<Rightarrow> (string \<times> string) list \<Rightarrow> bool" where
  "carries env events es \<longleftrightarrow>
     list_all2 (\<lambda>(ty, j) (ty', data). ty' = ty \<and> jc_decode (ae_codec env) data = Some j \<and> line_safe ty \<and> line_safe data) events es"

section \<open>Chat clients\<close>

text \<open>What a chat client has at the end: the text, the calls (identifier, name, arguments) and the
  reason of the end.\<close>

record chat_view =
  cv_content :: string
  cv_calls :: "(string \<times> string \<times> string) list"
  cv_finish :: "string option"

definition object_member :: "(string \<times> json) list \<Rightarrow> string \<Rightarrow> (string \<times> json) list" where
  "object_member kvs name = (case map_of kvs name of Some (JObj m) \<Rightarrow> m | _ \<Rightarrow> [])"

definition text_member :: "(string \<times> json) list \<Rightarrow> string \<Rightarrow> string" where
  "text_member kvs name = (case string_member kvs name of Some t \<Rightarrow> t | None \<Rightarrow> '''')"

definition choice_of :: "json \<Rightarrow> (string \<times> json) list" where
  "choice_of j = (case j of JObj kvs \<Rightarrow> (case map_of kvs ''choices'' of Some (JArr [JObj c]) \<Rightarrow> c | _ \<Rightarrow> []) | _ \<Rightarrow> [])"

text \<open>A streaming client opens a call when it is named and appends its arguments by index.\<close>

definition add_call :: "(string \<times> json) list \<Rightarrow> (string \<times> string \<times> string) list \<Rightarrow> (string \<times> string \<times> string) list" where
  "add_call c calls =
     (let args = text_member (object_member c ''function'') ''arguments'' in
      case string_member c ''id'' of
        Some ident \<Rightarrow> calls @ [(ident, text_member (object_member c ''function'') ''name'', args)]
      | None \<Rightarrow>
          (case map_of c ''index'' of
             Some (JNum t) \<Rightarrow> (case Atoi t of Some i \<Rightarrow> calls[nat i := (case calls ! nat i of (d, n, a) \<Rightarrow> (d, n, a @ args))] | None \<Rightarrow> calls)
           | _ \<Rightarrow> calls))"

definition read_chunk :: "json \<Rightarrow> chat_view \<Rightarrow> chat_view" where
  "read_chunk j v =
     (let delta = object_member (choice_of j) ''delta'' in
      \<lparr>cv_content = cv_content v @ text_member delta ''content'',
       cv_calls = (case map_of delta ''tool_calls'' of Some (JArr [JObj c]) \<Rightarrow> add_call c (cv_calls v) | _ \<Rightarrow> cv_calls v),
       cv_finish = (case string_member (choice_of j) ''finish_reason'' of Some r \<Rightarrow> Some r | None \<Rightarrow> cv_finish v)\<rparr>)"

definition assemble :: "json list \<Rightarrow> chat_view" where
  "assemble chunks = fold read_chunk chunks \<lparr>cv_content = '''', cv_calls = [], cv_finish = None\<rparr>"

text \<open>A client that does not stream reads the message of the completion.\<close>

definition read_call :: "json \<Rightarrow> string \<times> string \<times> string" where
  "read_call j = (case j of JObj c \<Rightarrow>
     (text_member c ''id'', text_member (object_member c ''function'') ''name'', text_member (object_member c ''function'') ''arguments'')
   | _ \<Rightarrow> ('''', '''', ''''))"

definition read_completion :: "json \<Rightarrow> chat_view" where
  "read_completion j =
     (let m = object_member (choice_of j) ''message'' in
      \<lparr>cv_content = text_member m ''content'',
       cv_calls = (case map_of m ''tool_calls'' of Some (JArr cs) \<Rightarrow> map read_call cs | _ \<Rightarrow> []),
       cv_finish = string_member (choice_of j) ''finish_reason''\<rparr>)"

text \<open>What the items say.\<close>

fun item_content :: "up_item \<Rightarrow> string" where
  "item_content (UMessage ident deltas) = concat deltas"
| "item_content (UCall ident callid name deltas) = ''''"

fun item_calls :: "up_item \<Rightarrow> (string \<times> string \<times> string) list" where
  "item_calls (UMessage ident deltas) = []"
| "item_calls (UCall ident callid name deltas) = [(callid, name, concat deltas)]"

definition items_view :: "up_item list \<Rightarrow> chat_view" where
  "items_view items =
     \<lparr>cv_content = concat (map item_content items), cv_calls = concat (map item_calls items),
      cv_finish = Some (if concat (map item_calls items) \<noteq> [] then ''tool_calls'' else ''stop'')\<rparr>"

section \<open>Lines of a stream\<close>

lemma split_lines_line:
  assumes "newline \<notin> set line"
  shows "split_lines (line @ newline # rest) = line # split_lines rest"
proof -
  have "takeWhile (\<lambda>c. c \<noteq> newline) (line @ newline # rest) = line" "dropWhile (\<lambda>c. c \<noteq> newline) (line @ newline # rest) = newline # rest"
    using assms by (auto simp: takeWhile_append2 dropWhile_append3 takeWhile_tail dropWhile_append2)
  then show ?thesis by (subst split_lines.simps) simp
qed

lemma safe_line:
  assumes "line_safe s" and "newline \<notin> set p" and "carriage_return \<notin> set p" and "length p \<le> 7"
  shows "newline \<notin> set (p @ s)" and "drop_cr (p @ s) = p @ s" and "int (length (p @ s)) < max_line"
proof -
  have cr: "carriage_return \<notin> set (p @ s)" using assms by (simp add: line_safe_def)
  then have "p @ s \<noteq> [] \<Longrightarrow> last (p @ s) \<noteq> carriage_return" by (metis last_in_set)
  then show "drop_cr (p @ s) = p @ s" by (auto simp: drop_cr_def simp del: append_is_Nil_conv)
  show "newline \<notin> set (p @ s)" "int (length (p @ s)) < max_line" using assms by (auto simp: line_safe_def)
qed

lemma prefix_facts:
  "newline \<notin> set event_prefix" "carriage_return \<notin> set event_prefix" "length event_prefix \<le> 7"
  "newline \<notin> set data_prefix" "carriage_return \<notin> set data_prefix" "length data_prefix \<le> 7"
  by (simp_all add: event_prefix_def data_prefix_def newline_def carriage_return_def)

lemma prefix_trimmed [simp]: "has_prefix (p @ s) p" "trim_prefix (p @ s) p = s"
  by (simp_all add: has_prefix_def trim_prefix_def)

lemma prefixes_differ [simp]: "\<not> has_prefix (data_prefix @ s) event_prefix" "\<not> has_prefix [] event_prefix" "\<not> has_prefix [] data_prefix"
  by (simp_all add: has_prefix_def event_prefix_def data_prefix_def)

lemma split_event:
  assumes "line_safe ty" and "line_safe data"
  shows "split_lines (event_text (ty, data) @ rest) = (event_prefix @ ty) # (data_prefix @ data) # [] # split_lines rest"
proof -
  have "event_text (ty, data) @ rest = (event_prefix @ ty) @ newline # (data_prefix @ data) @ newline # [] @ newline # rest"
    by (simp add: event_text_def)
  also have "split_lines \<dots> = (event_prefix @ ty) # (data_prefix @ data) # [] # split_lines rest"
    unfolding split_lines_line [OF safe_line(1) [OF assms(1) prefix_facts(1-3)]]
      split_lines_line [OF safe_line(1) [OF assms(2) prefix_facts(4-6)]]
    by (simp add: split_lines_line [of "[]", simplified])
  finally show ?thesis .
qed

lemma chat_lines_event:
  assumes "line_safe ty" and "line_safe data"
  shows "chat_lines env u rf (split_lines (event_text (ty, data) @ rest)) st =
    (case chat_event env u data (st\<lparr>cs_eventType := ty\<rparr>) of
       NextLine st \<Rightarrow> chat_lines env u rf (split_lines rest) st
     | StopStream st err \<Rightarrow> (st, err))"
  using safe_line(2,3) [OF assms(1) prefix_facts(1-3)] safe_line(2,3) [OF assms(2) prefix_facts(4-6)]
  unfolding split_event [OF assms]
  by (auto simp: chat_line_def drop_cr_def max_line_def split: line_result.split)

section \<open>Decoding the events\<close>

lemma event_types [simp]:
  "fst (ev_created i m) = ''response.created''" "fst (ev_text i d) = ''response.output_text.delta''"
  "fst (ev_arguments i d) = ''response.function_call_arguments.delta''" "fst (ev_done i) = ''response.output_item.done''"
  "fst (ev_message i) = ''response.output_item.added''" "fst (ev_call i c n) = ''response.output_item.added''"
  "fst (ev_completed r) = ''response.completed''"
  by (simp_all add: ev_created_def ev_text_def ev_arguments_def ev_done_def ev_message_def ev_call_def ev_completed_def)

lemma decode_events:
  "struct_value [(''delta'', string_value (\<lambda>v s. v))] (snd (ev_text i d)) '''' = Some d"
  "delta_value (snd (ev_arguments i d)) zero_delta = Some (zero_delta\<lparr>sd_Delta := d, sd_ItemID := i\<rparr>)"
  "delta_value (snd (ev_text i d)) zero_delta = Some (zero_delta\<lparr>sd_Delta := d, sd_ItemID := i\<rparr>)"
  "nested_struct ''item'' item_value (snd (ev_message i)) zero_item = Some (zero_item\<lparr>si_ID := i, si_Type := ''message''\<rparr>)"
  "nested_struct ''item'' item_value (snd (ev_call i c n)) zero_item
     = Some (zero_item\<lparr>si_ID := i, si_Type := ''function_call'', si_CallID := c, si_Name := n\<rparr>)"
  "nested_struct ''item'' item_value (snd (ev_done i)) zero_item = Some (zero_item\<lparr>si_ID := i\<rparr>)"
  by code_simp+

section \<open>The chunks that are written\<close>

definition chunk_actions :: "adapter_env \<Rightarrow> json list \<Rightarrow> rw_action list" where
  "chunk_actions env chunks = concat (map (\<lambda>c. [WriteBody (data_line (encoded env c)), DoFlush]) chunks)"

text \<open>The client has the view so far, and the counters agree with it.\<close>

definition stream_rel :: "adapter_env \<Rightarrow> rw_action list \<Rightarrow> chat_stream \<Rightarrow> chat_view \<Rightarrow> bool" where
  "stream_rel env pre st v \<longleftrightarrow> (\<exists>chunks. cs_written st = pre @ chunk_actions env chunks \<and> assemble chunks = v)
     \<and> cs_toolCallCount st = length (cv_calls v) \<and> (cs_hadToolCalls st \<longleftrightarrow> cv_calls v \<noteq> []) \<and> cv_finish v = None"

lemma choice_of_chunk: "choice_of (chunk_json i m c delta fr extra) =
    [(''index'', JNum ''0''), (''delta'', JObj delta), (''finish_reason'', (case fr of None \<Rightarrow> JNull | Some r \<Rightarrow> JStr r))]"
  by (simp add: choice_of_def chunk_json_def)

lemma read_chunk_json: "read_chunk (chunk_json i m c delta fr extra) v =
    \<lparr>cv_content = cv_content v @ text_member delta ''content'',
     cv_calls = (case map_of delta ''tool_calls'' of Some (JArr [JObj tc]) \<Rightarrow> add_call tc (cv_calls v) | _ \<Rightarrow> cv_calls v),
     cv_finish = (case fr of Some r \<Rightarrow> Some r | None \<Rightarrow> cv_finish v)\<rparr>"
  by (simp add: read_chunk_def choice_of_chunk object_member_def string_member_def split: option.split)

lemma assemble_snoc: "assemble (chunks @ [c]) = read_chunk c (assemble chunks)"
  by (simp add: assemble_def)

text \<open>Writing a chunk: the view reads it; counters may be set along with it.\<close>

lemma write_chunk_rel:
  assumes "stream_rel env pre st v" and "cs_written st' = cs_written st"
    and "v' = read_chunk (chunk_json (cs_chatID st') (cs_model st') (cs_created st') delta None []) v"
    and "cs_toolCallCount st' = length (cv_calls v')" and "cs_hadToolCalls st' \<longleftrightarrow> cv_calls v' \<noteq> []"
  shows "stream_rel env pre (write_chunk env delta st') v'"
proof -
  obtain chunks where "cs_written st = pre @ chunk_actions env chunks" "assemble chunks = v"
    using assms(1) by (auto simp: stream_rel_def)
  then have "\<exists>chunks. cs_written (write_chunk env delta st') = pre @ chunk_actions env chunks \<and> assemble chunks = v'"
    using assms(2,3)
    by (intro exI [of _ "chunks @ [chunk_json (cs_chatID st') (cs_model st') (cs_created st') delta None []]"])
      (simp add: write_chunk_def chunk_actions_def assemble_snoc)
  then show ?thesis using assms unfolding stream_rel_def by (simp add: write_chunk_def read_chunk_json)
qed

lemma stream_rel_type [simp]: "stream_rel env pre (st\<lparr>cs_eventType := ty\<rparr>) v = stream_rel env pre st v"
  by (simp add: stream_rel_def)

lemma Atoi_nat_text: "int n < 2 ^ 63 \<Longrightarrow> Atoi (nat_text n) = Some (int n)"
  using Atoi_int_text [of "int n"] by (simp add: int_text_def)

lemma on_text_rel:
  assumes "stream_rel env pre st v" and "jc_decode (ae_codec env) data = Some (snd (ev_text i d))"
  shows "stream_rel env pre (on_text env data st) (v\<lparr>cv_content := cv_content v @ d\<rparr>)"
proof -
  let ?st = "if cs_sentRole st then st else write_chunk env [(''role'', JStr ''assistant'')] (st\<lparr>cs_sentRole := True\<rparr>)"
  have "v = read_chunk (chunk_json (cs_chatID st) (cs_model st) (cs_created st) [(''role'', JStr ''assistant'')] None []) v"
    by (simp add: read_chunk_json text_member_def string_member_def)
  then have "stream_rel env pre (write_chunk env [(''role'', JStr ''assistant'')] (st\<lparr>cs_sentRole := True\<rparr>)) v"
    using assms(1) by (intro write_chunk_rel [OF assms(1)]) (auto simp: stream_rel_def)
  then have r: "stream_rel env pre ?st v" using assms(1) by simp
  have e: "on_text env data st = write_chunk env [(''content'', JStr d)] ?st"
    using assms(2) by (simp add: on_text_def decode_data_def decode_events Let_def)
  show ?thesis unfolding e using r
    by (intro write_chunk_rel [OF r]) (auto simp: stream_rel_def read_chunk_json text_member_def string_member_def)
qed

lemma on_call_rel:
  assumes "stream_rel env pre st v" and "jc_decode (ae_codec env) data = Some (snd (ev_call i c n))" and "i \<noteq> ''''"
  shows "stream_rel env pre (on_item env data st) (v\<lparr>cv_calls := cv_calls v @ [(c, n, '''')]\<rparr>)"
    and "map_of (cs_indices (on_item env data st)) i = Some (length (cv_calls v))"
proof -
  define indices where "indices = AList.update i (cs_toolCallCount st)
      (if c \<noteq> '''' then AList.update c (cs_toolCallCount st) (cs_indices st) else cs_indices st)"
  define delta where "delta = [(''tool_calls'', JArr [JObj [(''index'', JNum (nat_text (cs_toolCallCount st))), (''id'', JStr c), (''type'', JStr ''function''),
                            (''function'', JObj [(''name'', JStr n), (''arguments'', JStr '''')])]])]
                   @ (if cs_sentRole st then [] else [(''role'', JStr ''assistant'')])"
  define st' where "st' = st\<lparr>cs_hadToolCalls := True, cs_toolCallCount := cs_toolCallCount st + 1, cs_indices := indices, cs_sentRole := True\<rparr>"
  have e: "on_item env data st = write_chunk env delta st'"
    using assms(2,3) by (simp add: on_item_def decode_data_def decode_events Let_def indices_def delta_def st'_def)
  have st': "cs_written st' = cs_written st" "cs_toolCallCount st' = Suc (cs_toolCallCount st)" "cs_hadToolCalls st'"
      "map_of (cs_indices st') i = Some (cs_toolCallCount st)"
    by (simp_all add: st'_def indices_def)
  have call: "add_call [(''index'', JNum (nat_text (cs_toolCallCount st))), (''id'', JStr c), (''type'', JStr ''function''),
      (''function'', JObj [(''name'', JStr n), (''arguments'', JStr '''')])] cs = cs @ [(c, n, '''')]" for cs
    by (simp add: add_call_def string_member_def text_member_def object_member_def)
  have v': "v\<lparr>cv_calls := cv_calls v @ [(c, n, '''')]\<rparr>
      = read_chunk (chunk_json (cs_chatID st') (cs_model st') (cs_created st') delta None []) v"
    unfolding read_chunk_json delta_def by (simp add: call text_member_def string_member_def)
  have count: "cs_toolCallCount st = length (cv_calls v)" using assms(1) by (simp add: stream_rel_def)
  show "stream_rel env pre (on_item env data st) (v\<lparr>cv_calls := cv_calls v @ [(c, n, '''')]\<rparr>)"
    unfolding e by (rule write_chunk_rel [OF assms(1) st'(1) v']) (simp_all add: st' count)
  show "map_of (cs_indices (on_item env data st)) i = Some (length (cv_calls v))"
    unfolding e by (simp add: write_chunk_def st' count)
qed

lemma on_arguments_rel:
  assumes "stream_rel env pre st (v\<lparr>cv_calls := cs @ [(c, n, a)]\<rparr>)" and "jc_decode (ae_codec env) data = Some (snd (ev_arguments i d))"
    and "i \<noteq> ''''" and m: "map_of (cs_indices st) i = Some (length cs)" and "int (length cs) < 2 ^ 63"
  shows "stream_rel env pre (on_arguments env data st) (v\<lparr>cv_calls := cs @ [(c, n, a @ d)]\<rparr>)"
    and "cs_indices (on_arguments env data st) = cs_indices st"
proof -
  let ?delta = "[(''tool_calls'', JArr [JObj [(''index'', JNum (nat_text (length cs))), (''function'', JObj [(''arguments'', JStr d)])]])]"
  have e: "on_arguments env data st = write_chunk env ?delta st"
    using assms(2,3) m unfolding on_arguments_def decode_data_def by (simp add: decode_events)
  have call: "add_call [(''index'', JNum (nat_text (length cs))), (''function'', JObj [(''arguments'', JStr d)])] (cs @ [(c, n, a)])
      = cs @ [(c, n, a @ d)]"
    using assms(5) by (simp add: add_call_def string_member_def text_member_def object_member_def Atoi_nat_text)
  show "stream_rel env pre (on_arguments env data st) (v\<lparr>cv_calls := cs @ [(c, n, a @ d)]\<rparr>)"
    unfolding e using assms(1)
    by (intro write_chunk_rel [OF assms(1) refl]) (auto simp: read_chunk_json call text_member_def string_member_def stream_rel_def)
  show "cs_indices (on_arguments env data st) = cs_indices st" by (simp add: e write_chunk_def)
qed

section \<open>Runs\<close>

text \<open>The states a run of events that do not end the stream goes through.\<close>

fun run_events :: "adapter_env \<Rightarrow> (string \<times> string) list \<Rightarrow> chat_stream \<Rightarrow> chat_stream option" where
  "run_events env [] st = Some st"
| "run_events env ((ty, data) # es) st =
     (case chat_event env False data (st\<lparr>cs_eventType := ty\<rparr>) of NextLine st \<Rightarrow> run_events env es st | StopStream _ _ \<Rightarrow> None)"

lemma run_events_append: "run_events env (es @ es') st = Option.bind (run_events env es st) (run_events env es')"
  by (induction env es st rule: run_events.induct) (auto split: line_result.split)

lemma chat_event_usage: "chat_event env False data st = NextLine st' \<Longrightarrow> chat_event env u data st = NextLine st'"
  by (auto simp: chat_event_def Let_def split: if_splits)

lemma chat_lines_run:
  assumes "run_events env es st = Some st'" and "\<forall>(ty, data) \<in> set es. line_safe ty \<and> line_safe data"
  shows "chat_lines env u rf (split_lines (concat (map event_text es) @ rest)) st = chat_lines env u rf (split_lines rest) st'"
  using assms
proof (induction env es st rule: run_events.induct)
  case (2 env ty data es st)
  obtain st1 where e: "chat_event env False data (st\<lparr>cs_eventType := ty\<rparr>) = NextLine st1"
    using 2(2) by (cases "chat_event env False data (st\<lparr>cs_eventType := ty\<rparr>)") auto
  then show ?case using 2 chat_lines_event [of ty data env u rf "concat (map event_text es) @ rest" st] chat_event_usage [OF e, of u]
    by simp
qed simp

text \<open>The deltas of a message, and of a call.\<close>

lemma carries_Cons: "carries env (e # events) es \<longleftrightarrow>
    (\<exists>data es'. es = (fst e, data) # es' \<and> jc_decode (ae_codec env) data = Some (snd e) \<and> line_safe (fst e) \<and> line_safe data \<and> carries env events es')"
  by (cases e) (auto simp: carries_def list_all2_Cons1)

lemma list_all2_split: "list_all2 R (xs @ ys) es \<longleftrightarrow> (\<exists>es1 es2. es = es1 @ es2 \<and> list_all2 R xs es1 \<and> list_all2 R ys es2)"
proof
  show "list_all2 R (xs @ ys) es \<Longrightarrow> \<exists>es1 es2. es = es1 @ es2 \<and> list_all2 R xs es1 \<and> list_all2 R ys es2"
    by (auto simp: list_all2_append1)
qed (auto intro: list_all2_appendI)

lemma carries_append: "carries env (xs @ ys) es \<longleftrightarrow> (\<exists>es1 es2. es = es1 @ es2 \<and> carries env xs es1 \<and> carries env ys es2)"
  unfolding carries_def by (rule list_all2_split)

lemma carries_Nil [simp]: "carries env [] es \<longleftrightarrow> es = []"
  by (simp add: carries_def)

lemma run_texts:
  assumes "carries env (map (ev_text i) ds) es" and "stream_rel env pre st v"
  shows "\<exists>st'. run_events env es st = Some st' \<and> stream_rel env pre st' (v\<lparr>cv_content := cv_content v @ concat ds\<rparr>)"
  using assms
proof (induction ds arbitrary: es st v)
  case (Cons d ds)
  then obtain data es' where es: "es = (''response.output_text.delta'', data) # es'" "jc_decode (ae_codec env) data = Some (snd (ev_text i d))"
      "carries env (map (ev_text i) ds) es'"
    by (auto simp: carries_Cons)
  have "stream_rel env pre (on_text env data (st\<lparr>cs_eventType := ''response.output_text.delta''\<rparr>)) (v\<lparr>cv_content := cv_content v @ d\<rparr>)"
    using Cons.prems(2) es(2) by (intro on_text_rel) simp_all
  from Cons.IH [OF es(3) this] show ?case by (simp add: es(1) chat_event_def)
qed simp

lemma run_arguments:
  assumes "carries env (map (ev_arguments i) ds) es" and "stream_rel env pre st (v\<lparr>cv_calls := cs @ [(c, n, a)]\<rparr>)"
    and "i \<noteq> ''''" and "map_of (cs_indices st) i = Some (length cs)" and "int (length cs) < 2 ^ 63"
  shows "\<exists>st'. run_events env es st = Some st' \<and> stream_rel env pre st' (v\<lparr>cv_calls := cs @ [(c, n, a @ concat ds)]\<rparr>)"
  using assms
proof (induction ds arbitrary: es st a)
  case (Cons d ds)
  let ?ty = "''response.function_call_arguments.delta''"
  obtain data es' where es: "es = (?ty, data) # es'" "jc_decode (ae_codec env) data = Some (snd (ev_arguments i d))"
      "carries env (map (ev_arguments i) ds) es'"
    using Cons.prems(1) by (auto simp: carries_Cons)
  let ?st = "on_arguments env data (st\<lparr>cs_eventType := ?ty\<rparr>)"
  have "stream_rel env pre ?st (v\<lparr>cv_calls := cs @ [(c, n, a @ d)]\<rparr>)" "cs_indices ?st = cs_indices st"
    using on_arguments_rel [of env pre "st\<lparr>cs_eventType := ?ty\<rparr>" cs c n a v data i d] Cons.prems(2-5) es(2) by simp_all
  with Cons.IH [OF es(3), of ?st "a @ d"] Cons.prems(3-5) show ?case by (simp add: es(1) chat_event_def)
qed simp

definition apply_item :: "up_item \<Rightarrow> chat_view \<Rightarrow> chat_view" where
  "apply_item item v = v\<lparr>cv_content := cv_content v @ item_content item, cv_calls := cv_calls v @ item_calls item\<rparr>"

lemma run_done: "chat_event env u data (st\<lparr>cs_eventType := ''response.output_item.done''\<rparr>) = NextLine (st\<lparr>cs_eventType := ''response.output_item.done''\<rparr>)"
  by (simp add: chat_event_def failure_events_def)

lemma run_item:
  assumes "carries env (item_events item) es" and "stream_rel env pre st v" and "item_named item" and "int (length (cv_calls v)) < 2 ^ 63"
  shows "\<exists>st'. run_events env es st = Some st' \<and> stream_rel env pre st' (apply_item item v)"
proof (cases item)
  case (UMessage i ds)
  let ?ty = "''response.output_item.added''"
  obtain data es1 d2 where es: "es = (?ty, data) # es1 @ [(''response.output_item.done'', d2)]"
      and d: "jc_decode (ae_codec env) data = Some (snd (ev_message i))" and c: "carries env (map (ev_text i) ds) es1"
    using assms(1) UMessage by (auto simp: carries_Cons carries_append)
  have "on_item env data (st\<lparr>cs_eventType := ?ty\<rparr>) = st\<lparr>cs_eventType := ?ty\<rparr>"
    by (simp add: on_item_def decode_data_def d decode_events)
  then have "chat_event env False data (st\<lparr>cs_eventType := ?ty\<rparr>) = NextLine (st\<lparr>cs_eventType := ?ty\<rparr>)" by (simp add: chat_event_def)
  moreover obtain st' where "run_events env es1 (st\<lparr>cs_eventType := ?ty\<rparr>) = Some st'"
      "stream_rel env pre st' (v\<lparr>cv_content := cv_content v @ concat ds\<rparr>)"
    using run_texts [OF c, of pre "st\<lparr>cs_eventType := ?ty\<rparr>" v] assms(2) by auto
  ultimately show ?thesis by (simp add: es run_events_append run_done UMessage apply_item_def)
next
  case (UCall i cid n ds)
  let ?ty = "''response.output_item.added''" and ?cs = "cv_calls v"
  obtain data es1 d2 where es: "es = (?ty, data) # es1 @ [(''response.output_item.done'', d2)]"
      and d: "jc_decode (ae_codec env) data = Some (snd (ev_call i cid n))" and c: "carries env (map (ev_arguments i) ds) es1"
    using assms(1) UCall by (auto simp: carries_Cons carries_append)
  let ?st = "on_item env data (st\<lparr>cs_eventType := ?ty\<rparr>)"
  have i: "i \<noteq> ''''" using assms(3) UCall by simp
  have "chat_event env False data (st\<lparr>cs_eventType := ?ty\<rparr>) = NextLine ?st" by (simp add: chat_event_def)
  moreover have "stream_rel env pre ?st (v\<lparr>cv_calls := ?cs @ [(cid, n, '''')]\<rparr>)" "map_of (cs_indices ?st) i = Some (length ?cs)"
    using on_call_rel [of env pre "st\<lparr>cs_eventType := ?ty\<rparr>" v data i cid n] assms(2) d i by simp_all
  from run_arguments [OF c this(1) i this(2) assms(4)] obtain st' where "run_events env es1 ?st = Some st'"
      "stream_rel env pre st' (v\<lparr>cv_calls := ?cs @ [(cid, n, concat ds)]\<rparr>)" by auto
  ultimately show ?thesis by (simp add: es run_events_append run_done UCall apply_item_def)
qed

lemma run_items:
  assumes "carries env (concat (map item_events items)) es" and "stream_rel env pre st v" and "list_all item_named items"
    and "int (length (cv_calls v) + length items) < 2 ^ 63"
  shows "\<exists>st'. run_events env es st = Some st' \<and> stream_rel env pre st' (fold apply_item items v)"
  using assms
proof (induction items arbitrary: es st v)
  case (Cons item items)
  then obtain es1 es2 where es: "es = es1 @ es2" "carries env (item_events item) es1" "carries env (concat (map item_events items)) es2"
    by (auto simp: carries_append)
  obtain st1 where st1: "run_events env es1 st = Some st1" "stream_rel env pre st1 (apply_item item v)"
    using run_item [OF es(2) Cons.prems(2)] Cons.prems(3,4) by auto
  have "length (item_calls item) \<le> 1" by (cases item) auto
  then have "int (length (cv_calls (apply_item item v)) + length items) < 2 ^ 63" using Cons.prems(4) by (simp add: apply_item_def)
  from Cons.IH [OF es(3) st1(2) _ this] Cons.prems(3) show ?case by (simp add: es(1) run_events_append st1(1))
qed simp

lemma fold_apply_item:
  "fold apply_item items v = v\<lparr>cv_content := cv_content v @ concat (map item_content items), cv_calls := cv_calls v @ concat (map item_calls items)\<rparr>"
  by (induction items arbitrary: v) (simp_all add: apply_item_def)

section \<open>The two clients agree\<close>

definition stream_headers :: "rw_action list" where
  "stream_headers = [SetHeader ''Content-Type'' ''text/event-stream'', SetHeader ''Cache-Control'' ''no-cache'',
     SetHeader ''Connection'' ''keep-alive'', WriteStatus 200]"

lemma on_created_written: "stream_rel env pre st v \<Longrightarrow> stream_rel env pre (on_created env data st) v"
  by (auto simp: on_created_def stream_rel_def split: option.split)

lemma new_stream_rel:
  "stream_rel env stream_headers (new_chat_stream i c) \<lparr>cv_content = '''', cv_calls = [], cv_finish = None\<rparr>"
proof -
  have "\<exists>chunks. [] = chunk_actions env chunks \<and> assemble chunks = \<lparr>cv_content = '''', cv_calls = [], cv_finish = None\<rparr>"
    by (intro exI [of _ "[]"]) (simp add: chunk_actions_def assemble_def)
  then show ?thesis by (simp add: stream_rel_def new_chat_stream_def stream_headers_def)
qed

lemma carries_safe: "carries env events es \<Longrightarrow> \<forall>(ty, data) \<in> set es. line_safe ty \<and> line_safe data"
  unfolding carries_def by (induction rule: list_all2_induct) auto

lemma completed_written:
  assumes "stream_rel env pre st v" and "cv_finish v = None"
  shows "\<exists>chunks last. cs_written (on_completed env u data st) =
      pre @ chunk_actions env chunks @ [WriteBody (data_line (encoded env last)), WriteBody done_line, DoFlush]
    \<and> assemble (chunks @ [last]) = v\<lparr>cv_finish := Some (if cv_calls v \<noteq> [] then ''tool_calls'' else ''stop'')\<rparr>"
proof -
  obtain chunks where c: "cs_written st = pre @ chunk_actions env chunks" "assemble chunks = v"
    and h: "cs_hadToolCalls st \<longleftrightarrow> cv_calls v \<noteq> []"
    using assms(1) by (auto simp: stream_rel_def)
  let ?fin = "if cs_hadToolCalls st then ''tool_calls'' else ''stop''"
  let ?last = "chunk_json (cs_chatID st) (cs_model st) (cs_created st) [] (Some ?fin)
      (case (if u then completed_usage env data else None) of None \<Rightarrow> [] | Some us \<Rightarrow> [(''usage'', chat_usage us)])"
  have "assemble (chunks @ [?last]) = v\<lparr>cv_finish := Some (if cv_calls v \<noteq> [] then ''tool_calls'' else ''stop'')\<rparr>"
    unfolding assemble_snoc c(2) read_chunk_json using h by (simp add: text_member_def string_member_def)
  then show ?thesis by (intro exI [of _ chunks] exI [of _ ?last]) (simp add: on_completed_def Let_def c(1))
qed

lemma stream_chat_view:
  assumes c: "carries env (stream_events ident model items response) es" and named: "list_all item_named items"
    and bound: "int (length items) < 2 ^ 63"
  shows "\<exists>chunks last. streamResponsesAsChat env millis created u (concat (map event_text es)) rf =
      (stream_headers @ chunk_actions env chunks @ [WriteBody (data_line (encoded env last)), WriteBody done_line, DoFlush], None)
    \<and> assemble (chunks @ [last]) = items_view items"
proof -
  let ?v0 = "\<lparr>cv_content = '''', cv_calls = [], cv_finish = None\<rparr>" and ?st0 = "new_chat_stream (''chatcmpl-'' @ int_text millis) created"
  obtain d1 es1 d2 where es: "es = (''response.created'', d1) # es1 @ [(''response.completed'', d2)]"
    and c1: "carries env (concat (map item_events items)) es1"
    and safe: "line_safe ''response.created''" "line_safe d1" "line_safe ''response.completed''" "line_safe d2"
    using c by (auto simp: stream_events_def carries_Cons carries_append)
  let ?st1 = "on_created env d1 (?st0\<lparr>cs_eventType := ''response.created''\<rparr>)"
  have "stream_rel env stream_headers ?st1 ?v0" by (rule on_created_written) (simp add: new_stream_rel)
  from run_items [OF c1 this named] bound obtain st2 where run: "run_events env es1 ?st1 = Some st2"
      "stream_rel env stream_headers st2 (fold apply_item items ?v0)" by auto
  have whole: "concat (map event_text es) = concat (map event_text ((''response.created'', d1) # es1)) @ event_text (''response.completed'', d2) @ []"
    by (simp add: es)
  have "run_events env ((''response.created'', d1) # es1) ?st0 = Some st2" using run(1) by (simp add: chat_event_def)
  then have "chat_lines env u rf (split_lines (concat (map event_text es))) ?st0
      = chat_lines env u rf (split_lines (event_text (''response.completed'', d2) @ [])) st2"
    unfolding whole using carries_safe [OF c1] safe by (intro chat_lines_run) auto
  also have "\<dots> = (on_completed env u d2 (st2\<lparr>cs_eventType := ''response.completed''\<rparr>), None)"
    by (simp only: chat_lines_event [OF safe(3,4)]) (simp add: chat_event_def)
  finally have l: "chat_lines env u rf (split_lines (concat (map event_text es))) ?st0
      = (on_completed env u d2 (st2\<lparr>cs_eventType := ''response.completed''\<rparr>), None)" .
  have "\<exists>chunks last. cs_written (on_completed env u d2 (st2\<lparr>cs_eventType := ''response.completed''\<rparr>)) =
      stream_headers @ chunk_actions env chunks @ [WriteBody (data_line (encoded env last)), WriteBody done_line, DoFlush]
    \<and> assemble (chunks @ [last]) = items_view items"
    using completed_written [of env stream_headers "st2\<lparr>cs_eventType := ''response.completed''\<rparr>" "fold apply_item items ?v0" u d2] run(2)
    by (simp add: fold_apply_item items_view_def)
  then show ?thesis unfolding streamResponsesAsChat_def l by simp
qed

lemma up_output_content: "item_text (up_output item) = item_content item"
  by (cases item) (simp_all add: item_text_def zero_output_def)

lemma up_output_calls:
  "map read_call (map chat_tool_call_json (filter (\<lambda>item. ro_Type item = ''function_call'') (map up_output items))) = concat (map item_calls items)"
proof (induction items)
  case (Cons item items)
  then show ?case by (cases item)
    (simp_all add: zero_output_def chat_tool_call_json_def read_call_def text_member_def string_member_def object_member_def)
qed simp

lemma read_completion_items:
  assumes "rs_Error r = None" and "rs_Output r = map up_output items"
  shows "read_completion (chat_completion env r) = items_view items"
proof -
  let ?calls = "map chat_tool_call_json (filter (\<lambda>item. ro_Type item = ''function_call'') (rs_Output r))"
  have c: "map read_call ?calls = concat (map item_calls items)" unfolding assms(2) by (rule up_output_calls)
  then have "?calls \<noteq> [] \<longleftrightarrow> concat (map item_calls items) \<noteq> []" by (metis map_is_Nil_conv)
  moreover have "map item_text (rs_Output r) = map item_content items" using assms(2) up_output_content by simp
  moreover have "choice_of (chat_completion env r) = [(''index'', JNum ''0''),
      (''message'', JObj ([(''role'', JStr ''assistant''), (''content'', JStr (concat (map item_text (rs_Output r))))]
         @ (if ?calls \<noteq> [] then [(''tool_calls'', JArr ?calls)] else []))),
      (''finish_reason'', JStr (if ?calls \<noteq> [] then ''tool_calls'' else ''stop''))]"
    using assms(1) by (simp add: chat_completion_def choice_of_def Let_def)
  ultimately show ?thesis using c
    by (simp add: read_completion_def items_view_def object_member_def text_member_def string_member_def)
qed


definition sample_items :: "up_item list" where
  "sample_items = [UMessage ''m1'' [''he'', ''llo''], UCall ''f1'' ''c1'' ''look'' [''{'', ''}''], UMessage ''m2'' [''!'']]"

definition sample_events :: "up_event list" where
  "sample_events = stream_events ''r1'' ''gpt-5'' sample_items JNull"

definition sample_data :: "(string \<times> string) list" where
  "sample_data = map (\<lambda>(n, e). (fst e, nat_text n)) (enumerate 0 sample_events)"

definition sample_stream_env :: adapter_env where
  "sample_stream_env = \<lparr>ae_codec = \<lparr>jc_decode = map_of (map (\<lambda>(n, e). (nat_text n, snd e)) (enumerate 0 sample_events)), jc_encode = (\<lambda>j. Some ''chunk'')\<rparr>,
     ae_float64 = Some, ae_int64 = (\<lambda>t. 0), ae_raw_text = (\<lambda>j. '''')\<rparr>"

lemma sample_carries: "carries sample_stream_env sample_events sample_data" and sample_named: "list_all item_named sample_items"
  by code_simp+


section \<open>Calls in a stream that is folded\<close>

text \<open>Folding the stream for a client that does not stream keeps the text of its messages when the
  final result has no output, but not its calls.\<close>

fun agg_text :: "string \<Rightarrow> (string \<times> string) list \<Rightarrow> adapter_env \<Rightarrow> string" where
  "agg_text acc [] env = acc"
| "agg_text acc ((ty, data) # es) env =
     agg_text (if ty = ''response.output_text.delta''
        then (case decode_data env (struct_value [(''delta'', string_value (\<lambda>v s. v))]) '''' data of None \<Rightarrow> acc | Some d \<Rightarrow> acc @ d)
        else acc) es env"

lemma aggregate_event:
  assumes "line_safe ty" and "line_safe data" and "ty \<noteq> ''response.completed''" and "ty \<notin> set failure_events"
  shows "aggregate_lines env rf (split_lines (event_text (ty, data) @ rest)) ty0 acc =
    aggregate_lines env rf (split_lines rest) ty (agg_text acc [(ty, data)] env)"
  using safe_line(2,3) [OF assms(1) prefix_facts(1-3)] safe_line(2,3) [OF assms(2) prefix_facts(4-6)] assms(3,4)
  unfolding split_event [OF assms(1,2)] by (auto simp: drop_cr_def max_line_def Let_def)

lemma aggregate_events:
  assumes "\<forall>(ty, data) \<in> set es. line_safe ty \<and> line_safe data \<and> ty \<noteq> ''response.completed'' \<and> ty \<notin> set failure_events"
  shows "\<exists>ty'. aggregate_lines env rf (split_lines (concat (map event_text es) @ rest)) ty0 acc =
    aggregate_lines env rf (split_lines rest) ty' (agg_text acc es env)"
  using assms
proof (induction es arbitrary: ty0 acc)
  case (Cons e es)
  obtain ty data where e: "e = (ty, data)" by fastforce
  have "aggregate_lines env rf (split_lines (event_text (ty, data) @ concat (map event_text es) @ rest)) ty0 acc =
      aggregate_lines env rf (split_lines (concat (map event_text es) @ rest)) ty (agg_text acc [(ty, data)] env)"
    using Cons.prems e by (intro aggregate_event) auto
  then show ?case using Cons.IH [of ty "agg_text acc [(ty, data)] env"] Cons.prems e by simp
qed auto

lemma agg_text_append: "agg_text acc (es @ es') env = agg_text (agg_text acc es env) es' env"
  by (induction acc es env rule: agg_text.induct) auto

lemma agg_text_texts:
  assumes "carries env (map (ev_text i) ds) es"
  shows "agg_text acc es env = acc @ concat ds"
  using assms
proof (induction ds arbitrary: es acc)
  case (Cons d ds)
  then show ?case by (auto simp: carries_Cons decode_data_def decode_events)
qed simp

lemma agg_text_arguments:
  assumes "carries env (map (ev_arguments i) ds) es"
  shows "agg_text acc es env = acc"
  using assms by (induction ds arbitrary: es) (auto simp: carries_Cons)

lemma agg_text_item:
  assumes "carries env (item_events item) es"
  shows "agg_text acc es env = acc @ item_content item"
  using assms by (cases item) (auto simp: carries_Cons carries_append agg_text_append agg_text_texts agg_text_arguments)

lemma agg_text_items:
  assumes "carries env (concat (map item_events items)) es"
  shows "agg_text acc es env = acc @ concat (map item_content items)"
  using assms
proof (induction items arbitrary: es acc)
  case (Cons item items)
  then show ?case by (auto simp: carries_append agg_text_append agg_text_item)
qed simp

lemma item_event_types: "e \<in> set (item_events item) \<Longrightarrow> fst e \<noteq> ''response.completed'' \<and> fst e \<notin> set failure_events"
  by (cases item) (auto simp: failure_events_def)

lemma carries_types: "carries env events es \<Longrightarrow> map fst es = map fst events"
  unfolding carries_def by (induction rule: list_all2_induct) auto

lemma decode_completed:
  "struct_value [(''response'', raw_value (\<lambda>v s. Some v))] (snd (ev_completed r)) None = Some (Some r)"
  by code_simp

lemma aggregate_stream:
  assumes c: "carries env (stream_events ident model items response) es"
  shows "aggregateSSEToCompletion env (concat (map event_text es)) rf
    = Aggregated (mergeAccumulatedText (Some response) (concat (map item_content items)))"
proof -
  obtain d1 es1 d2 where es: "es = (''response.created'', d1) # es1 @ [(''response.completed'', d2)]"
    and c1: "carries env (concat (map item_events items)) es1" and d2: "jc_decode (ae_codec env) d2 = Some (snd (ev_completed response))"
    and safe: "line_safe ''response.created''" "line_safe d1" "line_safe ''response.completed''" "line_safe d2"
    using c by (auto simp: stream_events_def carries_Cons carries_append)
  have "ty \<noteq> ''response.completed'' \<and> ty \<notin> set failure_events" if "(ty, data) \<in> set es1" for ty data
  proof -
    have "ty \<in> fst ` set (concat (map item_events items))"
      using that carries_types [OF c1] by (metis fst_conv image_eqI set_map)
    then show ?thesis using item_event_types by auto
  qed
  then have all: "\<forall>(ty, data) \<in> set ((''response.created'', d1) # es1). line_safe ty \<and> line_safe data \<and> ty \<noteq> ''response.completed'' \<and> ty \<notin> set failure_events"
    using carries_safe [OF c1] safe by (auto simp: failure_events_def)
  obtain ty' where "aggregate_lines env rf (split_lines (concat (map event_text ((''response.created'', d1) # es1)) @ event_text (''response.completed'', d2) @ [])) '''' ''''
      = aggregate_lines env rf (split_lines (event_text (''response.completed'', d2) @ [])) ty' (agg_text '''' ((''response.created'', d1) # es1) env)"
    using aggregate_events [OF all] by blast
  moreover have "agg_text '''' ((''response.created'', d1) # es1) env = concat (map item_content items)"
    using agg_text_items [OF c1] by simp
  moreover have "aggregate_lines env rf (split_lines (event_text (''response.completed'', d2) @ [])) ty' acc
      = Aggregated (mergeAccumulatedText (Some response) acc)" for acc
    using safe_line(2,3) [OF safe(3) prefix_facts(1-3)] safe_line(2,3) [OF safe(4) prefix_facts(4-6)]
    unfolding split_event [OF safe(3,4)] by (simp add: Let_def decode_data_def d2 decode_completed)
  ultimately show ?thesis by (simp add: aggregateSSEToCompletion_def es)
qed

text \<open>The final result of an upstream that streams its items only.\<close>

definition bare_response :: "string \<Rightarrow> string \<Rightarrow> json" where
  "bare_response ident model = JObj [(''id'', JStr ident), (''model'', JStr model), (''output'', JArr [])]"

lemma merge_bare: "mergeAccumulatedText (Some (bare_response ident model)) acc =
    Merged (Some (if acc = '''' then bare_response ident model
      else JObj [(''id'', JStr ident), (''model'', JStr model), (''output'', accumulated_message acc)]))"
  by (simp add: mergeAccumulatedText_def bare_response_def dedup_def)

lemma decode_bare:
  "result_value f (bare_response ident model) zero_responses = Some (zero_responses\<lparr>rs_ID := ident, rs_Model := model\<rparr>)"
  "result_value f (JObj [(''id'', JStr ident), (''model'', JStr model), (''output'', accumulated_message acc)]) zero_responses
     = Some (zero_responses\<lparr>rs_ID := ident, rs_Model := model, rs_Output := [zero_output\<lparr>ro_Type := ''message'', ro_Role := ''assistant'',
         ro_Content := [(''output_text'', acc)]\<rparr>]\<rparr>)"
  by code_simp+

text \<open>A client that does not stream loses the function calls of an upstream that reports its
  items only through events. The stream is accepted, the text of all messages is kept, but the
  completion has no calls and ends with \<open>stop\<close>, whatever calls the same stream gives a client that
  streams.\<close>

theorem folded_stream_loses_calls:
  assumes "carries env (stream_events ident model items (bare_response ident model)) es"
  shows "\<exists>j r. aggregateSSEToCompletion env (concat (map event_text es)) readFailed = Aggregated (Merged (Some j))
    \<and> result_value (ae_float64 env) j zero_responses = Some r
    \<and> read_completion (chat_completion env r)
      = \<lparr>cv_content = cv_content (items_view items), cv_calls = [], cv_finish = Some ''stop''\<rparr>"
proof -
  let ?acc = "concat (map item_content items)"
  let ?j = "if ?acc = '''' then bare_response ident model
      else JObj [(''id'', JStr ident), (''model'', JStr model), (''output'', accumulated_message ?acc)]"
  let ?items = "if ?acc = '''' then [] else [UMessage '''' [?acc]]"
  let ?r = "zero_responses\<lparr>rs_ID := ident, rs_Model := model, rs_Output := map up_output ?items\<rparr>"
  have "aggregateSSEToCompletion env (concat (map event_text es)) readFailed = Aggregated (Merged (Some ?j))"
    unfolding aggregate_stream [OF assms] merge_bare ..
  moreover have "result_value (ae_float64 env) ?j zero_responses = Some ?r"
  proof (cases "?acc = ''''")
    case True
    show ?thesis unfolding if_P [OF True] decode_bare(1) by (simp add: zero_responses_def)
  next
    case False
    show ?thesis unfolding if_not_P [OF False] decode_bare(2) by (simp add: zero_output_def)
  qed
  moreover have "read_completion (chat_completion env ?r) = items_view ?items"
    by (rule read_completion_items) (simp_all add: zero_responses_def)
  moreover have "items_view ?items = \<lparr>cv_content = cv_content (items_view items), cv_calls = [], cv_finish = Some ''stop''\<rparr>"
    by (simp add: items_view_def)
  ultimately show ?thesis by metis
qed

definition folded_events :: "up_event list" where
  "folded_events = stream_events ''r1'' ''gpt-5'' sample_items (bare_response ''r1'' ''gpt-5'')"

definition folded_data :: "(string \<times> string) list" where
  "folded_data = map (\<lambda>(n, e). (fst e, nat_text n)) (enumerate 0 folded_events)"

definition folded_env :: adapter_env where
  "folded_env = sample_stream_env\<lparr>ae_codec := \<lparr>jc_decode = map_of (map (\<lambda>(n, e). (nat_text n, snd e)) (enumerate 0 folded_events)), jc_encode = (\<lambda>j. Some ''chunk'')\<rparr>\<rparr>"

theorem folded_stream_loses_calls_witness:
  "cv_calls (items_view sample_items) = [(''c1'', ''look'', ''{}'')]
   \<and> (\<exists>j r. aggregateSSEToCompletion folded_env (concat (map event_text folded_data)) False = Aggregated (Merged (Some j))
        \<and> result_value (ae_float64 folded_env) j zero_responses = Some r
        \<and> read_completion (chat_completion folded_env r) = \<lparr>cv_content = ''hello!'', cv_calls = [], cv_finish = Some ''stop''\<rparr>)"
proof -
  have c: "carries folded_env (stream_events ''r1'' ''gpt-5'' sample_items (bare_response ''r1'' ''gpt-5'')) folded_data" by code_simp
  have v: "cv_calls (items_view sample_items) = [(''c1'', ''look'', ''{}'')]" "cv_content (items_view sample_items) = ''hello!''" by code_simp+
  show ?thesis using folded_stream_loses_calls [OF c, of False] unfolding v by simp
qed

end
