(* ===== verification/Anthropic_Stream.thy ===== *)
theory Anthropic_Stream
  imports Responses_Equivalence
begin

text \<open>
  Responses results as messages of the Anthropic API (\<open>src/anthropic_response.go\<close>) and Responses
  event streams as Anthropic event streams (\<open>src/anthropic_sse.go\<close>, \<open>src/anthropic_sse_events.go\<close>,
  \<open>src/anthropic_sse_finish.go\<close>). The stream writer stands between the provider and the client of
  \<open>Http_Writers\<close>: it takes the provider's bytes in any pieces and writes events to the client.
\<close>

section \<open>Messages\<close>

record anthropic_content =
  ac_Type :: string
  ac_Text :: string
  ac_ID :: string
  ac_Name :: string
  ac_Input :: "json option"

definition text_content :: "string \<Rightarrow> anthropic_content" where
  "text_content t = \<lparr>ac_Type = ''text'', ac_Text = t, ac_ID = '''', ac_Name = '''', ac_Input = None\<rparr>"

definition omitempty :: "string \<Rightarrow> string \<Rightarrow> (string \<times> json) list" where
  "omitempty name t = (if t = '''' then [] else [(name, JStr t)])"

definition content_json :: "anthropic_content \<Rightarrow> json" where
  "content_json c =
     JObj ([(''type'', JStr (ac_Type c))] @ omitempty ''text'' (ac_Text c) @ omitempty ''id'' (ac_ID c) @ omitempty ''name'' (ac_Name c)
       @ (case ac_Input c of None \<Rightarrow> [] | Some j \<Rightarrow> [(''input'', j)]))"

record anthropic_message_response =
  mr_ID :: string
  mr_Content :: "anthropic_content list"
  mr_Model :: string
  mr_StopReason :: string
  mr_InputTokens :: int
  mr_OutputTokens :: int

definition usage_json :: "int \<Rightarrow> int \<Rightarrow> json" where
  "usage_json i n = JObj [(''input_tokens'', JNum (int_text i)), (''output_tokens'', JNum (int_text n))]"

definition message_json :: "anthropic_message_response \<Rightarrow> json" where
  "message_json m =
     JObj [(''id'', JStr (mr_ID m)), (''type'', JStr ''message''), (''role'', JStr ''assistant''), (''content'', JArr (map content_json (mr_Content m))),
       (''model'', JStr (mr_Model m)), (''stop_reason'', JStr (mr_StopReason m)), (''stop_sequence'', JNull),
       (''usage'', usage_json (mr_InputTokens m) (mr_OutputTokens m))]"

datatype message_error =
    ResultUnparsed
  | ResultError string
  | CallIncomplete
  | CallWithoutID
  | ResultWithoutID
  | MessageUnencoded

text \<open>The blocks of one output item, and whether it is a call.\<close>

definition item_blocks :: "adapter_env \<Rightarrow> responses_output \<Rightarrow> message_error + anthropic_content list \<times> bool" where
  "item_blocks env item =
     (if ro_Type item = ''message'' then
        Inr (map (\<lambda>(ty, t). text_content t) (filter (\<lambda>(ty, t). ty = ''output_text'') (ro_Content item)), False)
      else if ro_Type item = ''function_call'' then
        (if ro_Name item = '''' \<or> ro_Arguments item = '''' then Inl CallIncomplete
         else case jc_decode (ae_codec env) (ro_Arguments item) of None \<Rightarrow> Inl CallIncomplete
         | Some input \<Rightarrow>
             (let ident = (if ro_CallID item = '''' then ro_ID item else ro_CallID item) in
              if ident = '''' then Inl CallWithoutID
              else Inr ([\<lparr>ac_Type = ''tool_use'', ac_Text = '''', ac_ID = ident, ac_Name = ro_Name item, ac_Input = Some input\<rparr>], True)))
      else Inr ([], False))"

definition anthropic_message_of :: "adapter_env \<Rightarrow> string \<Rightarrow> responses_result \<Rightarrow> message_error + anthropic_message_response" where
  "anthropic_message_of env publicModel response =
     (case rs_Error response of Some e \<Rightarrow> Inl (ResultError (re_Type e))
      | None \<Rightarrow>
          sum_bind (map_result (item_blocks env) (rs_Output response)) (\<lambda>rs.
            let content = concat (map fst rs);
                content = (if content = [] then [text_content ''''] else content)
            in if rs_ID response = '''' then Inl ResultWithoutID
               else Inr \<lparr>mr_ID = rs_ID response, mr_Content = content, mr_Model = publicModel,
                      mr_StopReason = (if list_ex snd rs then ''tool_use'' else ''end_turn''),
                      mr_InputTokens = (case rs_Usage response of None \<Rightarrow> 0 | Some u \<Rightarrow> ru_InputTokens u),
                      mr_OutputTokens = (case rs_Usage response of None \<Rightarrow> 0 | Some u \<Rightarrow> ru_OutputTokens u)\<rparr>))"

definition responsesToAnthropicMessage :: "adapter_env \<Rightarrow> string \<Rightarrow> string \<Rightarrow> message_error + string" where
  "responsesToAnthropicMessage env body publicModel =
     (case decode_result env body of None \<Rightarrow> Inl ResultUnparsed
      | Some response \<Rightarrow> sum_bind (anthropic_message_of env publicModel response) (\<lambda>m.
          case jc_encode (ae_codec env) (message_json m) of None \<Rightarrow> Inl MessageUnencoded | Some t \<Rightarrow> Inr t))"

section \<open>The stream writer\<close>

datatype sse_error =
    EmitFailed
  | InvalidCreated
  | InvalidItem
  | StreamCallIncomplete
  | ItemUnsupported string
  | InvalidDelta
  | UnknownItem
  | InvalidDone
  | InvalidCompleted
  | UpstreamFailed string
  | EventUnsupported string
  | BufferExceeded
  | StreamUnfinished

record anthropic_stream =
  an_client :: client
  an_publicModel :: string
  an_status :: int
  an_pending :: string
  an_messageID :: string
  an_indices :: "(string, nat) gomap"
  an_active :: "nat list"
  an_started :: bool
  an_ended :: bool
  an_hadToolUse :: bool
  an_err :: "sse_error option"

definition anthropicSSEBufferLimit :: int where
  "anthropicSSEBufferLimit = 4 * 1024 * 1024"

definition newAnthropicSSEWriter :: "client \<Rightarrow> string \<Rightarrow> anthropic_stream" where
  "newAnthropicSSEWriter c publicModel =
     \<lparr>an_client = c, an_publicModel = publicModel, an_status = 0, an_pending = '''', an_messageID = '''', an_indices = [], an_active = [],
      an_started = False, an_ended = False, an_hadToolUse = False, an_err = None\<rparr>"

definition an_WriteHeader :: "int \<Rightarrow> anthropic_stream \<Rightarrow> anthropic_stream" where
  "an_WriteHeader status s = (if an_status s = 0 then s\<lparr>an_status := status\<rparr> else s)"

definition an_StatusCode :: "anthropic_stream \<Rightarrow> int" where
  "an_StatusCode s = (if an_status s = 0 then 200 else an_status s)"

definition an_Finish :: "anthropic_stream \<Rightarrow> sse_error option" where
  "an_Finish s = (case an_err s of Some e \<Rightarrow> Some e | None \<Rightarrow> if an_ended s then None else Some StreamUnfinished)"

section \<open>Events for the client\<close>

definition sse_frame :: "string \<Rightarrow> string \<Rightarrow> string" where
  "sse_frame event body = event_prefix @ event @ newline # data_line body"

definition an_emit :: "adapter_env \<Rightarrow> string \<Rightarrow> json \<Rightarrow> anthropic_stream \<Rightarrow> sse_error option \<times> anthropic_stream" where
  "an_emit env event j s =
     (case jc_encode (ae_codec env) j of None \<Rightarrow> (Some EmitFailed, s)
      | Some body \<Rightarrow>
          (case client_Write (sse_frame event body) (an_client s) of (ok, c) \<Rightarrow>
             (if ok then None else Some EmitFailed, s\<lparr>an_client := c\<rparr>)))"

text \<open>One step after another, unless the first fails.\<close>

definition next_step :: "'e option \<times> 's \<Rightarrow> ('s \<Rightarrow> 'e option \<times> 's) \<Rightarrow> 'e option \<times> 's" where
  "next_step r f = (case r of (Some e, s) \<Rightarrow> (Some e, s) | (None, s) \<Rightarrow> f s)"

definition writeErrorEvent :: "adapter_env \<Rightarrow> string \<Rightarrow> anthropic_stream \<Rightarrow> anthropic_stream" where
  "writeErrorEvent env message s =
     snd (an_emit env ''error'' (JObj [(''type'', JStr ''error''), (''error'', JObj [(''type'', JStr ''api_error''), (''message'', JStr message)])]) s)"

definition event_headers :: "header \<Rightarrow> header" where
  "event_headers h =
     AList.update ''X-Accel-Buffering'' [''no''] (AList.update ''Connection'' [''keep-alive'']
       (AList.update ''Cache-Control'' [''no-cache''] (AList.update ''Content-Type'' [''text/event-stream''] h)))"

definition message_start_json :: "anthropic_stream \<Rightarrow> json" where
  "message_start_json s =
     JObj [(''type'', JStr ''message_start''),
       (''message'', JObj [(''id'', JStr (an_messageID s)), (''type'', JStr ''message''), (''role'', JStr ''assistant''), (''content'', JArr []),
          (''model'', JStr (an_publicModel s)), (''stop_reason'', JNull), (''stop_sequence'', JNull), (''usage'', usage_json 0 0)])]"

definition startMessage :: "adapter_env \<Rightarrow> anthropic_stream \<Rightarrow> sse_error option \<times> anthropic_stream" where
  "startMessage env s =
     (if an_started s then (None, s)
      else
        (let c = an_client s;
             c = client_WriteHeader 200 (c\<lparr>cl_header := event_headers (cl_header c)\<rparr>)
         in an_emit env ''message_start'' (message_start_json s) (s\<lparr>an_started := True, an_client := c\<rparr>)))"

definition block_start_json :: "nat \<Rightarrow> anthropic_content \<Rightarrow> json" where
  "block_start_json index content =
     JObj [(''type'', JStr ''content_block_start''), (''index'', JNum (nat_text index)), (''content_block'', content_json content)]"

definition insert_active :: "nat \<Rightarrow> nat list \<Rightarrow> nat list" where
  "insert_active index active = (if index \<in> set active then active else index # active)"

definition startOutputItem :: "adapter_env \<Rightarrow> string \<Rightarrow> anthropic_stream \<Rightarrow> sse_error option \<times> anthropic_stream" where
  "startOutputItem env data s =
     (case decode_data env (nested_struct ''item'' item_value) zero_item data of
        None \<Rightarrow> (Some InvalidItem, s)
      | Some item \<Rightarrow>
          if si_ID item = '''' then (Some InvalidItem, s)
          else next_step (startMessage env s) (\<lambda>s.
            let index = length (an_indices s);
                s = s\<lparr>an_indices := AList.update (si_ID item) index (an_indices s)\<rparr>
            in if si_Type item = ''function_call'' then
                 (if si_CallID item = '''' \<or> si_Name item = '''' then (Some StreamCallIncomplete, s)
                  else an_emit env ''content_block_start''
                    (block_start_json index \<lparr>ac_Type = ''tool_use'', ac_Text = '''', ac_ID = si_CallID item, ac_Name = si_Name item, ac_Input = Some (JObj [])\<rparr>)
                    (s\<lparr>an_indices := AList.update (si_CallID item) index (an_indices s), an_hadToolUse := True, an_active := insert_active index (an_active s)\<rparr>))
               else if si_Type item \<noteq> ''message'' then (Some (ItemUnsupported (si_Type item)), s)
               else an_emit env ''content_block_start'' (block_start_json index (text_content '''')) (s\<lparr>an_active := insert_active index (an_active s)\<rparr>)))"

definition delta_json :: "nat \<Rightarrow> string \<Rightarrow> string \<Rightarrow> json" where
  "delta_json index kind delta =
     JObj [(''type'', JStr ''content_block_delta''), (''index'', JNum (nat_text index)),
       (''delta'', JObj ((''type'', JStr kind) # omitempty (if kind = ''text_delta'' then ''text'' else ''partial_json'') delta))]"

definition emitDelta :: "adapter_env \<Rightarrow> nat \<Rightarrow> string \<Rightarrow> string \<Rightarrow> anthropic_stream \<Rightarrow> sse_error option \<times> anthropic_stream" where
  "emitDelta env index kind delta s = an_emit env ''content_block_delta'' (delta_json index kind delta) s"

definition writeTextDelta :: "adapter_env \<Rightarrow> string \<Rightarrow> anthropic_stream \<Rightarrow> sse_error option \<times> anthropic_stream" where
  "writeTextDelta env data s =
     (case decode_data env (struct_value [(''item_id'', string_value (\<lambda>v s. s\<lparr>sd_ItemID := v\<rparr>)), (''delta'', string_value (\<lambda>v s. s\<lparr>sd_Delta := v\<rparr>))])
         zero_delta data of
        None \<Rightarrow> (Some InvalidDelta, s)
      | Some event \<Rightarrow>
          (case map_of (an_indices s) (sd_ItemID event) of None \<Rightarrow> (Some UnknownItem, s)
           | Some index \<Rightarrow> emitDelta env index ''text_delta'' (sd_Delta event) s))"

definition writeToolDelta :: "adapter_env \<Rightarrow> string \<Rightarrow> anthropic_stream \<Rightarrow> sse_error option \<times> anthropic_stream" where
  "writeToolDelta env data s =
     (case decode_data env delta_value zero_delta data of
        None \<Rightarrow> (Some InvalidDelta, s)
      | Some event \<Rightarrow>
          (case map_of (an_indices s) (if sd_ItemID event = '''' then sd_CallID event else sd_ItemID event) of
             None \<Rightarrow> (Some UnknownItem, s)
           | Some index \<Rightarrow> emitDelta env index ''input_json_delta'' (sd_Delta event) s))"

definition block_stop_json :: "nat \<Rightarrow> json" where
  "block_stop_json index = JObj [(''type'', JStr ''content_block_stop''), (''index'', JNum (nat_text index))]"

definition stopBlock :: "adapter_env \<Rightarrow> nat \<Rightarrow> anthropic_stream \<Rightarrow> sse_error option \<times> anthropic_stream" where
  "stopBlock env index s =
     (if index \<notin> set (an_active s) then (None, s)
      else an_emit env ''content_block_stop'' (block_stop_json index) (s\<lparr>an_active := removeAll index (an_active s)\<rparr>))"

definition done_value :: "stream_item setter" where
  "done_value = struct_value [(''id'', string_value (\<lambda>v s. s\<lparr>si_ID := v\<rparr>)), (''call_id'', string_value (\<lambda>v s. s\<lparr>si_CallID := v\<rparr>))]"

definition stopOutputItem :: "adapter_env \<Rightarrow> string \<Rightarrow> anthropic_stream \<Rightarrow> sse_error option \<times> anthropic_stream" where
  "stopOutputItem env data s =
     (case decode_data env (nested_struct ''item'' done_value) zero_item data of
        None \<Rightarrow> (Some InvalidDone, s)
      | Some item \<Rightarrow>
          (case map_of (an_indices s) (if si_ID item = '''' then si_CallID item else si_ID item) of
             None \<Rightarrow> (Some UnknownItem, s)
           | Some index \<Rightarrow> stopBlock env index s))"

fun stop_blocks :: "adapter_env \<Rightarrow> nat list \<Rightarrow> anthropic_stream \<Rightarrow> sse_error option \<times> anthropic_stream" where
  "stop_blocks env [] s = (None, s)"
| "stop_blocks env (index # rest) s = next_step (stopBlock env index s) (stop_blocks env rest)"

definition message_delta_json :: "string \<Rightarrow> int \<Rightarrow> json" where
  "message_delta_json stopReason outputTokens =
     JObj [(''type'', JStr ''message_delta''), (''delta'', JObj [(''stop_reason'', JStr stopReason)]), (''usage'', usage_json 0 outputTokens)]"

definition message_stop_json :: json where
  "message_stop_json = JObj [(''type'', JStr ''message_stop'')]"

text \<open>The output tokens of \<open>response.completed\<close>, where it has a usage.\<close>

definition tokens_value :: "int option setter" where
  "tokens_value = nested_struct ''response'' (struct_value
     [(''usage'', pointer_value id (\<lambda>v s. v) 0 (struct_value [(''output_tokens'', int_value (\<lambda>v s. v))]))])"

definition output_tokens :: "adapter_env \<Rightarrow> string \<Rightarrow> int option option" where
  "output_tokens env data = decode_data env tokens_value None data"

definition completeMessage :: "adapter_env \<Rightarrow> string \<Rightarrow> anthropic_stream \<Rightarrow> sse_error option \<times> anthropic_stream" where
  "completeMessage env data s =
     next_step (startMessage env s) (\<lambda>s.
       case output_tokens env data of
         None \<Rightarrow> (Some InvalidCompleted, s)
       | Some tokens \<Rightarrow>
           next_step (stop_blocks env (sort (an_active s)) s) (\<lambda>s.
           next_step (an_emit env ''message_delta''
               (message_delta_json (if an_hadToolUse s then ''tool_use'' else ''end_turn'') (case tokens of None \<Rightarrow> 0 | Some n \<Rightarrow> n)) s) (\<lambda>s.
           an_emit env ''message_stop'' message_stop_json (s\<lparr>an_ended := True\<rparr>))))"

section \<open>Events from upstream\<close>

text \<open>\<open>bytes.Split\<close> at newlines.\<close>

fun split_nl :: "string \<Rightarrow> string list" where
  "split_nl [] = [[]]"
| "split_nl (c # cs) = (if c = newline then [] # split_nl cs else (case split_nl cs of [] \<Rightarrow> [[c]] | l # ls \<Rightarrow> (c # l) # ls))"

definition parse_line :: "string \<Rightarrow> string \<times> string list \<Rightarrow> string \<times> string list" where
  "parse_line line r =
     (case r of (ty, data) \<Rightarrow>
        if has_prefix line event_prefix then (trim_prefix line event_prefix, data)
        else if has_prefix line data_prefix then (ty, data @ [trim_prefix line data_prefix])
        else (ty, data))"

definition parseResponsesSSEEvent :: "string \<Rightarrow> string \<times> string" where
  "parseResponsesSSEEvent raw = (case fold parse_line (split_nl raw) ('''', []) of (ty, data) \<Rightarrow> (ty, join [newline] data))"

definition created_id :: "adapter_env \<Rightarrow> string \<Rightarrow> string option" where
  "created_id env data = decode_data env (nested_struct ''response'' (struct_value [(''id'', string_value (\<lambda>v s. v))])) '''' data"

definition dispatch_event :: "adapter_env \<Rightarrow> string \<Rightarrow> string \<Rightarrow> anthropic_stream \<Rightarrow> sse_error option \<times> anthropic_stream" where
  "dispatch_event env eventType data s =
     (if eventType = ''response.created'' then
        (case created_id env data of None \<Rightarrow> (Some InvalidCreated, s)
         | Some ident \<Rightarrow> if ident = '''' then (Some InvalidCreated, s) else startMessage env (s\<lparr>an_messageID := ident\<rparr>))
      else if eventType = ''response.output_item.added'' then startOutputItem env data s
      else if eventType = ''response.output_text.delta'' then writeTextDelta env data s
      else if eventType = ''response.function_call_arguments.delta'' then writeToolDelta env data s
      else if eventType = ''response.output_item.done'' then stopOutputItem env data s
      else if eventType = ''response.completed'' then completeMessage env data s
      else if eventType = ''response.in_progress'' \<or> eventType = ''response.queued'' then (None, s)
      else if eventType \<in> set failure_events then (Some (UpstreamFailed eventType), writeErrorEvent env ''upstream request failed'' s)
      else (Some (EventUnsupported eventType), writeErrorEvent env ''unsupported upstream stream capability'' s))"

definition handleEvent :: "adapter_env \<Rightarrow> string \<Rightarrow> anthropic_stream \<Rightarrow> sse_error option \<times> anthropic_stream" where
  "handleEvent env raw s = (case parseResponsesSSEEvent raw of (ty, data) \<Rightarrow> dispatch_event env ty data s)"

section \<open>Writing\<close>

fun normalize_crlf :: "string \<Rightarrow> string" where
  "normalize_crlf (a # b # cs) = (if a = carriage_return \<and> b = newline then newline # normalize_crlf cs else a # normalize_crlf (b # cs))"
| "normalize_crlf cs = cs"

text \<open>The first event of the pending bytes: what is before the first empty line, and what follows it.\<close>

fun cut_event :: "string \<Rightarrow> (string \<times> string) option" where
  "cut_event (a # b # cs) = (if a = newline \<and> b = newline then Some ([], cs) else map_option (apfst ((#) a)) (cut_event (b # cs)))"
| "cut_event _ = None"

lemma cut_event_length: "cut_event s = Some (ev, rest) \<Longrightarrow> length rest < length s"
  by (induction s arbitrary: ev rest rule: cut_event.induct) (auto split: if_splits)

function process_pending :: "adapter_env \<Rightarrow> string \<Rightarrow> anthropic_stream \<Rightarrow> sse_error option \<times> string \<times> anthropic_stream" where
  "process_pending env pending s =
     (case cut_event pending of None \<Rightarrow> (None, pending, s)
      | Some (ev, rest) \<Rightarrow>
          (case handleEvent env ev s of
             (Some e, s) \<Rightarrow> (Some e, rest, s)
           | (None, s) \<Rightarrow> process_pending env rest s))"
  by pat_completeness auto
termination
  by (relation "measure (\<lambda>(env, pending, s). length pending)") (auto dest: cut_event_length)

declare process_pending.simps [simp del]

definition an_Write :: "adapter_env \<Rightarrow> string \<Rightarrow> anthropic_stream \<Rightarrow> sse_error option \<times> anthropic_stream" where
  "an_Write env data s =
     (case an_err s of Some e \<Rightarrow> (Some e, s)
      | None \<Rightarrow>
          (let pending = an_pending s @ normalize_crlf data in
           if int (length pending) > anthropicSSEBufferLimit
           then (Some BufferExceeded, s\<lparr>an_pending := pending, an_err := Some BufferExceeded\<rparr>)
           else (case process_pending env pending s of
               (err, rest, s) \<Rightarrow> (err, s\<lparr>an_pending := rest, an_err := err\<rparr>))))"

section \<open>Pieces\<close>

lemma cut_event_append: "cut_event a = Some (ev, rest) \<Longrightarrow> cut_event (a @ b) = Some (ev, rest @ b)"
  by (induction a arbitrary: ev rest rule: cut_event.induct) (auto split: if_splits)

text \<open>Bytes that arrive later do not change what was done with the earlier ones.\<close>

lemma process_pending_append:
  "process_pending env (a @ b) s =
     (case process_pending env a s of
        (None, rest, s') \<Rightarrow> process_pending env (rest @ b) s'
      | (Some e, rest, s') \<Rightarrow> (Some e, rest @ b, s'))"
proof (induction env a s rule: process_pending.induct)
  case (1 env pending s)
  show ?case
  proof (cases "cut_event pending")
    case None
    then show ?thesis by (subst (2) process_pending.simps) simp
  next
    case (Some er)
    obtain ev rest where er: "er = (ev, rest)" by fastforce
    obtain r s1 where h: "handleEvent env ev s = (r, s1)" by fastforce
    show ?thesis
    proof (cases r)
      case None
      have "process_pending env (pending @ b) s = process_pending env (rest @ b) s1"
        by (subst process_pending.simps) (simp add: cut_event_append [OF Some [unfolded er]] h None)
      moreover have "process_pending env pending s = process_pending env rest s1"
        by (subst process_pending.simps) (simp add: Some er h None)
      ultimately show ?thesis using 1 [OF Some er [symmetric] h [symmetric] None] by simp
    next
      case (Some e)
      have "process_pending env (pending @ b) s = (Some e, rest @ b, s1)"
        by (subst process_pending.simps) (simp add: cut_event_append [OF \<open>cut_event pending = Some er\<close> [unfolded er]] h Some)
      moreover have "process_pending env pending s = (Some e, rest, s1)"
        by (subst process_pending.simps) (simp add: \<open>cut_event pending = Some er\<close> er h Some)
      ultimately show ?thesis by simp
    qed
  qed
qed

lemma normalize_plain: "carriage_return \<notin> set cs \<Longrightarrow> normalize_crlf cs = cs"
  by (induction cs rule: normalize_crlf.induct) auto

text \<open>Writing pieces one after another.\<close>

fun write_pieces :: "adapter_env \<Rightarrow> string list \<Rightarrow> anthropic_stream \<Rightarrow> anthropic_stream" where
  "write_pieces env [] s = s"
| "write_pieces env (p # ps) s = write_pieces env ps (snd (an_Write env p s))"

text \<open>Equal but for bytes that are never looked at again.\<close>

definition same_stream :: "anthropic_stream \<Rightarrow> anthropic_stream \<Rightarrow> bool" where
  "same_stream s t \<longleftrightarrow> s = t \<or> (an_err s \<noteq> None \<and> s\<lparr>an_pending := an_pending t\<rparr> = t)"

lemma same_streamD:
  assumes "same_stream s t"
  shows "an_client s = an_client t" "an_err s = an_err t" "an_ended s = an_ended t" "an_started s = an_started t" "an_err s = None \<Longrightarrow> s = t"
proof -
  obtain p where "s = t \<or> (an_err s \<noteq> None \<and> t = s\<lparr>an_pending := p\<rparr>)" using assms unfolding same_stream_def by metis
  then show "an_client s = an_client t" "an_err s = an_err t" "an_ended s = an_ended t" "an_started s = an_started t" "an_err s = None \<Longrightarrow> s = t"
    by auto
qed

lemma same_stream_common:
  assumes "same_stream s w" and "same_stream t w"
  shows "an_client s = an_client t \<and> an_err s = an_err t \<and> an_Finish s = an_Finish t \<and> an_started s = an_started t \<and> (an_err s = None \<longrightarrow> s = t)"
proof -
  note d = same_streamD [OF assms(1)] same_streamD [OF assms(2)]
  have "an_err s = an_err t" "an_client s = an_client t" "an_ended s = an_ended t" "an_started s = an_started t"
    using d(2) d(7) d(1) d(6) d(3) d(8) d(4) d(9) by metis+
  moreover have "s = t" if e: "an_err s = None"
  proof -
    have "s = w" using e by (rule d(5))
    moreover have "t = w" using d(10) calculation d(7) e by metis
    ultimately show ?thesis by blast
  qed
  ultimately show ?thesis by (simp add: an_Finish_def)
qed

lemma write_pieces_error: "an_err s \<noteq> None \<Longrightarrow> write_pieces env ps s = s"
  by (induction ps) (auto simp: an_Write_def)

lemma process_pending_length: "process_pending env p s = (r, rest, s') \<Longrightarrow> length rest \<le> length p"
proof (induction env p s arbitrary: r rest s' rule: process_pending.induct)
  case (1 env pending s)
  then show ?case
    by (subst (asm) (2) process_pending.simps) (fastforce split: option.splits prod.splits dest: cut_event_length)
qed

text \<open>Handling an event neither reads nor writes the buffer and the error.\<close>

definition rebuffer :: "string \<Rightarrow> sse_error option \<Rightarrow> anthropic_stream \<Rightarrow> anthropic_stream" where
  "rebuffer p e s = s\<lparr>an_pending := p, an_err := e\<rparr>"

lemma rebuffer_fields [simp]:
  "an_client (rebuffer p e s) = an_client s" "an_publicModel (rebuffer p e s) = an_publicModel s" "an_messageID (rebuffer p e s) = an_messageID s"
  "an_indices (rebuffer p e s) = an_indices s" "an_active (rebuffer p e s) = an_active s" "an_started (rebuffer p e s) = an_started s"
  "an_ended (rebuffer p e s) = an_ended s" "an_hadToolUse (rebuffer p e s) = an_hadToolUse s"
  by (simp_all add: rebuffer_def)

lemma rebuffer_updates [simp]:
  "(rebuffer p e s)\<lparr>an_client := c\<rparr> = rebuffer p e (s\<lparr>an_client := c\<rparr>)" "(rebuffer p e s)\<lparr>an_messageID := m\<rparr> = rebuffer p e (s\<lparr>an_messageID := m\<rparr>)"
  "(rebuffer p e s)\<lparr>an_indices := i\<rparr> = rebuffer p e (s\<lparr>an_indices := i\<rparr>)" "(rebuffer p e s)\<lparr>an_active := a\<rparr> = rebuffer p e (s\<lparr>an_active := a\<rparr>)"
  "(rebuffer p e s)\<lparr>an_started := b\<rparr> = rebuffer p e (s\<lparr>an_started := b\<rparr>)" "(rebuffer p e s)\<lparr>an_ended := b\<rparr> = rebuffer p e (s\<lparr>an_ended := b\<rparr>)"
  "(rebuffer p e s)\<lparr>an_hadToolUse := b\<rparr> = rebuffer p e (s\<lparr>an_hadToolUse := b\<rparr>)"
  by (simp_all add: rebuffer_def)

lemma emit_rebuffer [simp]: "an_emit env event j (rebuffer p e s) = apsnd (rebuffer p e) (an_emit env event j s)"
  by (simp add: an_emit_def split: option.split prod.split)

lemma next_rebuffer:
  "(\<And>s. f (rebuffer p e s) = apsnd (rebuffer p e) (f s)) \<Longrightarrow> next_step (apsnd (rebuffer p e) r) f = apsnd (rebuffer p e) (next_step r f)"
  by (simp add: next_step_def split: prod.split option.split)

lemma error_rebuffer [simp]: "writeErrorEvent env m (rebuffer p e s) = rebuffer p e (writeErrorEvent env m s)"
  by (simp add: writeErrorEvent_def)

lemma start_rebuffer [simp]: "startMessage env (rebuffer p e s) = apsnd (rebuffer p e) (startMessage env s)"
  by (simp add: startMessage_def message_start_json_def Let_def)

lemma stop_rebuffer [simp]: "stopBlock env index (rebuffer p e s) = apsnd (rebuffer p e) (stopBlock env index s)"
  by (simp add: stopBlock_def)

lemma stops_rebuffer [simp]: "stop_blocks env ixs (rebuffer p e s) = apsnd (rebuffer p e) (stop_blocks env ixs s)"
  by (induction ixs arbitrary: s) (simp_all add: next_rebuffer)

lemma item_rebuffer [simp]: "startOutputItem env data (rebuffer p e s) = apsnd (rebuffer p e) (startOutputItem env data s)"
  by (simp add: startOutputItem_def Let_def next_rebuffer split: option.split)

lemma delta_rebuffer [simp]: "writeTextDelta env data (rebuffer p e s) = apsnd (rebuffer p e) (writeTextDelta env data s)"
    "writeToolDelta env data (rebuffer p e s) = apsnd (rebuffer p e) (writeToolDelta env data s)"
  by (simp_all add: writeTextDelta_def writeToolDelta_def emitDelta_def split: option.split)

lemma done_rebuffer [simp]: "stopOutputItem env data (rebuffer p e s) = apsnd (rebuffer p e) (stopOutputItem env data s)"
  by (simp add: stopOutputItem_def split: option.split)

lemma complete_rebuffer [simp]: "completeMessage env data (rebuffer p e s) = apsnd (rebuffer p e) (completeMessage env data s)"
  by (simp add: completeMessage_def next_rebuffer split: option.split)

lemma handle_rebuffer [simp]: "handleEvent env raw (rebuffer p e s) = apsnd (rebuffer p e) (handleEvent env raw s)"
  by (simp add: handleEvent_def dispatch_event_def split: prod.split option.split)

lemma process_rebuffer: "process_pending env b (rebuffer p e s) = (case process_pending env b s of (r, rest, s') \<Rightarrow> (r, rest, rebuffer p e s'))"
proof (induction env b s rule: process_pending.induct)
  case (1 env pending s)
  show ?case
  proof (cases "cut_event pending")
    case None
    then show ?thesis by (subst (1 2) process_pending.simps) simp
  next
    case (Some er)
    obtain ev rest where er: "er = (ev, rest)" by fastforce
    obtain r s1 where h: "handleEvent env ev s = (r, s1)" by fastforce
    show ?thesis
    proof (cases r)
      case None
      then show ?thesis using 1 [OF Some er [symmetric] h [symmetric] None]
        by (subst (1 2) process_pending.simps) (simp add: Some er h)
    next
      case (Some e')
      then show ?thesis using \<open>cut_event pending = Some er\<close> by (subst (1 2) process_pending.simps) (simp add: er h)
    qed
  qed
qed

lemma process_none: "process_pending env p s = (None, rest, s') \<Longrightarrow> cut_event rest = None"
proof (induction env p s arbitrary: rest s' rule: process_pending.induct)
  case (1 env pending s)
  then show ?case by (subst (asm) (2) process_pending.simps) (fastforce split: option.splits prod.splits)
qed

lemma an_Write_plain:
  assumes "an_err s = None" and "carriage_return \<notin> set data" and "int (length (an_pending s @ data)) \<le> anthropicSSEBufferLimit"
    and "process_pending env (an_pending s @ data) s = (r, rest, s')"
  shows "an_Write env data s = (r, rebuffer rest r s')"
  using assms by (simp add: an_Write_def normalize_plain rebuffer_def)

lemma pieces_concat:
  assumes "an_err s = None" and "cut_event (an_pending s) = None" and "carriage_return \<notin> set (concat ps)"
    and "int (length (an_pending s @ concat ps)) \<le> anthropicSSEBufferLimit"
  shows "same_stream (write_pieces env ps s) (snd (an_Write env (concat ps) s))"
  using assms
proof (induction ps arbitrary: s)
  case Nil
  have "process_pending env (an_pending s) s = (None, an_pending s, s)" using Nil(2) by (subst process_pending.simps) simp
  then have "an_Write env [] s = (None, rebuffer (an_pending s) None s)" using Nil by (intro an_Write_plain) simp_all
  then show ?case using Nil(1) by (simp add: same_stream_def rebuffer_def)
next
  case (Cons q ps)
  obtain r rest s1 where pr: "process_pending env (an_pending s @ q) s = (r, rest, s1)" by (metis prod_cases3)
  have w: "an_Write env q s = (r, rebuffer rest r s1)" using Cons.prems pr by (intro an_Write_plain) simp_all
  have len: "length rest \<le> length (an_pending s @ q)" using pr by (rule process_pending_length)
  show ?case
  proof (cases r)
    case (Some e)
    have "process_pending env (an_pending s @ q @ concat ps) s = (Some e, rest @ concat ps, s1)"
      using process_pending_append [of env "an_pending s @ q" "concat ps" s] by (simp add: pr Some)
    then have "an_Write env (q @ concat ps) s = (Some e, rebuffer (rest @ concat ps) (Some e) s1)"
      using Cons.prems by (intro an_Write_plain) simp_all
    moreover have "write_pieces env (q # ps) s = rebuffer rest (Some e) s1"
      by (simp add: w Some write_pieces_error rebuffer_def)
    ultimately show ?thesis by (simp add: same_stream_def rebuffer_def)
  next
    case None
    let ?s = "rebuffer rest None s1"
    obtain r2 rest2 s2 where p2: "process_pending env (rest @ concat ps) s1 = (r2, rest2, s2)" by (metis prod_cases3)
    have f: "an_pending ?s = rest" "an_err ?s = None" by (simp_all add: rebuffer_def)
    have "process_pending env (an_pending s @ q @ concat ps) s = (r2, rest2, s2)"
      using process_pending_append [of env "an_pending s @ q" "concat ps" s] by (simp add: pr None p2)
    then have "an_Write env (q @ concat ps) s = (r2, rebuffer rest2 r2 s2)"
      using Cons.prems by (intro an_Write_plain) simp_all
    moreover have "an_Write env (concat ps) ?s = (r2, rebuffer rest2 r2 s2)"
      using Cons.prems len an_Write_plain [of ?s "concat ps" env r2 rest2 "rebuffer rest None s2"]
      by (simp add: f process_rebuffer p2) (simp add: rebuffer_def)
    moreover have "same_stream (write_pieces env ps ?s) (snd (an_Write env (concat ps) ?s))"
      using Cons.prems len process_none [OF pr [unfolded None]] by (intro Cons.IH) (simp_all add: f)
    ultimately show ?thesis by (simp add: w None)
  qed
qed

text \<open>How a network cuts a stream into pieces makes no difference. For a stream without carriage
  returns that fits the buffer, any two ways of writing the same bytes to the stream writer leave
  the client with the same response, the same error and the same end.\<close>

theorem sse_pieces_irrelevant:
  assumes "concat ps' = concat ps" and "carriage_return \<notin> set (concat ps)" and "int (length (concat ps)) \<le> anthropicSSEBufferLimit"
  shows "let s = write_pieces env ps (newAnthropicSSEWriter c model); t = write_pieces env ps' (newAnthropicSSEWriter c model) in
    an_client s = an_client t \<and> an_err s = an_err t \<and> an_Finish s = an_Finish t \<and> an_started s = an_started t \<and> (an_err s = None \<longrightarrow> s = t)"
proof -
  let ?s = "newAnthropicSSEWriter c model" and ?whole = "snd (an_Write env (concat ps) (newAnthropicSSEWriter c model))"
  have new: "an_err ?s = None" "an_pending ?s = ''''" by (simp_all add: newAnthropicSSEWriter_def)
  have "same_stream (write_pieces env ps ?s) ?whole" "same_stream (write_pieces env ps' ?s) ?whole"
    using assms pieces_concat [of ?s ps env] pieces_concat [of ?s ps' env] by (simp_all add: new)
  from same_stream_common [OF this] show ?thesis unfolding Let_def .
qed

definition sample_client :: client where
  "sample_client = \<lparr>cl_header = [], cl_sent = None, cl_body = '''', cl_broken = False\<rparr>"

theorem sse_pieces_irrelevant_witness:
  "let t = ''event: error'' @ [newline] @ ''data: {}'' @ [newline, newline];
       s = write_pieces sample_stream_env [t] (newAnthropicSSEWriter sample_client ''claude'');
       s' = write_pieces sample_stream_env [take 4 t, drop 4 t] (newAnthropicSSEWriter sample_client ''claude'') in
   carriage_return \<notin> set t \<and> an_client s' = an_client s \<and> an_Finish s' = an_Finish s"
proof -
  let ?t = "''event: error'' @ [newline] @ ''data: {}'' @ [newline, newline]"
  have "concat [?t] = concat [take 4 ?t, drop 4 ?t]" "carriage_return \<notin> set (concat [take 4 ?t, drop 4 ?t])"
    "int (length (concat [take 4 ?t, drop 4 ?t])) \<le> anthropicSSEBufferLimit" by code_simp+
  from sse_pieces_irrelevant [OF this, of sample_stream_env sample_client "''claude''"] this(2)
  show ?thesis unfolding Let_def by (simp only: concat.simps append_Nil2 append_take_drop_id) simp
qed

text \<open>With line ends of two characters it does: cut inside the empty line, an event is not seen.\<close>

definition crlf :: string where
  "crlf = [carriage_return, newline]"

lemma crlf_pieces_differ:
  "an_pending (write_pieces env [''event: response.queued'' @ crlf @ crlf] (newAnthropicSSEWriter c model)) = ''''"
  "an_pending (write_pieces env [''event: response.queued'' @ crlf @ [carriage_return], [newline]] (newAnthropicSSEWriter c model))
     = ''event: response.queued'' @ [newline, carriage_return, newline]"
proof -
  let ?s = "newAnthropicSSEWriter c model" and ?whole = "''event: response.queued'' @ [newline, newline]"
    and ?part = "''event: response.queued'' @ [newline, carriage_return]"
  have cut: "cut_event ?whole = Some (''event: response.queued'', '''')" "cut_event ?part = None" "cut_event (?part @ [newline]) = None" by code_simp+
  have norm: "normalize_crlf (''event: response.queued'' @ crlf @ crlf) = ?whole"
      "normalize_crlf (''event: response.queued'' @ crlf @ [carriage_return]) = ?part" "normalize_crlf [newline] = [newline]" by code_simp+
  have "parseResponsesSSEEvent ''event: response.queued'' = (''response.queued'', '''')" by code_simp
  then have "handleEvent env ''event: response.queued'' s = (None, s)" for s by (simp add: handleEvent_def dispatch_event_def)
  then have whole: "process_pending env ?whole s = (None, '''', s)" for s
    by (subst process_pending.simps) (simp only: cut option.case prod.case, simp add: process_pending.simps)
  have part: "process_pending env ?part s = (None, ?part, s)" "process_pending env (?part @ [newline]) s = (None, ?part @ [newline], s)" for s
    by (subst process_pending.simps, simp only: cut option.case)+
  have limit: "int (length ?whole) \<le> anthropicSSEBufferLimit" "int (length (?part @ [newline])) \<le> anthropicSSEBufferLimit" by code_simp+
  show "an_pending (write_pieces env [''event: response.queued'' @ crlf @ crlf] ?s) = ''''"
    using limit(1) unfolding write_pieces.simps an_Write_def norm by (simp add: newAnthropicSSEWriter_def whole [unfolded append.simps])
  show "an_pending (write_pieces env [''event: response.queued'' @ crlf @ [carriage_return], [newline]] ?s)
      = ''event: response.queued'' @ [newline, carriage_return, newline]"
    using limit(2) unfolding write_pieces.simps an_Write_def norm
    by (simp add: newAnthropicSSEWriter_def part [unfolded append.simps] Let_def)
qed

section \<open>What an Anthropic client assembles\<close>

text \<open>A block: its index, type, identifier, name and text (for a call, the text of its input).\<close>

type_synonym block_view = "nat \<times> string \<times> string \<times> string \<times> string"

record anthropic_view =
  av_started :: bool
  av_blocks :: "block_view list"
  av_closed :: "nat list"
  av_stop :: "string option"
  av_ended :: bool

definition members :: "json \<Rightarrow> (string \<times> json) list" where
  "members j = (case j of JObj kvs \<Rightarrow> kvs | _ \<Rightarrow> [])"

definition index_member :: "(string \<times> json) list \<Rightarrow> nat" where
  "index_member kvs = (case map_of kvs ''index'' of Some (JNum t) \<Rightarrow> (case Atoi t of Some i \<Rightarrow> nat i | None \<Rightarrow> 0) | _ \<Rightarrow> 0)"

definition extend_block :: "nat \<Rightarrow> string \<Rightarrow> block_view \<Rightarrow> block_view" where
  "extend_block index delta b = (case b of (i, ty, d, n, x) \<Rightarrow> (i, ty, d, n, if i = index then x @ delta else x))"

definition read_event :: "string \<times> json \<Rightarrow> anthropic_view \<Rightarrow> anthropic_view" where
  "read_event e v =
     (let kvs = members (snd e); block = object_member kvs ''content_block''; delta = object_member kvs ''delta'' in
      if fst e = ''message_start'' then v\<lparr>av_started := True\<rparr>
      else if fst e = ''content_block_start'' then
        v\<lparr>av_blocks := av_blocks v @ [(index_member kvs, text_member block ''type'', text_member block ''id'', text_member block ''name'', '''')]\<rparr>
      else if fst e = ''content_block_delta'' then
        v\<lparr>av_blocks := map (extend_block (index_member kvs) (text_member delta ''text'' @ text_member delta ''partial_json'')) (av_blocks v)\<rparr>
      else if fst e = ''content_block_stop'' then v\<lparr>av_closed := av_closed v @ [index_member kvs]\<rparr>
      else if fst e = ''message_delta'' then v\<lparr>av_stop := string_member delta ''stop_reason''\<rparr>
      else if fst e = ''message_stop'' then v\<lparr>av_ended := True\<rparr>
      else v)"

definition empty_view :: anthropic_view where
  "empty_view = \<lparr>av_started = False, av_blocks = [], av_closed = [], av_stop = None, av_ended = False\<rparr>"

definition assemble_events :: "(string \<times> json) list \<Rightarrow> anthropic_view" where
  "assemble_events evs = fold read_event evs empty_view"

definition frames :: "adapter_env \<Rightarrow> (string \<times> json) list \<Rightarrow> string" where
  "frames env evs = concat (map (\<lambda>(event, j). sse_frame event (encoded env j)) evs)"

text \<open>What the client was sent assembles to the view.\<close>

definition sent_view :: "adapter_env \<Rightarrow> client \<Rightarrow> anthropic_stream \<Rightarrow> anthropic_view \<Rightarrow> bool" where
  "sent_view env c0 s v \<longleftrightarrow> \<not> cl_broken (an_client s)
     \<and> (\<exists>evs. cl_body (an_client s) = cl_body c0 @ frames env evs \<and> assemble_events evs = v)"

definition encodes :: "adapter_env \<Rightarrow> bool" where
  "encodes env \<longleftrightarrow> (\<forall>j. jc_encode (ae_codec env) j \<noteq> None)"

lemma client_write_ok: "\<not> cl_broken c \<Longrightarrow> client_Write t c = (True, (client_WriteHeader 200 c)\<lparr>cl_body := cl_body c @ t\<rparr>)"
  by (simp add: client_Write_def client_WriteHeader_def Let_def)

lemma emit_view:
  assumes "encodes env" and "sent_view env c0 s v"
  shows "\<exists>c. an_emit env event j s = (None, s\<lparr>an_client := c\<rparr>) \<and> sent_view env c0 (t\<lparr>an_client := c\<rparr>) (read_event (event, j) v)"
proof -
  obtain body where b: "jc_encode (ae_codec env) j = Some body" using assms(1) by (auto simp: encodes_def)
  obtain evs where e: "cl_body (an_client s) = cl_body c0 @ frames env evs" "assemble_events evs = v" and nb: "\<not> cl_broken (an_client s)"
    using assms(2) by (auto simp: sent_view_def)
  let ?c = "(client_WriteHeader 200 (an_client s))\<lparr>cl_body := cl_body (an_client s) @ sse_frame event body\<rparr>"
  have "an_emit env event j s = (None, s\<lparr>an_client := ?c\<rparr>)" by (simp add: an_emit_def b client_write_ok [OF nb])
  moreover have "\<not> cl_broken ?c" using nb by (simp add: client_WriteHeader_def)
  moreover have "\<exists>evs. cl_body ?c = cl_body c0 @ frames env evs \<and> assemble_events evs = read_event (event, j) v"
    using e b by (intro exI [of _ "evs @ [(event, j)]"]) (simp add: frames_def assemble_events_def encoded_def)
  ultimately show ?thesis by (intro exI [of _ ?c]) (simp add: sent_view_def)
qed

end
