(* ===== verification/Anthropic_Equivalence.thy ===== *)
theory Anthropic_Equivalence
  imports Anthropic_Stream
begin

text \<open>
  The streamed and the whole message of the Anthropic API agree: runs of the stream writer over an
  upstream answer (the items of \<open>Responses_Equivalence\<close>), and what a client assembles from them.
\<close>

section \<open>Decoding\<close>

lemma decode_text_event:
  "struct_value [(''item_id'', string_value (\<lambda>v s. s\<lparr>sd_ItemID := v\<rparr>)), (''delta'', string_value (\<lambda>v s. s\<lparr>sd_Delta := v\<rparr>))] (snd (ev_text i d)) zero_delta
     = Some (zero_delta\<lparr>sd_Delta := d, sd_ItemID := i\<rparr>)"
  "nested_struct ''item'' done_value (snd (ev_done i)) zero_item = Some (zero_item\<lparr>si_ID := i\<rparr>)"
  "nested_struct ''response'' (struct_value [(''id'', string_value (\<lambda>v s. v))]) (snd (ev_created i m)) '''' = Some i"
  by code_simp+

section \<open>Reading the events\<close>

lemma index_member_text: "int i < 2 ^ 63 \<Longrightarrow> map_of kvs ''index'' = Some (JNum (nat_text i)) \<Longrightarrow> index_member kvs = i"
  by (simp add: index_member_def Atoi_nat_text)

lemma read_block_start:
  assumes "int i < 2 ^ 63"
  shows "read_event (''content_block_start'', block_start_json i (text_content '''')) v = v\<lparr>av_blocks := av_blocks v @ [(i, ''text'', '''', '''', '''')]\<rparr>"
    and "c \<noteq> '''' \<Longrightarrow> n \<noteq> '''' \<Longrightarrow> read_event (''content_block_start'', block_start_json i
        \<lparr>ac_Type = ''tool_use'', ac_Text = '''', ac_ID = c, ac_Name = n, ac_Input = Some (JObj [])\<rparr>) v
      = v\<lparr>av_blocks := av_blocks v @ [(i, ''tool_use'', c, n, '''')]\<rparr>"
  using index_member_text [OF assms]
  by (simp_all add: read_event_def block_start_json_def members_def object_member_def content_json_def text_content_def omitempty_def
      text_member_def string_member_def)

lemma text_member_omitempty: "text_member ((''type'', JStr k) # omitempty name d) name' = (if name' = ''type'' then k else if name' = name then d else '''')"
  by (auto simp: text_member_def string_member_def omitempty_def)

lemma read_delta:
  assumes "int i < 2 ^ 63" and "kind = ''text_delta'' \<or> kind = ''input_json_delta''"
  shows "read_event (''content_block_delta'', delta_json i kind d) v = v\<lparr>av_blocks := map (extend_block i d) (av_blocks v)\<rparr>"
  using assms(2) index_member_text [OF assms(1)]
  by (auto simp: read_event_def delta_json_def members_def object_member_def text_member_omitempty)

lemma read_block_stop:
  "int i < 2 ^ 63 \<Longrightarrow> read_event (''content_block_stop'', block_stop_json i) v = v\<lparr>av_closed := av_closed v @ [i]\<rparr>"
  using index_member_text [of i] by (simp add: read_event_def block_stop_json_def members_def)

lemma read_message_delta: "read_event (''message_delta'', message_delta_json r n) v = v\<lparr>av_stop := Some r\<rparr>"
  by (simp add: read_event_def message_delta_json_def members_def object_member_def string_member_def)

lemma read_message_stop: "read_event (''message_stop'', j) v = v\<lparr>av_ended := True\<rparr>"
  by (simp add: read_event_def Let_def)

lemma read_message_start: "read_event (''message_start'', j) v = v\<lparr>av_started := True\<rparr>"
  by (simp add: read_event_def Let_def)

lemma emit_sent:
  assumes "encodes env" and "sent_view env c0 s v" and "an_client t = an_client s"
  shows "\<exists>c. an_emit env event j t = (None, t\<lparr>an_client := c\<rparr>) \<and> sent_view env c0 (t\<lparr>an_client := c\<rparr>) (read_event (event, j) v)"
proof -
  have "sent_view env c0 t v" using assms(2,3) by (simp add: sent_view_def)
  then show ?thesis by (rule emit_view [OF assms(1)])
qed

section \<open>Runs\<close>

text \<open>Between two items: every block is closed, and every index is below the next one.\<close>

definition idle_rel :: "adapter_env \<Rightarrow> client \<Rightarrow> anthropic_stream \<Rightarrow> anthropic_view \<Rightarrow> bool" where
  "idle_rel env c0 s v \<longleftrightarrow> sent_view env c0 s v \<and> an_started s \<and> an_active s = [] \<and> \<not> an_ended s
     \<and> list_all (\<lambda>b. fst b < length (an_indices s)) (av_blocks v)"

text \<open>Inside an item: its block is the last one and open.\<close>

definition open_rel :: "adapter_env \<Rightarrow> client \<Rightarrow> anthropic_stream \<Rightarrow> anthropic_view \<Rightarrow> nat \<Rightarrow> string \<Rightarrow> bool" where
  "open_rel env c0 s v i ident \<longleftrightarrow> sent_view env c0 s v \<and> an_started s \<and> an_active s = [i] \<and> \<not> an_ended s
     \<and> list_all (\<lambda>b. fst b < length (an_indices s)) (av_blocks v) \<and> int (length (an_indices s)) < 2 ^ 63
     \<and> i < length (an_indices s) \<and> map_of (an_indices s) ident = Some i"

fun dispatch_all :: "adapter_env \<Rightarrow> (string \<times> string) list \<Rightarrow> anthropic_stream \<Rightarrow> sse_error option \<times> anthropic_stream" where
  "dispatch_all env [] s = (None, s)"
| "dispatch_all env ((ty, data) # es) s = next_step (dispatch_event env ty data s) (dispatch_all env es)"

lemma dispatch_append: "dispatch_all env (es @ es') s = next_step (dispatch_all env es s) (dispatch_all env es')"
  by (induction env es s rule: dispatch_all.induct) (auto simp: next_step_def split: prod.split option.split)

lemma dispatch_types:
  "dispatch_event env ''response.output_item.added'' data s = startOutputItem env data s"
  "dispatch_event env ''response.output_text.delta'' data s = writeTextDelta env data s"
  "dispatch_event env ''response.function_call_arguments.delta'' data s = writeToolDelta env data s"
  "dispatch_event env ''response.output_item.done'' data s = stopOutputItem env data s"
  "dispatch_event env ''response.completed'' data s = completeMessage env data s"
  by (simp_all add: dispatch_event_def)

lemma extend_extend: "extend_block i x \<circ> extend_block i d = extend_block i (d @ x)"
  by (auto simp: extend_block_def fun_eq_iff)

lemma dispatch_delta:
  assumes e: "encodes env" and o: "open_rel env c0 s v i ident"
    and d: "ty = ''response.output_text.delta'' \<and> jc_decode (ae_codec env) data = Some (snd (ev_text ident delta))
      \<or> ty = ''response.function_call_arguments.delta'' \<and> ident \<noteq> '''' \<and> jc_decode (ae_codec env) data = Some (snd (ev_arguments ident delta))"
  shows "\<exists>s'. dispatch_event env ty data s = (None, s') \<and> an_hadToolUse s' = an_hadToolUse s \<and> an_indices s' = an_indices s
    \<and> open_rel env c0 s' (v\<lparr>av_blocks := map (extend_block i delta) (av_blocks v)\<rparr>) i ident"
proof -
  let ?kind = "if ty = ''response.output_text.delta'' then ''text_delta'' else ''input_json_delta''"
  have m: "map_of (an_indices s) ident = Some i" and i: "int i < 2 ^ 63" using o by (auto simp: open_rel_def)
  have eq: "dispatch_event env ty data s = an_emit env ''content_block_delta'' (delta_json i ?kind delta) s"
    using d
  proof
    assume "ty = ''response.output_text.delta'' \<and> jc_decode (ae_codec env) data = Some (snd (ev_text ident delta))"
    then show ?thesis by (simp add: dispatch_types writeTextDelta_def decode_data_def decode_text_event emitDelta_def m)
  next
    assume "ty = ''response.function_call_arguments.delta'' \<and> ident \<noteq> '''' \<and> jc_decode (ae_codec env) data = Some (snd (ev_arguments ident delta))"
    then show ?thesis by (simp add: dispatch_types writeToolDelta_def decode_data_def decode_events emitDelta_def m)
  qed
  have "sent_view env c0 s v" using o by (simp add: open_rel_def)
  then obtain c where "an_emit env ''content_block_delta'' (delta_json i ?kind delta) s = (None, s\<lparr>an_client := c\<rparr>)"
      "sent_view env c0 (s\<lparr>an_client := c\<rparr>) (read_event (''content_block_delta'', delta_json i ?kind delta) v)"
    using emit_view [OF e, of c0 s v _ _ s] by blast
  moreover have "read_event (''content_block_delta'', delta_json i ?kind delta) v = v\<lparr>av_blocks := map (extend_block i delta) (av_blocks v)\<rparr>"
    using i by (intro read_delta) auto
  moreover have "list_all (\<lambda>b. fst b < n) (map (extend_block i delta) bs) = list_all (\<lambda>b. fst b < n) bs" for n bs
    by (induction bs) (auto simp: extend_block_def)
  ultimately show ?thesis using o unfolding eq open_rel_def by auto
qed

lemma dispatch_deltas:
  assumes e: "encodes env" and "open_rel env c0 s v i ident" and "ident \<noteq> ''''"
    and "carries env (map (ev_text ident) ds) es \<or> carries env (map (ev_arguments ident) ds) es"
  shows "\<exists>s'. dispatch_all env es s = (None, s') \<and> an_hadToolUse s' = an_hadToolUse s \<and> an_indices s' = an_indices s
    \<and> open_rel env c0 s' (v\<lparr>av_blocks := map (extend_block i (concat ds)) (av_blocks v)\<rparr>) i ident"
  using assms(2-)
proof (induction ds arbitrary: es s v)
  case Nil
  have "map (extend_block i []) bs = bs" for bs by (induction bs) (auto simp: extend_block_def)
  then show ?case using Nil by simp
next
  case (Cons d ds)
  obtain ty data es' where es: "es = (ty, data) # es'"
    and d: "ty = ''response.output_text.delta'' \<and> jc_decode (ae_codec env) data = Some (snd (ev_text ident d))
      \<or> ty = ''response.function_call_arguments.delta'' \<and> ident \<noteq> '''' \<and> jc_decode (ae_codec env) data = Some (snd (ev_arguments ident d))"
    and rest: "carries env (map (ev_text ident) ds) es' \<or> carries env (map (ev_arguments ident) ds) es'"
    using Cons.prems(2,3) by (auto simp: carries_Cons)
  from dispatch_delta [OF e Cons.prems(1) d] obtain s1 where s1: "dispatch_event env ty data s = (None, s1)"
      "an_hadToolUse s1 = an_hadToolUse s" "an_indices s1 = an_indices s"
      "open_rel env c0 s1 (v\<lparr>av_blocks := map (extend_block i d) (av_blocks v)\<rparr>) i ident" by blast
  from Cons.IH [OF s1(4) Cons.prems(2) rest] show ?case unfolding es by (auto simp: s1(1-3) next_step_def extend_extend)
qed

text \<open>The block an item becomes, without its index, and the names it is known by.\<close>

fun item_block :: "up_item \<Rightarrow> string \<times> string \<times> string \<times> string" where
  "item_block (UMessage ident deltas) = (''text'', '''', '''', concat deltas)"
| "item_block (UCall ident callid name deltas) = (''tool_use'', callid, name, concat deltas)"

fun item_keys :: "up_item \<Rightarrow> string list" where
  "item_keys (UMessage ident deltas) = [ident]"
| "item_keys (UCall ident callid name deltas) = [ident, callid]"

fun is_call :: "up_item \<Rightarrow> bool" where
  "is_call (UMessage ident deltas) \<longleftrightarrow> False"
| "is_call (UCall ident callid name deltas) \<longleftrightarrow> True"

definition item_added :: "up_item \<Rightarrow> up_event" where
  "item_added item = (case item of UMessage ident deltas \<Rightarrow> ev_message ident | UCall ident callid name deltas \<Rightarrow> ev_call ident callid name)"

definition opened :: "nat \<Rightarrow> up_item \<Rightarrow> block_view" where
  "opened i item = (case item_block item of (ty, d, n, x) \<Rightarrow> (i, ty, d, n, ''''))"

lemma dispatch_added:
  assumes e: "encodes env" and idle: "idle_rel env c0 s v" and n: "item_named item" and fresh: "\<not> has_key (an_indices s) (hd (item_keys item))"
    and d: "jc_decode (ae_codec env) data = Some (snd (item_added item))" and b: "int (length (an_indices s)) + 2 < 2 ^ 63"
  defines "L \<equiv> length (an_indices s)"
  shows "\<exists>s'. dispatch_event env ''response.output_item.added'' data s = (None, s') \<and> open_rel env c0 s' (v\<lparr>av_blocks := av_blocks v @ [opened L item]\<rparr>) L (hd (item_keys item))
    \<and> an_hadToolUse s' = (an_hadToolUse s \<or> is_call item) \<and> L < length (an_indices s') \<and> length (an_indices s') \<le> L + 2
    \<and> (\<forall>k. has_key (an_indices s') k \<longleftrightarrow> has_key (an_indices s) k \<or> k \<in> set (item_keys item))"
proof -
  have s: "sent_view env c0 s v" "an_started s" "an_active s = []" "\<not> an_ended s" "list_all (\<lambda>b. fst b < L) (av_blocks v)"
    using idle by (auto simp: idle_rel_def L_def)
  have start: "startMessage env s = (None, s)" using s(2) by (simp add: startMessage_def)
  have weaken: "list_all (\<lambda>b. fst b < m) (av_blocks v)" if "L \<le> m" for m using s(5) that by (auto simp: list_all_iff)
  have bL: "int L < 2 ^ 63" using b by (simp add: L_def)
  show ?thesis
  proof (cases item)
    case (UMessage i ds)
    let ?s = "s\<lparr>an_indices := AList.update i L (an_indices s), an_active := [L]\<rparr>"
    have eq: "dispatch_event env ''response.output_item.added'' data s = an_emit env ''content_block_start'' (block_start_json L (text_content '''')) ?s"
      using n d UMessage by (simp add: dispatch_types startOutputItem_def decode_data_def item_added_def decode_events start next_step_def Let_def
          insert_active_def s(3) L_def)
    obtain c where "an_emit env ''content_block_start'' (block_start_json L (text_content '''')) ?s = (None, ?s\<lparr>an_client := c\<rparr>)"
        "sent_view env c0 (?s\<lparr>an_client := c\<rparr>) (read_event (''content_block_start'', block_start_json L (text_content '''')) v)"
      using emit_sent [OF e s(1), of ?s] by force
    moreover from this(2) have "sent_view env c0 (?s\<lparr>an_client := c\<rparr>) (v\<lparr>av_blocks := av_blocks v @ [opened L item]\<rparr>)"
      using UMessage by (simp add: read_block_start(1) [OF bL] opened_def)
    moreover have "length (AList.update i L (an_indices s)) = Suc L" using fresh UMessage by (simp add: length_update_new L_def)
    ultimately show ?thesis using s b weaken [of "Suc L"] UMessage unfolding eq by (auto simp: open_rel_def opened_def L_def)
  next
    case (UCall i cid nm ds)
    let ?c = "\<lparr>ac_Type = ''tool_use'', ac_Text = '''', ac_ID = cid, ac_Name = nm, ac_Input = Some (JObj [])\<rparr>"
    let ?ix = "AList.update cid L (AList.update i L (an_indices s))"
    let ?s = "s\<lparr>an_indices := ?ix, an_hadToolUse := True, an_active := [L]\<rparr>"
    have eq: "dispatch_event env ''response.output_item.added'' data s = an_emit env ''content_block_start'' (block_start_json L ?c) ?s"
      using n d UCall by (simp add: dispatch_types startOutputItem_def decode_data_def item_added_def decode_events start next_step_def Let_def
          insert_active_def s(3) L_def)
    obtain c where "an_emit env ''content_block_start'' (block_start_json L ?c) ?s = (None, ?s\<lparr>an_client := c\<rparr>)"
        "sent_view env c0 (?s\<lparr>an_client := c\<rparr>) (read_event (''content_block_start'', block_start_json L ?c) v)"
      using emit_sent [OF e s(1), of ?s] by force
    moreover have "cid \<noteq> ''''" "nm \<noteq> ''''" using n UCall by auto
    moreover from this calculation(2) have "sent_view env c0 (?s\<lparr>an_client := c\<rparr>) (v\<lparr>av_blocks := av_blocks v @ [opened L item]\<rparr>)"
      using UCall by (simp add: read_block_start(2) [OF bL] opened_def)
    moreover have "length (AList.update i L (an_indices s)) = Suc L" using fresh UCall by (simp add: length_update_new L_def)
    then have "Suc L \<le> length ?ix" "length ?ix \<le> L + 2"
      using length_update_le [of cid L "AList.update i L (an_indices s)"] length_update_ge [of "AList.update i L (an_indices s)" cid L] by auto
    ultimately show ?thesis using s b weaken [of "length ?ix"] UCall unfolding eq by (auto simp: open_rel_def opened_def L_def)
  qed
qed

lemma dispatch_done:
  assumes e: "encodes env" and o: "open_rel env c0 s v i ident" and d: "jc_decode (ae_codec env) data = Some (snd (ev_done ident))" and "ident \<noteq> ''''"
  shows "\<exists>s'. dispatch_event env ''response.output_item.done'' data s = (None, s') \<and> idle_rel env c0 s' (v\<lparr>av_closed := av_closed v @ [i]\<rparr>)
    \<and> an_hadToolUse s' = an_hadToolUse s \<and> an_indices s' = an_indices s"
proof -
  have s: "sent_view env c0 s v" "an_active s = [i]" "map_of (an_indices s) ident = Some i" "int i < 2 ^ 63" using o by (auto simp: open_rel_def)
  have eq: "dispatch_event env ''response.output_item.done'' data s = an_emit env ''content_block_stop'' (block_stop_json i) (s\<lparr>an_active := []\<rparr>)"
    using assms(4) by (simp add: dispatch_types stopOutputItem_def decode_data_def d decode_text_event s stopBlock_def)
  obtain c where "an_emit env ''content_block_stop'' (block_stop_json i) (s\<lparr>an_active := []\<rparr>) = (None, s\<lparr>an_active := [], an_client := c\<rparr>)"
      "sent_view env c0 (s\<lparr>an_active := [], an_client := c\<rparr>) (read_event (''content_block_stop'', block_stop_json i) v)"
    using emit_sent [OF e s(1), of "s\<lparr>an_active := []\<rparr>"] by force
  then show ?thesis using o unfolding eq by (auto simp: read_block_stop [OF s(4)] idle_rel_def open_rel_def)
qed

lemma dispatch_item:
  assumes e: "encodes env" and idle: "idle_rel env c0 s v" and n: "item_named item" and fresh: "\<not> has_key (an_indices s) (hd (item_keys item))"
    and c: "carries env (item_events item) es" and b: "int (length (an_indices s)) + 2 < 2 ^ 63"
  defines "L \<equiv> length (an_indices s)"
  shows "\<exists>s'. dispatch_all env es s = (None, s')
    \<and> idle_rel env c0 s' (v\<lparr>av_blocks := av_blocks v @ [(L, item_block item)], av_closed := av_closed v @ [L]\<rparr>)
    \<and> an_hadToolUse s' = (an_hadToolUse s \<or> is_call item) \<and> L < length (an_indices s') \<and> length (an_indices s') \<le> L + 2
    \<and> (\<forall>k. has_key (an_indices s') k \<longleftrightarrow> has_key (an_indices s) k \<or> k \<in> set (item_keys item))"
proof -
  let ?ident = "hd (item_keys item)"
  obtain ds where ds: "ds = (case item of UMessage _ ds \<Rightarrow> ds | UCall _ _ _ ds \<Rightarrow> ds)" by blast
  obtain d1 es1 d2 where es: "es = (''response.output_item.added'', d1) # es1 @ [(''response.output_item.done'', d2)]"
    and d1: "jc_decode (ae_codec env) d1 = Some (snd (item_added item))" and d2: "jc_decode (ae_codec env) d2 = Some (snd (ev_done ?ident))"
    and c1: "carries env (map (ev_text ?ident) ds) es1 \<or> carries env (map (ev_arguments ?ident) ds) es1"
    using c ds by (cases item) (auto simp: carries_Cons carries_append item_added_def)
  have ident: "?ident \<noteq> ''''" using n by (cases item) auto
  from dispatch_added [OF e idle n fresh d1 b] obtain s1 where s1: "dispatch_event env ''response.output_item.added'' d1 s = (None, s1)"
      "open_rel env c0 s1 (v\<lparr>av_blocks := av_blocks v @ [opened L item]\<rparr>) L ?ident"
      "an_hadToolUse s1 = (an_hadToolUse s \<or> is_call item)" "L < length (an_indices s1)" "length (an_indices s1) \<le> L + 2"
      "\<forall>k. has_key (an_indices s1) k \<longleftrightarrow> has_key (an_indices s) k \<or> k \<in> set (item_keys item)"
    unfolding L_def by blast
  from dispatch_deltas [OF e s1(2) ident c1] obtain s2 where s2: "dispatch_all env es1 s1 = (None, s2)" "an_hadToolUse s2 = an_hadToolUse s1"
      "an_indices s2 = an_indices s1"
      "open_rel env c0 s2 (v\<lparr>av_blocks := map (extend_block L (concat ds)) (av_blocks v @ [opened L item])\<rparr>) L ?ident" by auto
  have "map (extend_block L x) (av_blocks v) = av_blocks v" for x
    using idle by (intro map_idI) (auto simp: idle_rel_def L_def list_all_iff extend_block_def)
  moreover have "extend_block L (concat ds) (opened L item) = (L, item_block item)"
    using ds by (cases item) (simp_all add: extend_block_def opened_def)
  ultimately have "open_rel env c0 s2 (v\<lparr>av_blocks := av_blocks v @ [(L, item_block item)]\<rparr>) L ?ident" using s2(4) by simp
  from dispatch_done [OF e this d2 ident] obtain s3 where "dispatch_event env ''response.output_item.done'' d2 s2 = (None, s3)"
      "idle_rel env c0 s3 (v\<lparr>av_blocks := av_blocks v @ [(L, item_block item)], av_closed := av_closed v @ [L]\<rparr>)"
      "an_hadToolUse s3 = an_hadToolUse s2" "an_indices s3 = an_indices s2" by auto
  then show ?thesis using s1 s2 by (auto simp: es dispatch_append next_step_def)
qed

lemma dispatch_items:
  assumes e: "encodes env" and "idle_rel env c0 s v" and "list_all item_named items" and "distinct (concat (map item_keys items))"
    and "\<forall>k \<in> set (concat (map item_keys items)). \<not> has_key (an_indices s) k"
    and "carries env (concat (map item_events items)) es" and "int (length (an_indices s)) + 2 * int (length items) < 2 ^ 63"
  shows "\<exists>s' ixs. dispatch_all env es s = (None, s') \<and> length ixs = length items \<and> sorted_wrt (<) ixs \<and> list_all (\<lambda>i. length (an_indices s) \<le> i) ixs
    \<and> idle_rel env c0 s' (v\<lparr>av_blocks := av_blocks v @ zip ixs (map item_block items), av_closed := av_closed v @ ixs\<rparr>)
    \<and> an_hadToolUse s' = (an_hadToolUse s \<or> list_ex is_call items)"
  using assms(2-)
proof (induction items arbitrary: es s v)
  case Nil
  then show ?case by (intro exI [of _ s] exI [of _ "[]"]) simp
next
  case (Cons item items)
  let ?L = "length (an_indices s)"
  obtain es1 es2 where es: "es = es1 @ es2" "carries env (item_events item) es1" "carries env (concat (map item_events items)) es2"
    using Cons.prems(5) by (auto simp: carries_append)
  have hd: "hd (item_keys item) \<in> set (item_keys item)" by (cases item) auto
  from Cons.prems(6) have "int ?L + 2 < 2 ^ 63" by simp
  then obtain s1 where s1: "dispatch_all env es1 s = (None, s1)"
      "idle_rel env c0 s1 (v\<lparr>av_blocks := av_blocks v @ [(?L, item_block item)], av_closed := av_closed v @ [?L]\<rparr>)"
      "an_hadToolUse s1 = (an_hadToolUse s \<or> is_call item)" "?L < length (an_indices s1)" "length (an_indices s1) \<le> ?L + 2"
      and k: "\<forall>k. has_key (an_indices s1) k \<longleftrightarrow> has_key (an_indices s) k \<or> k \<in> set (item_keys item)"
    using dispatch_item [OF e Cons.prems(1) _ _ es(2)] Cons.prems(2,4) hd by force
  have "distinct (concat (map item_keys items))" "\<forall>k \<in> set (concat (map item_keys items)). \<not> has_key (an_indices s1) k"
    using Cons.prems(3,4) k by auto
  moreover have "int (length (an_indices s1)) + 2 * int (length items) < 2 ^ 63" using Cons.prems(6) s1(5) by simp
  ultimately obtain s2 ixs where s2: "dispatch_all env es2 s1 = (None, s2)" "length ixs = length items" "sorted_wrt (<) ixs"
      "list_all (\<lambda>i. length (an_indices s1) \<le> i) ixs"
      "idle_rel env c0 s2 (v\<lparr>av_blocks := (av_blocks v @ [(?L, item_block item)]) @ zip ixs (map item_block items), av_closed := (av_closed v @ [?L]) @ ixs\<rparr>)"
      "an_hadToolUse s2 = (an_hadToolUse s1 \<or> list_ex is_call items)"
    using Cons.IH [OF s1(2) _ _ _ es(3)] Cons.prems(2) by auto
  have "sorted_wrt (<) (?L # ixs)" "list_all (\<lambda>i. ?L \<le> i) (?L # ixs)" using s2(3,4) s1(4) by (auto simp: list_all_iff)
  then show ?case using s1 s2 by (intro exI [of _ s2] exI [of _ "?L # ixs"]) (auto simp: es(1) dispatch_append next_step_def)
qed

section \<open>The bytes of the stream\<close>

lemma cut_event_line: "newline \<notin> set a \<Longrightarrow> cut_event (a @ newline # newline # rest) = Some (a, rest)"
proof (induction a)
  case (Cons x xs)
  then show ?case by (cases xs) auto
qed simp

lemma cut_event_next: "newline \<notin> set a \<Longrightarrow> b \<noteq> newline \<Longrightarrow>
    cut_event (a @ newline # b # rest) = map_option (apfst (\<lambda>ev. a @ newline # ev)) (cut_event (b # rest))"
proof (induction a)
  case Nil
  then show ?case by (cases "cut_event (b # rest)") (auto simp: apfst_def map_prod_def)
next
  case (Cons x xs)
  then show ?case by (cases xs; cases "cut_event (b # rest)") (auto simp: apfst_def map_prod_def)
qed

lemma cut_event_text:
  assumes "line_safe ty" and "line_safe data"
  shows "cut_event (event_text (ty, data) @ rest) = Some (event_prefix @ ty @ newline # data_prefix @ data, rest)"
proof -
  obtain d ds where d: "data_prefix @ data = d # ds" "d \<noteq> newline" by (simp add: data_prefix_def newline_def)
  have "cut_event ((d # ds) @ newline # newline # rest) = Some (d # ds, rest)"
    using safe_line(1) [OF assms(2) prefix_facts(4-6)] unfolding d by (rule cut_event_line)
  moreover have "event_text (ty, data) @ rest = (event_prefix @ ty) @ newline # (data_prefix @ data) @ newline # newline # rest"
    by (simp add: event_text_def)
  ultimately show ?thesis
    using cut_event_next [OF safe_line(1) [OF assms(1) prefix_facts(1-3)] d(2), of "ds @ newline # newline # rest"]
    by (simp add: d apfst_def map_prod_def)
qed

lemma split_nl_line: "newline \<notin> set a \<Longrightarrow> split_nl a = [a]"
  by (induction a) auto

lemma split_nl_cons: "newline \<notin> set a \<Longrightarrow> split_nl (a @ newline # b) = a # split_nl b"
  by (induction a) auto

lemma parse_event:
  assumes "line_safe ty" and "line_safe data"
  shows "parseResponsesSSEEvent (event_prefix @ ty @ newline # data_prefix @ data) = (ty, data)"
proof -
  have "split_nl ((event_prefix @ ty) @ newline # data_prefix @ data) = [event_prefix @ ty, data_prefix @ data]"
    using split_nl_cons [OF safe_line(1) [OF assms(1) prefix_facts(1-3)]] split_nl_line [OF safe_line(1) [OF assms(2) prefix_facts(4-6)]] by simp
  then show ?thesis by (simp add: parseResponsesSSEEvent_def parse_line_def)
qed

lemma process_events:
  assumes "\<forall>(ty, data) \<in> set es. line_safe ty \<and> line_safe data" and "dispatch_all env es s = (None, s')"
  shows "process_pending env (concat (map event_text es)) s = (None, '''', s')"
  using assms
proof (induction es arbitrary: s)
  case Nil
  then show ?case by (simp add: process_pending.simps)
next
  case (Cons e es)
  obtain ty data where e: "e = (ty, data)" by fastforce
  with Cons.prems(1) have safe: "line_safe ty" "line_safe data" by auto
  obtain s1 where s1: "dispatch_event env ty data s = (None, s1)" "dispatch_all env es s1 = (None, s')"
    using Cons.prems(2) by (auto simp: e next_step_def split: prod.splits option.splits)
  have "process_pending env (event_text (ty, data) @ concat (map event_text es)) s = process_pending env (concat (map event_text es)) s1"
    by (subst process_pending.simps) (simp add: cut_event_text [OF safe] handleEvent_def parse_event [OF safe] s1(1))
  also have "\<dots> = (None, '''', s')" using Cons.prems(1) s1(2) by (intro Cons.IH) auto
  finally show ?case by (simp add: e)
qed

lemma event_text_plain: "line_safe ty \<Longrightarrow> line_safe data \<Longrightarrow> carriage_return \<notin> set (event_text (ty, data))"
  using prefix_facts(2,5) by (auto simp: event_text_def line_safe_def newline_def carriage_return_def)

section \<open>Begin and end\<close>

lemma dispatch_created:
  assumes e: "encodes env" and c: "\<not> cl_broken c0" and d: "jc_decode (ae_codec env) data = Some (snd (ev_created ident m))" and "ident \<noteq> ''''"
  shows "\<exists>s. dispatch_event env ''response.created'' data (newAnthropicSSEWriter c0 publicModel) = (None, s)
    \<and> idle_rel env c0 s (empty_view\<lparr>av_started := True\<rparr>) \<and> an_indices s = [] \<and> \<not> an_hadToolUse s"
proof -
  let ?c = "client_WriteHeader 200 (c0\<lparr>cl_header := event_headers (cl_header c0)\<rparr>)"
  let ?base = "(newAnthropicSSEWriter c0 publicModel)\<lparr>an_messageID := ident\<rparr>"
  let ?s = "?base\<lparr>an_started := True, an_client := ?c\<rparr>"
  have eq: "dispatch_event env ''response.created'' data (newAnthropicSSEWriter c0 publicModel) = an_emit env ''message_start'' (message_start_json ?base) ?s"
    using assms(4) by (simp add: dispatch_event_def created_id_def decode_data_def d decode_text_event startMessage_def newAnthropicSSEWriter_def Let_def)
  have "sent_view env c0 ?s empty_view"
    using c by (auto simp: sent_view_def client_WriteHeader_def frames_def assemble_events_def intro: exI [of _ "[]"])
  from emit_sent [OF e this refl, of "''message_start''" "message_start_json ?base"] show ?thesis
    unfolding eq read_message_start by (auto simp: idle_rel_def newAnthropicSSEWriter_def empty_view_def)
qed

lemma dispatch_completed:
  assumes e: "encodes env" and idle: "idle_rel env c0 s v" and d: "jc_decode (ae_codec env) data = Some (snd (ev_completed response))"
    and tok: "tokens_value (snd (ev_completed response)) None \<noteq> None"
  shows "\<exists>s'. dispatch_event env ''response.completed'' data s = (None, s') \<and> an_ended s'
    \<and> sent_view env c0 s' (v\<lparr>av_stop := Some (if an_hadToolUse s then ''tool_use'' else ''end_turn''), av_ended := True\<rparr>)"
proof -
  let ?reason = "if an_hadToolUse s then ''tool_use'' else ''end_turn''"
  obtain tokens where t: "output_tokens env data = Some tokens" using tok by (auto simp: output_tokens_def decode_data_def d)
  let ?j = "message_delta_json ?reason (case tokens of None \<Rightarrow> 0 | Some n \<Rightarrow> n)"
  have s: "sent_view env c0 s v" "an_started s" "an_active s = []" using idle by (auto simp: idle_rel_def)
  obtain c where c: "an_emit env ''message_delta'' ?j s = (None, s\<lparr>an_client := c\<rparr>)" "sent_view env c0 (s\<lparr>an_client := c\<rparr>) (v\<lparr>av_stop := Some ?reason\<rparr>)"
    using emit_sent [OF e s(1) refl, of "''message_delta''" ?j] unfolding read_message_delta by blast
  let ?t = "s\<lparr>an_client := c, an_ended := True\<rparr>"
  obtain c' where "an_emit env ''message_stop'' message_stop_json ?t = (None, ?t\<lparr>an_client := c'\<rparr>)"
      "sent_view env c0 (?t\<lparr>an_client := c'\<rparr>) (v\<lparr>av_stop := Some ?reason, av_ended := True\<rparr>)"
    using emit_sent [OF e c(2), of ?t "''message_stop''" message_stop_json] unfolding read_message_stop by auto
  then show ?thesis using c(1) by (simp add: dispatch_types completeMessage_def startMessage_def s t next_step_def)
qed

section \<open>The message and the stream\<close>

fun call_valid :: "adapter_env \<Rightarrow> up_item \<Rightarrow> bool" where
  "call_valid env (UMessage ident deltas) \<longleftrightarrow> True"
| "call_valid env (UCall ident callid name deltas) \<longleftrightarrow> concat deltas \<noteq> '''' \<and> jc_decode (ae_codec env) (concat deltas) \<noteq> None"

text \<open>The content a block stands for: the input of a call is the value its text encodes.\<close>

definition block_content :: "adapter_env \<Rightarrow> string \<times> string \<times> string \<times> string \<Rightarrow> anthropic_content" where
  "block_content env b = (case b of (ty, d, n, x) \<Rightarrow>
     if ty = ''text'' then text_content x
     else \<lparr>ac_Type = ty, ac_Text = '''', ac_ID = d, ac_Name = n, ac_Input = jc_decode (ae_codec env) x\<rparr>)"

lemma item_blocks_up:
  assumes "item_named item" and "call_valid env item"
  shows "item_blocks env (up_output item) = Inr ([block_content env (item_block item)], is_call item)"
  using assms by (cases item) (auto simp: item_blocks_def block_content_def zero_output_def split: option.split)

lemma message_of_items:
  assumes "rs_Error r = None" and "rs_ID r \<noteq> ''''" and "rs_Output r = map up_output items" and "items \<noteq> []"
    and "list_all item_named items" and "list_all (call_valid env) items"
  shows "\<exists>m. anthropic_message_of env publicModel r = Inr m \<and> mr_Content m = map (block_content env \<circ> item_block) items
    \<and> mr_StopReason m = (if list_ex is_call items then ''tool_use'' else ''end_turn'') \<and> mr_Model m = publicModel \<and> mr_ID m = rs_ID r"
proof -
  have "map_result (item_blocks env) (map up_output items) = Inr (map (\<lambda>item. ([block_content env (item_block item)], is_call item)) items)"
    unfolding map_result_return using assms(5,6)
    by (auto simp: list_all2_conv_all_nth list_all_length item_blocks_up)
  moreover have "concat (map fst (map (\<lambda>item. ([block_content env (item_block item)], is_call item)) items)) = map (block_content env \<circ> item_block) items"
    by (induction items) auto
  moreover have "list_ex snd (map (\<lambda>item. ([block_content env (item_block item)], is_call item)) items) = list_ex is_call items"
    by (induction items) auto
  ultimately show ?thesis using assms by (simp add: anthropic_message_of_def sum_bind_def Let_def)
qed

lemma stream_run:
  assumes e: "encodes env" and c: "\<not> cl_broken c0" and ident: "ident \<noteq> ''''" and items: "list_all item_named items" "distinct (concat (map item_keys items))"
    and bound: "2 * int (length items) < 2 ^ 63" and es: "carries env (stream_events ident model items response) es"
    and tok: "tokens_value (snd (ev_completed response)) None \<noteq> None"
    and bytes: "concat ps = concat (map event_text es)" and limit: "int (length (concat ps)) \<le> anthropicSSEBufferLimit"
  shows "\<exists>v ixs. an_Finish (write_pieces env ps (newAnthropicSSEWriter c0 publicModel)) = None
    \<and> sent_view env c0 (write_pieces env ps (newAnthropicSSEWriter c0 publicModel)) v
    \<and> av_started v \<and> av_ended v \<and> av_blocks v = zip ixs (map item_block items) \<and> length ixs = length items \<and> sorted_wrt (<) ixs \<and> av_closed v = ixs
    \<and> av_stop v = Some (if list_ex is_call items then ''tool_use'' else ''end_turn'')"
proof -
  let ?new = "newAnthropicSSEWriter c0 publicModel"
  obtain d1 es1 d2 where es': "es = (''response.created'', d1) # es1 @ [(''response.completed'', d2)]"
    and d1: "jc_decode (ae_codec env) d1 = Some (snd (ev_created ident model))" and d2: "jc_decode (ae_codec env) d2 = Some (snd (ev_completed response))"
    and c1: "carries env (concat (map item_events items)) es1"
    using es by (auto simp: stream_events_def carries_Cons carries_append)
  obtain s1 where s1: "dispatch_event env ''response.created'' d1 ?new = (None, s1)" "idle_rel env c0 s1 (empty_view\<lparr>av_started := True\<rparr>)"
      "an_indices s1 = []" "\<not> an_hadToolUse s1"
    using dispatch_created [OF e c d1 ident] by blast
  have "\<forall>k \<in> set (concat (map item_keys items)). \<not> has_key (an_indices s1) k" using s1(3) by (simp add: has_key_def)
  then obtain s2 ixs where s2: "dispatch_all env es1 s1 = (None, s2)" "length ixs = length items" "sorted_wrt (<) ixs"
      "idle_rel env c0 s2 (empty_view\<lparr>av_started := True, av_blocks := zip ixs (map item_block items), av_closed := ixs\<rparr>)"
      "an_hadToolUse s2 = list_ex is_call items"
    using dispatch_items [OF e s1(2) items _ c1] bound s1(3,4) by (auto simp: empty_view_def)
  obtain s3 where s3: "dispatch_event env ''response.completed'' d2 s2 = (None, s3)" "an_ended s3"
      "sent_view env c0 s3 (empty_view\<lparr>av_started := True, av_blocks := zip ixs (map item_block items), av_closed := ixs,
         av_stop := Some (if an_hadToolUse s2 then ''tool_use'' else ''end_turn''), av_ended := True\<rparr>)"
    using dispatch_completed [OF e s2(4) d2 tok] by auto
  have "dispatch_all env es ?new = (None, s3)" using s1(1) s2(1) s3(1) by (simp add: es' dispatch_append next_step_def)
  then have p: "process_pending env (concat ps) ?new = (None, '''', s3)" unfolding bytes using carries_safe [OF es] by (intro process_events)
  have plain: "carriage_return \<notin> set (concat ps)" unfolding bytes using carries_safe [OF es] event_text_plain by fastforce
  have new: "an_err ?new = None" "an_pending ?new = ''''" by (simp_all add: newAnthropicSSEWriter_def)
  have whole: "an_Write env (concat ps) ?new = (None, rebuffer '''' None s3)"
    using an_Write_plain [of ?new "concat ps" env None "''''" s3] new plain limit p by simp
  have "same_stream (write_pieces env ps ?new) (rebuffer '''' None s3)"
    using pieces_concat [of ?new ps env] new plain limit whole by simp
  moreover have "an_err (rebuffer '''' None s3) = None" by (simp add: rebuffer_def)
  ultimately have w: "write_pieces env ps ?new = rebuffer '''' None s3" using same_streamD(2,5) by metis
  have "sent_view env c0 (rebuffer '''' None s3) = sent_view env c0 s3" by (simp add: sent_view_def fun_eq_iff)
  then show ?thesis unfolding w using s2 s3 by (force simp: an_Finish_def rebuffer_def)
qed


definition sample_anthropic_env :: adapter_env where
  "sample_anthropic_env = sample_stream_env\<lparr>ae_codec := \<lparr>jc_decode = map_of ((''{}'', JObj []) # map (\<lambda>(n, e). (nat_text n, snd e)) (enumerate 0 sample_events)),
     jc_encode = (\<lambda>j. Some ''x'')\<rparr>\<rparr>"

definition sample_pieces :: "string list" where
  "sample_pieces = [take 50 (concat (map event_text sample_data)), drop 50 (concat (map event_text sample_data))]"


end
