(* ===== verification/Anthropic_Handler.thy ===== *)
theory Anthropic_Handler
  imports Anthropic_Translate Anthropic_Equivalence Codex_Provider
begin

text \<open>
  The handler of the Anthropic facade (\<open>src/anthropic_handler.go\<close>) with its error bodies
  (\<open>src/anthropic_error.go\<close>) and header policy (\<open>src/anthropic_header_policy.go\<close>): one request from
  its method to the response, with routing, outcome feedback and telemetry. A provider is what
  it does with the writer it is given, which is the stream writer behind the usage tee or the
  capture; \<open>uses_writer\<close> says that it touches the writer through its interface only.
\<close>

section \<open>Errors\<close>

definition anthropicErrorDetails :: "string \<Rightarrow> string \<times> string" where
  "anthropicErrorDetails kind =
     (if kind = ProviderErrorInvalidRequest \<or> kind = ProviderErrorUnsupported
      then (''invalid_request_error'', ''request uses an unsupported capability'')
      else if kind = ProviderErrorAuthRequired then (''authentication_error'', ''gateway authentication failed'')
      else if kind = ProviderErrorEntitlement then (''permission_error'', ''upstream entitlement denied'')
      else if kind = ProviderErrorRateLimit then (''rate_limit_error'', ''upstream rate limit reached'')
      else if kind = ProviderErrorModelUnavailable \<or> kind = ProviderErrorUnavailable
      then (''api_error'', ''no compatible upstream is available'')
      else (''api_error'', ''upstream request failed''))"

definition error_details :: "proxy_error \<Rightarrow> string \<times> string" where
  "error_details err = (case er_provider err of Some (kind, _) \<Rightarrow> anthropicErrorDetails kind | None \<Rightarrow> (''api_error'', ''request failed''))"

definition anthropic_error_json :: "string \<times> string \<Rightarrow> json" where
  "anthropic_error_json d = JObj [(''type'', JStr ''error''), (''error'', JObj [(''type'', JStr (fst d)), (''message'', JStr (snd d))])]"

definition set_client_header :: "string \<Rightarrow> string \<Rightarrow> client \<Rightarrow> client" where
  "set_client_header k v c = c\<lparr>cl_header := AList.update k [v] (cl_header c)\<rparr>"

definition writeAnthropicError :: "adapter_env \<Rightarrow> int \<Rightarrow> proxy_error \<Rightarrow> client \<Rightarrow> client" where
  "writeAnthropicError env status err c =
     (let status = (if status \<le> 0 then 500 else status);
          c = set_client_header ''Content-Type'' ''application/json'' c;
          c = client_WriteHeader status c
      in snd (client_Write (encoded env (anthropic_error_json (error_details err)) @ [newline]) c))"

definition writeAnthropicRouteError :: "adapter_env \<Rightarrow> route_error \<Rightarrow> client \<Rightarrow> client" where
  "writeAnthropicRouteError env err c =
     (case err of
        NoActiveTarget _ \<Rightarrow> writeAnthropicError env 503 (newProviderError ProviderErrorModelUnavailable 503 ''no active target is available'') c
      | _ \<Rightarrow> writeAnthropicError env 400 (newProviderError ProviderErrorInvalidRequest 400 ''model is unavailable for Responses'') c)"

section \<open>Headers\<close>

datatype header_disposition = HeaderTranslated | HeaderConsumed | HeaderForwarded | HeaderRejected

definition classifyAnthropicHeader :: "string \<Rightarrow> header_disposition" where
  "classifyAnthropicHeader header =
     (let normalized = to_lower (trim_space header) in
      if normalized = ''idempotency-key'' then HeaderForwarded
      else if normalized \<in> set [''authorization'', ''x-api-key'', ''content-type'', ''accept''] then HeaderConsumed
      else if has_prefix normalized ''anthropic-'' \<or> has_prefix normalized ''x-claude-code-'' then HeaderConsumed
      else HeaderConsumed)"

text \<open>The native request: its path, its forwarded headers and its body.\<close>

record native_request =
  nq_Path :: string
  nq_Header :: header
  nq_Body :: string

definition nativeResponsesRequest :: "header \<Rightarrow> string \<Rightarrow> native_request" where
  "nativeResponsesRequest hdr body =
     \<lparr>nq_Path = ''/v1/responses'',
      nq_Header = fold (\<lambda>(k, vs) h. if classifyAnthropicHeader k \<noteq> HeaderForwarded then h else fold (header_add k) vs h) hdr [],
      nq_Body = body\<rparr>"

definition safe_headers :: "string list" where
  "safe_headers = [''Retry-After'', ''Request-Id'', ''X-Request-Id'']"

definition copyAnthropicSafeHeaders :: "header \<Rightarrow> client \<Rightarrow> client" where
  "copyAnthropicSafeHeaders source c =
     fold (\<lambda>key c. if header_get key source \<noteq> '''' then set_client_header key (header_get key source) c else c) safe_headers c"

section \<open>Writers\<close>

record anthropic_capture =
  cp_header :: header
  cp_status :: int
  cp_body :: string

definition newAnthropicCapture :: anthropic_capture where
  "newAnthropicCapture = \<lparr>cp_header = [], cp_status = 0, cp_body = ''''\<rparr>"

definition cp_WriteHeader :: "int \<Rightarrow> anthropic_capture \<Rightarrow> anthropic_capture" where
  "cp_WriteHeader status c = (if cp_status c = 0 then c\<lparr>cp_status := status\<rparr> else c)"

definition cp_Write :: "string \<Rightarrow> anthropic_capture \<Rightarrow> bool \<times> anthropic_capture" where
  "cp_Write body c = (let c = (if cp_status c = 0 then c\<lparr>cp_status := 200\<rparr> else c) in (True, c\<lparr>cp_body := cp_body c @ body\<rparr>))"

definition cp_StatusCode :: "anthropic_capture \<Rightarrow> int" where
  "cp_StatusCode c = (if cp_status c = 0 then 200 else cp_status c)"

definition capture_ops :: "anthropic_capture writer_ops" where
  "capture_ops = \<lparr>wo_Header = cp_header, wo_SetHeader = (\<lambda>h c. c\<lparr>cp_header := h\<rparr>), wo_WriteHeader = cp_WriteHeader,
     wo_Write = cp_Write, wo_Flush = (\<lambda>c. c)\<rparr>"

text \<open>The stream writer: its headers are the client's, its flush goes to the client.\<close>

definition an_Flush :: "anthropic_stream \<Rightarrow> anthropic_stream" where
  "an_Flush s = s\<lparr>an_client := client_Flush (an_client s)\<rparr>"

definition stream_ops :: "adapter_env \<Rightarrow> anthropic_stream writer_ops" where
  "stream_ops env = \<lparr>wo_Header = (\<lambda>s. cl_header (an_client s)), wo_SetHeader = (\<lambda>h s. s\<lparr>an_client := (an_client s)\<lparr>cl_header := h\<rparr>\<rparr>),
     wo_WriteHeader = an_WriteHeader, wo_Write = (\<lambda>data s. case an_Write env data s of (err, s) \<Rightarrow> (err = None, s)), wo_Flush = an_Flush\<rparr>"

section \<open>The handler\<close>

record facade_provider =
  fp_stream :: "native_request \<Rightarrow> usage_writer \<times> anthropic_stream \<Rightarrow> proxy_result \<times> usage_writer \<times> anthropic_stream"
  fp_capture :: "native_request \<Rightarrow> anthropic_capture \<Rightarrow> proxy_result \<times> anthropic_capture"

record facade_env =
  fa_adapter :: adapter_env
  fa_aliases :: "(string, string) gomap"
  fa_routing :: routing_env
  fa_begin :: gotime
  fa_finish :: gotime
  fa_io :: persist_outcome
  fa_provider :: "provider_id \<Rightarrow> facade_provider"

record facade_request =
  fq_Method :: string
  fq_Path :: string
  fq_Header :: header
  fq_Body :: "string option"

record facade_state =
  fs_router :: router
  fs_recorder :: recorder
  fs_client :: client

text \<open>What the deferred end of a dispatch does: feed the outcome back when a target was selected,
  and finish the telemetry handle.\<close>

definition finish_dispatch ::
    "facade_env \<Rightarrow> route_result \<Rightarrow> nat \<Rightarrow> int \<Rightarrow> proxy_error option \<Rightarrow> header \<Rightarrow> outcome \<Rightarrow> facade_state \<Rightarrow> facade_state" where
  "finish_dispatch env route handle status err hdr out st =
     st\<lparr>fs_router := RecordOutcome (fa_io env) (fa_finish env) (fs_router st) (rr_selection route) status (map_option go_error_of err)
          (retryAfterDuration (header_get ''Retry-After'' hdr)),
        fs_recorder := Finish (fa_finish env) handle out (fs_recorder st)\<rparr>"

definition stream_failed :: "sse_error \<Rightarrow> proxy_error" where
  "stream_failed e = plain_error ''stream''"

definition serve_stream ::
    "facade_env \<Rightarrow> route_result \<Rightarrow> anthropic_translated \<Rightarrow> native_request \<Rightarrow> nat \<Rightarrow> facade_state \<Rightarrow> bool \<times> facade_state" where
  "serve_stream env route t q handle st =
     (case fp_stream (fa_provider env (pr_id (rr_provider route))) q (empty_usage, newAnthropicSSEWriter (fs_client st) (tr_Model t)) of
        (Panicked, u, s) \<Rightarrow> (True, st\<lparr>fs_client := an_client s\<rparr>)
      | (Returned err, u, s) \<Rightarrow>
          (let proxyErr = (if err = None then map_option stream_failed (an_Finish s) else err);
               status = an_StatusCode s;
               success = (proxyErr = None \<and> status < 400);
               st = finish_dispatch env route handle status proxyErr (cl_header (an_client s))
                 \<lparr>oc_success = success, oc_error_category = classifyErrorCategory status proxyErr, oc_produced_message = success,
                  oc_usage = uw_Usage (ae_codec (fa_adapter env)) u\<rparr> st
           in (False, st\<lparr>fs_client := (case proxyErr of
                 Some e \<Rightarrow> if \<not> an_started s then writeAnthropicError (fa_adapter env) (providerErrorStatus proxyErr) e (an_client s) else an_client s
               | None \<Rightarrow> an_client s)\<rparr>)))"

definition failed_outcome :: "string \<Rightarrow> outcome" where
  "failed_outcome category = \<lparr>oc_success = False, oc_error_category = category, oc_produced_message = False, oc_usage = None\<rparr>"

definition serve_capture ::
    "facade_env \<Rightarrow> route_result \<Rightarrow> anthropic_translated \<Rightarrow> native_request \<Rightarrow> nat \<Rightarrow> facade_state \<Rightarrow> bool \<times> facade_state" where
  "serve_capture env route t q handle st =
     (case fp_capture (fa_provider env (pr_id (rr_provider route))) q newAnthropicCapture of
        (Panicked, c) \<Rightarrow> (True, st)
      | (Returned (Some e), c) \<Rightarrow>
          (let status = providerErrorStatus (Some e);
               st = finish_dispatch env route handle status (Some e) (cp_header c) (failed_outcome (classifyErrorCategory status (Some e))) st
           in (False, st\<lparr>fs_client := writeAnthropicError (fa_adapter env) status e (copyAnthropicSafeHeaders (cp_header c) (fs_client st))\<rparr>))
      | (Returned None, c) \<Rightarrow>
          (let status = cp_StatusCode c in
           if status \<ge> 400 then
             (let st = finish_dispatch env route handle status None (cp_header c) (failed_outcome (classifyErrorCategory status None)) st
              in (False, st\<lparr>fs_client := writeAnthropicError (fa_adapter env) status
                   (newProviderError (classifyUpstreamStatus status) status ''upstream request failed'')
                   (copyAnthropicSafeHeaders (cp_header c) (fs_client st))\<rparr>))
           else
             (case responsesToAnthropicMessage (fa_adapter env) (cp_body c) (tr_Model t) of
                Inl e \<Rightarrow>
                  (let st = finish_dispatch env route handle status None (cp_header c) (failed_outcome ''transport_error'') st
                   in (False, st\<lparr>fs_client := writeAnthropicError (fa_adapter env) 502 (newProviderError ProviderErrorTransport 502 ''message'') (fs_client st)\<rparr>))
              | Inr message \<Rightarrow>
                  (let st = finish_dispatch env route handle status None (cp_header c)
                     \<lparr>oc_success = True, oc_error_category = '''', oc_produced_message = True,
                      oc_usage = sniffUsageJSON (ae_codec (fa_adapter env)) (cp_body c)\<rparr> st
                   in (False, st\<lparr>fs_client := snd (client_Write message (client_WriteHeader 200
                        (set_client_header ''Content-Type'' ''application/json'' (fs_client st))))\<rparr>)))))"

text \<open>Reading the body fails by itself or beyond the limit.\<close>

definition read_request :: "facade_request \<Rightarrow> string option" where
  "read_request q = (case fq_Body q of None \<Rightarrow> None | Some b \<Rightarrow> if int (length b) > anthropicRequestLimit then None else Some b)"

definition reject :: "facade_env \<Rightarrow> string \<Rightarrow> int \<Rightarrow> facade_state \<Rightarrow> bool \<times> facade_state" where
  "reject env kind status st =
     (False, st\<lparr>fs_client := writeAnthropicError (fa_adapter env) status (newProviderError kind status ''rejected'') (fs_client st)\<rparr>)"

definition anthropicHandler :: "facade_env \<Rightarrow> facade_request \<Rightarrow> facade_state \<Rightarrow> bool \<times> facade_state" where
  "anthropicHandler env q st =
     (if fq_Method q \<noteq> ''POST'' then reject env ProviderErrorInvalidRequest 405 st
      else if fq_Path q = ''/v1/messages/count_tokens'' then reject env ProviderErrorUnsupported 501 st
      else case read_request q of
        None \<Rightarrow> reject env ProviderErrorInvalidRequest 413 st
      | Some body \<Rightarrow>
        (case translateAnthropicRequest (fa_adapter env) (fa_aliases env) body of
           Inl e \<Rightarrow> reject env ProviderErrorInvalidRequest 400 st
         | Inr t \<Rightarrow>
           (case Resolve (fa_routing env) (fs_router st) (tr_Model t) CapabilityResponses of
              (Inl e, router) \<Rightarrow> (False, st\<lparr>fs_router := router, fs_client := writeAnthropicRouteError (fa_adapter env) e (fs_client st)\<rparr>)
            | (Inr route, router) \<Rightarrow>
              (case PatchModel (ae_codec (fa_adapter env)) (tr_Body t) (rr_model route) of
                 Panic \<Rightarrow> (True, st\<lparr>fs_router := router\<rparr>)
               | Body nativeBody \<Rightarrow>
                 (let handle = length (tl_handles (fs_recorder st));
                      st = st\<lparr>fs_router := router, fs_recorder := Begin (fa_begin env) (pr_id (rr_provider route)) (rr_model route) (fs_recorder st)\<rparr>;
                      native = nativeResponsesRequest (fq_Header q) nativeBody
                  in if tr_Stream t then serve_stream env route t native handle st else serve_capture env route t native handle st)))))"

section \<open>Every request is answered\<close>

text \<open>A started stream has sent its headers, an ended one has started.\<close>

definition answered :: "client \<Rightarrow> bool" where
  "answered c \<longleftrightarrow> cl_sent c \<noteq> None"

definition stream_sent :: "anthropic_stream \<Rightarrow> bool" where
  "stream_sent s \<longleftrightarrow> (an_started s \<longrightarrow> answered (an_client s)) \<and> (an_ended s \<longrightarrow> an_started s)"

lemma client_answered [simp]: "answered (client_WriteHeader code c)" "answered (snd (client_Write data c))" "answered (client_Flush c)"
  "answered (c\<lparr>cl_header := h\<rparr>) = answered c"
  by (simp_all add: answered_def client_WriteHeader_def client_Write_def client_Flush_def Let_def)

lemma emit_sent_ok: "stream_sent s \<Longrightarrow> stream_sent (snd (an_emit env event j s))"
  "an_started (snd (an_emit env event j s)) = an_started s"
  by (simp_all add: an_emit_def stream_sent_def case_prod_unfold split: option.split)

lemma next_sent:
  assumes "stream_sent (snd r)" and "\<And>s. stream_sent s \<Longrightarrow> stream_sent (snd (f s))"
  shows "stream_sent (snd (next_step r f))"
  using assms by (cases r; cases "fst r") (auto simp: next_step_def)

lemma start_sent: "stream_sent s \<Longrightarrow> stream_sent (snd (startMessage env s))" "an_started (snd (startMessage env s))"
proof -
  assume s: "stream_sent s"
  show "stream_sent (snd (startMessage env s))"
  proof (cases "an_started s")
    case False
    with s show ?thesis unfolding startMessage_def Let_def
      by (simp only: if_False) (rule emit_sent_ok, simp add: stream_sent_def)
  qed (simp add: startMessage_def s)
qed (simp add: startMessage_def Let_def emit_sent_ok(2))

lemma sent_simps [simp]:
  "stream_sent (s\<lparr>an_indices := i\<rparr>) = stream_sent s" "stream_sent (s\<lparr>an_active := a\<rparr>) = stream_sent s" "stream_sent (s\<lparr>an_hadToolUse := b\<rparr>) = stream_sent s"
  "stream_sent (s\<lparr>an_pending := t\<rparr>) = stream_sent s" "stream_sent (s\<lparr>an_err := e\<rparr>) = stream_sent s" "stream_sent (s\<lparr>an_messageID := t\<rparr>) = stream_sent s"
  "stream_sent (s\<lparr>an_status := n\<rparr>) = stream_sent s"
  by (simp_all add: stream_sent_def)

lemma stop_sent: "stream_sent s \<Longrightarrow> stream_sent (snd (stopBlock env index s))" "an_started (snd (stopBlock env index s)) = an_started s"
  by (simp_all add: stopBlock_def emit_sent_ok)

lemma stops_sent: "stream_sent s \<Longrightarrow> stream_sent (snd (stop_blocks env is' s)) \<and> an_started (snd (stop_blocks env is' s)) = an_started s"
proof (induction is' arbitrary: s)
  case (Cons i is')
  obtain e s1 where s1: "stopBlock env i s = (e, s1)" by fastforce
  have "stream_sent s1" "an_started s1 = an_started s" using stop_sent(1) [OF Cons.prems, of env i] stop_sent(2) [of env i s] s1 by auto
  then show ?case using Cons.IH by (cases e) (simp_all add: s1 next_step_def)
qed simp

lemma complete_sent:
  assumes "stream_sent s"
  shows "stream_sent (snd (completeMessage env data s))"
proof -
  have e: "stream_sent (snd (an_emit env ''message_stop'' message_stop_json (s\<lparr>an_ended := True\<rparr>)))" if "stream_sent s" "an_started s" for s
    using that by (intro emit_sent_ok(1)) (simp add: stream_sent_def)
  have d: "stream_sent (snd (next_step (an_emit env ''message_delta'' j s) (\<lambda>s. an_emit env ''message_stop'' message_stop_json (s\<lparr>an_ended := True\<rparr>))))"
    if "stream_sent s" "an_started s" for s j
    using that e [of "snd (an_emit env ''message_delta'' j s)"] emit_sent_ok(1) [OF that(1), of env "''message_delta''" j] emit_sent_ok(2) [of env "''message_delta''" j s]
    by (auto simp: next_step_def split: prod.splits option.splits)
  obtain x s1 where s1: "startMessage env s = (x, s1)" by fastforce
  have one: "stream_sent s1" "an_started s1" using start_sent(1) [OF assms, of env] start_sent(2) [of env s] s1 by auto
  obtain y s2 where s2: "stop_blocks env (sort (an_active s1)) s1 = (y, s2)" by fastforce
  have two: "stream_sent s2" "an_started s2" using stops_sent [OF one(1), of env "sort (an_active s1)"] s2 one(2) by auto
  show ?thesis unfolding completeMessage_def s1
    using one two d by (cases x; cases y) (auto simp: next_step_def s2 split: option.splits)
qed

lemma event_sent:
  assumes "stream_sent s"
  shows "stream_sent (snd (dispatch_event env ty data s))"
proof -
  have "stream_sent (snd (startOutputItem env data s))"
    using assms by (auto simp: startOutputItem_def Let_def intro!: next_sent start_sent emit_sent_ok split: option.split)
  moreover have "stream_sent (snd (writeTextDelta env data s))" "stream_sent (snd (writeToolDelta env data s))"
    using assms by (auto simp: writeTextDelta_def writeToolDelta_def emitDelta_def intro!: emit_sent_ok split: option.split)
  moreover have "stream_sent (snd (stopOutputItem env data s))"
    using assms by (auto simp: stopOutputItem_def intro!: stop_sent split: option.split)
  moreover have "stream_sent (snd (startMessage env (s\<lparr>an_messageID := i\<rparr>)))" for i using assms by (intro start_sent) simp
  moreover have "stream_sent (writeErrorEvent env m s)" for m using assms by (simp add: writeErrorEvent_def emit_sent_ok)
  ultimately show ?thesis using assms complete_sent [OF assms, of env data]
    by (simp add: dispatch_event_def split: option.split)
qed

lemma process_sent: "stream_sent s \<Longrightarrow> stream_sent (snd (snd (process_pending env pending s)))"
proof (induction env pending s rule: process_pending.induct)
  case (1 env pending s)
  show ?case
  proof (cases "cut_event pending")
    case None
    then show ?thesis using "1.prems" by (simp add: process_pending.simps [of env pending s])
  next
    case (Some er)
    obtain ev rest where er: "er = (ev, rest)" by fastforce
    obtain e s1 where h: "handleEvent env ev s = (e, s1)" by fastforce
    have "stream_sent s1" using event_sent [OF "1.prems", of env] h by (metis handleEvent_def case_prod_unfold snd_conv)
    then show ?thesis using "1.IH" [OF Some er [symmetric] h [symmetric]] Some er h
      by (cases e) (simp_all add: process_pending.simps [of env pending s])
  qed
qed

lemma write_sent: "stream_sent s \<Longrightarrow> stream_sent (snd (an_Write env data s))"
  using process_sent [of s env] by (auto simp: an_Write_def Let_def case_prod_unfold split: option.split)

lemma perform_sent:
  assumes "stream_sent s"
  shows "stream_sent (snd (perform (sniff_ops (stream_ops env)) act (u, s)))"
proof -
  have "stream_sent (s\<lparr>an_client := (an_client s)\<lparr>cl_header := h\<rparr>\<rparr>)" for h using assms by (simp add: stream_sent_def)
  moreover have "stream_sent (an_Flush s)" using assms by (simp add: stream_sent_def an_Flush_def)
  ultimately show ?thesis using assms write_sent [OF assms, of env]
    by (cases act) (auto simp: stream_ops_def put_header_def append_header_def an_WriteHeader_def case_prod_unfold)
qed

lemma performed_sent: "stream_sent s \<Longrightarrow> stream_sent (snd (fold (perform (sniff_ops (stream_ops env))) acts (u, s)))"
proof (induction acts arbitrary: u s)
  case (Cons act acts)
  obtain u' s' where p: "perform (sniff_ops (stream_ops env)) act (u, s) = (u', s')" by fastforce
  have "stream_sent s'" using perform_sent [OF Cons.prems, of env act u] p by simp
  then show ?case using Cons.IH p by simp
qed simp

definition uses_writer :: "'w writer_ops \<Rightarrow> ('q \<Rightarrow> 'w \<Rightarrow> 'r \<times> 'w) \<Rightarrow> bool" where
  "uses_writer ops f \<longleftrightarrow> (\<forall>q w. \<exists>acts. snd (f q w) = fold (perform ops) acts w)"

lemma error_answered [simp]: "answered (writeAnthropicError env status err c)"
  by (simp add: writeAnthropicError_def Let_def)

lemma route_error_answered [simp]: "answered (writeAnthropicRouteError env e c)"
  by (simp add: writeAnthropicRouteError_def split: route_error.split)

lemma finish_frame [simp]: "fs_client (finish_dispatch env route h status err hdr out st) = fs_client st"
  "fs_recorder (finish_dispatch env route h status err hdr out st) = Finish (fa_finish env) h out (fs_recorder st)"
  by (simp_all add: finish_dispatch_def)

lemma serve_stream_answered:
  assumes use: "uses_writer (sniff_ops (stream_ops (fa_adapter env))) (fp_stream (fa_provider env (pr_id (rr_provider route))))"
    and r: "serve_stream env route t q h st = (False, st')"
  shows "answered (fs_client st') \<and> (\<exists>out. fs_recorder st' = Finish (fa_finish env) h out (fs_recorder st))"
proof -
  let ?new = "newAnthropicSSEWriter (fs_client st) (tr_Model t)"
  obtain res u s where p: "fp_stream (fa_provider env (pr_id (rr_provider route))) q (empty_usage, ?new) = (res, u, s)" by (metis prod_cases3)
  obtain acts where "(u, s) = fold (perform (sniff_ops (stream_ops (fa_adapter env)))) acts (empty_usage, ?new)"
    using use p unfolding uses_writer_def by (metis snd_conv)
  then have s: "stream_sent s"
    using performed_sent [of ?new "fa_adapter env" acts empty_usage] by (metis snd_conv newAnthropicSSEWriter_def stream_sent_def anthropic_stream.select_convs(8,9))
  have "answered (an_client s)" if "an_Finish s = None" using that s by (simp add: an_Finish_def stream_sent_def split: option.splits if_splits)
  moreover have "answered (an_client s)" if "an_started s" using that s by (simp add: stream_sent_def)
  ultimately show ?thesis using r by (auto simp: serve_stream_def p Let_def split: proxy_result.splits option.splits if_splits)
qed

text \<open>The texts an error body can hold.\<close>

definition error_texts :: "(string \<times> string) list" where
  "error_texts = [(''invalid_request_error'', ''request uses an unsupported capability''), (''authentication_error'', ''gateway authentication failed''),
     (''permission_error'', ''upstream entitlement denied''), (''rate_limit_error'', ''upstream rate limit reached''),
     (''api_error'', ''no compatible upstream is available''), (''api_error'', ''upstream request failed''), (''api_error'', ''request failed'')]"

lemma error_details_fixed: "error_details e \<in> set error_texts"
  by (simp add: error_details_def anthropicErrorDetails_def error_texts_def split: option.split prod.split)

text \<open>What an unstreamed response can be: a fixed error text under a status, or a message under 200.\<close>

definition plain_answer :: "adapter_env \<Rightarrow> client \<Rightarrow> client \<Rightarrow> bool" where
  "plain_answer env c c' \<longleftrightarrow>
     (\<exists>status d. d \<in> set error_texts \<and> 0 < status \<and> map_option fst (cl_sent c') = Some status
        \<and> cl_body c' = cl_body c @ encoded env (anthropic_error_json d) @ [newline])
     \<or> (\<exists>body model message. responsesToAnthropicMessage env body model = Inr message \<and> map_option fst (cl_sent c') = Some 200 \<and> cl_body c' = cl_body c @ message)"

lemma error_plain:
  assumes "cl_sent c = None" and "\<not> cl_broken c" and "cl_body c = cl_body c0"
  shows "plain_answer env c0 (writeAnthropicError env status e c)"
proof -
  let ?status = "if status \<le> 0 then 500 else status"
  have "map_option fst (cl_sent (writeAnthropicError env status e c)) = Some ?status \<and> 0 < ?status
    \<and> cl_body (writeAnthropicError env status e c) = cl_body c0 @ encoded env (anthropic_error_json (error_details e)) @ [newline]"
    using assms by (simp add: writeAnthropicError_def Let_def set_client_header_def client_Write_def client_WriteHeader_def)
  then show ?thesis unfolding plain_answer_def using error_details_fixed [of e] by blast
qed

lemma safe_headers_frame: "cl_sent (copyAnthropicSafeHeaders h c) = cl_sent c \<and> cl_broken (copyAnthropicSafeHeaders h c) = cl_broken c
    \<and> cl_body (copyAnthropicSafeHeaders h c) = cl_body c"
  by (simp add: copyAnthropicSafeHeaders_def safe_headers_def set_client_header_def)

lemma serve_capture_answered:
  assumes c: "cl_sent (fs_client st) = None" "\<not> cl_broken (fs_client st)" and r: "serve_capture env route t q h st = (False, st')"
  shows "plain_answer (fa_adapter env) (fs_client st) (fs_client st') \<and> (\<exists>out. fs_recorder st' = Finish (fa_finish env) h out (fs_recorder st))"
proof -
  obtain res cap where p: "fp_capture (fa_provider env (pr_id (rr_provider route))) q newAnthropicCapture = (res, cap)" by fastforce
  note err = error_plain [of "copyAnthropicSafeHeaders (cp_header cap) (fs_client st)" "fs_client st"] error_plain [OF c refl]
  have ok: "plain_answer (fa_adapter env) (fs_client st) (snd (client_Write message (client_WriteHeader 200
      (set_client_header ''Content-Type'' ''application/json'' (fs_client st)))))"
    if "responsesToAnthropicMessage (fa_adapter env) (cp_body cap) (tr_Model t) = Inr message" for message
  proof -
    let ?c = "snd (client_Write message (client_WriteHeader 200 (set_client_header ''Content-Type'' ''application/json'' (fs_client st))))"
    have "map_option fst (cl_sent ?c) = Some 200 \<and> cl_body ?c = cl_body (fs_client st) @ message"
      using c by (simp add: client_Write_def client_WriteHeader_def set_client_header_def Let_def)
    with that show ?thesis unfolding plain_answer_def by blast
  qed
  show ?thesis using r err ok c safe_headers_frame [of "cp_header cap" "fs_client st"]
    by (auto simp: serve_capture_def p Let_def split: proxy_result.splits option.splits if_splits sum.splits)
qed

definition streamed :: "facade_env \<Rightarrow> facade_request \<Rightarrow> bool" where
  "streamed env q \<longleftrightarrow>
     (case read_request q of None \<Rightarrow> False
      | Some body \<Rightarrow> (case translateAnthropicRequest (fa_adapter env) (fa_aliases env) body of Inl e \<Rightarrow> False | Inr t \<Rightarrow> tr_Stream t))"

lemma plain_answered: "plain_answer env c c' \<Longrightarrow> answered c'"
  by (auto simp: plain_answer_def answered_def)

lemma route_error_plain:
  "cl_sent c = None \<Longrightarrow> \<not> cl_broken c \<Longrightarrow> plain_answer env c (writeAnthropicRouteError env e c)"
  using error_plain [of c c] by (simp add: writeAnthropicRouteError_def split: route_error.split)

lemma handler_cases:
  assumes "anthropicHandler env q st = (False, st')"
  obtains (rejected) kind status where "reject env kind status st = (False, st')"
  | (unrouted) router e where "st' = st\<lparr>fs_router := router, fs_client := writeAnthropicRouteError (fa_adapter env) e (fs_client st)\<rparr>"
  | (dispatched) t route router native where "streamed env q = tr_Stream t"
      "(if tr_Stream t then serve_stream else serve_capture) env route t native (length (tl_handles (fs_recorder st)))
         (st\<lparr>fs_router := router, fs_recorder := Begin (fa_begin env) (pr_id (rr_provider route)) (rr_model route) (fs_recorder st)\<rparr>) = (False, st')"
proof (cases "fq_Method q = ''POST'' \<and> fq_Path q \<noteq> ''/v1/messages/count_tokens''")
  case False
  then show ?thesis using assms rejected by (auto simp: anthropicHandler_def split: if_splits)
next
  case True
  show ?thesis
  proof (cases "\<exists>body t. read_request q = Some body \<and> translateAnthropicRequest (fa_adapter env) (fa_aliases env) body = Inr t")
    case False
    then show ?thesis using assms True rejected by (auto simp: anthropicHandler_def split: option.splits sum.splits)
  next
    case ok: True
    then obtain body t where t: "read_request q = Some body" "translateAnthropicRequest (fa_adapter env) (fa_aliases env) body = Inr t" by blast
    then have stream: "streamed env q = tr_Stream t" by (simp add: streamed_def)
    obtain out router where res: "Resolve (fa_routing env) (fs_router st) (tr_Model t) CapabilityResponses = (out, router)" by fastforce
    show ?thesis using assms True unrouted dispatched [OF stream]
      by (auto simp: anthropicHandler_def t res Let_def split: sum.splits patched.splits if_splits)
  qed
qed


text \<open>Of the client's headers only the idempotency key goes upstream; credentials stay.\<close>

lemma forwarded_headers:
  "k \<in> fst ` set (nq_Header (nativeResponsesRequest hdr body)) \<Longrightarrow> to_lower (trim_space k) = ''idempotency-key''"
proof -
  define key where "key name \<longleftrightarrow> to_lower (trim_space name) = ''idempotency-key''" for name
  let ?ok = "\<lambda>h :: header. \<forall>k \<in> fst ` set h. key k"
  have forwards: "classifyAnthropicHeader k = (if to_lower (trim_space k) = ''idempotency-key'' then HeaderForwarded else HeaderConsumed)" for k
    by (simp only: classifyAnthropicHeader_def Let_def if_cancel)
  have "to_lower (trim_space k) = ''idempotency-key''" if "classifyAnthropicHeader k = HeaderForwarded" for k
  proof (rule ccontr)
    assume "to_lower (trim_space k) \<noteq> ''idempotency-key''"
    then have "classifyAnthropicHeader k = HeaderConsumed" unfolding forwards by (rule if_not_P)
    with that show False by (simp only: header_disposition.distinct)
  qed
  then have only: "key k" if "classifyAnthropicHeader k = HeaderForwarded" for k using that unfolding key_def by blast
  then have add: "?ok (header_add k v h)" if "?ok h" "classifyAnthropicHeader k = HeaderForwarded" for k v h
    using that by (simp add: header_add_def fst_set_update)
  have adds: "?ok (fold (header_add k) vs h)" if "?ok h" "classifyAnthropicHeader k = HeaderForwarded" for k vs h
    using that(1)
  proof (induction vs arbitrary: h)
    case Nil
    then show ?case by (simp only: fold.simps id_apply)
  next
    case (Cons v vs)
    show ?case using Cons.IH [OF add [OF Cons.prems that(2)]] by (simp only: fold.simps o_apply)
  qed
  have "?ok (fold (\<lambda>(k, vs) h. if classifyAnthropicHeader k \<noteq> HeaderForwarded then h else fold (header_add k) vs h) hdr h)" if "?ok h" for h
    using that
  proof (induction hdr arbitrary: h)
    case Nil
    then show ?case by (simp only: fold.simps id_apply)
  next
    case (Cons e hdr)
    have "?ok ((\<lambda>(k, vs) h. if classifyAnthropicHeader k \<noteq> HeaderForwarded then h else fold (header_add k) vs h) e h)"
      using Cons.prems adds [of h "fst e" "snd e"] by (cases e) (simp only: prod.case fst_conv snd_conv split: if_split, blast)
    from Cons.IH [OF this] show ?case by (simp only: fold.simps o_apply)
  qed
  from this [of "[]"] have "?ok (nq_Header (nativeResponsesRequest hdr body))" by (simp add: nativeResponsesRequest_def)
  then show "k \<in> fst ` set (nq_Header (nativeResponsesRequest hdr body)) \<Longrightarrow> to_lower (trim_space k) = ''idempotency-key''"
    unfolding key_def by blast
qed

section \<open>Anthropic requests on a ChatGPT account\<close>

lemma has_key_dedup [simp]: "has_key (dedup m) k = has_key m k"
proof -
  have "map_of (rev m) k = None \<longleftrightarrow> map_of m k = None" by (simp add: map_of_eq_None_iff)
  then show ?thesis by (simp add: has_key_def dedup_map_of)
qed

text \<open>A translated request always limits its output, also after its model was patched.\<close>

lemma translated_limit:
  assumes codec: "\<And>j out. jc_encode (ae_codec env) j = Some out \<Longrightarrow> jc_decode (ae_codec env) out = Some j"
    and t: "translateAnthropicRequest env aliases body = Inr t" and b: "PatchModel (ae_codec env) (tr_Body t) model = Body b"
  shows "\<exists>raw. unmarshal_body env b = Some raw \<and> has_key raw ''max_output_tokens''"
proof -
  from t obtain r kvs where d: "translate_decoded env (request_model aliases r) r = Inr kvs"
    and e: "jc_encode (ae_codec env) (JObj kvs) = Some (tr_Body t)"
    unfolding translateAnthropicRequest_def Let_def by (auto simp: return_iff)
  have k: "''max_output_tokens'' \<in> fst ` set kvs" using translated_members(5) [OF d] by (metis map_of_SomeD fst_conv image_eqI)
  have dk: "has_key (map (\<lambda>(k, v). (k, f v)) kvs) ''max_output_tokens''" for f :: "json \<Rightarrow> json"
    using k by (force simp: has_key_iff keys_of_def)
  have id: "map (\<lambda>(k, v). (k, id v)) kvs = kvs" by (simp add: case_prod_unfold)
  let ?new = "JObj (AList.update ''model'' (JStr model) (dedup (map (\<lambda>(k, v). (k, to_any v)) kvs)))"
  show ?thesis
  proof (cases "jc_encode (ae_codec env) ?new")
    case None
    then have "b = tr_Body t" using b codec [OF e] by (simp add: PatchModel_def)
    then show ?thesis using codec [OF e] dk [of id] by (simp add: unmarshal_body_def unmarshal_object_def id)
  next
    case (Some out)
    then have "jc_decode (ae_codec env) b = Some ?new" using b codec [OF e] codec [OF Some] by (simp add: PatchModel_def)
    moreover have "has_key (dedup (AList.update ''model'' (JStr model) (dedup (map (\<lambda>(k, v). (k, to_any v)) kvs)))) ''max_output_tokens''"
      using dk [of to_any] by simp
    ultimately show ?thesis by (simp add: unmarshal_body_def unmarshal_object_def)
  qed
qed

text \<open>C19: requests of the Anthropic API are never served by a ChatGPT account. The translated
  request always carries \<open>max_output_tokens\<close>, which the ChatGPT transport refuses: the call returns
  an invalid-request error and nothing is sent. If the request was the probe of the circuit
  breaker, the provider is disabled: every later call fails and nothing is sent any more.\<close>

theorem anthropic_chatgpt_refused:
  assumes "\<forall>j out. jc_encode (ae_codec (ce_adapter (env 0))) j = Some out \<longrightarrow> jc_decode (ae_codec (ce_adapter (env 0))) out = Some j"
    and "translateAnthropicRequest (ce_adapter (env 0)) aliases body = Inr t"
    and "PatchModel (ae_codec (ce_adapter (env 0))) (tr_Body t) model = Body b"
    and "EnsureAuthenticated (ce_auth (env 0)) (kx_pool st) = (None, p)"
    and "credentialAtLocked (ce_auth (env 0)) (kx_config p) (kx_cursor p) = c" and "xc_chatgpt c" and "xc_token c \<noteq> ''''"
    and "fst (canExecute (ce_breaker_now (env 0)) (kx_breaker st))"
  shows "\<exists>st'. Codex_ProxyRequest env ops b CapabilityResponses st w = (Returned (Some invalid_request), st', w) \<and> kx_sent st' = kx_sent st
    \<and> (cb_state (kx_breaker st) = CircuitOpen \<longrightarrow>
         (\<forall>calls. \<exists>rs st''. serve ops calls st' w = (rs, st'', w) \<and> list_all failed_result rs \<and> kx_sent st'' = kx_sent st))"
proof -
  obtain raw where raw: "unmarshal_body (ce_adapter (env 0)) b = Some raw" "has_key raw ''max_output_tokens''"
    using translated_limit [OF _ assms(2,3)] assms(1) by blast
  have "''max_output_tokens'' \<notin> set chatGPTCodexAllowedKeys" by code_simp
  from native_refused [OF raw this] obtain k where "buildChatGPTNativeResponsesRequest (ce_adapter (env 0)) b = Inl (FieldUnsupported k)" by blast
  then have bu: "build_upstream (ce_adapter (env 0)) True True b = Inl (FieldUnsupported k)" by (simp add: build_upstream_def sum_bind_def)
  obtain cb where cb: "canExecute (ce_breaker_now (env 0)) (kx_breaker st) = (True, cb)" using assms(8) by (metis prod.collapse)
  let ?st = "st\<lparr>kx_pool := p, kx_breaker := cb\<rparr>"
  have "account_attempt (env 0) ops m b CapabilityResponses st w = Returns (Returned (Some invalid_request)) ?st w" for m
    using assms(5-7) bu by (simp add: account_attempt_def assms(4) cb with_credential_def capability_defs)
  moreover obtain n where "max 1 (length (pool (kx_config (kx_pool st)))) = Suc n" by (rule attempts_left)
  ultimately have run: "Codex_ProxyRequest env ops b CapabilityResponses st w = (Returned (Some invalid_request), ?st, w)"
    unfolding Codex_ProxyRequest_def Let_def by simp
  have "probing ?st" if "cb_state (kx_breaker st) = CircuitOpen"
    using that cb by (auto simp: probing_def canExecute_def split: if_splits)
  then have "\<exists>rs st''. serve ops calls ?st w = (rs, st'', w) \<and> list_all failed_result rs \<and> kx_sent st'' = kx_sent st"
    if "cb_state (kx_breaker st) = CircuitOpen" for calls
    using that probing_serve [of ?st ops calls w] by auto
  with run show ?thesis by auto
qed

definition sample_facade_env :: "nat \<Rightarrow> codex_env" where
  "sample_facade_env n = (sample_codex_env n)\<lparr>ce_auth := sample_auth_env\<lparr>ve_adapter := sample_adapter\<rparr>\<rparr>"

theorem anthropic_chatgpt_refused_witness:
  "\<exists>st'. Codex_ProxyRequest sample_facade_env wrapper_ops ''out'' CapabilityResponses sample_codex fresh_wrapper
     = (Returned (Some invalid_request), st', fresh_wrapper) \<and> kx_sent st' = []"
proof -
  have codec: "\<forall>j out. jc_encode (ae_codec (ce_adapter (sample_facade_env 0))) j = Some out \<longrightarrow> jc_decode (ae_codec (ce_adapter (sample_facade_env 0))) out = Some j"
    by (auto simp: sample_facade_env_def sample_adapter_def split: if_splits)
  have t: "translateAnthropicRequest (ce_adapter (sample_facade_env 0)) [(''claude'', ''codex/gpt-5'')] ''in''
     = Inr \<lparr>tr_Model = ''codex/gpt-5'', tr_Body = ''out'', tr_Stream = False\<rparr>" by code_simp
  have b: "PatchModel (ae_codec (ce_adapter (sample_facade_env 0))) (tr_Body \<lparr>tr_Model = ''codex/gpt-5'', tr_Body = ''out'', tr_Stream = False\<rparr>) ''gpt-5'' = Body ''out''"
    by code_simp
  have e: "EnsureAuthenticated (ce_auth (sample_facade_env 0)) (kx_pool sample_codex) = (None, kx_pool sample_codex)" by code_simp
  have c: "xc_chatgpt (credentialAtLocked (ce_auth (sample_facade_env 0)) (kx_config (kx_pool sample_codex)) (kx_cursor (kx_pool sample_codex)))"
    "xc_token (credentialAtLocked (ce_auth (sample_facade_env 0)) (kx_config (kx_pool sample_codex)) (kx_cursor (kx_pool sample_codex))) \<noteq> ''''"
    "fst (canExecute (ce_breaker_now (sample_facade_env 0)) (kx_breaker sample_codex))" by code_simp+
  have "kx_sent sample_codex = []" by (simp add: sample_codex_def)
  with anthropic_chatgpt_refused [of sample_facade_env, OF codec t b e refl c, of wrapper_ops fresh_wrapper] show ?thesis by auto
qed

definition sample_facade_router :: router where
  "sample_facade_router =
     NewRouterWithRegistries (Freeze (NewRegistry [Some ((sample_provider Codex)\<lparr>pr_capabilities := [CapabilityChat, CapabilityResponses]\<rparr>)])) sample_routing None None"

definition sample_facade :: facade_env where
  "sample_facade = \<lparr>fa_adapter = sample_adapter, fa_aliases = [(''claude'', ''codex/gpt-5'')], fa_routing = sample_env, fa_begin = 1000, fa_finish = 1001,
     fa_io = PersistDone, fa_provider = (\<lambda>pid. \<lparr>fp_stream = (\<lambda>q w. (Returned (Some invalid_request), w)),
       fp_capture = (\<lambda>q w. (Returned (Some invalid_request), w))\<rparr>)\<rparr>"


end
