(* ===== verification/Copilot_Provider.thy ===== *)
theory Copilot_Provider
  imports Model_Catalog Codex_Provider Config_Defaults
begin

text \<open>
  The GitHub Copilot provider (\<open>src/copilot_provider.go\<close>, \<open>src/copilot_provider_auth.go\<close>,
  \<open>src/copilot_provider_factory.go\<close>) and the embeddings format (\<open>src/embeddings.go\<close>): the account
  pool, authentication, requests and model lists, and the failover over free models. The secret
  store, the clock and the answers of the upstream are the environment of a call; the models the
  free catalog offers are an argument.
\<close>

section \<open>The account pool\<close>

record copilot_state =
  gc_config :: copilot_provider
  gc_cursor :: nat
  gc_breaker :: circuit_breaker
  gc_cache :: model_cache
  gc_freeCursor :: nat
  gc_sent :: "sent_request list"

definition gc_pool :: "copilot_state \<Rightarrow> copilot_account list" where
  "gc_pool st = items (cp_accounts (gc_config st))"

text \<open>The active account's state; the cursor is an index of the pool (\<open>cursor_ok\<close> below).\<close>

definition gc_authState :: "copilot_state \<Rightarrow> copilot_auth_state" where
  "gc_authState st = (if gc_pool st = [] then cp_auth (gc_config st) else cacc_auth (gc_pool st ! gc_cursor st))"

definition cooldownSeconds :: "copilot_provider \<Rightarrow> int" where
  "cooldownSeconds cfg = (if cp_account_cooldown_seconds cfg > 0 then cp_account_cooldown_seconds cfg else 300)"

definition isAccountInCooldown :: "copilot_provider \<Rightarrow> int \<Rightarrow> copilot_account \<Rightarrow> bool" where
  "isAccountInCooldown cfg now acc \<longleftrightarrow> cacc_last_limited_at acc \<noteq> 0 \<and> now - cacc_last_limited_at acc < cooldownSeconds cfg"

definition firstHealthyAccount :: "copilot_provider \<Rightarrow> (nat \<Rightarrow> int) \<Rightarrow> nat" where
  "firstHealthyAccount cfg now =
     (let accounts = items (cp_accounts cfg) in
      case find (\<lambda>i. \<not> isAccountInCooldown cfg (now i) (accounts ! i)) [0..<length accounts] of Some i \<Rightarrow> i | None \<Rightarrow> 0)"

definition NewCopilotProvider :: "copilot_provider \<Rightarrow> duration \<Rightarrow> (nat \<Rightarrow> int) \<Rightarrow> copilot_state" where
  "NewCopilotProvider cfg timeout now =
     \<lparr>gc_config = cfg, gc_cursor = firstHealthyAccount cfg now, gc_breaker = new_breaker timeout,
      gc_cache = NewModelCache defaultModelCacheTTL, gc_freeCursor = 0, gc_sent = []\<rparr>"

definition advanceAccountFrom :: "(nat \<Rightarrow> int) \<Rightarrow> int \<Rightarrow> copilot_state \<Rightarrow> bool \<times> copilot_state" where
  "advanceAccountFrom now failedIndex st =
     (let size = length (gc_pool st) in
      if failedIndex < 0 \<or> failedIndex \<ge> int size then (False, st)
      else
        (let failed = nat failedIndex;
             accounts = (gc_pool st)[failed := (gc_pool st ! failed)\<lparr>cacc_last_limited_at := now 0\<rparr>];
             st = st\<lparr>gc_config := (gc_config st)\<lparr>cp_accounts := Some accounts\<rparr>\<rparr>
         in if size \<le> 1 then (False, st)
            else
              (let start = (if gc_cursor st = failed then (failed + 1) mod size else gc_cursor st) in
               case find (\<lambda>i. (start + i) mod size \<noteq> failed
                      \<and> \<not> isAccountInCooldown (gc_config st) (now (Suc i)) (accounts ! ((start + i) mod size))) [0..<size] of
                 Some i \<Rightarrow> (True, st\<lparr>gc_cursor := (start + i) mod size\<rparr>)
               | None \<Rightarrow> (False, st))))"

section \<open>Authentication\<close>

record copilot_env =
  oe_controller :: "(string \<Rightarrow> string option) option"
  oe_now :: int
  oe_bad_request :: "proxy_error option"
  oe_method :: string
  oe_upstream :: upstream
  oe_response :: http_response
  oe_error :: "string \<Rightarrow> proxy_error"
  oe_breaker_now :: gotime
  oe_outcome_now :: gotime
  oe_codec :: json_codec
  oe_list :: "proxy_error + http_response"
  oe_first_value :: "string \<Rightarrow> json option"
  oe_cache_times :: "gotime \<times> gotime \<times> gotime"

definition managed_token :: "copilot_env \<Rightarrow> string option" where
  "managed_token env = Option.bind (oe_controller env) (\<lambda>resolve. resolve ''copilot/token'')"

definition copilot_token :: "copilot_env \<Rightarrow> copilot_state \<Rightarrow> string" where
  "copilot_token env st = (case managed_token env of Some v \<Rightarrow> v | None \<Rightarrow> ca_copilot_token (gc_authState st))"

definition credentialSnapshot :: "copilot_env \<Rightarrow> copilot_state \<Rightarrow> nat \<times> string" where
  "credentialSnapshot env st = (gc_cursor st, copilot_token env st)"

definition Copilot_EnsureAuthenticated :: "copilot_env \<Rightarrow> copilot_state \<Rightarrow> proxy_error option" where
  "Copilot_EnsureAuthenticated env st =
     (let auth = gc_authState st; token = copilot_token env st in
      if token = '''' then Some (newProviderError ProviderErrorAuthRequired 401 ''Copilot authentication is required'')
      else
        (let threshold = (if ca_refresh_in auth > 0 \<and> ca_refresh_in auth div 5 > 300 then ca_refresh_in auth div 5 else 300) in
         if ca_expires_at auth > 0 \<and> ca_expires_at auth - oe_now env \<le> threshold
         then Some (newProviderError ProviderErrorAuthRequired 401 ''Copilot authentication requires reconnection'') else None))"

definition Copilot_Health :: "int \<Rightarrow> copilot_state \<Rightarrow> provider_health" where
  "Copilot_Health now st =
     (let auth = gc_authState st in
      \<lparr>hl_Authenticated = (ca_copilot_token auth \<noteq> '''' \<and> ca_expires_at auth > now), hl_CanRefresh = (ca_github_token auth \<noteq> '''')\<rparr>)"

section \<open>Embeddings\<close>

definition any_map :: "(string \<times> json) list \<Rightarrow> (string, json) gomap" where
  "any_map kvs = dedup (map (\<lambda>(k, v). (k, to_any v)) kvs)"

definition string_member :: "(string, json) gomap \<Rightarrow> string \<Rightarrow> string" where
  "string_member payload k = (case map_of payload k of Some (JStr s) \<Rightarrow> s | _ \<Rightarrow> '''')"

definition normalized_input :: "(string, json) gomap \<Rightarrow> (string, json) gomap" where
  "normalized_input payload = (case map_of payload ''input'' of Some (JStr v) \<Rightarrow> AList.update ''input'' (JArr [JStr v]) payload | _ \<Rightarrow> payload)"

text \<open>\<open>null\<close> decodes to the nil map, which encodes to \<open>null\<close>.\<close>

definition normalizeEmbeddingsRequestBody :: "json_codec \<Rightarrow> string \<Rightarrow> string \<times> string" where
  "normalizeEmbeddingsRequestBody codec body =
     (let trimmed = trim_space body in
      if trimmed = '''' then (body, '''')
      else case jc_decode codec trimmed of
        Some (JObj kvs) \<Rightarrow>
          (let payload = any_map kvs; model = string_member payload ''model'' in
           case jc_encode codec (JObj (normalized_input payload)) of None \<Rightarrow> (body, model) | Some out \<Rightarrow> (out, model))
      | Some JNull \<Rightarrow> (case jc_encode codec JNull of None \<Rightarrow> (body, '''') | Some out \<Rightarrow> (out, ''''))
      | _ \<Rightarrow> (body, ''''))"

definition compat_members :: "string \<Rightarrow> (string, json) gomap \<Rightarrow> (string, json) gomap" where
  "compat_members model payload =
     (let payload = (if has_key payload ''object'' then payload else AList.update ''object'' (JStr ''list'') payload)
      in if \<not> has_key payload ''model'' \<and> model \<noteq> '''' then AList.update ''model'' (JStr model) payload else payload)"

definition ensureEmbeddingsResponseCompat :: "json_codec \<Rightarrow> string \<Rightarrow> string \<Rightarrow> patched" where
  "ensureEmbeddingsResponseCompat codec body model =
     (let trimmed = trim_space body in
      if trimmed = '''' then Body body
      else case jc_decode codec trimmed of
        Some (JObj kvs) \<Rightarrow> (case jc_encode codec (JObj (compat_members model (any_map kvs))) of None \<Rightarrow> Body body | Some out \<Rightarrow> Body out)
      | Some JNull \<Rightarrow> Panic
      | _ \<Rightarrow> Body body)"

definition send_embeddings :: "'w writer_ops \<Rightarrow> http_response \<Rightarrow> string \<Rightarrow> 'w \<Rightarrow> proxy_result \<times> 'w" where
  "send_embeddings ops r body w =
     (let w = copyHeaders ops (hr_Header r) [''Content-Length''] w;
          w = put_header ops ''Access-Control-Allow-Origin'' ''*'' w;
          w = put_header ops ''Access-Control-Allow-Headers'' ''*'' w;
          w = put_header ops ''Content-Length'' (decimal (length body)) w;
          w = wo_WriteHeader ops (hr_StatusCode r) w
      in case wo_Write ops body w of (ok, w) \<Rightarrow> (Returned (if ok then None else Some write_error), w))"

definition writeCopilotEmbeddingsResponse :: "json_codec \<Rightarrow> 'w writer_ops \<Rightarrow> http_response \<Rightarrow> string \<Rightarrow> 'w \<Rightarrow> proxy_result \<times> 'w" where
  "writeCopilotEmbeddingsResponse codec ops r embedModel w =
     (case hr_ReadErr r of
        Some e \<Rightarrow> (Returned (Some e), w)
      | None \<Rightarrow>
          (case (if 200 \<le> hr_StatusCode r \<and> hr_StatusCode r < 300 then ensureEmbeddingsResponseCompat codec (hr_Body r) embedModel else Body (hr_Body r)) of
             Panic \<Rightarrow> (Panicked, w)
           | Body body \<Rightarrow> send_embeddings ops r body w))"

section \<open>Requests\<close>

definition copilotAPIBase :: string where "copilotAPIBase = ''https://api.githubcopilot.com''"
definition userAgent :: string where "userAgent = ''GitHubCopilotChat/0.26.7''"

definition setCopilotHeaders :: "string \<Rightarrow> capability \<Rightarrow> header" where
  "setCopilotHeaders token cap =
     [(''Authorization'', [''Bearer '' @ token]), (''Content-Type'', [''application/json'']), (''Accept'', [''application/json'']),
      (''User-Agent'', [userAgent]), (''Editor-Version'', [''vscode/1.99.3'']), (''Editor-Plugin-Version'', [''copilot-chat/0.26.7'']),
      (''Copilot-Integration-Id'', [''vscode-chat'']), (''X-Initiator'', [''user'']),
      (''Openai-Intent'', [if cap = CapabilityEmbeddings then ''embeddings'' else ''conversation-edits''])]"

definition gc_log :: "string \<Rightarrow> header \<Rightarrow> string \<Rightarrow> copilot_state \<Rightarrow> copilot_state" where
  "gc_log url hdr body st = st\<lparr>gc_sent := gc_sent st @ [\<lparr>sr_URL = url, sr_Header = hdr, sr_Body = body\<rparr>]\<rparr>"

definition copilot_exchange :: "copilot_env \<Rightarrow> string + http_response" where
  "copilot_exchange env =
     (case fst (makeRequestWithRetry (oe_upstream env) \<lparr>ur_Method = oe_method env, ur_IdempotencyKey = ''''\<rparr>) of
        RetryResponse k status \<Rightarrow> Inr ((oe_response env)\<lparr>hr_StatusCode := status\<rparr>)
      | RetryError e \<Rightarrow> Inl e
      | NoResponse \<Rightarrow> Inl ''no response'')"

text \<open>The result is the response with the embeddings model and the account that served it; an
  error before the account was chosen has the index \<open>-1\<close>.\<close>

definition executeProxyRequest ::
    "copilot_env \<Rightarrow> string \<Rightarrow> capability \<Rightarrow> copilot_state \<Rightarrow> (proxy_error + http_response \<times> string) \<times> int \<times> copilot_state" where
  "executeProxyRequest env body cap st =
     (case Copilot_EnsureAuthenticated env st of
        Some e \<Rightarrow> (Inl e, - 1, st)
      | None \<Rightarrow>
          (case canExecute (oe_breaker_now env) (gc_breaker st) of
             (False, cb) \<Rightarrow> (Inl (plain_error ''copilot circuit breaker is open''), - 1, st\<lparr>gc_breaker := cb\<rparr>)
           | (True, cb) \<Rightarrow>
               (let st = st\<lparr>gc_breaker := cb\<rparr>;
                    (accountIndex, token) = credentialSnapshot env st;
                    (body, embedModel) = (if cap = CapabilityEmbeddings then normalizeEmbeddingsRequestBody (oe_codec env) body else (body, ''''));
                    url = copilotAPIBase @ (if cap = CapabilityEmbeddings then ''/embeddings'' else ''/chat/completions'')
                in case oe_bad_request env of
                     Some e \<Rightarrow> (Inl e, int accountIndex, st)
                   | None \<Rightarrow>
                       (let st = gc_log url (setCopilotHeaders token cap) body st in
                        case copilot_exchange env of
                          Inl e \<Rightarrow> (Inl (oe_error env e), int accountIndex, st\<lparr>gc_breaker := onFailure (oe_outcome_now env) (gc_breaker st)\<rparr>)
                        | Inr r \<Rightarrow>
                            (Inr (r, embedModel), int accountIndex,
                             st\<lparr>gc_breaker := (if hr_StatusCode r < 500 then onSuccess (gc_breaker st) else onFailure (oe_outcome_now env) (gc_breaker st))\<rparr>)))))"

definition writeProxyResponse ::
    "json_codec \<Rightarrow> 'w writer_ops \<Rightarrow> http_response \<Rightarrow> capability \<Rightarrow> string \<Rightarrow> 'w \<Rightarrow> proxy_result \<times> 'w" where
  "writeProxyResponse codec ops r cap embedModel w =
     (if cap = CapabilityEmbeddings \<and> header_get ''Content-Type'' (hr_Header r) \<noteq> ''text/event-stream''
      then writeCopilotEmbeddingsResponse codec ops r embedModel w
      else case streamResponse ops r w of (err, w) \<Rightarrow> (Returned err, w))"

definition Copilot_ProxyRequest ::
    "copilot_env \<Rightarrow> 'w writer_ops \<Rightarrow> string \<Rightarrow> capability \<Rightarrow> copilot_state \<Rightarrow> 'w \<Rightarrow> proxy_result \<times> copilot_state \<times> 'w" where
  "Copilot_ProxyRequest env ops body cap st w =
     (case executeProxyRequest env body cap st of
        (Inl e, i, st) \<Rightarrow> (Returned (Some e), st, w)
      | (Inr (r, embedModel), i, st) \<Rightarrow>
          (case writeProxyResponse (oe_codec env) ops r cap embedModel w of (res, w) \<Rightarrow> (res, st, w)))"

section \<open>Model lists\<close>

definition model_value :: "model setter" where
  "model_value = struct_value [
     (''id'', string_value (\<lambda>v s. s\<lparr>mo_ID := v\<rparr>)), (''object'', string_value (\<lambda>v s. s\<lparr>mo_Object := v\<rparr>)),
     (''created'', int_value (\<lambda>v s. s\<lparr>mo_Created := v\<rparr>)), (''owned_by'', string_value (\<lambda>v s. s\<lparr>mo_OwnedBy := v\<rparr>)),
     (''name'', string_value (\<lambda>v s. s\<lparr>mo_Name := v\<rparr>)), (''vendor'', string_value (\<lambda>v s. s\<lparr>mo_Vendor := v\<rparr>)),
     (''version'', string_value (\<lambda>v s. s\<lparr>mo_Version := v\<rparr>)), (''model_picker_enabled'', bool_value (\<lambda>v s. s\<lparr>mo_PickerEnabled := v\<rparr>)),
     (''model_picker_category'', string_value (\<lambda>v s. s\<lparr>mo_PickerCategory := v\<rparr>)), (''preview'', bool_value (\<lambda>v s. s\<lparr>mo_Preview := v\<rparr>)),
     (''supported_endpoints'', list_value (\<lambda>v s. s\<lparr>mo_Endpoints := v\<rparr>) '''' (string_value (\<lambda>v s. v)))]"

definition model_list_value :: "model_list setter" where
  "model_list_value = struct_value [
     (''object'', string_value (\<lambda>v s. s\<lparr>ml_Object := v\<rparr>)),
     (''data'', list_value (\<lambda>v s. s\<lparr>ml_Data := v\<rparr>) (plain_model '''' '''' 0 '''') model_value)]"

definition fetchModelsRaw :: "copilot_env \<Rightarrow> copilot_state \<Rightarrow> (proxy_error + model_list) \<times> copilot_state" where
  "fetchModelsRaw env st =
     (let token = snd (credentialSnapshot env st) in
      if token = '''' then (Inr \<lparr>ml_Object = ''list'', ml_Data = []\<rparr>, st)
      else
        (let st = gc_log (copilotAPIBase @ ''/models'') (setCopilotHeaders token CapabilityChat) '''' st in
         case oe_list env of
           Inl e \<Rightarrow> (Inl e, st)
         | Inr r \<Rightarrow>
             if hr_StatusCode r \<noteq> 200 then (Inl (plain_error ''copilot /models: HTTP''), st)
             else case Option.bind (oe_first_value env (hr_Body r)) (\<lambda>j. model_list_value j \<lparr>ml_Object = '''', ml_Data = []\<rparr>) of
                 None \<Rightarrow> (Inl (case hr_ReadErr r of Some e \<Rightarrow> e | None \<Rightarrow> plain_error ''decode''), st)
               | Some ml \<Rightarrow> (Inr ml, st)))"

definition listRawModels :: "copilot_env \<Rightarrow> copilot_state \<Rightarrow> (proxy_error + model_list) \<times> copilot_state" where
  "listRawModels env st =
     (case Copilot_EnsureAuthenticated env st of
        Some e \<Rightarrow> (Inl e, st)
      | None \<Rightarrow>
          (case oe_cache_times env of
             (first, before, after) \<Rightarrow> GetOrFetch gc_cache (\<lambda>c s. s\<lparr>gc_cache := c\<rparr>) first before after (fetchModelsRaw env) st))"

text \<open>The first model of every ID.\<close>

definition Copilot_ListModels :: "copilot_env \<Rightarrow> copilot_state \<Rightarrow> (proxy_error + model_list) \<times> copilot_state" where
  "Copilot_ListModels env st =
     (case listRawModels env st of
        (Inl e, st) \<Rightarrow> (Inl e, st)
      | (Inr raw, st) \<Rightarrow> (Inr (raw\<lparr>ml_Data := snd (fold add_unseen (ml_Data raw) ([], []))\<rparr>), st))"

section \<open>Failover over the free models\<close>

definition nextFreeChatAttemptOrder :: "model list \<Rightarrow> copilot_state \<Rightarrow> model list \<times> copilot_state" where
  "nextFreeChatAttemptOrder models st =
     (if length models \<le> 1 then (models, st)
      else
        (let start = gc_freeCursor st mod length models
         in (drop start models @ take start models, st\<lparr>gc_freeCursor := gc_freeCursor st + 1\<rparr>)))"

definition shouldShiftToNextCopilotModel :: "http_response \<Rightarrow> bool \<times> string" where
  "shouldShiftToNextCopilotModel r =
     (let status = hr_StatusCode r in
      if status = 408 \<or> status = 429 \<or> status \<ge> 500 then (True, ''transient_upstream_error'')
      else if status = 400 \<or> status = 404 \<or> status = 409 then
        (let preview = to_lower (readAndResetResponseBody r) in
         if contains preview ''model'' \<and> (contains preview ''unsupported'' \<or> contains preview ''not available''
              \<or> contains preview ''not found'' \<or> contains preview ''unavailable'')
         then (True, ''model_unavailable'') else (False, ''''))
      else (False, ''''))"

text \<open>What the loop over the models comes to: the call returns, or the last model was limited, or
  there was no model.\<close>

datatype 'w free_step =
    FreeReturns proxy_result copilot_state 'w
  | FreeLimited http_response int copilot_state
  | FreeNone copilot_state

fun free_models :: "(nat \<Rightarrow> copilot_env) \<Rightarrow> 'w writer_ops \<Rightarrow> string \<Rightarrow> nat \<Rightarrow> model list \<Rightarrow> copilot_state \<Rightarrow> 'w \<Rightarrow> 'w free_step" where
  "free_models env ops body i [] st w = FreeNone st"
| "free_models env ops body i (m # ms) st w =
     (case PatchModel (oe_codec (env i)) body (mo_ID m) of
        Panic \<Rightarrow> FreeReturns Panicked st w
      | Body patched \<Rightarrow>
          (case executeProxyRequest (env i) patched CapabilityChat st of
             (Inl e, index, st) \<Rightarrow>
               if ms = [] then FreeReturns (Returned (Some e)) st w else free_models env ops body (Suc i) ms st w
           | (Inr (r, embedModel), index, st) \<Rightarrow>
               if fst (isAccountLimitSignal r) then
                 (if ms = [] then FreeLimited r index st else free_models env ops body (Suc i) ms st w)
               else if fst (shouldShiftToNextCopilotModel r) \<and> ms \<noteq> [] then free_models env ops body (Suc i) ms st w
               else (case writeProxyResponse (oe_codec (env i)) ops r CapabilityChat embedModel w of (res, w) \<Rightarrow> FreeReturns res st w)))"

record free_env =
  fe_models :: "proxy_error + model list"
  fe_env :: "nat \<Rightarrow> copilot_env"
  fe_limit_now :: "nat \<Rightarrow> int"

fun free_accounts :: "(nat \<Rightarrow> free_env) \<Rightarrow> 'w writer_ops \<Rightarrow> string \<Rightarrow> nat \<Rightarrow> nat \<Rightarrow> copilot_state \<Rightarrow> 'w \<Rightarrow> proxy_result \<times> copilot_state \<times> 'w" where
  "free_accounts env ops body n 0 st w = (Returned (Some (plain_error ''copilot free-model failover exhausted'')), st, w)"
| "free_accounts env ops body n (Suc left) st w =
     (case fe_models (env n) of
        Inl e \<Rightarrow> (Returned (Some e), st, w)
      | Inr models \<Rightarrow>
          (case nextFreeChatAttemptOrder models st of
             (attempts, st) \<Rightarrow>
               (case free_models (fe_env (env n)) ops body 0 attempts st w of
                  FreeReturns res st w \<Rightarrow> (res, st, w)
                | FreeNone st \<Rightarrow> free_accounts env ops body (Suc n) left st w
                | FreeLimited r index st \<Rightarrow>
                    (case advanceAccountFrom (fe_limit_now (env n)) index st of
                       (True, st) \<Rightarrow> free_accounts env ops body (Suc n) left st w
                     | (False, st) \<Rightarrow>
                         (case writeProxyResponse (oe_codec (fe_env (env n) 0)) ops r CapabilityChat '''' w of (res, w) \<Rightarrow> (res, st, w))))))"

definition ProxyFreeChatRequest ::
    "(nat \<Rightarrow> free_env) \<Rightarrow> 'w writer_ops \<Rightarrow> string \<Rightarrow> copilot_state \<Rightarrow> 'w \<Rightarrow> proxy_result \<times> copilot_state \<times> 'w" where
  "ProxyFreeChatRequest env ops body st w = free_accounts env ops body 0 (max 1 (length (gc_pool st))) st w"

section \<open>Facts on requests\<close>

text \<open>An execution touches the breaker and the log only, and logs at most one request.\<close>

lemma execute_frame:
  assumes "executeProxyRequest env body cap st = (out, i, st')"
  shows "gc_config st' = gc_config st \<and> gc_cursor st' = gc_cursor st \<and> gc_cache st' = gc_cache st
    \<and> (gc_sent st' = gc_sent st \<or> (\<exists>url b. gc_sent st' = gc_sent st @ [\<lparr>sr_URL = url, sr_Header = setCopilotHeaders (copilot_token env st) cap, sr_Body = b\<rparr>]))
    \<and> (\<forall>r em. out = Inr (r, em) \<longrightarrow> copilot_exchange env = Inr r)"
proof (cases "Copilot_EnsureAuthenticated env st")
  case None
  obtain ok cb where cb: "canExecute (oe_breaker_now env) (gc_breaker st) = (ok, cb)" by fastforce
  obtain b em where n: "(if cap = CapabilityEmbeddings then normalizeEmbeddingsRequestBody (oe_codec env) body else (body, '''')) = (b, em)" by (metis surj_pair)
  have token: "copilot_token env (st\<lparr>gc_breaker := cb\<rparr>) = copilot_token env st"
    by (simp add: copilot_token_def gc_authState_def gc_pool_def split: option.split)
  define url where "url = copilotAPIBase @ (if cap = CapabilityEmbeddings then ''/embeddings'' else ''/chat/completions'')"
  show ?thesis using assms
    unfolding executeProxyRequest_def None option.case cb prod.case credentialSnapshot_def Let_def n url_def [symmetric] token
    by (auto simp: gc_log_def split: bool.splits option.splits sum.splits)
qed (use assms in \<open>auto simp: executeProxyRequest_def\<close>)

lemma execute_sent:
  assumes "executeProxyRequest env body cap st = (out, i, st')"
  shows "length (gc_sent st') \<le> Suc (length (gc_sent st))"
  using execute_frame [OF assms] by auto

section \<open>One response per request\<close>

lemma chat_response: "writeProxyResponse codec ops r CapabilityChat em w = (case streamResponse ops r w of (err, w) \<Rightarrow> (Returned err, w))"
  by (simp add: writeProxyResponse_def capability_defs)

definition forwarded_once :: "(nat \<Rightarrow> copilot_env) \<Rightarrow> 'w writer_ops \<Rightarrow> 'w \<Rightarrow> proxy_result \<Rightarrow> 'w \<Rightarrow> bool" where
  "forwarded_once env ops w res w' \<longleftrightarrow>
     w' = w \<and> (res = Panicked \<or> (\<exists>e. res = Returned (Some e)))
     \<or> (\<exists>i r. copilot_exchange (env i) = Inr r \<and> (case streamResponse ops r w of (err, v) \<Rightarrow> res = Returned err \<and> w' = v))"

lemma forwarded_onceI:
  assumes "copilot_exchange (env i) = Inr r" and "streamResponse ops r w = (err, w')" and "res = Returned err"
  shows "forwarded_once env ops w res w'"
proof -
  have "case streamResponse ops r w of (err, v) \<Rightarrow> res = Returned err \<and> w' = v" by (simp add: assms(2,3))
  with assms(1) show ?thesis unfolding forwarded_once_def by (intro disjI2 exI conjI)
qed

lemma free_models_once:
  "case free_models env ops body i ms st w of
     FreeReturns res st' w' \<Rightarrow> forwarded_once env ops w res w' \<and> length (gc_sent st') \<le> length (gc_sent st) + length ms
   | FreeLimited r index st' \<Rightarrow> (\<exists>i. copilot_exchange (env i) = Inr r) \<and> fst (isAccountLimitSignal r)
       \<and> length (gc_sent st') \<le> length (gc_sent st) + length ms \<and> gc_config st' = gc_config st
   | FreeNone st' \<Rightarrow> st' = st \<and> ms = []"
proof (induction ms arbitrary: i st)
  case (Cons m ms)
  show ?case
  proof (cases "PatchModel (oe_codec (env i)) body (mo_ID m)")
    case (Body patched)
    obtain out index st1 where x: "executeProxyRequest (env i) patched CapabilityChat st = (out, index, st1)" by (metis prod_cases3)
    note fr = execute_frame [OF x]
    have len: "length (gc_sent st1) \<le> Suc (length (gc_sent st))" by (rule execute_sent [OF x])
    have rest: ?thesis if "free_models env ops body i (m # ms) st w = free_models env ops body (Suc i) ms st1 w" "ms \<noteq> []"
      unfolding that(1) using Cons.IH [where i = "Suc i" and st = st1] len fr that(2) by (auto split: free_step.splits)
    show ?thesis
    proof (cases out)
      case (Inl e)
      then show ?thesis using rest Body x len by (cases "ms = []") (auto simp: forwarded_once_def)
    next
      case (Inr p)
      obtain r em where p: "p = (r, em)" by fastforce
      have ex: "copilot_exchange (env i) = Inr r" using fr Inr p by blast
      obtain err v where s: "streamResponse ops r w = (err, v)" by fastforce
      have wr: "writeProxyResponse (oe_codec (env i)) ops r CapabilityChat em w = (Returned err, v)" by (simp add: chat_response s)
      have fw: "forwarded_once env ops w (Returned err) v" using ex s refl by (rule forwarded_onceI)
      consider "fst (isAccountLimitSignal r)" "ms = []" | "fst (isAccountLimitSignal r) \<or> fst (shouldShiftToNextCopilotModel r)" "ms \<noteq> []"
        | "\<not> fst (isAccountLimitSignal r)" "\<not> fst (shouldShiftToNextCopilotModel r) \<or> ms = []" by blast
      then show ?thesis
      proof cases
        case 1
        then show ?thesis using Body x Inr p ex len fr by auto
      next
        case 2
        then show ?thesis by (intro rest) (auto simp: Body x Inr p)
      next
        case 3
        then show ?thesis using Body x Inr p len fw wr by auto
      qed
    qed
  qed (simp add: forwarded_once_def)
qed simp

lemma advance_frame:
  assumes "advanceAccountFrom now i st = (ok, st')"
  shows "gc_sent st' = gc_sent st"
  using assms by (auto simp: advanceAccountFrom_def Let_def split: if_splits option.splits)

definition free_budget :: "(nat \<Rightarrow> free_env) \<Rightarrow> nat \<Rightarrow> nat" where
  "free_budget env n = (case fe_models (env n) of Inl _ \<Rightarrow> 0 | Inr models \<Rightarrow> length models)"

lemma free_accounts_once:
  "case free_accounts env ops body n left st w of
     (res, st', w') \<Rightarrow> (\<exists>k. forwarded_once (fe_env (env k)) ops w res w')
       \<and> length (gc_sent st') \<le> length (gc_sent st) + (\<Sum>k \<in> {n..<n + left}. free_budget env k)"
proof (induction left arbitrary: n st)
  case 0
  then show ?case by (simp add: forwarded_once_def)
next
  case (Suc left)
  show ?case
  proof (cases "fe_models (env n)")
    case (Inl e)
    then show ?thesis by (simp add: forwarded_once_def)
  next
    case (Inr models)
    obtain attempts st0 where o: "nextFreeChatAttemptOrder models st = (attempts, st0)" by fastforce
    then have at: "length attempts = length models" "gc_sent st0 = gc_sent st"
      by (auto simp: nextFreeChatAttemptOrder_def Let_def split: if_splits)
    have sum: "(\<Sum>k \<in> {n..<n + Suc left}. free_budget env k) = length models + (\<Sum>k \<in> {Suc n..<Suc n + left}. free_budget env k)"
      by (simp add: sum.atLeast_Suc_lessThan free_budget_def Inr)
    have rest: ?thesis if "free_accounts env ops body n (Suc left) st w = free_accounts env ops body (Suc n) left s w"
        "length (gc_sent s) \<le> length (gc_sent st) + length models" for s
      unfolding that(1) sum using Suc.IH [where n = "Suc n" and st = s] that(2) by (auto split: prod.splits)
    note once = free_models_once [where env = "fe_env (env n)" and ops = ops and body = body and i = 0 and ms = attempts and st = st0 and w = w]
    show ?thesis
    proof (cases "free_models (fe_env (env n)) ops body 0 attempts st0 w")
      case (FreeReturns res st1 w1)
      then show ?thesis using once Inr o at sum by auto
    next
      case (FreeNone st1)
      then show ?thesis using once Inr o at by (intro rest [of st1]) auto
    next
      case (FreeLimited r index st1)
      obtain ok st2 where a: "advanceAccountFrom (fe_limit_now (env n)) index st1 = (ok, st2)" by fastforce
      have len: "length (gc_sent st2) \<le> length (gc_sent st) + length models"
        using once FreeLimited at advance_frame [OF a] by simp
      show ?thesis
      proof (cases ok)
        case True
        then show ?thesis using Inr o FreeLimited a len by (intro rest [of st2]) auto
      next
        case False
        obtain i where i: "copilot_exchange (fe_env (env n) i) = Inr r" using once FreeLimited by auto
        obtain err v where s: "streamResponse ops r w = (err, v)" by fastforce
        have "forwarded_once (fe_env (env n)) ops w (Returned err) v" using i s refl by (rule forwarded_onceI)
        then show ?thesis using Inr o FreeLimited a False len s sum by (auto simp: chat_response)
      qed
    qed
  qed
qed

text \<open>The failover over free models answers once and ends. Whatever the upstream answers, the
  client gets either nothing and an error, or exactly one upstream response, copied once; and the
  number of upstream requests is at most the number of offered models, added over as many rounds
  as there are accounts.\<close>

theorem free_chat_single_response:
  "case ProxyFreeChatRequest env ops body st w of
     (res, st', w') \<Rightarrow> (\<exists>k. forwarded_once (fe_env (env k)) ops w res w')
       \<and> length (gc_sent st') \<le> length (gc_sent st) + (\<Sum>k < max 1 (length (gc_pool st)). free_budget env k)"
  using free_accounts_once [where env = env and ops = ops and body = body and n = 0 and left = "max 1 (length (gc_pool st))" and st = st and w = w]
  by (simp add: ProxyFreeChatRequest_def lessThan_atLeast0)

section \<open>One account per provider\<close>

datatype copilot_call = CopilotProxy copilot_env string capability | CopilotList copilot_env | CopilotInvalidate

fun copilot_step :: "'w writer_ops \<Rightarrow> copilot_call \<Rightarrow> copilot_state \<times> 'w \<Rightarrow> copilot_state \<times> 'w" where
  "copilot_step ops (CopilotProxy env body cap) (st, w) = snd (Copilot_ProxyRequest env ops body cap st w)"
| "copilot_step ops (CopilotList env) (st, w) = (snd (Copilot_ListModels env st), w)"
| "copilot_step ops CopilotInvalidate (st, w) = (st\<lparr>gc_cache := mc_Invalidate (gc_cache st)\<rparr>, w)"

fun managed_tokens :: "copilot_call \<Rightarrow> string set" where
  "managed_tokens (CopilotProxy env body cap) = set_option (managed_token env)"
| "managed_tokens (CopilotList env) = set_option (managed_token env)"
| "managed_tokens CopilotInvalidate = {}"

definition bearer :: "string set \<Rightarrow> sent_request \<Rightarrow> bool" where
  "bearer tokens r \<longleftrightarrow> (\<exists>t \<in> tokens. map_of (sr_Header r) ''Authorization'' = Some [''Bearer '' @ t])"

definition account_inv :: "copilot_state \<Rightarrow> string set \<Rightarrow> copilot_state \<Rightarrow> bool" where
  "account_inv st0 tokens st \<longleftrightarrow>
     gc_config st = gc_config st0 \<and> gc_cursor st = gc_cursor st0
     \<and> list_all (bearer (insert (ca_copilot_token (gc_authState st0)) tokens)) (gc_sent st)"

lemma token_of: "copilot_token env st \<in> insert (ca_copilot_token (gc_authState st)) (set_option (managed_token env))"
  by (simp add: copilot_token_def split: option.split)

lemma bearer_headers: "t \<in> tokens \<Longrightarrow> bearer tokens \<lparr>sr_URL = url, sr_Header = setCopilotHeaders t cap, sr_Body = b\<rparr>"
  by (auto simp: bearer_def setCopilotHeaders_def)

lemma bearer_mono: "bearer tokens r \<Longrightarrow> tokens \<subseteq> tokens' \<Longrightarrow> bearer tokens' r"
  unfolding bearer_def by blast

lemma account_inv_auth: "account_inv st0 tokens st \<Longrightarrow> gc_authState st = gc_authState st0"
  by (simp add: account_inv_def gc_authState_def gc_pool_def)

lemma account_inv_log:
  assumes "account_inv st0 tokens st" and "gc_config st' = gc_config st" and "gc_cursor st' = gc_cursor st"
    and "gc_sent st' = gc_sent st \<or> (\<exists>url b. gc_sent st' = gc_sent st @ [\<lparr>sr_URL = url, sr_Header = setCopilotHeaders (copilot_token env st) cap, sr_Body = b\<rparr>])"
  shows "account_inv st0 (tokens \<union> set_option (managed_token env)) st'"
proof -
  let ?all = "insert (ca_copilot_token (gc_authState st0)) (tokens \<union> set_option (managed_token env))"
  have "copilot_token env st \<in> ?all" using token_of [of env st] account_inv_auth [OF assms(1)] by auto
  then have new: "bearer ?all \<lparr>sr_URL = url, sr_Header = setCopilotHeaders (copilot_token env st) cap, sr_Body = b\<rparr>" for url b by (rule bearer_headers)
  have "list_all (bearer ?all) (gc_sent st)"
    using assms(1) unfolding account_inv_def list_all_iff by (meson bearer_mono insert_mono sup_ge1)
  then show ?thesis using assms new unfolding account_inv_def by auto
qed

lemma fetch_frame:
  assumes "fetchModelsRaw env st = (out, st')"
  shows "gc_config st' = gc_config st \<and> gc_cursor st' = gc_cursor st
    \<and> (gc_sent st' = gc_sent st \<or> (\<exists>url b. gc_sent st' = gc_sent st @ [\<lparr>sr_URL = url, sr_Header = setCopilotHeaders (copilot_token env st) CapabilityChat, sr_Body = b\<rparr>]))"
  using assms by (auto simp: fetchModelsRaw_def credentialSnapshot_def Let_def gc_log_def split: if_splits sum.splits option.splits)

lemma list_frame:
  assumes "Copilot_ListModels env st = (out, st')"
  shows "gc_config st' = gc_config st \<and> gc_cursor st' = gc_cursor st
    \<and> (gc_sent st' = gc_sent st \<or> (\<exists>url b. gc_sent st' = gc_sent st @ [\<lparr>sr_URL = url, sr_Header = setCopilotHeaders (copilot_token env st) CapabilityChat, sr_Body = b\<rparr>]))"
proof -
  obtain res s where f: "fetchModelsRaw env st = (res, s)" by fastforce
  have "st' = st \<or> (\<exists>c. st' = s \<or> st' = s\<lparr>gc_cache := c\<rparr>)"
    using assms f by (auto simp: Copilot_ListModels_def listRawModels_def GetOrFetch_def fetch_locked_def split: option.splits prod.splits sum.splits)
  then show ?thesis using fetch_frame [OF f] by auto
qed

lemma account_inv_step:
  assumes "account_inv st0 tokens st" and "copilot_step ops c (st, w) = (st', w')"
  shows "account_inv st0 (tokens \<union> managed_tokens c) st'"
proof (cases c)
  case (CopilotProxy env body cap)
  obtain out i s where x: "executeProxyRequest env body cap st = (out, i, s)" by (metis prod_cases3)
  have "st' = s" using assms(2) CopilotProxy x by (auto simp: Copilot_ProxyRequest_def split: sum.splits prod.splits)
  then show ?thesis using account_inv_log [OF assms(1), of s env cap] execute_frame [OF x] CopilotProxy by auto
next
  case (CopilotList env)
  obtain out s where l: "Copilot_ListModels env st = (out, s)" by fastforce
  then have "st' = s" using assms(2) CopilotList by simp
  then show ?thesis using account_inv_log [OF assms(1), of s env CapabilityChat] list_frame [OF l] CopilotList by auto
next
  case CopilotInvalidate
  then show ?thesis using assms by (auto simp: account_inv_def)
qed

lemma account_inv_run:
  assumes "account_inv st0 tokens st" and "fold (copilot_step ops) calls (st, w) = (st', w')"
  shows "account_inv st0 (tokens \<union> (\<Union>c \<in> set calls. managed_tokens c)) st'"
  using assms
proof (induction calls arbitrary: tokens st w)
  case (Cons c calls)
  obtain s v where step: "copilot_step ops c (st, w) = (s, v)" by fastforce
  from Cons.IH [OF account_inv_step [OF Cons.prems(1) step]] show ?case using Cons.prems(2) step by (simp add: Un_assoc)
qed simp


text \<open>The cursor is an index of the pool.\<close>

lemma cursor_ok: "items (cp_accounts cfg) \<noteq> [] \<Longrightarrow> firstHealthyAccount cfg now < length (items (cp_accounts cfg))"
  by (auto simp: firstHealthyAccount_def Let_def find_Some_iff split: option.split)

lemma advance_cursor_ok:
  assumes "advanceAccountFrom now i st = (ok, st')" and "gc_pool st \<noteq> [] \<Longrightarrow> gc_cursor st < length (gc_pool st)"
  shows "length (gc_pool st') = length (gc_pool st) \<and> (gc_pool st' \<noteq> [] \<longrightarrow> gc_cursor st' < length (gc_pool st'))"
  using assms by (auto simp: advanceAccountFrom_def Let_def gc_pool_def split: if_splits option.splits)

text \<open>The expiry of the stored account is applied to a managed token as well.\<close>

lemma managed_token_refused:
  assumes "ca_expires_at (gc_authState st) > 0" and "ca_expires_at (gc_authState st) - oe_now env \<le> 300"
  shows "Copilot_EnsureAuthenticated env st \<noteq> None"
  using assms by (simp add: Copilot_EnsureAuthenticated_def Let_def)

section \<open>A sample pool\<close>

text \<open>Two accounts; the upstream limits every request.\<close>

definition sample_copilot_account :: "string \<Rightarrow> copilot_account" where
  "sample_copilot_account token = \<lparr>cacc_id = token, cacc_label = token,
     cacc_auth = \<lparr>ca_mode = '''', ca_github_token = '''', ca_github_token_ref = None, ca_copilot_token = token, ca_copilot_token_ref = None,
       ca_expires_at = 0, ca_refresh_in = 0\<rparr>, cacc_last_limited_at = 0\<rparr>"

definition sample_copilot :: copilot_provider where
  "sample_copilot = \<lparr>cp_enabled = True, cp_auth = cacc_auth (sample_copilot_account ''''),
     cp_accounts = Some [sample_copilot_account ''a'', sample_copilot_account ''b''], cp_account_cooldown_seconds = 0, cp_allowed_models = None\<rparr>"

definition sample_copilot_env :: copilot_env where
  "sample_copilot_env = \<lparr>oe_controller = None, oe_now = 5, oe_bad_request = None, oe_method = ''POST'',
     oe_upstream = \<lparr>up_new_request = (\<lambda>_. None), up_send = (\<lambda>n. Inr 429), up_cancelled = (\<lambda>_. None)\<rparr>,
     oe_response = \<lparr>hr_StatusCode = 429, hr_Header = [], hr_Pieces = [], hr_ReadErr = None\<rparr>, oe_error = plain_error, oe_breaker_now = 1, oe_outcome_now = 1,
     oe_codec = \<lparr>jc_decode = (\<lambda>s. None), jc_encode = (\<lambda>j. None)\<rparr>, oe_list = Inl (plain_error ''''), oe_first_value = (\<lambda>s. None), oe_cache_times = (1, 1, 1)\<rparr>"

definition sample_copilot_run :: "copilot_state \<times> response_wrapper" where
  "sample_copilot_run = fold (copilot_step wrapper_ops) [CopilotProxy sample_copilot_env ''x'' CapabilityChat, CopilotProxy sample_copilot_env ''x'' CapabilityChat]
     (NewCopilotProvider sample_copilot 1 (\<lambda>i. 5), fresh_wrapper)"


end
