(* ===== verification/Inbound_Security.thy ===== *)
theory Inbound_Security
  imports Anthropic_Handler Copilot_Provider
begin

text \<open>
  The guard in front of every handler of the public API (\<open>src/security.go\<close>): the listen address,
  the API key and the allowed origins. The environment variables and \<open>net.ParseIP\<close> (whether a text
  is an address, and whether it is a loopback one) are parameters; the handlers behind the guard
  are an argument.
\<close>

section \<open>The listen address\<close>

record inbound_env =
  ie_getenv :: "string \<Rightarrow> string"
  ie_parse_ip :: "string \<Rightarrow> bool option"
  ie_adapter :: adapter_env

definition listenAddressEnv :: string where "listenAddressEnv = ''YA_ROUTER_LISTEN_ADDRESS''"
definition inboundAPIKeyEnv :: string where "inboundAPIKeyEnv = ''YA_ROUTER_API_KEY''"
definition corsOriginsEnv :: string where "corsOriginsEnv = ''YA_ROUTER_CORS_ALLOWED_ORIGINS''"

definition inbound_key :: "inbound_env \<Rightarrow> string" where
  "inbound_key env = trim_space (ie_getenv env inboundAPIKeyEnv)"

definition bracket :: "char \<Rightarrow> bool" where
  "bracket c \<longleftrightarrow> c = CHR ''['' \<or> c = CHR '']''"

definition listen_host :: "inbound_env \<Rightarrow> string" where
  "listen_host env =
     (let host = trim_space (ie_getenv env listenAddressEnv);
          host = (if host = '''' then ''127.0.0.1'' else host)
      in rev (dropWhile bracket (rev (dropWhile bracket host))))"

definition loopback_host :: "inbound_env \<Rightarrow> string \<Rightarrow> bool" where
  "loopback_host env host = (case ie_parse_ip env host of Some l \<Rightarrow> l | None \<Rightarrow> equal_fold host ''localhost'')"

definition JoinHostPort :: "string \<Rightarrow> string \<Rightarrow> string" where
  "JoinHostPort host port = (if CHR '':'' \<in> set host then ''['' @ host @ '']:'' @ port else host @ '':'' @ port)"

definition configuredListenAddress :: "inbound_env \<Rightarrow> nat \<Rightarrow> string + string" where
  "configuredListenAddress env port =
     (if \<not> loopback_host env (listen_host env) \<and> inbound_key env = ''''
      then Inl (inboundAPIKeyEnv @ '' must be set when '' @ listenAddressEnv @ '' is non-loopback'')
      else Inr (JoinHostPort (listen_host env) (decimal port)))"

section \<open>Credentials and origins\<close>

definition bearer_prefix :: string where "bearer_prefix = ''Bearer ''"

definition supplied_credential :: "header \<Rightarrow> string" where
  "supplied_credential hdr =
     (let supplied = trim_space (header_get ''X-Api-Key'' hdr) in
      if supplied \<noteq> '''' then supplied
      else
        (let authorization = trim_space (header_get ''Authorization'' hdr) in
         if length authorization > length bearer_prefix \<and> equal_fold (take (length bearer_prefix) authorization) bearer_prefix
         then trim_space (drop (length bearer_prefix) authorization) else ''''))"

definition validInboundCredential :: "header \<Rightarrow> string \<Rightarrow> bool" where
  "validInboundCredential hdr expected \<longleftrightarrow>
     (if length (supplied_credential hdr) \<noteq> length expected then False else supplied_credential hdr = expected)"

fun split_comma :: "string \<Rightarrow> string list" where
  "split_comma [] = [[]]"
| "split_comma (c # cs) = (if c = CHR '','' then [] # split_comma cs else (case split_comma cs of p # ps \<Rightarrow> (c # p) # ps | [] \<Rightarrow> [[c]]))"

definition allowed_origins :: "inbound_env \<Rightarrow> string list" where
  "allowed_origins env = filter (\<lambda>origin. origin \<noteq> '''') (map trim_space (split_comma (ie_getenv env corsOriginsEnv)))"

definition cors_headers :: "inbound_env \<Rightarrow> header \<Rightarrow> client \<Rightarrow> client" where
  "cors_headers env hdr c =
     (let origin = header_get ''Origin'' hdr in
      if origin \<noteq> '''' \<and> origin \<in> set (allowed_origins env) then
        set_client_header ''Access-Control-Allow-Methods'' ''GET, POST, OPTIONS''
          (set_client_header ''Access-Control-Allow-Headers'' ''Authorization, Content-Type, X-API-Key''
            (set_client_header ''Vary'' ''Origin''
              (set_client_header ''Access-Control-Allow-Origin'' origin c)))
      else c)"

section \<open>The guard\<close>

record inbound_request =
  iq_Method :: string
  iq_Path :: string
  iq_Header :: header

definition inbound_denied :: proxy_error where
  "inbound_denied = newProviderError ProviderErrorAuthRequired 401 ''invalid or missing proxy credential''"

definition deny :: "inbound_env \<Rightarrow> inbound_request \<Rightarrow> client \<Rightarrow> client" where
  "deny env q c =
     (if has_prefix (iq_Path q) ''/v1/messages'' then writeAnthropicError (ie_adapter env) 401 inbound_denied c
      else rw_client (writeOpenAIError (ae_codec (ie_adapter env)) 401 (Some inbound_denied)
             \<lparr>rw_client = c, rw_headers_sent = False, rw_status_code = 0, rw_bytes_written = 0\<rparr>))"

definition secureHandler :: "inbound_env \<Rightarrow> (inbound_request \<Rightarrow> client \<Rightarrow> client) \<Rightarrow> inbound_request \<Rightarrow> client \<Rightarrow> client" where
  "secureHandler env serve_next q c =
     (let apiKey = inbound_key env; c = cors_headers env (iq_Header q) c in
      if iq_Method q = ''OPTIONS'' then client_WriteHeader 204 c
      else if has_prefix (iq_Path q) ''/health'' then serve_next q c
      else if apiKey \<noteq> '''' \<and> \<not> validInboundCredential (iq_Header q) apiKey then deny env q c
      else serve_next q c)"

section \<open>Properties\<close>

text \<open>What presenting a key means: the key header, or without one a bearer authorization.\<close>

definition presents :: "header \<Rightarrow> string \<Rightarrow> bool" where
  "presents hdr key \<longleftrightarrow>
     trim_space (header_get ''X-Api-Key'' hdr) = key
     \<or> trim_space (header_get ''X-Api-Key'' hdr) = ''''
       \<and> (\<exists>scheme rest. trim_space (header_get ''Authorization'' hdr) = scheme @ rest \<and> equal_fold scheme bearer_prefix \<and> trim_space rest = key)"

lemma valid_presents: "key \<noteq> '''' \<Longrightarrow> validInboundCredential hdr key \<Longrightarrow> presents hdr key"
proof -
  assume key: "key \<noteq> ''''" and "validInboundCredential hdr key"
  then have s: "supplied_credential hdr = key" by (simp add: validInboundCredential_def split: if_splits)
  let ?auth = "trim_space (header_get ''Authorization'' hdr)"
  have "?auth = take (length bearer_prefix) ?auth @ drop (length bearer_prefix) ?auth" by simp
  then show ?thesis using s key unfolding presents_def supplied_credential_def Let_def by (metis (no_types, lifting))
qed

lemma deny_status: "cl_sent c = None \<Longrightarrow> \<exists>h. cl_sent (deny env q c) = Some (401, h)"
  by (auto simp: deny_def writeAnthropicError_def writeOpenAIError_def rw_set_header_def rw_header_def rw_WriteHeader_def rw_Write_def
      client_WriteHeader_def client_Write_def set_client_header_def Let_def split: if_splits prod.splits)

lemma cors_sent: "cl_sent (cors_headers env hdr c) = cl_sent c"
  by (simp add: cors_headers_def set_client_header_def Let_def)

text \<open>C21: on an address other than loopback nothing but the health report is reachable without the
  API key. If the daemon accepts its listen address, and what a request gets depends at all on the
  handlers behind the guard, then the address is loopback, the request is for the health report,
  or it presented the configured key; every other request is answered with 401, or 204 for a
  preflight, whatever the handlers are.\<close>

theorem inbound_guarded:
  assumes "configuredListenAddress env port = Inr addr" and "\<not> loopback_host env (listen_host env)"
    and "\<not> has_prefix (iq_Path q) ''/health''" and "cl_sent c = None"
  shows "presents (iq_Header q) (inbound_key env)
    \<or> (\<exists>status h. status \<in> {204, 401} \<and> (\<forall>serve_next. cl_sent (secureHandler env serve_next q c) = Some (status, h)
          \<and> secureHandler env serve_next q c = secureHandler env (\<lambda>q c. c) q c))"
proof -
  have key: "inbound_key env \<noteq> ''''" using assms(1,2) by (simp add: configuredListenAddress_def split: if_splits)
  show ?thesis
  proof (cases "iq_Method q = ''OPTIONS''")
    case True
    then have run: "secureHandler env serve_next q c = client_WriteHeader 204 (cors_headers env (iq_Header q) c)" for serve_next
      by (simp add: secureHandler_def Let_def)
    have "cl_sent (client_WriteHeader 204 (cors_headers env (iq_Header q) c)) = Some (204, cl_header (cors_headers env (iq_Header q) c))"
      by (simp add: client_WriteHeader_def cors_sent assms(4))
    then show ?thesis unfolding run by blast
  next
    case False
    show ?thesis
    proof (cases "validInboundCredential (iq_Header q) (inbound_key env)")
      case True
      then show ?thesis using valid_presents [OF key] by blast
    next
      case invalid: False
      have run: "secureHandler env serve_next q c = deny env q (cors_headers env (iq_Header q) c)" for serve_next
        using False invalid key assms(3) by (simp add: secureHandler_def Let_def)
      obtain h where "cl_sent (deny env q (cors_headers env (iq_Header q) c)) = Some (401, h)"
        using deny_status [of "cors_headers env (iq_Header q) c"] cors_sent assms(4) by metis
      then show ?thesis unfolding run by blast
    qed
  qed
qed

definition sample_inbound :: inbound_env where
  "sample_inbound = \<lparr>ie_getenv = (\<lambda>name. if name = listenAddressEnv then ''0.0.0.0'' else if name = inboundAPIKeyEnv then '' k '' else ''''),
     ie_parse_ip = (\<lambda>s. if s = ''0.0.0.0'' then Some False else None), ie_adapter = sample_adapter\<rparr>"

theorem inbound_guarded_witness:
  "\<exists>status h. status \<in> {204, 401}
     \<and> cl_sent (secureHandler sample_inbound (\<lambda>q c. client_WriteHeader 200 c) \<lparr>iq_Method = ''POST'', iq_Path = ''/v1/models'', iq_Header = []\<rparr> sample_client)
       = Some (status, h)"
proof -
  let ?q = "\<lparr>iq_Method = ''POST'', iq_Path = ''/v1/models'', iq_Header = []\<rparr>"
  have l: "configuredListenAddress sample_inbound 8 = Inr ''0.0.0.0:8''" "\<not> loopback_host sample_inbound (listen_host sample_inbound)"
      "\<not> has_prefix (iq_Path ?q) ''/health''" by code_simp+
  have c: "cl_sent sample_client = None" by (simp add: sample_client_def)
  have k: "inbound_key sample_inbound = ''k''" by code_simp
  have e: "trim_space (header_get k []) = ''''" for k by (simp add: header_get_def)
  have f: "\<not> equal_fold [] bearer_prefix" by code_simp
  have "\<not> presents (iq_Header ?q) (inbound_key sample_inbound)"
    unfolding k presents_def inbound_request.select_convs e using f by auto
  then show ?thesis using inbound_guarded [OF l c] by blast
qed

section \<open>Origins of embeddings\<close>

text \<open>A response to an embeddings request of the Copilot provider allows every origin, whatever the
  guard decided.\<close>

lemma copy_headers_unsent:
  "rw_headers_sent (copyHeaders wrapper_ops h skip w) = rw_headers_sent w \<and> cl_sent (rw_client (copyHeaders wrapper_ops h skip w)) = cl_sent (rw_client w)"
proof -
  have one: "rw_headers_sent (append_header wrapper_ops k v w) = rw_headers_sent w \<and> cl_sent (rw_client (append_header wrapper_ops k v w)) = cl_sent (rw_client w)"
    for k v w by (simp add: append_header_def wrapper_ops_def rw_set_header_def)
  have vs: "rw_headers_sent (fold (append_header wrapper_ops k) vs w) = rw_headers_sent w
      \<and> cl_sent (rw_client (fold (append_header wrapper_ops k) vs w)) = cl_sent (rw_client w)" for k vs w
    by (induction vs arbitrary: w) (simp_all add: one)
  define put where "put = (\<lambda>(key, vs) w. if to_lower key \<in> set (map to_lower skip) then w else fold (append_header wrapper_ops key) vs w)"
  have put: "rw_headers_sent (put e w) = rw_headers_sent w \<and> cl_sent (rw_client (put e w)) = cl_sent (rw_client w)" for e w
    unfolding put_def by (cases e) (simp only: prod.case vs simp_thms split: if_split)
  have "rw_headers_sent (fold put h w) = rw_headers_sent w \<and> cl_sent (rw_client (fold put h w)) = cl_sent (rw_client w)"
    by (induction h arbitrary: w) (simp_all add: put)
  then show ?thesis unfolding copyHeaders_def put_def .
qed

lemma put_wrapper: "put_header wrapper_ops k v w = rw_set_header (AList.update k [v] (rw_header w)) w"
  by (simp add: put_header_def wrapper_ops_def)

lemma set_header_simps:
  "rw_header (rw_set_header h w) = h" "rw_headers_sent (rw_set_header h w) = rw_headers_sent w"
  "cl_sent (rw_client (rw_set_header h w)) = cl_sent (rw_client w)"
  by (simp_all add: rw_header_def rw_set_header_def)

lemma wrapper_sends:
  assumes "\<not> rw_headers_sent w" and "cl_sent (rw_client w) = None"
  shows "cl_sent (rw_client (snd (rw_Write body (rw_WriteHeader status w)))) = Some (status, rw_header w)"
  using assms by (simp add: rw_WriteHeader_def rw_Write_def client_WriteHeader_def client_Write_def rw_header_def Let_def)

lemma embeddings_any_origin:
  assumes "\<not> rw_headers_sent w" and "cl_sent (rw_client w) = None"
  shows "\<exists>h. cl_sent (rw_client (snd (send_embeddings wrapper_ops r body w))) = Some (hr_StatusCode r, h)
    \<and> map_of h ''Access-Control-Allow-Origin'' = Some [''*'']"
proof -
  let ?w = "copyHeaders wrapper_ops (hr_Header r) [''Content-Length''] w"
  define v where "v = put_header wrapper_ops ''Content-Length'' (decimal (length body))
    (put_header wrapper_ops ''Access-Control-Allow-Headers'' ''*'' (put_header wrapper_ops ''Access-Control-Allow-Origin'' ''*'' ?w))"
  have sent: "snd (send_embeddings wrapper_ops r body w) = snd (rw_Write body (rw_WriteHeader (hr_StatusCode r) v))"
    by (simp add: send_embeddings_def v_def Let_def wrapper_ops_def case_prod_unfold)
  have "\<not> rw_headers_sent v" "cl_sent (rw_client v) = None"
    using copy_headers_unsent [of "hr_Header r" "[''Content-Length'']" w] assms by (simp_all only: v_def put_wrapper set_header_simps simp_thms)
  moreover have "map_of (rw_header v) ''Access-Control-Allow-Origin'' = Some [''*'']"
    by (simp add: v_def put_wrapper set_header_simps update_conv)
  ultimately show ?thesis unfolding sent using wrapper_sends by blast
qed

end
