(* ===== verification/Operation_Manager.thy ===== *)
theory Operation_Manager
  imports Operation_Runs
begin

text \<open>
  The execution of operations (\<open>internal/operation/manager.go\<close>). The manager keeps a runner per
  operation beside the store; its calls and workers are goroutines. Every access to the store and
  every region under the manager's mutex is one step, and a goroutine is a task with the phase it
  is in, so that the steps contain every interleaving. What a worker reports and returns, the
  outcome of writing the state file and the clock are free in every step.
\<close>

section \<open>State\<close>

text \<open>What a worker returned; a panic counts as the failure \<open>operation_panic\<close>.\<close>

type_synonym worker_outcome = "string_map \<times> op_failure option"

definition panic_outcome :: "string_map \<Rightarrow> worker_outcome" where
  "panic_outcome result = (result, Some (NewFailure ''operation_panic'' ''The operation failed unexpectedly.'' True))"

text \<open>\<open>Opening\<close>, \<open>Starting\<close>: a call of \<open>Run\<close> before and after it has registered its runner;
  \<open>Executing\<close>: the worker, possibly between the two halves of \<open>WaitingForUser\<close>; then the steps of
  \<open>execute\<close> after the worker's return; \<open>Cancelling\<close>, \<open>Signalling\<close>: a call of \<open>Cancel\<close>.\<close>

datatype op_phase =
    Opening op_record
  | Starting op_record
  | Executing "int option"
  | Returned worker_outcome
  | Checked worker_outcome
  | Settling worker_outcome op_record
  | Leaving
  | Cancelling op_record
  | Signalling

fun holds_runner :: "op_phase \<Rightarrow> bool" where
  "holds_runner (Opening r) = False"
| "holds_runner (Cancelling r) = False"
| "holds_runner Signalling = False"
| "holds_runner ph = True"

fun after_start :: "op_phase \<Rightarrow> bool" where
  "after_start (Executing p) = True"
| "after_start (Returned out) = True"
| "after_start (Checked out) = True"
| "after_start (Settling out r) = True"
| "after_start ph = False"

text \<open>A runner holds whether its context was cancelled. The last two fields only record the
  identifiers given out and the workers started, newest first.\<close>

record op_manager =
  mg_store :: op_store
  mg_runners :: "(string, bool) gomap"
  mg_closing :: bool
  mg_tasks :: "(string \<times> op_phase) list"
  mg_created :: "string list"
  mg_started :: "string list"

definition OpenManager ::
    "snapshot_fault option \<Rightarrow> op_file \<Rightarrow> gotime \<Rightarrow> gotime \<Rightarrow> op_options \<Rightarrow> string list \<Rightarrow> op_error + op_manager" where
  "OpenManager io disk t1 t2 options created =
     (case Store_Open io disk t1 t2 options of
        Inl e \<Rightarrow> Inl e
      | Inr st \<Rightarrow> Inr \<lparr>mg_store = st, mg_runners = [], mg_closing = False, mg_tasks = [], mg_created = created, mg_started = []\<rparr>)"

section \<open>Operations\<close>

definition register_runner :: "string \<Rightarrow> op_record \<Rightarrow> op_manager \<Rightarrow> op_phase option \<times> op_manager" where
  "register_runner opid r m =
     (if mg_closing m \<or> has_key (mg_runners m) opid then (None, m)
      else (Some (Starting r), m\<lparr>mg_runners := AList.update opid False (mg_runners m)\<rparr>))"

definition start_operation :: "snapshot_fault option \<Rightarrow> gotime \<Rightarrow> string \<Rightarrow> op_record \<Rightarrow> op_manager \<Rightarrow> op_phase \<times> op_manager" where
  "start_operation io now opid r m =
     (case Store_Transition io now opid StateRunning (or_Progress r) (or_Result r) None ''started'' (mg_store m) of
        (Inl e, st) \<Rightarrow> (Leaving, m\<lparr>mg_store := st\<rparr>)
      | (Inr rec, st) \<Rightarrow> (Executing None, m\<lparr>mg_store := st, mg_started := opid # mg_started m\<rparr>))"

definition report_progress :: "snapshot_fault option \<Rightarrow> gotime \<Rightarrow> string \<Rightarrow> int \<Rightarrow> string_map \<Rightarrow> op_manager \<Rightarrow> op_manager" where
  "report_progress io now opid progress metadata m =
     m\<lparr>mg_store := snd (Store_UpdateProgress io now opid progress metadata (mg_store m))\<rparr>"

definition report_waiting :: "snapshot_fault option \<Rightarrow> gotime \<Rightarrow> string \<Rightarrow> int \<Rightarrow> string_map \<Rightarrow> op_manager \<Rightarrow> op_manager" where
  "report_waiting io now opid progress metadata m =
     m\<lparr>mg_store := snd (Store_Transition io now opid StateWaitingForUser progress metadata None ''waiting_for_user'' (mg_store m))\<rparr>"

definition check_current :: "worker_outcome \<Rightarrow> string \<Rightarrow> op_store \<Rightarrow> op_phase" where
  "check_current out opid st =
     (case Store_Get opid st of
        Inl e \<Rightarrow> Leaving
      | Inr current \<Rightarrow> if Terminal (or_State current) then Leaving else Settling out current)"

text \<open>The last transition; its error is dropped.\<close>

definition settle_operation ::
    "snapshot_fault option \<Rightarrow> gotime \<Rightarrow> gotime \<Rightarrow> bool \<Rightarrow> string \<Rightarrow> worker_outcome \<Rightarrow> op_record \<Rightarrow> op_store \<Rightarrow> op_store" where
  "settle_operation io now t ctxErr opid out current st =
     snd (if ctxErr then
            (if or_ExpiresAt current \<le> now
             then Store_Transition io t opid StateExpired (or_Progress current) None
                    (Some (NewFailure ''operation_expired'' ''The operation expired.'' True)) ''expired'' st
             else Store_Transition io t opid StateFailed (or_Progress current) None
                    (Some (NewFailure ''operation_interrupted'' ''The operation was interrupted.'' True)) ''failed'' st)
          else case snd out of
            Some f \<Rightarrow> Store_Transition io t opid StateFailed (or_Progress current) None
                    (Some (NewFailure (fa_Code f) (fa_Message f) (fa_Retryable f))) ''failed'' st
          | None \<Rightarrow> Store_Transition io t opid StateSucceeded 100 (fst out) None ''succeeded'' st)"

text \<open>The context ends when it is cancelled or its deadline passes.\<close>

definition context_done :: "op_manager \<Rightarrow> string \<Rightarrow> op_record \<Rightarrow> gotime \<Rightarrow> bool" where
  "context_done m opid current now \<longleftrightarrow> map_of (mg_runners m) opid = Some True \<or> or_ExpiresAt current \<le> now"

definition cancel_operation :: "snapshot_fault option \<Rightarrow> gotime \<Rightarrow> string \<Rightarrow> op_record \<Rightarrow> op_store \<Rightarrow> (op_error + op_record) \<times> op_store" where
  "cancel_operation io now opid r st =
     Store_Transition io now opid StateCancelled (or_Progress r) None
       (Some (NewFailure ''operation_cancelled'' ''The operation was cancelled.'' False)) ''cancelled'' st"

definition signal_runner :: "string \<Rightarrow> op_manager \<Rightarrow> op_manager" where
  "signal_runner opid m =
     (if has_key (mg_runners m) opid then m\<lparr>mg_runners := AList.update opid True (mg_runners m)\<rparr> else m)"

definition close_manager :: "op_manager \<Rightarrow> op_manager" where
  "close_manager m = (if mg_closing m then m else m\<lparr>mg_closing := True, mg_runners := map (\<lambda>(i, c). (i, True)) (mg_runners m)\<rparr>)"

definition remove_runner :: "string \<Rightarrow> op_manager \<Rightarrow> op_manager" where
  "remove_runner opid m = m\<lparr>mg_runners := AList.delete opid (mg_runners m)\<rparr>"

section \<open>Steps\<close>

text \<open>With \<open>healthy\<close>, the transitions that end operations are written without a fault.\<close>

inductive manager_step :: "(string \<Rightarrow> string) \<Rightarrow> bool \<Rightarrow> op_manager \<Rightarrow> op_manager \<Rightarrow> bool" for sha healthy where
  mgr_create: "newID \<notin> set (mg_created m) \<Longrightarrow> Store_Create sha io t0 t1 t2 newID rq (mg_store m) = (res, st) \<Longrightarrow>
    manager_step sha healthy m (m\<lparr>mg_store := st, mg_created := newID # mg_created m\<rparr>)"
| mgr_subscribe: "manager_step sha healthy m (m\<lparr>mg_store := snd (Store_Subscribe buffer (mg_store m))\<rparr>)"
| mgr_unsubscribe: "manager_step sha healthy m (m\<lparr>mg_store := Store_Unsubscribe n (mg_store m)\<rparr>)"
| mgr_run: "Store_Get opid (mg_store m) = Inr r \<Longrightarrow> \<not> Terminal (or_State r) \<Longrightarrow>
    manager_step sha healthy m (m\<lparr>mg_tasks := mg_tasks m @ [(opid, Opening r)]\<rparr>)"
| mgr_register: "mg_tasks m = ts @ (opid, Opening r) # ts' \<Longrightarrow> register_runner opid r m = (ph, m') \<Longrightarrow>
    manager_step sha healthy m (m'\<lparr>mg_tasks := ts @ (case ph of None \<Rightarrow> [] | Some ph \<Rightarrow> [(opid, ph)]) @ ts'\<rparr>)"
| mgr_start: "mg_tasks m = ts @ (opid, Starting r) # ts' \<Longrightarrow> start_operation io t opid r m = (ph, m') \<Longrightarrow>
    manager_step sha healthy m (m'\<lparr>mg_tasks := ts @ (opid, ph) # ts'\<rparr>)"
| mgr_progress: "(opid, Executing p) \<in> set (mg_tasks m) \<Longrightarrow> manager_step sha healthy m (report_progress io t opid progress metadata m)"
| mgr_wait_read: "mg_tasks m = ts @ (opid, Executing None) # ts' \<Longrightarrow> Store_Get opid (mg_store m) = Inr r \<Longrightarrow>
    manager_step sha healthy m (m\<lparr>mg_tasks := ts @ (opid, Executing (Some (or_Progress r))) # ts'\<rparr>)"
| mgr_wait: "mg_tasks m = ts @ (opid, Executing (Some p)) # ts' \<Longrightarrow>
    manager_step sha healthy m ((report_waiting io t opid p metadata m)\<lparr>mg_tasks := ts @ (opid, Executing None) # ts'\<rparr>)"
| mgr_return: "mg_tasks m = ts @ (opid, Executing None) # ts' \<Longrightarrow>
    manager_step sha healthy m (m\<lparr>mg_tasks := ts @ (opid, Returned out) # ts'\<rparr>)"
| mgr_panic: "mg_tasks m = ts @ (opid, Executing p) # ts' \<Longrightarrow>
    manager_step sha healthy m (m\<lparr>mg_tasks := ts @ (opid, Returned (panic_outcome None)) # ts'\<rparr>)"
| mgr_check: "mg_tasks m = ts @ (opid, Returned out) # ts' \<Longrightarrow>
    manager_step sha healthy m (m\<lparr>mg_tasks := ts @ (opid, if mg_closing m then Leaving else Checked out) # ts'\<rparr>)"
| mgr_current: "mg_tasks m = ts @ (opid, Checked out) # ts' \<Longrightarrow>
    manager_step sha healthy m (m\<lparr>mg_tasks := ts @ (opid, check_current out opid (mg_store m)) # ts'\<rparr>)"
| mgr_settle: "mg_tasks m = ts @ (opid, Settling out current) # ts' \<Longrightarrow> (healthy \<Longrightarrow> io = None) \<Longrightarrow>
    manager_step sha healthy m (m\<lparr>mg_store := settle_operation io now t (context_done m opid current now) opid out current (mg_store m),
      mg_tasks := ts @ (opid, Leaving) # ts'\<rparr>)"
| mgr_leave: "mg_tasks m = ts @ (opid, Leaving) # ts' \<Longrightarrow>
    manager_step sha healthy m ((remove_runner opid m)\<lparr>mg_tasks := ts @ ts'\<rparr>)"
| mgr_cancel_read: "Store_Get opid (mg_store m) = Inr r \<Longrightarrow> or_Cancelable r \<Longrightarrow>
    manager_step sha healthy m (m\<lparr>mg_tasks := mg_tasks m @ [(opid, Cancelling r)]\<rparr>)"
| mgr_cancel: "mg_tasks m = ts @ (opid, Cancelling r) # ts' \<Longrightarrow> cancel_operation io t opid r (mg_store m) = (res, st) \<Longrightarrow>
    manager_step sha healthy m (m\<lparr>mg_store := st, mg_tasks := ts @ (case res of Inl _ \<Rightarrow> [] | Inr _ \<Rightarrow> [(opid, Signalling)]) @ ts'\<rparr>)"
| mgr_signal: "mg_tasks m = ts @ (opid, Signalling) # ts' \<Longrightarrow>
    manager_step sha healthy m ((signal_runner opid m)\<lparr>mg_tasks := ts @ ts'\<rparr>)"
| mgr_close: "manager_step sha healthy m (close_manager m)"
| mgr_close_store: "mg_closing m \<Longrightarrow> manager_step sha healthy m (m\<lparr>mg_store := Store_Close (mg_store m)\<rparr>)"

section \<open>What the store does\<close>

text \<open>An operation is settled when it is terminal or gone.\<close>

definition settled :: "op_store \<Rightarrow> string \<Rightarrow> bool" where
  "settled st opid \<longleftrightarrow> (\<forall>e. map_of (os_operations st) opid = Some e \<longrightarrow> Terminal (or_State (en_record e)))"

lemma publish_ops [simp]: "os_operations (publish e st) = os_operations st" "os_closed (publish e st) = os_closed st"
  by (simp_all add: publish_def)

lemma commit_record_effect:
  assumes "commit_record io (checkpointLocked st) opid etype now item r st = (res, ev, st')"
  shows "os_closed st' = os_closed st"
    and "case res of Inl e \<Rightarrow> io \<noteq> None \<and> os_operations st' = os_operations st
      | Inr r' \<Rightarrow> \<exists>s. os_operations st' = AList.update opid (item\<lparr>en_record := r\<lparr>or_Sequence := s\<rparr>\<rparr>) (os_operations st)"
  using assms
  by (auto simp: commit_record_def commit_or_restore_def store_persistLocked_eq nextEventLocked_def appendEventLocked_def restoreLocked_def
      checkpointLocked_def Let_def split: if_splits option.splits)

lemma transition_effect:
  assumes "Store_Transition io now opid state progress result failure etype st = (res, st')"
  shows "os_closed st' = os_closed st \<and>
    (case res of
       Inl e \<Rightarrow> os_operations st' = os_operations st
         \<and> (io \<noteq> None \<or> os_closed st \<or> (\<forall>item. map_of (os_operations st) opid = Some item \<longrightarrow> \<not> allowedTransition (or_State (en_record item)) state))
     | Inr r \<Rightarrow> \<exists>item item'. map_of (os_operations st) opid = Some item \<and> allowedTransition (or_State (en_record item)) state
         \<and> os_operations st' = AList.update opid item' (os_operations st) \<and> or_State (en_record item') = state)"
proof -
  obtain res0 ev st0 where t: "Transition_locked io now opid state progress result failure etype st = (res0, ev, st0)" by (metis prod_cases3)
  then have st': "res = res0" "os_operations st' = os_operations st0" "os_closed st' = os_closed st0"
    using assms by (auto simp: Store_Transition_def with_publish_def split: option.splits)
  show ?thesis
  proof (cases "os_closed st \<or> (\<forall>item. map_of (os_operations st) opid = Some item \<longrightarrow> \<not> allowedTransition (or_State (en_record item)) state)")
    case True
    then have "(\<exists>e. res0 = Inl e) \<and> st0 = st" using t by (auto simp: Transition_locked_def Let_def split: if_splits option.splits)
    then show ?thesis using st' True by auto
  next
    case False
    then obtain item where item: "\<not> os_closed st" "map_of (os_operations st) opid = Some item" "allowedTransition (or_State (en_record item)) state"
      by auto
    have "commit_record io (checkpointLocked st) opid (if etype = '''' then ''state_changed'' else etype) now item
        (transition_record state progress result failure now (en_record item)) st = (res0, ev, st0)"
      using t item by (simp add: Transition_locked_def Let_def)
    from commit_record_effect [OF this] show ?thesis
      using st' item by (auto simp: transition_record_def split: sum.splits)
  qed
qed

lemma progress_effect:
  assumes "Store_UpdateProgress io now opid progress metadata st = (res, st')"
  shows "os_closed st' = os_closed st \<and> (os_operations st' = os_operations st \<or>
    (\<exists>item item'. map_of (os_operations st) opid = Some item \<and> \<not> Terminal (or_State (en_record item))
        \<and> os_operations st' = AList.update opid item' (os_operations st) \<and> or_State (en_record item') = or_State (en_record item)))"
proof -
  obtain res0 ev st0 where t: "UpdateProgress_locked io now opid progress metadata st = (res0, ev, st0)" by (metis prod_cases3)
  then have st': "os_operations st' = os_operations st0" "os_closed st' = os_closed st0"
    using assms by (auto simp: Store_UpdateProgress_def with_publish_def split: option.splits)
  show ?thesis
  proof (cases "st0 = st")
    case False
    then obtain item where item: "map_of (os_operations st) opid = Some item" "\<not> Terminal (or_State (en_record item))"
      and "commit_record io (checkpointLocked st) opid ''progress'' now item (progress_record progress metadata now (en_record item)) st = (res0, ev, st0)"
      using t by (auto simp: UpdateProgress_locked_def Let_def split: if_splits option.splits)
    from commit_record_effect [OF this(3)] show ?thesis
      using st' item by (auto simp: progress_record_def Let_def split: sum.splits if_splits)
  qed (use st' in auto)
qed

text \<open>A calm change of the store settles more, forgets operations at most, and keeps the rest.\<close>

definition calm :: "op_store \<Rightarrow> op_store \<Rightarrow> bool" where
  "calm st st' \<longleftrightarrow> system_inv st' \<and> os_closed st' = os_closed st \<and> set (keys_of (os_operations st')) \<subseteq> set (keys_of (os_operations st))
     \<and> (\<forall>opid. settled st opid \<longrightarrow> settled st' opid)"

lemma publish_inv: "system_inv st \<Longrightarrow> system_inv (publish e st)"
  using op_step_moves [OF step_publish] by blast

lemma with_publish_inv: "system_inv st0 \<Longrightarrow> with_publish (res, ev, st0) = (r, st') \<Longrightarrow> system_inv st'"
  by (auto simp: with_publish_def publish_inv split: option.splits)

lemma terminal_no_transition: "Terminal s \<Longrightarrow> \<not> allowedTransition s s'"
  by (simp add: allowedTransition_def)

lemma calm_update:
  assumes "system_inv st'" and "os_closed st' = os_closed st" and "map_of (os_operations st) opid = Some item"
    and "\<not> Terminal (or_State (en_record item))" and "os_operations st' = AList.update opid item' (os_operations st)"
  shows "calm st st'"
proof -
  have "opid \<in> set (keys_of (os_operations st))" using assms(3) by (metis has_key_def has_key_iff option.distinct(1))
  then have "set (keys_of (os_operations st')) = set (keys_of (os_operations st))"
    using assms(5) by (auto simp: keys_of_def dom_update)
  then show ?thesis using assms by (auto simp: calm_def settled_def)
qed

lemma calm_same: "system_inv st' \<Longrightarrow> os_closed st' = os_closed st \<Longrightarrow> os_operations st' = os_operations st \<Longrightarrow> calm st st'"
  by (simp add: calm_def settled_def)

lemma transition_calm:
  assumes "system_inv st" and "Store_Transition io now opid state progress result failure etype st = (res, st')"
  shows "calm st st'"
proof -
  obtain res0 ev st0 where t: "Transition_locked io now opid state progress result failure etype st = (res0, ev, st0)" by (metis prod_cases3)
  have inv: "system_inv st'"
    using Transition_locked_moves [OF assms(1) t] with_publish_inv [of st0 res0 ev res st'] assms(2) t by (simp add: Store_Transition_def)
  note eff = transition_effect [OF assms(2)]
  show ?thesis
  proof (cases res)
    case (Inl e)
    then show ?thesis using eff inv by (intro calm_same) auto
  next
    case (Inr r)
    then obtain item item' where "map_of (os_operations st) opid = Some item" "allowedTransition (or_State (en_record item)) state"
        "os_operations st' = AList.update opid item' (os_operations st)" using eff by auto
    then show ?thesis using calm_update [OF inv] eff terminal_no_transition by blast
  qed
qed

lemma progress_calm:
  assumes "system_inv st" and "Store_UpdateProgress io now opid progress metadata st = (res, st')"
  shows "calm st st'"
proof -
  obtain res0 ev st0 where t: "UpdateProgress_locked io now opid progress metadata st = (res0, ev, st0)" by (metis prod_cases3)
  have inv: "system_inv st'"
    using UpdateProgress_locked_moves [OF assms(1) t] with_publish_inv [of st0 res0 ev res st'] assms(2) t by (simp add: Store_UpdateProgress_def)
  show ?thesis using progress_effect [OF assms(2)] calm_update [OF inv] calm_same [OF inv] by blast
qed

lemma store_calls_calm:
  assumes "system_inv st"
  shows "calm st (snd (Store_UpdateProgress io now opid progress metadata st))"
    and "calm st (snd (Store_Transition io now opid state progress result failure etype st))"
  by (rule progress_calm [OF assms prod.collapse [symmetric]], rule transition_calm [OF assms prod.collapse [symmetric]])

lemma settle_calm: "system_inv st \<Longrightarrow> calm st (settle_operation io now t ctxErr opid out current st)"
  unfolding settle_operation_def by (auto split: option.split) (metis transition_calm prod.collapse)+

text \<open>Without a fault the last transition settles the operation.\<close>

lemma transition_settles:
  assumes "system_inv st" and "\<not> os_closed st" and "state \<in> {StateSucceeded, StateFailed, StateExpired}"
  shows "settled (snd (Store_Transition None now opid state progress result failure etype st)) opid"
proof -
  obtain res st' where t: "Store_Transition None now opid state progress result failure etype st = (res, st')" by fastforce
  note eff = transition_effect [OF t]
  have allowed: "allowedTransition (or_State (en_record item)) state"
    if "map_of (os_operations st) opid = Some item" "\<not> Terminal (or_State (en_record item))" for item
  proof -
    have "known_state (or_State (en_record item))" using entry_okD that(1) assms(1) by (auto simp: system_inv_def entry_ok_def)
    then show ?thesis using that(2) assms(3) by (auto simp: known_state_def allowedTransition_def Terminal_def)
  qed
  have "settled st' opid"
  proof (cases res)
    case (Inl e)
    then show ?thesis using eff assms(2) allowed by (auto simp: settled_def)
  next
    case (Inr r)
    then obtain item' where "os_operations st' = AList.update opid item' (os_operations st)" "or_State (en_record item') = state" using eff by auto
    then show ?thesis using assms(3) by (auto simp: settled_def Terminal_def)
  qed
  then show ?thesis by (simp add: t)
qed

lemma settle_settles:
  assumes "system_inv st" and "\<not> os_closed st"
  shows "settled (settle_operation None now t ctxErr opid out current st) opid"
  unfolding settle_operation_def using transition_settles [OF assms] by (auto split: option.split)

text \<open>Creating adds at most the new identifier.\<close>

lemma append_sel: "os_operations (appendEventLocked e st) = os_operations st" "os_closed (appendEventLocked e st) = os_closed st"
  by (simp_all add: appendEventLocked_def Let_def)

lemma commit_or_restore_sel:
  assumes "commit_or_restore io cp r ev st = (res, ev', st')"
  shows "os_closed st' = os_closed st \<and> (os_operations st' = os_operations st \<or> os_operations st' = sc_operations cp)"
  using assms by (cases io) (auto simp: commit_or_restore_def store_persistLocked_eq restoreLocked_def)

lemma create_cases:
  assumes c: "Create_locked sha io t1 t2 newID rq st = (res, ev, st')" and pr: "pruneLocked t1 st = (pruned, st1)"
  shows "(os_closed st' = os_closed st \<or> os_closed st' = os_closed st1) \<and> (os_operations st' = os_operations st \<or> os_operations st' = os_operations st1
      \<or> (\<exists>item. os_operations st' = AList.update newID item (os_operations st1)))"
proof -
  have cp: "sc_operations (checkpointLocked st) = os_operations st" by (simp add: checkpointLocked_def)
  have restore: "os_closed (restoreLocked (checkpointLocked st) st1) = os_closed st1 \<and> os_operations (restoreLocked (checkpointLocked st) st1) = os_operations st"
    by (simp add: restoreLocked_def checkpointLocked_def)
  show ?thesis using c
    unfolding Create_locked_def Let_def pr prod.case nextEventLocked_def
    by (auto simp: restore cp append_sel dest!: commit_or_restore_sel split: if_split_asm option.split_asm)
qed

lemma create_effect:
  assumes inv: "system_inv st" and new: "\<not> has_key (os_operations st) newID" and cr: "Store_Create sha io t0 t1 t2 newID rq st = (res, st')"
  shows "system_inv st'" "os_closed st' = os_closed st" "set (keys_of (os_operations st')) \<subseteq> insert newID (set (keys_of (os_operations st)))"
    "\<And>opid. opid \<noteq> newID \<Longrightarrow> settled st opid \<Longrightarrow> settled st' opid"
proof -
  obtain res0 ev st0 where c: "Create_locked sha io t1 t2 newID rq st = (res0, ev, st0)" by (metis prod_cases3)
  have same: "st' = st \<or> os_operations st' = os_operations st0 \<and> os_closed st' = os_closed st0 \<and> (system_inv st0 \<longrightarrow> system_inv st')"
    using cr c with_publish_inv [of st0 res0 ev res st'] by (auto simp: Store_Create_def with_publish_def split: option.splits)
  have mv: "system_inv st0" "table_moves (os_operations st) (os_operations st0)" using Create_locked_moves [OF inv c new] by blast+
  obtain pruned st1 where pr: "pruneLocked t1 st = (pruned, st1)" by fastforce
  have wf: "wf_map (os_operations st)" using inv by (simp add: system_inv_def store_inv_def live_ok_def table_ok_def)
  have sub: "set (os_operations st1) \<subseteq> set (os_operations st)" "os_closed st1 = os_closed st"
    using pruneLocked_sel(5) [OF pr] pruneLocked_sel(8) [OF pr wf] by blast+
  have cases: "os_closed st0 = os_closed st" "os_operations st0 = os_operations st \<or> os_operations st0 = os_operations st1
      \<or> (\<exists>item. os_operations st0 = AList.update newID item (os_operations st1))"
    using create_cases [OF c pr] sub(2) by auto
  have k1: "fst ` set (os_operations st1) \<subseteq> fst ` set (os_operations st)" using sub(1) by (rule image_mono)
  have k2: "fst ` set (AList.update newID item (os_operations st1)) = insert newID (fst ` set (os_operations st1))" for item
    by (simp add: dom_update)
  from cases(2) have "set (keys_of (os_operations st0)) \<subseteq> insert newID (set (keys_of (os_operations st)))"
    unfolding keys_of_def set_map
  proof (elim disjE exE)
    fix item
    assume e: "os_operations st0 = AList.update newID item (os_operations st1)"
    show "fst ` set (os_operations st0) \<subseteq> insert newID (fst ` set (os_operations st))" unfolding e k2 by (rule insert_mono [OF k1])
  next
    assume e: "os_operations st0 = os_operations st1"
    show "fst ` set (os_operations st0) \<subseteq> insert newID (fst ` set (os_operations st))" unfolding e by (rule subset_insertI2 [OF k1])
  next
    assume e: "os_operations st0 = os_operations st"
    show "fst ` set (os_operations st0) \<subseteq> insert newID (fst ` set (os_operations st))" unfolding e by (rule subset_insertI)
  qed
  note keys = cases(1) this
  have "settled st0 opid" if "opid \<noteq> newID" "settled st opid" for opid
  proof (cases "map_of (os_operations st) opid")
    case None
    then have "opid \<notin> set (keys_of (os_operations st0))" using keys(2) that(1) by (auto simp: keys_of_def map_of_eq_None_iff)
    then have "map_of (os_operations st0) opid = None" by (simp add: keys_of_def map_of_eq_None_iff)
    then show ?thesis by (simp add: settled_def)
  next
    case (Some e)
    then show ?thesis using mv(2) that(2) by (auto simp: settled_def table_moves_def entry_moves_def)
  qed
  then have keep: "opid \<noteq> newID \<Longrightarrow> settled st opid \<Longrightarrow> settled st0 opid" for opid .
  from same show "system_inv st'" using mv(1) inv by blast
  from same show "os_closed st' = os_closed st" using keys(1) by metis
  from same show "set (keys_of (os_operations st')) \<subseteq> insert newID (set (keys_of (os_operations st)))"
    using keys(2) by (metis subset_insertI)
  fix opid
  assume "opid \<noteq> newID" and old: "settled st opid"
  with keep have "settled st0 opid" by blast
  with same old show "settled st' opid" unfolding settled_def by metis
qed

section \<open>The invariant\<close>

definition held :: "(string \<times> op_phase) list \<Rightarrow> string list" where
  "held ts = map fst (filter (\<lambda>(opid, ph). holds_runner ph) ts)"

lemma held_simps [simp]: "held [] = []" "held (ts @ ts') = held ts @ held ts'" "held ((opid, ph) # ts) = (if holds_runner ph then opid # held ts else held ts)"
  by (simp_all add: held_def)

lemma held_member: "(opid, ph) \<in> set ts \<Longrightarrow> holds_runner ph \<Longrightarrow> opid \<in> set (held ts)"
  by (force simp: held_def)

lemma after_start_holds: "after_start ph \<Longrightarrow> holds_runner ph"
  by (cases ph) simp_all

text \<open>Where a started operation is: settled, in the hands of its worker, or left behind by a
  manager that closes.\<close>

definition covered :: "op_manager \<Rightarrow> string \<Rightarrow> bool" where
  "covered m opid \<longleftrightarrow> settled (mg_store m) opid \<or> (\<exists>ph. (opid, ph) \<in> set (mg_tasks m) \<and> after_start ph)
     \<or> mg_closing m \<and> (\<forall>r. (opid, Starting r) \<notin> set (mg_tasks m))"

definition manager_inv :: "bool \<Rightarrow> op_manager \<Rightarrow> bool" where
  "manager_inv healthy m \<longleftrightarrow>
     system_inv (mg_store m) \<and> set (keys_of (os_operations (mg_store m))) \<subseteq> set (mg_created m)
     \<and> (os_closed (mg_store m) \<longrightarrow> mg_closing m)
     \<and> distinct (held (mg_tasks m)) \<and> set (keys_of (mg_runners m)) = set (held (mg_tasks m))
     \<and> set (mg_started m) \<subseteq> set (mg_created m)
     \<and> (healthy \<longrightarrow> distinct (mg_started m) \<and> (\<forall>opid \<in> set (mg_started m). covered m opid))"

lemma inv_store:
  assumes "manager_inv healthy m" and "calm (mg_store m) st"
  shows "manager_inv healthy (m\<lparr>mg_store := st\<rparr>)"
  using assms unfolding manager_inv_def calm_def covered_def by auto

lemma inv_phase:
  assumes inv: "manager_inv healthy m" and t: "mg_tasks m = ts @ (opid, ph) # ts'"
    and h: "holds_runner ph' = holds_runner ph" and s: "\<forall>r. ph' \<noteq> Starting r"
    and cov: "healthy \<Longrightarrow> after_start ph \<Longrightarrow> after_start ph' \<or> settled (mg_store m) opid \<or> mg_closing m"
  shows "manager_inv healthy (m\<lparr>mg_tasks := ts @ (opid, ph') # ts'\<rparr>)"
proof -
  let ?m = "m\<lparr>mg_tasks := ts @ (opid, ph') # ts'\<rparr>"
  have "covered ?m i" if hl: healthy and c: "covered m i" for i
  proof (cases "i = opid \<and> after_start ph")
    case True
    have "opid \<notin> set (held (ts @ ts'))" using inv t after_start_holds True by (auto simp: manager_inv_def)
    then have "(opid, Starting r) \<notin> set (ts @ ts')" for r using held_member [of opid "Starting r" "ts @ ts'"] by auto
    then show ?thesis using True cov [OF hl] s by (auto simp: covered_def)
  next
    case False
    then show ?thesis using c s t unfolding covered_def by auto
  qed
  then show ?thesis using inv t h unfolding manager_inv_def by auto
qed

lemma inv_drop:
  assumes inv: "manager_inv healthy m" and t: "mg_tasks m = ts @ (opid, ph) # ts'" and h: "\<not> holds_runner ph"
  shows "manager_inv healthy (m\<lparr>mg_tasks := ts @ ts'\<rparr>)"
proof -
  have "\<not> after_start ph" using h after_start_holds by blast
  then have "covered m i \<Longrightarrow> covered (m\<lparr>mg_tasks := ts @ ts'\<rparr>) i" for i using t unfolding covered_def by auto
  then show ?thesis using inv t h unfolding manager_inv_def by auto
qed

lemma inv_add:
  assumes "manager_inv healthy m" and "\<not> holds_runner ph"
  shows "manager_inv healthy (m\<lparr>mg_tasks := mg_tasks m @ [(opid, ph)]\<rparr>)"
proof -
  have "\<forall>r. ph \<noteq> Starting r" using assms(2) by auto
  then have "covered m i \<Longrightarrow> covered (m\<lparr>mg_tasks := mg_tasks m @ [(opid, ph)]\<rparr>) i" for i unfolding covered_def by auto
  then show ?thesis using assms unfolding manager_inv_def by auto
qed

lemma inv_runners:
  assumes "manager_inv healthy m" and "set (keys_of rs) = set (keys_of (mg_runners m))"
  shows "manager_inv healthy (m\<lparr>mg_runners := rs\<rparr>)"
  using assms unfolding manager_inv_def covered_def by auto

lemma inv_worker_leave:
  assumes inv: "manager_inv healthy m" and t: "mg_tasks m = ts @ (opid, Leaving) # ts'"
  shows "manager_inv healthy ((remove_runner opid m)\<lparr>mg_tasks := ts @ ts'\<rparr>)"
proof -
  have "covered m i \<Longrightarrow> covered ((remove_runner opid m)\<lparr>mg_tasks := ts @ ts'\<rparr>) i" for i using t unfolding covered_def remove_runner_def by auto
  moreover have "set (keys_of (AList.delete opid (mg_runners m))) = set (keys_of (mg_runners m)) - {opid}"
    by (auto simp: keys_of_def delete_keys)
  ultimately show ?thesis using inv t unfolding manager_inv_def remove_runner_def by auto
qed

lemma inv_register:
  assumes inv: "manager_inv healthy m" and t: "mg_tasks m = ts @ (opid, Opening r) # ts'" and r: "register_runner opid r m = (ph, m')"
  shows "manager_inv healthy (m'\<lparr>mg_tasks := ts @ (case ph of None \<Rightarrow> [] | Some ph \<Rightarrow> [(opid, ph)]) @ ts'\<rparr>)"
proof (cases "mg_closing m \<or> has_key (mg_runners m) opid")
  case True
  then show ?thesis using inv_drop [OF inv t] r by (simp add: register_runner_def)
next
  case False
  then have m': "ph = Some (Starting r)" "m' = m\<lparr>mg_runners := AList.update opid False (mg_runners m)\<rparr>" using r by (auto simp: register_runner_def)
  have out: "opid \<notin> set (held (mg_tasks m))" using inv False by (simp add: manager_inv_def has_key_iff)
  let ?m = "m\<lparr>mg_runners := AList.update opid False (mg_runners m), mg_tasks := ts @ (opid, Starting r) # ts'\<rparr>"
  have "covered ?m i" if "covered m i" for i
    using that False out held_member after_start_holds t unfolding covered_def by fastforce
  moreover have "set (keys_of (AList.update opid False (mg_runners m))) = insert opid (set (keys_of (mg_runners m)))"
    by (auto simp: keys_of_def dom_update)
  ultimately show ?thesis using inv out t m' unfolding manager_inv_def by auto
qed

lemma inv_start:
  assumes inv: "manager_inv healthy m" and t: "mg_tasks m = ts @ (opid, Starting r) # ts'" and s: "start_operation io now opid r m = (ph, m')"
  shows "manager_inv healthy (m'\<lparr>mg_tasks := ts @ (opid, ph) # ts'\<rparr>)"
proof -
  obtain res st where tr: "Store_Transition io now opid StateRunning (or_Progress r) (or_Result r) None ''started'' (mg_store m) = (res, st)" by fastforce
  have calm: "calm (mg_store m) st" using transition_calm [OF _ tr] inv by (simp add: manager_inv_def)
  have inv': "manager_inv healthy (m\<lparr>mg_store := st\<rparr>)" by (rule inv_store [OF inv calm])
  have t': "mg_tasks (m\<lparr>mg_store := st\<rparr>) = ts @ (opid, Starting r) # ts'" using t by simp
  show ?thesis
  proof (cases res)
    case (Inl e)
    then have "ph = Leaving" "m' = m\<lparr>mg_store := st\<rparr>" using s tr by (auto simp: start_operation_def)
    then show ?thesis using inv_phase [OF inv' t', of Leaving] by simp
  next
    case (Inr rec)
    then have m': "ph = Executing None" "m' = m\<lparr>mg_store := st, mg_started := opid # mg_started m\<rparr>" using s tr by (auto simp: start_operation_def)
    have ex: "manager_inv healthy (m\<lparr>mg_store := st, mg_tasks := ts @ (opid, Executing None) # ts'\<rparr>)"
      using inv_phase [OF inv' t', of "Executing None"] by simp
    obtain item where item: "map_of (os_operations (mg_store m)) opid = Some item" "allowedTransition (or_State (en_record item)) StateRunning"
      using transition_effect [OF tr] Inr by auto
    then have open_op: "\<not> settled (mg_store m) opid" using terminal_no_transition by (auto simp: settled_def)
    have "opid \<in> set (mg_created m)"
      using item(1) inv unfolding manager_inv_def by (metis has_key_def has_key_iff option.distinct(1) subsetD)
    moreover have "opid \<notin> set (mg_started m)" if healthy
    proof
      assume "opid \<in> set (mg_started m)"
      then have "covered m opid" using inv that by (simp add: manager_inv_def)
      moreover have "\<not> after_start ph'" if "(opid, ph') \<in> set (mg_tasks m)" for ph'
      proof
        assume a: "after_start ph'"
        then have "(opid, ph') \<in> set (ts @ ts')" using that t by auto
        then have "opid \<in> set (held (ts @ ts'))" using held_member a after_start_holds by blast
        then show False using inv t by (auto simp: manager_inv_def)
      qed
      ultimately show False using open_op t by (auto simp: covered_def)
    qed
    ultimately show ?thesis using ex m' unfolding manager_inv_def covered_def by auto
  qed
qed

lemma inv_create:
  assumes inv: "manager_inv healthy m" and new: "newID \<notin> set (mg_created m)"
    and cr: "Store_Create sha io t0 t1 t2 newID rq (mg_store m) = (res, st)"
  shows "manager_inv healthy (m\<lparr>mg_store := st, mg_created := newID # mg_created m\<rparr>)"
proof -
  have "\<not> has_key (os_operations (mg_store m)) newID" using inv new by (auto simp: manager_inv_def has_key_iff)
  note eff = create_effect [OF _ this cr]
  have "opid \<noteq> newID" if "opid \<in> set (mg_started m)" for opid using inv new that by (auto simp: manager_inv_def)
  then show ?thesis using inv eff unfolding manager_inv_def covered_def by auto
qed

lemma manager_inv_step: "manager_step sha healthy m m' \<Longrightarrow> manager_inv healthy m \<Longrightarrow> manager_inv healthy m'"
proof (induction rule: manager_step.induct)
  case (mgr_create newID m io t0 t1 t2 rq res st)
  then show ?case by (intro inv_create)
next
  case (mgr_subscribe m buffer)
  have "system_inv (snd (Store_Subscribe buffer (mg_store m)))" using op_step_moves [OF step_subscribe] mgr_subscribe by (auto simp: manager_inv_def)
  then show ?case by (intro inv_store [OF mgr_subscribe] calm_same) (auto simp: Store_Subscribe_def Let_def)
next
  case (mgr_unsubscribe m n)
  have "system_inv (Store_Unsubscribe n (mg_store m))" using op_step_moves [OF step_unsubscribe] mgr_unsubscribe by (auto simp: manager_inv_def)
  then show ?case by (intro inv_store [OF mgr_unsubscribe] calm_same) (auto simp: Store_Unsubscribe_def)
next
  case (mgr_run opid m r)
  then show ?case by (intro inv_add) auto
next
  case (mgr_register m ts opid r ts' ph m')
  then show ?case by (intro inv_register)
next
  case (mgr_start m ts opid r ts' io t ph m')
  then show ?case by (intro inv_start)
next
  case (mgr_progress opid p m io t progress metadata)
  then show ?case unfolding report_progress_def by (intro inv_store store_calls_calm) (auto simp: manager_inv_def)
next
  case (mgr_wait_read m ts opid ts' r)
  then show ?case by (intro inv_phase) auto
next
  case (mgr_wait m ts opid p ts' io t metadata)
  have "manager_inv healthy (report_waiting io t opid p metadata m)"
    unfolding report_waiting_def using mgr_wait by (intro inv_store store_calls_calm) (auto simp: manager_inv_def)
  then show ?case using mgr_wait(1) by (intro inv_phase [where ph = "Executing (Some p)"]) (auto simp: report_waiting_def)
next
  case (mgr_return m ts opid ts' out)
  then show ?case by (intro inv_phase) auto
next
  case (mgr_panic m ts opid p ts')
  then show ?case by (intro inv_phase) auto
next
  case (mgr_check m ts opid out ts')
  then show ?case using inv_phase [OF mgr_check(2,1), of "if mg_closing m then Leaving else Checked out"] by (cases "mg_closing m") auto
next
  case (mgr_current m ts opid out ts')
  have "check_current out opid (mg_store m) = Leaving \<and> settled (mg_store m) opid \<or> (\<exists>cur. check_current out opid (mg_store m) = Settling out cur)"
    by (auto simp: check_current_def Store_Get_def settled_def split: option.split)
  then show ?case using inv_phase [OF mgr_current(2,1), of "check_current out opid (mg_store m)"] by auto
next
  case (mgr_settle m ts opid out current ts' io now t)
  let ?st = "settle_operation io now t (context_done m opid current now) opid out current (mg_store m)"
  have calm: "calm (mg_store m) ?st" using mgr_settle(3) by (intro settle_calm) (simp add: manager_inv_def)
  have inv: "manager_inv healthy (m\<lparr>mg_store := ?st\<rparr>)" by (rule inv_store [OF mgr_settle(3) calm])
  have "settled ?st opid \<or> mg_closing m" if healthy
  proof (cases "os_closed (mg_store m)")
    case False
    then show ?thesis using mgr_settle(2,3) that settle_settles [of "mg_store m"] by (simp add: manager_inv_def)
  qed (use mgr_settle(3) in \<open>simp add: manager_inv_def\<close>)
  then show ?case using inv_phase [OF inv, of ts opid "Settling out current" ts' Leaving] mgr_settle(1) by simp
next
  case (mgr_leave m ts opid ts')
  then show ?case by (intro inv_worker_leave)
next
  case (mgr_cancel_read opid m r)
  then show ?case by (intro inv_add) auto
next
  case (mgr_cancel m ts opid r ts' io t res st)
  have inv: "manager_inv healthy (m\<lparr>mg_store := st\<rparr>)"
    using mgr_cancel unfolding cancel_operation_def by (intro inv_store transition_calm) (auto simp: manager_inv_def)
  show ?case
  proof (cases res)
    case (Inl e)
    then show ?thesis using inv_drop [OF inv, of ts opid "Cancelling r" ts'] mgr_cancel(1) by simp
  next
    case (Inr rec)
    then show ?thesis using inv_phase [OF inv, of ts opid "Cancelling r" ts' Signalling] mgr_cancel(1) by simp
  qed
next
  case (mgr_signal m ts opid ts')
  have "manager_inv healthy (signal_runner opid m)"
  proof (cases "has_key (mg_runners m) opid")
    case True
    then have "set (keys_of (AList.update opid True (mg_runners m))) = set (keys_of (mg_runners m))"
      using has_key_iff [of "mg_runners m" opid] by (simp add: keys_of_def dom_update insert_absorb)
    then show ?thesis using inv_runners [OF mgr_signal(2)] True by (simp add: signal_runner_def)
  qed (use mgr_signal(2) in \<open>simp add: signal_runner_def\<close>)
  moreover have "mg_tasks (signal_runner opid m) = mg_tasks m" by (simp add: signal_runner_def)
  ultimately show ?case using inv_drop [of healthy "signal_runner opid m" ts opid Signalling ts'] mgr_signal(1) by simp
next
  case (mgr_close m)
  have "set (keys_of (map (\<lambda>(i, c). (i, True)) (mg_runners m))) = set (keys_of (mg_runners m))" by (force simp: keys_of_def)
  then have "manager_inv healthy (m\<lparr>mg_runners := map (\<lambda>(i, c). (i, True)) (mg_runners m)\<rparr>)" by (rule inv_runners [OF mgr_close])
  then show ?case using mgr_close unfolding close_manager_def manager_inv_def covered_def by auto
next
  case (mgr_close_store m)
  have "system_inv (Store_Close (mg_store m))" using op_step_moves [OF step_close] mgr_close_store(2) by (auto simp: manager_inv_def)
  moreover have "os_operations (Store_Close (mg_store m)) = os_operations (mg_store m)" by (simp add: Store_Close_def)
  ultimately show ?case using mgr_close_store unfolding manager_inv_def covered_def settled_def by auto
qed

text \<open>A manager is opened on the file that some run of the store left; \<open>created\<close> holds the
  identifiers given out before.\<close>

definition manager_init :: "(string \<Rightarrow> string) \<Rightarrow> op_manager \<Rightarrow> bool" where
  "manager_init sha m \<longleftrightarrow> (\<exists>st0 st io t1 t2 created. op_init st0 \<and> reach (op_step sha) st0 st
     \<and> OpenManager io (os_disk st) t1 t2 (os_options st) created = Inr m
     \<and> set (keys_of (os_operations (mg_store m))) \<subseteq> set created)"

lemma manager_init_inv:
  assumes "manager_init sha m"
  shows "manager_inv healthy m"
proof -
  obtain st0 st io t1 t2 created where run: "op_init st0" "reach (op_step sha) st0 st"
    and op: "OpenManager io (os_disk st) t1 t2 (os_options st) created = Inr m"
    and sub: "set (keys_of (os_operations (mg_store m))) \<subseteq> set created"
    using assms by (auto simp: manager_init_def)
  have opened: "Store_Open io (os_disk st) t1 t2 (os_options st) = Inr (mg_store m)"
    and rest: "mg_runners m = []" "mg_tasks m = []" "mg_created m = created" "mg_started m = []"
    using op by (auto simp: OpenManager_def split: sum.splits)
  have "system_inv (mg_store m)" using reopen_moves [OF op_system.reachable_invar [OF run(2,1)] opened] by blast
  moreover have "\<not> os_closed (mg_store m)" using Store_Open_cases [OF opened] Store_Open_effect(2) [OF opened] by metis
  ultimately show ?thesis using rest sub by (simp add: manager_inv_def held_def keys_of_def)
qed

interpretation op_manager: invariant_system "manager_init sha" "manager_step sha healthy" "manager_inv healthy"
  by unfold_locales (auto intro: manager_init_inv manager_inv_step)

section \<open>Properties\<close>

definition sample_m0 :: op_manager where
  "sample_m0 = \<lparr>mg_store = sample_st0, mg_runners = [], mg_closing = False, mg_tasks = [], mg_created = [], mg_started = []\<rparr>"

definition sample_m1 :: op_manager where
  "sample_m1 = sample_m0\<lparr>mg_store := snd (Store_Create (\<lambda>x. x) None 0 5 5 ''op_1'' sample_rq sample_st0), mg_created := [''op_1'']\<rparr>"

definition sample_opening :: op_record where
  "sample_opening = (case Store_Get ''op_1'' (mg_store sample_m1) of Inr r \<Rightarrow> r | Inl _ \<Rightarrow> undefined)"

definition sample_m2 :: op_manager where
  "sample_m2 = sample_m1\<lparr>mg_tasks := [(''op_1'', Opening sample_opening)]\<rparr>"

definition sample_m3 :: op_manager where
  "sample_m3 = (snd (register_runner ''op_1'' sample_opening sample_m2))\<lparr>mg_tasks := [(''op_1'', Starting sample_opening)]\<rparr>"

definition sample_m4 :: op_manager where
  "sample_m4 = (snd (start_operation None 7 ''op_1'' sample_opening sample_m3))\<lparr>mg_tasks := [(''op_1'', Executing None)]\<rparr>"

definition sample_m6 :: op_manager where
  "sample_m6 = sample_m4\<lparr>mg_tasks := [(''op_1'', Checked (None, None))]\<rparr>"

definition sample_running :: op_record where
  "sample_running = (case Store_Get ''op_1'' (mg_store sample_m4) of Inr r \<Rightarrow> r | Inl _ \<Rightarrow> undefined)"

definition sample_m8 :: op_manager where
  "sample_m8 = sample_m6\<lparr>mg_store := settle_operation None 9 9 (context_done sample_m6 ''op_1'' sample_running 9) ''op_1'' (None, None) sample_running
      (mg_store sample_m6), mg_tasks := [(''op_1'', Leaving)]\<rparr>"

definition sample_m9 :: op_manager where
  "sample_m9 = (remove_runner ''op_1'' sample_m8)\<lparr>mg_tasks := []\<rparr>"

lemma sample_manager_init: "manager_init (\<lambda>x. x) sample_m0"
proof -
  have "OpenManager None (os_disk sample_st0) 0 0 (os_options sample_st0) [] = Inr sample_m0" by code_simp
  moreover have "set (keys_of (os_operations (mg_store sample_m0))) \<subseteq> set []" by (simp add: sample_m0_def sample_st0_def keys_of_def)
  ultimately show ?thesis unfolding manager_init_def using sample_init reach_start [of "op_step (\<lambda>x. x)" sample_st0] by blast
qed

lemma sample_manager_steps:
  "reach (manager_step (\<lambda>x. x) True) sample_m0 sample_m9"
proof -
  let ?step = "manager_step (\<lambda>x. x) True"
  have create: "''op_1'' \<notin> set (mg_created sample_m0)" by code_simp
  have s1: "?step sample_m0 sample_m1"
    using mgr_create [OF create, of "\<lambda>x. x" None 0 5 5 sample_rq "fst (Store_Create (\<lambda>x. x) None 0 5 5 ''op_1'' sample_rq sample_st0)" _ True]
    by (simp add: sample_m0_def sample_m1_def)
  have get: "Store_Get ''op_1'' (mg_store sample_m1) = Inr sample_opening" "\<not> Terminal (or_State sample_opening)" by code_simp+
  have s2: "?step sample_m1 sample_m2" using mgr_run [OF get, of "\<lambda>x. x" True] by (simp add: sample_m2_def sample_m1_def sample_m0_def)
  have reg: "fst (register_runner ''op_1'' sample_opening sample_m2) = Some (Starting sample_opening)" by code_simp
  have s3: "?step sample_m2 sample_m3"
    using mgr_register [of sample_m2 "[]" "''op_1''" sample_opening "[]" _ _ "\<lambda>x. x" True, OF _ surjective_pairing] reg
    by (simp add: sample_m2_def sample_m3_def)
  have start: "fst (start_operation None 7 ''op_1'' sample_opening sample_m3) = Executing None" by code_simp
  have s4: "?step sample_m3 sample_m4"
    using mgr_start [of sample_m3 "[]" "''op_1''" sample_opening "[]" None 7 _ _ "\<lambda>x. x" True, OF _ surjective_pairing] start
    by (simp add: sample_m3_def sample_m4_def)
  let ?m5 = "sample_m4\<lparr>mg_tasks := [(''op_1'', Returned (None, None))]\<rparr>"
  have s5: "?step sample_m4 ?m5" using mgr_return [of sample_m4 "[]" "''op_1''" "[]" "\<lambda>x. x" True "(None, None)"] by (simp add: sample_m4_def)
  have "\<not> mg_closing sample_m4" by code_simp
  then have s6: "?step ?m5 sample_m6"
    using mgr_check [of ?m5 "[]" "''op_1''" "(None, None)" "[]" "\<lambda>x. x" True] by (simp add: sample_m6_def)
  let ?m7 = "sample_m6\<lparr>mg_tasks := [(''op_1'', Settling (None, None) sample_running)]\<rparr>"
  have cur: "check_current (None, None) ''op_1'' (mg_store sample_m6) = Settling (None, None) sample_running" by code_simp
  have s7: "?step sample_m6 ?m7"
    using mgr_current [of sample_m6 "[]" "''op_1''" "(None, None)" "[]" "\<lambda>x. x" True] unfolding cur by (simp add: sample_m6_def)
  have s8: "?step ?m7 sample_m8"
    using mgr_settle [of ?m7 "[]" "''op_1''" "(None, None)" sample_running "[]" True None "\<lambda>x. x" 9 9]
    by (simp add: sample_m8_def context_done_def)
  have s9: "?step sample_m8 sample_m9" using mgr_leave [of sample_m8 "[]" "''op_1''" "[]" "\<lambda>x. x" True] by (simp add: sample_m8_def sample_m9_def)
  have more: "reach ?step sample_m0 m \<Longrightarrow> ?step m m' \<Longrightarrow> reach ?step sample_m0 m'" for m m' by (rule reach_step)
  show ?thesis by (rule more [OF _ s9], rule more [OF _ s8], rule more [OF _ s7], rule more [OF _ s6], rule more [OF _ s5],
      rule more [OF _ s4], rule more [OF _ s3], rule more [OF _ s2], rule more [OF _ s1], rule reach_start)
qed

text \<open>C20: however calls of \<open>Create\<close>, \<open>Run\<close>, \<open>Cancel\<close> and \<open>Close\<close>, the reports of workers and
  their ends interleave, at most one goroutine holds an operation and the table of runners lists
  exactly the operations held. When the transitions that end operations are written, no
  operation's worker is ever started twice, and an operation whose worker is gone from a manager
  that is not closing is terminal (or pruned): none is left behind as running.\<close>

theorem operation_worker_once:
  assumes "manager_init sha m0" and "reach (manager_step sha healthy) m0 m"
  shows "distinct (held (mg_tasks m)) \<and> set (keys_of (mg_runners m)) = set (held (mg_tasks m))
    \<and> (healthy \<longrightarrow> distinct (mg_started m)
        \<and> (\<forall>opid \<in> set (mg_started m). opid \<notin> set (held (mg_tasks m)) \<longrightarrow> \<not> mg_closing m \<longrightarrow> settled (mg_store m) opid))"
proof -
  have "manager_inv healthy m" using op_manager.reachable_invar [OF assms(2,1)] .
  then show ?thesis using held_member after_start_holds unfolding manager_inv_def covered_def by blast
qed

theorem operation_worker_once_witness:
  "mg_started sample_m9 = [''op_1''] \<and> mg_tasks sample_m9 = [] \<and> settled (mg_store sample_m9) ''op_1''
   \<and> map_option (or_State \<circ> en_record) (map_of (os_operations (mg_store sample_m9)) ''op_1'') = Some StateSucceeded"
proof -
  have started: "mg_started sample_m9 = [''op_1'']" and none: "held (mg_tasks sample_m9) = []" "mg_tasks sample_m9 = []" "\<not> mg_closing sample_m9"
    and state: "map_option (or_State \<circ> en_record) (map_of (os_operations (mg_store sample_m9)) ''op_1'') = Some StateSucceeded"
    by (code_simp, code_simp, code_simp, code_simp, code_simp)
  have "settled (mg_store sample_m9) ''op_1''"
    using operation_worker_once [OF sample_manager_init sample_manager_steps] started none by simp
  then show ?thesis using started none state by blast
qed

end
