(* ===== verification/Spec2Isabelle.thy ===== *)
theory Spec2Isabelle
  imports Managed_Config Proxy Operation_Runs Resilience Provider_Drain Idempotency
    Kilo_Provider Inbound_Security Operation_Manager
begin

text \<open>
  Verification of ya-router, a local daemon that serves one OpenAI-compatible API in front of
  several upstream providers (GitHub Copilot, OpenAI Codex, Kilo Gateway).

  \<^bold>\<open>How the program works.\<close> A request takes a lease on the current runtime snapshot
  (\<open>internal/runtime\<close>): a configuration, a frozen registry of provider instances and a router
  over both. The router (\<open>internal/routing\<close>) resolves the requested model to a provider, by
  prefix, model map, catalog, or, for an umbrella model, by trying its targets in order of
  availability and cooldown. The proxy (\<open>src/proxy.go\<close>) runs the request against the provider,
  buffers the first bytes, fails over to the next target on an eligible failure, and feeds
  outcomes back into cooldowns, preferred targets, metrics and telemetry. The control plane
  (\<open>internal/control\<close>, \<open>src/mutation_runtime.go\<close>) changes the configuration by
  compare-and-swap on a revision kept by the state manager (\<open>internal/state\<close>); the provider
  manager (\<open>internal/provider\<close>) then builds new instances, publishes them as a new snapshot
  and closes the replaced ones once no request holds them. Requests of the Anthropic API are
  translated to the Responses API and their answers back (\<open>src/anthropic_*.go\<close>); the Codex
  provider translates chat requests the same way (\<open>src/responses_adapter.go\<close>). Long-running control operations are
  recorded in the operation store (\<open>internal/operation\<close>).

  \<^bold>\<open>Theories.\<close>
  \<^item> \<open>Go_Prelude\<close>: strings, times, wrap-around of \<open>int64\<close>, maps as association lists, and the two
    interfaces several components share: \<open>bounded_log\<close> (a log that keeps its newest entries)
    and \<open>invariant_system\<close> (a transition system with an invariant).
  \<^item> \<open>Prefixes\<close>: model namespaces (\<open>internal/routing/prefixes.go\<close>).
  \<^item> \<open>Config_Schema\<close>, \<open>Config_Defaults\<close>, \<open>Config_Mutations\<close>: the persisted schema with copy,
    redaction and validation (\<open>internal/config\<close>); defaults, migration and loading
    (\<open>src/config_defaults.go\<close>, \<open>src/config_migration.go\<close>, \<open>src/config.go\<close>); the typed
    mutations (\<open>internal/control/mutations.go\<close>).
  \<^item> \<open>State_Manager\<close>, \<open>State_Recovery\<close>, \<open>Managed_Config\<close>: the revisioned state and its files
    (\<open>internal/state\<close>); its runs with crashes and the locales \<open>managed_config\<close> and
    \<open>managed_store\<close>, interpreted on the daemon's loader and validator; the callers
    (\<open>src/mutation_runtime.go\<close>, \<open>src/config_persistence.go\<close>, \<open>src/revisioned_state.go\<close>).
  \<^item> \<open>Availability\<close>, \<open>Cooldown\<close>, \<open>Provider_Registry\<close>, \<open>Selector\<close>, \<open>Routing_Metrics\<close>, \<open>Router\<close>:
    one theory per file group of \<open>internal/availability\<close> and \<open>internal/routing\<close>, the registry
    of \<open>internal/provider/registry.go\<close>.
  \<^item> \<open>Telemetry\<close>, \<open>Json_Body\<close>, \<open>Http_Writers\<close>, \<open>Usage_Sniffer\<close>, \<open>Proxy\<close>, \<open>Resilience\<close>: the data
    plane of \<open>src/proxy.go\<close>, \<open>src/virtual_model_response.go\<close>, \<open>src/usage_sniffer.go\<close>,
    \<open>src/provider_error.go\<close>, \<open>internal/telemetry\<close> and \<open>internal/proxy\<close>; circuit breaker, retry and
    request coalescing.
  \<^item> \<open>Operation_Store\<close>, \<open>Operation_Invariant\<close>, \<open>Operation_Runs\<close>, \<open>Operation_Manager\<close>: the operation
    store of \<open>internal/operation\<close> and its runs; the manager that executes operations, with one step
    per access to the store and per region under its mutex.
  \<^item> \<open>Json_Decode\<close>, \<open>Responses_Adapter\<close>, \<open>Responses_Stream\<close>, \<open>Responses_Equivalence\<close>: decoding JSON
    into structs; requests, results and event streams between the chat and Responses formats
    (\<open>src/responses_adapter.go\<close>); what a client assembles of either form of a response.
  \<^item> \<open>Anthropic_Translate\<close>, \<open>Anthropic_Stream\<close>, \<open>Anthropic_Equivalence\<close>: the Anthropic facade, requests
    (\<open>src/anthropic_translate.go\<close>, \<open>src/anthropic_options.go\<close>), messages and event streams
    (\<open>src/anthropic_response.go\<close>, \<open>src/anthropic_sse*.go\<close>) and what a client assembles of them.
  \<^item> \<open>Upstream_Handlers\<close>: copying and translating an upstream response to any response writer
    (\<open>src/proxy.go\<close>, \<open>src/responses_adapter.go\<close>), the account-limit signal.
  \<^item> \<open>Codex_Auth\<close>, \<open>Codex_Provider\<close>: credentials, token refresh and the account pool of the Codex
    provider (\<open>src/codex_auth.go\<close>, \<open>src/codex_provider.go\<close>); its requests with circuit breaker,
    refresh on 401 and rotation of accounts.
  \<^item> \<open>Anthropic_Handler\<close>: the handler of \<open>/v1/messages\<close> with its header policy and error envelope
    (\<open>src/anthropic_handler.go\<close>, \<open>src/anthropic_error.go\<close>, \<open>src/anthropic_header_policy.go\<close>),
    composed with the router, the telemetry and the Codex provider.
  \<^item> \<open>Model_Catalog\<close>: the list of models (\<open>src/models.go\<close>), the cache behind every provider's list
    (\<open>src/model_cache.go\<close>) and the Codex manifest.
  \<^item> \<open>Kilo_Provider\<close>, \<open>Copilot_Provider\<close>: the other two clients (\<open>src/kilo_provider.go\<close>,
    \<open>src/copilot_provider*.go\<close>, \<open>src/embeddings.go\<close>), on the same writers, breaker and cache; runs of
    a provider are folds over the calls it receives.
  \<^item> \<open>Inbound_Security\<close>: the guard in front of every handler (\<open>src/security.go\<close>).
  \<^item> \<open>Idempotency\<close>: the idempotency middleware of the control plane
    (\<open>internal/control/idempotency.go\<close>) and its runs.
  \<^item> \<open>Runtime_Manager\<close>: leases, publication and retirement of snapshots (\<open>internal/runtime\<close>).
  \<^item> \<open>Provider_Events\<close>, \<open>Provider_Manager\<close>, \<open>Provider_Drain\<close>: \<open>internal/provider\<close>: lifecycle
    events, health and descriptors; the manager; and its composition with the runtime.

  \<^bold>\<open>Modelling.\<close> A struct is a record with the fields of the source, an operation a function that
  returns its result and the changed record; errors are constructors. Slices and maps that may be
  \<open>nil\<close> are options where the code or its JSON tells \<open>nil\<close> and empty apart. Unsigned counters
  (revisions, sequence numbers, generations) are natural numbers; \<open>int64\<close> durations that can
  overflow are written with their wrap-around. What a mutex protects is one transition; code that
  runs concurrently (leases, coalescing, telemetry, drains, operations) is a step relation with
  one step per critical section, so that its runs contain every interleaving. File systems,
  clocks, hashes, random identifiers, \<open>encoding/json\<close> on raw text and upstream answers are
  arguments: an operation that writes files takes the stage at which it is interrupted. Loops are
  structural recursions, or functions with a measure (the failover loop: the candidate targets not
  yet tried; the retry loop: the attempts left; the difference of two documents: their sizes), so
  nothing needs fuel.

  \<^bold>\<open>What is shown.\<close>
  \<^item> Routing and proxying: resolution and selection return exactly what their specifications
    say, failover never repeats a target and ends, a response is committed to the client at most
    once, every failure before output gets its mapped status, telemetry balances.
  \<^item> Cooldowns: duration and policy, no shortening, atomic persistence, sanitised reopening.
  \<^item> Configuration: redaction reveals nothing, validation and mutations agree, completion keeps
    credentials and converges, mutations are all-or-nothing, revisions are never lost or reused
    across faults and crashes.
  \<^item> Operations: life cycle, atomicity, idempotency, bounds, recovery; one worker per operation.
  \<^item> Adapters: translated requests keep the conversation, bodies for a backend hold only what it
    accepts, streamed and unstreamed responses are the same to a client, cutting a stream into
    pieces changes nothing. Every Anthropic request is answered, without upstream texts.
  \<^item> Codex provider: API keys and ChatGPT tokens never reach the other transport, one request
    uses an account at most once, refreshes are bounded and their errors redacted.
  \<^item> Other clients and the edge: without a key Kilo is asked for free models only and serves every
    model it lists, Copilot stays on one account, the catalog is exact, nothing but the health
    report is reachable without the key on an open address.
  \<^item> Runtime: retired snapshots are unused, no request runs on a closed provider, no instance
    leaks or is closed twice.
  \<^item> Where the code departs from what it documents, the theorem states what the code does
    (\<open>silent_failure_not_failed_over\<close>, \<open>retry_after_never_quota\<close>, \<open>breaker_protocol\<close>,
    \<open>runtime_config_frozen\<close>, \<open>unversioned_change_lost\<close>, \<open>folded_stream_loses_calls\<close>,
    \<open>codex_probe_leak\<close>, \<open>anthropic_chatgpt_refused\<close>).

  \<^bold>\<open>Not modelled.\<close> The interactive device logins (\<open>src/auth.go\<close>, \<open>src/*_device_flow.go\<close>) and the
  extraction of the free Copilot models from a documentation page (\<open>src/copilot_free_catalog.go\<close>)
  depend on services whose answers are free; the clients take their results as arguments. HTTP
  routing and views of the control plane, the terminal client, logging and the command line are
  input and output around the modelled components. The worker pool of \<open>src/proxy.go\<close> has no caller.
\<close>

end
